(* ===== verification/Prelude.thy ===== *)
theory Prelude
  imports Main "HOL-Library.Word"
begin

text \<open>
  Shared vocabulary of the development: the machine types of the C++ sources
  (\<open>uint8_t\<close>, \<open>uint32_t\<close>, \<open>uint64_t\<close> and the signed types, which are read with
  \<open>sint\<close>), arrays of 64-bit limbs with the number they denote (least significant limb
  first, as GMP and the field library store them), writes into an array prefix, and the
  generic lemmas on these that the components share.

  The collection \<open>limb_simps\<close> holds the rewrite rules on limb arrays, \<open>limb_bounds\<close> the
  bounds on their values.
\<close>

unbundle bit_operations_syntax

type_synonym u8 = "8 word"
type_synonym u32 = "32 word"
type_synonym u64 = "64 word"
type_synonym limb = "64 word"
type_synonym limbs = "limb list"

named_theorems limb_simps
named_theorems limb_bounds

section \<open>Limb arrays and their values\<close>

primrec lval :: "limbs \<Rightarrow> int" where
  "lval [] = 0"
| "lval (x # xs) = uint x + 2 ^ 64 * lval xs"

text \<open>The \<open>n\<close> least significant limbs of a number.\<close>

primrec limbs_of :: "nat \<Rightarrow> int \<Rightarrow> limbs" where
  "limbs_of 0 v = []"
| "limbs_of (Suc n) v = word_of_int v # limbs_of n (drop_bit 64 v)"

text \<open>Writing a block of limbs to the start of an array, the effect of a GMP call on its
  destination.\<close>

definition put :: "'a list \<Rightarrow> 'a list \<Rightarrow> 'a list" where
  "put dst src = src @ drop (length src) dst"

lemma length_put [simp]: "length src \<le> length dst \<Longrightarrow> length (put dst src) = length dst"
  by (simp add: put_def)

lemma put_full [simp]: "length src = length dst \<Longrightarrow> put dst src = src"
  by (simp add: put_def)

lemma length_limbs_of [simp]: "length (limbs_of n v) = n"
  by (induction n arbitrary: v) simp_all

lemma lval_nonneg [simp, limb_bounds]: "0 \<le> lval xs"
  by (induction xs) simp_all

lemma lval_append [limb_simps]: "lval (xs @ ys) = lval xs + 2 ^ (64 * length xs) * lval ys"
  by (induction xs) (simp_all add: algebra_simps power_add)

lemma lval_upper [limb_bounds]: "lval xs < 2 ^ (64 * length xs)"
proof (induction xs)
  case Nil
  show ?case by simp
next
  case (Cons x xs)
  have x: "uint x < 2 ^ 64"
    using uint_lt2p [of x] by simp
  have "lval xs + 1 \<le> 2 ^ (64 * length xs)"
    using Cons.IH by simp
  then have "2 ^ 64 * (lval xs + 1) \<le> 2 ^ 64 * 2 ^ (64 * length xs)"
    by (rule mult_left_mono) simp
  then have "uint x + 2 ^ 64 * lval xs < 2 ^ 64 * 2 ^ (64 * length xs)"
    using x by (simp add: algebra_simps)
  then show ?case by (simp add: power_add)
qed

lemma lval_replicate_0 [simp]: "lval (replicate n 0) = 0"
  by (induction n) simp_all

lemma lval_limbs_of [limb_simps]: "lval (limbs_of n v) = v mod 2 ^ (64 * n)"
proof (induction n arbitrary: v)
  case 0
  show ?case by simp
next
  case (Suc n)
  have "v mod 2 ^ (64 * Suc n) = v mod (2 ^ 64 * 2 ^ (64 * n))"
    by (simp add: power_add)
  also have "\<dots> = 2 ^ 64 * (v div 2 ^ 64 mod 2 ^ (64 * n)) + v mod 2 ^ 64"
    by (rule zmod_zmult2_eq) simp
  finally show ?case
    by (simp add: Suc.IH uint_word_of_int drop_bit_eq_div)
qed

lemma lval_inject: "length xs = length ys \<Longrightarrow> lval xs = lval ys \<longleftrightarrow> xs = ys"
proof (induction xs ys rule: list_induct2)
  case Nil
  show ?case by simp
next
  case (Cons x xs y ys)
  have "uint x = uint y \<and> lval xs = lval ys"
    if eq: "uint x + 2 ^ 64 * lval xs = uint y + 2 ^ 64 * lval ys"
  proof -
    have xy: "uint x < 2 ^ 64" "uint y < 2 ^ 64"
      using uint_lt2p [of x] uint_lt2p [of y] by simp_all
    from eq have "(uint x + 2 ^ 64 * lval xs) mod 2 ^ 64 = (uint y + 2 ^ 64 * lval ys) mod 2 ^ 64"
      by simp
    then have "uint x = uint y"
      using xy by (simp add: mod_pos_pos_trivial)
    with eq show ?thesis by simp
  qed
  then show ?case
    using Cons.IH by (auto dest: word_uint_eqI)
qed

lemma limbs_of_lval: "length xs = n \<Longrightarrow> limbs_of n (lval xs) = xs"
  using lval_inject [of "limbs_of n (lval xs)" xs] lval_upper [of xs]
  by (simp add: lval_limbs_of)

lemma lval_eq_0_iff: "lval xs = 0 \<longleftrightarrow> xs = replicate (length xs) 0"
  using lval_inject [of xs "replicate (length xs) 0"] by simp

lemma lval_take_drop: "n \<le> length xs \<Longrightarrow> lval xs = lval (take n xs) + 2 ^ (64 * n) * lval (drop n xs)"
  using lval_append [of "take n xs" "drop n xs"] by simp

lemma lval_drop1: "0 < length xs \<Longrightarrow> lval xs = uint (xs ! 0) + 2 ^ 64 * lval (drop 1 xs)"
  by (cases xs) simp_all

text \<open>Arrays of four and five limbs, the sizes of a field element and of a partial
  product.\<close>

lemma length4E:
  assumes "length xs = 4"
  obtains a b c d where "xs = [a, b, c, d]"
  using assms by (auto simp: numeral_eq_Suc length_Suc_conv)

lemma length5E:
  assumes "length xs = 5"
  obtains a b c d e where "xs = [a, b, c, d, e]"
  using assms by (auto simp: numeral_eq_Suc length_Suc_conv)

lemma lval_4_upper: "length xs = 4 \<Longrightarrow> lval xs < 2 ^ 256"
  using lval_upper [of xs] by simp

lemma lval_4: "length xs = 4 \<Longrightarrow>
    lval xs = uint (xs ! 0) + 2 ^ 64 * uint (xs ! 1) + 2 ^ 128 * uint (xs ! 2) + 2 ^ 192 * uint (xs ! 3)"
  by (elim length4E) (simp add: algebra_simps)

lemma uint_limb_upper [limb_bounds]: "uint (x :: limb) < 2 ^ 64"
  using uint_lt2p [of x] by simp

section \<open>Modular arithmetic\<close>

lemma mod_cancel_pow2:
  fixes a b q :: int
  assumes "coprime (2 :: int) q" and "(a * 2 ^ n) mod q = (b * 2 ^ n) mod q"
  shows "a mod q = b mod q"
proof -
  from assms(2) have "q dvd a * 2 ^ n - b * 2 ^ n"
    by (simp add: mod_eq_dvd_iff)
  then have "q dvd (a - b) * 2 ^ n"
    by (simp add: algebra_simps)
  moreover have "coprime q (2 ^ n)"
    using assms(1) by (simp add: coprime_commute)
  ultimately have "q dvd a - b"
    using coprime_dvd_mult_left_iff by blast
  then show ?thesis
    by (simp add: mod_eq_dvd_iff)
qed

lemma mod_add_right_self:
  fixes a q :: int
  assumes "- q \<le> a" and "a < 0"
  shows "a mod q = a + q"
proof -
  have "(a + q) mod q = a + q"
    using assms by (intro mod_pos_pos_trivial) simp_all
  then show ?thesis by simp
qed

lemma int_div_less:
  fixes s m k :: int
  assumes "0 < m" and "s < m * k"
  shows "s div m < k"
proof -
  have "m * (s div m) \<le> s"
    using assms(1) by (simp add: minus_mod_eq_mult_div [symmetric])
  then have "m * (s div m) < m * k" using assms(2) by (rule le_less_trans)
  then show ?thesis using assms(1) by simp
qed

lemma int_div_minus1:
  fixes d m :: int
  assumes "- m \<le> d" and "d < 0"
  shows "d div m = - 1"
proof -
  have "(d + m) div m = 0"
    using assms by (intro div_pos_pos_trivial) simp_all
  moreover have "(d + m) div m = d div m + 1"
    using assms by (intro div_add_self2) simp
  ultimately show ?thesis by simp
qed

lemma int_modI:
  fixes x q k r :: int
  assumes "x = q * k + r" and "0 \<le> r" and "r < q"
  shows "x mod q = r"
  using assms by simp

text \<open>Low part and carry, low part and borrow of a number at a word boundary.\<close>

lemma carry_value:
  fixes x m c s :: int
  assumes "x + m * c = s" and "0 \<le> x" and "x < m"
  shows "x = s mod m" and "c = s div m"
  using assms by (auto simp flip: assms(1))

lemma borrow_value:
  fixes x m c s :: int
  assumes "x - m * c = s" and "0 \<le> x" and "x < m"
  shows "x = s mod m" and "- c = s div m"
proof -
  have s: "s = x + m * - c" using assms(1) by simp
  show "x = s mod m" unfolding s mod_mult_self2 using assms by simp
  show "- c = s div m" unfolding s by (subst div_mult_self2) (use assms in simp_all)
qed

section \<open>Signed readings of words\<close>

lemma uint_sint_mod: "uint (w :: 'a::len word) = sint w mod 2 ^ LENGTH('a)"
  by (simp add: uint_sint take_bit_eq_mod)

lemma sint_bounds: "- (2 ^ (LENGTH('a) - 1)) \<le> sint (w :: 'a::len word)" "sint w < 2 ^ (LENGTH('a) - 1)"
  using sint_ge [of w] sint_lt [of w] by simp_all

lemma uint_neg:
  fixes w :: "'a::len word"
  assumes "sint w < 0"
  shows "uint w = sint w + 2 ^ LENGTH('a)"
proof -
  have "(2::int) ^ (LENGTH('a) - 1) \<le> 2 ^ LENGTH('a)"
    by (rule power_increasing) simp_all
  then have "- (2 ^ LENGTH('a)) \<le> sint w"
    using sint_bounds(1) [of w] by linarith
  then show ?thesis
    unfolding uint_sint_mod using assms by (rule mod_add_right_self)
qed

lemma uint_nonneg:
  fixes w :: "'a::len word"
  assumes "0 \<le> sint w"
  shows "uint w = sint w"
proof -
  have "(2::int) ^ (LENGTH('a) - 1) \<le> 2 ^ LENGTH('a)"
    by (rule power_increasing) simp_all
  then show ?thesis
    unfolding uint_sint_mod using assms sint_bounds(2) [of w]
    by (intro mod_pos_pos_trivial) linarith+
qed

end
