(* ===== verification/Gmp.thy ===== *)
theory Gmp
  imports Prelude
begin

text \<open>
  The GNU multiple precision library is not part of the repository. The low-level
  \<open>mpn\<close> functions that the field arithmetic calls are a parameter of the model, the record
  \<open>gmp\<close>, and what the GMP manual documents about them are the assumptions of the locale
  \<open>gmp_mpn\<close>. A function that writes \<open>n\<close> limbs through its result pointer returns these
  limbs, together with the limb it returns (a carry, a borrow or the most significant limb).
  An operand is the array its pointer points to; only the first \<open>n\<close> limbs count.
  The manual allows a result to be written over an operand, except that \<open>mpn_copyi\<close> copies
  limb by limb at increasing addresses: \<open>mpn_copyi_within G a d s n\<close> is this call when both
  pointers point into one array \<open>a\<close>, at the indices \<open>d\<close> (to) and \<open>s\<close> (from).

  \<open>gmp_ref\<close> is an instance computed from the documented number arithmetic; its
  interpretation shows that the assumptions can hold, and it makes the model executable.
\<close>

record gmp =
  mpn_add_n :: "limbs \<Rightarrow> limbs \<Rightarrow> nat \<Rightarrow> limbs \<times> limb"
  mpn_sub_n :: "limbs \<Rightarrow> limbs \<Rightarrow> nat \<Rightarrow> limbs \<times> limb"
  mpn_add_1 :: "limbs \<Rightarrow> nat \<Rightarrow> limb \<Rightarrow> limbs \<times> limb"
  mpn_sub_1 :: "limbs \<Rightarrow> nat \<Rightarrow> limb \<Rightarrow> limbs \<times> limb"
  mpn_add :: "limbs \<Rightarrow> nat \<Rightarrow> limbs \<Rightarrow> nat \<Rightarrow> limbs \<times> limb"
  mpn_mul_1 :: "limbs \<Rightarrow> nat \<Rightarrow> limb \<Rightarrow> limbs \<times> limb"
  mpn_addmul_1 :: "limbs \<Rightarrow> limbs \<Rightarrow> nat \<Rightarrow> limb \<Rightarrow> limbs \<times> limb"
  mpn_cmp :: "limbs \<Rightarrow> limbs \<Rightarrow> nat \<Rightarrow> int"
  mpn_zero_p :: "limbs \<Rightarrow> nat \<Rightarrow> int"
  mpn_copyi :: "limbs \<Rightarrow> nat \<Rightarrow> limbs"
  mpn_copyi_within :: "limbs \<Rightarrow> nat \<Rightarrow> nat \<Rightarrow> nat \<Rightarrow> limbs"
  mpn_and_n :: "limbs \<Rightarrow> limbs \<Rightarrow> nat \<Rightarrow> limbs"
  mpn_ior_n :: "limbs \<Rightarrow> limbs \<Rightarrow> nat \<Rightarrow> limbs"
  mpn_xor_n :: "limbs \<Rightarrow> limbs \<Rightarrow> nat \<Rightarrow> limbs"
  mpn_com :: "limbs \<Rightarrow> nat \<Rightarrow> limbs"
  mpn_lshift :: "limbs \<Rightarrow> nat \<Rightarrow> nat \<Rightarrow> limbs \<times> limb"
  mpn_rshift :: "limbs \<Rightarrow> nat \<Rightarrow> nat \<Rightarrow> limbs \<times> limb"

section \<open>What GMP documents\<close>

locale gmp_mpn =
  fixes G :: gmp
  assumes add_n: "n \<le> length a \<Longrightarrow> n \<le> length b \<Longrightarrow> mpn_add_n G a b n = (r, c) \<Longrightarrow>
      length r = n \<and> lval r + 2 ^ (64 * n) * uint c = lval (take n a) + lval (take n b)"
    and sub_n: "n \<le> length a \<Longrightarrow> n \<le> length b \<Longrightarrow> mpn_sub_n G a b n = (r, c) \<Longrightarrow>
      length r = n \<and> lval r - 2 ^ (64 * n) * uint c = lval (take n a) - lval (take n b)"
    and add_1: "n \<le> length a \<Longrightarrow> 0 < n \<Longrightarrow> mpn_add_1 G a n x = (r, c) \<Longrightarrow>
      length r = n \<and> lval r + 2 ^ (64 * n) * uint c = lval (take n a) + uint x"
    and sub_1: "n \<le> length a \<Longrightarrow> 0 < n \<Longrightarrow> mpn_sub_1 G a n x = (r, c) \<Longrightarrow>
      length r = n \<and> lval r - 2 ^ (64 * n) * uint c = lval (take n a) - uint x"
    and add: "n \<le> length a \<Longrightarrow> m \<le> length b \<Longrightarrow> m \<le> n \<Longrightarrow> mpn_add G a n b m = (r, c) \<Longrightarrow>
      length r = n \<and> lval r + 2 ^ (64 * n) * uint c = lval (take n a) + lval (take m b)"
    and mul_1: "n \<le> length a \<Longrightarrow> mpn_mul_1 G a n x = (r, c) \<Longrightarrow>
      length r = n \<and> lval r + 2 ^ (64 * n) * uint c = lval (take n a) * uint x"
    and addmul_1: "n \<le> length d \<Longrightarrow> n \<le> length a \<Longrightarrow> mpn_addmul_1 G d a n x = (r, c) \<Longrightarrow>
      length r = n \<and> lval r + 2 ^ (64 * n) * uint c = lval (take n d) + lval (take n a) * uint x"
    and cmp: "n \<le> length a \<Longrightarrow> n \<le> length b \<Longrightarrow>
      sgn (mpn_cmp G a b n) = sgn (lval (take n a) - lval (take n b))"
    and zero_p: "n \<le> length a \<Longrightarrow> mpn_zero_p G a n = (if lval (take n a) = 0 then 1 else 0)"
    and copyi: "n \<le> length a \<Longrightarrow> mpn_copyi G a n = take n a"
    and copyi_within: "to + n \<le> length a \<Longrightarrow> from' + n \<le> length a \<Longrightarrow>
      mpn_copyi_within G a to from' n = fold (\<lambda>i b. b[to + i := b ! (from' + i)]) [0..<n] a"
    and and_n: "n \<le> length a \<Longrightarrow> n \<le> length b \<Longrightarrow>
      mpn_and_n G a b n = map2 (AND) (take n a) (take n b)"
    and ior_n: "n \<le> length a \<Longrightarrow> n \<le> length b \<Longrightarrow>
      mpn_ior_n G a b n = map2 (OR) (take n a) (take n b)"
    and xor_n: "n \<le> length a \<Longrightarrow> n \<le> length b \<Longrightarrow>
      mpn_xor_n G a b n = map2 (XOR) (take n a) (take n b)"
    and com: "n \<le> length a \<Longrightarrow> mpn_com G a n = map (NOT) (take n a)"
    and lshift: "n \<le> length a \<Longrightarrow> 0 < n \<Longrightarrow> 0 < k \<Longrightarrow> k < 64 \<Longrightarrow> mpn_lshift G a n k = (r, c) \<Longrightarrow>
      length r = n \<and> lval r + 2 ^ (64 * n) * uint c = lval (take n a) * 2 ^ k"
    and rshift: "n \<le> length a \<Longrightarrow> 0 < n \<Longrightarrow> 0 < k \<Longrightarrow> k < 64 \<Longrightarrow> mpn_rshift G a n k = (r, c) \<Longrightarrow>
      length r = n \<and> lval r = lval (take n a) div 2 ^ k"
begin

text \<open>The forms in which the clients use the laws: on operands of exactly the length of
  the call, with the pair of results named by its projections.\<close>

lemma add_n_fst:
  assumes "length a = n" and "length b = n"
  shows "length (fst (mpn_add_n G a b n)) = n"
    and "lval (fst (mpn_add_n G a b n)) = (lval a + lval b) mod 2 ^ (64 * n)"
    and "uint (snd (mpn_add_n G a b n)) = (lval a + lval b) div 2 ^ (64 * n)"
proof -
  let ?r = "fst (mpn_add_n G a b n)" and ?c = "snd (mpn_add_n G a b n)"
  have eq: "length ?r = n" "lval ?r + 2 ^ (64 * n) * uint ?c = lval a + lval b"
    using add_n [of n a b ?r ?c] assms by simp_all
  show "length ?r = n" by (rule eq(1))
  have "lval ?r < 2 ^ (64 * n)" using lval_upper [of ?r] eq(1) by simp
  with eq(2) show "lval ?r = (lval a + lval b) mod 2 ^ (64 * n)"
    and "uint ?c = (lval a + lval b) div 2 ^ (64 * n)"
    by (auto intro: carry_value)
qed

lemma sub_n_fst:
  assumes "length a = n" and "length b = n"
  shows "length (fst (mpn_sub_n G a b n)) = n"
    and "lval (fst (mpn_sub_n G a b n)) = (lval a - lval b) mod 2 ^ (64 * n)"
    and "snd (mpn_sub_n G a b n) = 0 \<longleftrightarrow> lval b \<le> lval a"
proof -
  let ?r = "fst (mpn_sub_n G a b n)" and ?c = "snd (mpn_sub_n G a b n)"
  have eq: "length ?r = n" "lval ?r - 2 ^ (64 * n) * uint ?c = lval a - lval b"
    using sub_n [of n a b ?r ?c] assms by simp_all
  show "length ?r = n" by (rule eq(1))
  have r: "lval ?r < 2 ^ (64 * n)" using lval_upper [of ?r] eq(1) by simp
  show "lval ?r = (lval a - lval b) mod 2 ^ (64 * n)"
    by (rule borrow_value(1) [OF eq(2) lval_nonneg r])
  have "- uint ?c = (lval a - lval b) div 2 ^ (64 * n)"
    by (rule borrow_value(2) [OF eq(2) lval_nonneg r])
  moreover have "0 \<le> (lval a - lval b) div 2 ^ (64 * n) \<longleftrightarrow> lval b \<le> lval a"
    by (simp add: pos_imp_zdiv_nonneg_iff)
  ultimately show "?c = 0 \<longleftrightarrow> lval b \<le> lval a"
    by (metis neg_0_le_iff_le uint_0_iff uint_ge_0 order_antisym_conv)
qed

lemma cmp_less: "length a = n \<Longrightarrow> length b = n \<Longrightarrow> mpn_cmp G a b n < 0 \<longleftrightarrow> lval a < lval b"
  using cmp [of n a b] by (simp add: sgn_if split: if_splits)

lemma cmp_ge: "length a = n \<Longrightarrow> length b = n \<Longrightarrow> 0 \<le> mpn_cmp G a b n \<longleftrightarrow> lval b \<le> lval a"
  using cmp [of n a b] by (simp add: sgn_if split: if_splits)

lemma cmp_eq: "length a = n \<Longrightarrow> length b = n \<Longrightarrow> mpn_cmp G a b n = 0 \<longleftrightarrow> lval a = lval b"
  using cmp [of n a b] by (simp add: sgn_if split: if_splits)

lemma cmp_greater: "length a = n \<Longrightarrow> length b = n \<Longrightarrow> 0 < mpn_cmp G a b n \<longleftrightarrow> lval b < lval a"
  using cmp [of n a b] by (simp add: sgn_if split: if_splits)

end

section \<open>A reference instance\<close>

definition gmp_ref :: gmp where
  "gmp_ref = \<lparr>
     mpn_add_n = (\<lambda>a b n. let s = lval (take n a) + lval (take n b)
        in (limbs_of n s, word_of_int (s div 2 ^ (64 * n)))),
     mpn_sub_n = (\<lambda>a b n. let s = lval (take n a) - lval (take n b)
        in (limbs_of n s, word_of_int (- (s div 2 ^ (64 * n))))),
     mpn_add_1 = (\<lambda>a n x. let s = lval (take n a) + uint x
        in (limbs_of n s, word_of_int (s div 2 ^ (64 * n)))),
     mpn_sub_1 = (\<lambda>a n x. let s = lval (take n a) - uint x
        in (limbs_of n s, word_of_int (- (s div 2 ^ (64 * n))))),
     mpn_add = (\<lambda>a n b m. let s = lval (take n a) + lval (take m b)
        in (limbs_of n s, word_of_int (s div 2 ^ (64 * n)))),
     mpn_mul_1 = (\<lambda>a n x. let s = lval (take n a) * uint x
        in (limbs_of n s, word_of_int (s div 2 ^ (64 * n)))),
     mpn_addmul_1 = (\<lambda>d a n x. let s = lval (take n d) + lval (take n a) * uint x
        in (limbs_of n s, word_of_int (s div 2 ^ (64 * n)))),
     mpn_cmp = (\<lambda>a b n. sgn (lval (take n a) - lval (take n b))),
     mpn_zero_p = (\<lambda>a n. if lval (take n a) = 0 then 1 else 0),
     mpn_copyi = (\<lambda>a n. take n a),
     mpn_copyi_within = (\<lambda>a d s n. fold (\<lambda>i b. b[d + i := b ! (s + i)]) [0..<n] a),
     mpn_and_n = (\<lambda>a b n. map2 (AND) (take n a) (take n b)),
     mpn_ior_n = (\<lambda>a b n. map2 (OR) (take n a) (take n b)),
     mpn_xor_n = (\<lambda>a b n. map2 (XOR) (take n a) (take n b)),
     mpn_com = (\<lambda>a n. map (NOT) (take n a)),
     mpn_lshift = (\<lambda>a n k. let s = lval (take n a) * 2 ^ k
        in (limbs_of n s, word_of_int (s div 2 ^ (64 * n)))),
     mpn_rshift = (\<lambda>a n k. (limbs_of n (lval (take n a) div 2 ^ k), 0)) \<rparr>"

text \<open>A number that fits \<open>n\<close> limbs and one carry limb is its low limbs plus its carry;
  a difference of \<open>n\<close>-limb numbers is its low limbs minus its borrow.\<close>

lemma split_carry:
  assumes "0 \<le> s" and "s < 2 ^ (64 * n) * 2 ^ 64"
  shows "lval (limbs_of n s) + 2 ^ (64 * n) * uint (word_of_int (s div 2 ^ (64 * n)) :: limb) = s"
proof -
  have "s div 2 ^ (64 * n) < 2 ^ 64"
    using assms by (intro int_div_less) simp_all
  moreover have "0 \<le> s div 2 ^ (64 * n)"
    using assms by (simp add: pos_imp_zdiv_nonneg_iff)
  ultimately show ?thesis
    by (simp add: lval_limbs_of uint_word_of_int)
qed

lemma split_borrow:
  assumes "0 \<le> x" and "x < 2 ^ (64 * n)" and "0 \<le> y" and "y < 2 ^ (64 * n)"
  shows "lval (limbs_of n (x - y))
    - 2 ^ (64 * n) * uint (word_of_int (- ((x - y) div 2 ^ (64 * n))) :: limb) = x - y"
proof (cases "y \<le> x")
  case True
  then show ?thesis using assms by (simp add: lval_limbs_of)
next
  case False
  then have "(x - y) div 2 ^ (64 * n) = - 1"
    using assms by (intro int_div_minus1) simp_all
  moreover have "(x - y) mod 2 ^ (64 * n) = x - y + 2 ^ (64 * n)"
    using False assms by (intro mod_add_right_self) simp_all
  ultimately show ?thesis by (simp add: lval_limbs_of)
qed

lemma lval_take_upper: "n \<le> length a \<Longrightarrow> lval (take n a) < 2 ^ (64 * n)"
  using lval_upper [of "take n a"] by simp

lemma mul_upper:
  fixes x y X Y :: int
  assumes "0 \<le> x" "x < X" "0 \<le> y" "y < Y"
  shows "x * y \<le> (X - 1) * (Y - 1)"
  using assms by (intro mult_mono) simp_all

lemma add_upper:
  fixes x y X :: int
  assumes "0 \<le> x" "x < X" "y < X"
  shows "x + y < X * 2 ^ 64"
  using assms by simp

interpretation gref: gmp_mpn gmp_ref
proof (unfold_locales, goal_cases)
  case (1 n a b r c)
  have "lval (take n a) + lval (take n b) < 2 ^ (64 * n) * 2 ^ 64"
    using lval_take_upper [OF 1(1)] lval_take_upper [OF 1(2)] by (intro add_upper) simp_all
  with 1 show ?case
    by (auto simp: gmp_ref_def Let_def split_carry)
next
  case (2 n a b r c)
  then show ?case
    using split_borrow [of "lval (take n a)" n "lval (take n b)"] lval_take_upper [of n a]
      lval_take_upper [of n b]
    by (auto simp: gmp_ref_def Let_def)
next
  case (3 n a x r c)
  have p: "(2::int) ^ 64 \<le> 2 ^ (64 * n)" using 3 by (intro power_increasing) simp_all
  have "lval (take n a) + uint x < 2 ^ (64 * n) * 2 ^ 64"
    using lval_take_upper [OF 3(1)] uint_limb_upper [of x] p
    by (intro add_upper) (simp_all only: lval_nonneg)
  with 3 show ?case
    by (auto simp: gmp_ref_def Let_def split_carry)
next
  case (4 n a x r c)
  have p: "(2::int) ^ 64 \<le> 2 ^ (64 * n)" using 4 by (intro power_increasing) simp_all
  show ?case
    using 4 split_borrow [of "lval (take n a)" n "uint x"] lval_take_upper [of n a]
      uint_limb_upper [of x] p
    by (auto simp: gmp_ref_def Let_def)
next
  case (5 n a m b r c)
  have "(2::int) ^ (64 * m) \<le> 2 ^ (64 * n)" using 5 by (intro power_increasing) simp_all
  then have "lval (take n a) + lval (take m b) < 2 ^ (64 * n) * 2 ^ 64"
    using lval_take_upper [OF 5(1)] lval_take_upper [OF 5(2)]
    by (intro add_upper) (auto intro: less_le_trans)
  with 5 show ?case
    by (auto simp: gmp_ref_def Let_def split_carry)
next
  case (6 n a x r c)
  have "lval (take n a) * uint x < 2 ^ (64 * n) * 2 ^ 64"
    using lval_take_upper [OF 6(1)] uint_limb_upper [of x]
    by (intro mult_strict_mono) simp_all
  with 6 show ?case
    by (auto simp: gmp_ref_def Let_def split_carry)
next
  case (7 n d a x r c)
  have "lval (take n a) * uint x \<le> (2 ^ (64 * n) - 1) * (2 ^ 64 - 1)"
    using lval_take_upper [OF 7(2)] uint_limb_upper [of x] by (intro mul_upper) simp_all
  then have "lval (take n d) + lval (take n a) * uint x < 2 ^ (64 * n) * 2 ^ 64"
    using lval_take_upper [OF 7(1)] by (simp add: algebra_simps)
  with 7 show ?case
    by (auto simp: gmp_ref_def Let_def split_carry)
next
  case (16 n a k r c)
  have "(2::int) ^ k \<le> 2 ^ 64" using 16 by (intro power_increasing) simp_all
  then have "lval (take n a) * 2 ^ k < 2 ^ (64 * n) * 2 ^ 64"
    using lval_take_upper [OF 16(1)] by (intro mult_less_le_imp_less) simp_all
  with 16 show ?case
    by (auto simp: gmp_ref_def Let_def split_carry)
next
  case (17 n a k r c)
  have "lval (take n a) div 2 ^ k \<le> lval (take n a)"
    using zdiv_mono2 [of "lval (take n a)" 1 "2 ^ k"] by simp
  then have "lval (take n a) div 2 ^ k mod 2 ^ (64 * n) = lval (take n a) div 2 ^ k"
    using lval_take_upper [OF 17(1)] by (intro mod_pos_pos_trivial) (simp_all add: pos_imp_zdiv_nonneg_iff)
  with 17 show ?case
    by (auto simp: gmp_ref_def lval_limbs_of)
qed (simp_all add: gmp_ref_def)

end
