(* ===== verification/RawField.thy ===== *)
theory RawField
  imports Gmp
begin

text \<open>
  The raw field arithmetic of the portable build (\<open>build/fr_raw_generic.cpp\<close> and
  \<open>build/fq_raw_generic.cpp\<close>, both generated from one template): elements are arrays of four
  64-bit limbs, reduced modulo the prime, and multiplication is Montgomery's with
  \<open>R = 2^256\<close>. The two generated files differ in their constants only, so each routine is
  one definition \<open>F_raw...\<close> over a record of constants, and \<open>Fr_raw...\<close>, \<open>Fq_raw...\<close> are its
  instances at the scalar field and at the base field of the curve.

  The locale \<open>mont_field\<close> is what a routine relies on: GMP as documented and constants that
  fit together. Its lemmas give the number each routine computes.
\<close>

section \<open>Constants\<close>

record field_consts =
  rawq :: limbs        \<comment> \<open>the prime, with a fifth zero limb\<close>
  np :: limb           \<comment> \<open>\<open>- q^-1\<close> modulo \<open>2^64\<close>\<close>
  lboMask :: limb      \<comment> \<open>mask of the top limb\<close>
  q_long :: limbs      \<comment> \<open>the prime, four limbs\<close>
  R2 :: limbs          \<comment> \<open>\<open>R^2 mod q\<close>\<close>
  R3 :: limbs          \<comment> \<open>\<open>R^3 mod q\<close>\<close>
  half :: limbs        \<comment> \<open>\<open>(q - 1) / 2\<close>\<close>
  rawR2 :: limbs       \<comment> \<open>\<open>R^2 mod q\<close> again\<close>

definition Fr_field :: field_consts where
  "Fr_field = \<lparr>
     rawq = [0x43e1f593f0000001, 0x2833e84879b97091, 0xb85045b68181585d, 0x30644e72e131a029, 0],
     np = 0xc2e1f593efffffff,
     lboMask = 0x3fffffffffffffff,
     q_long = [0x43e1f593f0000001, 0x2833e84879b97091, 0xb85045b68181585d, 0x30644e72e131a029],
     R2 = [0x1bb8e645ae216da7, 0x53fe3ab1e35c59e3, 0x8c49833d53bb8085, 0x0216d0b17f4e44a5],
     R3 = [0x5e94d8e1b4bf0040, 0x2a489cbe1cfbb6b8, 0x893cc664a19fcfed, 0x0cf8594b7fcc657c],
     half = [0xa1f0fac9f8000000, 0x9419f4243cdcb848, 0xdc2822db40c0ac2e, 0x183227397098d014],
     rawR2 = [0x1bb8e645ae216da7, 0x53fe3ab1e35c59e3, 0x8c49833d53bb8085, 0x0216d0b17f4e44a5] \<rparr>"

definition Fq_field :: field_consts where
  "Fq_field = \<lparr>
     rawq = [0x3c208c16d87cfd47, 0x97816a916871ca8d, 0xb85045b68181585d, 0x30644e72e131a029, 0],
     np = 0x87d20782e4866389,
     lboMask = 0x3fffffffffffffff,
     q_long = [0x3c208c16d87cfd47, 0x97816a916871ca8d, 0xb85045b68181585d, 0x30644e72e131a029],
     R2 = [0xf32cfc5b538afa89, 0xb5e71911d44501fb, 0x47ab1eff0a417ff6, 0x06d89f71cab8351f],
     R3 = [0xb1cd6dafda1530df, 0x62f210e6a7283db6, 0xef7f0b0c0ada0afb, 0x20fd6e902d592544],
     half = [0x9e10460b6c3e7ea3, 0xcbc0b548b438e546, 0xdc2822db40c0ac2e, 0x183227397098d014],
     rawR2 = [0xf32cfc5b538afa89, 0xb5e71911d44501fb, 0x47ab1eff0a417ff6, 0x06d89f71cab8351f] \<rparr>"

text \<open>The number the prime's limbs denote, and what the constants must satisfy.\<close>

definition prime_of :: "field_consts \<Rightarrow> int" where
  "prime_of P = lval (q_long P)"

definition field_ok :: "field_consts \<Rightarrow> bool" where
  "field_ok P \<longleftrightarrow>
     length (q_long P) = 4 \<and> rawq P = q_long P @ [0]
   \<and> odd (prime_of P) \<and> 2 ^ 253 \<le> prime_of P \<and> prime_of P < 2 ^ 254
   \<and> (uint (np P) * prime_of P) mod 2 ^ 64 = 2 ^ 64 - 1
   \<and> lboMask P = 2 ^ 62 - 1
   \<and> length (R2 P) = 4 \<and> lval (R2 P) = 2 ^ 512 mod prime_of P
   \<and> length (R3 P) = 4 \<and> lval (R3 P) = 2 ^ 768 mod prime_of P
   \<and> length (half P) = 4 \<and> 2 * lval (half P) + 1 = prime_of P
   \<and> rawR2 P = R2 P"

section \<open>Additive routines\<close>

definition F_rawAdd :: "field_consts \<Rightarrow> gmp \<Rightarrow> limbs \<Rightarrow> limbs \<Rightarrow> limbs" where
  "F_rawAdd P G pRawA pRawB =
     (let (pRawResult, carry) = mpn_add_n G pRawA pRawB 4
      in if carry \<noteq> 0 \<or> mpn_cmp G pRawResult (rawq P) 4 \<ge> 0
         then fst (mpn_sub_n G pRawResult (rawq P) 4)
         else pRawResult)"

definition F_rawAddLS :: "field_consts \<Rightarrow> gmp \<Rightarrow> limbs \<Rightarrow> limb \<Rightarrow> limbs" where
  "F_rawAddLS P G pRawA rawB =
     (let (pRawResult, carry) = mpn_add_1 G pRawA 4 rawB
      in if carry \<noteq> 0 \<or> mpn_cmp G pRawResult (rawq P) 4 \<ge> 0
         then fst (mpn_sub_n G pRawResult (rawq P) 4)
         else pRawResult)"

definition F_rawSub :: "field_consts \<Rightarrow> gmp \<Rightarrow> limbs \<Rightarrow> limbs \<Rightarrow> limbs" where
  "F_rawSub P G pRawA pRawB =
     (let (pRawResult, carry) = mpn_sub_n G pRawA pRawB 4
      in if carry \<noteq> 0 then fst (mpn_add_n G pRawResult (rawq P) 4) else pRawResult)"

definition F_rawSubRegular :: "gmp \<Rightarrow> limbs \<Rightarrow> limbs \<Rightarrow> limbs" where
  "F_rawSubRegular G pRawA pRawB = fst (mpn_sub_n G pRawA pRawB 4)"

definition F_rawSubSL :: "field_consts \<Rightarrow> gmp \<Rightarrow> limb \<Rightarrow> limbs \<Rightarrow> limbs" where
  "F_rawSubSL P G rawA pRawB =
     (let pRawA = [rawA, 0, 0, 0];
          (pRawResult, carry) = mpn_sub_n G pRawA pRawB 4
      in if carry \<noteq> 0 then fst (mpn_add_n G pRawResult (rawq P) 4) else pRawResult)"

definition F_rawSubLS :: "field_consts \<Rightarrow> gmp \<Rightarrow> limbs \<Rightarrow> limb \<Rightarrow> limbs" where
  "F_rawSubLS P G pRawA rawB =
     (let (pRawResult, carry) = mpn_sub_1 G pRawA 4 rawB
      in if carry \<noteq> 0 then fst (mpn_add_n G pRawResult (rawq P) 4) else pRawResult)"

definition F_rawNeg :: "field_consts \<Rightarrow> gmp \<Rightarrow> limbs \<Rightarrow> limbs" where
  "F_rawNeg P G pRawA =
     (let zero = [0, 0, 0, 0]
      in if mpn_cmp G pRawA zero 4 \<noteq> 0 then fst (mpn_sub_n G (rawq P) pRawA 4)
         else mpn_copyi G zero 4)"

text \<open>Subtracts a long and a short element from 0. The first call writes the result array
  before the second reads \<open>pRawA\<close>: when the caller passes one array for both (\<open>alias\<close>), the
  operand is the intermediate result.\<close>

definition F_rawNegLS :: "field_consts \<Rightarrow> gmp \<Rightarrow> bool \<Rightarrow> limbs \<Rightarrow> limb \<Rightarrow> limbs" where
  "F_rawNegLS P G alias pRawA rawB =
     (let (pRawResult, carry1) = mpn_sub_1 G (rawq P) 4 rawB;
          pRawA' = (if alias then pRawResult else pRawA);
          (pRawResult, carry2) = mpn_sub_n G pRawResult pRawA' 4
      in if carry1 \<noteq> 0 \<or> carry2 \<noteq> 0 then fst (mpn_add_n G pRawResult (rawq P) 4)
         else pRawResult)"

definition F_rawCopy :: "limbs \<Rightarrow> limbs" where
  "F_rawCopy pRawA = [pRawA ! 0, pRawA ! 1, pRawA ! 2, pRawA ! 3]"

definition F_rawIsEq :: "gmp \<Rightarrow> limbs \<Rightarrow> limbs \<Rightarrow> u32" where
  "F_rawIsEq G pRawA pRawB = (if mpn_cmp G pRawA pRawB 4 = 0 then 1 else 0)"

definition F_rawIsZero :: "gmp \<Rightarrow> limbs \<Rightarrow> u32" where
  "F_rawIsZero G rawA = (if mpn_zero_p G rawA 4 \<noteq> 0 then 1 else 0)"

definition F_rawCmp :: "gmp \<Rightarrow> limbs \<Rightarrow> limbs \<Rightarrow> int" where
  "F_rawCmp G pRawA pRawB = mpn_cmp G pRawA pRawB 4"

text \<open>The swap returns the new contents of both arrays.\<close>

definition F_rawSwap :: "limbs \<Rightarrow> limbs \<Rightarrow> limbs \<times> limbs" where
  "F_rawSwap pRawResult pRawA =
     (let temp = [pRawResult ! 0, pRawResult ! 1, pRawResult ! 2, pRawResult ! 3];
          pRawResult = [pRawA ! 0, pRawA ! 1, pRawA ! 2, pRawA ! 3];
          pRawA = [temp ! 0, temp ! 1, temp ! 2, temp ! 3]
      in (pRawResult, pRawA))"

text \<open>A signed 64-bit integer as an element: a negative one is sign-extended to 256 bits and
  the prime is added, the carry out of the top limb being dropped.\<close>

definition F_rawCopyS2L :: "field_consts \<Rightarrow> gmp \<Rightarrow> u64 \<Rightarrow> limbs" where
  "F_rawCopyS2L P G v =
     (if sint v < 0
      then let pRawResult = [v, -1, -1, -1] in fst (mpn_add_n G pRawResult (rawq P) 4)
      else [v, 0, 0, 0])"

section \<open>Montgomery multiplication\<close>

text \<open>
  \<open>redc_row\<close> is the pair of statements \<open>np0 = Fr_np * product[0]; carry =
  mpn_addmul_1(product, mq, N, np0)\<close>, \<open>mmul_row\<close> the block of four statements that the
  multiplication repeats for \<open>product1\<close>, \<open>product2\<close> and \<open>product3\<close>, and \<open>mmul1_row\<close> the same
  block without the product, as the multiplication by one limb and the conversion from
  Montgomery form repeat it. The carry of the reduction goes to index 1 of the next partial
  product, as in the source.
\<close>

definition redc_row :: "field_consts \<Rightarrow> gmp \<Rightarrow> limbs \<Rightarrow> limbs \<times> limb" where
  "redc_row P G product =
     (let np0 = np P * product ! 0;
          (w, carry) = mpn_addmul_1 G product (rawq P) 5 np0
      in (put product w, carry))"

definition mmul_row :: "field_consts \<Rightarrow> gmp \<Rightarrow> limbs \<Rightarrow> limbs \<Rightarrow> limb \<Rightarrow> limbs" where
  "mmul_row P G prev pRawB ai =
     (let (prev, carry) = redc_row P G prev;
          product = (replicate 5 0)[1 := carry];
          (w, carry) = mpn_addmul_1 G product pRawB 4 ai;
          product = (put product w)[4 := carry];
          (w, _) = mpn_add G product 5 (drop 1 prev) 4
      in put product w)"

definition mmul1_row :: "field_consts \<Rightarrow> gmp \<Rightarrow> limbs \<Rightarrow> limbs" where
  "mmul1_row P G prev =
     (let (prev, carry) = redc_row P G prev;
          product = (replicate 5 0)[1 := carry];
          (w, _) = mpn_add G product 5 (drop 1 prev) 4
      in put product w)"

text \<open>The common end: the last reduction, the copy of the upper four limbs and the
  conditional subtraction.\<close>

definition mmul_finish :: "field_consts \<Rightarrow> gmp \<Rightarrow> limbs \<Rightarrow> limbs" where
  "mmul_finish P G product3 =
     (let (product3, _) = redc_row P G product3;
          pRawResult = mpn_copyi G (drop 1 product3) 4
      in if mpn_cmp G pRawResult (rawq P) 4 \<ge> 0
         then fst (mpn_sub_n G pRawResult (rawq P) 4)
         else pRawResult)"

definition F_rawMMul :: "field_consts \<Rightarrow> gmp \<Rightarrow> limbs \<Rightarrow> limbs \<Rightarrow> limbs" where
  "F_rawMMul P G pRawA pRawB =
     (let (w, carry) = mpn_mul_1 G pRawB 4 (pRawA ! 0);
          product0 = (put (replicate 5 0) w)[4 := carry];
          product1 = mmul_row P G product0 pRawB (pRawA ! 1);
          product2 = mmul_row P G product1 pRawB (pRawA ! 2);
          product3 = mmul_row P G product2 pRawB (pRawA ! 3)
      in mmul_finish P G product3)"

definition F_rawMMul1 :: "field_consts \<Rightarrow> gmp \<Rightarrow> limbs \<Rightarrow> limb \<Rightarrow> limbs" where
  "F_rawMMul1 P G pRawA rawB =
     (let (w, carry) = mpn_mul_1 G pRawA 4 rawB;
          product0 = (put (replicate 5 0) w)[4 := carry];
          product1 = mmul1_row P G product0;
          product2 = mmul1_row P G product1;
          product3 = mmul1_row P G product2
      in mmul_finish P G product3)"

definition F_rawFromMontgomery :: "field_consts \<Rightarrow> gmp \<Rightarrow> limbs \<Rightarrow> limbs" where
  "F_rawFromMontgomery P G pRawA =
     (let product0 = mpn_copyi G pRawA 4 @ [0];
          product1 = mmul1_row P G product0;
          product2 = mmul1_row P G product1;
          product3 = mmul1_row P G product2
      in mmul_finish P G product3)"

definition F_rawMSquare :: "field_consts \<Rightarrow> gmp \<Rightarrow> limbs \<Rightarrow> limbs" where
  "F_rawMSquare P G pRawA = F_rawMMul P G pRawA pRawA"

definition F_rawToMontgomery :: "field_consts \<Rightarrow> gmp \<Rightarrow> limbs \<Rightarrow> limbs" where
  "F_rawToMontgomery P G pRawA = F_rawMMul P G pRawA (rawR2 P)"

section \<open>Bitwise routines\<close>

text \<open>The mask of the top limb and the conditional subtraction end every bitwise
  routine.\<close>

definition mask_reduce :: "field_consts \<Rightarrow> gmp \<Rightarrow> limbs \<Rightarrow> limbs" where
  "mask_reduce P G r =
     (let r = r[3 := r ! 3 AND lboMask P]
      in if mpn_cmp G r (rawq P) 4 \<ge> 0 then fst (mpn_sub_n G r (rawq P) 4) else r)"

definition F_rawAnd :: "field_consts \<Rightarrow> gmp \<Rightarrow> limbs \<Rightarrow> limbs \<Rightarrow> limbs" where
  "F_rawAnd P G pRawA pRawB = mask_reduce P G (mpn_and_n G pRawA pRawB 4)"

definition F_rawOr :: "field_consts \<Rightarrow> gmp \<Rightarrow> limbs \<Rightarrow> limbs \<Rightarrow> limbs" where
  "F_rawOr P G pRawA pRawB = mask_reduce P G (mpn_ior_n G pRawA pRawB 4)"

definition F_rawXor :: "field_consts \<Rightarrow> gmp \<Rightarrow> limbs \<Rightarrow> limbs \<Rightarrow> limbs" where
  "F_rawXor P G pRawA pRawB = mask_reduce P G (mpn_xor_n G pRawA pRawB 4)"

definition F_rawNot :: "field_consts \<Rightarrow> gmp \<Rightarrow> limbs \<Rightarrow> limbs" where
  "F_rawNot P G pRawA = mask_reduce P G (mpn_com G pRawA 4)"

text \<open>Shifts by \<open>b\<close> bits, for \<open>b < 256\<close> (the callers pass less than 254): whole limbs are moved
  first, then the rest of the bits. With \<open>alias\<close> the result array is the operand, and the
  increasing copy of the left shift overlaps its source.\<close>

definition F_rawShl :: "field_consts \<Rightarrow> gmp \<Rightarrow> bool \<Rightarrow> limbs \<Rightarrow> u64 \<Rightarrow> limbs" where
  "F_rawShl P G alias a b =
     (let bit_shift = unat (b mod 64);
          word_shift = unat (b div 64);
          word_count = 4 - word_shift;
          r = (if alias then mpn_copyi_within G a word_shift 0 word_count
               else replicate word_shift 0 @ mpn_copyi G a word_count);
          r = put r (replicate word_shift 0);
          r = (if bit_shift \<noteq> 0 then fst (mpn_lshift G r 4 bit_shift) else r)
      in mask_reduce P G r)"

definition F_rawShr :: "gmp \<Rightarrow> limbs \<Rightarrow> u64 \<Rightarrow> limbs" where
  "F_rawShr G a b =
     (let bit_shift = unat (b mod 64);
          word_shift = unat (b div 64);
          word_count = 4 - word_shift;
          r = mpn_copyi G (drop word_shift a) word_count @ replicate word_shift 0
      in if bit_shift \<noteq> 0 then fst (mpn_rshift G r 4 bit_shift) else r)"

definition F_rawZero :: limbs where
  "F_rawZero = [0, 0, 0, 0]"

section \<open>The two instances\<close>

lemma prime_of_Fr: "prime_of Fr_field = 21888242871839275222246405745257275088548364400416034343698204186575808495617"
  by (simp add: prime_of_def Fr_field_def)

lemma Fr_R2: "(2::int) ^ 512 mod 21888242871839275222246405745257275088548364400416034343698204186575808495617
    = 944936681149208446651664254269745548490766851729442924617792859073125903783"
  by (rule int_modI [where k = "612557527273816073910311476275045157067432104571610153771051915293407781491289"]) simp_all

lemma Fr_R3: "(2::int) ^ 768 mod 21888242871839275222246405745257275088548364400416034343698204186575808495617
    = 5866548545943845227489894872040244720403868105578784105281690076696998248512"
  by (rule int_modI [where k = "70929315861079460050545713470651790607402830534048198787532827173243548470465703496313271925294460383522548860604705121879455647723825082663417941967568832"]) simp_all

lemma Fr_np: "(14042775128853446655::int) * 21888242871839275222246405745257275088548364400416034343698204186575808495617 mod 2 ^ 64 = 2 ^ 64 - 1"
  by (rule int_modI [where k = "16662651760482593750343275155358532940078388361286693648211298903031153094220"]) simp_all

lemma field_ok_Fr: "field_ok Fr_field"
  unfolding field_ok_def prime_of_Fr Fr_R2 Fr_R3
  using Fr_np by (simp add: Fr_field_def)

lemma prime_of_Fq: "prime_of Fq_field = 21888242871839275222246405745257275088696311157297823662689037894645226208583"
  by (simp add: prime_of_def Fq_field_def)

lemma Fq_R2: "(2::int) ^ 512 mod 21888242871839275222246405745257275088696311157297823662689037894645226208583
    = 3096616502983703923843567936837374451735540968419076528771170197431451843209"
  by (rule int_modI [where k = "612557527273816073910311476275045157063291712851072105081573245353947274219089"]) simp_all

lemma Fq_R3: "(2::int) ^ 768 mod 21888242871839275222246405745257275088696311157297823662689037894645226208583
    = 14921786541159648185948152738563080959093619838510245177710943249661917737183"
  by (rule int_modI [where k = "70929315861079460050545713470651790606923405926466211915113036792909980961599421414997981004512474711712187937888378613618671853005854333634873964382086231"]) simp_all

lemma Fq_np: "(9786893198990664585::int) * 21888242871839275222246405745257275088696311157297823662689037894645226208583 mod 2 ^ 64 = 2 ^ 64 - 1"
  by (rule int_modI [where k = "11612775373490694599845756993208707938454258878795119706039989805204389739840"]) simp_all

lemma field_ok_Fq: "field_ok Fq_field"
  unfolding field_ok_def prime_of_Fq Fq_R2 Fq_R3
  using Fq_np by (simp add: Fq_field_def)

section \<open>What the routines compute\<close>

text \<open>A reduced element: four limbs below the prime.\<close>

definition raw_elem :: "field_consts \<Rightarrow> limbs \<Rightarrow> bool" where
  "raw_elem P a \<longleftrightarrow> length a = 4 \<and> lval a < prime_of P"

lemma raw_elem_length [simp]: "raw_elem P a \<Longrightarrow> length a = 4"
  by (simp add: raw_elem_def)

locale mont_field = gmp_mpn G for G :: gmp +
  fixes P :: field_consts
  assumes params_ok: "field_ok P"
begin

lemma length_q: "length (q_long P) = 4" and rawq: "rawq P = q_long P @ [0]"
  and q_odd: "odd (prime_of P)" and q_lower: "2 ^ 253 \<le> prime_of P"
  and q_upper: "prime_of P < 2 ^ 254"
  and np: "(uint (np P) * prime_of P) mod 2 ^ 64 = 2 ^ 64 - 1"
  and mask: "lboMask P = 2 ^ 62 - 1"
  and R2: "length (R2 P) = 4" "lval (R2 P) = 2 ^ 512 mod prime_of P"
  and R3: "length (R3 P) = 4" "lval (R3 P) = 2 ^ 768 mod prime_of P"
  and half: "length (half P) = 4" "2 * lval (half P) + 1 = prime_of P"
  and rawR2: "rawR2 P = R2 P"
  using params_ok by (simp_all add: field_ok_def)

lemma q_pos: "0 < prime_of P"
  using q_lower by simp

lemma limb_lt_q: "uint (x :: limb) < prime_of P"
  using q_lower uint_limb_upper [of x] by simp

lemma length_rawq: "length (rawq P) = 5"
  by (simp add: rawq length_q)

lemma lval_rawq: "lval (rawq P) = prime_of P" "lval (take 4 (rawq P)) = prime_of P"
  by (simp_all add: rawq length_q prime_of_def lval_append)

lemma coprime_2_q: "coprime 2 (prime_of P)"
  using q_odd by simp

lemma cmp_q:
  assumes "length r = 4"
  shows "0 \<le> mpn_cmp G r (rawq P) 4 \<longleftrightarrow> prime_of P \<le> lval r"
proof -
  have "sgn (mpn_cmp G r (rawq P) 4) = sgn (lval r - prime_of P)"
    using cmp [of 4 r "rawq P"] assms by (simp add: length_rawq lval_rawq)
  then show ?thesis by (simp add: sgn_if split: if_splits)
qed

lemma sub_q:
  assumes "length r = 4"
  shows "length (fst (mpn_sub_n G r (rawq P) 4)) = 4"
    and "lval (fst (mpn_sub_n G r (rawq P) 4)) = (lval r - prime_of P) mod 2 ^ 256"
proof -
  let ?d = "fst (mpn_sub_n G r (rawq P) 4)" and ?c = "snd (mpn_sub_n G r (rawq P) 4)"
  have eq: "length ?d = 4" "lval ?d - 2 ^ (64 * 4) * uint ?c = lval r - prime_of P"
    using sub_n [of 4 r "rawq P" ?d ?c] assms by (simp_all add: length_rawq lval_rawq)
  show "length ?d = 4" by (rule eq(1))
  have "lval ?d < 2 ^ (64 * 4)" using lval_upper [of ?d] unfolding eq(1) .
  from borrow_value(1) [OF eq(2) lval_nonneg this]
  show "lval ?d = (lval r - prime_of P) mod 2 ^ 256" by simp
qed

lemma add_q:
  assumes "length r = 4"
  shows "length (fst (mpn_add_n G r (rawq P) 4)) = 4"
    and "lval (fst (mpn_add_n G r (rawq P) 4)) = (lval r + prime_of P) mod 2 ^ 256"
proof -
  let ?d = "fst (mpn_add_n G r (rawq P) 4)" and ?c = "snd (mpn_add_n G r (rawq P) 4)"
  have eq: "length ?d = 4" "lval ?d + 2 ^ (64 * 4) * uint ?c = lval r + prime_of P"
    using add_n [of 4 r "rawq P" ?d ?c] assms by (simp_all add: length_rawq lval_rawq)
  show "length ?d = 4" by (rule eq(1))
  have "lval ?d < 2 ^ (64 * 4)" using lval_upper [of ?d] unfolding eq(1) .
  from carry_value(1) [OF eq(2) lval_nonneg this]
  show "lval ?d = (lval r + prime_of P) mod 2 ^ 256" by simp
qed

text \<open>A number below twice the prime is reduced by one conditional subtraction.\<close>

lemma cond_sub_value:
  assumes "length r = 4" and "lval r < 2 * prime_of P"
  shows "raw_elem P (if 0 \<le> mpn_cmp G r (rawq P) 4 then fst (mpn_sub_n G r (rawq P) 4) else r)
    \<and> lval (if 0 \<le> mpn_cmp G r (rawq P) 4 then fst (mpn_sub_n G r (rawq P) 4) else r)
      = lval r mod prime_of P"
proof (cases "prime_of P \<le> lval r")
  case True
  then have r: "0 \<le> lval r - prime_of P" "lval r - prime_of P < prime_of P"
    using assms by simp_all
  then have "(lval r - prime_of P) mod 2 ^ 256 = lval r - prime_of P"
    using q_upper by (intro mod_pos_pos_trivial) simp_all
  moreover have "lval r mod prime_of P = lval r - prime_of P"
    using r by (metis mod_pos_pos_trivial minus_mod_self2)
  ultimately show ?thesis
    using True assms r by (simp add: cmp_q sub_q raw_elem_def)
next
  case False
  then show ?thesis
    using assms by (simp add: cmp_q raw_elem_def)
qed

lemma rawAdd:
  assumes "raw_elem P a" and "raw_elem P b"
  shows "raw_elem P (F_rawAdd P G a b)"
    and "lval (F_rawAdd P G a b) = (lval a + lval b) mod prime_of P"
proof -
  let ?r = "fst (mpn_add_n G a b 4)" and ?c = "snd (mpn_add_n G a b 4)"
  have ab: "length a = 4" "length b = 4" "lval a < prime_of P" "lval b < prime_of P"
    using assms by (simp_all add: raw_elem_def)
  then have lt: "lval a + lval b < 2 ^ (64 * 4)"
    using q_upper by simp
  have r: "length ?r = 4" "lval ?r = lval a + lval b"
    using add_n_fst [of a 4 b] ab lt by simp_all
  have "uint ?c = 0"
    using add_n_fst(3) [of a 4 b] ab lt by simp
  then have c: "?c = 0" by (simp add: uint_0_iff)
  have "lval ?r < 2 * prime_of P" using r ab by simp
  from cond_sub_value [OF r(1) this]
  show "raw_elem P (F_rawAdd P G a b)"
    and "lval (F_rawAdd P G a b) = (lval a + lval b) mod prime_of P"
    by (simp_all add: F_rawAdd_def case_prod_beta Let_def c r)
qed

lemma add_1_value:
  assumes "raw_elem P a"
  shows "length (fst (mpn_add_1 G a 4 x)) = 4" "snd (mpn_add_1 G a 4 x) = 0"
    "lval (fst (mpn_add_1 G a 4 x)) = lval a + uint x"
proof -
  let ?r = "fst (mpn_add_1 G a 4 x)" and ?c = "snd (mpn_add_1 G a 4 x)"
  have eq: "length ?r = 4" "lval ?r + 2 ^ (64 * 4) * uint ?c = lval a + uint x"
    using add_1 [of 4 a x ?r ?c] assms by (simp_all add: raw_elem_def)
  have "lval ?r < 2 ^ (64 * 4)" using lval_upper [of ?r] unfolding eq(1) .
  note v = carry_value [OF eq(2) lval_nonneg this]
  have s: "0 \<le> lval a + uint x" "lval a + uint x < 2 ^ (64 * 4)"
    using assms q_upper uint_limb_upper [of x] by (simp_all add: raw_elem_def)
  show "length ?r = 4" by (rule eq(1))
  show "lval ?r = lval a + uint x" using v(1) s by (simp only: mod_pos_pos_trivial)
  have "uint ?c = 0" using v(2) s by (simp only: div_pos_pos_trivial)
  then show "?c = 0" by (simp add: uint_0_iff)
qed

lemma rawAddLS:
  assumes "raw_elem P a"
  shows "raw_elem P (F_rawAddLS P G a x)"
    and "lval (F_rawAddLS P G a x) = (lval a + uint x) mod prime_of P"
proof -
  have "lval (fst (mpn_add_1 G a 4 x)) < 2 * prime_of P"
    using assms q_lower uint_limb_upper [of x]
    by (simp add: add_1_value raw_elem_def)
  from cond_sub_value [OF add_1_value(1) [OF assms] this]
  show "raw_elem P (F_rawAddLS P G a x)"
    and "lval (F_rawAddLS P G a x) = (lval a + uint x) mod prime_of P"
    using add_1_value [OF assms, of x]
    by (simp_all add: F_rawAddLS_def case_prod_beta Let_def)
qed

text \<open>A difference of numbers below \<open>q\<close>, taken modulo \<open>2^256\<close>, is reduced by adding the
  prime back when there was a borrow.\<close>

lemma sub_fix:
  assumes "length r = 4" and "lval r = d mod 2 ^ 256" and "- prime_of P \<le> d" and "d < prime_of P"
  shows "raw_elem P (if d < 0 then fst (mpn_add_n G r (rawq P) 4) else r)"
    and "lval (if d < 0 then fst (mpn_add_n G r (rawq P) 4) else r) = d mod prime_of P"
proof -
  have "lval (if d < 0 then fst (mpn_add_n G r (rawq P) 4) else r) = d mod prime_of P"
  proof (cases "d < 0")
    case True
    have "lval (fst (mpn_add_n G r (rawq P) 4)) = (d + prime_of P) mod 2 ^ 256"
      using assms by (simp only: add_q mod_add_left_eq)
    also have "\<dots> = d + prime_of P"
      using True assms q_upper by (intro mod_pos_pos_trivial) simp_all
    also have "\<dots> = d mod prime_of P"
      using True assms by (simp add: mod_add_right_self)
    finally show ?thesis using True by simp
  next
    case False
    then have "d mod 2 ^ 256 = d"
      using assms q_upper by (intro mod_pos_pos_trivial) simp_all
    then show ?thesis using False assms by simp
  qed
  moreover have "length (if d < 0 then fst (mpn_add_n G r (rawq P) 4) else r) = 4"
    using assms by (simp add: add_q)
  ultimately show "raw_elem P (if d < 0 then fst (mpn_add_n G r (rawq P) 4) else r)"
    and "lval (if d < 0 then fst (mpn_add_n G r (rawq P) 4) else r) = d mod prime_of P"
    using q_pos by (simp_all add: raw_elem_def)
qed

lemma rawSub:
  assumes "raw_elem P a" and "raw_elem P b"
  shows "raw_elem P (F_rawSub P G a b)"
    and "lval (F_rawSub P G a b) = (lval a - lval b) mod prime_of P"
proof -
  let ?r = "fst (mpn_sub_n G a b 4)" and ?c = "snd (mpn_sub_n G a b 4)"
  have ab: "length a = 4" "length b = 4" "lval a < prime_of P" "lval b < prime_of P"
    using assms by (simp_all add: raw_elem_def)
  have r: "length ?r = 4" "lval ?r = (lval a - lval b) mod 2 ^ 256"
    and c: "?c = 0 \<longleftrightarrow> \<not> lval a - lval b < 0"
    using sub_n_fst [of a 4 b] ab by auto
  have d: "- prime_of P \<le> lval a - lval b" "lval a - lval b < prime_of P"
    using ab lval_nonneg [of a] lval_nonneg [of b] by linarith+
  show "raw_elem P (F_rawSub P G a b)"
    and "lval (F_rawSub P G a b) = (lval a - lval b) mod prime_of P"
    using sub_fix [OF r d] c by (simp_all add: F_rawSub_def case_prod_beta Let_def)
qed

lemma rawSubSL:
  assumes "raw_elem P b"
  shows "raw_elem P (F_rawSubSL P G x b)"
    and "lval (F_rawSubSL P G x b) = (uint x - lval b) mod prime_of P"
proof -
  have x: "raw_elem P [x, 0, 0, 0]"
    using q_lower uint_limb_upper [of x] by (simp add: raw_elem_def)
  have "F_rawSubSL P G x b = F_rawSub P G [x, 0, 0, 0] b"
    by (simp add: F_rawSubSL_def F_rawSub_def)
  then show "raw_elem P (F_rawSubSL P G x b)"
    and "lval (F_rawSubSL P G x b) = (uint x - lval b) mod prime_of P"
    using rawSub [OF x assms] by simp_all
qed

lemma sub_1_value:
  assumes "4 \<le> length a"
  shows "length (fst (mpn_sub_1 G a 4 x)) = 4"
    "lval (fst (mpn_sub_1 G a 4 x)) = (lval (take 4 a) - uint x) mod 2 ^ 256"
    "snd (mpn_sub_1 G a 4 x) = 0 \<longleftrightarrow> \<not> lval (take 4 a) - uint x < 0"
proof -
  let ?r = "fst (mpn_sub_1 G a 4 x)" and ?c = "snd (mpn_sub_1 G a 4 x)"
  have eq: "length ?r = 4" "lval ?r - 2 ^ (64 * 4) * uint ?c = lval (take 4 a) - uint x"
    using sub_1 [of 4 a x ?r ?c] assms by simp_all
  have "lval ?r < 2 ^ (64 * 4)" using lval_upper [of ?r] unfolding eq(1) .
  note v = borrow_value [OF eq(2) lval_nonneg this]
  show "length ?r = 4" by (rule eq(1))
  show "lval ?r = (lval (take 4 a) - uint x) mod 2 ^ 256" using v(1) by simp
  have "0 \<le> (lval (take 4 a) - uint x) div 2 ^ (64 * 4) \<longleftrightarrow> 0 \<le> lval (take 4 a) - uint x"
    by (rule pos_imp_zdiv_nonneg_iff) simp
  then show "?c = 0 \<longleftrightarrow> \<not> lval (take 4 a) - uint x < 0"
    unfolding v(2) [symmetric]
    by (metis neg_0_le_iff_le uint_0_iff uint_ge_0 order_antisym_conv not_less)
qed

lemma rawSubLS:
  assumes "raw_elem P a"
  shows "raw_elem P (F_rawSubLS P G a x)"
    and "lval (F_rawSubLS P G a x) = (lval a - uint x) mod prime_of P"
proof -
  have a: "length a = 4" "lval a < prime_of P" using assms by (simp_all add: raw_elem_def)
  have v: "length (fst (mpn_sub_1 G a 4 x)) = 4"
    "lval (fst (mpn_sub_1 G a 4 x)) = (lval a - uint x) mod 2 ^ 256"
    "snd (mpn_sub_1 G a 4 x) = 0 \<longleftrightarrow> \<not> lval a - uint x < 0"
    using sub_1_value [of a x] a by simp_all
  have d: "- prime_of P \<le> lval a - uint x" "lval a - uint x < prime_of P"
    using a limb_lt_q [of x] lval_nonneg [of a] uint_ge_0 [of x] by linarith+
  show "raw_elem P (F_rawSubLS P G a x)"
    and "lval (F_rawSubLS P G a x) = (lval a - uint x) mod prime_of P"
    using sub_fix [OF v(1,2) d] v(3) by (simp_all add: F_rawSubLS_def case_prod_beta Let_def)
qed

lemma rawNeg:
  assumes "raw_elem P a"
  shows "raw_elem P (F_rawNeg P G a)"
    and "lval (F_rawNeg P G a) = (- lval a) mod prime_of P"
proof -
  have a: "length a = 4" "lval a < prime_of P" using assms by (simp_all add: raw_elem_def)
  have z: "mpn_cmp G a [0, 0, 0, 0] 4 = 0 \<longleftrightarrow> lval a = 0"
    using cmp_eq [of a 4 "[0, 0, 0, 0]"] a by simp
  let ?r = "fst (mpn_sub_n G (rawq P) a 4)" and ?c = "snd (mpn_sub_n G (rawq P) a 4)"
  have eq: "length ?r = 4" "lval ?r - 2 ^ (64 * 4) * uint ?c = prime_of P - lval a"
    using sub_n [of 4 "rawq P" a ?r ?c] a by (simp_all add: length_rawq lval_rawq)
  have "lval ?r < 2 ^ (64 * 4)" using lval_upper [of ?r] unfolding eq(1) .
  from borrow_value(1) [OF eq(2) lval_nonneg this]
  have r: "lval ?r = prime_of P - lval a"
    using a q_upper lval_nonneg [of a] by (simp del: lval_nonneg)
  show "raw_elem P (F_rawNeg P G a)"
    and "lval (F_rawNeg P G a) = (- lval a) mod prime_of P"
    using z a r eq(1) q_pos lval_nonneg [of a] copyi [of 4 "[0, 0, 0, 0]"]
    by (auto simp: F_rawNeg_def raw_elem_def mod_add_right_self order_le_less)
qed

lemma rawNegLS:
  assumes "raw_elem P a" and "x \<noteq> 0"
  shows "raw_elem P (F_rawNegLS P G False a x)"
    and "lval (F_rawNegLS P G False a x) = (- lval a - uint x) mod prime_of P"
proof -
  have a: "length a = 4" "lval a < prime_of P" using assms by (simp_all add: raw_elem_def)
  have x: "0 < uint x" using assms(2) by (metis uint_0_iff uint_ge_0 order_le_less)
  let ?s = "fst (mpn_sub_1 G (rawq P) 4 x)" and ?d = "prime_of P - uint x - lval a"
  have "(prime_of P - uint x) mod 2 ^ 256 = prime_of P - uint x"
    using q_upper limb_lt_q [of x] x by (intro mod_pos_pos_trivial) simp_all
  then have v: "length ?s = 4" "lval ?s = prime_of P - uint x" "snd (mpn_sub_1 G (rawq P) 4 x) = 0"
    using sub_1_value [of "rawq P" x] limb_lt_q [of x] by (simp_all add: length_rawq lval_rawq)
  let ?r = "fst (mpn_sub_n G ?s a 4)" and ?c = "snd (mpn_sub_n G ?s a 4)"
  have r: "length ?r = 4" "lval ?r = ?d mod 2 ^ 256" and c: "?c = 0 \<longleftrightarrow> \<not> ?d < 0"
    using sub_n_fst [of ?s 4 a] v a by auto
  have d: "- prime_of P \<le> ?d" "?d < prime_of P"
    using a x limb_lt_q [of x] lval_nonneg [of a] by linarith+
  have "?d mod prime_of P = (prime_of P + (- lval a - uint x)) mod prime_of P"
    by (simp add: algebra_simps)
  then have m: "?d mod prime_of P = (- lval a - uint x) mod prime_of P" by simp
  show "raw_elem P (F_rawNegLS P G False a x)"
    and "lval (F_rawNegLS P G False a x) = (- lval a - uint x) mod prime_of P"
    using sub_fix [OF r d] c v(3) m by (simp_all add: F_rawNegLS_def case_prod_beta Let_def)
qed

lemma rawCopyS2L:
  "raw_elem P (F_rawCopyS2L P G v)"
  "lval (F_rawCopyS2L P G v) = sint v mod prime_of P"
proof -
  have b: "- (2 ^ 63) \<le> sint v" "sint v < 2 ^ 63"
    using sint_ge [of v] sint_lt [of v] by simp_all
  have s: "- prime_of P \<le> sint v" "sint v < prime_of P" using b q_lower by simp_all
  have neg: "lval [v, -1, -1, -1] = sint v mod 2 ^ 256" if "sint v < 0"
  proof -
    have "uint v = sint v + 2 ^ 64" using uint_neg [OF that] by simp
    then have "lval [v, -1, -1, -1] = sint v + 2 ^ 256"
      by (simp add: unsigned_minus_1_eq_mask mask_eq_exp_minus_1)
    moreover have "sint v mod 2 ^ 256 = sint v + 2 ^ 256"
      using that b by (intro mod_add_right_self) simp_all
    ultimately show ?thesis by simp
  qed
  have pos: "lval [v, 0, 0, 0] = sint v" if "\<not> sint v < 0"
    using that uint_nonneg [of v] by simp
  have eq: "F_rawCopyS2L P G v =
      (if sint v < 0 then fst (mpn_add_n G [v, -1, -1, -1] (rawq P) 4) else [v, 0, 0, 0])"
    by (simp add: F_rawCopyS2L_def)
  show "raw_elem P (F_rawCopyS2L P G v)"
    "lval (F_rawCopyS2L P G v) = sint v mod prime_of P"
    using sub_fix [OF _ neg s] pos s by (auto simp: eq raw_elem_def split: if_splits)
qed

lemma rawIsZero: "length a = 4 \<Longrightarrow> F_rawIsZero G a = (if lval a = 0 then 1 else 0)"
  using zero_p [of 4 a] by (simp add: F_rawIsZero_def)

lemma rawIsEq: "length a = 4 \<Longrightarrow> length b = 4 \<Longrightarrow> F_rawIsEq G a b = (if a = b then 1 else 0)"
  using cmp_eq [of a 4 b] lval_inject [of a b] by (simp add: F_rawIsEq_def)

end

end
