(* ===== verification/Montgomery.thy ===== *)
theory Montgomery
  imports RawField
begin

text \<open>
  Correctness of the Montgomery multiplication of \<open>build/fr_raw_generic.cpp\<close>: every row of
  the reduction stays within five limbs and below twice the prime, so one conditional
  subtraction at the end gives the reduced product; conversion to and from Montgomery form
  are inverse to each other.
\<close>

context mont_field
begin

subsection \<open>Montgomery reduction\<close>

text \<open>The bound on a partial product that keeps every step inside five limbs: \<open>B\<close> bounds
  what the rows add.\<close>

definition row_inv :: "int \<Rightarrow> limbs \<Rightarrow> bool" where
  "row_inv B N \<longleftrightarrow> length N = 5 \<and> lval N + prime_of P * (2 ^ 64 - 1) < 2 ^ 64 * (B + prime_of P)"

lemma redc_multiple:
  "(lval N + prime_of P * uint (np P * N ! 0)) mod 2 ^ 64 = 0" if "length N = 5"
proof -
  let ?M = "2 ^ 64 :: int"
  have u: "uint (np P * N ! 0) = (uint (np P) * uint (N ! 0)) mod ?M"
    by (simp add: uint_mult_lem uint_word_ariths)
  have "(prime_of P * uint (np P * N ! 0)) mod ?M
      = (uint (N ! 0) * (uint (np P) * prime_of P mod ?M)) mod ?M"
    unfolding u mod_mult_right_eq by (simp only: mult.commute mult.left_commute)
  also have "\<dots> = (uint (N ! 0) * (?M - 1)) mod ?M"
    unfolding np ..
  also have "\<dots> = (- uint (N ! 0) + ?M * uint (N ! 0)) mod ?M"
    by (rule arg_cong [where f = "\<lambda>z. z mod ?M"]) (simp add: algebra_simps)
  finally have e: "(prime_of P * uint (np P * N ! 0)) mod ?M = (- uint (N ! 0)) mod ?M"
    by (simp only: mod_mult_self2)
  have "lval N = uint (N ! 0) + ?M * lval (drop 1 N)"
    using that by (intro lval_drop1) simp
  then have "lval N mod ?M = uint (N ! 0) mod ?M"
    by (simp only: mod_mult_self2)
  from mod_add_cong [OF this e] have "(lval N + prime_of P * uint (np P * N ! 0)) mod ?M
      = (uint (N ! 0) + - uint (N ! 0)) mod ?M" .
  then show ?thesis by (simp only: add.right_inverse mod_0)
qed

lemma redc_row:
  assumes "row_inv B N" and "0 \<le> B" and "B < prime_of P"
  obtains N' m where "redc_row P G N = (N', 0)" and "length N' = 5"
    and "2 ^ 64 * lval (drop 1 N') = lval N + prime_of P * m" and "lval (drop 1 N') < B + prime_of P"
proof -
  let ?m = "uint (np P * N ! 0)" and ?w = "mpn_addmul_1 G N (rawq P) 5 (np P * N ! 0)"
  have N: "length N = 5" using assms(1) by (simp add: row_inv_def)
  have eq: "length (fst ?w) = 5"
    "lval (fst ?w) + 2 ^ (64 * 5) * uint (snd ?w) = lval N + prime_of P * ?m"
    using addmul_1 [of 5 N "rawq P" "np P * N ! 0" "fst ?w" "snd ?w"] N
    by (simp_all add: length_rawq lval_rawq)
  have "prime_of P * ?m \<le> prime_of P * (2 ^ 64 - 1)"
    using q_pos uint_limb_upper [of "np P * N ! 0"] by (intro mult_left_mono) simp_all
  then have S: "lval N + prime_of P * ?m < 2 ^ 64 * (B + prime_of P)"
    using assms(1) by (simp add: row_inv_def)
  then have S': "lval N + prime_of P * ?m < 2 ^ (64 * 5)"
    using q_upper assms(3) by simp
  have S0: "0 \<le> lval N + prime_of P * ?m" using q_pos by simp
  have "lval (fst ?w) < 2 ^ (64 * 5)" using lval_upper [of "fst ?w"] unfolding eq(1) .
  note v = carry_value [OF eq(2) lval_nonneg this]
  have w: "lval (fst ?w) = lval N + prime_of P * ?m"
    using v(1) S0 S' by (simp only: mod_pos_pos_trivial)
  have "uint (snd ?w) = 0"
    using v(2) S0 S' by (simp only: div_pos_pos_trivial)
  then have c: "snd ?w = 0" by (simp add: uint_0_iff)
  have d: "lval (fst ?w) = uint (fst ?w ! 0) + 2 ^ 64 * lval (drop 1 (fst ?w))"
    using eq(1) by (intro lval_drop1) simp
  have "uint (fst ?w ! 0) = lval (fst ?w) mod 2 ^ 64"
    by (rule carry_value(1) [OF d [symmetric]]) (simp_all add: uint_limb_upper [simplified])
  also have "\<dots> = 0" unfolding w by (rule redc_multiple [OF N])
  finally have e: "2 ^ 64 * lval (drop 1 (fst ?w)) = lval N + prime_of P * ?m"
    using d w by simp
  show thesis
  proof (rule that)
    show "redc_row P G N = (fst ?w, 0)"
      using c eq(1) N by (simp add: redc_row_def case_prod_beta Let_def)
    show "length (fst ?w) = 5" by (rule eq(1))
    show "2 ^ 64 * lval (drop 1 (fst ?w)) = lval N + prime_of P * ?m" by (rule e)
    show "lval (drop 1 (fst ?w)) < B + prime_of P" using e S by simp
  qed
qed

text \<open>The addition of the shifted partial product to a new row.\<close>

lemma add_row:
  assumes "length p = 5" and "lval p \<le> B * (2 ^ 64 - 1)" and "length N' = 5"
    and "lval (drop 1 N') < B + prime_of P" and "B < prime_of P"
  shows "row_inv B (put p (fst (mpn_add G p 5 (drop 1 N') 4)))"
    and "lval (put p (fst (mpn_add G p 5 (drop 1 N') 4))) = lval p + lval (drop 1 N')"
proof -
  let ?w = "fst (mpn_add G p 5 (drop 1 N') 4)" and ?c = "snd (mpn_add G p 5 (drop 1 N') 4)"
  have eq: "length ?w = 5" "lval ?w + 2 ^ (64 * 5) * uint ?c = lval p + lval (drop 1 N')"
    using add [of 5 p 4 "drop 1 N'" ?w ?c] assms(1,3) by simp_all
  have S: "lval p + lval (drop 1 N') + prime_of P * (2 ^ 64 - 1) < 2 ^ 64 * (B + prime_of P)"
    using assms(2,4) by simp
  then have S': "lval p + lval (drop 1 N') < 2 ^ (64 * 5)"
    using q_upper q_pos assms(5) by simp
  have "lval ?w < 2 ^ (64 * 5)" using lval_upper [of ?w] unfolding eq(1) .
  note v = carry_value(1) [OF eq(2) lval_nonneg this]
  have w: "lval ?w = lval p + lval (drop 1 N')"
    using v S' by (simp only: mod_pos_pos_trivial add_nonneg_nonneg lval_nonneg)
  then show "lval (put p ?w) = lval p + lval (drop 1 N')"
    using eq(1) assms(1) by simp
  with S show "row_inv B (put p ?w)"
    using eq(1) assms(1) by (simp add: row_inv_def)
qed

lemma mul_row_value:
  assumes "length b = 4"
  shows "length ((put (replicate 5 0) (fst (mpn_addmul_1 G (replicate 5 0) b 4 x)))
      [4 := snd (mpn_addmul_1 G (replicate 5 0) b 4 x)]) = 5"
    and "lval ((put (replicate 5 0) (fst (mpn_addmul_1 G (replicate 5 0) b 4 x)))
      [4 := snd (mpn_addmul_1 G (replicate 5 0) b 4 x)]) = lval b * uint x"
proof -
  let ?w = "fst (mpn_addmul_1 G (replicate 5 0) b 4 x)"
    and ?c = "snd (mpn_addmul_1 G (replicate 5 0) b 4 x)"
  have eq: "length ?w = 4" "lval ?w + 2 ^ (64 * 4) * uint ?c = lval b * uint x"
    using addmul_1 [of 4 "replicate 5 0" b x ?w ?c] assms by simp_all
  have p: "(put (replicate 5 0) ?w)[4 := ?c] = ?w @ [?c]"
    using eq(1) by (simp add: put_def list_update_append numeral_eq_Suc)
  show "length ((put (replicate 5 0) ?w)[4 := ?c]) = 5"
    and "lval ((put (replicate 5 0) ?w)[4 := ?c]) = lval b * uint x"
    using eq by (simp_all add: p lval_append)
qed

lemma mul_1_row_value:
  assumes "length b = 4"
  shows "length ((put (replicate 5 0) (fst (mpn_mul_1 G b 4 x)))[4 := snd (mpn_mul_1 G b 4 x)]) = 5"
    and "lval ((put (replicate 5 0) (fst (mpn_mul_1 G b 4 x)))[4 := snd (mpn_mul_1 G b 4 x)])
      = lval b * uint x"
proof -
  let ?w = "fst (mpn_mul_1 G b 4 x)" and ?c = "snd (mpn_mul_1 G b 4 x)"
  have eq: "length ?w = 4" "lval ?w + 2 ^ (64 * 4) * uint ?c = lval b * uint x"
    using mul_1 [of 4 b x ?w ?c] assms by simp_all
  have p: "(put (replicate 5 0) ?w)[4 := ?c] = ?w @ [?c]"
    using eq(1) by (simp add: put_def list_update_append numeral_eq_Suc)
  show "length ((put (replicate 5 0) ?w)[4 := ?c]) = 5"
    and "lval ((put (replicate 5 0) ?w)[4 := ?c]) = lval b * uint x"
    using eq by (simp_all add: p lval_append)
qed

lemma limb_product_upper: "0 \<le> b \<Longrightarrow> b * uint (x :: limb) \<le> b * (2 ^ 64 - 1)"
  using uint_limb_upper [of x] by (intro mult_left_mono) simp_all

lemma first_row:
  assumes "length b = 4"
  shows "row_inv (lval b)
    ((put (replicate 5 0) (fst (mpn_mul_1 G b 4 x)))[4 := snd (mpn_mul_1 G b 4 x)])"
  using limb_product_upper [of "lval b" x] q_pos
    lval_nonneg [of b] mul_1_row_value [OF assms, of x]
  unfolding row_inv_def by (simp del: lval_nonneg)

lemma mmul_row:
  assumes "row_inv (lval b) N" and "length b = 4" and "lval b < prime_of P"
  obtains m where "row_inv (lval b) (mmul_row P G N b x)"
    and "2 ^ 64 * lval (mmul_row P G N b x) = 2 ^ 64 * (lval b * uint x) + lval N + prime_of P * m"
proof -
  obtain N' m where r: "redc_row P G N = (N', 0)" "length N' = 5"
      "2 ^ 64 * lval (drop 1 N') = lval N + prime_of P * m" "lval (drop 1 N') < lval b + prime_of P"
    using redc_row [OF assms(1) lval_nonneg assms(3)] .
  define p where "p = (put (replicate 5 0) (fst (mpn_addmul_1 G (replicate 5 0) b 4 x)))
      [4 := snd (mpn_addmul_1 G (replicate 5 0) b 4 x)]"
  have p: "length p = 5" "lval p = lval b * uint x"
    unfolding p_def by (rule mul_row_value [OF assms(2)])+
  have z: "(replicate 5 0)[1 := 0] = (replicate 5 0 :: limbs)" by (simp add: numeral_eq_Suc)
  have row: "mmul_row P G N b x = put p (fst (mpn_add G p 5 (drop 1 N') 4))"
    by (simp add: mmul_row_def r(1) z p_def case_prod_beta Let_def del: replicate.simps One_nat_def)
  have "lval p \<le> lval b * (2 ^ 64 - 1)"
    unfolding p(2) by (rule limb_product_upper) simp
  note a = add_row [OF p(1) this r(2,4) assms(3)]
  show thesis
  proof (rule that)
    show "row_inv (lval b) (mmul_row P G N b x)"
      unfolding row by (rule a)
    show "2 ^ 64 * lval (mmul_row P G N b x) = 2 ^ 64 * (lval b * uint x) + lval N + prime_of P * m"
      unfolding row a(2) p(2) using r(3) by simp
  qed
qed

lemma mmul1_row:
  assumes "row_inv B N" and "0 \<le> B" and "B < prime_of P"
  obtains m where "row_inv B (mmul1_row P G N)"
    and "2 ^ 64 * lval (mmul1_row P G N) = lval N + prime_of P * m"
proof -
  obtain N' m where r: "redc_row P G N = (N', 0)" "length N' = 5"
      "2 ^ 64 * lval (drop 1 N') = lval N + prime_of P * m" "lval (drop 1 N') < B + prime_of P"
    using redc_row [OF assms] .
  have z: "(replicate 5 0)[1 := 0] = (replicate 5 0 :: limbs)" by (simp add: numeral_eq_Suc)
  have row: "mmul1_row P G N = put (replicate 5 0) (fst (mpn_add G (replicate 5 0) 5 (drop 1 N') 4))"
    by (simp add: mmul1_row_def r(1) z case_prod_beta Let_def del: replicate.simps One_nat_def)
  have "lval (replicate 5 0) \<le> B * (2 ^ 64 - 1)" using assms(2) by simp
  note a = add_row [OF length_replicate this r(2,4) assms(3)]
  show thesis
  proof (rule that)
    show "row_inv B (mmul1_row P G N)" unfolding row by (rule a)
    show "2 ^ 64 * lval (mmul1_row P G N) = lval N + prime_of P * m"
      unfolding row using r(3) a(2) by (simp only: lval_replicate_0 add_0)
  qed
qed

lemma mmul_finish:
  assumes "row_inv B N" and "0 \<le> B" and "B < prime_of P"
  obtains X m where "raw_elem P (mmul_finish P G N)" and "lval (mmul_finish P G N) = X mod prime_of P"
    and "2 ^ 64 * X = lval N + prime_of P * m"
proof -
  obtain N' m where r: "redc_row P G N = (N', 0)" "length N' = 5"
      "2 ^ 64 * lval (drop 1 N') = lval N + prime_of P * m" "lval (drop 1 N') < B + prime_of P"
    using redc_row [OF assms] .
  define D where "D = drop 1 N'"
  have "length D = 4" "lval D < 2 * prime_of P"
    using r assms(3) by (simp_all add: D_def)
  note v = cond_sub_value [OF this]
  have f: "mmul_finish P G N = (if 0 \<le> mpn_cmp G D (rawq P) 4 then fst (mpn_sub_n G D (rawq P) 4) else D)"
    using copyi [of 4 D] r by (simp add: mmul_finish_def D_def Let_def del: One_nat_def)
  show thesis
    using v r(3) by (intro that [of "lval D" m]) (simp_all only: f D_def)
qed

text \<open>Four reductions divide by \<open>2^256\<close> modulo the prime.\<close>

lemma mont_chain:
  fixes q M :: int
  assumes "M * X1 = M * Y1 + X0 + q * m0" and "M * X2 = M * Y2 + X1 + q * m1"
    and "M * X3 = M * Y3 + X2 + q * m2" and "M * R = X3 + q * m3"
  shows "(R mod q * M ^ 4) mod q = (X0 + M * Y1 + M ^ 2 * Y2 + M ^ 3 * Y3) mod q"
proof -
  have "R * M ^ 4 = M ^ 3 * (M * R)" by (simp add: eval_nat_numeral)
  also have "\<dots> = M ^ 2 * (M * X3) + q * (M ^ 3 * m3)"
    unfolding assms(4) by (simp add: algebra_simps eval_nat_numeral)
  also have "\<dots> = M * (M * X2) + M ^ 3 * Y3 + q * (M ^ 2 * m2 + M ^ 3 * m3)"
    unfolding assms(3) by (simp add: algebra_simps eval_nat_numeral)
  also have "\<dots> = M * X1 + M ^ 2 * Y2 + M ^ 3 * Y3 + q * (M * m1 + M ^ 2 * m2 + M ^ 3 * m3)"
    unfolding assms(2) by (simp add: algebra_simps eval_nat_numeral)
  also have "\<dots> = X0 + M * Y1 + M ^ 2 * Y2 + M ^ 3 * Y3 + q * (m0 + M * m1 + M ^ 2 * m2 + M ^ 3 * m3)"
    unfolding assms(1) by (simp add: algebra_simps eval_nat_numeral)
  finally show ?thesis by (simp only: mod_mult_left_eq mod_mult_self2)
qed

lemma rawMMul:
  assumes "length a = 4" and "raw_elem P b"
  shows "raw_elem P (F_rawMMul P G a b)"
    and "(lval (F_rawMMul P G a b) * 2 ^ 256) mod prime_of P = (lval a * lval b) mod prime_of P"
proof -
  have b: "length b = 4" "lval b < prime_of P" using assms(2) by (simp_all add: raw_elem_def)
  define p0 where "p0 = (put (replicate 5 0) (fst (mpn_mul_1 G b 4 (a ! 0))))
    [4 := snd (mpn_mul_1 G b 4 (a ! 0))]"
  define p1 where "p1 = mmul_row P G p0 b (a ! 1)"
  define p2 where "p2 = mmul_row P G p1 b (a ! 2)"
  define p3 where "p3 = mmul_row P G p2 b (a ! 3)"
  have v0: "lval p0 = lval b * uint (a ! 0)" and i0: "row_inv (lval b) p0"
    unfolding p0_def by (rule mul_1_row_value [OF b(1)], rule first_row [OF b(1)])
  obtain m0 where i1: "row_inv (lval b) p1"
    and v1: "2 ^ 64 * lval p1 = 2 ^ 64 * (lval b * uint (a ! 1)) + lval p0 + prime_of P * m0"
    using mmul_row [OF i0 b, of "a ! 1"] unfolding p1_def by blast
  obtain m1 where i2: "row_inv (lval b) p2"
    and v2: "2 ^ 64 * lval p2 = 2 ^ 64 * (lval b * uint (a ! 2)) + lval p1 + prime_of P * m1"
    using mmul_row [OF i1 b, of "a ! 2"] unfolding p2_def by blast
  obtain m2 where i3: "row_inv (lval b) p3"
    and v3: "2 ^ 64 * lval p3 = 2 ^ 64 * (lval b * uint (a ! 3)) + lval p2 + prime_of P * m2"
    using mmul_row [OF i2 b, of "a ! 3"] unfolding p3_def by blast
  obtain X m3 where e: "raw_elem P (mmul_finish P G p3)" "lval (mmul_finish P G p3) = X mod prime_of P"
    "2 ^ 64 * X = lval p3 + prime_of P * m3"
    using mmul_finish [OF i3 lval_nonneg b(2)] .
  have r: "F_rawMMul P G a b = mmul_finish P G p3"
    by (simp add: F_rawMMul_def case_prod_beta Let_def p0_def p1_def p2_def p3_def)
  show "raw_elem P (F_rawMMul P G a b)" unfolding r by (rule e)
  have "lval a * lval b = lval p0 + 2 ^ 64 * (lval b * uint (a ! 1))
      + (2 ^ 64) ^ 2 * (lval b * uint (a ! 2)) + (2 ^ 64) ^ 3 * (lval b * uint (a ! 3))"
    unfolding v0 lval_4 [OF assms(1)] by (simp add: algebra_simps)
  then show "(lval (F_rawMMul P G a b) * 2 ^ 256) mod prime_of P = (lval a * lval b) mod prime_of P"
    using mont_chain [OF v1 v2 v3 e(3)] unfolding r e(2) by simp
qed

text \<open>The chain of rows without a product.\<close>

lemma mmul1_chain:
  assumes "row_inv B N" and "0 \<le> B" and "B < prime_of P"
  shows "raw_elem P (mmul_finish P G (mmul1_row P G (mmul1_row P G (mmul1_row P G N))))"
    and "(lval (mmul_finish P G (mmul1_row P G (mmul1_row P G (mmul1_row P G N)))) * 2 ^ 256) mod prime_of P
      = lval N mod prime_of P"
proof -
  define p1 where "p1 = mmul1_row P G N"
  define p2 where "p2 = mmul1_row P G p1"
  define p3 where "p3 = mmul1_row P G p2"
  obtain m0 where i1: "row_inv B p1" and v1: "2 ^ 64 * lval p1 = lval N + prime_of P * m0"
    using mmul1_row [OF assms] unfolding p1_def by blast
  obtain m1 where i2: "row_inv B p2" and v2: "2 ^ 64 * lval p2 = lval p1 + prime_of P * m1"
    using mmul1_row [OF i1 assms(2,3)] unfolding p2_def by blast
  obtain m2 where i3: "row_inv B p3" and v3: "2 ^ 64 * lval p3 = lval p2 + prime_of P * m2"
    using mmul1_row [OF i2 assms(2,3)] unfolding p3_def by blast
  obtain X m3 where e: "raw_elem P (mmul_finish P G p3)" "lval (mmul_finish P G p3) = X mod prime_of P"
    "2 ^ 64 * X = lval p3 + prime_of P * m3"
    using mmul_finish [OF i3 assms(2,3)] .
  show "raw_elem P (mmul_finish P G (mmul1_row P G (mmul1_row P G (mmul1_row P G N))))"
    using e(1) by (simp only: p1_def p2_def p3_def)
  have "(X mod prime_of P * (2 ^ 64) ^ 4) mod prime_of P
      = (lval N + 2 ^ 64 * 0 + (2 ^ 64) ^ 2 * 0 + (2 ^ 64) ^ 3 * 0) mod prime_of P"
    by (rule mont_chain [OF _ _ _ e(3), of _ _ _ m0 _ _ m1 _ m2]) (simp_all only: v1 v2 v3 mult_zero_right add_0)
  then show "(lval (mmul_finish P G (mmul1_row P G (mmul1_row P G (mmul1_row P G N)))) * 2 ^ 256) mod prime_of P
      = lval N mod prime_of P"
    unfolding p1_def [symmetric] p2_def [symmetric] p3_def [symmetric] e(2) by simp
qed

lemma rawMMul1:
  assumes "raw_elem P a"
  shows "raw_elem P (F_rawMMul1 P G a x)"
    and "(lval (F_rawMMul1 P G a x) * 2 ^ 256) mod prime_of P = (lval a * uint x) mod prime_of P"
proof -
  have a: "length a = 4" "lval a < prime_of P" using assms by (simp_all add: raw_elem_def)
  note c = mmul1_chain [OF first_row [OF a(1), of x] lval_nonneg a(2)]
  show "raw_elem P (F_rawMMul1 P G a x)"
    and "(lval (F_rawMMul1 P G a x) * 2 ^ 256) mod prime_of P = (lval a * uint x) mod prime_of P"
    using c mul_1_row_value(2) [OF a(1), of x]
    by (simp_all add: F_rawMMul1_def case_prod_beta Let_def)
qed

text \<open>The conversion from Montgomery form needs no reduced operand: any four limbs do.\<close>

lemma rawFromMontgomery:
  assumes "length a = 4"
  shows "raw_elem P (F_rawFromMontgomery P G a)"
    and "(lval (F_rawFromMontgomery P G a) * 2 ^ 256) mod prime_of P = lval a mod prime_of P"
proof -
  have "row_inv (2 ^ 192) (a @ [0])"
    using lval_4_upper [OF assms] q_pos assms by (simp add: row_inv_def lval_append)
  from mmul1_chain [OF this] q_lower
  show "raw_elem P (F_rawFromMontgomery P G a)"
    and "(lval (F_rawFromMontgomery P G a) * 2 ^ 256) mod prime_of P = lval a mod prime_of P"
    using copyi [of 4 a] assms
    by (simp_all add: F_rawFromMontgomery_def Let_def lval_append)
qed

lemma rawMSquare:
  assumes "raw_elem P a"
  shows "raw_elem P (F_rawMSquare P G a)"
    and "(lval (F_rawMSquare P G a) * 2 ^ 256) mod prime_of P = (lval a * lval a) mod prime_of P"
  unfolding F_rawMSquare_def using rawMMul [OF _ assms, of a] assms by simp_all

lemma raw_elem_R2: "raw_elem P (R2 P)" and raw_elem_R3: "raw_elem P (R3 P)"
  using q_pos by (simp_all add: raw_elem_def R2 R3)

text \<open>Values of elements modulo the prime, after cancelling the Montgomery factor.\<close>

lemma mont_cancel:
  assumes "(x * 2 ^ 256) mod prime_of P = (y * 2 ^ 256) mod prime_of P"
  shows "x mod prime_of P = y mod prime_of P"
  by (rule mod_cancel_pow2 [OF coprime_2_q assms])

lemma elem_mod: "raw_elem P a \<Longrightarrow> lval a mod prime_of P = lval a"
  by (simp add: raw_elem_def)

lemma mont_value:
  assumes "raw_elem P r" and "(lval r * 2 ^ 256) mod prime_of P = (y * 2 ^ 256) mod prime_of P"
  shows "lval r = y mod prime_of P"
  using mont_cancel [OF assms(2)] elem_mod [OF assms(1)] by simp

lemma rawToMontgomery:
  assumes "length a = 4"
  shows "raw_elem P (F_rawToMontgomery P G a)"
    and "lval (F_rawToMontgomery P G a) = (lval a * 2 ^ 256) mod prime_of P"
proof -
  note m = rawMMul [OF assms raw_elem_R2]
  show r: "raw_elem P (F_rawToMontgomery P G a)"
    using m(1) by (simp add: F_rawToMontgomery_def rawR2)
  have "(2::int) ^ 512 = 2 ^ 256 * 2 ^ 256" by simp
  then have "(lval (F_rawToMontgomery P G a) * 2 ^ 256) mod prime_of P
      = (lval a * 2 ^ 256 * 2 ^ 256) mod prime_of P"
    using m(2) by (simp only: F_rawToMontgomery_def rawR2 R2 mod_mult_right_eq mult.assoc)
  from mont_value [OF r this]
  show "lval (F_rawToMontgomery P G a) = (lval a * 2 ^ 256) mod prime_of P" .
qed

lemma from_to_Montgomery:
  assumes "raw_elem P a"
  shows "F_rawFromMontgomery P G (F_rawToMontgomery P G a) = a"
    and "F_rawToMontgomery P G (F_rawFromMontgomery P G a) = a"
proof -
  let ?t = "F_rawToMontgomery P G a" and ?f = "F_rawFromMontgomery P G a"
  note t = rawToMontgomery [OF raw_elem_length [OF assms]]
    and f = rawFromMontgomery [OF raw_elem_length [OF assms]]
  note ft = rawFromMontgomery [OF raw_elem_length [OF t(1)]]
    and tf = rawToMontgomery [OF raw_elem_length [OF f(1)]]
  have "lval (F_rawFromMontgomery P G ?t) = lval a mod prime_of P"
    using ft(2) by (intro mont_value ft) (simp only: t(2) mod_mod_trivial)
  then show "F_rawFromMontgomery P G ?t = a"
    using lval_inject [of "F_rawFromMontgomery P G ?t" a] assms ft(1) by (simp add: elem_mod)
  have "lval (F_rawToMontgomery P G ?f) = lval a"
    using f(2) elem_mod [OF assms] by (simp only: tf(2))
  then show "F_rawToMontgomery P G ?f = a"
    using lval_inject [of "F_rawToMontgomery P G ?f" a] assms tf(1) by simp
qed

end

end
