(* ===== verification/RawBits.thy ===== *)
theory RawBits
  imports RawField
begin

text \<open>
  The bitwise routines and the shifts of \<open>build/fr_raw_generic.cpp\<close>, read as operations on
  numbers: each works on the 256-bit value, keeps the low 254 bits and reduces once modulo
  the prime.
\<close>

section \<open>Bits of limb arrays\<close>

lemma bit_lval: "bit (lval xs) n \<longleftrightarrow> n div 64 < length xs \<and> bit (xs ! (n div 64)) (n mod 64)"
proof (induction xs arbitrary: n)
  case Nil
  show ?case by simp
next
  case (Cons x xs)
  have "lval (x # xs) = concat_bit 64 (uint x) (lval xs)"
    using uint_limb_upper [of x] by (simp add: concat_bit_eq push_bit_eq_mult take_bit_eq_mod)
  then have "bit (lval (x # xs)) n \<longleftrightarrow>
      (if n < 64 then bit (uint x) n else bit (lval xs) (n - 64))"
    by (auto simp: bit_concat_bit_iff)
  also have "\<dots> \<longleftrightarrow> (if n < 64 then bit x n else (n - 64) div 64 < length xs
      \<and> bit (xs ! ((n - 64) div 64)) ((n - 64) mod 64))"
    by (simp add: Cons.IH bit_uint_iff)
  also have "\<dots> \<longleftrightarrow> n div 64 < length (x # xs) \<and> bit ((x # xs) ! (n div 64)) (n mod 64)"
  proof (cases "n < 64")
    case True
    then show ?thesis by simp
  next
    case False
    then obtain k where "n = k + 64" by (metis le_add_diff_inverse2 not_less)
    moreover have "(k + 64) div 64 = Suc (k div 64)" "(k + 64) mod 64 = k mod 64" by simp_all
    ultimately show ?thesis by (simp del: div_add_self2 mod_add_self2)
  qed
  finally show ?case .
qed

lemma lval_map2_and: "length xs = length ys \<Longrightarrow> lval (map2 (AND) xs ys) = lval xs AND lval ys"
  by (rule bit_eqI) (auto simp: bit_lval bit_and_iff)

lemma lval_map2_or: "length xs = length ys \<Longrightarrow> lval (map2 (OR) xs ys) = lval xs OR lval ys"
  by (rule bit_eqI) (auto simp: bit_lval bit_or_iff)

lemma lval_map2_xor: "length xs = length ys \<Longrightarrow> lval (map2 (XOR) xs ys) = lval xs XOR lval ys"
  by (rule bit_eqI) (auto simp: bit_lval bit_xor_iff)

lemma lval_map_not: "lval (map (NOT) xs) = 2 ^ (64 * length xs) - 1 - lval xs"
proof (induction xs)
  case Nil
  show ?case by simp
next
  case (Cons x xs)
  have "(- uint x - 1) mod 2 ^ 64 = 2 ^ 64 - 1 - uint x"
  proof (rule int_modI [where k = "- 1"])
    show "0 \<le> 2 ^ 64 - 1 - uint x" using uint_limb_upper [of x] by linarith
    show "2 ^ 64 - 1 - uint x < 2 ^ 64" using uint_ge_0 [of x] by linarith
  qed simp
  then have "uint (NOT x) = 2 ^ 64 - 1 - uint x"
    by (simp add: unsigned_not_eq not_int_def take_bit_eq_mod)
  then show ?case by (simp add: Cons.IH power_add)
qed

lemma map2_take_full: "length a = n \<Longrightarrow> length b = n \<Longrightarrow> map2 f (take n a) (take n b) = map2 f a b"
  by simp

section \<open>The routines\<close>

context mont_field
begin

lemma mask_top:
  assumes "length r = 4"
  shows "lval (r[3 := r ! 3 AND lboMask P]) = lval r mod 2 ^ 254"
proof -
  obtain a b c d where r: "r = [a, b, c, d]" using assms by (rule length4E)
  have "d AND lboMask P = take_bit 62 d"
    by (simp only: mask take_bit_eq_mask mask_eq_exp_minus_1)
  then have "lval (r[3 := r ! 3 AND lboMask P]) = lval [a, b, c] + 2 ^ 192 * take_bit 62 (uint d)"
    by (simp add: r numeral_eq_Suc unsigned_take_bit_eq)
  also have "\<dots> = take_bit 254 (lval [a, b, c] + 2 ^ 192 * uint d)"
  proof -
    have "lval [a, b, c] < 2 ^ 192" using lval_upper [of "[a, b, c]"] by simp
    then have "lval [a, b, c] + 2 ^ 192 * x = concat_bit 192 (lval [a, b, c]) x" for x
      by (simp add: concat_bit_eq push_bit_eq_mult take_bit_eq_mod del: lval.simps)
    then show ?thesis by (simp add: take_bit_concat_bit_eq del: lval.simps)
  qed
  also have "lval [a, b, c] + 2 ^ 192 * uint d = lval r" by (simp add: r algebra_simps)
  finally show ?thesis by (simp add: take_bit_eq_mod)
qed

lemma mask_reduce_value:
  assumes "length r = 4"
  shows "raw_elem P (mask_reduce P G r)" and "lval (mask_reduce P G r) = lval r mod 2 ^ 254 mod prime_of P"
proof -
  let ?r = "r[3 := r ! 3 AND lboMask P]"
  have "lval ?r < 2 ^ 254" by (simp add: mask_top [OF assms] del: mod_pos_pos_trivial)
  then have "lval ?r < 2 * prime_of P" using q_lower by simp
  from cond_sub_value [OF _ this] assms
  show "raw_elem P (mask_reduce P G r)" "lval (mask_reduce P G r) = lval r mod 2 ^ 254 mod prime_of P"
    by (simp_all only: mask_reduce_def Let_def length_list_update mask_top)
qed

lemma rawAnd:
  assumes "length a = 4" and "length b = 4"
  shows "raw_elem P (F_rawAnd P G a b)"
    and "lval (F_rawAnd P G a b) = (lval a AND lval b) mod 2 ^ 254 mod prime_of P"
  using mask_reduce_value [of "map2 (AND) a b"] and_n [of 4 a b] assms
  by (simp_all add: F_rawAnd_def lval_map2_and)

lemma rawOr:
  assumes "length a = 4" and "length b = 4"
  shows "raw_elem P (F_rawOr P G a b)"
    and "lval (F_rawOr P G a b) = (lval a OR lval b) mod 2 ^ 254 mod prime_of P"
  using mask_reduce_value [of "map2 (OR) a b"] ior_n [of 4 a b] assms
  by (simp_all add: F_rawOr_def lval_map2_or)

lemma rawXor:
  assumes "length a = 4" and "length b = 4"
  shows "raw_elem P (F_rawXor P G a b)"
    and "lval (F_rawXor P G a b) = (lval a XOR lval b) mod 2 ^ 254 mod prime_of P"
  using mask_reduce_value [of "map2 (XOR) a b"] xor_n [of 4 a b] assms
  by (simp_all add: F_rawXor_def lval_map2_xor)

lemma rawNot:
  assumes "length a = 4"
  shows "raw_elem P (F_rawNot P G a)"
    and "lval (F_rawNot P G a) = (- 1 - lval a) mod 2 ^ 254 mod prime_of P"
proof -
  have "(2 ^ (64 * 4) - 1 - lval a) mod 2 ^ 254 = (- 1 - lval a + 2 ^ 254 * 4) mod 2 ^ 254"
    by (rule arg_cong [where f = "\<lambda>z. z mod 2 ^ 254"]) simp
  also have "\<dots> = (- 1 - lval a) mod 2 ^ 254" by (rule mod_mult_self2)
  finally have e: "(2 ^ (64 * 4) - 1 - lval a) mod 2 ^ 254 = (- 1 - lval a) mod 2 ^ 254" .
  have l: "length (map (NOT) a) = 4" using assms by simp
  have v: "lval (map (NOT) a) = 2 ^ (64 * 4) - 1 - lval a" by (simp only: lval_map_not assms)
  have f: "F_rawNot P G a = mask_reduce P G (map (NOT) a)"
    using com [of 4 a] assms by (simp add: F_rawNot_def)
  show "raw_elem P (F_rawNot P G a)"
    and "lval (F_rawNot P G a) = (- 1 - lval a) mod 2 ^ 254 mod prime_of P"
    unfolding f using mask_reduce_value [OF l] by (simp_all only: v e)
qed

text \<open>The two shifts, for an amount below 256; the left shift first for distinct arrays.\<close>

lemma shift_parts:
  assumes "uint b < 256"
  shows "unat (b div 64) \<le> 3" and "unat (b mod 64) < 64"
    and "64 * unat (b div 64) + unat (b mod 64) = unat (b :: u64)"
proof -
  have "unat b < 256" using assms by (simp only: unat_eq_nat_uint nat_less_iff uint_ge_0 of_nat_numeral)
  moreover have u: "unat (b div 64) = unat b div 64" "unat (b mod 64) = unat b mod 64"
    by (simp_all only: unat_div_distrib unat_mod_distrib unat_numeral, simp_all)
  ultimately have "unat b div 64 < 4" by simp
  then show "unat (b div 64) \<le> 3" unfolding u by simp
  show "unat (b mod 64) < 64" "64 * unat (b div 64) + unat (b mod 64) = unat b"
    unfolding u by (rule mod_less_divisor, simp, rule mult_div_mod_eq)
qed

lemma rawShl:
  assumes "length a = 4" and "uint b < 256"
  shows "raw_elem P (F_rawShl P G False a b)"
    and "lval (F_rawShl P G False a b) = (lval a * 2 ^ unat b) mod 2 ^ 254 mod prime_of P"
proof -
  let ?w = "unat (b div 64)" and ?k = "unat (b mod 64)"
  note s = shift_parts [OF assms(2)]
  define r where "r = replicate ?w 0 @ take (4 - ?w) a"
  have r: "length r = 4" using s assms(1) by (simp add: r_def)
  have lr: "lval r = (lval a * 2 ^ (64 * ?w)) mod 2 ^ (64 * 4)"
  proof -
    have p: "(2::int) ^ (64 * 4) = 2 ^ (64 * ?w) * 2 ^ (64 * (4 - ?w))"
    proof -
      have "64 * 4 = 64 * ?w + 64 * (4 - ?w)" using s(1) by simp
      then show ?thesis by (metis power_add)
    qed
    have "lval a = lval (take (4 - ?w) a) + 2 ^ (64 * (4 - ?w)) * lval (drop (4 - ?w) a)"
      using assms(1) by (intro lval_take_drop) simp
    moreover have "lval (take (4 - ?w) a) < 2 ^ (64 * (4 - ?w))"
      using assms(1) lval_upper [of "take (4 - ?w) a"] by simp
    ultimately have m: "lval a mod 2 ^ (64 * (4 - ?w)) = lval (take (4 - ?w) a)"
      by simp
    have "(lval a * 2 ^ (64 * ?w)) mod 2 ^ (64 * 4) = 2 ^ (64 * ?w) * lval (take (4 - ?w) a)"
      unfolding p mult.commute [of "lval a"] mod_mult_mult1 m ..
    then show ?thesis by (simp add: r_def lval_append)
  qed
  define t where "t = (if ?k \<noteq> 0 then fst (mpn_lshift G r 4 ?k) else r)"
  have t: "length t = 4 \<and> lval t = (lval a * 2 ^ unat b) mod 2 ^ (64 * 4)"
  proof (cases "?k = 0")
    case True
    then show ?thesis using r lr s(3) by (simp add: t_def)
  next
    case False
    let ?l = "mpn_lshift G r 4 ?k"
    have eq: "length (fst ?l) = 4" "lval (fst ?l) + 2 ^ (64 * 4) * uint (snd ?l) = lval r * 2 ^ ?k"
      using lshift [of 4 r ?k "fst ?l" "snd ?l"] False s r by simp_all
    have "lval (fst ?l) < 2 ^ (64 * 4)" using lval_upper [of "fst ?l"] unfolding eq(1) .
    from carry_value(1) [OF eq(2) lval_nonneg this]
    have "lval (fst ?l) = (lval a * (2 ^ (64 * ?w) * 2 ^ ?k)) mod 2 ^ (64 * 4)"
      unfolding lr mod_mult_left_eq mult.assoc .
    then show ?thesis using False eq(1) by (simp add: t_def s(3) flip: power_add)
  qed
  have "F_rawShl P G False a b = mask_reduce P G t"
    using copyi [of "4 - ?w" a] assms(1)
    by (simp add: F_rawShl_def Let_def t_def r_def put_def)
  moreover have "(lval a * 2 ^ unat b) mod 2 ^ (64 * 4) mod 2 ^ 254 = (lval a * 2 ^ unat b) mod 2 ^ 254"
    by (rule mod_mod_cancel) (simp add: le_imp_power_dvd)
  ultimately show "raw_elem P (F_rawShl P G False a b)"
    and "lval (F_rawShl P G False a b) = (lval a * 2 ^ unat b) mod 2 ^ 254 mod prime_of P"
    using mask_reduce_value [of t] t by simp_all
qed

text \<open>With the operand as the result, the copy overlaps its source only when one limb is skipped: then
  the lowest limb is in all places.\<close>

lemma F_rawShl_overlap:
  assumes "length a = 4" and "uint b < 256"
  shows "F_rawShl P G True a b = F_rawShl P G False (if unat (b div 64) = 1 then replicate 4 (a ! 0) else a) b"
proof -
  let ?w = "unat (b div 64)"
  let ?a = "if ?w = 1 then replicate 4 (a ! 0) else a"
  have w: "?w = 0 \<or> ?w = 1 \<or> ?w = 2 \<or> ?w = 3" using shift_parts(1) [OF assms(2)] by linarith
  obtain x0 x1 x2 x3 where a: "a = [x0, x1, x2, x3]" using assms(1) by (auto simp: numeral_eq_Suc length_Suc_conv)
  have "put (mpn_copyi_within G a ?w 0 (4 - ?w)) (replicate ?w 0) = put (replicate ?w 0 @ mpn_copyi G ?a (4 - ?w)) (replicate ?w 0)"
    using w copyi_within [of ?w "4 - ?w" a 0] copyi [of "4 - ?w" ?a]
    by (elim disjE; simp add: a put_def upt_rec numeral_eq_Suc)
  then show ?thesis by (simp add: F_rawShl_def Let_def)
qed

lemma lval_replicate_low:
  assumes "length x = 4"
  shows "lval (replicate 4 (x ! 0)) = (lval x mod 2 ^ 64) * (1 + 2 ^ 64 + 2 ^ 128 + 2 ^ 192)"
proof -
  obtain x0 x1 x2 x3 where x: "x = [x0, x1, x2, x3]" using assms by (auto simp: numeral_eq_Suc length_Suc_conv)
  have "lval x = uint x0 + 2 ^ 64 * lval [x1, x2, x3]" by (simp add: x)
  then have "lval x mod 2 ^ 64 = uint x0 mod 2 ^ 64" by (simp only: mod_mult_self2)
  also have "\<dots> = uint x0" using uint_limb_upper [of x0] by (intro mod_pos_pos_trivial) simp_all
  finally have "lval x mod 2 ^ 64 = uint x0" .
  then show ?thesis by (simp add: x numeral_eq_Suc algebra_simps)
qed

lemma rawShr:
  assumes "length a = 4" and "uint b < 256"
  shows "length (F_rawShr G a b) = 4" and "lval (F_rawShr G a b) = lval a div 2 ^ unat b"
proof -
  let ?w = "unat (b div 64)" and ?k = "unat (b mod 64)"
  note s = shift_parts [OF assms(2)]
  define r where "r = drop ?w a @ replicate ?w 0"
  have r: "length r = 4" using s assms(1) by (simp add: r_def)
  have lr: "lval r = lval a div 2 ^ (64 * ?w)"
  proof -
    have "lval a = lval (take ?w a) + 2 ^ (64 * ?w) * lval (drop ?w a)"
      using assms(1) s by (intro lval_take_drop) simp
    moreover have "lval (take ?w a) < 2 ^ (64 * ?w)"
      using assms(1) s lval_upper [of "take ?w a"] by simp
    ultimately show ?thesis by (simp add: r_def lval_append)
  qed
  have f: "F_rawShr G a b = (if ?k \<noteq> 0 then fst (mpn_rshift G r 4 ?k) else r)"
    using copyi [of "4 - ?w" "drop ?w a"] assms(1) s
    by (simp add: F_rawShr_def Let_def r_def)
  have "length (F_rawShr G a b) = 4 \<and> lval (F_rawShr G a b) = lval r div 2 ^ ?k"
    using rshift [of 4 r ?k "fst (mpn_rshift G r 4 ?k)" "snd (mpn_rshift G r 4 ?k)"] s r
    by (simp add: f)
  then show "length (F_rawShr G a b) = 4" "lval (F_rawShr G a b) = lval a div 2 ^ unat b"
    by (simp_all add: lr s(3) flip: power_add zdiv_zmult2_eq)
qed

end

end
