(* ===== verification/GenericField.thy ===== *)
theory GenericField
  imports RawField
begin

text \<open>
  The portable field arithmetic on tagged elements (\<open>build/fr_generic.cpp\<close>,
  \<open>build/fq_generic.cpp\<close>, generated from one template and equal up to their constants). An
  element is a C structure with a 32-bit short value, a type word and four limbs; the two top
  bits of the type say whether the value is in the limbs (\<open>LONG\<close>) and whether the limbs are
  in Montgomery form.

  The routines take pointers, and callers may pass the same element twice, so the model has
  a store from pointers to elements and each routine is a function on stores, one \<open>let\<close> per
  statement. Local variables of the C functions are pointers \<open>Local _\<close>, one name per variable;
  their contents before the first assignment are whatever the store holds. Signed integers
  are words read with \<open>sint\<close>; \<open>scast\<close> is the sign extension of C's conversions and \<open>ucast\<close>
  the truncation.
\<close>

section \<open>Elements, pointers, stores\<close>

record element =
  shortVal :: u32
  etype :: u32
  longVal :: limbs

datatype local_var = L_a_m | L_b_m | L_m_a | L_a_n | L_b_n | L_b_ln | L_e_n
  | L_do_shlcl_a_long | L_do_shl_a_long | L_do_shrl_a_long | L_do_shr_a_long
  | L_shr_b_long | L_shl_b_long | L_tmp | L_div_tmp

datatype ptr = Obj nat | Local local_var

type_synonym store = "ptr \<Rightarrow> element"

definition F_SHORT :: u32 where "F_SHORT = 0x00000000"
definition F_MONTGOMERY :: u32 where "F_MONTGOMERY = 0x40000000"
definition F_SHORTMONTGOMERY :: u32 where "F_SHORTMONTGOMERY = 0x40000000"
definition F_LONG :: u32 where "F_LONG = 0x80000000"
definition F_LONGMONTGOMERY :: u32 where "F_LONGMONTGOMERY = 0xC0000000"

text \<open>Assignments to a field of the element behind a pointer.\<close>

definition set_type :: "ptr \<Rightarrow> u32 \<Rightarrow> store \<Rightarrow> store" where
  "set_type p t s = s(p := (s p)\<lparr>etype := t\<rparr>)"

definition set_short :: "ptr \<Rightarrow> u32 \<Rightarrow> store \<Rightarrow> store" where
  "set_short p v s = s(p := (s p)\<lparr>shortVal := v\<rparr>)"

definition set_long :: "ptr \<Rightarrow> limbs \<Rightarrow> store \<Rightarrow> store" where
  "set_long p x s = s(p := (s p)\<lparr>longVal := x\<rparr>)"

text \<open>The tests \<open>a->type & Fr_LONG\<close> and \<open>a->type & Fr_MONTGOMERY\<close>.\<close>

definition is_long :: "element \<Rightarrow> bool" where
  "is_long e \<longleftrightarrow> etype e AND F_LONG \<noteq> 0"

definition is_mont :: "element \<Rightarrow> bool" where
  "is_mont e \<longleftrightarrow> etype e AND F_MONTGOMERY \<noteq> 0"

text \<open>The conversion of a short value to a 64-bit integer.\<close>

definition short64 :: "element \<Rightarrow> u64" where
  "short64 e = scast (shortVal e)"

definition F_copy :: "ptr \<Rightarrow> ptr \<Rightarrow> store \<Rightarrow> store" where
  "F_copy r a s = s(r := s a)"

definition F_toNormal :: "field_consts \<Rightarrow> gmp \<Rightarrow> ptr \<Rightarrow> ptr \<Rightarrow> store \<Rightarrow> store" where
  "F_toNormal P G r a s =
     (if etype (s a) = F_LONGMONTGOMERY
      then let s = set_type r F_LONG s
           in set_long r (F_rawFromMontgomery P G (longVal (s a))) s
      else F_copy r a s)"

section \<open>Multiplication\<close>

definition has_mul32_overflow :: "u64 \<Rightarrow> u32" where
  "has_mul32_overflow val =
     (let sign = signed_drop_bit 31 val;
          sign = (if sign \<noteq> 0 then NOT sign else sign)
      in if sign \<noteq> 0 then 1 else 0)"

text \<open>The functions with an output parameter return its value and their result.\<close>

definition F_rawSMul :: "u32 \<Rightarrow> u32 \<Rightarrow> u64 \<times> u32" where
  "F_rawSMul a b = (let r = scast a * scast b in (r, has_mul32_overflow r))"

definition mul_s1s2 :: "field_consts \<Rightarrow> gmp \<Rightarrow> ptr \<Rightarrow> ptr \<Rightarrow> ptr \<Rightarrow> store \<Rightarrow> store" where
  "mul_s1s2 P G r a b s =
     (let (result, overflow) = F_rawSMul (shortVal (s a)) (shortVal (s b))
      in if overflow \<noteq> 0
         then let s = set_long r (F_rawCopyS2L P G result) s;
                  s = set_type r F_LONG s
              in set_short r 0 s
         else let s = set_short r (ucast result) s;
                  s = set_type r F_SHORT s;
                  s = set_long r (F_rawCopyS2L P G result) s;
                  s = set_type r F_LONG s
              in set_short r 0 s)"

definition mul_l1nl2n :: "field_consts \<Rightarrow> gmp \<Rightarrow> ptr \<Rightarrow> ptr \<Rightarrow> ptr \<Rightarrow> store \<Rightarrow> store" where
  "mul_l1nl2n P G r a b s =
     (let s = set_type r F_LONGMONTGOMERY s;
          s = set_long r (F_rawMMul P G (longVal (s a)) (longVal (s b))) s
      in set_long r (F_rawMMul P G (longVal (s r)) (R3 P)) s)"

definition mul_l1nl2m :: "field_consts \<Rightarrow> gmp \<Rightarrow> ptr \<Rightarrow> ptr \<Rightarrow> ptr \<Rightarrow> store \<Rightarrow> store" where
  "mul_l1nl2m P G r a b s =
     (let s = set_type r F_LONG s
      in set_long r (F_rawMMul P G (longVal (s a)) (longVal (s b))) s)"

definition mul_l1ml2m :: "field_consts \<Rightarrow> gmp \<Rightarrow> ptr \<Rightarrow> ptr \<Rightarrow> ptr \<Rightarrow> store \<Rightarrow> store" where
  "mul_l1ml2m P G r a b s =
     (let s = set_type r F_LONGMONTGOMERY s
      in set_long r (F_rawMMul P G (longVal (s a)) (longVal (s b))) s)"

definition mul_l1ml2n :: "field_consts \<Rightarrow> gmp \<Rightarrow> ptr \<Rightarrow> ptr \<Rightarrow> ptr \<Rightarrow> store \<Rightarrow> store" where
  "mul_l1ml2n P G r a b s =
     (let s = set_type r F_LONG s
      in set_long r (F_rawMMul P G (longVal (s a)) (longVal (s b))) s)"

definition mul_l1ns2n :: "field_consts \<Rightarrow> gmp \<Rightarrow> ptr \<Rightarrow> ptr \<Rightarrow> ptr \<Rightarrow> store \<Rightarrow> store" where
  "mul_l1ns2n P G r a b s =
     (let s = set_type r F_LONGMONTGOMERY s;
          s = (if sint (shortVal (s b)) < 0
               then let b_shortVal = short64 (s b);
                        s = set_long r (F_rawMMul1 P G (longVal (s a)) (- b_shortVal)) s
                    in set_long r (F_rawNeg P G (longVal (s r))) s
               else set_long r (F_rawMMul1 P G (longVal (s a)) (short64 (s b))) s)
      in set_long r (F_rawMMul P G (longVal (s r)) (R3 P)) s)"

definition mul_s1nl2n :: "field_consts \<Rightarrow> gmp \<Rightarrow> ptr \<Rightarrow> ptr \<Rightarrow> ptr \<Rightarrow> store \<Rightarrow> store" where
  "mul_s1nl2n P G r a b s =
     (let s = set_type r F_LONGMONTGOMERY s;
          s = (if sint (shortVal (s a)) < 0
               then let a_shortVal = short64 (s a);
                        s = set_long r (F_rawMMul1 P G (longVal (s b)) (- a_shortVal)) s
                    in set_long r (F_rawNeg P G (longVal (s r))) s
               else set_long r (F_rawMMul1 P G (longVal (s b)) (short64 (s a))) s)
      in set_long r (F_rawMMul P G (longVal (s r)) (R3 P)) s)"

definition mul_l1ms2n :: "field_consts \<Rightarrow> gmp \<Rightarrow> ptr \<Rightarrow> ptr \<Rightarrow> ptr \<Rightarrow> store \<Rightarrow> store" where
  "mul_l1ms2n P G r a b s =
     (let s = set_type r F_LONG s;
          s = (if sint (shortVal (s b)) < 0
               then let b_shortVal = short64 (s b);
                        s = set_long r (F_rawMMul1 P G (longVal (s a)) (- b_shortVal)) s
                    in set_long r (F_rawNeg P G (longVal (s r))) s
               else set_long r (F_rawMMul1 P G (longVal (s a)) (short64 (s b))) s)
      in s)"

definition mul_s1nl2m :: "field_consts \<Rightarrow> gmp \<Rightarrow> ptr \<Rightarrow> ptr \<Rightarrow> ptr \<Rightarrow> store \<Rightarrow> store" where
  "mul_s1nl2m P G r a b s =
     (let s = set_type r F_LONG s;
          s = (if sint (shortVal (s a)) < 0
               then let a_shortVal = short64 (s a);
                        s = set_long r (F_rawMMul1 P G (longVal (s b)) (- a_shortVal)) s
                    in set_long r (F_rawNeg P G (longVal (s r))) s
               else set_long r (F_rawMMul1 P G (longVal (s b)) (short64 (s a))) s)
      in s)"

definition mul_l1ns2m :: "field_consts \<Rightarrow> gmp \<Rightarrow> ptr \<Rightarrow> ptr \<Rightarrow> ptr \<Rightarrow> store \<Rightarrow> store" where
  "mul_l1ns2m P G r a b s =
     (let s = set_type r F_LONG s
      in set_long r (F_rawMMul P G (longVal (s a)) (longVal (s b))) s)"

definition mul_l1ms2m :: "field_consts \<Rightarrow> gmp \<Rightarrow> ptr \<Rightarrow> ptr \<Rightarrow> ptr \<Rightarrow> store \<Rightarrow> store" where
  "mul_l1ms2m P G r a b s =
     (let s = set_type r F_LONGMONTGOMERY s
      in set_long r (F_rawMMul P G (longVal (s a)) (longVal (s b))) s)"

definition mul_s1ml2m :: "field_consts \<Rightarrow> gmp \<Rightarrow> ptr \<Rightarrow> ptr \<Rightarrow> ptr \<Rightarrow> store \<Rightarrow> store" where
  "mul_s1ml2m P G r a b s =
     (let s = set_type r F_LONGMONTGOMERY s
      in set_long r (F_rawMMul P G (longVal (s a)) (longVal (s b))) s)"

definition mul_s1ml2n :: "field_consts \<Rightarrow> gmp \<Rightarrow> ptr \<Rightarrow> ptr \<Rightarrow> ptr \<Rightarrow> store \<Rightarrow> store" where
  "mul_s1ml2n P G r a b s =
     (let s = set_type r F_LONG s
      in set_long r (F_rawMMul P G (longVal (s a)) (longVal (s b))) s)"

definition F_mul :: "field_consts \<Rightarrow> gmp \<Rightarrow> ptr \<Rightarrow> ptr \<Rightarrow> ptr \<Rightarrow> store \<Rightarrow> store" where
  "F_mul P G r a b s =
     (if is_long (s a) then
        if is_long (s b) then
          if is_mont (s a) then
            if is_mont (s b) then mul_l1ml2m P G r a b s else mul_l1ml2n P G r a b s
          else
            if is_mont (s b) then mul_l1nl2m P G r a b s else mul_l1nl2n P G r a b s
        else if is_mont (s a) then
          if is_mont (s b) then mul_l1ms2m P G r a b s else mul_l1ms2n P G r a b s
        else
          if is_mont (s b) then mul_l1ns2m P G r a b s else mul_l1ns2n P G r a b s
      else if is_long (s b) then
        if is_mont (s a) then
          if is_mont (s b) then mul_s1ml2m P G r a b s else mul_s1ml2n P G r a b s
        else if is_mont (s b) then mul_s1nl2m P G r a b s
        else mul_s1nl2n P G r a b s
      else mul_s1s2 P G r a b s)"

section \<open>Conversions\<close>

definition F_toLongNormal :: "field_consts \<Rightarrow> gmp \<Rightarrow> ptr \<Rightarrow> ptr \<Rightarrow> store \<Rightarrow> store" where
  "F_toLongNormal P G r a s =
     (if is_long (s a) then
        if is_mont (s a) then
          let s = set_long r (F_rawFromMontgomery P G (longVal (s a))) s
          in set_type r F_LONG s
        else F_copy r a s
      else
        let s = set_long r (F_rawCopyS2L P G (short64 (s a))) s;
            s = set_type r F_LONG s
        in set_short r 0 s)"

definition F_toMontgomery :: "field_consts \<Rightarrow> gmp \<Rightarrow> ptr \<Rightarrow> ptr \<Rightarrow> store \<Rightarrow> store" where
  "F_toMontgomery P G r a s =
     (if is_mont (s a) then F_copy r a s
      else if is_long (s a) then
        let s = set_short r (shortVal (s a)) s;
            s = set_long r (F_rawMMul P G (longVal (s a)) (R2 P)) s
        in set_type r F_LONGMONTGOMERY s
      else if sint (shortVal (s a)) < 0 then
        let a_shortVal = short64 (s a);
            s = set_long r (F_rawMMul1 P G (R2 P) (- a_shortVal)) s;
            s = set_long r (F_rawNeg P G (longVal (s r))) s
        in set_type r F_SHORTMONTGOMERY s
      else
        let s = set_long r (F_rawMMul1 P G (R2 P) (short64 (s a))) s
        in set_type r F_SHORTMONTGOMERY s)"

text \<open>Copies an array of \<open>n\<close> elements; the arrays of a \<open>memcpy\<close> do not overlap.\<close>

definition F_copyn :: "nat \<Rightarrow> nat \<Rightarrow> nat \<Rightarrow> store \<Rightarrow> store" where
  "F_copyn r a n s = fold (\<lambda>i t. t(Obj (r + i) := s (Obj (a + i)))) [0..<n] s"

section \<open>Subtraction\<close>

definition has_add32_overflow :: "u64 \<Rightarrow> bool" where
  "has_add32_overflow val =
     (let signs = signed_drop_bit 31 val AND 0x3 in signs = 1 \<or> signs = 2)"

definition F_rawSSub :: "u32 \<Rightarrow> u32 \<Rightarrow> u64 \<times> bool" where
  "F_rawSSub a b = (let r = scast a - scast b in (r, has_add32_overflow r))"

definition sub_s1s2 :: "field_consts \<Rightarrow> gmp \<Rightarrow> ptr \<Rightarrow> ptr \<Rightarrow> ptr \<Rightarrow> store \<Rightarrow> store" where
  "sub_s1s2 P G r a b s =
     (let (diff, overflow) = F_rawSSub (shortVal (s a)) (shortVal (s b))
      in if overflow
         then let s = set_long r (F_rawCopyS2L P G diff) s;
                  s = set_type r F_LONG s
              in set_short r 0 s
         else let s = set_type r F_SHORT s
              in set_short r (ucast diff) s)"

definition sub_l1nl2n :: "field_consts \<Rightarrow> gmp \<Rightarrow> ptr \<Rightarrow> ptr \<Rightarrow> ptr \<Rightarrow> store \<Rightarrow> store" where
  "sub_l1nl2n P G r a b s =
     (let s = set_type r F_LONG s
      in set_long r (F_rawSub P G (longVal (s a)) (longVal (s b))) s)"

definition sub_l1nl2m :: "field_consts \<Rightarrow> gmp \<Rightarrow> ptr \<Rightarrow> ptr \<Rightarrow> ptr \<Rightarrow> store \<Rightarrow> store" where
  "sub_l1nl2m P G r a b s =
     (let s = set_type r F_LONGMONTGOMERY s;
          s = F_toMontgomery P G (Local L_a_m) a s
      in set_long r (F_rawSub P G (longVal (s (Local L_a_m))) (longVal (s b))) s)"

definition sub_l1ml2m :: "field_consts \<Rightarrow> gmp \<Rightarrow> ptr \<Rightarrow> ptr \<Rightarrow> ptr \<Rightarrow> store \<Rightarrow> store" where
  "sub_l1ml2m P G r a b s =
     (let s = set_type r F_LONGMONTGOMERY s
      in set_long r (F_rawSub P G (longVal (s a)) (longVal (s b))) s)"

definition sub_l1ml2n :: "field_consts \<Rightarrow> gmp \<Rightarrow> ptr \<Rightarrow> ptr \<Rightarrow> ptr \<Rightarrow> store \<Rightarrow> store" where
  "sub_l1ml2n P G r a b s =
     (let s = set_type r F_LONGMONTGOMERY s;
          s = F_toMontgomery P G (Local L_b_m) b s
      in set_long r (F_rawSub P G (longVal (s a)) (longVal (s (Local L_b_m)))) s)"

definition sub_s1l2n :: "field_consts \<Rightarrow> gmp \<Rightarrow> ptr \<Rightarrow> ptr \<Rightarrow> ptr \<Rightarrow> store \<Rightarrow> store" where
  "sub_s1l2n P G r a b s =
     (let s = set_type r F_LONG s
      in if sint (shortVal (s a)) \<ge> 0
         then set_long r (F_rawSubSL P G (short64 (s a)) (longVal (s b))) s
         else let a_shortVal = short64 (s a)
              in set_long r (F_rawNegLS P G (r = b) (longVal (s b)) (- a_shortVal)) s)"

definition sub_l1ms2n :: "field_consts \<Rightarrow> gmp \<Rightarrow> ptr \<Rightarrow> ptr \<Rightarrow> ptr \<Rightarrow> store \<Rightarrow> store" where
  "sub_l1ms2n P G r a b s =
     (let s = set_type r F_LONGMONTGOMERY s;
          s = F_toMontgomery P G (Local L_b_m) b s
      in set_long r (F_rawSub P G (longVal (s a)) (longVal (s (Local L_b_m)))) s)"

definition sub_s1nl2m :: "field_consts \<Rightarrow> gmp \<Rightarrow> ptr \<Rightarrow> ptr \<Rightarrow> ptr \<Rightarrow> store \<Rightarrow> store" where
  "sub_s1nl2m P G r a b s =
     (let s = set_type r F_LONGMONTGOMERY s;
          s = F_toMontgomery P G (Local L_a_m) a s
      in set_long r (F_rawSub P G (longVal (s (Local L_a_m))) (longVal (s b))) s)"

definition sub_l1ns2 :: "field_consts \<Rightarrow> gmp \<Rightarrow> ptr \<Rightarrow> ptr \<Rightarrow> ptr \<Rightarrow> store \<Rightarrow> store" where
  "sub_l1ns2 P G r a b s =
     (let s = set_type r F_LONG s
      in if sint (shortVal (s b)) < 0
         then let b_shortVal = short64 (s b)
              in set_long r (F_rawAddLS P G (longVal (s a)) (- b_shortVal)) s
         else set_long r (F_rawSubLS P G (longVal (s a)) (short64 (s b))) s)"

definition sub_l1ms2m :: "field_consts \<Rightarrow> gmp \<Rightarrow> ptr \<Rightarrow> ptr \<Rightarrow> ptr \<Rightarrow> store \<Rightarrow> store" where
  "sub_l1ms2m P G r a b s =
     (let s = set_type r F_LONGMONTGOMERY s
      in set_long r (F_rawSub P G (longVal (s a)) (longVal (s b))) s)"

definition sub_s1ml2m :: "field_consts \<Rightarrow> gmp \<Rightarrow> ptr \<Rightarrow> ptr \<Rightarrow> ptr \<Rightarrow> store \<Rightarrow> store" where
  "sub_s1ml2m P G r a b s =
     (let s = set_type r F_LONGMONTGOMERY s
      in set_long r (F_rawSub P G (longVal (s a)) (longVal (s b))) s)"

definition F_sub :: "field_consts \<Rightarrow> gmp \<Rightarrow> ptr \<Rightarrow> ptr \<Rightarrow> ptr \<Rightarrow> store \<Rightarrow> store" where
  "F_sub P G r a b s =
     (if is_long (s a) then
        if is_long (s b) then
          if is_mont (s a) then
            if is_mont (s b) then sub_l1ml2m P G r a b s else sub_l1ml2n P G r a b s
          else if is_mont (s b) then sub_l1nl2m P G r a b s
          else sub_l1nl2n P G r a b s
        else if is_mont (s a) then
          if is_mont (s b) then sub_l1ms2m P G r a b s else sub_l1ms2n P G r a b s
        else sub_l1ns2 P G r a b s
      else if is_long (s b) then
        if is_mont (s b) then
          if is_mont (s a) then sub_s1ml2m P G r a b s else sub_s1nl2m P G r a b s
        else sub_s1l2n P G r a b s
      else sub_s1s2 P G r a b s)"

section \<open>Addition\<close>

definition F_rawSAdd :: "u32 \<Rightarrow> u32 \<Rightarrow> u64 \<times> bool" where
  "F_rawSAdd a b = (let r = scast a + scast b in (r, has_add32_overflow r))"

definition add_s1s2 :: "field_consts \<Rightarrow> gmp \<Rightarrow> ptr \<Rightarrow> ptr \<Rightarrow> ptr \<Rightarrow> store \<Rightarrow> store" where
  "add_s1s2 P G r a b s =
     (let (sum, overflow) = F_rawSAdd (shortVal (s a)) (shortVal (s b))
      in if overflow
         then let s = set_long r (F_rawCopyS2L P G sum) s;
                  s = set_type r F_LONG s
              in set_short r 0 s
         else let s = set_type r F_SHORT s
              in set_short r (ucast sum) s)"

definition add_l1nl2n :: "field_consts \<Rightarrow> gmp \<Rightarrow> ptr \<Rightarrow> ptr \<Rightarrow> ptr \<Rightarrow> store \<Rightarrow> store" where
  "add_l1nl2n P G r a b s =
     (let s = set_type r F_LONG s
      in set_long r (F_rawAdd P G (longVal (s a)) (longVal (s b))) s)"

definition add_l1nl2m :: "field_consts \<Rightarrow> gmp \<Rightarrow> ptr \<Rightarrow> ptr \<Rightarrow> ptr \<Rightarrow> store \<Rightarrow> store" where
  "add_l1nl2m P G r a b s =
     (let s = set_type r F_LONGMONTGOMERY s;
          s = F_toMontgomery P G (Local L_a_m) a s
      in set_long r (F_rawAdd P G (longVal (s (Local L_a_m))) (longVal (s b))) s)"

definition add_l1ml2m :: "field_consts \<Rightarrow> gmp \<Rightarrow> ptr \<Rightarrow> ptr \<Rightarrow> ptr \<Rightarrow> store \<Rightarrow> store" where
  "add_l1ml2m P G r a b s =
     (let s = set_type r F_LONGMONTGOMERY s
      in set_long r (F_rawAdd P G (longVal (s a)) (longVal (s b))) s)"

definition add_l1ml2n :: "field_consts \<Rightarrow> gmp \<Rightarrow> ptr \<Rightarrow> ptr \<Rightarrow> ptr \<Rightarrow> store \<Rightarrow> store" where
  "add_l1ml2n P G r a b s =
     (let s = set_type r F_LONGMONTGOMERY s;
          s = F_toMontgomery P G (Local L_b_m) b s
      in set_long r (F_rawAdd P G (longVal (s a)) (longVal (s (Local L_b_m)))) s)"

definition add_s1l2n :: "field_consts \<Rightarrow> gmp \<Rightarrow> ptr \<Rightarrow> ptr \<Rightarrow> ptr \<Rightarrow> store \<Rightarrow> store" where
  "add_s1l2n P G r a b s =
     (let s = set_type r F_LONG s
      in if sint (shortVal (s a)) \<ge> 0
         then set_long r (F_rawAddLS P G (longVal (s b)) (short64 (s a))) s
         else let a_shortVal = short64 (s a)
              in set_long r (F_rawSubLS P G (longVal (s b)) (- a_shortVal)) s)"

definition add_l1ms2n :: "field_consts \<Rightarrow> gmp \<Rightarrow> ptr \<Rightarrow> ptr \<Rightarrow> ptr \<Rightarrow> store \<Rightarrow> store" where
  "add_l1ms2n P G r a b s =
     (let s = set_type r F_LONGMONTGOMERY s;
          s = F_toMontgomery P G (Local L_b_m) b s
      in set_long r (F_rawAdd P G (longVal (s a)) (longVal (s (Local L_b_m)))) s)"

definition add_s1nl2m :: "field_consts \<Rightarrow> gmp \<Rightarrow> ptr \<Rightarrow> ptr \<Rightarrow> ptr \<Rightarrow> store \<Rightarrow> store" where
  "add_s1nl2m P G r a b s =
     (let s = set_type r F_LONGMONTGOMERY s;
          s = F_toMontgomery P G (Local L_m_a) a s
      in set_long r (F_rawAdd P G (longVal (s (Local L_m_a))) (longVal (s b))) s)"

definition add_l1ns2 :: "field_consts \<Rightarrow> gmp \<Rightarrow> ptr \<Rightarrow> ptr \<Rightarrow> ptr \<Rightarrow> store \<Rightarrow> store" where
  "add_l1ns2 P G r a b s =
     (let s = set_type r F_LONG s
      in if sint (shortVal (s b)) \<ge> 0
         then set_long r (F_rawAddLS P G (longVal (s a)) (short64 (s b))) s
         else let b_shortVal = short64 (s b)
              in set_long r (F_rawSubLS P G (longVal (s a)) (- b_shortVal)) s)"

definition add_l1ms2m :: "field_consts \<Rightarrow> gmp \<Rightarrow> ptr \<Rightarrow> ptr \<Rightarrow> ptr \<Rightarrow> store \<Rightarrow> store" where
  "add_l1ms2m P G r a b s =
     (let s = set_type r F_LONGMONTGOMERY s
      in set_long r (F_rawAdd P G (longVal (s a)) (longVal (s b))) s)"

definition add_s1ml2m :: "field_consts \<Rightarrow> gmp \<Rightarrow> ptr \<Rightarrow> ptr \<Rightarrow> ptr \<Rightarrow> store \<Rightarrow> store" where
  "add_s1ml2m P G r a b s =
     (let s = set_type r F_LONGMONTGOMERY s
      in set_long r (F_rawAdd P G (longVal (s a)) (longVal (s b))) s)"

definition F_add :: "field_consts \<Rightarrow> gmp \<Rightarrow> ptr \<Rightarrow> ptr \<Rightarrow> ptr \<Rightarrow> store \<Rightarrow> store" where
  "F_add P G r a b s =
     (if is_long (s a) then
        if is_long (s b) then
          if is_mont (s a) then
            if is_mont (s b) then add_l1ml2m P G r a b s else add_l1ml2n P G r a b s
          else if is_mont (s b) then add_l1nl2m P G r a b s
          else add_l1nl2n P G r a b s
        else if is_mont (s a) then
          if is_mont (s b) then add_l1ms2m P G r a b s else add_l1ms2n P G r a b s
        else add_l1ns2 P G r a b s
      else if is_long (s b) then
        if is_mont (s b) then
          if is_mont (s a) then add_s1ml2m P G r a b s else add_s1nl2m P G r a b s
        else add_s1l2n P G r a b s
      else add_s1s2 P G r a b s)"

section \<open>Truth value and conversion to an integer\<close>

definition F_isTrue :: "gmp \<Rightarrow> ptr \<Rightarrow> store \<Rightarrow> bool" where
  "F_isTrue G pE s =
     (if is_long (s pE) then F_rawIsZero G (longVal (s pE)) = 0 else shortVal (s pE) \<noteq> 0)"

text \<open>\<open>Fr_longErr\<close> throws: the error value of the result.\<close>

datatype field_error = Fr_error

definition F_longNeg :: "field_consts \<Rightarrow> gmp \<Rightarrow> ptr \<Rightarrow> store \<Rightarrow> field_error + u32" where
  "F_longNeg P G pE s =
     (if F_rawCmp G (longVal (s pE)) (q_long P) \<ge> 0 then Inl Fr_error
      else let result = longVal (s pE) ! 0 - q_long P ! 0;
               is_long = signed_drop_bit 31 result + 1
           in if is_long \<noteq> 0 then Inl Fr_error else Inr (ucast result))"

definition F_longNormal :: "field_consts \<Rightarrow> gmp \<Rightarrow> ptr \<Rightarrow> store \<Rightarrow> field_error + u32" where
  "F_longNormal P G pE s =
     (let result = longVal (s pE) ! 0;
          is_long = drop_bit 31 result
      in if is_long \<noteq> 0 then F_longNeg P G pE s
         else if longVal (s pE) ! 1 \<noteq> 0 \<or> longVal (s pE) ! 2 \<noteq> 0 \<or> longVal (s pE) ! 3 \<noteq> 0
         then F_longNeg P G pE s
         else Inr (ucast result))"

definition F_toInt :: "field_consts \<Rightarrow> gmp \<Rightarrow> ptr \<Rightarrow> store \<Rightarrow> field_error + u32" where
  "F_toInt P G pE s =
     (if is_long (s pE) then
        if is_mont (s pE) then
          let s = F_toNormal P G (Local L_e_n) pE s
          in F_longNormal P G (Local L_e_n) s
        else F_longNormal P G pE s
      else Inr (shortVal (s pE)))"

end
