(* ===== verification/FieldValue.thy ===== *)
theory FieldValue
  imports Montgomery RawBits GenericField
begin

text \<open>
  What a tagged element denotes: \<open>felem\<close> is the type invariant of the element structure and
  \<open>fval\<close> its value in the field, a number below the prime. The predicates \<open>repr_n\<close> and
  \<open>repr_m\<close> say that four limbs hold a number in normal and in Montgomery form; the rules for
  them, one per raw routine, carry the proofs about the tagged operations.
\<close>

definition mont_R :: int where
  "mont_R = 2 ^ 256"

text \<open>The inverse of \<open>R\<close>: \<open>(q + 1) / 2\<close> is the inverse of 2.\<close>

definition Rinv :: "field_consts \<Rightarrow> int" where
  "Rinv P = (lval (half P) + 1) ^ 256 mod prime_of P"

definition felem :: "field_consts \<Rightarrow> element \<Rightarrow> bool" where
  "felem P e \<longleftrightarrow>
     etype e = F_SHORT
   \<or> etype e = F_LONG \<and> raw_elem P (longVal e)
   \<or> etype e = F_LONGMONTGOMERY \<and> raw_elem P (longVal e)
   \<or> etype e = F_SHORTMONTGOMERY \<and> raw_elem P (longVal e)
     \<and> lval (longVal e) = (sint (shortVal e) * mont_R) mod prime_of P"

definition fval :: "field_consts \<Rightarrow> element \<Rightarrow> int" where
  "fval P e =
     (if is_long e
      then if is_mont e then (lval (longVal e) * Rinv P) mod prime_of P else lval (longVal e)
      else sint (shortVal e) mod prime_of P)"

text \<open>The element holds a valid representation of the number \<open>v\<close> modulo the prime.\<close>

definition elem_repr :: "field_consts \<Rightarrow> element \<Rightarrow> int \<Rightarrow> bool" where
  "elem_repr P e v \<longleftrightarrow> felem P e \<and> fval P e = v mod prime_of P"

definition repr_n :: "field_consts \<Rightarrow> limbs \<Rightarrow> int \<Rightarrow> bool" where
  "repr_n P x v \<longleftrightarrow> raw_elem P x \<and> lval x = v mod prime_of P"

definition repr_m :: "field_consts \<Rightarrow> limbs \<Rightarrow> int \<Rightarrow> bool" where
  "repr_m P x v \<longleftrightarrow> raw_elem P x \<and> lval x = (v * mont_R) mod prime_of P"

lemmas type_defs = F_SHORT_def F_LONG_def F_LONGMONTGOMERY_def F_SHORTMONTGOMERY_def F_MONTGOMERY_def

text \<open>Reading a store after an assignment.\<close>

lemma set_same [simp]:
  "set_type p t s p = (s p)\<lparr>etype := t\<rparr>" "set_short p v s p = (s p)\<lparr>shortVal := v\<rparr>"
  "set_long p x s p = (s p)\<lparr>longVal := x\<rparr>"
  by (simp_all add: set_type_def set_short_def set_long_def)

lemma set_other [simp]:
  assumes "p' \<noteq> p"
  shows "set_type p t s p' = s p'" "set_short p v s p' = s p'" "set_long p x s p' = s p'"
  using assms by (simp_all add: set_type_def set_short_def set_long_def)

lemma set_keeps [simp]:
  "longVal (set_type p t s p') = longVal (s p')" "shortVal (set_type p t s p') = shortVal (s p')"
  "longVal (set_short p v s p') = longVal (s p')" "etype (set_short p v s p') = etype (s p')"
  "shortVal (set_long p x s p') = shortVal (s p')" "etype (set_long p x s p') = etype (s p')"
  "short64 (set_type p t s p') = short64 (s p')" "short64 (set_long p x s p') = short64 (s p')"
  by (simp_all add: set_type_def set_short_def set_long_def short64_def)

lemma F_copy_apply [simp]: "F_copy r a s p = (if p = r then s a else s p)"
  by (simp add: F_copy_def)

lemma is_long_simps [simp]:
  "etype e = F_SHORT \<Longrightarrow> \<not> is_long e" "etype e = F_SHORTMONTGOMERY \<Longrightarrow> \<not> is_long e"
  "etype e = F_LONG \<Longrightarrow> is_long e" "etype e = F_LONGMONTGOMERY \<Longrightarrow> is_long e"
  by (simp_all add: is_long_def type_defs)

lemma is_mont_simps [simp]:
  "etype e = F_SHORT \<Longrightarrow> \<not> is_mont e" "etype e = F_SHORTMONTGOMERY \<Longrightarrow> is_mont e"
  "etype e = F_LONG \<Longrightarrow> \<not> is_mont e" "etype e = F_LONGMONTGOMERY \<Longrightarrow> is_mont e"
  by (simp_all add: is_mont_def type_defs)

lemma types_distinct [simp]:
  "F_LONG \<noteq> F_LONGMONTGOMERY" "F_LONGMONTGOMERY \<noteq> F_LONG" "F_SHORT \<noteq> F_LONGMONTGOMERY"
  "F_SHORTMONTGOMERY \<noteq> F_LONGMONTGOMERY" "F_LONG \<noteq> F_SHORT" "F_SHORT \<noteq> F_LONG" "F_SHORTMONTGOMERY \<noteq> F_LONG"
  by (simp_all add: type_defs)

section \<open>Short values\<close>

lemma sint_short64: "sint (short64 e) = sint (shortVal e)"
  by (simp add: short64_def sint_up_scast is_up)

lemma short_bounds: "- (2 ^ 31) \<le> sint (shortVal e)" "sint (shortVal e) < 2 ^ 31"
  using sint_bounds [of "shortVal e"] by simp_all

lemma uint_short64: "0 \<le> sint (shortVal e) \<Longrightarrow> uint (short64 e) = sint (shortVal e)"
  using uint_nonneg [of "short64 e"] by (simp add: sint_short64)

lemma uint_minus_short64: "sint (shortVal e) < 0 \<Longrightarrow> uint (- short64 e) = - sint (shortVal e)"
proof -
  assume neg: "sint (shortVal e) < 0"
  have "uint (short64 e) = sint (shortVal e) + 2 ^ 64"
    using uint_neg [of "short64 e"] neg by (simp add: sint_short64)
  then show ?thesis
    using neg short_bounds [of e]
    by (simp add: uint_word_ariths int_modI [where k = "- 1" and r = "- sint (shortVal e)"])
qed

lemma minus_short64_nonzero: "sint (shortVal e) < 0 \<Longrightarrow> - short64 e \<noteq> 0"
  using uint_minus_short64 [of e] by auto

text \<open>A 64-bit integer that fits 32 bits is recovered after truncation.\<close>

lemma sint_ucast_32:
  fixes w :: u64
  assumes "- (2 ^ 31) \<le> sint w" and "sint w < 2 ^ 31"
  shows "sint (ucast w :: u32) = sint w"
proof -
  have "sint (ucast w :: u32) = signed_take_bit 31 (sint w)"
    by (simp add: signed_ucast_eq uint_sint signed_take_bit_take_bit)
  then show ?thesis using assms by (simp add: signed_take_bit_int_eq_self)
qed

lemma sint_word_of_int_64:
  assumes "- (2 ^ 63) \<le> v" and "v < 2 ^ 63"
  shows "sint (word_of_int v :: u64) = v"
  using assms by (simp add: sint_sbintrunc' signed_take_bit_int_eq_self)

lemma short_ops:
  shows "sint (scast (a :: u32) + scast (b :: u32) :: u64) = sint a + sint b"
    and "sint (scast a - scast b :: u64) = sint a - sint b"
    and "sint (- scast a :: u64) = - sint a"
    and "sint (scast a * scast b :: u64) = sint a * sint b"
proof -
  have ab: "- (2 ^ 31) \<le> sint a" "sint a < 2 ^ 31" "- (2 ^ 31) \<le> sint b" "sint b < 2 ^ 31"
    using sint_bounds [of a] sint_bounds [of b] by simp_all
  have sc: "(scast a :: u64) = word_of_int (sint a)" "(scast b :: u64) = word_of_int (sint b)"
    by (rule scast_eq)+
  have "\<bar>sint a\<bar> \<le> 2 ^ 31" "\<bar>sint b\<bar> \<le> 2 ^ 31" using ab by (simp_all add: abs_le_iff)
  then have "\<bar>sint a\<bar> * \<bar>sint b\<bar> \<le> 2 ^ 31 * 2 ^ 31" by (intro mult_mono) simp_all
  then have "\<bar>sint a * sint b\<bar> \<le> 2 ^ 62" by (simp add: abs_mult)
  then have m: "- (2 ^ 63) \<le> sint a * sint b" "sint a * sint b < 2 ^ 63"
    by (simp_all add: abs_le_iff)
  show "sint (scast a * scast b :: u64) = sint a * sint b"
    unfolding sc wi_hom_mult by (rule sint_word_of_int_64 [OF m])
  show "sint (scast a + scast b :: u64) = sint a + sint b"
    unfolding sc wi_hom_add by (rule sint_word_of_int_64) (use ab in simp_all)
  show "sint (scast a - scast b :: u64) = sint a - sint b"
    unfolding sc wi_hom_sub by (rule sint_word_of_int_64) (use ab in simp_all)
  show "sint (- scast a :: u64) = - sint a"
    unfolding sc wi_hom_neg by (rule sint_word_of_int_64) (use ab in simp_all)
qed

text \<open>The overflow test looks at bits 31 and 32 only; on sums, differences and negations of
  two 32-bit values this decides whether the result fits.\<close>

lemma has_add32_overflow:
  assumes "- (2 ^ 32) \<le> sint v" and "sint v < 2 ^ 32"
  shows "has_add32_overflow v \<longleftrightarrow> \<not> (- (2 ^ 31) \<le> sint v \<and> sint v < 2 ^ 31)"
proof -
  define d where "d = sint v div 2 ^ 31"
  have d: "d = - 2 \<or> d = - 1 \<or> d = 0 \<or> d = 1"
    using assms unfolding d_def by auto
  have "uint (signed_drop_bit 31 v AND 0x3) = d mod 4"
  proof -
    have "signed_drop_bit 31 v AND 0x3 = take_bit 2 (signed_drop_bit 31 v)"
      by (simp add: take_bit_eq_mask mask_eq_exp_minus_1 del: take_bit_numeral_minus_1_eq)
    moreover have "uint (signed_drop_bit 31 v) = d mod 2 ^ 64"
      by (simp add: uint_sint_mod sint_signed_drop_bit_eq d_def drop_bit_eq_div)
    moreover have "d mod 2 ^ 64 mod 4 = d mod 4"
      by (rule mod_mod_cancel) simp
    ultimately show ?thesis by (simp add: unsigned_take_bit_eq take_bit_eq_mod uint_mod_distrib)
  qed
  then have "has_add32_overflow v \<longleftrightarrow> d mod 4 = 1 \<or> d mod 4 = 2"
    by (simp add: has_add32_overflow_def Let_def word_uint_eq_iff)
  also have "\<dots> \<longleftrightarrow> \<not> (d = - 1 \<or> d = 0)" using d by auto
  also have "\<dots> \<longleftrightarrow> \<not> (- (2 ^ 31) \<le> sint v \<and> sint v < 2 ^ 31)"
    unfolding d_def by auto
  finally show ?thesis .
qed

section \<open>Rules for representations\<close>

context mont_field
begin

lemma Rinv: "(mont_R * Rinv P) mod prime_of P = 1"
proof -
  let ?h = "lval (half P) + 1"
  have "mont_R * ?h ^ 256 = (2 * ?h) ^ 256"
    unfolding mont_R_def by (rule power_mult_distrib [symmetric])
  also have "2 * ?h = 1 + prime_of P" using half(2) by simp
  finally have "(mont_R * Rinv P) mod prime_of P = (1 + prime_of P) ^ 256 mod prime_of P"
    unfolding Rinv_def mod_mult_right_eq by (simp only:)
  also have "\<dots> = ((1 + prime_of P) mod prime_of P) ^ 256 mod prime_of P"
    by (rule power_mod [symmetric])
  also have "(1 + prime_of P) mod prime_of P = 1"
    using q_lower by simp
  finally show ?thesis using q_lower by (simp add: power_one)
qed

lemma cancel_R: "(x * mont_R * Rinv P) mod prime_of P = x mod prime_of P"
proof -
  have "(x * mont_R * Rinv P) mod prime_of P = (x * ((mont_R * Rinv P) mod prime_of P)) mod prime_of P"
    unfolding mod_mult_right_eq by (simp only: mult.assoc)
  then show ?thesis by (simp add: Rinv)
qed

lemma mont_eqI:
  assumes "raw_elem P r" and "(lval r * mont_R) mod prime_of P = (y * mont_R) mod prime_of P"
  shows "lval r = y mod prime_of P"
  using mont_value [OF assms(1)] assms(2) unfolding mont_R_def .

lemma R2_R: "lval (R2 P) = (mont_R * mont_R) mod prime_of P"
  and R3_R: "lval (R3 P) = (mont_R * mont_R * mont_R) mod prime_of P"
  by (simp_all only: R2 R3 mont_R_def flip: power_add) simp_all

lemma repr_n_mod: "repr_n P x (v mod prime_of P) \<longleftrightarrow> repr_n P x v"
  and repr_m_mod: "repr_m P x (v mod prime_of P) \<longleftrightarrow> repr_m P x v"
  by (simp_all add: repr_n_def repr_m_def mod_mult_left_eq)

lemma repr_n_raw: "repr_n P x v \<Longrightarrow> raw_elem P x" and repr_m_raw: "repr_m P x v \<Longrightarrow> raw_elem P x"
  by (simp_all add: repr_n_def repr_m_def)

lemma repr_length: "repr_n P x v \<Longrightarrow> length x = 4" "repr_m P x v \<Longrightarrow> length x = 4"
  by (auto simp: repr_n_def repr_m_def)

text \<open>Every product of two values is one of these.\<close>

lemma MMul_cong:
  assumes "raw_elem P x" and "raw_elem P y" and "(lval x * lval y) mod prime_of P = (z * mont_R) mod prime_of P"
  shows "raw_elem P (F_rawMMul P G x y)" and "lval (F_rawMMul P G x y) = z mod prime_of P"
proof -
  note m = rawMMul [OF raw_elem_length [OF assms(1)] assms(2)]
  show r: "raw_elem P (F_rawMMul P G x y)" by (rule m)
  show "lval (F_rawMMul P G x y) = z mod prime_of P"
    using m(2) assms(3) by (intro mont_eqI [OF r]) (simp only: mont_R_def)
qed

lemma repr_mul_mm:
  assumes "repr_m P x u" and "repr_m P y v"
  shows "repr_m P (F_rawMMul P G x y) (u * v)"
proof -
  have "(lval x * lval y) mod prime_of P = (u * v * mont_R * mont_R) mod prime_of P"
    using assms by (simp add: repr_m_def mod_mult_eq mult.commute mult.left_commute)
  from MMul_cong [OF repr_m_raw [OF assms(1)] repr_m_raw [OF assms(2)] this]
  show ?thesis by (simp add: repr_m_def)
qed

lemma repr_mul_nm:
  assumes "repr_n P x u" and "repr_m P y v"
  shows "repr_n P (F_rawMMul P G x y) (u * v)"
proof -
  have "(lval x * lval y) mod prime_of P = (u * v * mont_R) mod prime_of P"
    using assms by (simp add: repr_n_def repr_m_def mod_mult_eq mult.commute mult.left_commute)
  from MMul_cong [OF repr_n_raw [OF assms(1)] repr_m_raw [OF assms(2)] this]
  show ?thesis by (simp add: repr_n_def)
qed

lemma repr_mul_mn:
  assumes "repr_m P x u" and "repr_n P y v"
  shows "repr_n P (F_rawMMul P G x y) (u * v)"
proof -
  have "(lval x * lval y) mod prime_of P = (u * v * mont_R) mod prime_of P"
    using assms by (simp add: repr_n_def repr_m_def mod_mult_eq mult.commute mult.left_commute)
  from MMul_cong [OF repr_m_raw [OF assms(1)] repr_n_raw [OF assms(2)] this]
  show ?thesis by (simp add: repr_n_def)
qed

text \<open>A product that has lost a factor \<open>R\<close> is restored by multiplying with \<open>R^3\<close>.\<close>

lemma repr_R3:
  assumes "raw_elem P x" and "(lval x * mont_R) mod prime_of P = v mod prime_of P"
  shows "repr_m P (F_rawMMul P G x (R3 P)) v"
proof -
  have "(lval x * lval (R3 P)) mod prime_of P = ((lval x * mont_R) mod prime_of P * (mont_R * mont_R)) mod prime_of P"
    unfolding R3_R mod_mult_right_eq mod_mult_left_eq by (simp only: mult.assoc)
  also have "\<dots> = (v * mont_R * mont_R) mod prime_of P"
    unfolding assms(2) mod_mult_left_eq by (simp only: mult.assoc)
  finally show ?thesis
    using MMul_cong [OF assms(1) raw_elem_R3] by (simp add: repr_m_def)
qed

lemma repr_mul_nn:
  assumes "repr_n P x u" and "repr_n P y v"
  shows "repr_m P (F_rawMMul P G (F_rawMMul P G x y) (R3 P)) (u * v)"
proof -
  have xy: "raw_elem P x" "raw_elem P y" using assms by (simp_all add: repr_n_def)
  note m = rawMMul [OF raw_elem_length [OF xy(1)] xy(2)]
  have "(lval x * lval y) mod prime_of P = (u * v) mod prime_of P"
    using assms by (simp add: repr_n_def mod_mult_eq)
  then show ?thesis using m by (intro repr_R3) (simp_all only: mont_R_def)
qed

lemma repr_toMont: "repr_n P x v \<Longrightarrow> repr_m P (F_rawMMul P G x (R2 P)) v"
proof -
  assume x: "repr_n P x v"
  have "(lval x * lval (R2 P)) mod prime_of P = (v * mont_R * mont_R) mod prime_of P"
    using x by (simp add: repr_n_def R2_R mod_mult_eq mult.assoc)
  from MMul_cong [OF repr_n_raw [OF x] raw_elem_R2 this] show ?thesis by (simp add: repr_m_def)
qed

lemma repr_fromMont: "repr_m P x v \<Longrightarrow> repr_n P (F_rawFromMontgomery P G x) v"
proof -
  assume x: "repr_m P x v"
  note f = rawFromMontgomery [OF repr_length(2) [OF x]]
  have "(lval (F_rawFromMontgomery P G x) * mont_R) mod prime_of P = (v * mont_R) mod prime_of P"
    using f(2) x by (simp add: mont_R_def repr_m_def)
  from mont_eqI [OF f(1) this] show ?thesis using f(1) by (simp add: repr_n_def)
qed

lemma repr_S2L: "repr_n P (F_rawCopyS2L P G w) (sint w)"
  using rawCopyS2L [of w] by (simp add: repr_n_def)

lemma repr_add_n: "repr_n P x u \<Longrightarrow> repr_n P y v \<Longrightarrow> repr_n P (F_rawAdd P G x y) (u + v)"
  using rawAdd [of x y] by (simp add: repr_n_def mod_add_eq)

lemma repr_add_m: "repr_m P x u \<Longrightarrow> repr_m P y v \<Longrightarrow> repr_m P (F_rawAdd P G x y) (u + v)"
  using rawAdd [of x y] by (simp add: repr_m_def mod_add_eq distrib_right)

lemma repr_sub_n: "repr_n P x u \<Longrightarrow> repr_n P y v \<Longrightarrow> repr_n P (F_rawSub P G x y) (u - v)"
  using rawSub [of x y] by (simp add: repr_n_def mod_diff_eq)

lemma repr_sub_m: "repr_m P x u \<Longrightarrow> repr_m P y v \<Longrightarrow> repr_m P (F_rawSub P G x y) (u - v)"
  using rawSub [of x y] by (simp add: repr_m_def mod_diff_eq left_diff_distrib)

lemma repr_neg_n: "repr_n P x u \<Longrightarrow> repr_n P (F_rawNeg P G x) (- u)"
  using rawNeg [of x] by (simp add: repr_n_def mod_minus_eq)

lemma repr_neg_m: "repr_m P x u \<Longrightarrow> repr_m P (F_rawNeg P G x) (- u)"
  using rawNeg [of x] by (simp add: repr_m_def mod_minus_eq)

lemma repr_AddLS: "repr_n P x u \<Longrightarrow> repr_n P (F_rawAddLS P G x w) (u + uint w)"
  using rawAddLS [of x w] by (simp add: repr_n_def mod_add_left_eq)

lemma repr_SubLS: "repr_n P x u \<Longrightarrow> repr_n P (F_rawSubLS P G x w) (u - uint w)"
  using rawSubLS [of x w] by (simp add: repr_n_def mod_diff_left_eq)

lemma repr_SubSL: "repr_n P x u \<Longrightarrow> repr_n P (F_rawSubSL P G w x) (uint w - u)"
  using rawSubSL [of x w] by (simp add: repr_n_def mod_diff_right_eq)

lemma repr_NegLS: "repr_n P x u \<Longrightarrow> w \<noteq> 0 \<Longrightarrow> repr_n P (F_rawNegLS P G False x w) (- u - uint w)"
proof -
  assume x: "repr_n P x u" and w: "w \<noteq> 0"
  have "(- (u mod prime_of P) - uint w) mod prime_of P = (- u - uint w) mod prime_of P"
    by (metis mod_diff_left_eq mod_minus_eq)
  then show ?thesis using rawNegLS [OF repr_n_raw [OF x] w] x by (simp add: repr_n_def)
qed

text \<open>The product with a signed short value, as the mixed multiplications compute it.\<close>

definition smul :: "limbs \<Rightarrow> element \<Rightarrow> limbs" where
  "smul x e = (if sint (shortVal e) < 0 then F_rawNeg P G (F_rawMMul1 P G x (- short64 e))
               else F_rawMMul1 P G x (short64 e))"

lemma smul:
  assumes "raw_elem P x"
  shows "raw_elem P (smul x e)"
    and "(lval (smul x e) * mont_R) mod prime_of P = (lval x * sint (shortVal e)) mod prime_of P"
proof -
  have "raw_elem P (smul x e) \<and>
      (lval (smul x e) * mont_R) mod prime_of P = (lval x * sint (shortVal e)) mod prime_of P"
  proof (cases "sint (shortVal e) < 0")
    case True
    let ?m = "F_rawMMul1 P G x (- short64 e)"
    note m = rawMMul1 [OF assms, of "- short64 e"]
    note n = rawNeg [OF m(1)]
    have "(lval (F_rawNeg P G ?m) * mont_R) mod prime_of P = (- (lval ?m * mont_R mod prime_of P)) mod prime_of P"
      unfolding n(2) mod_mult_left_eq mod_minus_eq by (simp only: mult_minus_left)
    also have "\<dots> = (- (lval x * - sint (shortVal e))) mod prime_of P"
      using m(2) unfolding uint_minus_short64 [OF True] mont_R_def by (simp only: mod_minus_eq)
    finally show ?thesis using True n(1) by (simp add: smul_def)
  next
    case False
    then show ?thesis
      using rawMMul1 [OF assms, of "short64 e"] by (simp add: smul_def uint_short64 mont_R_def)
  qed
  then show "raw_elem P (smul x e)"
    and "(lval (smul x e) * mont_R) mod prime_of P = (lval x * sint (shortVal e)) mod prime_of P"
    by simp_all
qed

lemma repr_smul_n:
  assumes "repr_n P x u"
  shows "repr_m P (F_rawMMul P G (smul x e) (R3 P)) (u * sint (shortVal e))"
  using smul [OF repr_n_raw [OF assms]] assms
  by (intro repr_R3) (simp_all add: repr_n_def mod_mult_left_eq)

lemma repr_smul_m:
  assumes "repr_m P x u"
  shows "repr_n P (smul x e) (u * sint (shortVal e))"
proof -
  note m = smul [OF repr_m_raw [OF assms]]
  have "(lval x * sint (shortVal e)) mod prime_of P = (u * sint (shortVal e) * mont_R) mod prime_of P"
    using assms by (simp add: repr_m_def mod_mult_right_eq mult.commute mult.left_commute mult.assoc)
  then have "(lval (smul x e) * mont_R) mod prime_of P = (u * sint (shortVal e) * mont_R) mod prime_of P"
    by (simp only: m(2))
  from mont_eqI [OF m(1) this] m(1) show ?thesis by (simp add: repr_n_def)
qed

lemma repr_smul_R2: "repr_m P (smul (R2 P) e) (sint (shortVal e))"
proof -
  note m = smul [OF raw_elem_R2]
  have "(lval (R2 P) * sint (shortVal e)) mod prime_of P = (sint (shortVal e) * mont_R * mont_R) mod prime_of P"
    by (simp add: R2_R mod_mult_right_eq mult.commute mult.left_commute mult.assoc)
  then have "(lval (smul (R2 P) e) * mont_R) mod prime_of P
      = (sint (shortVal e) * mont_R * mont_R) mod prime_of P"
    by (simp only: m(2))
  from mont_eqI [OF m(1) this] m(1) show ?thesis by (simp add: repr_m_def)
qed

section \<open>Elements\<close>

lemma felem_cases [consumes 1, case_names short long smont lmont]:
  assumes "felem P e"
  obtains "etype e = F_SHORT" "fval P e = sint (shortVal e) mod prime_of P"
  | "etype e = F_LONG" "repr_n P (longVal e) (fval P e)"
  | "etype e = F_SHORTMONTGOMERY" "fval P e = sint (shortVal e) mod prime_of P"
      "repr_m P (longVal e) (fval P e)"
  | "etype e = F_LONGMONTGOMERY" "repr_m P (longVal e) (fval P e)"
proof -
  have l: "repr_m P (longVal e) (fval P e)" if "etype e = F_LONGMONTGOMERY" "raw_elem P (longVal e)"
  proof -
    have "lval (longVal e) = (fval P e * mont_R) mod prime_of P"
      using that cancel_R [of "lval (longVal e)"] elem_mod [OF that(2)]
      by (simp add: fval_def mod_mult_right_eq mult.commute mult.left_commute)
    then show ?thesis using that(2) by (simp add: repr_m_def)
  qed
  show thesis
    using assms that l unfolding felem_def
    by (auto simp: fval_def repr_n_def repr_m_def elem_mod mod_mult_left_eq)
qed

lemma elem_repr_short:
  assumes "etype e = F_SHORT" and "sint (shortVal e) mod prime_of P = v mod prime_of P"
  shows "elem_repr P e v"
  using assms by (simp add: elem_repr_def felem_def fval_def)

lemma elem_repr_long:
  assumes "etype e = F_LONG" and "repr_n P (longVal e) v"
  shows "elem_repr P e v"
  using assms by (simp add: elem_repr_def felem_def fval_def repr_n_def)

lemma elem_repr_lmont:
  assumes "etype e = F_LONGMONTGOMERY" and "repr_m P (longVal e) v"
  shows "elem_repr P e v"
  using assms cancel_R [of v] by (simp add: elem_repr_def felem_def fval_def repr_m_def mod_mult_left_eq)

lemma elem_repr_iff:
  "etype e = F_SHORT \<Longrightarrow> elem_repr P e v \<longleftrightarrow> sint (shortVal e) mod prime_of P = v mod prime_of P"
  "etype e = F_LONG \<Longrightarrow> elem_repr P e v \<longleftrightarrow> repr_n P (longVal e) v"
  "etype e = F_LONGMONTGOMERY \<Longrightarrow> elem_repr P e v \<longleftrightarrow> repr_m P (longVal e) v"
proof -
  show "elem_repr P e v \<longleftrightarrow> sint (shortVal e) mod prime_of P = v mod prime_of P" if "etype e = F_SHORT"
    using that by (simp add: elem_repr_def felem_def fval_def)
  show "elem_repr P e v \<longleftrightarrow> repr_n P (longVal e) v" if e: "etype e = F_LONG"
    using e by (auto simp: elem_repr_def felem_def fval_def repr_n_def type_defs)
  show "elem_repr P e v \<longleftrightarrow> repr_m P (longVal e) v" if e: "etype e = F_LONGMONTGOMERY"
  proof
    assume "elem_repr P e v"
    then have "felem P e" and v: "fval P e = v mod prime_of P" by (simp_all add: elem_repr_def)
    from this(1) have "repr_m P (longVal e) (fval P e)"
      by (cases rule: felem_cases) (simp_all add: e type_defs)
    then show "repr_m P (longVal e) v" by (simp add: v repr_m_mod)
  qed (rule elem_repr_lmont [OF e])
qed

lemmas elem_repr_intros = elem_repr_short elem_repr_long elem_repr_lmont

lemma fval_bounds: "felem P e \<Longrightarrow> 0 \<le> fval P e \<and> fval P e < prime_of P"
  using q_pos by (auto simp: felem_def fval_def raw_elem_def)

lemma elem_repr_mod: "elem_repr P e (v mod prime_of P) \<longleftrightarrow> elem_repr P e v"
  by (simp add: elem_repr_def)

end

end
