(* ===== verification/GenericLogic.thy ===== *)
theory GenericLogic
  imports GenericField
begin

text \<open>
  The rest of \<open>build/fr_generic.cpp\<close>: comparisons (elements above \<open>(q - 1) / 2\<close> count as
  negative), equality, the logical and bitwise operators, negation, squaring and the shifts.
  The comparison functions return the C integers 0 and 1 and change no element of their
  caller, so their model returns the integer only.
\<close>

section \<open>Less than\<close>

definition rlt_s1s2 :: "ptr \<Rightarrow> ptr \<Rightarrow> store \<Rightarrow> u32" where
  "rlt_s1s2 a b s = (if sint (shortVal (s a)) < sint (shortVal (s b)) then 1 else 0)"

definition rltRawL1L2 :: "gmp \<Rightarrow> limbs \<Rightarrow> limbs \<Rightarrow> u32" where
  "rltRawL1L2 G pRawA pRawB =
     (let result = F_rawCmp G pRawB pRawA in if result > 0 then 1 else 0)"

definition rltl1l2_n1 :: "field_consts \<Rightarrow> gmp \<Rightarrow> limbs \<Rightarrow> limbs \<Rightarrow> u32" where
  "rltl1l2_n1 P G pRawA pRawB =
     (let result = F_rawCmp G (half P) pRawB
      in if result < 0 then rltRawL1L2 G pRawA pRawB else 1)"

definition rltl1l2_p1 :: "field_consts \<Rightarrow> gmp \<Rightarrow> limbs \<Rightarrow> limbs \<Rightarrow> u32" where
  "rltl1l2_p1 P G pRawA pRawB =
     (let result = F_rawCmp G (half P) pRawB
      in if result < 0 then 0 else rltRawL1L2 G pRawA pRawB)"

definition rltL1L2 :: "field_consts \<Rightarrow> gmp \<Rightarrow> limbs \<Rightarrow> limbs \<Rightarrow> u32" where
  "rltL1L2 P G pRawA pRawB =
     (let result = F_rawCmp G (half P) pRawA
      in if result < 0 then rltl1l2_n1 P G pRawA pRawB else rltl1l2_p1 P G pRawA pRawB)"

definition rlt_l1nl2n :: "field_consts \<Rightarrow> gmp \<Rightarrow> ptr \<Rightarrow> ptr \<Rightarrow> store \<Rightarrow> u32" where
  "rlt_l1nl2n P G a b s =
     rltL1L2 P G (longVal (s a)) (longVal (s b))"

definition rlt_l1nl2m :: "field_consts \<Rightarrow> gmp \<Rightarrow> ptr \<Rightarrow> ptr \<Rightarrow> store \<Rightarrow> u32" where
  "rlt_l1nl2m P G a b s =
     (let s = F_toNormal P G (Local L_b_n) b s
      in rltL1L2 P G (longVal (s a)) (longVal (s (Local L_b_n))))"

definition rlt_l1ml2m :: "field_consts \<Rightarrow> gmp \<Rightarrow> ptr \<Rightarrow> ptr \<Rightarrow> store \<Rightarrow> u32" where
  "rlt_l1ml2m P G a b s =
     (let s = F_toNormal P G (Local L_a_n) a s;
          s = F_toNormal P G (Local L_b_n) b s
      in rltL1L2 P G (longVal (s (Local L_a_n))) (longVal (s (Local L_b_n))))"

definition rlt_l1ml2n :: "field_consts \<Rightarrow> gmp \<Rightarrow> ptr \<Rightarrow> ptr \<Rightarrow> store \<Rightarrow> u32" where
  "rlt_l1ml2n P G a b s =
     (let s = F_toNormal P G (Local L_a_n) a s
      in rltL1L2 P G (longVal (s (Local L_a_n))) (longVal (s b)))"

definition rlt_s1l2n :: "field_consts \<Rightarrow> gmp \<Rightarrow> ptr \<Rightarrow> ptr \<Rightarrow> store \<Rightarrow> u32" where
  "rlt_s1l2n P G a b s =
     (let s = F_toLongNormal P G (Local L_a_n) a s
      in rltL1L2 P G (longVal (s (Local L_a_n))) (longVal (s b)))"

definition rlt_l1ms2 :: "field_consts \<Rightarrow> gmp \<Rightarrow> ptr \<Rightarrow> ptr \<Rightarrow> store \<Rightarrow> u32" where
  "rlt_l1ms2 P G a b s =
     (let s = F_toLongNormal P G (Local L_b_ln) b s;
          s = F_toNormal P G (Local L_a_n) a s
      in rltL1L2 P G (longVal (s (Local L_a_n))) (longVal (s (Local L_b_ln))))"

definition rlt_s1l2m :: "field_consts \<Rightarrow> gmp \<Rightarrow> ptr \<Rightarrow> ptr \<Rightarrow> store \<Rightarrow> u32" where
  "rlt_s1l2m P G a b s =
     (let s = F_toLongNormal P G (Local L_a_n) a s;
          s = F_toNormal P G (Local L_b_n) b s
      in rltL1L2 P G (longVal (s (Local L_a_n))) (longVal (s (Local L_b_n))))"

definition rlt_l1ns2 :: "field_consts \<Rightarrow> gmp \<Rightarrow> ptr \<Rightarrow> ptr \<Rightarrow> store \<Rightarrow> u32" where
  "rlt_l1ns2 P G a b s =
     (let s = F_toLongNormal P G (Local L_b_n) b s
      in rltL1L2 P G (longVal (s a)) (longVal (s (Local L_b_n))))"

definition F_rlt :: "field_consts \<Rightarrow> gmp \<Rightarrow> ptr \<Rightarrow> ptr \<Rightarrow> store \<Rightarrow> u32" where
  "F_rlt P G a b s =
     (if is_long (s a) then
        if is_long (s b) then
          if is_mont (s a) then
            if is_mont (s b) then rlt_l1ml2m P G a b s else rlt_l1ml2n P G a b s
          else if is_mont (s b) then rlt_l1nl2m P G a b s
          else rlt_l1nl2n P G a b s
        else if is_mont (s a) then rlt_l1ms2 P G a b s
        else rlt_l1ns2 P G a b s
      else if is_long (s b) then
        if is_mont (s b) then rlt_s1l2m P G a b s else rlt_s1l2n P G a b s
      else rlt_s1s2 a b s)"

definition F_lt :: "field_consts \<Rightarrow> gmp \<Rightarrow> ptr \<Rightarrow> ptr \<Rightarrow> ptr \<Rightarrow> store \<Rightarrow> store" where
  "F_lt P G r a b s =
     (let s = set_short r (F_rlt P G a b s) s
      in set_type r F_SHORT s)"

definition F_geq :: "field_consts \<Rightarrow> gmp \<Rightarrow> ptr \<Rightarrow> ptr \<Rightarrow> ptr \<Rightarrow> store \<Rightarrow> store" where
  "F_geq P G r a b s =
     (let result = F_rlt P G a b s;
          result = result XOR 0x1;
          s = set_short r result s
      in set_type r F_SHORT s)"

section \<open>Negation\<close>

definition F_rawSNeg :: "u32 \<Rightarrow> u64 \<times> bool" where
  "F_rawSNeg a = (let r = - scast a in (r, has_add32_overflow r))"

definition F_neg :: "field_consts \<Rightarrow> gmp \<Rightarrow> ptr \<Rightarrow> ptr \<Rightarrow> store \<Rightarrow> store" where
  "F_neg P G r a s =
     (if is_long (s a) then
        let s = set_type r (etype (s a)) s;
            s = set_short r (shortVal (s a)) s
        in set_long r (F_rawNeg P G (longVal (s a))) s
      else
        let (a_shortVal, overflow) = F_rawSNeg (shortVal (s a))
        in if overflow
           then let s = set_long r (F_rawCopyS2L P G a_shortVal) s;
                    s = set_type r F_LONG s
                in set_short r 0 s
           else let s = set_type r F_SHORT s
                in set_short r (ucast a_shortVal) s)"

section \<open>Equality\<close>

definition reqL1L2 :: "gmp \<Rightarrow> limbs \<Rightarrow> limbs \<Rightarrow> u32" where
  "reqL1L2 G pRawA pRawB = (if F_rawCmp G pRawB pRawA = 0 then 1 else 0)"

definition req_s1s2 :: "ptr \<Rightarrow> ptr \<Rightarrow> store \<Rightarrow> u32" where
  "req_s1s2 a b s = (if shortVal (s a) = shortVal (s b) then 1 else 0)"

definition req_l1nl2n :: "field_consts \<Rightarrow> gmp \<Rightarrow> ptr \<Rightarrow> ptr \<Rightarrow> store \<Rightarrow> u32" where
  "req_l1nl2n P G a b s =
     reqL1L2 G (longVal (s a)) (longVal (s b))"

definition req_l1nl2m :: "field_consts \<Rightarrow> gmp \<Rightarrow> ptr \<Rightarrow> ptr \<Rightarrow> store \<Rightarrow> u32" where
  "req_l1nl2m P G a b s =
     (let s = F_toMontgomery P G (Local L_a_m) a s
      in reqL1L2 G (longVal (s (Local L_a_m))) (longVal (s b)))"

definition req_l1ml2m :: "field_consts \<Rightarrow> gmp \<Rightarrow> ptr \<Rightarrow> ptr \<Rightarrow> store \<Rightarrow> u32" where
  "req_l1ml2m P G a b s =
     reqL1L2 G (longVal (s a)) (longVal (s b))"

definition req_l1ml2n :: "field_consts \<Rightarrow> gmp \<Rightarrow> ptr \<Rightarrow> ptr \<Rightarrow> store \<Rightarrow> u32" where
  "req_l1ml2n P G a b s =
     (let s = F_toMontgomery P G (Local L_b_m) b s
      in reqL1L2 G (longVal (s a)) (longVal (s (Local L_b_m))))"

definition req_s1l2n :: "field_consts \<Rightarrow> gmp \<Rightarrow> ptr \<Rightarrow> ptr \<Rightarrow> store \<Rightarrow> u32" where
  "req_s1l2n P G a b s =
     (let s = F_toLongNormal P G (Local L_a_n) a s
      in reqL1L2 G (longVal (s (Local L_a_n))) (longVal (s b)))"

definition req_l1ms2 :: "field_consts \<Rightarrow> gmp \<Rightarrow> ptr \<Rightarrow> ptr \<Rightarrow> store \<Rightarrow> u32" where
  "req_l1ms2 P G a b s =
     (let s = F_toMontgomery P G (Local L_b_m) b s
      in reqL1L2 G (longVal (s a)) (longVal (s (Local L_b_m))))"

definition req_s1l2m :: "field_consts \<Rightarrow> gmp \<Rightarrow> ptr \<Rightarrow> ptr \<Rightarrow> store \<Rightarrow> u32" where
  "req_s1l2m P G a b s =
     (let s = F_toMontgomery P G (Local L_a_m) a s
      in reqL1L2 G (longVal (s (Local L_a_m))) (longVal (s b)))"

definition req_l1ns2 :: "field_consts \<Rightarrow> gmp \<Rightarrow> ptr \<Rightarrow> ptr \<Rightarrow> store \<Rightarrow> u32" where
  "req_l1ns2 P G a b s =
     (let s = F_toLongNormal P G (Local L_b_n) b s
      in reqL1L2 G (longVal (s a)) (longVal (s (Local L_b_n))))"

definition F_req :: "field_consts \<Rightarrow> gmp \<Rightarrow> ptr \<Rightarrow> ptr \<Rightarrow> store \<Rightarrow> u32" where
  "F_req P G a b s =
     (if is_long (s a) then
        if is_long (s b) then
          if is_mont (s a) then
            if is_mont (s b) then req_l1ml2m P G a b s else req_l1ml2n P G a b s
          else if is_mont (s b) then req_l1nl2m P G a b s
          else req_l1nl2n P G a b s
        else if is_mont (s a) then req_l1ms2 P G a b s
        else req_l1ns2 P G a b s
      else if is_long (s b) then
        if is_mont (s b) then req_s1l2m P G a b s else req_s1l2n P G a b s
      else req_s1s2 a b s)"

definition F_eq :: "field_consts \<Rightarrow> gmp \<Rightarrow> ptr \<Rightarrow> ptr \<Rightarrow> ptr \<Rightarrow> store \<Rightarrow> store" where
  "F_eq P G r a b s =
     (let s = set_short r (F_req P G a b s) s
      in set_type r F_SHORT s)"

definition F_neq :: "field_consts \<Rightarrow> gmp \<Rightarrow> ptr \<Rightarrow> ptr \<Rightarrow> ptr \<Rightarrow> store \<Rightarrow> store" where
  "F_neq P G r a b s =
     (let result = F_req P G a b s;
          s = set_short r (result XOR 0x1) s
      in set_type r F_SHORT s)"

section \<open>Logical operators\<close>

text \<open>The block that computes \<open>is_true_a\<close> and \<open>is_true_b\<close>.\<close>

definition is_true_of :: "gmp \<Rightarrow> element \<Rightarrow> u32" where
  "is_true_of G e =
     (if is_long e then if F_rawIsZero G (longVal e) = 0 then 1 else 0
      else if shortVal e \<noteq> 0 then 1 else 0)"

definition F_lor :: "gmp \<Rightarrow> ptr \<Rightarrow> ptr \<Rightarrow> ptr \<Rightarrow> store \<Rightarrow> store" where
  "F_lor G r a b s =
     (let is_true_a = is_true_of G (s a);
          is_true_b = is_true_of G (s b);
          s = set_short r (is_true_a OR is_true_b) s
      in set_type r F_SHORT s)"

definition F_lnot :: "gmp \<Rightarrow> ptr \<Rightarrow> ptr \<Rightarrow> store \<Rightarrow> store" where
  "F_lnot G r a s =
     (let s = (if is_long (s a) then set_short r (F_rawIsZero G (longVal (s a))) s
               else set_short r (if shortVal (s a) \<noteq> 0 then 0 else 1) s)
      in set_type r F_SHORT s)"

section \<open>Greater than\<close>

definition rgt_s1s2 :: "ptr \<Rightarrow> ptr \<Rightarrow> store \<Rightarrow> u32" where
  "rgt_s1s2 a b s = (if sint (shortVal (s a)) > sint (shortVal (s b)) then 1 else 0)"

definition rgtRawL1L2 :: "gmp \<Rightarrow> limbs \<Rightarrow> limbs \<Rightarrow> u32" where
  "rgtRawL1L2 G pRawA pRawB =
     (let result = F_rawCmp G pRawB pRawA in if result < 0 then 1 else 0)"

definition rgtl1l2_n1 :: "field_consts \<Rightarrow> gmp \<Rightarrow> limbs \<Rightarrow> limbs \<Rightarrow> u32" where
  "rgtl1l2_n1 P G pRawA pRawB =
     (let result = F_rawCmp G (half P) pRawB
      in if result < 0 then rgtRawL1L2 G pRawA pRawB else 0)"

definition rgtl1l2_p1 :: "field_consts \<Rightarrow> gmp \<Rightarrow> limbs \<Rightarrow> limbs \<Rightarrow> u32" where
  "rgtl1l2_p1 P G pRawA pRawB =
     (let result = F_rawCmp G (half P) pRawB
      in if result < 0 then 1 else rgtRawL1L2 G pRawA pRawB)"

definition rgtL1L2 :: "field_consts \<Rightarrow> gmp \<Rightarrow> limbs \<Rightarrow> limbs \<Rightarrow> u32" where
  "rgtL1L2 P G pRawA pRawB =
     (let result = F_rawCmp G (half P) pRawA
      in if result < 0 then rgtl1l2_n1 P G pRawA pRawB else rgtl1l2_p1 P G pRawA pRawB)"

definition rgt_l1nl2n :: "field_consts \<Rightarrow> gmp \<Rightarrow> ptr \<Rightarrow> ptr \<Rightarrow> store \<Rightarrow> u32" where
  "rgt_l1nl2n P G a b s =
     rgtL1L2 P G (longVal (s a)) (longVal (s b))"

definition rgt_l1nl2m :: "field_consts \<Rightarrow> gmp \<Rightarrow> ptr \<Rightarrow> ptr \<Rightarrow> store \<Rightarrow> u32" where
  "rgt_l1nl2m P G a b s =
     (let s = F_toNormal P G (Local L_b_n) b s
      in rgtL1L2 P G (longVal (s a)) (longVal (s (Local L_b_n))))"

definition rgt_l1ml2m :: "field_consts \<Rightarrow> gmp \<Rightarrow> ptr \<Rightarrow> ptr \<Rightarrow> store \<Rightarrow> u32" where
  "rgt_l1ml2m P G a b s =
     (let s = F_toNormal P G (Local L_a_n) a s;
          s = F_toNormal P G (Local L_b_n) b s
      in rgtL1L2 P G (longVal (s (Local L_a_n))) (longVal (s (Local L_b_n))))"

definition rgt_l1ml2n :: "field_consts \<Rightarrow> gmp \<Rightarrow> ptr \<Rightarrow> ptr \<Rightarrow> store \<Rightarrow> u32" where
  "rgt_l1ml2n P G a b s =
     (let s = F_toNormal P G (Local L_a_n) a s
      in rgtL1L2 P G (longVal (s (Local L_a_n))) (longVal (s b)))"

definition rgt_s1l2n :: "field_consts \<Rightarrow> gmp \<Rightarrow> ptr \<Rightarrow> ptr \<Rightarrow> store \<Rightarrow> u32" where
  "rgt_s1l2n P G a b s =
     (let s = F_toLongNormal P G (Local L_a_n) a s
      in rgtL1L2 P G (longVal (s (Local L_a_n))) (longVal (s b)))"

definition rgt_l1ms2 :: "field_consts \<Rightarrow> gmp \<Rightarrow> ptr \<Rightarrow> ptr \<Rightarrow> store \<Rightarrow> u32" where
  "rgt_l1ms2 P G a b s =
     (let s = F_toNormal P G (Local L_a_n) a s;
          s = F_toLongNormal P G (Local L_b_n) b s
      in rgtL1L2 P G (longVal (s (Local L_a_n))) (longVal (s (Local L_b_n))))"

definition rgt_s1l2m :: "field_consts \<Rightarrow> gmp \<Rightarrow> ptr \<Rightarrow> ptr \<Rightarrow> store \<Rightarrow> u32" where
  "rgt_s1l2m P G a b s =
     (let s = F_toLongNormal P G (Local L_a_n) a s;
          s = F_toNormal P G (Local L_b_n) b s
      in rgtL1L2 P G (longVal (s (Local L_a_n))) (longVal (s (Local L_b_n))))"

definition rgt_l1ns2 :: "field_consts \<Rightarrow> gmp \<Rightarrow> ptr \<Rightarrow> ptr \<Rightarrow> store \<Rightarrow> u32" where
  "rgt_l1ns2 P G a b s =
     (let s = F_toLongNormal P G (Local L_b_n) b s
      in rgtL1L2 P G (longVal (s a)) (longVal (s (Local L_b_n))))"

definition F_rgt :: "field_consts \<Rightarrow> gmp \<Rightarrow> ptr \<Rightarrow> ptr \<Rightarrow> store \<Rightarrow> u32" where
  "F_rgt P G a b s =
     (if is_long (s a) then
        if is_long (s b) then
          if is_mont (s a) then
            if is_mont (s b) then rgt_l1ml2m P G a b s else rgt_l1ml2n P G a b s
          else if is_mont (s b) then rgt_l1nl2m P G a b s
          else rgt_l1nl2n P G a b s
        else if is_mont (s a) then rgt_l1ms2 P G a b s
        else rgt_l1ns2 P G a b s
      else if is_long (s b) then
        if is_mont (s b) then rgt_s1l2m P G a b s else rgt_s1l2n P G a b s
      else rgt_s1s2 a b s)"

definition F_gt :: "field_consts \<Rightarrow> gmp \<Rightarrow> ptr \<Rightarrow> ptr \<Rightarrow> ptr \<Rightarrow> store \<Rightarrow> store" where
  "F_gt P G r a b s =
     (let s = set_short r (F_rgt P G a b s) s
      in set_type r F_SHORT s)"

definition F_leq :: "field_consts \<Rightarrow> gmp \<Rightarrow> ptr \<Rightarrow> ptr \<Rightarrow> ptr \<Rightarrow> store \<Rightarrow> store" where
  "F_leq P G r a b s =
     (let result = F_rgt P G a b s;
          result = result XOR 0x1;
          s = set_short r result s
      in set_type r F_SHORT s)"

definition F_land :: "gmp \<Rightarrow> ptr \<Rightarrow> ptr \<Rightarrow> ptr \<Rightarrow> store \<Rightarrow> store" where
  "F_land G r a b s =
     (let is_true_a = is_true_of G (s a);
          is_true_b = is_true_of G (s b);
          s = set_short r (is_true_a AND is_true_b) s
      in set_type r F_SHORT s)"

section \<open>Bitwise operators\<close>

text \<open>The branch that gives a short operand as four limbs: the aggregate
  \<open>{0, 0, {(uint64_t)a->shortVal, 0, 0, 0}}\<close> for a non-negative value, the conversion to a
  long element otherwise.\<close>

definition short_operand :: "field_consts \<Rightarrow> gmp \<Rightarrow> ptr \<Rightarrow> ptr \<Rightarrow> store \<Rightarrow> store" where
  "short_operand P G a_n a s =
     (if sint (shortVal (s a)) \<ge> 0
      then s(a_n := \<lparr>shortVal = 0, etype = 0, longVal = [short64 (s a), 0, 0, 0]\<rparr>)
      else F_toLongNormal P G a_n a s)"

definition and_s1s2 :: "field_consts \<Rightarrow> gmp \<Rightarrow> ptr \<Rightarrow> ptr \<Rightarrow> ptr \<Rightarrow> store \<Rightarrow> store" where
  "and_s1s2 P G r a b s =
     (if sint (shortVal (s a)) \<ge> 0 \<and> sint (shortVal (s b)) \<ge> 0
      then let s = set_short r (shortVal (s a) AND shortVal (s b)) s
           in set_type r F_SHORT s
      else (let s = set_type r F_LONG s;
               s = F_toLongNormal P G (Local L_a_n) a s;
               s = F_toLongNormal P G (Local L_b_n) b s
           in set_long r (F_rawAnd P G (longVal (s (Local L_a_n))) (longVal (s (Local L_b_n)))) s))"

definition and_l1nl2n :: "field_consts \<Rightarrow> gmp \<Rightarrow> ptr \<Rightarrow> ptr \<Rightarrow> ptr \<Rightarrow> store \<Rightarrow> store" where
  "and_l1nl2n P G r a b s =
     (let s = set_type r F_LONG s
      in set_long r (F_rawAnd P G (longVal (s a)) (longVal (s b))) s)"

definition and_l1nl2m :: "field_consts \<Rightarrow> gmp \<Rightarrow> ptr \<Rightarrow> ptr \<Rightarrow> ptr \<Rightarrow> store \<Rightarrow> store" where
  "and_l1nl2m P G r a b s =
     (let s = set_type r F_LONG s;
          s = F_toNormal P G (Local L_b_n) b s
      in set_long r (F_rawAnd P G (longVal (s a)) (longVal (s (Local L_b_n)))) s)"

definition and_l1ml2m :: "field_consts \<Rightarrow> gmp \<Rightarrow> ptr \<Rightarrow> ptr \<Rightarrow> ptr \<Rightarrow> store \<Rightarrow> store" where
  "and_l1ml2m P G r a b s =
     (let s = set_type r F_LONG s;
          s = F_toNormal P G (Local L_a_n) a s;
          s = F_toNormal P G (Local L_b_n) b s
      in set_long r (F_rawAnd P G (longVal (s (Local L_a_n))) (longVal (s (Local L_b_n)))) s)"

definition and_l1ml2n :: "field_consts \<Rightarrow> gmp \<Rightarrow> ptr \<Rightarrow> ptr \<Rightarrow> ptr \<Rightarrow> store \<Rightarrow> store" where
  "and_l1ml2n P G r a b s =
     (let s = set_type r F_LONG s;
          s = F_toNormal P G (Local L_a_n) a s
      in set_long r (F_rawAnd P G (longVal (s (Local L_a_n))) (longVal (s b))) s)"

definition and_s1l2n :: "field_consts \<Rightarrow> gmp \<Rightarrow> ptr \<Rightarrow> ptr \<Rightarrow> ptr \<Rightarrow> store \<Rightarrow> store" where
  "and_s1l2n P G r a b s =
     (let s = set_type r F_LONG s;
          s = short_operand P G (Local L_a_n) a s
      in set_long r (F_rawAnd P G (longVal (s (Local L_a_n))) (longVal (s b))) s)"

definition and_l1ms2 :: "field_consts \<Rightarrow> gmp \<Rightarrow> ptr \<Rightarrow> ptr \<Rightarrow> ptr \<Rightarrow> store \<Rightarrow> store" where
  "and_l1ms2 P G r a b s =
     (let s = set_type r F_LONG s;
          s = F_toNormal P G (Local L_a_n) a s;
          s = short_operand P G (Local L_b_n) b s
      in set_long r (F_rawAnd P G (longVal (s (Local L_b_n))) (longVal (s (Local L_a_n)))) s)"

definition and_s1l2m :: "field_consts \<Rightarrow> gmp \<Rightarrow> ptr \<Rightarrow> ptr \<Rightarrow> ptr \<Rightarrow> store \<Rightarrow> store" where
  "and_s1l2m P G r a b s =
     (let s = set_type r F_LONG s;
          s = F_toNormal P G (Local L_b_n) b s;
          s = short_operand P G (Local L_a_n) a s
      in set_long r (F_rawAnd P G (longVal (s (Local L_a_n))) (longVal (s (Local L_b_n)))) s)"

definition and_l1ns2 :: "field_consts \<Rightarrow> gmp \<Rightarrow> ptr \<Rightarrow> ptr \<Rightarrow> ptr \<Rightarrow> store \<Rightarrow> store" where
  "and_l1ns2 P G r a b s =
     (let s = set_type r F_LONG s;
          s = short_operand P G (Local L_b_n) b s
      in set_long r (F_rawAnd P G (longVal (s a)) (longVal (s (Local L_b_n)))) s)"

definition F_band :: "field_consts \<Rightarrow> gmp \<Rightarrow> ptr \<Rightarrow> ptr \<Rightarrow> ptr \<Rightarrow> store \<Rightarrow> store" where
  "F_band P G r a b s =
     (if is_long (s a) then
        if is_long (s b) then
          if is_mont (s a) then
            if is_mont (s b) then and_l1ml2m P G r a b s else and_l1ml2n P G r a b s
          else if is_mont (s b) then and_l1nl2m P G r a b s
          else and_l1nl2n P G r a b s
        else if is_mont (s a) then and_l1ms2 P G r a b s
        else and_l1ns2 P G r a b s
      else if is_long (s b) then
        if is_mont (s b) then and_s1l2m P G r a b s else and_s1l2n P G r a b s
      else and_s1s2 P G r a b s)"

section \<open>Shifts\<close>

definition rawShl :: "field_consts \<Rightarrow> gmp \<Rightarrow> bool \<Rightarrow> limbs \<Rightarrow> u64 \<Rightarrow> limbs" where
  "rawShl P G alias a b =
     (if b = 0 then F_rawCopy a
      else if b \<ge> 254 then F_rawZero
      else F_rawShl P G alias a b)"

definition rawShr :: "gmp \<Rightarrow> limbs \<Rightarrow> u64 \<Rightarrow> limbs" where
  "rawShr G a b =
     (if b = 0 then F_rawCopy a
      else if b \<ge> 254 then F_rawZero
      else F_rawShr G a b)"

definition F_setzero :: "ptr \<Rightarrow> store \<Rightarrow> store" where
  "F_setzero r s = (let s = set_type r 0 s in set_short r 0 s)"

definition do_shlcl :: "field_consts \<Rightarrow> gmp \<Rightarrow> ptr \<Rightarrow> ptr \<Rightarrow> u64 \<Rightarrow> store \<Rightarrow> store" where
  "do_shlcl P G r a b s =
     (let a_long = Local L_do_shlcl_a_long;
          s = F_toLongNormal P G a_long a s;
          s = set_type r F_LONG s
      in set_long r (rawShl P G (r = a_long) (longVal (s a_long)) b) s)"

definition do_shlln :: "field_consts \<Rightarrow> gmp \<Rightarrow> ptr \<Rightarrow> ptr \<Rightarrow> u64 \<Rightarrow> store \<Rightarrow> store" where
  "do_shlln P G r a b s =
     (let s = set_type r F_LONG s
      in set_long r (rawShl P G (r = a) (longVal (s a)) b) s)"

definition do_shl :: "field_consts \<Rightarrow> gmp \<Rightarrow> ptr \<Rightarrow> ptr \<Rightarrow> u64 \<Rightarrow> store \<Rightarrow> store" where
  "do_shl P G r a b s =
     (if is_long (s a) then
        if etype (s a) = F_LONGMONTGOMERY then
          let a_long = Local L_do_shl_a_long;
              s = F_toNormal P G a_long a s
          in do_shlln P G r a_long b s
        else do_shlln P G r a b s
      else
        let a_shortVal = short64 (s a)
        in if a_shortVal = 0 then F_setzero r s
           else if sint a_shortVal < 0 then do_shlcl P G r a b s
           else if b \<ge> 31 then do_shlcl P G r a b s
           else let a_shortVal = push_bit (unat b) a_shortVal;
                    a_is_over_short = signed_drop_bit 31 a_shortVal
                in if a_is_over_short \<noteq> 0 then do_shlcl P G r a b s
                   else let s = set_type r F_SHORT s
                        in set_short r (ucast a_shortVal) s)"

definition do_shrln :: "gmp \<Rightarrow> ptr \<Rightarrow> ptr \<Rightarrow> u64 \<Rightarrow> store \<Rightarrow> store" where
  "do_shrln G r a b s =
     (let s = set_type r F_LONG s
      in set_long r (rawShr G (longVal (s a)) b) s)"

definition do_shrl :: "field_consts \<Rightarrow> gmp \<Rightarrow> ptr \<Rightarrow> ptr \<Rightarrow> u64 \<Rightarrow> store \<Rightarrow> store" where
  "do_shrl P G r a b s =
     (if etype (s a) = F_LONGMONTGOMERY
      then let a_long = Local L_do_shrl_a_long;
               s = F_toNormal P G a_long a s
           in do_shrln G r a_long b s
      else do_shrln G r a b s)"

definition do_shr :: "field_consts \<Rightarrow> gmp \<Rightarrow> ptr \<Rightarrow> ptr \<Rightarrow> u64 \<Rightarrow> store \<Rightarrow> store" where
  "do_shr P G r a b s =
     (if is_long (s a) then do_shrl P G r a b s
      else
        let a_shortVal = short64 (s a)
        in if a_shortVal = 0 then F_setzero r s
           else if sint a_shortVal < 0 then
             let a_long = Local L_do_shr_a_long;
                 s = F_toLongNormal P G a_long a s
             in do_shrl P G r a_long b s
           else if b \<ge> 31 then F_setzero r s
           else let a_shortVal = signed_drop_bit (unat b) a_shortVal;
                    s = set_short r (ucast a_shortVal) s
                in set_type r F_SHORT s)"

definition F_shr_big_shift :: "field_consts \<Rightarrow> gmp \<Rightarrow> ptr \<Rightarrow> ptr \<Rightarrow> ptr \<Rightarrow> store \<Rightarrow> store" where
  "F_shr_big_shift P G r a b s =
     (let max_shift = [254, 0, 0, 0];
          shift = F_rawSubRegular G (q_long P) (longVal (s b))
      in if F_rawCmp G shift max_shift \<ge> 0 then F_setzero r s
         else do_shl P G r a (shift ! 0) s)"

definition F_shr_long :: "field_consts \<Rightarrow> gmp \<Rightarrow> ptr \<Rightarrow> ptr \<Rightarrow> ptr \<Rightarrow> store \<Rightarrow> store" where
  "F_shr_long P G r a b s =
     (let max_shift = [254, 0, 0, 0]
      in if F_rawCmp G (longVal (s b)) max_shift \<ge> 0 then F_shr_big_shift P G r a b s
         else do_shr P G r a (longVal (s b) ! 0) s)"

definition F_shr :: "field_consts \<Rightarrow> gmp \<Rightarrow> ptr \<Rightarrow> ptr \<Rightarrow> ptr \<Rightarrow> store \<Rightarrow> store" where
  "F_shr P G r a b s =
     (if is_long (s b) then
        if etype (s b) = F_LONGMONTGOMERY then
          let b_long = Local L_shr_b_long;
              s = F_toNormal P G b_long b s
          in F_shr_long P G r a b_long s
        else F_shr_long P G r a b s
      else
        let b_shortVal = short64 (s b)
        in if sint b_shortVal < 0 then
             let b_shortVal = - b_shortVal
             in if sint b_shortVal \<ge> 254 then F_setzero r s
                else do_shl P G r a b_shortVal s
           else if sint b_shortVal \<ge> 254 then F_setzero r s
           else do_shr P G r a b_shortVal s)"

definition F_shl_big_shift :: "field_consts \<Rightarrow> gmp \<Rightarrow> ptr \<Rightarrow> ptr \<Rightarrow> ptr \<Rightarrow> store \<Rightarrow> store" where
  "F_shl_big_shift P G r a b s =
     (let max_shift = [254, 0, 0, 0];
          shift = F_rawSubRegular G (q_long P) (longVal (s b))
      in if F_rawCmp G shift max_shift \<ge> 0 then F_setzero r s
         else do_shr P G r a (shift ! 0) s)"

definition F_shl_long :: "field_consts \<Rightarrow> gmp \<Rightarrow> ptr \<Rightarrow> ptr \<Rightarrow> ptr \<Rightarrow> store \<Rightarrow> store" where
  "F_shl_long P G r a b s =
     (let max_shift = [254, 0, 0, 0]
      in if F_rawCmp G (longVal (s b)) max_shift \<ge> 0 then F_shl_big_shift P G r a b s
         else do_shl P G r a (longVal (s b) ! 0) s)"

definition F_shl :: "field_consts \<Rightarrow> gmp \<Rightarrow> ptr \<Rightarrow> ptr \<Rightarrow> ptr \<Rightarrow> store \<Rightarrow> store" where
  "F_shl P G r a b s =
     (if is_long (s b) then
        if etype (s b) = F_LONGMONTGOMERY then
          let b_long = Local L_shl_b_long;
              s = F_toNormal P G b_long b s
          in F_shl_long P G r a b_long s
        else F_shl_long P G r a b s
      else
        let b_shortVal = short64 (s b)
        in if sint b_shortVal < 0 then
             let b_shortVal = - b_shortVal
             in if sint b_shortVal \<ge> 254 then F_setzero r s
                else do_shr P G r a b_shortVal s
           else if sint b_shortVal \<ge> 254 then F_setzero r s
           else do_shl P G r a b_shortVal s)"

section \<open>Squaring\<close>

definition F_square :: "field_consts \<Rightarrow> gmp \<Rightarrow> ptr \<Rightarrow> ptr \<Rightarrow> store \<Rightarrow> store" where
  "F_square P G r a s =
     (if is_long (s a) then
        if etype (s a) = F_LONGMONTGOMERY then
          let s = set_type r F_LONGMONTGOMERY s
          in set_long r (F_rawMSquare P G (longVal (s a))) s
        else
          let s = set_type r F_LONGMONTGOMERY s;
              s = set_long r (F_rawMSquare P G (longVal (s a))) s
          in set_long r (F_rawMMul P G (longVal (s r)) (R3 P)) s
      else
        let (result, overflow) = F_rawSMul (shortVal (s a)) (shortVal (s a))
        in if overflow \<noteq> 0
           then let s = set_long r (F_rawCopyS2L P G result) s;
                    s = set_type r F_LONG s
                in set_short r 0 s
           else let s = set_short r (ucast result) s;
                    s = set_type r F_SHORT s;
                    s = set_long r (F_rawCopyS2L P G result) s;
                    s = set_type r F_LONG s
                in set_short r 0 s)"

section \<open>The other bitwise operators\<close>

definition or_s1s2 :: "field_consts \<Rightarrow> gmp \<Rightarrow> ptr \<Rightarrow> ptr \<Rightarrow> ptr \<Rightarrow> store \<Rightarrow> store" where
  "or_s1s2 P G r a b s =
     (if sint (shortVal (s a)) \<ge> 0 \<and> sint (shortVal (s b)) \<ge> 0
      then let s = set_short r (shortVal (s a) OR shortVal (s b)) s
           in set_type r F_SHORT s
      else (let s = set_type r F_LONG s;
               s = F_toLongNormal P G (Local L_a_n) a s;
               s = F_toLongNormal P G (Local L_b_n) b s
           in set_long r (F_rawOr P G (longVal (s (Local L_a_n))) (longVal (s (Local L_b_n)))) s))"

definition or_s1l2m :: "field_consts \<Rightarrow> gmp \<Rightarrow> ptr \<Rightarrow> ptr \<Rightarrow> ptr \<Rightarrow> store \<Rightarrow> store" where
  "or_s1l2m P G r a b s =
     (let s = set_type r F_LONG s;
          s = F_toNormal P G (Local L_b_n) b s;
          s = short_operand P G (Local L_a_n) a s
      in set_long r (F_rawOr P G (longVal (s (Local L_a_n))) (longVal (s (Local L_b_n)))) s)"

definition or_s1l2n :: "field_consts \<Rightarrow> gmp \<Rightarrow> ptr \<Rightarrow> ptr \<Rightarrow> ptr \<Rightarrow> store \<Rightarrow> store" where
  "or_s1l2n P G r a b s =
     (let s = set_type r F_LONG s;
          s = short_operand P G (Local L_a_n) a s
      in set_long r (F_rawOr P G (longVal (s (Local L_a_n))) (longVal (s b))) s)"

definition or_l1ns2 :: "field_consts \<Rightarrow> gmp \<Rightarrow> ptr \<Rightarrow> ptr \<Rightarrow> ptr \<Rightarrow> store \<Rightarrow> store" where
  "or_l1ns2 P G r a b s =
     (let s = set_type r F_LONG s;
          s = short_operand P G (Local L_b_n) b s
      in set_long r (F_rawOr P G (longVal (s a)) (longVal (s (Local L_b_n)))) s)"

definition or_l1ms2 :: "field_consts \<Rightarrow> gmp \<Rightarrow> ptr \<Rightarrow> ptr \<Rightarrow> ptr \<Rightarrow> store \<Rightarrow> store" where
  "or_l1ms2 P G r a b s =
     (let s = set_type r F_LONG s;
          s = F_toNormal P G (Local L_a_n) a s;
          s = short_operand P G (Local L_b_n) b s
      in set_long r (F_rawOr P G (longVal (s (Local L_b_n))) (longVal (s (Local L_a_n)))) s)"

definition or_l1nl2n :: "field_consts \<Rightarrow> gmp \<Rightarrow> ptr \<Rightarrow> ptr \<Rightarrow> ptr \<Rightarrow> store \<Rightarrow> store" where
  "or_l1nl2n P G r a b s =
     (let s = set_type r F_LONG s
      in set_long r (F_rawOr P G (longVal (s a)) (longVal (s b))) s)"

definition or_l1nl2m :: "field_consts \<Rightarrow> gmp \<Rightarrow> ptr \<Rightarrow> ptr \<Rightarrow> ptr \<Rightarrow> store \<Rightarrow> store" where
  "or_l1nl2m P G r a b s =
     (let s = set_type r F_LONG s;
          s = F_toNormal P G (Local L_b_n) b s
      in set_long r (F_rawOr P G (longVal (s a)) (longVal (s (Local L_b_n)))) s)"

definition or_l1ml2n :: "field_consts \<Rightarrow> gmp \<Rightarrow> ptr \<Rightarrow> ptr \<Rightarrow> ptr \<Rightarrow> store \<Rightarrow> store" where
  "or_l1ml2n P G r a b s =
     (let s = set_type r F_LONG s;
          s = F_toNormal P G (Local L_a_n) a s
      in set_long r (F_rawOr P G (longVal (s (Local L_a_n))) (longVal (s b))) s)"

definition or_l1ml2m :: "field_consts \<Rightarrow> gmp \<Rightarrow> ptr \<Rightarrow> ptr \<Rightarrow> ptr \<Rightarrow> store \<Rightarrow> store" where
  "or_l1ml2m P G r a b s =
     (let s = set_type r F_LONG s;
          s = F_toNormal P G (Local L_a_n) a s;
          s = F_toNormal P G (Local L_b_n) b s
      in set_long r (F_rawOr P G (longVal (s (Local L_a_n))) (longVal (s (Local L_b_n)))) s)"

definition F_bor :: "field_consts \<Rightarrow> gmp \<Rightarrow> ptr \<Rightarrow> ptr \<Rightarrow> ptr \<Rightarrow> store \<Rightarrow> store" where
  "F_bor P G r a b s =
     (if is_long (s a) then
        if is_long (s b) then
          if is_mont (s a) then
            if is_mont (s b) then or_l1ml2m P G r a b s else or_l1ml2n P G r a b s
          else if is_mont (s b) then or_l1nl2m P G r a b s
          else or_l1nl2n P G r a b s
        else if is_mont (s a) then or_l1ms2 P G r a b s
        else or_l1ns2 P G r a b s
      else if is_long (s b) then
        if is_mont (s b) then or_s1l2m P G r a b s else or_s1l2n P G r a b s
      else or_s1s2 P G r a b s)"

definition xor_s1s2 :: "field_consts \<Rightarrow> gmp \<Rightarrow> ptr \<Rightarrow> ptr \<Rightarrow> ptr \<Rightarrow> store \<Rightarrow> store" where
  "xor_s1s2 P G r a b s =
     (if sint (shortVal (s a)) \<ge> 0 \<and> sint (shortVal (s b)) \<ge> 0
      then let s = set_short r (shortVal (s a) XOR shortVal (s b)) s
           in set_type r F_SHORT s
      else (let s = set_type r F_LONG s;
               s = F_toLongNormal P G (Local L_a_n) a s;
               s = F_toLongNormal P G (Local L_b_n) b s
           in set_long r (F_rawXor P G (longVal (s (Local L_a_n))) (longVal (s (Local L_b_n)))) s))"

definition xor_s1l2n :: "field_consts \<Rightarrow> gmp \<Rightarrow> ptr \<Rightarrow> ptr \<Rightarrow> ptr \<Rightarrow> store \<Rightarrow> store" where
  "xor_s1l2n P G r a b s =
     (let s = set_type r F_LONG s;
          s = short_operand P G (Local L_a_n) a s
      in set_long r (F_rawXor P G (longVal (s (Local L_a_n))) (longVal (s b))) s)"

definition xor_s1l2m :: "field_consts \<Rightarrow> gmp \<Rightarrow> ptr \<Rightarrow> ptr \<Rightarrow> ptr \<Rightarrow> store \<Rightarrow> store" where
  "xor_s1l2m P G r a b s =
     (let s = set_type r F_LONG s;
          s = F_toNormal P G (Local L_b_n) b s;
          s = short_operand P G (Local L_a_n) a s
      in set_long r (F_rawXor P G (longVal (s (Local L_a_n))) (longVal (s (Local L_b_n)))) s)"

definition xor_l1ns2 :: "field_consts \<Rightarrow> gmp \<Rightarrow> ptr \<Rightarrow> ptr \<Rightarrow> ptr \<Rightarrow> store \<Rightarrow> store" where
  "xor_l1ns2 P G r a b s =
     (let s = set_type r F_LONG s;
          s = short_operand P G (Local L_b_n) b s
      in set_long r (F_rawXor P G (longVal (s a)) (longVal (s (Local L_b_n)))) s)"

definition xor_l1ms2 :: "field_consts \<Rightarrow> gmp \<Rightarrow> ptr \<Rightarrow> ptr \<Rightarrow> ptr \<Rightarrow> store \<Rightarrow> store" where
  "xor_l1ms2 P G r a b s =
     (let s = set_type r F_LONG s;
          s = F_toNormal P G (Local L_a_n) a s;
          s = short_operand P G (Local L_b_n) b s
      in set_long r (F_rawXor P G (longVal (s (Local L_b_n))) (longVal (s (Local L_a_n)))) s)"

definition xor_l1nl2n :: "field_consts \<Rightarrow> gmp \<Rightarrow> ptr \<Rightarrow> ptr \<Rightarrow> ptr \<Rightarrow> store \<Rightarrow> store" where
  "xor_l1nl2n P G r a b s =
     (let s = set_type r F_LONG s
      in set_long r (F_rawXor P G (longVal (s a)) (longVal (s b))) s)"

definition xor_l1nl2m :: "field_consts \<Rightarrow> gmp \<Rightarrow> ptr \<Rightarrow> ptr \<Rightarrow> ptr \<Rightarrow> store \<Rightarrow> store" where
  "xor_l1nl2m P G r a b s =
     (let s = set_type r F_LONG s;
          s = F_toNormal P G (Local L_b_n) b s
      in set_long r (F_rawXor P G (longVal (s a)) (longVal (s (Local L_b_n)))) s)"

definition xor_l1ml2n :: "field_consts \<Rightarrow> gmp \<Rightarrow> ptr \<Rightarrow> ptr \<Rightarrow> ptr \<Rightarrow> store \<Rightarrow> store" where
  "xor_l1ml2n P G r a b s =
     (let s = set_type r F_LONG s;
          s = F_toNormal P G (Local L_a_n) a s
      in set_long r (F_rawXor P G (longVal (s (Local L_a_n))) (longVal (s b))) s)"

definition xor_l1ml2m :: "field_consts \<Rightarrow> gmp \<Rightarrow> ptr \<Rightarrow> ptr \<Rightarrow> ptr \<Rightarrow> store \<Rightarrow> store" where
  "xor_l1ml2m P G r a b s =
     (let s = set_type r F_LONG s;
          s = F_toNormal P G (Local L_a_n) a s;
          s = F_toNormal P G (Local L_b_n) b s
      in set_long r (F_rawXor P G (longVal (s (Local L_a_n))) (longVal (s (Local L_b_n)))) s)"

definition F_bxor :: "field_consts \<Rightarrow> gmp \<Rightarrow> ptr \<Rightarrow> ptr \<Rightarrow> ptr \<Rightarrow> store \<Rightarrow> store" where
  "F_bxor P G r a b s =
     (if is_long (s a) then
        if is_long (s b) then
          if is_mont (s a) then
            if is_mont (s b) then xor_l1ml2m P G r a b s else xor_l1ml2n P G r a b s
          else if is_mont (s b) then xor_l1nl2m P G r a b s
          else xor_l1nl2n P G r a b s
        else if is_mont (s a) then xor_l1ms2 P G r a b s
        else xor_l1ns2 P G r a b s
      else if is_long (s b) then
        if is_mont (s b) then xor_s1l2m P G r a b s else xor_s1l2n P G r a b s
      else xor_s1s2 P G r a b s)"

definition F_bnot :: "field_consts \<Rightarrow> gmp \<Rightarrow> ptr \<Rightarrow> ptr \<Rightarrow> store \<Rightarrow> store" where
  "F_bnot P G r a s =
     (let s = set_type r F_LONG s
      in if etype (s a) = F_LONG then
           if is_mont (s a) then
             let s = F_toNormal P G (Local L_a_n) a s
             in set_long r (F_rawNot P G (longVal (s (Local L_a_n)))) s
           else set_long r (F_rawNot P G (longVal (s a))) s
         else
           let s = F_toLongNormal P G (Local L_a_n) a s
           in set_long r (F_rawNot P G (longVal (s (Local L_a_n)))) s)"

end
