(* ===== verification/FieldArith.thy ===== *)
theory FieldArith
  imports FieldValue GenericLogic
begin

text \<open>
  Correctness of the tagged field arithmetic: conversions, multiplication, squaring,
  addition, subtraction and negation compute in the field whatever the representations of
  the operands. Multiplication, squaring and negation also do when the result overwrites an
  operand; addition and subtraction convert an operand after the type of the result has been
  written, so their lemmas ask for a result apart from the operands.
\<close>

context mont_field
begin

section \<open>Conversions\<close>

lemma F_toNormal_other [simp]: "p \<noteq> r \<Longrightarrow> F_toNormal P G r a s p = s p"
  by (simp add: F_toNormal_def Let_def)

lemma F_toLongNormal_other [simp]: "p \<noteq> r \<Longrightarrow> F_toLongNormal P G r a s p = s p"
  by (simp add: F_toLongNormal_def Let_def)

lemma F_toMontgomery_other [simp]: "p \<noteq> r \<Longrightarrow> F_toMontgomery P G r a s p = s p"
  by (simp add: F_toMontgomery_def Let_def)

lemma F_toNormal:
  assumes "felem P (s a)"
  shows "elem_repr P (F_toNormal P G r a s r) (fval P (s a))"
    and "is_long (s a) \<Longrightarrow> repr_n P (longVal (F_toNormal P G r a s r)) (fval P (s a))"
proof -
  have "elem_repr P (F_toNormal P G r a s r) (fval P (s a)) \<and>
      (is_long (s a) \<longrightarrow> repr_n P (longVal (F_toNormal P G r a s r)) (fval P (s a)))"
    using assms
  proof (cases rule: felem_cases)
    case lmont
    then show ?thesis by (auto simp: F_toNormal_def Let_def intro!: elem_repr_long repr_fromMont)
  qed (use assms fval_bounds [OF assms] in \<open>simp_all add: F_toNormal_def elem_repr_def\<close>)
  then show "elem_repr P (F_toNormal P G r a s r) (fval P (s a))"
    and "is_long (s a) \<Longrightarrow> repr_n P (longVal (F_toNormal P G r a s r)) (fval P (s a))"
    by blast+
qed

lemma F_toLongNormal:
  assumes "felem P (s a)"
  shows "elem_repr P (F_toLongNormal P G r a s r) (fval P (s a))"
    and "repr_n P (longVal (F_toLongNormal P G r a s r)) (fval P (s a))"
    and "etype (F_toLongNormal P G r a s r) = F_LONG"
proof -
  have *: "etype (F_toLongNormal P G r a s r) = F_LONG
      \<and> repr_n P (longVal (F_toLongNormal P G r a s r)) (fval P (s a))"
    using assms
  proof (cases rule: felem_cases)
    case short
    then show ?thesis
      using repr_S2L [of "short64 (s a)"]
      by (simp add: F_toLongNormal_def Let_def repr_n_mod sint_short64)
  next
    case long
    then show ?thesis by (simp add: F_toLongNormal_def Let_def)
  next
    case smont
    then show ?thesis
      using repr_S2L [of "short64 (s a)"]
      by (simp add: F_toLongNormal_def Let_def repr_n_mod sint_short64)
  next
    case lmont
    then show ?thesis by (simp add: F_toLongNormal_def Let_def repr_fromMont)
  qed
  then show "repr_n P (longVal (F_toLongNormal P G r a s r)) (fval P (s a))"
    and "etype (F_toLongNormal P G r a s r) = F_LONG" by simp_all
  with * show "elem_repr P (F_toLongNormal P G r a s r) (fval P (s a))"
    by (intro elem_repr_long) simp_all
qed

text \<open>The limbs of a conversion to Montgomery form are right for every operand; the whole
  element is for long operands and when the conversion is in place.\<close>

lemma F_toMontgomery_short:
  assumes "\<not> is_long (s a)" and "\<not> is_mont (s a)"
  shows "F_toMontgomery P G r a s r
    = (s r)\<lparr>longVal := smul (R2 P) (s a), etype := F_SHORTMONTGOMERY\<rparr>"
  using assms by (simp add: F_toMontgomery_def smul_def Let_def)

lemma F_toMontgomery:
  assumes "felem P (s a)"
  shows "repr_m P (longVal (F_toMontgomery P G r a s r)) (fval P (s a))"
    and "is_mont (F_toMontgomery P G r a s r)"
    and "is_long (s a) \<or> is_mont (s a) \<or> r = a \<Longrightarrow>
      elem_repr P (F_toMontgomery P G r a s r) (fval P (s a))"
proof -
  have "repr_m P (longVal (F_toMontgomery P G r a s r)) (fval P (s a))
      \<and> is_mont (F_toMontgomery P G r a s r)
      \<and> (is_long (s a) \<or> is_mont (s a) \<or> r = a \<longrightarrow>
        elem_repr P (F_toMontgomery P G r a s r) (fval P (s a)))"
    using assms
  proof (cases rule: felem_cases)
    case short
    then show ?thesis
      using repr_smul_R2 [of "s a"]
      by (auto simp: F_toMontgomery_short repr_m_mod elem_repr_def felem_def fval_def repr_m_def
        mod_mult_left_eq)
  next
    case long
    then show ?thesis
      by (auto simp: F_toMontgomery_def Let_def intro!: repr_toMont elem_repr_lmont)
  next
    case smont
    then show ?thesis
      by (auto simp: F_toMontgomery_def elem_repr_def assms fval_def)
  next
    case lmont
    then show ?thesis
      by (auto simp: F_toMontgomery_def intro!: elem_repr_lmont)
  qed
  then show "repr_m P (longVal (F_toMontgomery P G r a s r)) (fval P (s a))"
    "is_mont (F_toMontgomery P G r a s r)"
    "is_long (s a) \<or> is_mont (s a) \<or> r = a \<Longrightarrow>
      elem_repr P (F_toMontgomery P G r a s r) (fval P (s a))"
    by blast+
qed

section \<open>Multiplication\<close>

lemmas mul_defs = mul_l1nl2n_def mul_l1nl2m_def mul_l1ml2m_def mul_l1ml2n_def mul_l1ns2n_def
  mul_s1nl2n_def mul_l1ms2n_def mul_s1nl2m_def mul_l1ns2m_def mul_l1ms2m_def mul_s1ml2m_def
  mul_s1ml2n_def

text \<open>The shared block of the mixed multiplications is \<open>smul\<close>.\<close>

lemma mul_s1s2:
  "elem_repr P (mul_s1s2 P G r a b s r) (sint (shortVal (s a)) * sint (shortVal (s b)))"
  using repr_S2L [of "scast (shortVal (s a)) * scast (shortVal (s b))"]
  by (auto simp: mul_s1s2_def F_rawSMul_def Let_def short_ops intro!: elem_repr_long)

lemma smul_if:
  "longVal ((if sint (shortVal e) < 0
     then set_long r (F_rawNeg P G (F_rawMMul1 P G x (- short64 e))) t
     else set_long r (F_rawMMul1 P G x (short64 e)) t') r) = smul x e"
  by (simp add: smul_def)

lemma mul_short_long:
  assumes "etype (s b) = F_LONG \<or> etype (s b) = F_LONGMONTGOMERY" and "felem P (s b)"
  shows "etype (s b) = F_LONG \<Longrightarrow>
      elem_repr P (mul_s1nl2n P G r a b s r) (sint (shortVal (s a)) * fval P (s b))"
    and "etype (s b) = F_LONG \<Longrightarrow>
      elem_repr P (mul_l1ns2n P G r b a s r) (fval P (s b) * sint (shortVal (s a)))"
    and "etype (s b) = F_LONGMONTGOMERY \<Longrightarrow>
      elem_repr P (mul_s1nl2m P G r a b s r) (sint (shortVal (s a)) * fval P (s b))"
    and "etype (s b) = F_LONGMONTGOMERY \<Longrightarrow>
      elem_repr P (mul_l1ms2n P G r b a s r) (fval P (s b) * sint (shortVal (s a)))"
proof -
  have n: "repr_n P (longVal (s b)) (fval P (s b))" if "etype (s b) = F_LONG"
    using assms(2) that by (cases rule: felem_cases) (simp_all add: type_defs)
  have m: "repr_m P (longVal (s b)) (fval P (s b))" if "etype (s b) = F_LONGMONTGOMERY"
    using assms(2) that by (cases rule: felem_cases) (simp_all add: type_defs)
  show "elem_repr P (mul_l1ns2n P G r b a s r) (fval P (s b) * sint (shortVal (s a)))"
    if "etype (s b) = F_LONG"
    using repr_smul_n [OF n [OF that], of "s a"]
    by (intro elem_repr_lmont) (auto simp: mul_l1ns2n_def Let_def smul_def)
  then show "elem_repr P (mul_s1nl2n P G r a b s r) (sint (shortVal (s a)) * fval P (s b))"
    if "etype (s b) = F_LONG"
    using that by (simp add: mul_l1ns2n_def mul_s1nl2n_def mult.commute)
  show "elem_repr P (mul_l1ms2n P G r b a s r) (fval P (s b) * sint (shortVal (s a)))"
    if "etype (s b) = F_LONGMONTGOMERY"
    using repr_smul_m [OF m [OF that], of "s a"]
    by (intro elem_repr_long) (auto simp: mul_l1ms2n_def Let_def smul_def)
  then show "elem_repr P (mul_s1nl2m P G r a b s r) (sint (shortVal (s a)) * fval P (s b))"
    if "etype (s b) = F_LONGMONTGOMERY"
    using that by (simp add: mul_l1ms2n_def mul_s1nl2m_def mult.commute)
qed

lemma elem_repr_mult_mod:
  "elem_repr P e (u mod prime_of P * v) \<longleftrightarrow> elem_repr P e (u * v)"
  "elem_repr P e (u * (v mod prime_of P)) \<longleftrightarrow> elem_repr P e (u * v)"
  by (simp_all add: elem_repr_def mod_mult_left_eq mod_mult_right_eq)

theorem F_mul:
  assumes a: "felem P (s a)" and b: "felem P (s b)"
  shows "elem_repr P (F_mul P G r a b s r) (fval P (s a) * fval P (s b))"
  using a
proof (cases rule: felem_cases)
  case A: short
  show ?thesis
    using b
    by (cases rule: felem_cases; use A b mul_s1s2 [of r a b s] mul_short_long [of s b r a]
      in \<open>simp add: F_mul_def elem_repr_mult_mod\<close>)
next
  case A: long
  show ?thesis
    using b
    by (cases rule: felem_cases; use A a mul_short_long [of s a r b]
      in \<open>simp add: F_mul_def elem_repr_mult_mod mul_l1nl2n_def mul_l1nl2m_def mul_l1ns2m_def Let_def
        elem_repr_iff repr_m_mod repr_mul_nn repr_mul_nm\<close>)
next
  case A: smont
  show ?thesis
    using b
    by (cases rule: felem_cases; use A b mul_s1s2 [of r a b s]
      in \<open>simp add: F_mul_def elem_repr_mult_mod mul_s1ml2m_def mul_s1ml2n_def Let_def
        elem_repr_iff repr_m_mod repr_mul_mm repr_mul_mn\<close>)
next
  case A: lmont
  show ?thesis
    using b
    by (cases rule: felem_cases; use A a mul_short_long [of s a r b]
      in \<open>simp add: F_mul_def elem_repr_mult_mod mul_l1ml2n_def mul_l1ml2m_def mul_l1ms2m_def Let_def
        elem_repr_iff repr_m_mod repr_mul_mm repr_mul_mn\<close>)
qed

lemma F_mul_other: "p \<noteq> r \<Longrightarrow> F_mul P G r a b s p = s p"
  by (simp add: F_mul_def mul_defs mul_s1s2_def F_rawSMul_def Let_def)

section \<open>Squaring and negation\<close>

theorem F_square:
  assumes "felem P (s a)"
  shows "elem_repr P (F_square P G r a s r) (fval P (s a) * fval P (s a))"
proof -
  have sq: "elem_repr P (F_square P G r a s r) (sint (shortVal (s a)) * sint (shortVal (s a)))"
    if "\<not> is_long (s a)"
    using mul_s1s2 [of r a a s] that by (simp add: F_square_def mul_s1s2_def)
  show ?thesis
    using assms
    by (cases rule: felem_cases; use sq in \<open>simp add: F_square_def elem_repr_mult_mod Let_def
      elem_repr_iff F_rawMSquare_def repr_mul_mm repr_mul_nn\<close>)
qed

text \<open>The branch on a 64-bit result that may not fit the short value.\<close>

lemma short_result:
  assumes "- (2 ^ 32) \<le> sint w" and "sint w < 2 ^ 32"
  shows "elem_repr P ((if has_add32_overflow w
      then set_short r 0 (set_type r F_LONG (set_long r (F_rawCopyS2L P G w) s))
      else set_short r (ucast w) (set_type r F_SHORT s)) r) (sint w)"
  using has_add32_overflow [OF assms] repr_S2L [of w] sint_ucast_32 [of w]
  by (simp add: elem_repr_iff)

theorem F_neg:
  assumes "felem P (s a)"
  shows "elem_repr P (F_neg P G r a s r) (- fval P (s a))"
proof -
  have neg: "elem_repr P (F_neg P G r a s r) (- sint (shortVal (s a)))" if "\<not> is_long (s a)"
    using short_result [of "- scast (shortVal (s a))" r s] short_bounds [of "s a"] that
    by (simp add: F_neg_def F_rawSNeg_def Let_def short_ops split: if_splits)
  then have neg': "elem_repr P (F_neg P G r a s r) (- (sint (shortVal (s a)) mod prime_of P))"
    if "\<not> is_long (s a)"
    using that by (simp add: elem_repr_def mod_minus_eq)
  show ?thesis
    using assms
    by (cases rule: felem_cases; use neg' in \<open>simp add: F_neg_def Let_def elem_repr_iff
      repr_neg_n repr_neg_m\<close>)
qed

section \<open>Addition and subtraction\<close>

lemma elem_repr_add_mod:
  "elem_repr P e (u mod prime_of P + v) \<longleftrightarrow> elem_repr P e (u + v)"
  "elem_repr P e (u + v mod prime_of P) \<longleftrightarrow> elem_repr P e (u + v)"
  "elem_repr P e (u mod prime_of P - v) \<longleftrightarrow> elem_repr P e (u - v)"
  "elem_repr P e (u - v mod prime_of P) \<longleftrightarrow> elem_repr P e (u - v)"
  by (simp_all add: elem_repr_def mod_add_left_eq mod_add_right_eq mod_diff_left_eq mod_diff_right_eq)

lemma add_s1s2:
  "elem_repr P (add_s1s2 P G r a b s r) (sint (shortVal (s a)) + sint (shortVal (s b)))"
  using short_result [of "scast (shortVal (s a)) + scast (shortVal (s b))" r s]
    short_bounds [of "s a"] short_bounds [of "s b"]
  by (simp add: add_s1s2_def F_rawSAdd_def Let_def short_ops split: if_splits)

lemma sub_s1s2:
  "elem_repr P (sub_s1s2 P G r a b s r) (sint (shortVal (s a)) - sint (shortVal (s b)))"
  using short_result [of "scast (shortVal (s a)) - scast (shortVal (s b))" r s]
    short_bounds [of "s a"] short_bounds [of "s b"]
  by (simp add: sub_s1s2_def F_rawSSub_def Let_def short_ops split: if_splits)

text \<open>A long element plus or minus a signed short value.\<close>

lemma repr_add_short:
  assumes "repr_n P x u"
  shows "repr_n P (if 0 \<le> sint (shortVal e) then F_rawAddLS P G x (short64 e)
      else F_rawSubLS P G x (- short64 e)) (u + sint (shortVal e))"
  using repr_AddLS [OF assms, of "short64 e"] repr_SubLS [OF assms, of "- short64 e"]
  by (cases "sint (shortVal e) < 0") (simp_all add: uint_short64 uint_minus_short64)

lemma repr_sub_short:
  assumes "repr_n P x u"
  shows "repr_n P (if sint (shortVal e) < 0 then F_rawAddLS P G x (- short64 e)
      else F_rawSubLS P G x (short64 e)) (u - sint (shortVal e))"
  using repr_AddLS [OF assms, of "- short64 e"] repr_SubLS [OF assms, of "short64 e"]
  by (cases "sint (shortVal e) < 0") (simp_all add: uint_short64 uint_minus_short64)

lemma repr_short_sub:
  assumes "repr_n P x u"
  shows "repr_n P (if 0 \<le> sint (shortVal e) then F_rawSubSL P G (short64 e) x
      else F_rawNegLS P G False x (- short64 e)) (sint (shortVal e) - u)"
  using repr_SubSL [OF assms, of "short64 e"] repr_NegLS [OF assms, of "- short64 e"]
    minus_short64_nonzero [of e]
  by (cases "sint (shortVal e) < 0") (simp_all add: uint_short64 uint_minus_short64 algebra_simps)

lemma longVal_if: "longVal ((if c then set_long r x s else set_long r y s) r) = (if c then x else y)"
  by simp

lemma etype_if: "etype ((if c then set_long r x s else set_long r y s) r) = etype (s r)"
  by simp

lemma add_l1ns2:
  assumes "repr_n P (longVal (s a)) u"
  shows "elem_repr P (add_l1ns2 P G r a b s r) (u + sint (shortVal (s b)))"
    and "elem_repr P (add_s1l2n P G r b a s r) (sint (shortVal (s b)) + u)"
  using repr_add_short [OF assms, of "s b"]
  by (auto simp: add_l1ns2_def add_s1l2n_def Let_def elem_repr_iff add.commute split: if_splits)

lemma sub_l1ns2:
  assumes "repr_n P (longVal (s a)) u"
  shows "elem_repr P (sub_l1ns2 P G r a b s r) (u - sint (shortVal (s b)))"
    and "r \<noteq> a \<Longrightarrow> elem_repr P (sub_s1l2n P G r b a s r) (sint (shortVal (s b)) - u)"
  using repr_sub_short [OF assms, of "s b"] repr_short_sub [OF assms, of "s b"]
  by (auto simp: sub_l1ns2_def sub_s1l2n_def Let_def elem_repr_iff split: if_splits)

lemmas addsub_defs = add_l1nl2n_def add_l1nl2m_def add_l1ml2m_def add_l1ml2n_def add_l1ms2n_def
  add_s1nl2m_def add_l1ms2m_def add_s1ml2m_def sub_l1nl2n_def sub_l1nl2m_def sub_l1ml2m_def
  sub_l1ml2n_def sub_l1ms2n_def sub_s1nl2m_def sub_l1ms2m_def sub_s1ml2m_def

text \<open>The conversion of an operand after the type of the result has been set.\<close>

lemma toMont_after:
  assumes "r \<noteq> a" and "felem P (s a)"
  shows "repr_m P (longVal (F_toMontgomery P G l a (set_type r t s) l)) (fval P (s a))"
  using F_toMontgomery(1) [of "set_type r t s" a l] assms by simp

theorem F_add:
  assumes a: "felem P (s a)" and b: "felem P (s b)"
    and objs: "r = Obj i" "a = Obj j" "b = Obj k" and distinct: "i \<noteq> j" "i \<noteq> k"
  shows "elem_repr P (F_add P G r a b s r) (fval P (s a) + fval P (s b))"
proof -
  have ne: "r \<noteq> a" "r \<noteq> b" using objs distinct by simp_all
  note c = toMont_after [OF ne(1), of s] toMont_after [OF ne(2), of s]
  show ?thesis
    using a b
    by (cases rule: felem_cases; cases rule: felem_cases [OF b];
      use a b c objs add_s1s2 [of r a b s] add_l1ns2 [of s a _ r b] add_l1ns2 [of s b _ r a]
      in \<open>simp add: F_add_def addsub_defs Let_def elem_repr_iff elem_repr_add_mod repr_m_mod
        repr_add_n repr_add_m\<close>)
qed

theorem F_sub:
  assumes a: "felem P (s a)" and b: "felem P (s b)"
    and objs: "r = Obj i" "a = Obj j" "b = Obj k" and distinct: "i \<noteq> j" "i \<noteq> k"
  shows "elem_repr P (F_sub P G r a b s r) (fval P (s a) - fval P (s b))"
proof -
  have ne: "r \<noteq> a" "r \<noteq> b" using objs distinct by simp_all
  note c = toMont_after [OF ne(1), of s] toMont_after [OF ne(2), of s]
  show ?thesis
    using a b
    by (cases rule: felem_cases; cases rule: felem_cases [OF b];
      use a b c ne objs sub_s1s2 [of r a b s] sub_l1ns2 [of s a _ r b] sub_l1ns2 [of s b _ r a]
      in \<open>simp add: F_sub_def addsub_defs Let_def elem_repr_iff elem_repr_add_mod repr_m_mod
        repr_sub_n repr_sub_m\<close>)
qed

text \<open>Nothing but the result and local variables changes.\<close>

lemma F_add_other: "r = Obj i \<Longrightarrow> p = Obj j \<Longrightarrow> i \<noteq> j \<Longrightarrow> F_add P G r a b s p = s p"
  by (simp add: F_add_def addsub_defs add_l1ns2_def add_s1l2n_def add_s1s2_def F_rawSAdd_def Let_def)

lemma F_sub_other: "r = Obj i \<Longrightarrow> p = Obj j \<Longrightarrow> i \<noteq> j \<Longrightarrow> F_sub P G r a b s p = s p"
  by (simp add: F_sub_def addsub_defs sub_l1ns2_def sub_s1l2n_def sub_s1s2_def F_rawSSub_def Let_def)

lemma F_neg_other: "p \<noteq> r \<Longrightarrow> F_neg P G r a s p = s p"
  by (simp add: F_neg_def F_rawSNeg_def Let_def)

lemma F_square_other: "p \<noteq> r \<Longrightarrow> F_square P G r a s p = s p"
  by (simp add: F_square_def F_rawSMul_def Let_def)

end

end
