(* ===== verification/FieldCompare.thy ===== *)
theory FieldCompare
  imports FieldArith
begin

text \<open>
  Comparisons, equality and the logical operators on tagged elements. The order is the one of
  the signed reading \<open>sval\<close>: values above \<open>(q - 1) / 2\<close> count as negative, which agrees with
  the order of the short values.
\<close>

definition sval :: "field_consts \<Rightarrow> int \<Rightarrow> int" where
  "sval P v = (if v \<le> lval (half P) then v else v - prime_of P)"

definition bool_u32 :: "bool \<Rightarrow> u32" where
  "bool_u32 c = (if c then 1 else 0)"

lemma bool_u32_simps [simp]:
  "bool_u32 True = 1" "bool_u32 False = 0"
  "bool_u32 c XOR 1 = bool_u32 (\<not> c)"
  "bool_u32 c OR bool_u32 d = bool_u32 (c \<or> d)" "bool_u32 c AND bool_u32 d = bool_u32 (c \<and> d)"
  "sint (bool_u32 c) = of_bool c"
  by (simp_all add: bool_u32_def)

context mont_field
begin

lemma half_lower: "2 ^ 252 \<le> lval (half P) + 1"
  using half(2) q_lower by simp

lemma sval_short: "sval P (sint (shortVal e) mod prime_of P) = sint (shortVal e)"
proof (cases "sint (shortVal e) < 0")
  case True
  then have m: "sint (shortVal e) mod prime_of P = sint (shortVal e) + prime_of P"
    using short_bounds [of e] q_lower by (intro mod_add_right_self) simp_all
  show ?thesis
    unfolding m sval_def using half(2) half_lower short_bounds [of e] by simp
next
  case False
  then have "sint (shortVal e) mod prime_of P = sint (shortVal e)"
    using short_bounds [of e] q_lower by (intro mod_pos_pos_trivial) simp_all
  then show ?thesis using half_lower short_bounds [of e] by (simp add: sval_def)
qed

lemma sval_inject: "0 \<le> u \<Longrightarrow> u < prime_of P \<Longrightarrow> 0 \<le> v \<Longrightarrow> v < prime_of P \<Longrightarrow>
    sval P u = sval P v \<longleftrightarrow> u = v"
  by (auto simp: sval_def)

text \<open>Limb arrays that hold reduced numbers.\<close>

lemma repr_n_lval: "repr_n P x v \<Longrightarrow> length x = 4 \<and> lval x = v mod prime_of P"
  by (auto simp: repr_n_def)

lemma rltL1L2:
  assumes "repr_n P x u" and "repr_n P y v"
  shows "rltL1L2 P G x y = bool_u32 (sval P (u mod prime_of P) < sval P (v mod prime_of P))"
proof -
  have x: "length x = 4" "lval x = u mod prime_of P" "0 \<le> lval x" "lval x < prime_of P"
    and y: "length y = 4" "lval y = v mod prime_of P" "0 \<le> lval y" "lval y < prime_of P"
    using assms lval_nonneg [of x] lval_nonneg [of y]
    by (simp_all add: repr_n_def raw_elem_def del: lval_nonneg)
  have c: "mpn_cmp G (half P) x 4 < 0 \<longleftrightarrow> lval (half P) < lval x"
    "mpn_cmp G (half P) y 4 < 0 \<longleftrightarrow> lval (half P) < lval y"
    "0 < mpn_cmp G y x 4 \<longleftrightarrow> lval x < lval y"
    using cmp_less [of "half P" 4] cmp_greater [of y 4 x] half(1) x y by simp_all
  show ?thesis
    unfolding x(2) [symmetric] y(2) [symmetric] using x(3,4) y(3,4)
    by (auto simp: rltL1L2_def rltl1l2_n1_def rltl1l2_p1_def rltRawL1L2_def F_rawCmp_def Let_def c
      sval_def bool_u32_def simp del: lval_nonneg)
qed

lemma rgtL1L2:
  assumes "repr_n P x u" and "repr_n P y v"
  shows "rgtL1L2 P G x y = bool_u32 (sval P (u mod prime_of P) > sval P (v mod prime_of P))"
proof -
  have x: "length x = 4" "lval x = u mod prime_of P" "0 \<le> lval x" "lval x < prime_of P"
    and y: "length y = 4" "lval y = v mod prime_of P" "0 \<le> lval y" "lval y < prime_of P"
    using assms lval_nonneg [of x] lval_nonneg [of y]
    by (simp_all add: repr_n_def raw_elem_def del: lval_nonneg)
  have c: "mpn_cmp G (half P) x 4 < 0 \<longleftrightarrow> lval (half P) < lval x"
    "mpn_cmp G (half P) y 4 < 0 \<longleftrightarrow> lval (half P) < lval y"
    "mpn_cmp G y x 4 < 0 \<longleftrightarrow> lval y < lval x"
    using cmp_less [of "half P" 4] cmp_less [of y 4 x] half(1) x y by simp_all
  show ?thesis
    unfolding x(2) [symmetric] y(2) [symmetric] using x(3,4) y(3,4)
    by (auto simp: rgtL1L2_def rgtl1l2_n1_def rgtl1l2_p1_def rgtRawL1L2_def F_rawCmp_def Let_def c
      sval_def bool_u32_def simp del: lval_nonneg)
qed

lemma fval_mod: "felem P e \<Longrightarrow> fval P e mod prime_of P = fval P e"
  using fval_bounds [of e] by simp

lemma elem_long_n: "felem P e \<Longrightarrow> etype e = F_LONG \<Longrightarrow> repr_n P (longVal e) (fval P e)"
  by (auto simp: felem_def fval_def repr_n_def elem_mod type_defs)

lemma felem_etype: "felem P e \<Longrightarrow> etype e = F_SHORT \<or> etype e = F_LONG \<or> etype e = F_SHORTMONTGOMERY
    \<or> etype e = F_LONGMONTGOMERY"
  by (auto simp: felem_def)

lemma fval_short: "\<not> is_long e \<Longrightarrow> fval P e = sint (shortVal e) mod prime_of P"
  by (simp add: fval_def)

text \<open>The operands that the comparisons build in local variables.\<close>

lemma local_n:
  assumes "felem P e" and "t (Obj j) = e"
  shows "repr_n P (longVal (F_toLongNormal P G (Local l) (Obj j) t (Local l))) (fval P e)"
    and "is_long e \<Longrightarrow> repr_n P (longVal (F_toNormal P G (Local l) (Obj j) t (Local l))) (fval P e)"
  using F_toLongNormal(2) [of t "Obj j"] F_toNormal(2) [of t "Obj j"] assms by simp_all

lemmas rlt_defs = rlt_l1nl2n_def rlt_l1nl2m_def rlt_l1ml2m_def rlt_l1ml2n_def rlt_s1l2n_def
  rlt_l1ms2_def rlt_s1l2m_def rlt_l1ns2_def rlt_s1s2_def
lemmas rgt_defs = rgt_l1nl2n_def rgt_l1nl2m_def rgt_l1ml2m_def rgt_l1ml2n_def rgt_s1l2n_def
  rgt_l1ms2_def rgt_s1l2m_def rgt_l1ns2_def rgt_s1s2_def

theorem F_rlt:
  assumes a: "felem P (s (Obj i))" and b: "felem P (s (Obj j))"
  shows "F_rlt P G (Obj i) (Obj j) s = bool_u32 (sval P (fval P (s (Obj i))) < sval P (fval P (s (Obj j))))"
proof (cases "is_long (s (Obj i)) \<or> is_long (s (Obj j))")
  case True
  note L = rltL1L2 [where u = "fval P (s (Obj i))" and v = "fval P (s (Obj j))"]
  show ?thesis
    using felem_etype [OF a] felem_etype [OF b]
    by (elim disjE; use True in \<open>simp add: fval_mod F_rlt_def rlt_defs Let_def a b L local_n elem_long_n\<close>)
next
  case False
  then show ?thesis
    by (simp add: F_rlt_def rlt_s1s2_def fval_short sval_short bool_u32_def)
qed

theorem F_rgt:
  assumes a: "felem P (s (Obj i))" and b: "felem P (s (Obj j))"
  shows "F_rgt P G (Obj i) (Obj j) s = bool_u32 (sval P (fval P (s (Obj i))) > sval P (fval P (s (Obj j))))"
proof (cases "is_long (s (Obj i)) \<or> is_long (s (Obj j))")
  case True
  note L = rgtL1L2 [where u = "fval P (s (Obj i))" and v = "fval P (s (Obj j))"]
  show ?thesis
    using felem_etype [OF a] felem_etype [OF b]
    by (elim disjE; use True in \<open>simp add: fval_mod F_rgt_def rgt_defs Let_def a b L local_n elem_long_n\<close>)
next
  case False
  then show ?thesis
    by (simp add: F_rgt_def rgt_s1s2_def fval_short sval_short bool_u32_def)
qed

lemma F_lt_geq_gt_leq:
  assumes "felem P (s (Obj i))" and "felem P (s (Obj j))"
  shows "elem_repr P (F_lt P G r (Obj i) (Obj j) s r)
      (of_bool (sval P (fval P (s (Obj i))) < sval P (fval P (s (Obj j)))))"
    and "elem_repr P (F_geq P G r (Obj i) (Obj j) s r)
      (of_bool (sval P (fval P (s (Obj i))) \<ge> sval P (fval P (s (Obj j)))))"
    and "elem_repr P (F_gt P G r (Obj i) (Obj j) s r)
      (of_bool (sval P (fval P (s (Obj i))) > sval P (fval P (s (Obj j)))))"
    and "elem_repr P (F_leq P G r (Obj i) (Obj j) s r)
      (of_bool (sval P (fval P (s (Obj i))) \<le> sval P (fval P (s (Obj j)))))"
  using F_rlt [OF assms] F_rgt [OF assms]
  by (simp_all add: F_lt_def F_geq_def F_gt_def F_leq_def Let_def elem_repr_iff not_less)

section \<open>Equality\<close>

lemma reqL1L2: "length x = 4 \<Longrightarrow> length y = 4 \<Longrightarrow> reqL1L2 G x y = bool_u32 (lval x = lval y)"
  using cmp_eq [of y 4 x] by (auto simp: reqL1L2_def F_rawCmp_def bool_u32_def)

lemma reqL1L2_n:
  assumes "repr_n P x (fval P e)" and "repr_n P y (fval P e')" and "felem P e" and "felem P e'"
  shows "reqL1L2 G x y = bool_u32 (fval P e = fval P e')"
  using assms reqL1L2 [OF repr_length(1) [OF assms(1)] repr_length(1) [OF assms(2)]]
  by (simp add: repr_n_def fval_mod)

lemma reqL1L2_m:
  assumes "repr_m P x (fval P e)" and "repr_m P y (fval P e')" and "felem P e" and "felem P e'"
  shows "reqL1L2 G x y = bool_u32 (fval P e = fval P e')"
proof -
  have "lval x = lval y \<longleftrightarrow> fval P e = fval P e'"
  proof
    assume "lval x = lval y"
    then have "(fval P e * 2 ^ 256) mod prime_of P = (fval P e' * 2 ^ 256) mod prime_of P"
      using assms by (simp add: repr_m_def mont_R_def)
    from mont_cancel [OF this] show "fval P e = fval P e'" using assms by (simp add: fval_mod)
  qed (use assms in \<open>simp add: repr_m_def\<close>)
  then show ?thesis using assms by (simp add: reqL1L2 repr_length)
qed

lemma elem_mont: "felem P e \<Longrightarrow> is_mont e \<Longrightarrow> repr_m P (longVal e) (fval P e)"
  by (cases rule: felem_cases) simp_all

lemma local_m:
  assumes "felem P e" and "t (Obj j) = e"
  shows "repr_m P (longVal (F_toMontgomery P G (Local l) (Obj j) t (Local l))) (fval P e)"
  using F_toMontgomery(1) [of t "Obj j"] assms by simp

lemma short_eq:
  "sint (shortVal e) mod prime_of P = sint (shortVal e') mod prime_of P \<longleftrightarrow> shortVal e = shortVal e'"
  by (metis sval_short signed_word_eqI)

lemmas req_defs = req_l1nl2n_def req_l1nl2m_def req_l1ml2m_def req_l1ml2n_def req_s1l2n_def
  req_l1ms2_def req_s1l2m_def req_l1ns2_def

theorem F_req:
  assumes a: "felem P (s (Obj i))" and b: "felem P (s (Obj j))"
  shows "F_req P G (Obj i) (Obj j) s = bool_u32 (fval P (s (Obj i)) = fval P (s (Obj j)))"
proof (cases "is_long (s (Obj i)) \<or> is_long (s (Obj j))")
  case True
  note L = reqL1L2_n [where e = "s (Obj i)" and e' = "s (Obj j)"]
    reqL1L2_m [where e = "s (Obj i)" and e' = "s (Obj j)"]
  show ?thesis
    using felem_etype [OF a] felem_etype [OF b]
    by (elim disjE; use True in \<open>simp add: F_req_def req_defs Let_def a b L local_n local_m
      elem_long_n elem_mont\<close>)
next
  case False
  then show ?thesis
    by (simp add: F_req_def req_s1s2_def fval_short short_eq bool_u32_def)
qed

lemma F_eq_neq:
  assumes "felem P (s (Obj i))" and "felem P (s (Obj j))"
  shows "elem_repr P (F_eq P G r (Obj i) (Obj j) s r) (of_bool (fval P (s (Obj i)) = fval P (s (Obj j))))"
    and "elem_repr P (F_neq P G r (Obj i) (Obj j) s r) (of_bool (fval P (s (Obj i)) \<noteq> fval P (s (Obj j))))"
  using F_req [OF assms] by (simp_all add: F_eq_def F_neq_def Let_def elem_repr_iff)

section \<open>Truth values\<close>

lemma long_zero:
  assumes "felem P e" and "is_long e"
  shows "F_rawIsZero G (longVal e) = bool_u32 (fval P e = 0)"
proof -
  have l: "length (longVal e) = 4" and z: "lval (longVal e) = 0 \<longleftrightarrow> fval P e = 0"
  proof -
    show "length (longVal e) = 4"
      using assms(1) by (cases rule: felem_cases) (use assms(2) in \<open>auto simp: repr_length\<close>)
    show "lval (longVal e) = 0 \<longleftrightarrow> fval P e = 0"
    proof (cases "is_mont e")
      case False
      then show ?thesis using assms(2) by (simp add: fval_def)
    next
      case True
      have m: "repr_m P (longVal e) (fval P e)" by (rule elem_mont [OF assms(1) True])
      show ?thesis
      proof
        assume "lval (longVal e) = 0"
        then show "fval P e = 0" using assms(2) True by (simp add: fval_def)
      qed (use m in \<open>simp add: repr_m_def\<close>)
    qed
  qed
  show ?thesis using rawIsZero [OF l] z by (simp add: bool_u32_def)
qed

lemma short_zero: "sint (shortVal e) mod prime_of P = 0 \<longleftrightarrow> shortVal e = 0"
  using short_eq [of e "\<lparr>shortVal = 0, etype = 0, longVal = []\<rparr>"] by simp

theorem F_isTrue: "felem P (s p) \<Longrightarrow> F_isTrue G p s \<longleftrightarrow> fval P (s p) \<noteq> 0"
  by (cases "is_long (s p)") (auto simp: F_isTrue_def long_zero fval_short short_zero bool_u32_def)

lemma is_true_of: "felem P e \<Longrightarrow> is_true_of G e = bool_u32 (fval P e \<noteq> 0)"
  by (cases "is_long e") (auto simp: is_true_of_def long_zero fval_short short_zero bool_u32_def)

lemma F_logical:
  assumes "felem P (s a)" and "felem P (s b)"
  shows "elem_repr P (F_land G r a b s r) (of_bool (fval P (s a) \<noteq> 0 \<and> fval P (s b) \<noteq> 0))"
    and "elem_repr P (F_lor G r a b s r) (of_bool (fval P (s a) \<noteq> 0 \<or> fval P (s b) \<noteq> 0))"
    and "elem_repr P (F_lnot G r a s r) (of_bool (fval P (s a) = 0))"
proof -
  show "elem_repr P (F_land G r a b s r) (of_bool (fval P (s a) \<noteq> 0 \<and> fval P (s b) \<noteq> 0))"
    and "elem_repr P (F_lor G r a b s r) (of_bool (fval P (s a) \<noteq> 0 \<or> fval P (s b) \<noteq> 0))"
    using assms by (simp_all add: F_land_def F_lor_def Let_def elem_repr_iff is_true_of)
  show "elem_repr P (F_lnot G r a s r) (of_bool (fval P (s a) = 0))"
    using assms(1)
    by (cases "is_long (s a)")
      (auto simp: F_lnot_def Let_def elem_repr_iff long_zero fval_short short_zero)
qed

end

end
