(* ===== verification/FieldBits.thy ===== *)
theory FieldBits
  imports FieldCompare
begin

text \<open>
  Bitwise operators, shifts and the conversion to an integer on tagged elements. A bitwise
  operator works on the 254-bit values of its operands and reduces the result once; a shift
  amount above \<open>(q - 1) / 2\<close> is negative and shifts the other way, amounts of 254 and more
  give 0.
\<close>

text \<open>The left shift of a value: 254 bits are kept. When the array of the operand is also the result,
  the copy of a shift by 64 to 127 bits overlaps its source and spreads the lowest limb over the
  operand; \<open>over\<close> says that the arrays are the same.\<close>

definition shl_val :: "int \<Rightarrow> nat \<Rightarrow> int" where
  "shl_val v n = (v * 2 ^ n) mod 2 ^ 254"

definition shl_operand :: "bool \<Rightarrow> int \<Rightarrow> nat \<Rightarrow> int" where
  "shl_operand over v n =
     (if over \<and> 64 \<le> n \<and> n < 128 then (v mod 2 ^ 64) * (1 + 2 ^ 64 + 2 ^ 128 + 2 ^ 192) else v)"

text \<open>The shifts by a field element, as functions of the two values.\<close>

definition shl_spec :: "bool \<Rightarrow> int \<Rightarrow> int \<Rightarrow> int \<Rightarrow> int" where
  "shl_spec over q v b =
     (if b < 254 then shl_val (shl_operand over v (nat b)) (nat b)
      else if q - b < 254 then v div 2 ^ nat (q - b)
      else 0)"

definition shr_spec :: "bool \<Rightarrow> int \<Rightarrow> int \<Rightarrow> int \<Rightarrow> int" where
  "shr_spec over q v b =
     (if b < 254 then v div 2 ^ nat b
      else if q - b < 254 then shl_val (shl_operand over v (nat (q - b))) (nat (q - b))
      else 0)"

text \<open>A shift in place works on the limbs of the operand themselves when it is long and in normal form.\<close>

definition shifted_in_place :: "nat \<Rightarrow> nat \<Rightarrow> store \<Rightarrow> bool" where
  "shifted_in_place k i s \<longleftrightarrow> k = i \<and> etype (s (Obj i)) = F_LONG"

text \<open>A bitwise operator whose result is one of its operands marks it as long and normal before it
  converts the operands: it is right when it reads that operand without a conversion.\<close>

definition read_as_is :: "element \<Rightarrow> element \<Rightarrow> bool" where
  "read_as_is e other \<longleftrightarrow> etype e = F_LONG
     \<or> (\<not> is_long e \<and> 0 \<le> sint (shortVal e) \<and> (is_long other \<or> 0 \<le> sint (shortVal other)))"

lemma int_bitops_upper:
  fixes x y :: int
  assumes "0 \<le> x" "x < 2 ^ n" "0 \<le> y" "y < 2 ^ n"
  shows "x AND y < 2 ^ n" "x OR y < 2 ^ n" "x XOR y < 2 ^ n"
  using AND_upper2' [of y "2 ^ n" x] OR_upper [of x n y] XOR_upper [of x n y] assms by simp_all

lemma sint_eq_0: "sint (w :: 'a::len word) = 0 \<longleftrightarrow> w = 0"
  by (metis signed_0 signed_word_eqI)

context mont_field
begin

lemma low_254:
  assumes "0 \<le> x" "x < prime_of P" "0 \<le> y" "y < prime_of P"
  shows "(x AND y) mod 2 ^ 254 = x AND y" "(x OR y) mod 2 ^ 254 = x OR y" "(x XOR y) mod 2 ^ 254 = x XOR y"
proof -
  have "x < 2 ^ 254" "y < 2 ^ 254" using assms q_upper by linarith+
  note u = int_bitops_upper [OF assms(1) this(1) assms(3) this(2)]
  have n: "0 \<le> x AND y" "0 \<le> x OR y" "0 \<le> x XOR y" using assms by simp_all
  show "(x AND y) mod 2 ^ 254 = x AND y" by (rule mod_pos_pos_trivial [OF n(1) u(1)])
  show "(x OR y) mod 2 ^ 254 = x OR y" by (rule mod_pos_pos_trivial [OF n(2) u(2)])
  show "(x XOR y) mod 2 ^ 254 = x XOR y" by (rule mod_pos_pos_trivial [OF n(3) u(3)])
qed

lemma repr_n_felem:
  assumes "repr_n P x (fval P e)" and "felem P e"
  shows "length x = 4" "lval x = fval P e" "0 \<le> fval P e" "fval P e < prime_of P"
  using assms fval_bounds [OF assms(2)] by (auto simp: repr_n_def fval_mod)

lemma long_types: "F_LONG \<noteq> F_SHORTMONTGOMERY" "F_LONG \<noteq> F_SHORT" "F_LONG \<noteq> F_LONGMONTGOMERY"
  by (simp_all add: type_defs)

lemma short_operand_other: "p \<noteq> l \<Longrightarrow> short_operand P G l a s p = s p"
  by (simp add: short_operand_def)

lemma short_operand:
  assumes "felem P e" and "t (Obj j) = e" and "\<not> is_long e"
  shows "repr_n P (longVal (short_operand P G (Local l) (Obj j) t (Local l))) (fval P e)"
proof (cases "0 \<le> sint (shortVal e)")
  case True
  have "lval [short64 e, 0, 0, 0] = sint (shortVal e)" using uint_short64 [OF True] by simp
  moreover have "sint (shortVal e) < prime_of P" using short_bounds [of e] q_lower by simp
  ultimately show ?thesis
    using True assms by (simp add: short_operand_def repr_n_def raw_elem_def fval_short)
next
  case False
  then show ?thesis using assms local_n(1) [of e t j l] by (simp add: short_operand_def)
qed

lemma short_operand_alias:
  assumes "felem P e" and "shortVal (t (Obj j)) = shortVal e" and "\<not> is_long e" and "0 \<le> sint (shortVal e)"
  shows "repr_n P (longVal (short_operand P G (Local l) (Obj j) t (Local l))) (fval P e)"
proof -
  have "short64 (t (Obj j)) = short64 e" using assms(2) by (simp add: short64_def)
  moreover have "lval [short64 e, 0, 0, 0] = sint (shortVal e)" using uint_short64 [OF assms(4)] by simp
  moreover have "sint (shortVal e) < prime_of P" using short_bounds [of e] q_lower by simp
  ultimately show ?thesis using assms by (simp add: short_operand_def repr_n_def raw_elem_def fval_short)
qed

lemma fval_short_nonneg: "\<not> is_long e \<Longrightarrow> 0 \<le> sint (shortVal e) \<Longrightarrow> fval P e = sint (shortVal e)"
  using short_bounds [of e] q_lower by (simp add: fval_short)

section \<open>And, or, exclusive or, not\<close>

lemma repr_and:
  assumes "repr_n P x (fval P e)" "repr_n P y (fval P e')" "felem P e" "felem P e'"
  shows "repr_n P (F_rawAnd P G x y) (fval P e AND fval P e')"
  using rawAnd [of x y] low_254 [of "fval P e" "fval P e'"] repr_n_felem [OF assms(1,3)]
    repr_n_felem [OF assms(2,4)]
  by (simp add: repr_n_def)

lemma repr_and_same: "repr_n P x (fval P e) \<Longrightarrow> felem P e \<Longrightarrow> repr_n P (F_rawAnd P G x x) (fval P e)"
  using repr_and [of x e x e] by simp

lemmas and_defs = and_l1nl2n_def and_l1nl2m_def and_l1ml2m_def and_l1ml2n_def and_s1l2n_def
  and_l1ms2_def and_s1l2m_def and_l1ns2_def

theorem F_band:
  assumes a: "felem P (s (Obj i))" and b: "felem P (s (Obj j))" and ne: "k = i \<Longrightarrow> read_as_is (s (Obj i)) (s (Obj j))" "k = j \<Longrightarrow> read_as_is (s (Obj j)) (s (Obj i))"
  shows "elem_repr P (F_band P G (Obj k) (Obj i) (Obj j) s (Obj k)) (fval P (s (Obj i)) AND fval P (s (Obj j)))"
proof (cases "is_long (s (Obj i)) \<or> is_long (s (Obj j))")
  case True
  note L = repr_and [where e = "s (Obj i)" and e' = "s (Obj j)"]
    repr_and [where e = "s (Obj j)" and e' = "s (Obj i)", unfolded and.commute [of "fval P (s (Obj j))"]]
  show ?thesis
    using felem_etype [OF a] felem_etype [OF b]
    by (elim disjE; cases "k = i"; cases "k = j"; use True ne in \<open>auto simp: F_band_def and_defs Let_def a b L repr_and_same local_n short_operand
      short_operand_alias short_operand_other elem_long_n elem_repr_iff read_as_is_def long_types\<close>)
next
  case False
  then show ?thesis
    using fval_short_nonneg [of "s (Obj i)"] fval_short_nonneg [of "s (Obj j)"] ne
    by (cases "k = i"; cases "k = j"; auto simp: read_as_is_def F_band_def and_s1s2_def Let_def elem_repr_iff signed_and_eq a b local_n repr_and)
qed

lemma F_band_other: "k \<noteq> i \<Longrightarrow> F_band P G (Obj k) a b s (Obj i) = s (Obj i)"
  by (simp add: F_band_def and_defs and_s1s2_def Let_def short_operand_other)

lemma repr_or:
  assumes "repr_n P x (fval P e)" "repr_n P y (fval P e')" "felem P e" "felem P e'"
  shows "repr_n P (F_rawOr P G x y) (fval P e OR fval P e')"
  using rawOr [of x y] low_254 [of "fval P e" "fval P e'"] repr_n_felem [OF assms(1,3)]
    repr_n_felem [OF assms(2,4)]
  by (simp add: repr_n_def)

lemma repr_or_same: "repr_n P x (fval P e) \<Longrightarrow> felem P e \<Longrightarrow> repr_n P (F_rawOr P G x x) (fval P e)"
  using repr_or [of x e x e] by simp

lemmas or_defs = or_l1nl2n_def or_l1nl2m_def or_l1ml2m_def or_l1ml2n_def or_s1l2n_def
  or_l1ms2_def or_s1l2m_def or_l1ns2_def

theorem F_bor:
  assumes a: "felem P (s (Obj i))" and b: "felem P (s (Obj j))" and ne: "k = i \<Longrightarrow> read_as_is (s (Obj i)) (s (Obj j))" "k = j \<Longrightarrow> read_as_is (s (Obj j)) (s (Obj i))"
  shows "elem_repr P (F_bor P G (Obj k) (Obj i) (Obj j) s (Obj k)) (fval P (s (Obj i)) OR fval P (s (Obj j)))"
proof (cases "is_long (s (Obj i)) \<or> is_long (s (Obj j))")
  case True
  note L = repr_or [where e = "s (Obj i)" and e' = "s (Obj j)"]
    repr_or [where e = "s (Obj j)" and e' = "s (Obj i)", unfolded or.commute [of "fval P (s (Obj j))"]]
  show ?thesis
    using felem_etype [OF a] felem_etype [OF b]
    by (elim disjE; cases "k = i"; cases "k = j"; use True ne in \<open>auto simp: F_bor_def or_defs Let_def a b L repr_or_same local_n short_operand
      short_operand_alias short_operand_other elem_long_n elem_repr_iff read_as_is_def long_types\<close>)
next
  case False
  then show ?thesis
    using fval_short_nonneg [of "s (Obj i)"] fval_short_nonneg [of "s (Obj j)"] ne
    by (cases "k = i"; cases "k = j"; auto simp: read_as_is_def F_bor_def or_s1s2_def Let_def elem_repr_iff signed_or_eq a b local_n repr_or)
qed

lemma F_bor_other: "k \<noteq> i \<Longrightarrow> F_bor P G (Obj k) a b s (Obj i) = s (Obj i)"
  by (simp add: F_bor_def or_defs or_s1s2_def Let_def short_operand_other)

lemma repr_xor:
  assumes "repr_n P x (fval P e)" "repr_n P y (fval P e')" "felem P e" "felem P e'"
  shows "repr_n P (F_rawXor P G x y) (fval P e XOR fval P e')"
  using rawXor [of x y] low_254 [of "fval P e" "fval P e'"] repr_n_felem [OF assms(1,3)]
    repr_n_felem [OF assms(2,4)]
  by (simp add: repr_n_def)

lemma repr_xor_same: "repr_n P x (fval P e) \<Longrightarrow> felem P e \<Longrightarrow> repr_n P (F_rawXor P G x x) 0"
  using repr_xor [of x e x e] by simp

lemmas xor_defs = xor_l1nl2n_def xor_l1nl2m_def xor_l1ml2m_def xor_l1ml2n_def xor_s1l2n_def
  xor_l1ms2_def xor_s1l2m_def xor_l1ns2_def

theorem F_bxor:
  assumes a: "felem P (s (Obj i))" and b: "felem P (s (Obj j))" and ne: "k = i \<Longrightarrow> read_as_is (s (Obj i)) (s (Obj j))" "k = j \<Longrightarrow> read_as_is (s (Obj j)) (s (Obj i))"
  shows "elem_repr P (F_bxor P G (Obj k) (Obj i) (Obj j) s (Obj k)) (fval P (s (Obj i)) XOR fval P (s (Obj j)))"
proof (cases "is_long (s (Obj i)) \<or> is_long (s (Obj j))")
  case True
  note L = repr_xor [where e = "s (Obj i)" and e' = "s (Obj j)"]
    repr_xor [where e = "s (Obj j)" and e' = "s (Obj i)", unfolded xor.commute [of "fval P (s (Obj j))"]]
  show ?thesis
    using felem_etype [OF a] felem_etype [OF b]
    by (elim disjE; cases "k = i"; cases "k = j"; use True ne in \<open>auto simp: F_bxor_def xor_defs Let_def a b L repr_xor_same [OF _ a] local_n short_operand
      short_operand_alias short_operand_other elem_long_n elem_repr_iff read_as_is_def long_types\<close>)
next
  case False
  then show ?thesis
    using fval_short_nonneg [of "s (Obj i)"] fval_short_nonneg [of "s (Obj j)"] ne
    by (cases "k = i"; cases "k = j"; auto simp: read_as_is_def F_bxor_def xor_s1s2_def Let_def elem_repr_iff signed_xor_eq a b local_n repr_xor)
qed

lemma F_bxor_other: "k \<noteq> i \<Longrightarrow> F_bxor P G (Obj k) a b s (Obj i) = s (Obj i)"
  by (simp add: F_bxor_def xor_defs xor_s1s2_def Let_def short_operand_other)

theorem F_bnot:
  assumes a: "felem P (s (Obj i))" and ne: "k = i \<Longrightarrow> etype (s (Obj i)) = F_LONG"
  shows "elem_repr P (F_bnot P G (Obj k) (Obj i) s (Obj k)) (2 ^ 254 - 1 - fval P (s (Obj i)))"
proof -
  define v where "v = 2 ^ 254 - 1 - fval P (s (Obj i))"
  have n: "repr_n P (F_rawNot P G x) v" if "repr_n P x (fval P (s (Obj i)))" for x
  proof -
    note x = repr_n_felem [OF that a]
    have "(- 1 - fval P (s (Obj i))) mod 2 ^ 254 = v"
      unfolding v_def by (rule int_modI [where k = "- 1"]) (use x q_upper in simp_all)
    then show ?thesis using rawNot [OF x(1)] unfolding x(2) repr_n_def by (simp only: simp_thms)
  qed
  show ?thesis
    unfolding v_def [symmetric] using felem_etype [OF a]
    by (elim disjE; cases "k = i"; use ne in \<open>auto simp: F_bnot_def Let_def a n local_n elem_long_n elem_repr_iff long_types\<close>)
qed

section \<open>Shifts\<close>

lemma rawShl_value:
  assumes "repr_n P x (fval P e)" and "felem P e" and "uint b < 254"
  shows "repr_n P (rawShl P G False x b) (shl_val (fval P e) (unat b))"
proof (cases "b = 0")
  case True
  note x = repr_n_felem [OF assms(1,2)]
  have "fval P e mod 2 ^ 254 = fval P e"
    using x q_upper by (intro mod_pos_pos_trivial) linarith+
  moreover have "F_rawCopy x = x" using x(1) by (elim length4E) (simp add: F_rawCopy_def numeral_eq_Suc)
  ultimately show ?thesis using True assms(1) by (simp add: rawShl_def shl_val_def)
next
  case False
  note x = repr_n_felem [OF assms(1,2)]
  have b: "uint b < 256" "\<not> 254 \<le> b" using assms(3) by (simp_all add: word_le_def)
  show ?thesis
    using rawShl [OF x(1) b(1)] False b(2) unfolding x(2) shl_val_def by (simp add: rawShl_def repr_n_def)
qed

lemma rawShl_overlap:
  assumes "repr_n P x (fval P e)" and "felem P e" and "uint b < 254"
  shows "repr_n P (rawShl P G True x b) (shl_val (shl_operand True (fval P e) (unat b)) (unat b))"
proof (cases "b = 0")
  case True
  then show ?thesis using rawShl_value [OF assms] by (simp add: rawShl_def shl_operand_def)
next
  case False
  note x = repr_n_felem [OF assms(1,2)]
  have b: "uint b < 256" "\<not> 254 \<le> b" using assms(3) by (simp_all add: word_le_def)
  note o = F_rawShl_overlap [OF x(1) b(1)]
  have w: "unat (b div 64) = 1 \<longleftrightarrow> 64 \<le> unat b \<and> unat b < 128"
    by (auto simp: unat_div)
  show ?thesis
  proof (cases "unat (b div 64) = 1")
    case True
    then have p: "F_rawShl P G True x b = F_rawShl P G False (replicate 4 (x ! 0)) b" using o by simp
    have s: "shl_operand True (fval P e) (unat b) = lval (replicate 4 (x ! 0))"
      using True w x(1,2) by (simp add: shl_operand_def lval_replicate_low)
    show ?thesis
      unfolding s shl_val_def using rawShl [of "replicate 4 (x ! 0)" b, OF _ b(1)] False b(2)
      by (simp add: rawShl_def repr_n_def p)
  next
    case w': False
    then have "shl_operand True (fval P e) (unat b) = fval P e" using w by (auto simp: shl_operand_def)
    moreover have "rawShl P G True x b = rawShl P G False x b" using o w' by (simp add: rawShl_def)
    ultimately show ?thesis using rawShl_value [OF assms] by simp
  qed
qed

lemma rawShr_value:
  assumes "repr_n P x (fval P e)" and "felem P e" and "uint b < 254"
  shows "repr_n P (rawShr G x b) (fval P e div 2 ^ unat b)"
proof (cases "b = 0")
  case True
  note x = repr_n_felem [OF assms(1,2)]
  have "F_rawCopy x = x" using x(1) by (elim length4E) (simp add: F_rawCopy_def numeral_eq_Suc)
  then show ?thesis using True assms(1) by (simp add: rawShr_def)
next
  case False
  note x = repr_n_felem [OF assms(1,2)]
  have b: "uint b < 256" "\<not> 254 \<le> b" using assms(3) by (simp_all add: word_le_def)
  have "fval P e div 2 ^ unat b \<le> fval P e"
    using zdiv_mono2 [of "fval P e" 1 "2 ^ unat b"] x(3) by simp
  moreover have "0 \<le> fval P e div 2 ^ unat b"
    using x(3) by (simp add: pos_imp_zdiv_nonneg_iff)
  ultimately show ?thesis
    using rawShr [OF x(1) b(1)] False b(2) x(4) unfolding x(2)
    by (simp add: rawShr_def repr_n_def raw_elem_def)
qed

lemma F_setzero: "elem_repr P (F_setzero r s r) 0"
  by (intro elem_repr_short) (simp_all add: F_setzero_def Let_def F_SHORT_def)

lemma do_shlcl:
  assumes "felem P (s (Obj i))" and "uint b < 254"
  shows "elem_repr P (do_shlcl P G (Obj k) (Obj i) b s (Obj k)) (shl_val (fval P (s (Obj i))) (unat b))"
  using rawShl_value [OF local_n(1) [of "s (Obj i)" s i], of b] assms
  by (simp add: do_shlcl_def Let_def elem_repr_iff)

lemma shl_operand_apart: "shl_operand False v n = v"
  by (simp add: shl_operand_def)

text \<open>A short value shifted left without leaving 31 bits.\<close>

lemma short_shl:
  assumes "0 \<le> sint (shortVal e)" and "b < 31"
  shows "sint (push_bit (unat b) (short64 e)) = sint (shortVal e) * 2 ^ unat (b :: u64)"
    and "signed_drop_bit 31 (push_bit (unat b) (short64 e)) = 0 \<longleftrightarrow> sint (shortVal e) * 2 ^ unat b < 2 ^ 31"
proof -
  have b: "unat b \<le> 30" using assms(2) by (simp add: word_less_nat_alt)
  then have "(2::int) ^ unat b \<le> 2 ^ 30" by (rule power_increasing) simp
  then have "sint (shortVal e) * 2 ^ unat b \<le> 2 ^ 31 * 2 ^ 30"
    using assms(1) short_bounds [of e] by (intro mult_mono) simp_all
  then have f: "- (2 ^ 63) \<le> sint (shortVal e) * 2 ^ unat b" "sint (shortVal e) * 2 ^ unat b < 2 ^ 63"
    using assms(1) by (simp_all add: order.trans [OF _ mult_nonneg_nonneg])
  have "push_bit (unat b) (short64 e) = word_of_int (sint (shortVal e) * 2 ^ unat b)"
    unfolding push_bit_eq_mult short64_def scast_eq by (simp only: of_int_mult of_int_power of_int_numeral)
  then show s: "sint (push_bit (unat b) (short64 e)) = sint (shortVal e) * 2 ^ unat b"
    using sint_word_of_int_64 [OF f] by simp
  have "sint (signed_drop_bit 31 (push_bit (unat b) (short64 e))) = sint (shortVal e) * 2 ^ unat b div 2 ^ 31"
    by (simp only: sint_signed_drop_bit_eq drop_bit_eq_div s)
  then have "signed_drop_bit 31 (push_bit (unat b) (short64 e)) = 0
      \<longleftrightarrow> sint (shortVal e) * 2 ^ unat b div 2 ^ 31 = 0"
    by (simp only: sint_eq_0 [symmetric])
  also have "\<dots> \<longleftrightarrow> sint (shortVal e) * 2 ^ unat b < 2 ^ 31"
    using assms(1) by (auto simp: zdiv_eq_0_iff)
  finally show "signed_drop_bit 31 (push_bit (unat b) (short64 e)) = 0
      \<longleftrightarrow> sint (shortVal e) * 2 ^ unat b < 2 ^ 31" .
qed

lemma short64_eq_0: "short64 e = 0 \<longleftrightarrow> sint (shortVal e) = 0"
  by (metis sint_short64 signed_0 signed_word_eqI)

lemma do_shl_short:
  assumes a: "felem P (s (Obj i))" "\<not> is_long (s (Obj i))" and b: "uint b < 254"
  shows "elem_repr P (do_shl P G (Obj k) (Obj i) b s (Obj k)) (shl_val (fval P (s (Obj i))) (unat b))"
proof -
  let ?v = "sint (shortVal (s (Obj i)))"
  note cl = do_shlcl [of s i b k, OF a(1) b]
  consider "?v = 0" | "?v < 0" | "0 < ?v" "31 \<le> b" | "0 < ?v" "b < 31"
    by (meson linorder_less_linear not_le)
  then show ?thesis
  proof cases
    case 1
    then show ?thesis
      using a F_setzero [of "Obj k" s]
      by (simp add: do_shl_def Let_def short64_eq_0 fval_short shl_val_def)
  next
    case 4
    note p = short_shl [of "s (Obj i)" b]
    have v: "fval P (s (Obj i)) = ?v" using 4 a by (intro fval_short_nonneg) simp_all
    show ?thesis
    proof (cases "?v * 2 ^ unat b < 2 ^ 31")
      case True
      then have "shl_val ?v (unat b) = ?v * 2 ^ unat b"
        unfolding shl_val_def using 4 by (intro mod_pos_pos_trivial) simp_all
      moreover have "0 \<le> ?v * 2 ^ unat b" using 4 by simp
      then have "- (2 ^ 31) \<le> ?v * 2 ^ unat b" by (rule order.trans [rotated]) simp
      ultimately show ?thesis
        using 4 a p True v sint_ucast_32 [of "push_bit (unat b) (short64 (s (Obj i)))"]
        by (simp add: do_shl_def Let_def short64_eq_0 sint_short64 elem_repr_iff not_le)
    next
      case False
      then show ?thesis
        using 4 a p cl by (simp add: do_shl_def Let_def short64_eq_0 sint_short64 not_le)
    qed
  qed (use a cl in \<open>simp_all add: do_shl_def Let_def short64_eq_0 sint_short64\<close>)
qed

lemma do_shl:
  assumes a: "felem P (s (Obj i))" and b: "uint b < 254"
  shows "elem_repr P (do_shl P G (Obj k) (Obj i) b s (Obj k)) (shl_val (shl_operand (shifted_in_place k i s) (fval P (s (Obj i))) (unat b)) (unat b))"
proof (cases "is_long (s (Obj i))")
  case True
  note v = rawShl_value [OF _ a b] rawShl_overlap [OF _ a b]
  show ?thesis
    using felem_etype [OF a]
    by (elim disjE; cases "k = i"; use True in \<open>auto simp: do_shl_def do_shlln_def Let_def a v local_n elem_long_n
      elem_repr_iff shifted_in_place_def shl_operand_apart\<close>)
next
  case False
  then have "\<not> shifted_in_place k i s" by (auto simp: shifted_in_place_def)
  then show ?thesis using do_shl_short [of s i, OF a False b] by (simp add: shl_operand_apart)
qed

lemma do_shr_short:
  assumes a: "felem P (s (Obj i))" "\<not> is_long (s (Obj i))" and b: "uint b < 254"
  shows "elem_repr P (do_shr P G (Obj k) (Obj i) b s (Obj k)) (fval P (s (Obj i)) div 2 ^ unat b)"
proof -
  let ?v = "sint (shortVal (s (Obj i)))"
  consider "?v = 0" | "?v < 0" | "0 < ?v" "31 \<le> b" | "0 < ?v" "b < 31"
    by (meson linorder_less_linear not_le)
  then show ?thesis
  proof cases
    case 1
    then show ?thesis
      using a F_setzero [of "Obj k" s] by (simp add: do_shr_def Let_def short64_eq_0 fval_short)
  next
    case 2
    let ?t = "F_toLongNormal P G (Local L_do_shr_a_long) (Obj i) s"
    have "etype (?t (Local L_do_shr_a_long)) = F_LONG"
      using F_toLongNormal(3) [of s "Obj i"] a(1) by simp
    moreover have "repr_n P (rawShr G (longVal (?t (Local L_do_shr_a_long))) b)
        (fval P (s (Obj i)) div 2 ^ unat b)"
      by (rule rawShr_value [OF local_n(1) [of "s (Obj i)" s i, OF a(1) refl] a(1) b])
    ultimately show ?thesis
      using 2 a by (simp add: do_shr_def do_shrl_def do_shrln_def Let_def short64_eq_0 sint_short64
        elem_repr_iff)
  next
    case 3
    have "(2::int) ^ 31 \<le> 2 ^ unat b"
      using 3 by (intro power_increasing) (simp_all add: word_le_nat_alt)
    then have "?v div 2 ^ unat b = 0"
      using 3 short_bounds [of "s (Obj i)"] by (intro div_pos_pos_trivial) linarith+
    then show ?thesis
      using 3 a F_setzero [of "Obj k" s] fval_short_nonneg [of "s (Obj i)"]
      by (simp add: do_shr_def Let_def short64_eq_0 sint_short64)
  next
    case 4
    let ?w = "signed_drop_bit (unat b) (short64 (s (Obj i)))"
    have w: "sint ?w = ?v div 2 ^ unat b"
      by (simp only: sint_signed_drop_bit_eq drop_bit_eq_div sint_short64)
    have "?v div 2 ^ unat b \<le> ?v" using zdiv_mono2 [of ?v 1 "2 ^ unat b"] 4 by simp
    moreover have "0 \<le> ?v div 2 ^ unat b" using 4 by (simp add: pos_imp_zdiv_nonneg_iff)
    ultimately have "sint (ucast ?w :: u32) = ?v div 2 ^ unat b"
      using sint_ucast_32 [of ?w] short_bounds [of "s (Obj i)"] by (simp add: w)
    then show ?thesis
      using 4 a fval_short_nonneg [of "s (Obj i)"]
      by (simp add: do_shr_def Let_def short64_eq_0 sint_short64 elem_repr_iff not_le)
  qed
qed

lemma do_shr:
  assumes a: "felem P (s (Obj i))" and b: "uint b < 254"
  shows "elem_repr P (do_shr P G (Obj k) (Obj i) b s (Obj k)) (fval P (s (Obj i)) div 2 ^ unat b)"
proof (cases "is_long (s (Obj i))")
  case True
  note v = rawShr_value [OF _ a b]
  show ?thesis
    using felem_etype [OF a]
    by (elim disjE; cases "k = i"; use True in \<open>auto simp: do_shr_def do_shrl_def do_shrln_def Let_def a v local_n
      elem_long_n elem_repr_iff\<close>)
next
  case False
  then show ?thesis by (rule do_shr_short [of s i, OF a _ b])
qed

subsection \<open>Signed shift amounts\<close>

lemma low_limb:
  assumes "length x = 4" and "lval x < 2 ^ 64"
  shows "uint (x ! 0) = lval x"
proof -
  have "lval x = uint (x ! 0) + 2 ^ 64 * lval (drop 1 x)"
    using assms(1) by (intro lval_drop1) simp
  from carry_value(1) [OF this [symmetric] uint_ge_0 uint_limb_upper] assms(2)
  show ?thesis by simp
qed

lemma max_shift:
  assumes "length x = 4"
  shows "0 \<le> F_rawCmp G x [254, 0, 0, 0] \<longleftrightarrow> 254 \<le> lval x"
    and "lval x < 254 \<Longrightarrow> uint (x ! 0) < 254 \<and> unat (x ! 0) = nat (lval x)"
proof -
  show "0 \<le> F_rawCmp G x [254, 0, 0, 0] \<longleftrightarrow> 254 \<le> lval x"
    using cmp_ge [of x 4 "[254, 0, 0, 0]"] assms by (simp add: F_rawCmp_def)
  show "uint (x ! 0) < 254 \<and> unat (x ! 0) = nat (lval x)" if "lval x < 254"
    using low_limb [OF assms] that by (simp add: unat_eq_nat_uint)
qed

lemma neg_shift:
  assumes "length x = 4" and "lval x < prime_of P"
  shows "length (F_rawSubRegular G (q_long P) x) = 4"
    and "lval (F_rawSubRegular G (q_long P) x) = prime_of P - lval x"
proof -
  have "(prime_of P - lval x) mod 2 ^ (64 * 4) = prime_of P - lval x"
    using assms(2) q_upper lval_nonneg [of x]
    by (intro mod_pos_pos_trivial) (simp_all del: lval_nonneg)
  then show "length (F_rawSubRegular G (q_long P) x) = 4"
    and "lval (F_rawSubRegular G (q_long P) x) = prime_of P - lval x"
    using sub_n_fst [of "q_long P" 4 x] assms(1) length_q
    by (simp_all add: F_rawSubRegular_def prime_of_def)
qed

lemma F_shl_long:
  assumes a: "felem P (t (Obj i))" and b: "repr_n P (longVal (t bp)) (fval P e)" "felem P e"
  shows "elem_repr P (F_shl_long P G (Obj k) (Obj i) bp t (Obj k))
      (shl_spec (shifted_in_place k i t) (prime_of P) (fval P (t (Obj i))) (fval P e))"
    and "elem_repr P (F_shr_long P G (Obj k) (Obj i) bp t (Obj k))
      (shr_spec (shifted_in_place k i t) (prime_of P) (fval P (t (Obj i))) (fval P e))"
proof -
  let ?x = "longVal (t bp)"
  note x = repr_n_felem [OF b]
  have xq: "lval ?x < prime_of P" using x by simp
  note m = max_shift [OF x(1)] and n = neg_shift [OF x(1) xq]
  note mn = max_shift [OF n(1)]
  note L = do_shl [of t i _ k, OF a] and R = do_shr [of t i _ k, OF a]
  show "elem_repr P (F_shl_long P G (Obj k) (Obj i) bp t (Obj k))
      (shl_spec (shifted_in_place k i t) (prime_of P) (fval P (t (Obj i))) (fval P e))"
    using L [of "?x ! 0"] R [of "F_rawSubRegular G (q_long P) ?x ! 0"] m mn n(2) x(2)
      F_setzero [of "Obj k" t]
    by (auto simp: F_shl_long_def F_shl_big_shift_def shl_spec_def Let_def not_le)
  show "elem_repr P (F_shr_long P G (Obj k) (Obj i) bp t (Obj k))
      (shr_spec (shifted_in_place k i t) (prime_of P) (fval P (t (Obj i))) (fval P e))"
    using R [of "?x ! 0"] L [of "F_rawSubRegular G (q_long P) ?x ! 0"] m mn n(2) x(2)
      F_setzero [of "Obj k" t]
    by (auto simp: F_shr_long_def F_shr_big_shift_def shr_spec_def Let_def not_le)
qed

lemma shift_short:
  assumes a: "felem P (s (Obj i))" and b: "\<not> is_long (s (Obj j))"
  shows "elem_repr P (F_shl P G (Obj k) (Obj i) (Obj j) s (Obj k))
      (shl_spec (shifted_in_place k i s) (prime_of P) (fval P (s (Obj i))) (fval P (s (Obj j))))"
    and "elem_repr P (F_shr P G (Obj k) (Obj i) (Obj j) s (Obj k))
      (shr_spec (shifted_in_place k i s) (prime_of P) (fval P (s (Obj i))) (fval P (s (Obj j))))"
proof -
  let ?b = "short64 (s (Obj j))" and ?v = "sint (shortVal (s (Obj j)))"
  have bd: "- (2 ^ 31) \<le> ?v" "?v < 2 ^ 31" by (rule short_bounds)+
  have v: "fval P (s (Obj j)) = (if ?v < 0 then ?v + prime_of P else ?v)"
    using b bd q_lower by (auto simp: fval_short intro!: mod_add_right_self)
  have u: "uint ?b = ?v \<and> unat ?b = nat ?v" if "0 \<le> ?v"
    using uint_short64 [OF that] by (simp add: unat_eq_nat_uint)
  have n: "uint (- ?b) = - ?v \<and> unat (- ?b) = nat (- ?v) \<and> sint (- ?b) = - ?v" if "?v < 0"
    using uint_minus_short64 [OF that] short_ops(3) [of "shortVal (s (Obj j))"]
    by (simp add: unat_eq_nat_uint short64_def)
  have big: "254 \<le> prime_of P + ?v" "254 \<le> prime_of P - ?v"
    using q_lower bd by simp_all
  note L = do_shl [of s i _ k, OF a] and R = do_shr [of s i _ k, OF a] and Z = F_setzero [of "Obj k" s]
  show "elem_repr P (F_shl P G (Obj k) (Obj i) (Obj j) s (Obj k))
      (shl_spec (shifted_in_place k i s) (prime_of P) (fval P (s (Obj i))) (fval P (s (Obj j))))"
  proof (cases "?v < 0")
    case True
    then show ?thesis
      using b v n [OF True] big R [of "- ?b"] Z
      by (simp add: F_shl_def Let_def sint_short64 shl_spec_def)
  next
    case False
    then show ?thesis
      using b v u big L [of ?b] Z
      by (simp add: F_shl_def Let_def sint_short64 shl_spec_def not_less not_le)
  qed
  show "elem_repr P (F_shr P G (Obj k) (Obj i) (Obj j) s (Obj k))
      (shr_spec (shifted_in_place k i s) (prime_of P) (fval P (s (Obj i))) (fval P (s (Obj j))))"
  proof (cases "?v < 0")
    case True
    then show ?thesis
      using b v n [OF True] big L [of "- ?b"] Z
      by (simp add: F_shr_def Let_def sint_short64 shr_spec_def)
  next
    case False
    then show ?thesis
      using b v u big R [of ?b] Z
      by (simp add: F_shr_def Let_def sint_short64 shr_spec_def not_less not_le)
  qed
qed

theorem F_shl_shr:
  assumes a: "felem P (s (Obj i))" and b: "felem P (s (Obj j))"
  shows "elem_repr P (F_shl P G (Obj k) (Obj i) (Obj j) s (Obj k))
      (shl_spec (shifted_in_place k i s) (prime_of P) (fval P (s (Obj i))) (fval P (s (Obj j))))"
    and "elem_repr P (F_shr P G (Obj k) (Obj i) (Obj j) s (Obj k))
      (shr_spec (shifted_in_place k i s) (prime_of P) (fval P (s (Obj i))) (fval P (s (Obj j))))"
proof -
  have "elem_repr P (F_shl P G (Obj k) (Obj i) (Obj j) s (Obj k))
        (shl_spec (shifted_in_place k i s) (prime_of P) (fval P (s (Obj i))) (fval P (s (Obj j))))
    \<and> elem_repr P (F_shr P G (Obj k) (Obj i) (Obj j) s (Obj k))
        (shr_spec (shifted_in_place k i s) (prime_of P) (fval P (s (Obj i))) (fval P (s (Obj j))))"
  proof (cases "is_long (s (Obj j))")
    case False
    show ?thesis using shift_short [of s i j k, OF a False] by blast
  next
    case True
    let ?tl = "F_toNormal P G (Local L_shl_b_long) (Obj j) s"
      and ?tr = "F_toNormal P G (Local L_shr_b_long) (Obj j) s"
    note D = F_shl_long(1) [of s i "Obj j" "s (Obj j)" k, OF a _ b]
      F_shl_long(2) [of s i "Obj j" "s (Obj j)" k, OF a _ b]
      F_shl_long(1) [of ?tl i "Local L_shl_b_long" "s (Obj j)" k, OF _ _ b]
      F_shl_long(2) [of ?tr i "Local L_shr_b_long" "s (Obj j)" k, OF _ _ b]
    have "etype (s (Obj j)) = F_LONG \<or> etype (s (Obj j)) = F_LONGMONTGOMERY"
      using felem_etype [OF b] True by auto
    then show ?thesis
      by (elim disjE; use D a b True in \<open>simp add: F_shl_def F_shr_def Let_def local_n elem_long_n shifted_in_place_def\<close>)
  qed
  then show "elem_repr P (F_shl P G (Obj k) (Obj i) (Obj j) s (Obj k))
      (shl_spec (shifted_in_place k i s) (prime_of P) (fval P (s (Obj i))) (fval P (s (Obj j))))"
    and "elem_repr P (F_shr P G (Obj k) (Obj i) (Obj j) s (Obj k))
      (shr_spec (shifted_in_place k i s) (prime_of P) (fval P (s (Obj i))) (fval P (s (Obj j))))"
    by blast+
qed

end

end
