(* ===== verification/FieldInt.thy ===== *)
theory FieldInt
  imports FieldBits
begin

text \<open>
  The conversion of an element to a C integer (\<open>Fr_toInt\<close>), and three behaviours of the
  portable arithmetic that its callers have to know: the conversion to Montgomery form of a
  short element leaves the short value of the result alone, an addition whose result
  overwrites an operand of the other representation uses the operand unconverted, and
  \<open>Fr_toInt\<close> accepts numbers that are no integers of 32 bits.
\<close>

lemma ucast_sint_range:
  fixes w :: u64
  assumes "- (2 ^ 31) \<le> v" and "v < 2 ^ 31" and "w = word_of_int v"
  shows "sint w = v" and "sint (ucast w :: u32) = v"
proof -
  have v: "- (2 ^ 63) \<le> v" "v < 2 ^ 63" using assms by simp_all
  show s: "sint w = v" unfolding assms(3) by (rule sint_word_of_int_64 [OF v])
  show "sint (ucast w :: u32) = v"
    using sint_ucast_32 [of w] assms(1,2) unfolding s by blast
qed

lemma sdb_minus_1:
  fixes w :: u64
  shows "signed_drop_bit 31 w + 1 = 0 \<longleftrightarrow> - (2 ^ 31) \<le> sint w \<and> sint w < 0"
proof -
  have "signed_drop_bit 31 w + 1 = 0 \<longleftrightarrow> signed_drop_bit 31 w = - 1"
    by (simp add: add_eq_0_iff2)
  also have "\<dots> \<longleftrightarrow> sint (signed_drop_bit 31 w) = - 1"
    by (auto intro: signed_word_eqI)
  also have "\<dots> \<longleftrightarrow> sint w div 2 ^ 31 = - 1"
    by (simp only: sint_signed_drop_bit_eq drop_bit_eq_div)
  also have "\<dots> \<longleftrightarrow> - (2 ^ 31) \<le> sint w \<and> sint w < 0"
    by auto
  finally show ?thesis .
qed

lemma drop31_eq_0: "drop_bit 31 (w :: u64) = 0 \<longleftrightarrow> uint w < 2 ^ 31"
proof -
  have "uint (w div 2147483648) = uint w div 2 ^ 31"
    by (simp only: uint_div_distrib uint_numeral) simp
  then have "drop_bit 31 w = 0 \<longleftrightarrow> uint w div 2 ^ 31 = 0"
    by (simp add: drop_bit_eq_div uint_0_iff [symmetric])
  then show ?thesis by auto
qed

lemma limb_of_int: "length x = Suc n \<Longrightarrow> x ! 0 = word_of_int (lval x)"
proof -
  assume "length x = Suc n"
  then have "lval x = uint (x ! 0) + 2 ^ 64 * lval (drop 1 x)" by (intro lval_drop1) simp
  from carry_value(1) [OF this [symmetric] uint_ge_0 uint_limb_upper]
  have "uint (x ! 0) = uint (word_of_int (lval x) :: limb)" by (simp add: uint_word_of_int)
  then show ?thesis by (rule word_uint_eqI)
qed

context mont_field
begin

text \<open>The integer that the limbs of a normal element give.\<close>

lemma F_longNeg:
  assumes "length (longVal (s p)) = 4" and "lval (longVal (s p)) = prime_of P - m"
    and "0 < m" and "m \<le> 2 ^ 31"
  shows "\<exists>w. F_longNeg P G p s = Inr w \<and> sint w = - m"
proof -
  let ?x = "longVal (s p)"
  define w where "w = ?x ! 0 - q_long P ! 0"
  have "?x ! 0 = word_of_int (lval ?x)" "q_long P ! 0 = word_of_int (prime_of P)"
    using limb_of_int [of ?x 3] limb_of_int [of "q_long P" 3] assms(1) length_q
    by (simp_all add: prime_of_def)
  then have "w = word_of_int (- m)" by (simp add: w_def assms(2))
  note r = ucast_sint_range [of "- m" w, OF _ _ this]
  have s: "sint w = - m" "sint (ucast w :: u32) = - m"
    by (rule r; use assms(3,4) in simp)+
  have "\<not> 0 \<le> F_rawCmp G ?x (q_long P)"
    using cmp_ge [of ?x 4 "q_long P"] assms length_q by (simp add: F_rawCmp_def prime_of_def)
  moreover have "signed_drop_bit 31 w + 1 = 0"
    unfolding sdb_minus_1 s using assms(3,4) by simp
  ultimately have "F_longNeg P G p s = Inr (ucast w)"
    by (simp add: F_longNeg_def Let_def w_def)
  with s show ?thesis by blast
qed

lemma F_longNormal:
  assumes x: "repr_n P (longVal (s p)) (fval P e)" "felem P e"
    and r: "- (2 ^ 31) \<le> sval P (fval P e)" "sval P (fval P e) < 2 ^ 31"
  shows "\<exists>w. F_longNormal P G p s = Inr w \<and> sint w = sval P (fval P e)"
proof -
  let ?x = "longVal (s p)" and ?v = "fval P e"
  note v = repr_n_felem [OF x]
  have x4: "lval ?x = uint (?x ! 0) + 2 ^ 64 * uint (?x ! 1) + 2 ^ 128 * uint (?x ! 2) + 2 ^ 192 * uint (?x ! 3)"
    by (rule lval_4 [OF v(1)])
  show ?thesis
  proof (cases "?v \<le> lval (half P)")
    case True
    then have sv: "sval P ?v = ?v" by (simp add: sval_def)
    then have lt: "lval ?x < 2 ^ 31" using r v(2) by simp
    then have u: "uint (?x ! 0) = lval ?x" by (intro low_limb [OF v(1)]) simp
    then have "2 ^ 64 * uint (?x ! 1) + 2 ^ 128 * uint (?x ! 2) + 2 ^ 192 * uint (?x ! 3) = 0"
      using x4 by linarith
    then have "uint (?x ! 1) = 0" "uint (?x ! 2) = 0" "uint (?x ! 3) = 0"
      by (simp_all add: add_nonneg_eq_0_iff)
    then have z: "?x ! 1 = 0" "?x ! 2 = 0" "?x ! 3 = 0" by (simp_all add: uint_0_iff)
    have "drop_bit 31 (?x ! 0) = 0" unfolding drop31_eq_0 u by (rule lt)
    then have "F_longNormal P G p s = Inr (ucast (?x ! 0))"
      using z by (simp only: F_longNormal_def Let_def) simp
    moreover have "sint (ucast (?x ! 0) :: u32) = ?v"
    proof (rule ucast_sint_range(2))
      show "?x ! 0 = word_of_int ?v" using limb_of_int [of ?x 3] v(1,2) by simp
    qed (use v lt in simp_all)
    ultimately show ?thesis unfolding sv by (intro exI conjI)
  next
    case False
    then have sv: "sval P ?v = ?v - prime_of P" by (simp add: sval_def)
    have "\<not> (drop_bit 31 (?x ! 0) = 0 \<and> ?x ! 1 = 0 \<and> ?x ! 2 = 0 \<and> ?x ! 3 = 0)"
    proof
      assume "drop_bit 31 (?x ! 0) = 0 \<and> ?x ! 1 = 0 \<and> ?x ! 2 = 0 \<and> ?x ! 3 = 0"
      then have "lval ?x < 2 ^ 31" unfolding x4 drop31_eq_0 by simp
      then show False using False half_lower v(2) by simp
    qed
    then have "F_longNormal P G p s = F_longNeg P G p s"
      by (simp only: F_longNormal_def Let_def) auto
    then show ?thesis
      using F_longNeg [of s p "prime_of P - ?v"] v sv r by simp
  qed
qed

theorem F_toInt:
  assumes e: "felem P (s (Obj i))"
    and r: "- (2 ^ 31) \<le> sval P (fval P (s (Obj i)))" "sval P (fval P (s (Obj i))) < 2 ^ 31"
  shows "\<exists>w. F_toInt P G (Obj i) s = Inr w \<and> sint w = sval P (fval P (s (Obj i)))"
proof -
  let ?t = "F_toNormal P G (Local L_e_n) (Obj i) s"
  note n = F_longNormal [of s "Obj i" "s (Obj i)", OF _ e r]
  note m = F_longNormal [of ?t "Local L_e_n" "s (Obj i)", OF _ e r]
  show ?thesis
    using felem_etype [OF e]
    by (elim disjE; use n m e in \<open>simp add: F_toInt_def Let_def local_n elem_long_n fval_short sval_short\<close>)
qed

section \<open>Three pitfalls\<close>

lemma toMontgomery_keeps_short:
  assumes "\<not> is_long (s a)" and "\<not> is_mont (s a)"
  shows "fval P (F_toMontgomery P G r a s r) = sint (shortVal (s r)) mod prime_of P"
  using F_toMontgomery_short [of s a r] assms by (simp add: fval_short)

lemma add_in_place:
  assumes a: "felem P (s (Obj i))" "etype (s (Obj i)) = F_LONG"
    and b: "felem P (s (Obj j))" "etype (s (Obj j)) = F_LONGMONTGOMERY"
  shows "elem_repr P (F_add P G (Obj i) (Obj i) (Obj j) s (Obj i))
    (fval P (s (Obj i)) * Rinv P + fval P (s (Obj j)))"
proof -
  have x: "repr_n P (longVal (s (Obj i))) (fval P (s (Obj i)))" by (rule elem_long_n [OF a])
  have "lval (longVal (s (Obj i))) mod prime_of P = (fval P (s (Obj i)) * Rinv P * mont_R) mod prime_of P"
    using x cancel_R [of "fval P (s (Obj i))"] by (simp add: repr_n_def mult.commute mult.left_commute)
  then have m: "repr_m P (longVal (s (Obj i))) (fval P (s (Obj i)) * Rinv P)"
    using x elem_mod [of "longVal (s (Obj i))"] by (simp add: repr_n_def repr_m_def)
  have "i \<noteq> j" using a b by auto
  then show ?thesis
    using repr_add_m [OF m elem_mont [OF b(1)]] a b
    by (simp add: F_add_def add_l1nl2m_def F_toMontgomery_def Let_def elem_repr_iff)
qed

lemma toInt_low_limb:
  assumes "etype (s (Obj i)) = F_LONG" and "length (longVal (s (Obj i))) = 4"
    and "lval (longVal (s (Obj i))) = prime_of P - m - 2 ^ 64 * c"
    and "0 < m" and "m \<le> 2 ^ 31" and "0 < c" and "2 ^ 64 * c < 2 ^ 251"
  shows "\<exists>w. F_toInt P G (Obj i) s = Inr w \<and> sint w = - m"
proof -
  let ?x = "longVal (s (Obj i))"
  define w where "w = ?x ! 0 - q_long P ! 0"
  have x: "?x ! 0 = word_of_int (prime_of P - m - 2 ^ 64 * c)" "q_long P ! 0 = word_of_int (prime_of P)"
    using limb_of_int [of ?x 3] limb_of_int [of "q_long P" 3] assms(2,3) length_q
    by (simp_all add: prime_of_def)
  have "w = word_of_int (- m) - word_of_int (2 ^ 64 * c)" by (simp add: w_def x)
  also have "word_of_int (2 ^ 64 * c) = (0 :: limb)" 
    by (simp only: uint_0_iff [symmetric] uint_word_of_int) simp
  finally have "w = word_of_int (- m)" by simp
  note r = ucast_sint_range [of "- m" w, OF _ _ this]
  have s: "sint w = - m" "sint (ucast w :: u32) = - m"
    by (rule r; use assms(4,5) in simp)+
  have "\<not> 0 \<le> F_rawCmp G ?x (q_long P)"
    using cmp_ge [of ?x 4 "q_long P"] assms length_q by (simp add: F_rawCmp_def prime_of_def)
  moreover have "signed_drop_bit 31 w + 1 = 0"
    unfolding sdb_minus_1 s using assms(4,5) by simp
  ultimately have n: "F_longNeg P G (Obj i) s = Inr (ucast w)"
    by (simp add: F_longNeg_def Let_def w_def)
  have "2 ^ 31 \<le> lval ?x" using assms(3,5,7) q_lower by simp
  then have "\<not> (drop_bit 31 (?x ! 0) = 0 \<and> ?x ! 1 = 0 \<and> ?x ! 2 = 0 \<and> ?x ! 3 = 0)"
    unfolding lval_4 [OF assms(2)] drop31_eq_0 by auto
  then have "F_longNormal P G (Obj i) s = Inr (ucast w)"
    using n by (simp only: F_longNormal_def Let_def) auto
  then show ?thesis using assms(1) s by (simp add: F_toInt_def)
qed

end

end
