(* ===== verification/FieldTheorems.thy ===== *)
theory FieldTheorems
  imports FieldInt
begin

text \<open>
  The properties of the field arithmetic, stated for any constants that fit together
  (\<open>field_ok\<close>, proved for the scalar field and for the base field) and any GMP that behaves as
  documented (\<open>gmp_mpn\<close>). The two interpretations instantiate the development for the two
  generated fields.
\<close>

interpretation fr: mont_field gmp_ref Fr_field
  by unfold_locales (rule field_ok_Fr)

interpretation fq: mont_field gmp_ref Fq_field
  by unfold_locales (rule field_ok_Fq)

lemma mont_fieldI: "gmp_mpn G \<Longrightarrow> field_ok P \<Longrightarrow> mont_field G P"
  by (simp add: mont_field_def mont_field_axioms_def)

text \<open>Elements for the witnesses: a short one, a long one and one in Montgomery form.\<close>

definition sample :: store where
  "sample = (\<lambda>p. if p = Obj 2 then \<lparr>shortVal = 0, etype = F_LONG, longVal = [5, 0, 0, 0]\<rparr>
     else if p = Obj 3 then \<lparr>shortVal = - 3, etype = F_SHORT, longVal = [0, 0, 0, 0]\<rparr>
     else if p = Obj 5 then \<lparr>shortVal = 64, etype = F_SHORT, longVal = [0, 0, 0, 0]\<rparr>
     else if p = Obj 4 then \<lparr>shortVal = 0, etype = F_LONGMONTGOMERY, longVal = [7, 0, 0, 0]\<rparr>
     else \<lparr>shortVal = 0, etype = F_SHORT, longVal = [0, 0, 0, 0]\<rparr>)"

lemma sample_elems:
  "felem Fr_field (sample (Obj 0))" "felem Fr_field (sample (Obj 2))"
  "felem Fr_field (sample (Obj 3))" "felem Fr_field (sample (Obj 4))"
  by (simp_all add: sample_def felem_def raw_elem_def prime_of_Fr)

lemma sample_values:
  "fval Fr_field (sample (Obj 2)) = 5" "fval Fr_field (sample (Obj 3)) = - 3 mod prime_of Fr_field"
  "etype (sample (Obj 2)) = F_LONG" "etype (sample (Obj 3)) = F_SHORT"
  "etype (sample (Obj 4)) = F_LONGMONTGOMERY"
  by (simp_all add: sample_def fval_def)

section \<open>Raw arithmetic\<close>

text \<open>C11: Montgomery multiplication. For any four limbs \<open>a\<close> and a reduced \<open>b\<close>, \<open>Fr_rawMMul\<close>
  returns the reduced number \<open>r\<close> with \<open>r * 2^256 = a * b\<close> modulo the prime: the partial
  products fit five limbs, every carry that the code drops or puts at index 1 is zero, and one
  conditional subtraction at the end is enough.\<close>

theorem rawMMul_correct:
  assumes "gmp_mpn G" and "field_ok P" and "length a = 4" and "raw_elem P b"
  shows "raw_elem P (F_rawMMul P G a b)
    \<and> (lval (F_rawMMul P G a b) * 2 ^ 256) mod prime_of P = (lval a * lval b) mod prime_of P"
  using mont_field.rawMMul [OF mont_fieldI [OF assms(1,2)] assms(3,4)] by blast

theorem rawMMul_correct_witness:
  "raw_elem Fr_field (F_rawMMul Fr_field gmp_ref [1, 2, 3, 0xffffffffffffffff] [9, 0, 0, 0])
    \<and> (lval (F_rawMMul Fr_field gmp_ref [1, 2, 3, 0xffffffffffffffff] [9, 0, 0, 0]) * 2 ^ 256)
        mod prime_of Fr_field
      = (lval [1, 2, 3, 0xffffffffffffffff] * lval [9, 0, 0, 0]) mod prime_of Fr_field"
  by (rule rawMMul_correct [OF gref.gmp_mpn_axioms field_ok_Fr])
    (simp_all add: raw_elem_def prime_of_Fr)

text \<open>C37: conversion to Montgomery form and back is the identity on reduced elements, in both
  orders, and the conversion multiplies the value by \<open>2^256\<close>.\<close>

theorem montgomery_roundtrip:
  assumes "gmp_mpn G" and "field_ok P" and "raw_elem P a"
  shows "F_rawFromMontgomery P G (F_rawToMontgomery P G a) = a
    \<and> F_rawToMontgomery P G (F_rawFromMontgomery P G a) = a
    \<and> lval (F_rawToMontgomery P G a) = (lval a * 2 ^ 256) mod prime_of P"
  using mont_field.from_to_Montgomery [OF mont_fieldI [OF assms(1,2)] assms(3)]
    mont_field.rawToMontgomery(2) [OF mont_fieldI [OF assms(1,2)], of a] assms(3)
  by simp

theorem montgomery_roundtrip_witness:
  "F_rawFromMontgomery Fq_field gmp_ref (F_rawToMontgomery Fq_field gmp_ref [4, 5, 6, 7]) = [4, 5, 6, 7]"
  using montgomery_roundtrip [OF gref.gmp_mpn_axioms field_ok_Fq, of "[4, 5, 6, 7]"]
  by (simp add: raw_elem_def prime_of_Fq)

text \<open>C38: the raw additive routines compute in the field: sums, differences and negations of
  reduced elements are reduced, and so are sums and differences with a 64-bit integer, where
  the borrow or carry decides the correction by the prime.\<close>

theorem raw_additive_correct:
  assumes "gmp_mpn G" and "field_ok P" and "raw_elem P a" and "raw_elem P b"
  shows "raw_elem P (F_rawAdd P G a b) \<and> lval (F_rawAdd P G a b) = (lval a + lval b) mod prime_of P
    \<and> raw_elem P (F_rawSub P G a b) \<and> lval (F_rawSub P G a b) = (lval a - lval b) mod prime_of P
    \<and> raw_elem P (F_rawNeg P G a) \<and> lval (F_rawNeg P G a) = (- lval a) mod prime_of P
    \<and> raw_elem P (F_rawAddLS P G a x) \<and> lval (F_rawAddLS P G a x) = (lval a + uint x) mod prime_of P
    \<and> raw_elem P (F_rawSubLS P G a x) \<and> lval (F_rawSubLS P G a x) = (lval a - uint x) mod prime_of P
    \<and> raw_elem P (F_rawSubSL P G x a) \<and> lval (F_rawSubSL P G x a) = (uint x - lval a) mod prime_of P"
  using mont_field.rawAdd [OF mont_fieldI [OF assms(1,2)] assms(3,4)]
    mont_field.rawSub [OF mont_fieldI [OF assms(1,2)] assms(3,4)]
    mont_field.rawNeg [OF mont_fieldI [OF assms(1,2)] assms(3)]
    mont_field.rawAddLS [OF mont_fieldI [OF assms(1,2)] assms(3)]
    mont_field.rawSubLS [OF mont_fieldI [OF assms(1,2)] assms(3)]
    mont_field.rawSubSL [OF mont_fieldI [OF assms(1,2)] assms(3)]
  by (intro conjI)

theorem raw_additive_correct_witness:
  "lval (F_rawSub Fr_field gmp_ref [3, 0, 0, 0] [5, 0, 0, 0])
    = (lval [3, 0, 0, 0] - lval [5, 0, 0, 0]) mod prime_of Fr_field"
  using raw_additive_correct [OF gref.gmp_mpn_axioms field_ok_Fr, of "[3, 0, 0, 0]" "[5, 0, 0, 0]" 0]
  by (simp add: raw_elem_def prime_of_Fr)

section \<open>Tagged elements\<close>

text \<open>C12: multiplication of tagged elements. Whatever the representations of the operands
  (short, long, either in Montgomery form) and whether or not the result overwrites one of
  them, \<open>Fr_mul\<close> leaves a valid element whose value is the product in the field, and changes no
  other element.\<close>

theorem mul_correct:
  assumes "gmp_mpn G" and "field_ok P" and "felem P (s a)" and "felem P (s b)"
  shows "felem P (F_mul P G r a b s r)
    \<and> fval P (F_mul P G r a b s r) = (fval P (s a) * fval P (s b)) mod prime_of P
    \<and> (\<forall>p. p \<noteq> r \<longrightarrow> F_mul P G r a b s p = s p)"
  using mont_field.F_mul [where s = s and a = a and b = b, OF mont_fieldI [OF assms(1,2)] assms(3,4)]
    mont_field.F_mul_other [OF mont_fieldI [OF assms(1,2)]]
  by (simp add: elem_repr_def)

theorem mul_correct_witness:
  "fval Fr_field (F_mul Fr_field gmp_ref (Obj 2) (Obj 2) (Obj 3) sample (Obj 2))
    = (5 * (- 3 mod prime_of Fr_field)) mod prime_of Fr_field"
  using mul_correct [of gmp_ref Fr_field sample "Obj 2" "Obj 3" "Obj 2", OF gref.gmp_mpn_axioms
    field_ok_Fr sample_elems(2,3)] by (simp add: sample_values)

text \<open>C13: addition of tagged elements. For every pair of representations, and a result apart
  from the operands, \<open>Fr_add\<close> leaves a valid element whose value is the sum in the field and
  changes no other element of its caller; the 32-bit sums of short values overflow into the
  long representation.\<close>

theorem add_correct:
  assumes "gmp_mpn G" and "field_ok P" and "felem P (s (Obj i))" and "felem P (s (Obj j))"
    and "k \<noteq> i" and "k \<noteq> j"
  shows "felem P (F_add P G (Obj k) (Obj i) (Obj j) s (Obj k))
    \<and> fval P (F_add P G (Obj k) (Obj i) (Obj j) s (Obj k))
        = (fval P (s (Obj i)) + fval P (s (Obj j))) mod prime_of P
    \<and> (\<forall>l. l \<noteq> k \<longrightarrow> F_add P G (Obj k) (Obj i) (Obj j) s (Obj l) = s (Obj l))"
  using mont_field.F_add [where s = s and a = "Obj i" and b = "Obj j" and r = "Obj k",
      OF mont_fieldI [OF assms(1,2)] assms(3,4) refl refl refl assms(5,6)]
    mont_field.F_add_other [OF mont_fieldI [OF assms(1,2)], of "Obj k" k]
  by (simp add: elem_repr_def)

theorem add_correct_witness:
  "fval Fr_field (F_add Fr_field gmp_ref (Obj 0) (Obj 2) (Obj 3) sample (Obj 0))
    = (5 + - 3 mod prime_of Fr_field) mod prime_of Fr_field"
  using add_correct [of gmp_ref Fr_field sample 2 3 0, OF gref.gmp_mpn_axioms
    field_ok_Fr sample_elems(2,3)] by (simp add: sample_values)

text \<open>C32: subtraction of tagged elements, under the same conditions.\<close>

theorem sub_correct:
  assumes "gmp_mpn G" and "field_ok P" and "felem P (s (Obj i))" and "felem P (s (Obj j))"
    and "k \<noteq> i" and "k \<noteq> j"
  shows "felem P (F_sub P G (Obj k) (Obj i) (Obj j) s (Obj k))
    \<and> fval P (F_sub P G (Obj k) (Obj i) (Obj j) s (Obj k))
        = (fval P (s (Obj i)) - fval P (s (Obj j))) mod prime_of P
    \<and> (\<forall>l. l \<noteq> k \<longrightarrow> F_sub P G (Obj k) (Obj i) (Obj j) s (Obj l) = s (Obj l))"
  using mont_field.F_sub [where s = s and a = "Obj i" and b = "Obj j" and r = "Obj k",
      OF mont_fieldI [OF assms(1,2)] assms(3,4) refl refl refl assms(5,6)]
    mont_field.F_sub_other [OF mont_fieldI [OF assms(1,2)], of "Obj k" k]
  by (simp add: elem_repr_def)

theorem sub_correct_witness:
  "fval Fr_field (F_sub Fr_field gmp_ref (Obj 0) (Obj 3) (Obj 2) sample (Obj 0))
    = (- 3 mod prime_of Fr_field - 5) mod prime_of Fr_field"
  using sub_correct [of gmp_ref Fr_field sample 3 2 0, OF gref.gmp_mpn_axioms
    field_ok_Fr sample_elems(3,2)] by (simp add: sample_values)

text \<open>C33: negation and squaring of tagged elements are right for every representation, also
  in place.\<close>

theorem neg_square_correct:
  assumes "gmp_mpn G" and "field_ok P" and "felem P (s a)"
  shows "felem P (F_neg P G r a s r) \<and> fval P (F_neg P G r a s r) = (- fval P (s a)) mod prime_of P
    \<and> felem P (F_square P G r a s r)
    \<and> fval P (F_square P G r a s r) = (fval P (s a) * fval P (s a)) mod prime_of P
    \<and> (\<forall>p. p \<noteq> r \<longrightarrow> F_neg P G r a s p = s p \<and> F_square P G r a s p = s p)"
  using mont_field.F_neg [where s = s and a = a, OF mont_fieldI [OF assms(1,2)] assms(3)]
    mont_field.F_square [where s = s and a = a, OF mont_fieldI [OF assms(1,2)] assms(3)]
    mont_field.F_neg_other [OF mont_fieldI [OF assms(1,2)]]
    mont_field.F_square_other [OF mont_fieldI [OF assms(1,2)]]
  by (simp add: elem_repr_def)

theorem neg_square_correct_witness:
  "fval Fr_field (F_square Fr_field gmp_ref (Obj 2) (Obj 2) sample (Obj 2)) = 25 mod prime_of Fr_field"
  using neg_square_correct [of gmp_ref Fr_field sample "Obj 2" "Obj 2", OF gref.gmp_mpn_axioms
    field_ok_Fr sample_elems(2)] by (simp add: sample_values)

text \<open>C34: the order comparisons. On every pair of representations \<open>Fr_lt\<close>, \<open>Fr_geq\<close>, \<open>Fr_gt\<close>
  and \<open>Fr_leq\<close> store 1 or 0 according to the order of the signed readings of the two values,
  in which numbers above \<open>(q - 1) / 2\<close> are negative.\<close>

theorem order_correct:
  assumes "gmp_mpn G" and "field_ok P" and "felem P (s (Obj i))" and "felem P (s (Obj j))"
  shows "fval P (F_lt P G r (Obj i) (Obj j) s r)
        = of_bool (sval P (fval P (s (Obj i))) < sval P (fval P (s (Obj j)))) mod prime_of P
    \<and> fval P (F_geq P G r (Obj i) (Obj j) s r)
        = of_bool (sval P (fval P (s (Obj i))) \<ge> sval P (fval P (s (Obj j)))) mod prime_of P
    \<and> fval P (F_gt P G r (Obj i) (Obj j) s r)
        = of_bool (sval P (fval P (s (Obj i))) > sval P (fval P (s (Obj j)))) mod prime_of P
    \<and> fval P (F_leq P G r (Obj i) (Obj j) s r)
        = of_bool (sval P (fval P (s (Obj i))) \<le> sval P (fval P (s (Obj j)))) mod prime_of P"
  using mont_field.F_lt_geq_gt_leq [where s = s and i = i and j = j and r = r,
    OF mont_fieldI [OF assms(1,2)] assms(3,4)]
  by (simp add: elem_repr_def)

theorem order_correct_witness:
  "fval Fr_field (F_lt Fr_field gmp_ref (Obj 0) (Obj 3) (Obj 2) sample (Obj 0))
    = of_bool (sval Fr_field (- 3 mod prime_of Fr_field) < sval Fr_field 5) mod prime_of Fr_field"
  using order_correct [of gmp_ref Fr_field sample 3 2 "Obj 0", OF gref.gmp_mpn_axioms
    field_ok_Fr sample_elems(3,2)] by (simp add: sample_values)

text \<open>Equality and truth. \<open>Fr_eq\<close> and \<open>Fr_neq\<close> compare the values across
  representations, \<open>Fr_isTrue\<close> and the logical operators test them for zero.\<close>

theorem equality_correct:
  assumes "gmp_mpn G" and "field_ok P" and "felem P (s (Obj i))" and "felem P (s (Obj j))"
  shows "fval P (F_eq P G r (Obj i) (Obj j) s r)
        = of_bool (fval P (s (Obj i)) = fval P (s (Obj j))) mod prime_of P
    \<and> fval P (F_neq P G r (Obj i) (Obj j) s r)
        = of_bool (fval P (s (Obj i)) \<noteq> fval P (s (Obj j))) mod prime_of P
    \<and> F_isTrue G (Obj i) s = (fval P (s (Obj i)) \<noteq> 0)
    \<and> fval P (F_land G r (Obj i) (Obj j) s r)
        = of_bool (fval P (s (Obj i)) \<noteq> 0 \<and> fval P (s (Obj j)) \<noteq> 0) mod prime_of P
    \<and> fval P (F_lor G r (Obj i) (Obj j) s r)
        = of_bool (fval P (s (Obj i)) \<noteq> 0 \<or> fval P (s (Obj j)) \<noteq> 0) mod prime_of P
    \<and> fval P (F_lnot G r (Obj i) s r) = of_bool (fval P (s (Obj i)) = 0) mod prime_of P"
proof -
  note m = mont_fieldI [OF assms(1,2)]
  show ?thesis
    using mont_field.F_eq_neq [where s = s and i = i and j = j and r = r, OF m assms(3,4)]
      mont_field.F_isTrue [where s = s and p = "Obj i", OF m assms(3)]
      mont_field.F_logical [where s = s and a = "Obj i" and b = "Obj j" and r = r, OF m assms(3,4)]
    by (simp add: elem_repr_def)
qed

theorem equality_correct_witness:
  "fval Fr_field (F_eq Fr_field gmp_ref (Obj 0) (Obj 2) (Obj 2) sample (Obj 0)) = 1 mod prime_of Fr_field"
  using equality_correct [of gmp_ref Fr_field sample 2 2 "Obj 0", OF gref.gmp_mpn_axioms
    field_ok_Fr sample_elems(2,2)] by simp

text \<open>C35: the bitwise operators. For every pair of representations, \<open>Fr_band\<close>, \<open>Fr_bor\<close> and
  \<open>Fr_bxor\<close> store the bitwise combination of the two values reduced modulo the prime, and
  \<open>Fr_bnot\<close> the complement in 254 bits. The result may be an operand only when that operand is read without a
  conversion (\<open>read_as_is\<close>): it is long and in normal form, or, for the binary operators, short and
  not negative beside a long operand or another one that is not negative. Otherwise the code marks the operand as long and
  normal before it converts it, and uses its limbs as they are.\<close>

theorem bitwise_correct:
  assumes "gmp_mpn G" and "field_ok P" and "felem P (s (Obj i))" and "felem P (s (Obj j))"
    and "k = i \<Longrightarrow> read_as_is (s (Obj i)) (s (Obj j))" and "k = j \<Longrightarrow> read_as_is (s (Obj j)) (s (Obj i))"
  shows "elem_repr P (F_band P G (Obj k) (Obj i) (Obj j) s (Obj k)) (fval P (s (Obj i)) AND fval P (s (Obj j)))
    \<and> elem_repr P (F_bor P G (Obj k) (Obj i) (Obj j) s (Obj k)) (fval P (s (Obj i)) OR fval P (s (Obj j)))
    \<and> elem_repr P (F_bxor P G (Obj k) (Obj i) (Obj j) s (Obj k)) (fval P (s (Obj i)) XOR fval P (s (Obj j)))
    \<and> ((k = i \<longrightarrow> etype (s (Obj i)) = F_LONG)
        \<longrightarrow> elem_repr P (F_bnot P G (Obj k) (Obj i) s (Obj k)) (2 ^ 254 - 1 - fval P (s (Obj i))))"
proof -
  note m = mont_fieldI [OF assms(1,2)]
  show ?thesis
    using mont_field.F_band [where s = s and i = i and j = j and k = k, OF m assms(3-6)]
      mont_field.F_bor [where s = s and i = i and j = j and k = k, OF m assms(3-6)]
      mont_field.F_bxor [where s = s and i = i and j = j and k = k, OF m assms(3-6)]
      mont_field.F_bnot [where s = s and i = i and k = k, OF m assms(3)]
    by blast
qed

text \<open>Apart from the operands, with operands of two representations, and in place.\<close>

theorem bitwise_correct_witness:
  "elem_repr Fr_field (F_band Fr_field gmp_ref (Obj 0) (Obj 2) (Obj 3) sample (Obj 0)) (5 AND (- 3 mod prime_of Fr_field))
    \<and> elem_repr Fr_field (F_bxor Fr_field gmp_ref (Obj 2) (Obj 2) (Obj 2) sample (Obj 2)) 0
    \<and> elem_repr Fr_field (F_bnot Fr_field gmp_ref (Obj 2) (Obj 2) sample (Obj 2)) (2 ^ 254 - 6)"
proof -
  have "read_as_is (sample (Obj 2)) (sample (Obj 2))" by (simp add: read_as_is_def sample_values)
  then show ?thesis
    using bitwise_correct [of gmp_ref Fr_field sample 2 3 0, OF gref.gmp_mpn_axioms field_ok_Fr sample_elems(2,3)]
      bitwise_correct [of gmp_ref Fr_field sample 2 2 2, OF gref.gmp_mpn_axioms field_ok_Fr sample_elems(2,2)]
    by (simp add: sample_values)
qed



text \<open>\<open>Fr_toInt\<close> returns the signed reading of an element whenever that is a 32-bit
  integer, for every representation.\<close>

theorem toInt_correct:
  assumes "gmp_mpn G" and "field_ok P" and "felem P (s (Obj i))"
    and "- (2 ^ 31) \<le> sval P (fval P (s (Obj i)))" and "sval P (fval P (s (Obj i))) < 2 ^ 31"
  shows "\<exists>w. F_toInt P G (Obj i) s = Inr w \<and> sint w = sval P (fval P (s (Obj i)))"
  by (rule mont_field.F_toInt [where s = s and i = i, OF mont_fieldI [OF assms(1,2)] assms(3-5)])

theorem toInt_correct_witness:
  "\<exists>w. F_toInt Fr_field gmp_ref (Obj 2) sample = Inr w \<and> sint w = 5"
proof -
  have "sval Fr_field 5 = 5" by (simp add: sval_def Fr_field_def)
  then show ?thesis
    using toInt_correct [of gmp_ref Fr_field sample 2, OF gref.gmp_mpn_axioms
      field_ok_Fr sample_elems(2)] by (simp add: sample_values)
qed

section \<open>Pitfalls\<close>

text \<open>\<open>Fr_toMontgomery\<close> of a short element into another one sets the limbs and the type
  but not the short value: the result has the value of the short field that happened to be in
  the destination, whatever the operand is.\<close>

theorem toMontgomery_stale_short:
  assumes "gmp_mpn G" and "field_ok P" and "etype (s a) = F_SHORT"
  shows "etype (F_toMontgomery P G r a s r) = F_SHORTMONTGOMERY
    \<and> fval P (F_toMontgomery P G r a s r) = sint (shortVal (s r)) mod prime_of P"
  using mont_field.toMontgomery_keeps_short [where s = s and a = a and r = r, OF mont_fieldI [OF assms(1,2)]]
    assms(3) by (simp add: F_toMontgomery_def Let_def)

theorem toMontgomery_stale_short_witness:
  "fval Fr_field (sample (Obj 3)) = - 3 mod prime_of Fr_field
    \<and> fval Fr_field (F_toMontgomery Fr_field gmp_ref (Obj 0) (Obj 3) sample (Obj 0)) = 0"
proof -
  have "shortVal (sample (Obj 0)) = 0" by (simp add: sample_def)
  then show ?thesis
    using toMontgomery_stale_short [of gmp_ref Fr_field sample "Obj 3" "Obj 0", OF gref.gmp_mpn_axioms
      field_ok_Fr sample_values(4)] by (simp add: sample_values)
qed

text \<open>C40: an addition in place. When the result is the first operand, which is long and in
  normal form, and the second is in Montgomery form, \<open>Fr_add\<close> marks the operand as Montgomery
  before it converts it, so the sum takes it without the factor: the result is
  \<open>a / R + b\<close> and not \<open>a + b\<close>.\<close>

theorem add_in_place_unconverted:
  assumes "gmp_mpn G" and "field_ok P" and "felem P (s (Obj i))" and "etype (s (Obj i)) = F_LONG"
    and "felem P (s (Obj j))" and "etype (s (Obj j)) = F_LONGMONTGOMERY"
  shows "fval P (F_add P G (Obj i) (Obj i) (Obj j) s (Obj i))
    = (fval P (s (Obj i)) * Rinv P + fval P (s (Obj j))) mod prime_of P"
  using mont_field.add_in_place [where s = s and i = i and j = j, OF mont_fieldI [OF assms(1,2)] assms(3-6)]
  by (simp add: elem_repr_def)

theorem add_in_place_unconverted_witness:
  "fval Fr_field (F_add Fr_field gmp_ref (Obj 2) (Obj 2) (Obj 4) sample (Obj 2))
    = (5 * Rinv Fr_field + fval Fr_field (sample (Obj 4))) mod prime_of Fr_field"
  using add_in_place_unconverted [of gmp_ref Fr_field sample 2 4, OF gref.gmp_mpn_axioms
    field_ok_Fr sample_elems(2) sample_values(3) sample_elems(4) sample_values(5)]
  by (simp add: sample_values)

text \<open>\<open>Fr_toInt\<close> looks at the lowest limb only when it reads a number as negative: an
  element \<open>q - m - 2^64 * c\<close>, far from every 32-bit integer, gives the integer \<open>-m\<close> and no
  error.\<close>

theorem toInt_ignores_high_limbs:
  assumes "gmp_mpn G" and "field_ok P" and "etype (s (Obj i)) = F_LONG"
    and "length (longVal (s (Obj i))) = 4" and "lval (longVal (s (Obj i))) = prime_of P - m - 2 ^ 64 * c"
    and "0 < m" and "m \<le> 2 ^ 31" and "0 < c" and "2 ^ 64 * c < 2 ^ 251"
  shows "\<exists>w. F_toInt P G (Obj i) s = Inr w \<and> sint w = - m"
  by (rule mont_field.toInt_low_limb [where s = s and i = i, OF mont_fieldI [OF assms(1,2)] assms(3-9)])

theorem toInt_ignores_high_limbs_witness:
  "\<exists>w. F_toInt Fr_field gmp_ref (Obj 0)
      (\<lambda>_. \<lparr>shortVal = 0, etype = F_LONG, longVal = [0x43e1f593effffffc, 0x2833e84879b97090,
        0xb85045b68181585d, 0x30644e72e131a029]\<rparr>) = Inr w \<and> sint w = - 5"
  by (rule toInt_ignores_high_limbs [where c = 1, OF gref.gmp_mpn_axioms field_ok_Fr])
    (simp_all add: prime_of_Fr)

end
