(* ===== verification/Machine.thy ===== *)
theory Machine
  imports Prelude
begin

text \<open>
  What the components that work on bytes share: the outcome of a C++ computation (a result, an
  exception, or \<open>Undef\<close> where the program has no defined behaviour), decimal printing of
  numbers, and numbers stored in memory in little-endian order.
\<close>

section \<open>Exceptions and outcomes\<close>

datatype exn =
    range_error string
  | invalid_argument string
  | invalid_witness_length string
  | system_error string
  | runtime_error string
  | json_error string

datatype 'a outcome = Ok 'a | Throw exn | Undef

fun bind_o :: "'a outcome \<Rightarrow> ('a \<Rightarrow> 'b outcome) \<Rightarrow> 'b outcome" where
  "bind_o (Ok x) f = f x"
| "bind_o (Throw e) f = Throw e"
| "bind_o Undef f = Undef"

lemma bind_o_Ok: "bind_o m f = Ok y \<longleftrightarrow> (\<exists>x. m = Ok x \<and> f x = Ok y)"
  by (cases m) simp_all

text \<open>A computation is safe with a postcondition: it has defined behaviour, and its result
  satisfies the postcondition unless it throws.\<close>

definition safely :: "'a outcome \<Rightarrow> ('a \<Rightarrow> bool) \<Rightarrow> bool" where
  "safely m Q \<longleftrightarrow> m \<noteq> Undef \<and> (\<forall>x. m = Ok x \<longrightarrow> Q x)"

lemma safely_simps [simp]: "safely (Ok x) Q \<longleftrightarrow> Q x" "safely (Throw e) Q" "\<not> safely Undef Q"
  by (simp_all add: safely_def)

lemma safely_bind: "safely m Q \<Longrightarrow> (\<And>x. Q x \<Longrightarrow> safely (f x) R) \<Longrightarrow> safely (bind_o m f) R"
  by (cases m) simp_all

lemma safely_mono: "safely m Q \<Longrightarrow> (\<And>x. Q x \<Longrightarrow> R x) \<Longrightarrow> safely m R"
  by (simp add: safely_def)

text \<open>\<open>std::to_string\<close> of an unsigned number.\<close>

fun digits :: "nat \<Rightarrow> string" where
  "digits n = (if n < 10 then [char_of (48 + n)] else digits (n div 10) @ [char_of (48 + n mod 10)])"

declare digits.simps [simp del]

definition to_string :: "'a::len word \<Rightarrow> string" where
  "to_string w = digits (unat w)"

section \<open>Little-endian numbers\<close>

primrec le_val :: "u8 list \<Rightarrow> nat" where
  "le_val [] = 0"
| "le_val (b # bs) = unat b + 256 * le_val bs"

primrec le_bytes :: "nat \<Rightarrow> nat \<Rightarrow> u8 list" where
  "le_bytes 0 v = []"
| "le_bytes (Suc n) v = of_nat v # le_bytes n (v div 256)"

lemma length_le_bytes [simp]: "length (le_bytes n v) = n"
  by (induction n arbitrary: v) simp_all

lemma unat_u8_upper: "unat (b :: u8) < 256"
  using unsigned_less [of b] by simp

lemma unat_of_nat_u8: "unat (of_nat v :: u8) = v mod 256"
  by (simp add: unat_of_nat)

lemma le_val_bytes [simp]: "le_val (le_bytes n v) = v mod 256 ^ n"
proof (induction n arbitrary: v)
  case 0
  show ?case by simp
next
  case (Suc n)
  have "v mod 256 ^ Suc n = v mod (256 * 256 ^ n)" by simp
  also have "\<dots> = 256 * (v div 256 mod 256 ^ n) + v mod 256" by (rule mod_mult2_eq)
  finally show ?case by (simp add: Suc.IH unat_of_nat_u8)
qed

lemma nth_le_bytes: "i < n \<Longrightarrow> le_bytes n v ! i = of_nat (v div 256 ^ i)"
  by (induction n arbitrary: v i) (auto simp: nth_Cons div_mult2_eq split: nat.splits)

lemma le_val_upper: "le_val bs < 256 ^ length bs"
proof (induction bs)
  case Nil
  show ?case by simp
next
  case (Cons b bs)
  have b: "unat b < 256" using unsigned_less [of b] by simp
  have "256 * (le_val bs + 1) \<le> 256 * 256 ^ length bs" using Cons.IH by simp
  then show ?case using b by simp
qed

lemma le_bytes_val: "length bs = n \<Longrightarrow> le_bytes n (le_val bs) = bs"
proof (induction bs arbitrary: n)
  case (Cons b bs)
  have "unat b < 256" using unsigned_less [of b] by simp
  then have "unat (of_nat (unat b + 256 * le_val bs) :: u8) = unat b" "(unat b + 256 * le_val bs) div 256 = le_val bs"
    by (simp_all only: unat_of_nat_u8) simp_all
  then have "of_nat (unat b + 256 * le_val bs) = b" "(unat b + 256 * le_val bs) div 256 = le_val bs"
    by (simp_all only: word_unat_eq_iff)
  then show ?case using Cons by auto
qed simp

lemma le_val_append: "le_val (xs @ ys) = le_val xs + 256 ^ length xs * le_val ys"
  by (induction xs) (simp_all add: algebra_simps)

lemma bit_le_bytes: "i < n \<Longrightarrow> j < 8 \<Longrightarrow> bit (le_bytes n v ! i) j = bit v (8 * i + j)"
proof -
  assume "i < n" "j < 8"
  have "(256::nat) ^ i = 2 ^ (8 * i)" by (simp add: power_mult)
  then have "bit (v div 256 ^ i) j = bit v (8 * i + j)"
    by (simp add: bit_drop_bit_eq flip: drop_bit_eq_div)
  then show ?thesis using \<open>i < n\<close> \<open>j < 8\<close> by (simp add: nth_le_bytes bit_of_nat_iff)
qed

lemma bit_le_val: "k < 8 * length bs \<Longrightarrow> bit (le_val bs) k = bit (bs ! (k div 8)) (k mod 8)"
  using bit_le_bytes [of "k div 8" "length bs" "k mod 8" "le_val bs"]
  by (simp add: le_bytes_val less_mult_imp_div_less mult.commute)

end
