(* ===== verification/BinFile.thy ===== *)
theory BinFile
  imports Machine
begin

text \<open>
  The container format of the key and witness files (\<open>src/binfile_utils.cpp\<close>): a header of
  twelve bytes (type, version, number of sections), then sections, each with a 32-bit type and
  a 64-bit size. A file is its bytes, mapped at an address; positions and addresses are
  64-bit words, so sums wrap as in the code. An operation returns its result, a C++ exception,
  or \<open>Undef\<close> where the C++ program has no defined behaviour: a read outside the file or a use
  of a null pointer.
\<close>

section \<open>The file object\<close>

record sect =
  start :: u64
  ssize :: u64

record binfile =
  fdata :: "u8 list"            \<comment> \<open>the bytes at \<open>addr\<close>\<close>
  addr :: u64
  fsize :: u64
  pos :: u64
  sections :: "u32 \<rightharpoonup> sect list"
  ftype :: string
  version :: u32
  readingSection :: "sect option"

text \<open>Reading \<open>n\<close> bytes of the mapped file at a position.\<close>

definition bytes_at :: "binfile \<Rightarrow> u64 \<Rightarrow> nat \<Rightarrow> (u8 list) outcome" where
  "bytes_at f p n = (if unat p + n \<le> length (fdata f) then Ok (take n (drop (unat p) (fdata f))) else Undef)"

definition pos_error :: "binfile \<Rightarrow> u64 \<Rightarrow> exn" where
  "pos_error f new_pos = range_error (''File pos is too big. There are '' @ to_string (fsize f)
     @ '' bytes and it's trying to access byte '' @ to_string new_pos)"

definition readU32LE :: "binfile \<Rightarrow> (u32 \<times> binfile) outcome" where
  "readU32LE f =
     (let new_pos = pos f + 4
      in if new_pos > fsize f then Throw (pos_error f new_pos)
         else bind_o (bytes_at f (pos f) 4) (\<lambda>bs.
           Ok (of_nat (le_val bs), f\<lparr>pos := new_pos\<rparr>)))"

definition readU64LE :: "binfile \<Rightarrow> (u64 \<times> binfile) outcome" where
  "readU64LE f =
     (let new_pos = pos f + 8
      in if new_pos > fsize f then Throw (pos_error f new_pos)
         else bind_o (bytes_at f (pos f) 8) (\<lambda>bs.
           Ok (of_nat (le_val bs), f\<lparr>pos := new_pos\<rparr>)))"

text \<open>\<open>read\<close> returns a pointer into the file.\<close>

definition read :: "u64 \<Rightarrow> binfile \<Rightarrow> (u64 \<times> binfile) outcome" where
  "read len f =
     (let new_pos = pos f + len
      in if new_pos > fsize f then Throw (pos_error f new_pos)
         else Ok (addr f + pos f, f\<lparr>pos := new_pos\<rparr>))"

section \<open>Opening a file\<close>

text \<open>The entry of a section in the table, and the step over its contents.\<close>

definition add_section :: "u32 \<Rightarrow> u64 \<Rightarrow> binfile \<Rightarrow> binfile" where
  "add_section sType sSize f =
     (let secs = (case sections f sType of None \<Rightarrow> [] | Some l \<Rightarrow> l);
          f = f\<lparr>sections := (sections f)(sType \<mapsto> secs @ [\<lparr>start = addr f + pos f, ssize = sSize\<rparr>])\<rparr>
      in f\<lparr>pos := pos f + sSize\<rparr>)"

text \<open>The loop over the sections; \<open>i\<close> is the loop counter and \<open>n\<close> the number of iterations
  left.\<close>

fun readSections :: "u32 \<Rightarrow> nat \<Rightarrow> binfile \<Rightarrow> binfile outcome" where
  "readSections i 0 f = Ok f"
| "readSections i (Suc n) f =
     bind_o (readU32LE f) (\<lambda>(sType, f).
     bind_o (readU64LE f) (\<lambda>(sSize, f).
       let f = add_section sType sSize f
       in if pos f > fsize f
          then Throw (range_error (''Section #'' @ to_string i @ '' is invalid.''
            @ ''. It ends at pos '' @ to_string (pos f)
            @ '' but should end before '' @ to_string (fsize f) @ ''.''))
          else readSections (i + 1) n f))"

definition readFileData :: "string \<Rightarrow> u32 \<Rightarrow> binfile \<Rightarrow> binfile outcome" where
  "readFileData type maxVersion f =
     (let headerSize = 12;
          minSectionSize = 12
      in if fsize f < headerSize then Throw (range_error ''File is too short.'')
         else bind_o (bytes_at f 0 4) (\<lambda>bs.
           let f = f\<lparr>ftype := map (\<lambda>b. char_of (unat b)) bs, pos := 4\<rparr>
           in if ftype f \<noteq> type
              then Throw (invalid_argument (''Invalid file type. It should be '' @ type
                @ '' and it is '' @ ftype f))
              else bind_o (readU32LE f) (\<lambda>(v, f).
                let f = f\<lparr>version := v\<rparr>
                in if v > maxVersion
                   then Throw (invalid_argument (''Invalid version. It should be <='' @ to_string maxVersion
                     @ '' and it is '' @ to_string v))
                   else bind_o (readU32LE f) (\<lambda>(nSections, f).
                     if fsize f < headerSize + ucast nSections * minSectionSize
                     then Throw (range_error (''File is too short to contain '' @ to_string nSections
                       @ '' sections.''))
                     else bind_o (readSections 0 (unat nSections) f) (\<lambda>f.
                       Ok (f\<lparr>pos := 0, readingSection := None\<rparr>))))))"

text \<open>The constructor on a buffer. The members that the constructor leaves uninitialised have
  some value.\<close>

definition BinFile :: "u8 list \<Rightarrow> u64 \<Rightarrow> u64 \<Rightarrow> string \<Rightarrow> u32 \<Rightarrow> binfile outcome" where
  "BinFile fileData address fileSize type maxVersion =
     readFileData type maxVersion \<lparr>fdata = fileData, addr = address, fsize = fileSize, pos = 0,
       sections = Map.empty, ftype = [], version = 0, readingSection = None\<rparr>"

section \<open>Access to the sections\<close>

definition no_section :: "u32 \<Rightarrow> exn" where
  "no_section sectionId = range_error (''Section does not exist: '' @ to_string sectionId)"

definition section_pos_error :: "sect list \<Rightarrow> u32 \<Rightarrow> exn" where
  "section_pos_error l sectionPos = range_error (''Section pos too big. There are ''
     @ digits (length l) @ '' and it's trying to access section: '' @ to_string sectionPos)"

definition startReadSection :: "u32 \<Rightarrow> u32 \<Rightarrow> binfile \<Rightarrow> binfile outcome" where
  "startReadSection sectionId sectionPos f =
     (case sections f sectionId of
        None \<Rightarrow> Throw (no_section sectionId)
      | Some l \<Rightarrow>
          if unat sectionPos \<ge> length l then Throw (section_pos_error l sectionPos)
          else if readingSection f \<noteq> None then Throw (range_error ''Already reading a section'')
          else Ok (f\<lparr>pos := start (l ! unat sectionPos) - addr f,
                     readingSection := Some (l ! unat sectionPos)\<rparr>))"

definition endReadSection :: "bool \<Rightarrow> binfile \<Rightarrow> binfile outcome" where
  "endReadSection check f =
     (if check
      then case readingSection f of
             None \<Rightarrow> Undef
           | Some sec \<Rightarrow>
               if addr f + pos f - start sec \<noteq> ssize sec
               then Throw (range_error ''Invalid section size'')
               else Ok (f\<lparr>readingSection := None\<rparr>)
      else Ok (f\<lparr>readingSection := None\<rparr>))"

definition getSectionData :: "u32 \<Rightarrow> u32 \<Rightarrow> binfile \<Rightarrow> u64 outcome" where
  "getSectionData sectionId sectionPos f =
     (case sections f sectionId of
        None \<Rightarrow> Throw (no_section sectionId)
      | Some l \<Rightarrow>
          if unat sectionPos \<ge> length l then Throw (section_pos_error l sectionPos)
          else Ok (start (l ! unat sectionPos)))"

definition getSectionSize :: "u32 \<Rightarrow> u32 \<Rightarrow> binfile \<Rightarrow> u64 outcome" where
  "getSectionSize sectionId sectionPos f =
     (case sections f sectionId of
        None \<Rightarrow> Throw (no_section sectionId)
      | Some l \<Rightarrow>
          if unat sectionPos \<ge> length l then Throw (section_pos_error l sectionPos)
          else Ok (ssize (l ! unat sectionPos)))"

section \<open>The invariant of the file object\<close>

text \<open>The size is the number of bytes and no sum of a position and a 32-bit amount wraps; the
  position is inside the file; every recorded section starts inside the file and its end,
  computed with wrap-around, is inside the file too.\<close>

definition sect_ok :: "binfile \<Rightarrow> sect \<Rightarrow> bool" where
  "sect_ok f sec \<longleftrightarrow> start sec - addr f \<le> fsize f \<and> start sec - addr f + ssize sec \<le> fsize f"

definition bf_ok :: "binfile \<Rightarrow> bool" where
  "bf_ok f \<longleftrightarrow> length (fdata f) < 2 ^ 63 \<and> fsize f = of_nat (length (fdata f)) \<and> pos f \<le> fsize f
     \<and> (\<forall>k l sec. sections f k = Some l \<longrightarrow> sec \<in> set l \<longrightarrow> sect_ok f sec)
     \<and> (\<forall>sec. readingSection f = Some sec \<longrightarrow> sect_ok f sec)"

lemma unat_fsize: "bf_ok f \<Longrightarrow> unat (fsize f) = length (fdata f)"
  by (auto simp: bf_ok_def unat_of_nat)

lemma sect_ok_update [simp]:
  "sect_ok (f\<lparr>pos := p\<rparr>) sec = sect_ok f sec" "sect_ok (f\<lparr>sections := m\<rparr>) sec = sect_ok f sec"
  "sect_ok (f\<lparr>readingSection := r\<rparr>) sec = sect_ok f sec" "sect_ok (f\<lparr>version := v\<rparr>) sec = sect_ok f sec"
  by (simp_all add: sect_ok_def)

lemma bf_ok_version [simp]: "bf_ok (f\<lparr>version := w\<rparr>) \<longleftrightarrow> bf_ok f"
  by (simp add: bf_ok_def)

lemma unat_add_fits:
  assumes "bf_ok f" and "unat n < 2 ^ 63"
  shows "unat (pos f + n) = unat (pos f) + unat n"
proof -
  have "unat (pos f) \<le> length (fdata f)"
    using assms unat_fsize [OF assms(1)] by (auto simp: bf_ok_def word_le_nat_alt)
  then show ?thesis
    using assms unat_add_lem [of "pos f" n] by (simp add: bf_ok_def)
qed

lemma bf_ok_pos: "bf_ok f \<Longrightarrow> p \<le> fsize f \<Longrightarrow> bf_ok (f\<lparr>pos := p\<rparr>)"
  by (simp add: bf_ok_def)

lemma bytes_at_ok:
  assumes "bf_ok f" and "unat n < 2 ^ 63" and "\<not> fsize f < pos f + n"
  shows "bytes_at f (pos f) (unat n) = Ok (take (unat n) (drop (unat (pos f)) (fdata f)))"
  using assms unat_add_fits [of f n] unat_fsize [of f]
  by (simp add: bytes_at_def word_less_nat_alt)

lemma readU32LE_safe:
  "bf_ok f \<Longrightarrow> safely (readU32LE f) (\<lambda>(v, f'). bf_ok f' \<and> f' = f\<lparr>pos := pos f + 4\<rparr>)"
  using bytes_at_ok [of f 4] bf_ok_pos [of f "pos f + 4"]
  by (simp add: readU32LE_def Let_def not_less)

lemma readU64LE_safe:
  "bf_ok f \<Longrightarrow> safely (readU64LE f) (\<lambda>(v, f'). bf_ok f' \<and> f' = f\<lparr>pos := pos f + 8\<rparr>)"
  using bytes_at_ok [of f 8] bf_ok_pos [of f "pos f + 8"]
  by (simp add: readU64LE_def Let_def not_less)

lemma read_safe:
  "bf_ok f \<Longrightarrow> safely (read len f) (\<lambda>(p, f'). bf_ok f' \<and> p = addr f + pos f \<and> f' = f\<lparr>pos := pos f + len\<rparr>
    \<and> (unat len < 2 ^ 63 \<longrightarrow> unat (pos f) + unat len \<le> length (fdata f)))"
  using bf_ok_pos [of f "pos f + len"] unat_add_fits [of f len] unat_fsize [of f]
  by (auto simp: read_def Let_def not_less word_le_nat_alt)

lemma add_section_simps [simp]:
  "fdata (add_section k n f) = fdata f" "addr (add_section k n f) = addr f"
  "fsize (add_section k n f) = fsize f" "ftype (add_section k n f) = ftype f"
  "version (add_section k n f) = version f" "pos (add_section k n f) = pos f + n"
  "readingSection (add_section k n f) = readingSection f"
  "sections (add_section k n f) = (sections f)(k \<mapsto> (case sections f k of None \<Rightarrow> [] | Some l \<Rightarrow> l)
      @ [\<lparr>start = addr f + pos f, ssize = n\<rparr>])"
  by (simp_all add: add_section_def Let_def)

lemma bf_ok_add_section:
  assumes "bf_ok f" and "\<not> fsize f < pos f + n"
  shows "bf_ok (add_section k n f)"
proof -
  let ?new = "\<lparr>start = addr f + pos f, ssize = n\<rparr>"
  have new: "sect_ok f ?new" using assms by (auto simp: bf_ok_def sect_ok_def not_less)
  have same: "sect_ok (add_section k n f) = sect_ok f" by (simp add: fun_eq_iff sect_ok_def)
  have old: "sect_ok f sec" if "sections f k' = Some l" "sec \<in> set l" for k' l sec
    using assms(1) that by (simp add: bf_ok_def)
  have "sect_ok f sec" if "sections (add_section k n f) k' = Some l" "sec \<in> set l" for k' l sec
    using that new old by (cases "sections f k") (auto split: if_splits)
  then show ?thesis
    using assms unfolding bf_ok_def same by (simp add: not_less del: add_section_simps(8))
qed

text \<open>What parsing leaves as it is.\<close>

definition same_file :: "binfile \<Rightarrow> binfile \<Rightarrow> bool" where
  "same_file f f' \<longleftrightarrow> fdata f' = fdata f \<and> addr f' = addr f \<and> fsize f' = fsize f \<and> ftype f' = ftype f
     \<and> version f' = version f"

lemma readSections_safe:
  "bf_ok f \<Longrightarrow> safely (readSections i n f) (\<lambda>f'. bf_ok f' \<and> same_file f f')"
proof (induction n arbitrary: i f)
  case 0
  then show ?case by (simp add: same_file_def)
next
  case (Suc n)
  have "safely (readSections (i + 1) n (add_section sType sSize f2)) (\<lambda>f'. bf_ok f' \<and> same_file f f')"
    if "bf_ok f2" "f2 = f\<lparr>pos := 12 + pos f\<rparr>" "\<not> fsize f2 < pos f2 + sSize" for f2 sType sSize
    using Suc.IH [OF bf_ok_add_section [OF that(1,3)], of "i + 1" sType] that(2)
    by (simp add: same_file_def)
  then show ?case
    by (auto simp: Let_def intro!: safely_bind [OF readU32LE_safe [OF Suc.prems]]
      safely_bind [OF readU64LE_safe])
qed

text \<open>The constructor never reads outside the buffer, and the object it returns satisfies the
  invariant.\<close>

lemma BinFile_safe:
  assumes "length bytes < 2 ^ 63"
  shows "safely (BinFile bytes a (of_nat (length bytes)) type maxv) (\<lambda>f. bf_ok f \<and> fdata f = bytes
    \<and> addr f = a \<and> ftype f = type \<and> version f \<le> maxv \<and> readingSection f = None)"
proof -
  define f0 where "f0 = \<lparr>fdata = bytes, addr = a, fsize = of_nat (length bytes), pos = 0,
       sections = Map.empty, ftype = [], version = 0, readingSection = None\<rparr>"
  have u: "unat (of_nat (length bytes) :: u64) = length bytes"
    using assms by (simp add: unat_of_nat)
  have f0: "bf_ok f0" using assms by (simp add: bf_ok_def f0_def)
  have secs: "safely (bind_o (readSections 0 n f) (\<lambda>f. Ok (f\<lparr>pos := 0, readingSection := None\<rparr>)))
      (\<lambda>f'. bf_ok f' \<and> same_file f f' \<and> readingSection f' = None)" if "bf_ok f" for f n
    by (rule safely_bind [OF readSections_safe [OF that]]) (auto simp: bf_ok_def same_file_def)
  show ?thesis
  proof (cases "(of_nat (length bytes) :: u64) < 12")
    case True
    then show ?thesis by (simp add: BinFile_def readFileData_def Let_def)
  next
    case False
    then have len: "12 \<le> length bytes" using u by (simp add: word_less_nat_alt)
    have b: "bytes_at f0 0 4 = Ok (take 4 bytes)" using len by (simp add: bytes_at_def f0_def)
    have ok: "bf_ok (f0\<lparr>ftype := t, pos := 4\<rparr>)" for t
      using f0 len u by (simp add: bf_ok_def f0_def word_le_nat_alt)
    have d: "fdata f0 = bytes" "addr f0 = a" by (simp_all add: f0_def)
    show ?thesis
      unfolding BinFile_def f0_def [symmetric] readFileData_def Let_def
      using False b
      by (auto simp: d not_less f0_def [symmetric] intro!: safely_bind [OF readU32LE_safe [OF ok]]
        safely_bind [OF readU32LE_safe] safely_mono [OF secs] simp: same_file_def)
  qed
qed

section \<open>Files as lists of sections\<close>

text \<open>The abstract contents of a file: its sections in order, each a type and its bytes. The
  encoding is the layout the format prescribes.\<close>

definition encode_section :: "u32 \<times> u8 list \<Rightarrow> u8 list" where
  "encode_section s = le_bytes 4 (unat (fst s)) @ le_bytes 8 (length (snd s)) @ snd s"

definition encode_file :: "string \<Rightarrow> u32 \<Rightarrow> (u32 \<times> u8 list) list \<Rightarrow> u8 list" where
  "encode_file type v secs =
     map (\<lambda>c. of_nat (of_char c)) type @ le_bytes 4 (unat v) @ le_bytes 4 (length secs)
       @ concat (map encode_section secs)"

text \<open>The bytes of a recorded section, and of all sections of a type in order.\<close>

definition sec_bytes :: "binfile \<Rightarrow> sect \<Rightarrow> (u8 list) outcome" where
  "sec_bytes f sec = bytes_at f (start sec - addr f) (unat (ssize sec))"

definition secs_bytes :: "binfile \<Rightarrow> u32 \<Rightarrow> (u8 list) outcome list" where
  "secs_bytes f k = map (sec_bytes f) (case sections f k of None \<Rightarrow> [] | Some l \<Rightarrow> l)"

definition payloads :: "u32 \<Rightarrow> (u32 \<times> u8 list) list \<Rightarrow> u8 list list" where
  "payloads k secs = map snd (filter (\<lambda>s. fst s = k) secs)"

lemma sec_bytes_update [simp]:
  "sec_bytes (f\<lparr>pos := p\<rparr>) = sec_bytes f" "sec_bytes (f\<lparr>readingSection := r\<rparr>) = sec_bytes f"
  "sec_bytes (f\<lparr>version := v\<rparr>) = sec_bytes f"
  by (simp_all add: fun_eq_iff sec_bytes_def bytes_at_def)

lemma unat_u64: "n < 2 ^ 64 \<Longrightarrow> unat (of_nat n :: u64) = n"
  by (simp add: unat_of_nat)

lemma read_le:
  assumes "bf_ok f" and "fdata f = pre @ le_bytes 4 v @ rest" and "pos f = of_nat (length pre)" and "v < 2 ^ 32"
  shows "readU32LE f = Ok (of_nat v, f\<lparr>pos := of_nat (length pre + 4)\<rparr>)"
proof -
  have l: "length pre + 4 \<le> length (fdata f)" "length (fdata f) < 2 ^ 63"
    using assms(1,2) by (simp_all add: bf_ok_def)
  have u: "unat (pos f) = length pre" using l assms(3) by (simp add: unat_of_nat)
  have p: "pos f + 4 = of_nat (length pre + 4)" by (simp add: assms(3))
  have "\<not> fsize f < pos f + 4"
    using l unat_fsize [OF assms(1)] unat_u64 [of "length pre + 4"]
    unfolding p word_less_nat_alt by simp
  moreover have "bytes_at f (pos f) 4 = Ok (le_bytes 4 v)"
    using l u assms(2) by (simp add: bytes_at_def)
  ultimately show ?thesis using assms(4) by (simp add: readU32LE_def Let_def p)
qed

lemma read_le64:
  assumes "bf_ok f" and "fdata f = pre @ le_bytes 8 v @ rest" and "pos f = of_nat (length pre)" and "v < 2 ^ 64"
  shows "readU64LE f = Ok (of_nat v, f\<lparr>pos := of_nat (length pre + 8)\<rparr>)"
proof -
  have l: "length pre + 8 \<le> length (fdata f)" "length (fdata f) < 2 ^ 63"
    using assms(1,2) by (simp_all add: bf_ok_def)
  have u: "unat (pos f) = length pre" using l assms(3) by (simp add: unat_of_nat)
  have p: "pos f + 8 = of_nat (length pre + 8)" by (simp add: assms(3))
  have "\<not> fsize f < pos f + 8"
    using l unat_fsize [OF assms(1)] unat_u64 [of "length pre + 8"]
    unfolding p word_less_nat_alt by simp
  moreover have "bytes_at f (pos f) 8 = Ok (le_bytes 8 v)"
    using l u assms(2) by (simp add: bytes_at_def)
  ultimately show ?thesis using assms(4) by (simp add: readU64LE_def Let_def p)
qed

lemma bf_ok_of_nat: "bf_ok f \<Longrightarrow> n \<le> length (fdata f) \<Longrightarrow> bf_ok (f\<lparr>pos := of_nat n\<rparr>)"
  by (auto simp: bf_ok_def word_le_nat_alt unat_of_nat intro: order_le_less_trans)

lemma secs_bytes_add:
  assumes "pos f = of_nat (length pre)" and "fdata f = pre @ p @ rest" and "length (fdata f) < 2 ^ 63"
  shows "secs_bytes (add_section t (of_nat (length p)) f) k = secs_bytes f k @ (if k = t then [Ok p] else [])"
proof -
  have "unat (of_nat (length p) :: u64) = length p" "unat (pos f) = length pre"
    using assms by (simp_all add: unat_of_nat)
  then have new: "sec_bytes (add_section t (of_nat (length p)) f) \<lparr>start = addr f + pos f, ssize = of_nat (length p)\<rparr> = Ok p"
    using assms(2) by (simp add: sec_bytes_def bytes_at_def)
  have "sec_bytes (add_section t (of_nat (length p)) f) = sec_bytes f"
    by (simp add: fun_eq_iff sec_bytes_def bytes_at_def)
  with new show ?thesis by (simp add: secs_bytes_def split: option.splits)
qed

text \<open>The loop over the first sections of a file; \<open>m\<close> iterations are left.\<close>

lemma readSections_prefix:
  assumes "bf_ok f" and "fdata f = pre @ concat (map encode_section secs) @ post" and "pos f = of_nat (length pre)"
  shows "\<exists>f'. readSections i (length secs + m) f = readSections (i + of_nat (length secs)) m f' \<and> bf_ok f' \<and> same_file f f'
    \<and> pos f' = of_nat (length pre + length (concat (map encode_section secs)))
    \<and> (\<forall>k. secs_bytes f' k = secs_bytes f k @ map Ok (payloads k secs))"
  using assms
proof (induction secs arbitrary: i f pre)
  case Nil
  then show ?case by (intro exI [of _ f]) (simp add: same_file_def payloads_def)
next
  case (Cons s secs)
  obtain t p where s: "s = (t, p)" by (cases s)
  let ?rest = "concat (map encode_section secs) @ post"
  have fd: "fdata f = pre @ le_bytes 4 (unat t) @ le_bytes 8 (length p) @ p @ ?rest"
    using Cons.prems(2) encode_section_def [of s] by (simp add: s)
  have len: "length (fdata f) < 2 ^ 63" using Cons.prems(1) by (simp add: bf_ok_def)
  then have lp: "length pre + 12 + length p \<le> length (fdata f)" "length p < 2 ^ 63" using fd by simp_all
  define f1 where "f1 = f\<lparr>pos := of_nat (length pre + 4)\<rparr>"
  define f2 where "f2 = f\<lparr>pos := of_nat (length pre + 12)\<rparr>"
  define f3 where "f3 = add_section t (of_nat (length p)) f2"
  have r1: "readU32LE f = Ok (t, f1)"
    using read_le [OF Cons.prems(1) fd Cons.prems(3)] unsigned_less [of t] by (simp add: f1_def)
  have f1: "bf_ok f1" using bf_ok_of_nat [OF Cons.prems(1), of "length pre + 4"] lp by (simp add: f1_def)
  have r2: "readU64LE f1 = Ok (of_nat (length p), f2)"
    using read_le64 [OF f1, of "pre @ le_bytes 4 (unat t)" "length p" "p @ ?rest"] fd lp
    by (simp add: f1_def f2_def add.commute)
  have f2: "bf_ok f2" using bf_ok_of_nat [OF Cons.prems(1), of "length pre + 12"] lp by (simp add: f2_def)
  have pos3: "pos f3 = of_nat (length (pre @ encode_section s))"
    by (simp add: f3_def f2_def s encode_section_def)
  have le: "\<not> fsize f2 < pos f2 + of_nat (length p)"
    using lp len unat_fsize [OF f2]
    by (simp add: f2_def word_less_nat_alt unat_of_nat flip: of_nat_add)
  have step: "readSections i (length (s # secs) + m) f = readSections (i + 1) (length secs + m) f3"
    using le by (simp add: r1 r2 Let_def f3_def)
  have f3: "bf_ok f3" unfolding f3_def by (rule bf_ok_add_section [OF f2 le])
  have "fdata f3 = (pre @ encode_section s) @ ?rest"
    using Cons.prems(2) by (simp add: f3_def f2_def)
  from Cons.IH [OF f3 this pos3, of "i + 1"] obtain f' where
    f': "readSections (i + 1) (length secs + m) f3 = readSections (i + 1 + of_nat (length secs)) m f'" "bf_ok f'" "same_file f3 f'"
    "pos f' = of_nat (length (pre @ encode_section s) + length (concat (map encode_section secs)))"
    "\<forall>k. secs_bytes f' k = secs_bytes f3 k @ map Ok (payloads k secs)" by blast
  have "secs_bytes f3 k = secs_bytes f k @ (if k = t then [Ok p] else [])" for k
    using secs_bytes_add [of f2 "pre @ le_bytes 4 (unat t) @ le_bytes 8 (length p)" p ?rest t k] fd len
    by (simp add: f3_def f2_def secs_bytes_def)
  then have "secs_bytes f' k = secs_bytes f k @ map Ok (payloads k (s # secs))" for k
    using f'(5) by (simp add: payloads_def s)
  moreover have "same_file f f'" using f'(3) by (simp add: same_file_def f3_def f2_def)
  moreover have "i + 1 + of_nat (length secs) = i + of_nat (length (s # secs))" by simp
  moreover have "pos f' = of_nat (length pre + length (concat (map encode_section (s # secs))))"
    using f'(4) by (simp add: add.assoc)
  ultimately show ?case unfolding step using f'(1,2) by metis
qed

lemma readSections_encode:
  assumes "bf_ok f" and "fdata f = pre @ concat (map encode_section secs)" and "pos f = of_nat (length pre)"
  shows "\<exists>f'. readSections i (length secs) f = Ok f' \<and> bf_ok f' \<and> same_file f f'
    \<and> (\<forall>k. secs_bytes f' k = secs_bytes f k @ map Ok (payloads k secs))"
  using readSections_prefix [of f pre secs "[]" i 0] assms by auto

lemma length_encode_sections: "12 * length secs \<le> length (concat (map encode_section secs))"
  by (induction secs) (simp_all add: encode_section_def)

lemma char_byte: "char_of (unat (of_nat (of_char c) :: u8)) = c"
  by (simp add: unat_of_nat_u8)

text \<open>The header of a file with \<open>n\<close> sections, and what the constructor does after it.\<close>

definition file_header :: "string \<Rightarrow> u32 \<Rightarrow> nat \<Rightarrow> u8 list" where
  "file_header type v n = map (\<lambda>c. of_nat (of_char c)) type @ le_bytes 4 (unat v) @ le_bytes 4 n"

definition after_header :: "string \<Rightarrow> u32 \<Rightarrow> u64 \<Rightarrow> u8 list \<Rightarrow> binfile" where
  "after_header type v a bytes = \<lparr>fdata = bytes, addr = a, fsize = of_nat (length bytes), pos = of_nat 12,
     sections = Map.empty, ftype = type, version = v, readingSection = None\<rparr>"

lemma length_file_header: "length type = 4 \<Longrightarrow> length (file_header type v n) = 12"
  by (simp add: file_header_def)

lemma encode_file_header: "encode_file type v secs = file_header type v (length secs) @ concat (map encode_section secs)"
  by (simp add: encode_file_def file_header_def)

lemma BinFile_header:
  assumes "length type = 4" and "v \<le> maxv" and "n < 2 ^ 32" and "bytes = file_header type v n @ rest"
    and "12 * n \<le> length rest" and "length bytes < 2 ^ 63"
  shows "bf_ok (after_header type v a bytes)"
    and "BinFile bytes a (of_nat (length bytes)) type maxv
      = bind_o (readSections 0 n (after_header type v a bytes)) (\<lambda>f. Ok (f\<lparr>pos := 0, readingSection := None\<rparr>))"
proof -
  define hd where "hd = map (\<lambda>c. of_nat (of_char c) :: u8) type"
  have bytes: "bytes = hd @ le_bytes 4 (unat v) @ le_bytes 4 n @ rest"
    by (simp add: assms(4) file_header_def hd_def)
  have hd4: "length hd = 4" using assms(1) by (simp add: hd_def)
  have len: "length bytes < 2 ^ 63" "12 + 12 * n \<le> length bytes"
    using assms(5,6) hd4 by (simp_all add: bytes)
  define f0 where "f0 = \<lparr>fdata = bytes, addr = a, fsize = of_nat (length bytes), pos = 0,
       sections = Map.empty, ftype = type, version = 0, readingSection = None\<rparr>"
  have f0: "bf_ok f0" using len by (simp add: bf_ok_def f0_def)
  define f1 where "f1 = f0\<lparr>pos := of_nat 4\<rparr>"
  define f2 where "f2 = f0\<lparr>pos := of_nat 8, version := v\<rparr>"
  define f3 where "f3 = f2\<lparr>pos := of_nat 12\<rparr>"
  have ok: "bf_ok f1" "bf_ok (f0\<lparr>pos := of_nat 8\<rparr>)"
    using bf_ok_of_nat [OF f0, of 4] bf_ok_of_nat [OF f0, of 8] len by (simp_all add: f1_def f0_def)
  then have ok2: "bf_ok f2" by (simp add: f2_def)
  then have ok3: "bf_ok f3" using bf_ok_of_nat [OF ok2, of 12] len by (simp add: f3_def f2_def f0_def)
  have f3: "f3 = after_header type v a bytes" by (simp add: f3_def f2_def f0_def after_header_def)
  show "bf_ok (after_header type v a bytes)" using ok3 by (simp only: f3)
  have r1: "readU32LE f1 = Ok (v, f0\<lparr>pos := of_nat 8\<rparr>)"
    using read_le [OF ok(1), of hd "unat v"] hd4 unsigned_less [of v] by (simp add: f1_def f0_def bytes)
  have r2: "readU32LE f2 = Ok (of_nat n, f3)"
    using read_le [OF ok2, of "hd @ le_bytes 4 (unat v)" n] hd4 assms(3)
    by (simp add: f3_def f2_def f0_def bytes)
  have un: "unat (of_nat n :: u32) = n" using assms(3) by (simp add: unat_of_nat)
  have "12 + ucast (of_nat n :: u32) * 12 = (of_nat (12 + 12 * n) :: u64)"
    using assms(3) by (simp add: unsigned_of_nat take_bit_nat_eq_self)
  then have enough: "\<not> fsize f3 < 12 + ucast (of_nat n :: u32) * 12"
    using len assms(3) unat_u64 [of "12 + 12 * n"] unat_u64 [of "length bytes"]
    by (simp only: word_less_nat_alt f3_def f2_def f0_def) simp
  have "take 4 bytes = hd" using hd4 by (simp add: bytes)
  moreover have "map (\<lambda>b. char_of (unat b)) hd = type" by (simp add: hd_def char_byte o_def map_idI)
  moreover have "\<not> (of_nat (length bytes) :: u64) < 12"
    using len unat_u64 [of "length bytes"] by (simp add: word_less_nat_alt)
  ultimately show "BinFile bytes a (of_nat (length bytes)) type maxv
      = bind_o (readSections 0 n (after_header type v a bytes)) (\<lambda>f. Ok (f\<lparr>pos := 0, readingSection := None\<rparr>))"
    using len r1 r2 enough leD [OF assms(2)] un
    by (simp add: BinFile_def readFileData_def Let_def bytes_at_def f0_def f1_def f2_def f3 [symmetric])
qed

lemma BinFile_encode:
  assumes "length type = 4" and "v \<le> maxv" and "length secs < 2 ^ 32"
    and "length (encode_file type v secs) < 2 ^ 63"
  shows "\<exists>f. BinFile (encode_file type v secs) a (of_nat (length (encode_file type v secs))) type maxv = Ok f
    \<and> bf_ok f \<and> version f = v \<and> (\<forall>k. secs_bytes f k = map Ok (payloads k secs))"
proof -
  let ?f = "after_header type v a (encode_file type v secs)"
  note h = BinFile_header [OF assms(1-3) encode_file_header length_encode_sections assms(4), of a]
  obtain f' where f': "readSections 0 (length secs) ?f = Ok f'" "bf_ok f'" "same_file ?f f'"
      "\<forall>k. secs_bytes f' k = secs_bytes ?f k @ map Ok (payloads k secs)"
    using readSections_encode [OF h(1), of "file_header type v (length secs)" secs 0] length_file_header [OF assms(1)]
    by (auto simp: after_header_def encode_file_header)
  let ?g = "f'\<lparr>pos := 0, readingSection := None\<rparr>"
  have "bf_ok ?g" using f'(2) by (simp add: bf_ok_def)
  moreover have "secs_bytes ?g k = map Ok (payloads k secs)" for k
    using f'(4) by (simp add: secs_bytes_def after_header_def)
  moreover have "version ?g = v" using f'(3) by (simp add: same_file_def after_header_def)
  ultimately show ?thesis unfolding h(2) f'(1) by (intro exI [of _ ?g]) simp
qed

text \<open>A file that ends with a section whose size is any 64-bit number: the loop compares the end of the section, computed with
  wrap-around, with the size of the file.\<close>

lemma last_section:
  assumes f: "bf_ok f" "fdata f = pre @ le_bytes 4 (unat k) @ le_bytes 8 (unat n) @ rest" "pos f = of_nat (length pre)"
  shows "\<exists>g. bf_ok g \<and> same_file f g \<and> sections g = sections f \<and> pos g = of_nat (length pre + 12)
    \<and> (if unat n \<le> length rest \<or> 2 ^ 64 \<le> length pre + 12 + unat n
       then readSections i (Suc 0) f = Ok (add_section k n g) else \<exists>e. readSections i (Suc 0) f = Throw (range_error e))"
proof -
  let ?p = "length pre + 12"
  define f1 where "f1 = f\<lparr>pos := of_nat (length pre + 4)\<rparr>"
  define g where "g = f\<lparr>pos := of_nat ?p\<rparr>"
  have len: "length (fdata f) < 2 ^ 63" using f(1) by (simp add: bf_ok_def)
  have l: "?p + length rest = length (fdata f)" using f(2) by simp
  have r1: "readU32LE f = Ok (k, f1)"
    using read_le [OF f] unsigned_less [of k] by (simp add: f1_def)
  have f1: "bf_ok f1" using bf_ok_of_nat [OF f(1), of "length pre + 4"] l by (simp add: f1_def)
  have r2: "readU64LE f1 = Ok (n, g)"
  proof -
    have "fdata f1 = (pre @ le_bytes 4 (unat k)) @ le_bytes 8 (unat n) @ rest" by (simp add: f1_def f(2))
    moreover have "pos f1 = of_nat (length (pre @ le_bytes 4 (unat k)))" by (simp add: f1_def)
    moreover have "f1\<lparr>pos := of_nat (length (pre @ le_bytes 4 (unat k)) + 8)\<rparr> = g" by (simp add: f1_def g_def add.assoc)
    moreover have "unat n < 2 ^ 64" using unsigned_less [of n, where ?'a = nat] by simp
    ultimately show ?thesis using read_le64 [OF f1, of "pre @ le_bytes 4 (unat k)" "unat n" rest] by simp
  qed
  have g: "bf_ok g" using bf_ok_of_nat [OF f(1), of ?p] l by (simp add: g_def)
  have s: "unat (fsize g) = ?p + length rest" using unat_fsize [OF g] l by (simp add: g_def)
  have p: "unat (pos g) = ?p"
  proof -
    have "pos g = of_nat ?p" by (simp add: g_def)
    moreover have "?p < 2 ^ 64" using l len by simp
    ultimately show ?thesis by (simp only: unat_u64)
  qed
  have n: "unat n < 2 ^ 64" using unsigned_less [of n, where ?'a = nat] by simp
  have e: "unat (pos g + n) = (?p + unat n) mod 2 ^ 64" by (simp add: unat_word_ariths p)
  have "fsize g < pos g + n \<longleftrightarrow> \<not> (unat n \<le> length rest \<or> 2 ^ 64 \<le> ?p + unat n)"
  proof (cases "2 ^ 64 \<le> ?p + unat n")
    case True
    then have "(?p + unat n) mod 2 ^ 64 = ?p + unat n - 2 ^ 64"
      using n l len by (subst le_mod_geq) simp_all
    then have "unat (pos g + n) < ?p" using e n True by linarith
    then show ?thesis using True s by (simp add: word_less_nat_alt)
  next
    case False
    then show ?thesis using e s by (auto simp: word_less_nat_alt)
  qed
  then have "if unat n \<le> length rest \<or> 2 ^ 64 \<le> ?p + unat n
       then readSections i (Suc 0) f = Ok (add_section k n g) else \<exists>e. readSections i (Suc 0) f = Throw (range_error e)"
    using r1 r2 by (simp add: Let_def)
  moreover have "same_file f g \<and> sections g = sections f \<and> pos g = of_nat ?p" by (simp add: g_def same_file_def)
  ultimately show ?thesis using g by blast
qed

section \<open>Reading a section\<close>

lemma startReadSection_safe:
  "bf_ok f \<Longrightarrow> safely (startReadSection k i f) (\<lambda>f'. bf_ok f' \<and> readingSection f' \<noteq> None
    \<and> fdata f' = fdata f \<and> addr f' = addr f \<and> sections f' = sections f)"
proof -
  assume f: "bf_ok f"
  show ?thesis
  proof (cases "sections f k")
    case (Some l)
    have "sect_ok f (l ! unat i)" if "unat i < length l"
      using f Some nth_mem [OF that] by (auto simp: bf_ok_def)
    then show ?thesis
      using f Some by (auto simp: startReadSection_def bf_ok_def not_le sect_ok_def)
  qed (simp add: startReadSection_def)
qed

lemma endReadSection_safe:
  "bf_ok f \<Longrightarrow> readingSection f \<noteq> None \<Longrightarrow> safely (endReadSection c f) (\<lambda>f'. bf_ok f'
    \<and> f' = f\<lparr>readingSection := None\<rparr>)"
  by (auto simp: endReadSection_def bf_ok_def split: option.splits)

lemma getSection_safe:
  "bf_ok f \<Longrightarrow> safely (getSectionData k i f) (\<lambda>p. p - addr f \<le> fsize f)"
  "safely (getSectionSize k i f) (\<lambda>_. True)"
proof -
  show "safely (getSectionData k i f) (\<lambda>p. p - addr f \<le> fsize f)" if f: "bf_ok f"
  proof (cases "sections f k")
    case (Some l)
    have "sect_ok f (l ! unat i)" if "unat i < length l"
      using f Some nth_mem [OF that] by (auto simp: bf_ok_def)
    then show ?thesis using Some by (auto simp: getSectionData_def not_le sect_ok_def)
  qed (simp add: getSectionData_def)
  show "safely (getSectionSize k i f) (\<lambda>_. True)"
    by (simp add: getSectionSize_def split: option.splits)
qed

end
