(* ===== verification/Headers.thy ===== *)
theory Headers
  imports BinFile
begin

text \<open>
  The headers of the key and witness files (\<open>src/zkey_utils.cpp\<close>, \<open>src/wtns_utils.cpp\<close>) and the
  loader that maps a file (\<open>src/fileloader.cpp\<close>). GMP's \<open>mpz_import\<close> is a parameter \<open>imp\<close> of the
  header readers; with the arguments the code passes it reads a little-endian number. The
  calls of the operating system that the loader makes are parameters too, given by their
  results.
\<close>

section \<open>The key header\<close>

record zkey_header =
  n8q :: u32
  qPrime :: int
  n8r :: u32
  rPrime :: int
  nVars :: u32
  nPublic :: u32
  domainSize :: u32
  nCoefs :: u64
  vk_alpha1 :: u64
  vk_beta1 :: u64
  vk_beta2 :: u64
  vk_gamma2 :: u64
  vk_delta1 :: u64
  vk_delta2 :: u64

text \<open>\<open>mpz_import(r, n, -1, 1, -1, 0, f->read(n))\<close>.\<close>

definition import_read :: "(u8 list \<Rightarrow> int) \<Rightarrow> u32 \<Rightarrow> binfile \<Rightarrow> (int \<times> binfile) outcome" where
  "import_read imp n f =
     bind_o (read (ucast n) f) (\<lambda>(p, f).
     bind_o (bytes_at f (p - addr f) (unat n)) (\<lambda>bs.
     Ok (imp bs, f)))"

definition zkey_loadHeader :: "(u8 list \<Rightarrow> int) \<Rightarrow> binfile \<Rightarrow> (zkey_header \<times> binfile) outcome" where
  "zkey_loadHeader imp f =
     bind_o (startReadSection 1 0 f) (\<lambda>f.
     bind_o (readU32LE f) (\<lambda>(protocol, f).
     if protocol \<noteq> 1 then Throw (invalid_argument ''zkey file is not groth16'')
     else
     bind_o (endReadSection True f) (\<lambda>f.
     bind_o (startReadSection 2 0 f) (\<lambda>f.
     bind_o (readU32LE f) (\<lambda>(q8, f).
     bind_o (import_read imp q8 f) (\<lambda>(q, f).
     bind_o (readU32LE f) (\<lambda>(r8, f).
     bind_o (import_read imp r8 f) (\<lambda>(r, f).
     bind_o (readU32LE f) (\<lambda>(vars, f).
     bind_o (readU32LE f) (\<lambda>(pub, f).
     bind_o (readU32LE f) (\<lambda>(dom, f).
     bind_o (read (ucast (q8 * 2)) f) (\<lambda>(alpha1, f).
     bind_o (read (ucast (q8 * 2)) f) (\<lambda>(beta1, f).
     bind_o (read (ucast (q8 * 4)) f) (\<lambda>(beta2, f).
     bind_o (read (ucast (q8 * 4)) f) (\<lambda>(gamma2, f).
     bind_o (read (ucast (q8 * 2)) f) (\<lambda>(delta1, f).
     bind_o (read (ucast (q8 * 4)) f) (\<lambda>(delta2, f).
     bind_o (endReadSection True f) (\<lambda>f.
     bind_o (getSectionSize 4 0 f) (\<lambda>size4.
     if 12 + r8 = 0 then Undef
     else Ok (\<lparr>n8q = q8, qPrime = q, n8r = r8, rPrime = r, nVars = vars, nPublic = pub,
               domainSize = dom, nCoefs = size4 div ucast (12 + r8),
               vk_alpha1 = alpha1, vk_beta1 = beta1, vk_beta2 = beta2, vk_gamma2 = gamma2,
               vk_delta1 = delta1, vk_delta2 = delta2\<rparr>, f))))))))))))))))))))"

section \<open>The witness header\<close>

record wtns_header =
  n8 :: u32
  prime :: int
  wtns_nVars :: u32

definition wtns_loadHeader :: "(u8 list \<Rightarrow> int) \<Rightarrow> binfile \<Rightarrow> (wtns_header \<times> binfile) outcome" where
  "wtns_loadHeader imp f =
     bind_o (startReadSection 1 0 f) (\<lambda>f.
     bind_o (readU32LE f) (\<lambda>(n, f).
     bind_o (import_read imp n f) (\<lambda>(p, f).
     bind_o (readU32LE f) (\<lambda>(vars, f).
     bind_o (endReadSection True f) (\<lambda>f.
     Ok (\<lparr>n8 = n, prime = p, wtns_nVars = vars\<rparr>, f))))))"

section \<open>Memory safety of the header readers\<close>

text \<open>An open section: what holds between \<open>startReadSection\<close> and \<open>endReadSection\<close>.\<close>

definition reading :: "binfile \<Rightarrow> binfile \<Rightarrow> bool" where
  "reading f0 f \<longleftrightarrow> bf_ok f \<and> readingSection f \<noteq> None \<and> fdata f = fdata f0 \<and> addr f = addr f0
     \<and> sections f = sections f0"

definition idle :: "binfile \<Rightarrow> binfile \<Rightarrow> bool" where
  "idle f0 f \<longleftrightarrow> bf_ok f \<and> fdata f = fdata f0 \<and> addr f = addr f0 \<and> sections f = sections f0"

text \<open>A block of bytes inside the file.\<close>

definition in_file :: "binfile \<Rightarrow> u64 \<Rightarrow> nat \<Rightarrow> bool" where
  "in_file f p n \<longleftrightarrow> unat (p - addr f) + n \<le> length (fdata f)"

lemma ucast_small: "unat (ucast (n :: u32) :: u64) = unat n" "unat (ucast (n :: u32) :: u64) < 2 ^ 63"
proof -
  have b: "unat n < 2 ^ 32" using unsigned_less [of n] by simp
  then show u: "unat (ucast n :: u64) = unat n" by (simp add: unsigned_ucast_eq take_bit_nat_eq_self)
  show "unat (ucast n :: u64) < 2 ^ 63" unfolding u using b by simp
qed

lemma start_reading: "idle f0 f \<Longrightarrow> safely (startReadSection k i f) (reading f0)"
  by (rule safely_mono [OF startReadSection_safe]) (auto simp: idle_def reading_def)

lemma end_reading: "reading f0 f \<Longrightarrow> safely (endReadSection c f) (idle f0)"
  by (rule safely_mono [OF endReadSection_safe]) (auto simp: idle_def reading_def)

lemma readU32_reading: "reading f0 f \<Longrightarrow> safely (readU32LE f) (\<lambda>(v, f'). reading f0 f')"
  by (rule safely_mono [OF readU32LE_safe]) (auto simp: reading_def)

lemma read_reading:
  assumes "reading f0 f"
  shows "safely (read (ucast (n :: u32)) f) (\<lambda>(p, f'). reading f0 f' \<and> in_file f0 p (unat n))"
proof (rule safely_mono [OF read_safe])
  show "bf_ok f" using assms by (simp add: reading_def)
qed (use assms ucast_small [of n] in \<open>auto simp: reading_def in_file_def\<close>)

lemma import_reading:
  assumes "reading f0 f"
  shows "safely (import_read imp n f) (\<lambda>(v, f'). reading f0 f' \<and> unat n \<le> length (fdata f0))"
  unfolding import_read_def
  by (rule safely_bind [OF read_reading [OF assms]])
    (auto simp: bytes_at_def in_file_def reading_def)

lemma zkey_loadHeader_safe:
  assumes "idle f0 f" and "length (fdata f0) < 2 ^ 32 - 12"
  shows "safely (zkey_loadHeader imp f) (\<lambda>(h, f'). idle f0 f'
    \<and> in_file f0 (vk_alpha1 h) (unat (n8q h * 2)) \<and> in_file f0 (vk_beta1 h) (unat (n8q h * 2))
    \<and> in_file f0 (vk_beta2 h) (unat (n8q h * 4)) \<and> in_file f0 (vk_gamma2 h) (unat (n8q h * 4))
    \<and> in_file f0 (vk_delta1 h) (unat (n8q h * 2)) \<and> in_file f0 (vk_delta2 h) (unat (n8q h * 4)))"
proof -
  have nz: "12 + r8 \<noteq> 0" if "unat (r8 :: u32) \<le> length (fdata f0)" for r8
  proof
    assume "12 + r8 = 0"
    then have "r8 = - 12" by (simp add: eq_neg_iff_add_eq_0 add.commute)
    then have "unat r8 = 2 ^ 32 - 12" by simp
    then show False using that assms(2) by simp
  qed
  show ?thesis
    unfolding zkey_loadHeader_def
    by (rule safely_bind [OF start_reading [OF assms(1)]])
      (auto intro!: safely_bind [OF readU32_reading] safely_bind [OF end_reading]
        safely_bind [OF start_reading] safely_bind [OF import_reading] safely_bind [OF read_reading]
        safely_bind [OF getSection_safe(2)] dest!: nz)
qed

lemma wtns_loadHeader_safe:
  assumes "idle f0 f"
  shows "safely (wtns_loadHeader imp f) (\<lambda>(h, f'). idle f0 f')"
  unfolding wtns_loadHeader_def
  by (rule safely_bind [OF start_reading [OF assms]])
    (auto intro!: safely_bind [OF readU32_reading] safely_bind [OF end_reading]
      safely_bind [OF import_reading])

section \<open>What the readers return on well-formed headers\<close>

text \<open>The computation returns and its result satisfies the postcondition.\<close>

definition returns :: "'a outcome \<Rightarrow> ('a \<Rightarrow> bool) \<Rightarrow> bool" where
  "returns m Q \<longleftrightarrow> (\<exists>x. m = Ok x \<and> Q x)"

lemma returns_Ok [simp]: "returns (Ok x) Q \<longleftrightarrow> Q x"
  by (simp add: returns_def)

lemma returns_bind: "returns m Q \<Longrightarrow> (\<And>x. Q x \<Longrightarrow> returns (f x) R) \<Longrightarrow> returns (bind_o m f) R"
  by (auto simp: returns_def)

text \<open>The position is inside an open section, before the bytes \<open>bs\<close>.\<close>

definition at :: "binfile \<Rightarrow> sect \<Rightarrow> u8 list \<Rightarrow> binfile \<Rightarrow> bool" where
  "at f0 sec bs f \<longleftrightarrow> bf_ok f \<and> readingSection f = Some sec \<and> fdata f = fdata f0 \<and> addr f = addr f0
     \<and> sections f = sections f0 \<and> drop (unat (pos f)) (fdata f) = bs"

lemma drop_fits:
  assumes "bf_ok f" and "drop (unat (pos f)) (fdata f) = bs @ rest" and "length bs = unat (n :: u64)"
    and "unat n < 2 ^ 63"
  shows "\<not> fsize f < pos f + n" and "unat (pos f + n) = unat (pos f) + unat n"
    and "drop (unat (pos f + n)) (fdata f) = rest"
    and "bytes_at f (pos f) (unat n) = Ok bs"
proof -
  have u: "unat (pos f + n) = unat (pos f) + unat n" by (rule unat_add_fits [OF assms(1,4)])
  have "unat (pos f) \<le> length (fdata f)"
    using assms(1) unat_fsize [OF assms(1)] by (auto simp: bf_ok_def word_le_nat_alt)
  moreover have "length (drop (unat (pos f)) (fdata f)) = unat n + length rest"
    using assms(2,3) by simp
  ultimately have l: "unat (pos f) + unat n \<le> length (fdata f)" by simp
  show "\<not> fsize f < pos f + n" using l u unat_fsize [OF assms(1)] by (simp add: word_less_nat_alt)
  show "unat (pos f + n) = unat (pos f) + unat n" by (rule u)
  have "drop (unat n) (drop (unat (pos f)) (fdata f)) = rest" using assms(2,3) by simp
  then show "drop (unat (pos f + n)) (fdata f) = rest" unfolding u by (simp add: add.commute)
  show "bytes_at f (pos f) (unat n) = Ok bs" using l assms(2,3) by (simp add: bytes_at_def)
qed

lemma at_step:
  assumes "at f0 sec (bs @ rest) f" and "length bs = unat (n :: u64)" and "unat n < 2 ^ 63"
  shows "at f0 sec rest (f\<lparr>pos := pos f + n\<rparr>)" and "\<not> fsize f < pos f + n"
    and "bytes_at f (pos f) (unat n) = Ok bs"
proof -
  have f: "bf_ok f" "drop (unat (pos f)) (fdata f) = bs @ rest" using assms(1) unfolding at_def by blast+
  note d = drop_fits [OF f assms(2,3)]
  show "\<not> fsize f < pos f + n" "bytes_at f (pos f) (unat n) = Ok bs" by (rule d)+
  have "bf_ok (f\<lparr>pos := pos f + n\<rparr>)" using bf_ok_pos [OF f(1)] d(1) by (simp add: not_less)
  then show "at f0 sec rest (f\<lparr>pos := pos f + n\<rparr>)" using assms(1) d(3) by (simp add: at_def)
qed

lemma at_readU32:
  assumes "at f0 sec (le_bytes 4 (unat v) @ rest) f"
  shows "returns (readU32LE f) (\<lambda>(v', f'). v' = v \<and> at f0 sec rest f')"
  using at_step [OF assms, of 4] unsigned_less [of v, where 'a = nat]
  by (simp add: readU32LE_def Let_def)

lemma bytes_at_cong: "fdata f = fdata g \<Longrightarrow> bytes_at f = bytes_at g"
  by (simp add: fun_eq_iff bytes_at_def)

text \<open>The bytes behind a pointer into the file.\<close>

definition ptr_bytes :: "binfile \<Rightarrow> u64 \<Rightarrow> u8 list \<Rightarrow> bool" where
  "ptr_bytes f p bs \<longleftrightarrow> bytes_at f (p - addr f) (length bs) = Ok bs"

lemma at_read:
  assumes "at f0 sec (bs @ rest) f" and "length bs = unat (n :: u32)"
  shows "returns (read (ucast n) f) (\<lambda>(p, f'). at f0 sec rest f' \<and> ptr_bytes f0 p bs)"
proof -
  have "length bs = unat (ucast n :: u64)" using assms(2) by (simp add: ucast_small)
  note s = at_step [OF assms(1) this ucast_small(2)]
  have "bytes_at f0 (pos f) (length bs) = Ok bs"
    using s(3) assms bytes_at_cong [of f f0] by (auto simp: ucast_small at_def)
  then show ?thesis
    using s(1,2) assms(1) by (auto simp: read_def Let_def ptr_bytes_def at_def)
qed

lemma at_import:
  assumes "at f0 sec (bs @ rest) f" and "length bs = unat (n :: u32)"
  shows "returns (import_read imp n f) (\<lambda>(v, f'). at f0 sec rest f' \<and> v = imp bs)"
  unfolding import_read_def
proof (rule returns_bind [OF at_read [OF assms]])
  fix x assume "case x of (p, f') \<Rightarrow> at f0 sec rest f' \<and> ptr_bytes f0 p bs"
  then obtain p f' where x: "x = (p, f')" "at f0 sec rest f'" "ptr_bytes f0 p bs" by (cases x) auto
  then have "bytes_at f' (p - addr f') (unat n) = Ok bs"
    using assms(2) bytes_at_cong [of f' f0] by (simp add: ptr_bytes_def at_def)
  then show "returns (case x of (p, f) \<Rightarrow> bind_o (bytes_at f (p - addr f) (unat n)) (\<lambda>bs. Ok (imp bs, f)))
      (\<lambda>(v, f'). at f0 sec rest f' \<and> v = imp bs)"
    using x by simp
qed

text \<open>A section that lies inside the file, opened, read to its end and closed.\<close>

lemma at_start:
  assumes "idle f0 f" and "readingSection f = None" and "sections f0 k = Some (sec # l)"
    and "sec_bytes f0 sec = Ok bs"
  shows "returns (startReadSection k 0 f)
    (at f0 sec (bs @ drop (unat (start sec - addr f0) + unat (ssize sec)) (fdata f0)))"
proof -
  have l: "unat (start sec - addr f0) + unat (ssize sec) \<le> length (fdata f0)"
    "bs = take (unat (ssize sec)) (drop (unat (start sec - addr f0)) (fdata f0))"
    using assms(4) by (auto simp: sec_bytes_def bytes_at_def split: if_splits)
  have "drop (unat (start sec - addr f0)) (fdata f0)
      = bs @ drop (unat (start sec - addr f0) + unat (ssize sec)) (fdata f0)"
    unfolding l(2) by (simp add: add.commute flip: drop_drop)
  moreover have "sect_ok f sec" using assms(1,3) by (simp add: idle_def bf_ok_def)
  ultimately show ?thesis
    using assms(1-3) by (auto simp: startReadSection_def idle_def at_def bf_ok_def sect_ok_def)
qed

lemma at_end:
  assumes "at f0 sec (drop (unat (start sec - addr f0) + unat (ssize sec)) (fdata f0)) f"
    and "sec_bytes f0 sec = Ok bs"
  shows "returns (endReadSection True f) (\<lambda>f'. idle f0 f' \<and> readingSection f' = None)"
proof -
  let ?o = "start sec - addr f0"
  have l: "unat ?o + unat (ssize sec) \<le> length (fdata f0)"
    using assms(2) by (auto simp: sec_bytes_def bytes_at_def split: if_splits)
  have f: "bf_ok f" "fdata f = fdata f0" "addr f = addr f0"
    and d: "drop (unat (pos f)) (fdata f) = drop (unat ?o + unat (ssize sec)) (fdata f0)"
    using assms(1) unfolding at_def by blast+
  have "unat (pos f) \<le> length (fdata f0)"
    using f unat_fsize [OF f(1)] by (auto simp: bf_ok_def word_le_nat_alt)
  then have "unat (pos f) = unat ?o + unat (ssize sec)"
    using arg_cong [OF d, of length] l f(2) by simp
  moreover have "unat ?o + unat (ssize sec) < 2 ^ 64" using l f by (simp add: bf_ok_def)
  ultimately have "unat (pos f) = unat (?o + ssize sec)"
    using unat_add_lem [of ?o "ssize sec"] by simp
  then have "pos f = ?o + ssize sec" by (rule unsigned_word_eqI)
  then have "addr f + pos f - start sec = ssize sec" using f(3) by simp
  then show ?thesis
    using assms(1) by (auto simp: endReadSection_def at_def idle_def bf_ok_def)
qed

section \<open>Round trip of the headers\<close>

text \<open>The abstract contents of the key header and its layout.\<close>

record zkey_spec =
  z_q8 :: u32
  z_q :: "u8 list"
  z_r8 :: u32
  z_r :: "u8 list"
  z_vars :: u32
  z_pub :: u32
  z_dom :: u32
  z_alpha1 :: "u8 list"
  z_beta1 :: "u8 list"
  z_beta2 :: "u8 list"
  z_gamma2 :: "u8 list"
  z_delta1 :: "u8 list"
  z_delta2 :: "u8 list"

definition encode_zkey :: "zkey_spec \<Rightarrow> u8 list" where
  "encode_zkey z = le_bytes 4 (unat (z_q8 z)) @ z_q z @ le_bytes 4 (unat (z_r8 z)) @ z_r z
     @ le_bytes 4 (unat (z_vars z)) @ le_bytes 4 (unat (z_pub z)) @ le_bytes 4 (unat (z_dom z))
     @ z_alpha1 z @ z_beta1 z @ z_beta2 z @ z_gamma2 z @ z_delta1 z @ z_delta2 z"

definition zkey_sizes :: "zkey_spec \<Rightarrow> bool" where
  "zkey_sizes z \<longleftrightarrow> length (z_q z) = unat (z_q8 z) \<and> length (z_r z) = unat (z_r8 z)
     \<and> length (z_alpha1 z) = unat (z_q8 z * 2) \<and> length (z_beta1 z) = unat (z_q8 z * 2)
     \<and> length (z_beta2 z) = unat (z_q8 z * 4) \<and> length (z_gamma2 z) = unat (z_q8 z * 4)
     \<and> length (z_delta1 z) = unat (z_q8 z * 2) \<and> length (z_delta2 z) = unat (z_q8 z * 4)
     \<and> 12 + z_r8 z \<noteq> 0"

definition zkey_matches :: "(u8 list \<Rightarrow> int) \<Rightarrow> binfile \<Rightarrow> zkey_spec \<Rightarrow> zkey_header \<Rightarrow> bool" where
  "zkey_matches imp f z h \<longleftrightarrow>
     n8q h = z_q8 z \<and> qPrime h = imp (z_q z) \<and> n8r h = z_r8 z \<and> rPrime h = imp (z_r z)
   \<and> nVars h = z_vars z \<and> nPublic h = z_pub z \<and> domainSize h = z_dom z
   \<and> ptr_bytes f (vk_alpha1 h) (z_alpha1 z) \<and> ptr_bytes f (vk_beta1 h) (z_beta1 z)
   \<and> ptr_bytes f (vk_beta2 h) (z_beta2 z) \<and> ptr_bytes f (vk_gamma2 h) (z_gamma2 z)
   \<and> ptr_bytes f (vk_delta1 h) (z_delta1 z) \<and> ptr_bytes f (vk_delta2 h) (z_delta2 z)"

lemma zkey_loadHeader_returns:
  assumes f: "bf_ok f" "readingSection f = None"
    and s1: "sections f 1 = Some (sec1 # l1)" "sec_bytes f sec1 = Ok (le_bytes 4 1)"
    and s2: "sections f 2 = Some (sec2 # l2)" "sec_bytes f sec2 = Ok (encode_zkey z)" and z: "zkey_sizes z"
    and s4: "sections f 4 = Some (sec4 # l4)"
  shows "returns (zkey_loadHeader imp f) (\<lambda>(h, f'). idle f f' \<and> readingSection f' = None
    \<and> zkey_matches imp f z h \<and> nCoefs h = ssize sec4 div ucast (12 + z_r8 z))"
proof -
  have idle: "idle f f" using f by (simp add: idle_def)
  define e1 where "e1 = drop (unat (start sec1 - addr f) + unat (ssize sec1)) (fdata f)"
  define e2 where "e2 = drop (unat (start sec2 - addr f) + unat (ssize sec2)) (fdata f)"
  note start1 = at_start [OF idle f(2) s1, folded e1_def] and end1 = at_end [OF _ s1(2), folded e1_def]
  note start2 = at_start [OF _ _ s2, folded e2_def] and end2 = at_end [OF _ s2(2), folded e2_def]
  have one: "le_bytes 4 1 = le_bytes 4 (unat (1 :: u32))" by simp
  have enc: "encode_zkey z @ e2 = le_bytes 4 (unat (z_q8 z)) @ z_q z @ le_bytes 4 (unat (z_r8 z)) @ z_r z
     @ le_bytes 4 (unat (z_vars z)) @ le_bytes 4 (unat (z_pub z)) @ le_bytes 4 (unat (z_dom z))
     @ z_alpha1 z @ z_beta1 z @ z_beta2 z @ z_gamma2 z @ z_delta1 z @ z_delta2 z @ e2"
    by (simp add: encode_zkey_def)
  have g: "getSectionSize 4 0 f' = Ok (ssize sec4)" if "idle f f'" for f'
    using that s4 by (simp add: getSectionSize_def idle_def)
  have sz: "length (z_q z) = unat (z_q8 z)" "length (z_r z) = unat (z_r8 z)"
    "length (z_alpha1 z) = unat (z_q8 z * 2)" "length (z_beta1 z) = unat (z_q8 z * 2)"
    "length (z_beta2 z) = unat (z_q8 z * 4)" "length (z_gamma2 z) = unat (z_q8 z * 4)"
    "length (z_delta1 z) = unat (z_q8 z * 2)" "length (z_delta2 z) = unat (z_q8 z * 4)"
    and nz: "12 + z_r8 z \<noteq> 0"
    using z by (simp_all add: zkey_sizes_def)
  show ?thesis
    unfolding zkey_loadHeader_def
    apply (rule returns_bind [OF start1])
    apply (rule returns_bind [OF at_readU32 [where v = 1]])
     apply (simp add: one)
    apply clarsimp
    apply (rule returns_bind [OF end1], assumption, clarsimp)
    apply (rule returns_bind [OF start2], assumption, assumption, unfold enc)
    apply (rule returns_bind [OF at_readU32], assumption, clarsimp)
    apply (rule returns_bind [OF at_import], assumption, simp add: sz, clarsimp)
    apply (rule returns_bind [OF at_readU32], assumption, clarsimp)
    apply (rule returns_bind [OF at_import], assumption, simp add: sz, clarsimp)
    apply (rule returns_bind [OF at_readU32], assumption, clarsimp)
    apply (rule returns_bind [OF at_readU32], assumption, clarsimp)
    apply (rule returns_bind [OF at_readU32], assumption, clarsimp)
    apply (rule returns_bind [OF at_read], assumption, simp add: sz, clarsimp)+
    apply (rule returns_bind [OF end2], assumption, clarsimp)
    apply (simp add: g nz zkey_matches_def)
    done
qed

lemma wtns_loadHeader_returns:
  assumes f: "bf_ok f" "readingSection f = None"
    and s1: "sections f 1 = Some (sec1 # l1)"
      "sec_bytes f sec1 = Ok (le_bytes 4 (unat n) @ p @ le_bytes 4 (unat vars))"
    and p: "length p = unat n"
  shows "returns (wtns_loadHeader imp f) (\<lambda>(h, f'). idle f f' \<and> readingSection f' = None
    \<and> n8 h = n \<and> prime h = imp p \<and> wtns_nVars h = vars)"
proof -
  have idle: "idle f f" using f by (simp add: idle_def)
  define e1 where "e1 = drop (unat (start sec1 - addr f) + unat (ssize sec1)) (fdata f)"
  note start1 = at_start [OF idle f(2) s1, folded e1_def] and end1 = at_end [OF _ s1(2), folded e1_def]
  show ?thesis
    unfolding wtns_loadHeader_def
    apply (rule returns_bind [OF start1], unfold append_assoc)
    apply (rule returns_bind [OF at_readU32], assumption, clarsimp)
    apply (rule returns_bind [OF at_import], assumption, simp add: p, clarsimp)
    apply (rule returns_bind [OF at_readU32], assumption, clarsimp)
    apply (rule returns_bind [OF end1], assumption, clarsimp)
    done
qed

section \<open>The file loader\<close>

text \<open>The results of the operating system's calls: a descriptor or -1, the size of a file, the
  address of a mapping. The calls that the loader makes are recorded, since the question is
  whether every descriptor and mapping is released once. A member that has not been assigned
  is \<open>None\<close>.\<close>

record os =
  os_open :: "string \<Rightarrow> int"
  os_fstat :: "int \<Rightarrow> u64 option"
  os_mmap :: "int \<Rightarrow> u64 \<Rightarrow> u64 option"

datatype syscall = Open string | Fstat int | Mmap u64 int | Madvise u64 u64
  | Munmap "u64 option" "u64 option" | Close int

record loader =
  fd :: int
  laddr :: "u64 option"
  lsize :: "u64 option"

definition FileLoader :: loader where
  "FileLoader = \<lparr>fd = - 1, laddr = None, lsize = None\<rparr>"

definition MAP_FAILED :: u64 where
  "MAP_FAILED = - 1"

definition FileLoader_load :: "os \<Rightarrow> string \<Rightarrow> loader \<Rightarrow> exn option \<times> loader \<times> syscall list" where
  "FileLoader_load os fileName this =
     (if fd this \<noteq> - 1 then (Some (invalid_argument ''file already loaded''), this, [])
      else
        let d = os_open os fileName;
            this = this\<lparr>fd := d\<rparr>
        in if d = - 1 then (Some (system_error ''open''), this, [Open fileName])
           else case os_fstat os d of
             None \<Rightarrow> (Some (system_error ''fstat''), this, [Open fileName, Fstat d, Close d])
           | Some n \<Rightarrow>
               let this = this\<lparr>lsize := Some n\<rparr>
               in case os_mmap os d n of
                 None \<Rightarrow> (Some (system_error ''mmap failed''), this\<lparr>laddr := Some MAP_FAILED\<rparr>,
                   [Open fileName, Fstat d, Mmap n d, Close d])
               | Some p \<Rightarrow> (None, this\<lparr>laddr := Some p\<rparr>,
                   [Open fileName, Fstat d, Mmap n d, Madvise p n]))"

definition FileLoader_destroy :: "loader \<Rightarrow> syscall list" where
  "FileLoader_destroy this = (if fd this \<noteq> - 1 then [Munmap (laddr this) (lsize this), Close (fd this)] else [])"

definition dataBuffer :: "loader \<Rightarrow> u64 option" where
  "dataBuffer this = laddr this"

definition dataSize :: "loader \<Rightarrow> u64 option" where
  "dataSize this = lsize this"

text \<open>The life of a loader object that is constructed empty, loaded and destroyed, as in
  \<open>groth16_public_size_for_zkey_file\<close>. The second constructor loads the file itself; when
  loading throws there, the object does not exist and its destructor does not run.\<close>

definition loader_life :: "os \<Rightarrow> string \<Rightarrow> syscall list" where
  "loader_life os fileName =
     (let (_, this, calls) = FileLoader_load os fileName FileLoader in calls @ FileLoader_destroy this)"

definition FileLoader_file :: "os \<Rightarrow> string \<Rightarrow> (exn + loader) \<times> syscall list" where
  "FileLoader_file os fileName =
     (case FileLoader_load os fileName FileLoader of
        (Some e, _, calls) \<Rightarrow> (Inl e, calls)
      | (None, this, calls) \<Rightarrow> (Inr this, calls))"

text \<open>A file object on a named file owns its loader: when the body of the constructor throws,
  the loader is destroyed. \<open>mem\<close> is the contents of a mapping.\<close>

definition BinFile_open :: "os \<Rightarrow> (u64 \<Rightarrow> u64 \<Rightarrow> u8 list) \<Rightarrow> string \<Rightarrow> string \<Rightarrow> u32
    \<Rightarrow> (binfile \<times> loader) outcome \<times> syscall list" where
  "BinFile_open os mem fileName type maxVersion =
     (case FileLoader_file os fileName of
        (Inl e, calls) \<Rightarrow> (Throw e, calls)
      | (Inr this, calls) \<Rightarrow>
          (case (dataBuffer this, dataSize this) of
             (Some p, Some n) \<Rightarrow>
               (case BinFile (mem p n) p n type maxVersion of
                  Ok f \<Rightarrow> (Ok (f, this), calls)
                | Throw e \<Rightarrow> (Throw e, calls @ FileLoader_destroy this)
                | Undef \<Rightarrow> (Undef, calls))
           | _ \<Rightarrow> (Undef, calls)))"

definition openExisting :: "os \<Rightarrow> (u64 \<Rightarrow> u64 \<Rightarrow> u8 list) \<Rightarrow> string \<Rightarrow> string \<Rightarrow> u32
    \<Rightarrow> (binfile \<times> loader) outcome \<times> syscall list" where
  "openExisting os mem filename type maxVersion = BinFile_open os mem filename type maxVersion"

lemma loader_life_ok:
  assumes "os_open os name = d" "d \<noteq> - 1" "os_fstat os d = Some n" "os_mmap os d n = Some p"
  shows "loader_life os name = [Open name, Fstat d, Mmap n d, Madvise p n, Munmap (Some p) (Some n), Close d]"
  using assms by (simp add: loader_life_def FileLoader_load_def FileLoader_destroy_def FileLoader_def Let_def)

lemma loader_life_no_stat:
  assumes "os_open os name = d" "d \<noteq> - 1" "os_fstat os d = None"
  shows "loader_life os name = [Open name, Fstat d, Close d, Munmap None None, Close d]"
  using assms by (simp add: loader_life_def FileLoader_load_def FileLoader_destroy_def FileLoader_def Let_def)

lemma openExisting_throw_releases:
  assumes "os_open os name = d" "d \<noteq> - 1" "os_fstat os d = Some n" "os_mmap os d n = Some p"
    and "BinFile (mem p n) p n type maxv = Throw e"
  shows "openExisting os mem name type maxv
    = (Throw e, [Open name, Fstat d, Mmap n d, Madvise p n, Munmap (Some p) (Some n), Close d])"
  using assms by (simp add: openExisting_def BinFile_open_def FileLoader_file_def FileLoader_load_def
    FileLoader_destroy_def FileLoader_def dataBuffer_def dataSize_def Let_def)

lemma openExisting_ok:
  assumes "os_open os name = d" "d \<noteq> - 1" "os_fstat os d = Some n" "os_mmap os d n = Some p"
    and "BinFile (mem p n) p n type maxv = Ok f"
  shows "\<exists>l. openExisting os mem name type maxv = (Ok (f, l), [Open name, Fstat d, Mmap n d, Madvise p n])
    \<and> FileLoader_destroy l = [Munmap (Some p) (Some n), Close d]"
  using assms by (simp add: openExisting_def BinFile_open_def FileLoader_file_def FileLoader_load_def
    FileLoader_destroy_def FileLoader_def dataBuffer_def dataSize_def Let_def)

lemma openExisting_no_file:
  assumes "os_open os name = - 1"
  shows "openExisting os mem name type maxv = (Throw (system_error ''open''), [Open name])"
  using assms by (simp add: openExisting_def BinFile_open_def FileLoader_file_def FileLoader_load_def
    FileLoader_def Let_def)

end
