(* ===== verification/FileTheorems.thy ===== *)
theory FileTheorems
  imports Headers
begin

text \<open>
  The properties of the file layer: the container and the headers read back what the format
  writes, malformed files are rejected without a read outside the buffer, and two defects.
\<close>

text \<open>C24: round trip of the container. A file that holds any list of sections is opened
  without error by its type and a sufficient version, and the sections of each type are found
  in order with exactly their bytes.\<close>

theorem binfile_roundtrip:
  assumes "length type = 4" and "v \<le> maxv" and "length secs < 2 ^ 32"
    and "length (encode_file type v secs) < 2 ^ 63"
  shows "\<exists>f. BinFile (encode_file type v secs) a (of_nat (length (encode_file type v secs))) type maxv = Ok f
    \<and> version f = v \<and> (\<forall>k. secs_bytes f k = map Ok (payloads k secs))"
  using BinFile_encode [OF assms] by blast

theorem binfile_roundtrip_witness:
  "\<exists>f. BinFile (encode_file ''zkey'' 1 [(7, [1, 2, 3]), (4, []), (7, [9])]) 4096
      (of_nat (length (encode_file ''zkey'' 1 [(7, [1, 2, 3]), (4, []), (7, [9])]))) ''zkey'' 1 = Ok f
    \<and> secs_bytes f 7 = [Ok [1, 2, 3], Ok [9]]"
  using binfile_roundtrip [of "''zkey''" 1 1 "[(7, [1, 2, 3]), (4, []), (7, [9])]" 4096]
  by (auto simp: payloads_def encode_file_def encode_section_def)

text \<open>C22: memory safety of the parser. Whatever the bytes of the file, opening it has defined
  behaviour: it throws or returns an object whose type and version are the requested ones and
  all of whose sections start inside the file.\<close>

theorem binfile_memory_safe:
  assumes "length bytes < 2 ^ 63"
  shows "BinFile bytes a (of_nat (length bytes)) type maxv \<noteq> Undef
    \<and> (\<forall>f k l sec. BinFile bytes a (of_nat (length bytes)) type maxv = Ok f \<and> sections f k = Some l
        \<and> sec \<in> set l \<longrightarrow> ftype f = type \<and> version f \<le> maxv \<and> start sec - a \<le> fsize f
          \<and> start sec - a + ssize sec \<le> fsize f)"
  using BinFile_safe [OF assms, of a type maxv] by (fastforce simp: safely_def bf_ok_def sect_ok_def)

theorem binfile_memory_safe_witness:
  "BinFile [0x7a, 0x6b, 0x65, 0x79, 9] 0 (of_nat (length [0x7a, 0x6b, 0x65, 0x79, 9 :: u8])) ''zkey'' 1 \<noteq> Undef"
  using binfile_memory_safe [of "[0x7a, 0x6b, 0x65, 0x79, 9]" 0 "''zkey''" 1] by simp

text \<open>C39: which section sizes are accepted. A file holds any sections and then, as the last one, a section of any type \<open>k\<close>
  whose header gives any 64-bit size \<open>n\<close>, followed by the bytes \<open>rest\<close>. It should be accepted when \<open>n\<close> is at most the
  number of bytes that follow. The code compares the end of the section computed modulo \<open>2^64\<close>, so it also
  accepts every size for which the true end is \<open>2^64\<close> or more, whatever follows, and then hands out the size that lies far
  beyond the end of the file; all other sizes are rejected.\<close>

theorem section_size_wraps:
  assumes "length type = 4" and "v \<le> maxv" and "Suc (length secs) < 2 ^ 32"
    and "front = file_header type v (Suc (length secs)) @ concat (map encode_section secs) @ le_bytes 4 (unat k) @ le_bytes 8 (unat n)"
    and "length (front @ rest) < 2 ^ 63"
  shows "if unat n \<le> length rest \<or> 2 ^ 64 \<le> length front + unat n
    then \<exists>f. BinFile (front @ rest) a (of_nat (length (front @ rest))) type maxv = Ok f
      \<and> getSectionData k (of_nat (length (payloads k secs))) f = Ok (a + of_nat (length front))
      \<and> getSectionSize k (of_nat (length (payloads k secs))) f = Ok n
    else \<exists>e. BinFile (front @ rest) a (of_nat (length (front @ rest))) type maxv = Throw (range_error e)"
proof -
  let ?pre = "file_header type v (Suc (length secs)) @ concat (map encode_section secs)"
  let ?bytes = "front @ rest" and ?f = "after_header type v a (front @ rest)" and ?i = "of_nat (length (payloads k secs)) :: u32"
  have b: "?bytes = file_header type v (Suc (length secs)) @ concat (map encode_section secs) @ le_bytes 4 (unat k) @ le_bytes 8 (unat n) @ rest"
    by (simp add: assms(4))
  have front: "length front = length ?pre + 12" by (simp add: assms(4))
  have "12 * Suc (length secs) \<le> length (concat (map encode_section secs) @ le_bytes 4 (unat k) @ le_bytes 8 (unat n) @ rest)"
    using length_encode_sections [of secs] by simp
  note h = BinFile_header [OF assms(1-3) b this assms(5), of a]
  have "fdata ?f = file_header type v (Suc (length secs)) @ concat (map encode_section secs) @ le_bytes 4 (unat k) @ le_bytes 8 (unat n) @ rest"
    "pos ?f = of_nat (length (file_header type v (Suc (length secs))))"
    using b length_file_header [OF assms(1)] by (simp_all add: after_header_def)
  from readSections_prefix [OF h(1) this, of 0 "Suc 0"] obtain f' where
    f': "readSections 0 (Suc (length secs)) ?f = readSections (of_nat (length secs)) (Suc 0) f'" "bf_ok f'" "same_file ?f f'"
      "pos f' = of_nat (length ?pre)" "\<And>j. secs_bytes f' j = secs_bytes ?f j @ map Ok (payloads j secs)"
    by auto
  have "fdata f' = ?pre @ le_bytes 4 (unat k) @ le_bytes 8 (unat n) @ rest"
    using f'(3) b by (simp add: same_file_def after_header_def)
  from last_section [OF f'(2) this f'(4), of "of_nat (length secs)"] obtain g where
    g: "same_file f' g" "sections g = sections f'" "pos g = of_nat (length front)"
      "if unat n \<le> length rest \<or> 2 ^ 64 \<le> length front + unat n
       then readSections (of_nat (length secs)) (Suc 0) f' = Ok (add_section k n g)
       else \<exists>e. readSections (of_nat (length secs)) (Suc 0) f' = Throw (range_error e)"
    unfolding front by blast
  let ?l = "case sections f' k of None \<Rightarrow> [] | Some l \<Rightarrow> l"
  have "length (secs_bytes f' k) = length (payloads k secs)" using f'(5) by (simp add: secs_bytes_def after_header_def)
  then have l: "length ?l = length (payloads k secs)" by (simp add: secs_bytes_def)
  have "length (payloads k secs) \<le> length secs" by (simp add: payloads_def)
  then have i: "unat ?i = length ?l" using assms(3) l by (simp add: unat_of_nat)
  let ?g = "(add_section k n g)\<lparr>pos := 0, readingSection := None\<rparr>"
  have s: "sections ?g k = Some (?l @ [\<lparr>start = a + of_nat (length front), ssize = n\<rparr>])"
    using g(1-3) f'(3) by (simp add: same_file_def after_header_def)
  then have "getSectionData k ?i ?g = Ok (a + of_nat (length front))" "getSectionSize k ?i ?g = Ok n"
    using i by (simp_all add: getSectionData_def getSectionSize_def)
  then show ?thesis using g(4) h(2) f'(1) by (auto split: if_splits)
qed

text \<open>A file of 24 bytes: a size of \<open>2^64 - 24\<close> is accepted, a size of one byte is not.\<close>

theorem section_size_wraps_witness:
  "(\<exists>f. BinFile (file_header ''zkey'' 1 1 @ le_bytes 4 4 @ le_bytes 8 (2 ^ 64 - 24)) 0 24 ''zkey'' 1 = Ok f
      \<and> getSectionSize 4 0 f = Ok (- 24))
    \<and> (\<exists>e. BinFile (file_header ''zkey'' 1 1 @ le_bytes 4 4 @ le_bytes 8 1) 0 24 ''zkey'' 1 = Throw (range_error e))"
proof -
  have u: "unat (- 24 :: u64) = 2 ^ 64 - 24" by simp
  show ?thesis
    using section_size_wraps [of "''zkey''" 1 1 "[]" _ 4 "- 24" "[]" 0, OF _ _ _ refl]
      section_size_wraps [of "''zkey''" 1 1 "[]" _ 4 1 "[]" 0, OF _ _ _ refl]
    by (auto simp: u length_file_header payloads_def)
qed

text \<open>C25: the key header is read back. When the first sections of types 1 and 2 hold the
  protocol number and the layout of a key header, \<open>loadHeader\<close> returns exactly its fields,
  pointers to exactly its curve points, and the number of coefficients that section 4 has room
  for; the file object is left ready for the next section.\<close>

theorem zkey_header_roundtrip:
  assumes "bf_ok f" and "readingSection f = None"
    and "sections f 1 = Some (sec1 # l1)" and "sec_bytes f sec1 = Ok (le_bytes 4 1)"
    and "sections f 2 = Some (sec2 # l2)" and "sec_bytes f sec2 = Ok (encode_zkey z)" and "zkey_sizes z"
    and "sections f 4 = Some (sec4 # l4)"
  shows "\<exists>h f'. zkey_loadHeader imp f = Ok (h, f') \<and> readingSection f' = None
    \<and> zkey_matches imp f z h \<and> nCoefs h = ssize sec4 div ucast (12 + z_r8 z)"
  using zkey_loadHeader_returns [OF assms, of imp] by (auto simp: returns_def)

definition sample_zkey :: zkey_spec where
  "sample_zkey = \<lparr>z_q8 = 1, z_q = [7], z_r8 = 1, z_r = [5], z_vars = 3, z_pub = 1, z_dom = 4,
     z_alpha1 = [1, 2], z_beta1 = [3, 4], z_beta2 = [5, 6, 7, 8], z_gamma2 = [9, 10, 11, 12],
     z_delta1 = [13, 14], z_delta2 = [15, 16, 17, 18]\<rparr>"

definition sample_file :: binfile where
  "sample_file = \<lparr>fdata = le_bytes 4 1 @ encode_zkey sample_zkey, addr = 0, fsize = 44, pos = 0,
     sections = [1 \<mapsto> [\<lparr>start = 0, ssize = 4\<rparr>], 2 \<mapsto> [\<lparr>start = 4, ssize = 40\<rparr>],
       4 \<mapsto> [\<lparr>start = 44, ssize = 0\<rparr>]],
     ftype = ''zkey'', version = 1, readingSection = None\<rparr>"

lemma length_sample: "length (encode_zkey sample_zkey) = 40"
  by (simp add: encode_zkey_def sample_zkey_def)

lemma sample_file_ok: "bf_ok sample_file"
  by (simp add: bf_ok_def sample_file_def length_sample sect_ok_def)

theorem zkey_header_roundtrip_witness:
  "\<exists>h f'. zkey_loadHeader (\<lambda>bs. int (le_val bs)) sample_file = Ok (h, f') \<and> nVars h = 3 \<and> rPrime h = 5"
proof -
  have "\<exists>h f'. zkey_loadHeader (\<lambda>bs. int (le_val bs)) sample_file = Ok (h, f') \<and> readingSection f' = None
    \<and> zkey_matches (\<lambda>bs. int (le_val bs)) sample_file sample_zkey h
    \<and> nCoefs h = ssize \<lparr>start = 44, ssize = 0\<rparr> div ucast (12 + z_r8 sample_zkey)"
    by (rule zkey_header_roundtrip [OF sample_file_ok])
      (simp_all add: sample_file_def sec_bytes_def bytes_at_def length_sample zkey_sizes_def, simp_all add: sample_zkey_def encode_zkey_def)
  then show ?thesis by (auto simp: zkey_matches_def sample_zkey_def)
qed

text \<open>C23: the header readers are memory safe. On every file of less than \<open>2^32 - 12\<close> bytes,
  whatever its contents, reading either header has defined behaviour, and the pointers of a
  key header that is returned point to blocks inside the file.\<close>

theorem header_memory_safe:
  assumes "length bytes < 2 ^ 32 - 12" and "BinFile bytes a (of_nat (length bytes)) type maxv = Ok f"
  shows "zkey_loadHeader imp f \<noteq> Undef \<and> wtns_loadHeader imp f \<noteq> Undef
    \<and> (\<forall>h f'. zkey_loadHeader imp f = Ok (h, f') \<longrightarrow>
        in_file f (vk_alpha1 h) (unat (n8q h * 2)) \<and> in_file f (vk_beta1 h) (unat (n8q h * 2))
      \<and> in_file f (vk_beta2 h) (unat (n8q h * 4)) \<and> in_file f (vk_gamma2 h) (unat (n8q h * 4))
      \<and> in_file f (vk_delta1 h) (unat (n8q h * 2)) \<and> in_file f (vk_delta2 h) (unat (n8q h * 4)))"
proof -
  have "length bytes < 2 ^ 63" using assms(1) by simp
  from BinFile_safe [OF this, of a type maxv] assms(2)
  have f: "bf_ok f" "fdata f = bytes" by (simp_all add: safely_def)
  then have i: "idle f f" "length (fdata f) < 2 ^ 32 - 12" using assms(1) by (simp_all add: idle_def)
  show ?thesis
    using zkey_loadHeader_safe [OF i, of imp] wtns_loadHeader_safe [OF i(1), of imp]
    by (fastforce simp: safely_def)
qed

theorem header_memory_safe_witness:
  "\<exists>f. BinFile [0x7a, 0x6b, 0x65, 0x79, 1, 0, 0, 0, 0, 0, 0, 0] 0 12 ''zkey'' 1 = Ok f
    \<and> zkey_loadHeader (\<lambda>bs. int (le_val bs)) f \<noteq> Undef"
proof -
  have "\<exists>f. BinFile [0x7a, 0x6b, 0x65, 0x79, 1, 0, 0, 0, 0, 0, 0, 0] 0 12 ''zkey'' 1 = Ok f"
    by (simp add: BinFile_def readFileData_def Let_def bytes_at_def readU32LE_def char_of_def bit_0)
  then show ?thesis
    using header_memory_safe [of "[0x7a, 0x6b, 0x65, 0x79, 1, 0, 0, 0, 0, 0, 0, 0]" 0 "''zkey''" 1]
    by auto
qed

text \<open>A loader whose file is opened but not mapped releases what it does not own. When
  \<open>fstat\<close> fails after a successful \<open>open\<close>, \<open>load\<close> closes the descriptor and throws but keeps its
  number, so the destructor unmaps an address that was never assigned and closes the
  descriptor a second time.\<close>

theorem loader_double_close:
  assumes "os_open os name = d" and "d \<noteq> - 1" and "os_fstat os d = None"
  shows "loader_life os name = [Open name, Fstat d, Close d, Munmap None None, Close d]"
  by (rule loader_life_no_stat [OF assms])

theorem loader_double_close_witness:
  "loader_life \<lparr>os_open = \<lambda>_. 3, os_fstat = \<lambda>_. None, os_mmap = \<lambda>_ _. None\<rparr> ''a.zkey''
    = [Open ''a.zkey'', Fstat 3, Close 3, Munmap None None, Close 3]"
  using loader_double_close [of "\<lparr>os_open = \<lambda>_. 3, os_fstat = \<lambda>_. None, os_mmap = \<lambda>_ _. None\<rparr>" "''a.zkey''" 3]
  by simp

end
