(* ===== verification/Mpz.thy ===== *)
theory Mpz
  imports Machine
begin

text \<open>
  The integer functions of GMP that the field classes call, again a parameter: the record
  \<open>mpz_lib\<close>, with what the GMP manual documents as the assumptions of the locale \<open>gmp_mpz\<close>. An
  \<open>mpz_t\<close> is the integer it holds. \<open>mpz_export\<close> with the word order of the limb arrays returns
  the words that it writes, \<open>mpz_export_be\<close> the bytes that it writes for words of eight bytes,
  most significant word and byte first; both write as many words as the number needs, and none
  for zero. \<open>mpz_ref\<close> is an instance by number arithmetic.
\<close>

record mpz_lib =
  mpz_import :: "limbs \<Rightarrow> int"
  mpz_export :: "int \<Rightarrow> limbs"
  mpz_export_be :: "int \<Rightarrow> u8 list"
  mpz_import_bytes :: "int \<Rightarrow> u8 list \<Rightarrow> int"
  mpz_add :: "int \<Rightarrow> int \<Rightarrow> int"
  mpz_fdiv_q :: "int \<Rightarrow> int \<Rightarrow> int"
  mpz_fdiv_r :: "int \<Rightarrow> int \<Rightarrow> int"
  mpz_powm :: "int \<Rightarrow> int \<Rightarrow> int \<Rightarrow> int"
  mpz_invert :: "int \<Rightarrow> int \<Rightarrow> int"
  mpz_fits_sint_p :: "int \<Rightarrow> bool"
  mpz_init_set_str :: "string \<Rightarrow> nat \<Rightarrow> int"
  mpz_get_str :: "nat \<Rightarrow> int \<Rightarrow> string"

section \<open>Decimal numbers\<close>

definition is_digit :: "char \<Rightarrow> bool" where
  "is_digit c \<longleftrightarrow> 48 \<le> (of_char c :: nat) \<and> (of_char c :: nat) \<le> 57"

definition dec_val :: "string \<Rightarrow> nat" where
  "dec_val s = foldl (\<lambda>v c. 10 * v + (of_char c - 48)) 0 s"

lemma dec_val_snoc: "dec_val (s @ [c]) = 10 * dec_val s + (of_char c - 48)"
  by (simp add: dec_val_def)

lemma dec_val_digits: "dec_val (digits n) = n"
proof (induction n rule: digits.induct)
  case (1 n)
  show ?case
  proof (cases "n < 10")
    case True
    then show ?thesis by (subst digits.simps) (simp add: dec_val_def)
  next
    case False
    then have "dec_val (digits n) = 10 * (n div 10) + n mod 10"
      using 1 by (subst digits.simps) (simp add: dec_val_snoc)
    then show ?thesis by simp
  qed
qed

lemma digits_digits: "list_all is_digit (digits n)" and digits_nonempty: "digits n \<noteq> []"
proof -
  have "list_all is_digit (digits n) \<and> digits n \<noteq> []"
  proof (induction n rule: digits.induct)
    case (1 n)
    then show ?case by (subst (1 2) digits.simps) (auto simp: is_digit_def [of "char_of _"])
  qed
  then show "list_all is_digit (digits n)" "digits n \<noteq> []" by simp_all
qed

section \<open>What GMP documents\<close>

text \<open>The eight bytes of a word, most significant first.\<close>

definition be8 :: "limb \<Rightarrow> u8 list" where
  "be8 w = rev (le_bytes 8 (unat w))"

locale gmp_mpz =
  fixes Z :: mpz_lib
  assumes mpz_import: "mpz_import Z a = lval a"
    and mpz_export: "lval (mpz_export Z v) = \<bar>v\<bar> \<and> (mpz_export Z v = [] \<or> last (mpz_export Z v) \<noteq> 0)"
    and mpz_export_be: "mpz_export_be Z v = concat (map be8 (rev (mpz_export Z v)))"
    and mpz_add: "mpz_add Z x y = x + y"
    and mpz_fdiv_q: "y \<noteq> 0 \<Longrightarrow> mpz_fdiv_q Z x y = x div y"
    and mpz_fdiv_r: "y \<noteq> 0 \<Longrightarrow> mpz_fdiv_r Z x y = x mod y"
    and mpz_powm: "0 \<le> e \<Longrightarrow> 0 < m \<Longrightarrow> mpz_powm Z x e m = x ^ nat e mod m"
    and mpz_invert: "1 < m \<Longrightarrow> coprime x m \<Longrightarrow> 0 \<le> mpz_invert Z x m \<and> mpz_invert Z x m < m \<and> (x * mpz_invert Z x m) mod m = 1"
    and mpz_fits_sint_p: "mpz_fits_sint_p Z v \<longleftrightarrow> - (2 ^ 31) \<le> v \<and> v < 2 ^ 31"
    and mpz_init_set_str: "list_all is_digit s \<Longrightarrow> s \<noteq> [] \<Longrightarrow> mpz_init_set_str Z s 10 = int (dec_val s)"
    and mpz_init_set_str_neg: "list_all is_digit s \<Longrightarrow> s \<noteq> [] \<Longrightarrow> mpz_init_set_str Z (CHR ''-'' # s) 10 = - int (dec_val s)"
    and mpz_get_str: "0 \<le> v \<Longrightarrow> mpz_get_str Z 10 v = digits (nat v)"
begin

lemma export_length:
  assumes "0 \<le> v" "v < 2 ^ (64 * n)"
  shows "length (mpz_export Z v) \<le> n"
proof (rule ccontr)
  assume l: "\<not> length (mpz_export Z v) \<le> n"
  define xs where "xs = mpz_export Z v"
  have "xs \<noteq> []" using l by (auto simp: xs_def)
  then have xs: "xs = butlast xs @ [last xs]" "length (butlast xs) \<ge> n" "last xs \<noteq> 0"
    using l mpz_export [of v] by (simp_all add: xs_def)
  have "lval xs = lval (butlast xs) + 2 ^ (64 * length (butlast xs)) * uint (last xs)"
    using arg_cong [OF xs(1), of lval] by (simp add: lval_append)
  moreover have "uint (last xs) > 0" using xs(3) by (simp add: order_less_le uint_0_iff)
  then have "2 ^ (64 * length (butlast xs)) * 1 \<le> (2::int) ^ (64 * length (butlast xs)) * uint (last xs)"
    by (intro mult_left_mono) simp_all
  moreover have "(2::int) ^ (64 * n) \<le> 2 ^ (64 * length (butlast xs))" using xs(2) by (intro power_increasing) simp_all
  ultimately have "2 ^ (64 * n) \<le> lval xs" using lval_nonneg [of "butlast xs"] by linarith
  then show False using assms mpz_export [of v] by (simp add: xs_def)
qed

text \<open>What the classes do with a number: export it over four zero limbs.\<close>

lemma export_put:
  assumes "0 \<le> v" "v < 2 ^ 256"
  shows "length (put (replicate 4 0) (mpz_export Z v)) = 4" "lval (put (replicate 4 0) (mpz_export Z v)) = v"
proof -
  have l: "length (mpz_export Z v) \<le> 4" using export_length [of v 4] assms by simp
  then show "length (put (replicate 4 0) (mpz_export Z v)) = 4" by simp
  have "drop (length (mpz_export Z v)) (replicate 4 0) = (replicate (4 - length (mpz_export Z v)) 0 :: limbs)" by simp
  then show "lval (put (replicate 4 0) (mpz_export Z v)) = v"
    using mpz_export [of v] assms(1) unfolding put_def by (simp add: lval_append)
qed

end

section \<open>A reference instance\<close>

fun export_nat :: "nat \<Rightarrow> limbs" where
  "export_nat n = (if n = 0 then [] else of_nat n # export_nat (n div 2 ^ 64))"

declare export_nat.simps [simp del]

lemma export_nat: "lval (export_nat n) = int n \<and> (export_nat n = [] \<or> last (export_nat n) \<noteq> 0)"
proof (induction n rule: export_nat.induct)
  case (1 n)
  show ?case
  proof (cases "n = 0")
    case True
    then show ?thesis by (subst (1 2 3) export_nat.simps) simp
  next
    case False
    have e: "export_nat n = of_nat n # export_nat (n div 2 ^ 64)" using False by (subst export_nat.simps) simp
    have "int n = int (n mod 2 ^ 64) + 2 ^ 64 * int (n div 2 ^ 64)" by (simp add: zdiv_int zmod_int)
    then have "lval (export_nat n) = int n" using 1 False by (simp add: e uint_word_of_int unsigned_of_nat take_bit_eq_mod)
    moreover have "last (export_nat n) \<noteq> 0"
    proof (cases "n div 2 ^ 64 = 0")
      case True
      then have "n < 2 ^ 64" by (simp add: div_eq_0_iff)
      then have "unat (of_nat n :: limb) = n" by (simp add: unat_of_nat)
      then have "(of_nat n :: limb) \<noteq> 0" using False by auto
      moreover have "export_nat (n div 2 ^ 64) = []" using True by (subst export_nat.simps) simp
      ultimately show ?thesis by (simp add: e)
    next
      case False
      then have "export_nat (n div 2 ^ 64) \<noteq> []" by (subst export_nat.simps) simp
      then show ?thesis using 1 \<open>n \<noteq> 0\<close> by (simp add: e)
    qed
    ultimately show ?thesis by simp
  qed
qed

text \<open>The inverse by the extended Euclidean algorithm.\<close>

function bezout_ref :: "int \<Rightarrow> int \<Rightarrow> int \<times> int" where
  "bezout_ref x y = (if y \<le> 0 then (1, 0) else let (u, v) = bezout_ref y (x mod y) in (v, u - x div y * v))"
  by pat_completeness auto
termination by (relation "measure (\<lambda>(x, y). nat y)") auto

declare bezout_ref.simps [simp del]

lemma bezout_ref: "0 \<le> y \<Longrightarrow> 0 \<le> x \<Longrightarrow> fst (bezout_ref x y) * x + snd (bezout_ref x y) * y = gcd x y"
proof (induction x y rule: bezout_ref.induct)
  case (1 x y)
  show ?case
  proof (cases "y = 0")
    case True
    then show ?thesis using 1 by (simp add: bezout_ref.simps)
  next
    case False
    obtain u v where uv: "bezout_ref y (x mod y) = (u, v)" by (cases "bezout_ref y (x mod y)")
    then have b: "bezout_ref x y = (v, u - x div y * v)" using False 1 by (subst bezout_ref.simps) simp
    have "u * y + v * (x mod y) = gcd y (x mod y)" using 1 False uv by simp
    also have "\<dots> = gcd x y" by (metis gcd.commute gcd_red_int)
    finally show ?thesis by (simp add: b algebra_simps minus_mult_div_eq_mod [symmetric])
  qed
qed

definition invert_ref :: "int \<Rightarrow> int \<Rightarrow> int" where
  "invert_ref x m = fst (bezout_ref (x mod m) m) mod m"

lemma invert_ref:
  assumes m: "1 < m" "coprime x m"
  shows "0 \<le> invert_ref x m" "invert_ref x m < m" "(x * invert_ref x m) mod m = 1"
proof -
  let ?b = "bezout_ref (x mod m) m"
  have "fst ?b * (x mod m) + snd ?b * m = gcd (x mod m) m" using m by (intro bezout_ref) simp_all
  also have "gcd (x mod m) m = 1" using m by (metis coprime_iff_gcd_eq_1 gcd.commute gcd_red_int)
  finally have "(x mod m) * fst ?b = 1 - snd ?b * m" by (simp add: algebra_simps)
  then have "((x mod m) * fst ?b) mod m = 1"
    using m by (metis mod_mult_self2 mod_pos_pos_trivial diff_conv_add_uminus minus_mult_left mult.commute zero_le_one)
  then show "(x * invert_ref x m) mod m = 1" by (simp add: invert_ref_def mod_mult_left_eq mod_mult_right_eq)
qed (use assms in \<open>simp_all add: invert_ref_def\<close>)

definition set_str_ref :: "string \<Rightarrow> int" where
  "set_str_ref s = (if s \<noteq> [] \<and> hd s = CHR ''-'' then - int (dec_val (tl s)) else int (dec_val s))"

lemma set_str_ref: "list_all is_digit s \<Longrightarrow> set_str_ref s = int (dec_val s)"
  by (cases s) (auto simp: set_str_ref_def is_digit_def)

definition mpz_ref :: mpz_lib where
  "mpz_ref = \<lparr>
     mpz_import = lval,
     mpz_export = (\<lambda>v. export_nat (nat \<bar>v\<bar>)),
     mpz_export_be = (\<lambda>v. concat (map be8 (rev (export_nat (nat \<bar>v\<bar>))))),
     mpz_import_bytes = (\<lambda>order bs. int (le_val (rev bs))),
     mpz_add = (+),
     mpz_fdiv_q = (div),
     mpz_fdiv_r = (mod),
     mpz_powm = (\<lambda>x e m. x ^ nat e mod m),
     mpz_invert = invert_ref,
     mpz_fits_sint_p = (\<lambda>v. - (2 ^ 31) \<le> v \<and> v < 2 ^ 31),
     mpz_init_set_str = (\<lambda>s base. set_str_ref s),
     mpz_get_str = (\<lambda>base v. digits (nat v)) \<rparr>"

interpretation zref: gmp_mpz mpz_ref
  by unfold_locales (simp_all add: mpz_ref_def export_nat invert_ref set_str_ref, simp add: set_str_ref_def)

end
