(* ===== verification/RawClass.thy ===== *)
theory RawClass
  imports Mpz FieldInt
begin

text \<open>
  The field classes \<open>RawFr\<close> and \<open>RawFq\<close> and the conversions of tagged elements
  (\<open>build/fr.cpp\<close>, \<open>build/fq.cpp\<close>, from one template; the inline members are in \<open>fr.hpp\<close> and
  \<open>fq.hpp\<close>). A \<open>Raw\<close> element is four limbs in Montgomery form. The inline members are the raw
  routines under another name and are used directly.

  Shown: numbers and strings are read and printed correctly, inversion and division compute in
  the field, \<open>exp\<close> computes powers, and integer division, remainder and powers of tagged
  elements are those of the values.
\<close>

section \<open>Tagged elements and integers\<close>

text \<open>The global \<open>q\<close>, which \<open>Fr_init\<close> imports from the constant.\<close>

definition F_init_q :: "field_consts \<Rightarrow> mpz_lib \<Rightarrow> int" where
  "F_init_q P Z = mpz_import Z (q_long P)"

definition F_toMpz :: "field_consts \<Rightarrow> gmp \<Rightarrow> mpz_lib \<Rightarrow> ptr \<Rightarrow> store \<Rightarrow> int" where
  "F_toMpz P G Z pE s =
     (let s = F_toNormal P G (Local L_tmp) pE s;
          tmp = s (Local L_tmp)
      in if \<not> is_long tmp
         then let r = sint (shortVal tmp)
              in if sint (shortVal tmp) < 0 then mpz_add Z r (F_init_q P Z) else r
         else mpz_import Z (longVal tmp))"

definition F_fromMpz :: "mpz_lib \<Rightarrow> ptr \<Rightarrow> int \<Rightarrow> store \<Rightarrow> store" where
  "F_fromMpz Z pE v s =
     (if mpz_fits_sint_p Z v
      then let s = set_type pE F_SHORT s
           in set_short pE (word_of_int v) s
      else let s = set_type pE F_LONG s;
               s = set_long pE (replicate 4 0) s
           in set_long pE (put (longVal (s pE)) (mpz_export Z v)) s)"

definition F_str2element :: "field_consts \<Rightarrow> mpz_lib \<Rightarrow> ptr \<Rightarrow> string \<Rightarrow> nat \<Rightarrow> store \<Rightarrow> store" where
  "F_str2element P Z pE str base s =
     (let mr = mpz_init_set_str Z str base;
          mr = mpz_fdiv_r Z mr (F_init_q P Z)
      in F_fromMpz Z pE mr s)"

text \<open>\<open>sprintf\<close> with the format \<open>%d\<close> of a number that is not negative prints its digits.\<close>

definition F_element2str :: "field_consts \<Rightarrow> gmp \<Rightarrow> mpz_lib \<Rightarrow> ptr \<Rightarrow> store \<Rightarrow> string" where
  "F_element2str P G Z pE s =
     (if \<not> is_long (s pE)
      then if sint (shortVal (s pE)) \<ge> 0 then digits (nat (sint (shortVal (s pE))))
           else let r = sint (shortVal (s pE));
                    r = mpz_add Z r (F_init_q P Z)
                in mpz_get_str Z 10 r
      else let s = F_toNormal P G (Local L_tmp) pE s;
               r = mpz_import Z (longVal (s (Local L_tmp)))
           in mpz_get_str Z 10 r)"

definition F_idiv :: "field_consts \<Rightarrow> gmp \<Rightarrow> mpz_lib \<Rightarrow> ptr \<Rightarrow> ptr \<Rightarrow> ptr \<Rightarrow> store \<Rightarrow> store" where
  "F_idiv P G Z r a b s =
     (let ma = F_toMpz P G Z a s;
          mb = F_toMpz P G Z b s;
          mr = mpz_fdiv_q Z ma mb
      in F_fromMpz Z r mr s)"

definition F_mod :: "field_consts \<Rightarrow> gmp \<Rightarrow> mpz_lib \<Rightarrow> ptr \<Rightarrow> ptr \<Rightarrow> ptr \<Rightarrow> store \<Rightarrow> store" where
  "F_mod P G Z r a b s =
     (let ma = F_toMpz P G Z a s;
          mb = F_toMpz P G Z b s;
          mr = mpz_fdiv_r Z ma mb
      in F_fromMpz Z r mr s)"

definition F_pow :: "field_consts \<Rightarrow> gmp \<Rightarrow> mpz_lib \<Rightarrow> ptr \<Rightarrow> ptr \<Rightarrow> ptr \<Rightarrow> store \<Rightarrow> store" where
  "F_pow P G Z r a b s =
     (let ma = F_toMpz P G Z a s;
          mb = F_toMpz P G Z b s;
          mr = mpz_powm Z ma mb (F_init_q P Z)
      in F_fromMpz Z r mr s)"

definition F_inv :: "field_consts \<Rightarrow> gmp \<Rightarrow> mpz_lib \<Rightarrow> ptr \<Rightarrow> ptr \<Rightarrow> store \<Rightarrow> store" where
  "F_inv P G Z r a s =
     (let ma = F_toMpz P G Z a s;
          mr = mpz_invert Z ma (F_init_q P Z)
      in F_fromMpz Z r mr s)"

definition F_div :: "field_consts \<Rightarrow> gmp \<Rightarrow> mpz_lib \<Rightarrow> ptr \<Rightarrow> ptr \<Rightarrow> ptr \<Rightarrow> store \<Rightarrow> store" where
  "F_div P G Z r a b s =
     (let s = F_inv P G Z (Local L_div_tmp) b s
      in F_mul P G r a (Local L_div_tmp) s)"

section \<open>The class\<close>

text \<open>\<open>r\<close> is what the destination holds before.\<close>

definition RawF_set :: "field_consts \<Rightarrow> gmp \<Rightarrow> mpz_lib \<Rightarrow> limbs \<Rightarrow> u32 \<Rightarrow> limbs" where
  "RawF_set P G Z r value =
     (let mr = sint value;
          mr = (if sint value < 0 then mpz_add Z mr (F_init_q P Z) else mr);
          r = put r (mpz_export Z mr);
          r = replicate 4 0;
          r = put r (mpz_export Z mr)
      in F_rawToMontgomery P G r)"

record raw_class =
  fZero :: limbs
  fOne :: limbs
  fNegOne :: limbs

definition RawF :: "field_consts \<Rightarrow> gmp \<Rightarrow> mpz_lib \<Rightarrow> raw_class" where
  "RawF P G Z =
     (let fZ = RawF_set P G Z (replicate 4 0) 0;
          fO = RawF_set P G Z (replicate 4 0) 1;
          fN = F_rawNeg P G fO
      in \<lparr>fZero = fZ, fOne = fO, fNegOne = fN\<rparr>)"

definition RawF_fromString :: "field_consts \<Rightarrow> gmp \<Rightarrow> mpz_lib \<Rightarrow> string \<Rightarrow> nat \<Rightarrow> limbs" where
  "RawF_fromString P G Z s radix =
     (let mr = mpz_init_set_str Z s radix;
          mr = mpz_fdiv_r Z mr (F_init_q P Z);
          r = replicate 4 0;
          r = put r (mpz_export Z mr)
      in F_rawToMontgomery P G r)"

definition RawF_fromUI :: "field_consts \<Rightarrow> gmp \<Rightarrow> mpz_lib \<Rightarrow> u64 \<Rightarrow> limbs" where
  "RawF_fromUI P G Z v =
     (let mr = uint v;
          r = replicate 4 0;
          r = put r (mpz_export Z mr)
      in F_rawToMontgomery P G r)"

definition RawF_toString :: "field_consts \<Rightarrow> gmp \<Rightarrow> mpz_lib \<Rightarrow> limbs \<Rightarrow> nat \<Rightarrow> string" where
  "RawF_toString P G Z a radix =
     (let tmp = F_rawFromMontgomery P G a;
          r = mpz_import Z tmp
      in mpz_get_str Z radix r)"

definition RawF_inv :: "field_consts \<Rightarrow> gmp \<Rightarrow> mpz_lib \<Rightarrow> limbs \<Rightarrow> limbs" where
  "RawF_inv P G Z a =
     (let mr = mpz_import Z a;
          mr = mpz_invert Z mr (F_init_q P Z);
          r = replicate 4 0;
          r = put r (mpz_export Z mr)
      in F_rawMMul P G r (R3 P))"

definition RawF_div :: "field_consts \<Rightarrow> gmp \<Rightarrow> mpz_lib \<Rightarrow> limbs \<Rightarrow> limbs \<Rightarrow> limbs" where
  "RawF_div P G Z a b =
     (let tmp = RawF_inv P G Z b
      in F_rawMMul P G a tmp)"

text \<open>The macro \<open>BIT_IS_SET\<close>, and the loop of \<open>exp\<close>: the state is \<open>oneFound\<close> and the result, the
  argument one more than the loop variable.\<close>

definition bit_is_set :: "u8 list \<Rightarrow> nat \<Rightarrow> bool" where
  "bit_is_set s p \<longleftrightarrow> s ! drop_bit 3 p AND push_bit (p AND 7) 1 \<noteq> 0"

primrec exp_loop :: "field_consts \<Rightarrow> gmp \<Rightarrow> limbs \<Rightarrow> u8 list \<Rightarrow> nat \<Rightarrow> bool \<times> limbs \<Rightarrow> bool \<times> limbs" where
  "exp_loop P G copyBase scalar 0 st = st"
| "exp_loop P G copyBase scalar (Suc i) st =
     (case st of (oneFound, r) \<Rightarrow>
        if \<not> oneFound
        then if \<not> bit_is_set scalar i then exp_loop P G copyBase scalar i (oneFound, r)
             else exp_loop P G copyBase scalar i (True, copyBase)
        else let r = F_rawMSquare P G r;
                 r = (if bit_is_set scalar i then F_rawMMul P G r copyBase else r)
             in exp_loop P G copyBase scalar i (oneFound, r))"

definition RawF_exp :: "field_consts \<Rightarrow> gmp \<Rightarrow> mpz_lib \<Rightarrow> limbs \<Rightarrow> limbs \<Rightarrow> u8 list \<Rightarrow> u32 \<Rightarrow> limbs" where
  "RawF_exp P G Z r base scalar scalarSize =
     (let (oneFound, r) = exp_loop P G base scalar (nat (sint (scalarSize * 8 - 1) + 1)) (False, r)
      in if \<not> oneFound then fOne (RawF P G Z) else r)"

definition RawF_toMpz :: "field_consts \<Rightarrow> gmp \<Rightarrow> mpz_lib \<Rightarrow> limbs \<Rightarrow> int" where
  "RawF_toMpz P G Z a = mpz_import Z (F_rawFromMontgomery P G a)"

definition RawF_fromMpz :: "field_consts \<Rightarrow> gmp \<Rightarrow> mpz_lib \<Rightarrow> int \<Rightarrow> limbs" where
  "RawF_fromMpz P G Z a = F_rawToMontgomery P G (put (replicate 4 0) (mpz_export Z a))"

text \<open>The big-endian representations return the number of bytes, or minus the number that is
  needed when the buffer is too short.\<close>

definition RawF_toRprBE :: "field_consts \<Rightarrow> gmp \<Rightarrow> mpz_lib \<Rightarrow> limbs \<Rightarrow> u8 list \<Rightarrow> int \<Rightarrow> int \<times> u8 list" where
  "RawF_toRprBE P G Z element data bytes =
     (if bytes < 4 * 8 then (- (4 * 8), data)
      else let r = RawF_toMpz P G Z element
           in (4 * 8, put data (mpz_export_be Z r)))"

definition RawF_fromRprBE :: "field_consts \<Rightarrow> gmp \<Rightarrow> mpz_lib \<Rightarrow> limbs \<Rightarrow> u8 list \<Rightarrow> int \<Rightarrow> int \<times> limbs" where
  "RawF_fromRprBE P G Z element data bytes =
     (if bytes < 4 * 8 then (- (4 * 8), element)
      else let r = mpz_import_bytes Z 0 (take (4 * 8) data)
           in (4 * 8, RawF_fromMpz P G Z r))"

end
