(* ===== verification/RawClassCorrect.thy ===== *)
theory RawClassCorrect
  imports RawClass
begin

text \<open>
  Correctness of the field classes, for any constants that fit together and any GMP that
  behaves as documented.
\<close>

locale raw_class_field = mont_field G P + gmp_mpz Z for G P Z
begin

lemma init_q: "F_init_q P Z = prime_of P"
  by (simp add: F_init_q_def mpz_import prime_of_def)

lemma lt_256: "v < prime_of P \<Longrightarrow> v < 2 ^ 256"
  using q_upper by simp

section \<open>Conversions of tagged elements\<close>

lemma toMpz:
  assumes "felem P (s a)"
  shows "F_toMpz P G Z a s = fval P (s a)"
proof -
  define t where "t = F_toNormal P G (Local L_tmp) a s (Local L_tmp)"
  have t: "felem P t" "fval P t = fval P (s a)"
    using F_toNormal(1) [of s a "Local L_tmp"] assms fval_bounds [OF assms] by (simp_all add: t_def elem_repr_def)
  have nm: "etype t \<noteq> F_LONGMONTGOMERY"
    using assms by (cases rule: felem_cases) (auto simp: t_def F_toNormal_def Let_def type_defs)
  have v: "F_toMpz P G Z a s = (if \<not> is_long t then if sint (shortVal t) < 0 then sint (shortVal t) + prime_of P else sint (shortVal t)
      else lval (longVal t))"
    by (simp add: F_toMpz_def Let_def init_q mpz_add mpz_import flip: t_def)
  have b: "- (2 ^ 31) \<le> sint (shortVal t)" "sint (shortVal t) < 2 ^ 31" by (rule short_bounds)+
  have sv: "(if sint (shortVal t) < 0 then sint (shortVal t) + prime_of P else sint (shortVal t)) = sint (shortVal t) mod prime_of P"
  proof (cases "sint (shortVal t) < 0")
    case True
    then have "(sint (shortVal t) + prime_of P) mod prime_of P = sint (shortVal t) + prime_of P"
      using b q_lower by (intro mod_pos_pos_trivial) simp_all
    then show ?thesis using True by simp
  next
    case False
    then show ?thesis using b q_lower by simp
  qed
  have "F_toMpz P G Z a s = fval P t"
    using t(1)
  proof (cases rule: felem_cases)
    case short
    then show ?thesis by (simp only: v sv) (simp add: type_defs is_long_def)
  next
    case long
    then show ?thesis using fval_bounds [OF t(1)] by (simp add: v repr_n_def)
  next
    case smont
    then show ?thesis by (simp only: v sv) (simp add: type_defs is_long_def)
  qed (use nm in simp)
  then show ?thesis by (simp add: t(2))
qed

lemma fromMpz:
  assumes "0 \<le> v" "v < prime_of P"
  shows "elem_repr P (F_fromMpz Z r v s r) v"
proof (cases "mpz_fits_sint_p Z v")
  case True
  then have "v < 2 ^ 31" by (simp add: mpz_fits_sint_p)
  then have "sint (word_of_int v :: u32) = v" using assms(1)
    by (simp add: signed_of_int signed_take_bit_int_eq_self)
  then show ?thesis using True by (intro elem_repr_short) (simp_all add: F_fromMpz_def Let_def)
next
  case False
  then show ?thesis using assms export_put [of v] lt_256 [OF assms(2)]
    by (intro elem_repr_long) (simp_all add: F_fromMpz_def Let_def repr_n_def raw_elem_def)
qed

lemma fromMpz_other: "p \<noteq> r \<Longrightarrow> F_fromMpz Z r v s p = s p"
  by (simp add: F_fromMpz_def Let_def)

lemma str2element:
  assumes "list_all is_digit str" "str \<noteq> []"
  shows "elem_repr P (F_str2element P Z r str 10 s r) (int (dec_val str))"
  using fromMpz [of "int (dec_val str) mod prime_of P" r s] q_pos assms
  by (simp add: F_str2element_def Let_def init_q mpz_fdiv_r mpz_init_set_str elem_repr_mod)

lemma element2str:
  assumes "felem P (s a)"
  shows "F_element2str P G Z a s = digits (nat (fval P (s a)))"
proof (cases "is_long (s a)")
  case True
  then have "F_element2str P G Z a s = digits (nat (fval P (s a)))"
  proof -
    have n: "repr_n P (longVal (F_toNormal P G (Local L_tmp) a s (Local L_tmp))) (fval P (s a))"
      using F_toNormal(2) [of s a "Local L_tmp"] assms True by simp
    then show ?thesis using True fval_bounds [OF assms]
      by (simp add: F_element2str_def Let_def mpz_import mpz_get_str repr_n_def)
  qed
  then show ?thesis .
next
  case False
  have e: "F_toMpz P G Z a s = (if sint (shortVal (s a)) < 0 then sint (shortVal (s a)) + prime_of P else sint (shortVal (s a)))"
  proof -
    have "F_toNormal P G (Local L_tmp) a s (Local L_tmp) = s a"
      using assms False by (cases rule: felem_cases) (auto simp: F_toNormal_def type_defs is_long_def)
    then show ?thesis using False by (simp add: F_toMpz_def Let_def init_q mpz_add)
  qed
  have b: "- (2 ^ 31) \<le> sint (shortVal (s a))" by (rule short_bounds)
  have "0 \<le> sint (shortVal (s a)) + prime_of P" using b q_lower by simp
  then show ?thesis using False e toMpz [of s a] assms
    by (simp add: F_element2str_def Let_def init_q mpz_add mpz_get_str split: if_splits)
qed

text \<open>Integer division, remainder, powers and inverses of values.\<close>

lemma idiv_mod:
  assumes "felem P (s a)" "felem P (s b)" "fval P (s b) \<noteq> 0"
  shows "elem_repr P (F_idiv P G Z r a b s r) (fval P (s a) div fval P (s b))"
    and "elem_repr P (F_mod P G Z r a b s r) (fval P (s a) mod fval P (s b))"
proof -
  have b: "0 \<le> fval P (s a)" "fval P (s a) < prime_of P" "0 < fval P (s b)"
    using fval_bounds [OF assms(1)] fval_bounds [OF assms(2)] assms(3) by simp_all
  have "fval P (s a) div fval P (s b) \<le> fval P (s a)" using b zdiv_mono2 [of "fval P (s a)" 1 "fval P (s b)"] by simp
  then show "elem_repr P (F_idiv P G Z r a b s r) (fval P (s a) div fval P (s b))"
    using b assms by (simp add: F_idiv_def Let_def toMpz mpz_fdiv_q) (intro fromMpz; simp add: pos_imp_zdiv_nonneg_iff)
  have "fval P (s a) mod fval P (s b) \<le> fval P (s a)" using b by (intro zmod_le_nonneg_dividend) simp_all
  then show "elem_repr P (F_mod P G Z r a b s r) (fval P (s a) mod fval P (s b))"
    using b assms by (simp add: F_mod_def Let_def toMpz mpz_fdiv_r) (intro fromMpz; simp)
qed

lemma pow:
  assumes "felem P (s a)" "felem P (s b)"
  shows "elem_repr P (F_pow P G Z r a b s r) (fval P (s a) ^ nat (fval P (s b)))"
  using fromMpz [of "fval P (s a) ^ nat (fval P (s b)) mod prime_of P" r s] q_pos fval_bounds [OF assms(2)] assms
  by (simp add: F_pow_def Let_def toMpz mpz_powm init_q elem_repr_mod)

lemma inv:
  assumes "felem P (s a)" "coprime (fval P (s a)) (prime_of P)"
  shows "\<exists>w. elem_repr P (F_inv P G Z r a s r) w \<and> (fval P (s a) * w) mod prime_of P = 1"
  using fromMpz [of "mpz_invert Z (fval P (s a)) (prime_of P)" r s] mpz_invert [of "prime_of P" "fval P (s a)"] q_lower assms
  by (auto simp: F_inv_def Let_def toMpz init_q)

lemma div:
  assumes "felem P (s (Obj a))" "felem P (s (Obj b))" "coprime (fval P (s (Obj b))) (prime_of P)"
  shows "felem P (F_div P G Z r (Obj a) (Obj b) s r)
    \<and> (fval P (F_div P G Z r (Obj a) (Obj b) s r) * fval P (s (Obj b))) mod prime_of P = fval P (s (Obj a))"
proof -
  define s1 where "s1 = F_inv P G Z (Local L_div_tmp) (Obj b) s"
  obtain w where w: "elem_repr P (s1 (Local L_div_tmp)) w" "(fval P (s (Obj b)) * w) mod prime_of P = 1"
    using inv [of s "Obj b" "Local L_div_tmp"] assms by (auto simp: s1_def)
  have a: "s1 (Obj a) = s (Obj a)" by (simp add: s1_def F_inv_def Let_def fromMpz_other)
  have m: "elem_repr P (F_mul P G r (Obj a) (Local L_div_tmp) s1 r) (fval P (s (Obj a)) * fval P (s1 (Local L_div_tmp)))"
    using F_mul [of s1 "Obj a" "Local L_div_tmp" r] a assms(1) w(1) by (simp add: elem_repr_def)
  let ?x = "fval P (s (Obj a))" and ?y = "fval P (s (Obj b))"
  have "(?x * w mod prime_of P * ?y) mod prime_of P = (?x * ((?y * w) mod prime_of P)) mod prime_of P"
    by (simp add: mod_mult_left_eq mod_mult_right_eq ac_simps)
  also have "\<dots> = ?x" using w(2) fval_bounds [OF assms(1)] by simp
  finally show ?thesis
    using m w(1) by (simp add: F_div_def elem_repr_def mod_mult_right_eq flip: s1_def)
qed

section \<open>Elements of the class\<close>

lemma repr_m_of: "raw_elem P x \<Longrightarrow> repr_m P x (lval x * Rinv P)"
  using cancel_R [of "lval x"] elem_mod [of x] by (simp add: repr_m_def ac_simps)

lemma repr_m_val: "repr_m P x v \<Longrightarrow> (lval x * Rinv P) mod prime_of P = v mod prime_of P"
  using cancel_R [of v] by (simp add: repr_m_def mod_mult_left_eq)

lemma repr_m_cong: "repr_m P x v \<Longrightarrow> v mod prime_of P = w mod prime_of P \<Longrightarrow> repr_m P x w"
  by (metis repr_m_mod)

lemma toMontgomery: "length x = 4 \<Longrightarrow> repr_m P (F_rawToMontgomery P G x) (lval x)"
  using rawToMontgomery [of x] by (simp add: repr_m_def mont_R_def)

lemma raw_set: "repr_m P (RawF_set P G Z r x) (sint x)"
proof -
  define v where "v = (if sint x < 0 then sint x + prime_of P else sint x)"
  have b: "- (2 ^ 31) \<le> sint x" "sint x < 2 ^ 31" using sint_bounds [of x] by simp_all
  then have v: "0 \<le> v" "v < 2 ^ 256" using q_lower q_upper by (simp_all add: v_def)
  have "RawF_set P G Z r x = F_rawToMontgomery P G (put (replicate 4 0) (mpz_export Z v))"
    by (simp add: RawF_set_def Let_def init_q mpz_add v_def)
  then have "repr_m P (RawF_set P G Z r x) v" using toMontgomery export_put [OF v] by metis
  then show ?thesis by (rule repr_m_cong) (simp add: v_def)
qed

lemma raw_consts: "repr_m P (fZero (RawF P G Z)) 0" "repr_m P (fOne (RawF P G Z)) 1" "repr_m P (fNegOne (RawF P G Z)) (- 1)"
proof -
  show one: "repr_m P (fOne (RawF P G Z)) 1" using raw_set [of "replicate 4 0" "1"] by (simp add: RawF_def Let_def)
  show "repr_m P (fNegOne (RawF P G Z)) (- 1)" using repr_neg_m [OF one] by (simp add: RawF_def Let_def)
qed (use raw_set [of "replicate 4 0" "0"] in \<open>simp add: RawF_def Let_def\<close>)

lemma raw_fromString_int:
  assumes "mpz_init_set_str Z s 10 = n"
  shows "repr_m P (RawF_fromString P G Z s 10) n"
proof -
  define v where "v = n mod prime_of P"
  have v: "0 \<le> v" "v < 2 ^ 256" using q_pos lt_256 by (simp_all add: v_def)
  have "RawF_fromString P G Z s 10 = F_rawToMontgomery P G (put (replicate 4 0) (mpz_export Z v))"
    using q_pos assms by (simp add: RawF_fromString_def Let_def init_q mpz_fdiv_r v_def)
  then have "repr_m P (RawF_fromString P G Z s 10) v" using toMontgomery export_put [OF v] by metis
  then show ?thesis by (rule repr_m_cong) (simp add: v_def)
qed

lemma raw_fromString:
  "list_all is_digit s \<Longrightarrow> s \<noteq> [] \<Longrightarrow> repr_m P (RawF_fromString P G Z s 10) (int (dec_val s))"
  by (intro raw_fromString_int mpz_init_set_str)

lemma raw_fromString_neg:
  "list_all is_digit s \<Longrightarrow> s \<noteq> [] \<Longrightarrow> repr_m P (RawF_fromString P G Z (CHR ''-'' # s) 10) (- int (dec_val s))"
  by (intro raw_fromString_int mpz_init_set_str_neg)

lemma raw_fromUI: "repr_m P (RawF_fromUI P G Z v) (uint v)"
proof -
  have "0 \<le> uint v" "uint v < 2 ^ 256" using uint_limb_upper [of v] by simp_all
  then show ?thesis using toMontgomery export_put [of "uint v"] by (simp add: RawF_fromUI_def Let_def) metis
qed

lemma raw_toMpz: "repr_m P x v \<Longrightarrow> RawF_toMpz P G Z x = v mod prime_of P"
  using repr_fromMont [of x v] by (simp add: RawF_toMpz_def mpz_import repr_n_def)

lemma raw_fromMpz: "0 \<le> v \<Longrightarrow> v < 2 ^ 256 \<Longrightarrow> repr_m P (RawF_fromMpz P G Z v) v"
  using toMontgomery export_put [of v] by (simp add: RawF_fromMpz_def) metis

lemma raw_toString: "repr_m P x v \<Longrightarrow> RawF_toString P G Z x 10 = digits (nat (v mod prime_of P))"
  using repr_fromMont [of x v] q_pos by (simp add: RawF_toString_def Let_def mpz_import mpz_get_str repr_n_def)

lemma raw_inv:
  assumes x: "repr_m P x v" and v: "coprime v (prime_of P)"
  shows "\<exists>w. repr_m P (RawF_inv P G Z x) w \<and> (v * w) mod prime_of P = 1"
proof -
  define y where "y = mpz_invert Z (lval x) (prime_of P)"
  have "coprime mont_R (prime_of P)" using coprime_2_q unfolding mont_R_def by (simp only: coprime_power_left_iff) simp
  then have "coprime (v * mont_R) (prime_of P)" using v by simp
  moreover have "gcd ((v * mont_R) mod prime_of P) (prime_of P) = gcd (v * mont_R) (prime_of P)"
    by (metis gcd.commute gcd_red_int)
  ultimately have "coprime (lval x) (prime_of P)" using x by (simp add: repr_m_def coprime_iff_gcd_eq_1)
  then have y: "0 \<le> y" "y < prime_of P" "(lval x * y) mod prime_of P = 1"
    using mpz_invert [of "prime_of P" "lval x"] q_lower by (simp_all add: y_def)
  define e where "e = put (replicate 4 0) (mpz_export Z y)"
  have e: "length e = 4" "lval e = y" using export_put [OF y(1) lt_256 [OF y(2)]] by (simp_all add: e_def)
  have w: "repr_m P (RawF_inv P G Z x) (y * mont_R)"
    using repr_R3 [of e "y * mont_R"] e y by (simp add: RawF_inv_def Let_def mpz_import init_q raw_elem_def e_def y_def)
  have "(v * (y * mont_R)) mod prime_of P = (lval x * y) mod prime_of P"
    using x by (simp add: repr_m_def mod_mult_left_eq mod_mult_right_eq ac_simps)
  then show ?thesis using w y(3) by auto
qed

lemma raw_div:
  assumes "repr_m P x u" "repr_m P y v" "coprime v (prime_of P)"
  shows "\<exists>w. repr_m P (RawF_div P G Z x y) (u * w) \<and> (v * w) mod prime_of P = 1"
  using raw_inv [OF assms(2,3)] repr_mul_mm [OF assms(1)] by (auto simp: RawF_div_def)

section \<open>Powers\<close>

lemma bit_is_set: "p < 8 * length scalar \<Longrightarrow> bit_is_set scalar p \<longleftrightarrow> bit (le_val scalar) p"
proof -
  assume "p < 8 * length scalar"
  have a: "p AND 7 = p mod 8" using take_bit_eq_mask [of 3 p] by (simp add: mask_eq_exp_minus_1 take_bit_eq_mod)
  have "bit_is_set scalar p \<longleftrightarrow> bit (scalar ! (p div 8)) (p mod 8)"
    by (simp add: bit_is_set_def a drop_bit_eq_div bit_iff_and_push_bit_not_eq_0)
  then show ?thesis using bit_le_val [OF \<open>p < 8 * length scalar\<close>] by simp
qed

lemma drop_bit_step: "drop_bit i (n :: nat) = 2 * drop_bit (Suc i) n + of_bool (bit n i)"
proof -
  have "drop_bit (Suc i) n = drop_bit i n div 2" by (metis drop_bit_eq_div div_mult2_eq power_Suc2)
  moreover have "drop_bit i n mod 2 = of_bool (bit n i)" by (simp add: bit_iff_odd_drop_bit mod_2_eq_odd)
  ultimately show ?thesis by (metis mult_div_mod_eq)
qed

lemma exp_loop:
  assumes base: "repr_m P b v" and "n \<le> 8 * length scalar"
    and "case st of (found, r) \<Rightarrow> if found then repr_m P r (v ^ drop_bit n (le_val scalar)) else drop_bit n (le_val scalar) = 0"
  shows "case exp_loop P G b scalar n st of (found, r) \<Rightarrow>
    if found then repr_m P r (v ^ le_val scalar) else le_val scalar = 0"
  using assms(2,3)
proof (induction n arbitrary: st)
  case (Suc n)
  let ?S = "le_val scalar"
  obtain found r where st: "st = (found, r)" by (cases st)
  have bit: "bit_is_set scalar n \<longleftrightarrow> bit ?S n" using bit_is_set Suc.prems(1) by simp
  have S: "drop_bit n ?S = 2 * drop_bit (Suc n) ?S + of_bool (bit ?S n)" by (rule drop_bit_step)
  show ?case
  proof (cases found)
    case False
    then have "drop_bit n ?S = of_bool (bit ?S n)" using S Suc.prems(2) by (simp add: st)
    then show ?thesis using False Suc.IH [of "(False, r)"] Suc.IH [of "(True, b)"] Suc.prems(1) base by (simp add: st bit)
  next
    case True
    then have r: "repr_m P r (v ^ drop_bit (Suc n) ?S)" using Suc.prems(2) by (simp add: st)
    define r' where "r' = F_rawMSquare P G r"
    have r': "repr_m P r' (v ^ (2 * drop_bit (Suc n) ?S))"
      using repr_mul_mm [OF r r] by (simp add: r'_def F_rawMSquare_def mult_2 power_add)
    have "repr_m P (if bit ?S n then F_rawMMul P G r' b else r') (v ^ drop_bit n ?S)"
      using r' repr_mul_mm [OF r' base] by (simp add: S mult.commute)
    then have "case exp_loop P G b scalar n (True, if bit ?S n then F_rawMMul P G r' b else r') of (found, r) \<Rightarrow>
        if found then repr_m P r (v ^ ?S) else ?S = 0"
      using Suc.prems(1) by (intro Suc.IH) simp_all
    then show ?thesis using True by (simp only: st bit exp_loop.simps prod.case Let_def r'_def if_False not_True_eq_False simp_thms)
  qed
qed (auto split: prod.splits)

lemma raw_exp:
  assumes "repr_m P b v" and n: "n = length scalar" "n < 2 ^ 28"
  shows "repr_m P (RawF_exp P G Z r b scalar (of_nat n)) (v ^ le_val scalar)"
proof -
  have "of_nat n * 8 - 1 = (word_of_int (8 * int n - 1) :: u32)" by simp
  moreover have "sint (word_of_int (8 * int n - 1) :: u32) = 8 * int n - 1"
    using n(2) by (subst signed_of_int) (simp add: signed_take_bit_int_eq_self)
  ultimately have i: "nat (sint (of_nat n * 8 - 1 :: u32) + 1) = 8 * length scalar" using n(1) by (simp add: mult.commute)
  have "le_val scalar < 2 ^ (8 * length scalar)" using le_val_upper [of scalar] by (simp add: power_mult)
  then have "drop_bit (8 * length scalar) (le_val scalar) = 0" by (simp add: drop_bit_eq_div)
  then have "case exp_loop P G b scalar (8 * length scalar) (False, r) of (found, r) \<Rightarrow>
      if found then repr_m P r (v ^ le_val scalar) else le_val scalar = 0"
    using assms(1) by (intro exp_loop) simp_all
  then show ?thesis
    using raw_consts(2) by (simp add: RawF_exp_def i split: prod.splits if_splits)
qed

section \<open>Big-endian representations\<close>

lemma length_concat_be8: "length (concat (map be8 ws)) = 8 * length ws"
  by (induction ws) (simp_all add: be8_def)

lemma raw_toRprBE:
  assumes "repr_m P x v" "32 \<le> bytes" "32 \<le> length data"
  shows "\<exists>n. RawF_toRprBE P G Z x data bytes = (32, mpz_export_be Z (v mod prime_of P) @ drop (8 * n) data)
    \<and> length (mpz_export_be Z (v mod prime_of P)) = 8 * n"
proof -
  have "length (mpz_export_be Z (v mod prime_of P)) = 8 * length (mpz_export Z (v mod prime_of P))"
    by (simp add: mpz_export_be length_concat_be8)
  then show ?thesis using assms raw_toMpz [OF assms(1)] by (auto simp: RawF_toRprBE_def Let_def put_def)
qed

lemma export_word:
  assumes "0 < v" "v < 2 ^ 64"
  shows "mpz_export Z v = [word_of_int v]"
proof -
  have l: "length (mpz_export Z v) \<le> 1" using export_length [of v 1] assms by simp
  have v: "lval (mpz_export Z v) = v" using mpz_export [of v] assms by simp
  then obtain w where "mpz_export Z v = [w]" using l assms by (cases "mpz_export Z v") auto
  then show ?thesis using v by auto
qed

lemma toRprBE_small:
  assumes "0 < v" "v < 2 ^ 64"
  shows "RawF_toRprBE P G Z (RawF_fromUI P G Z (word_of_int v)) data 32 = (32, be8 (word_of_int v) @ drop 8 data)"
proof -
  have "uint (word_of_int v :: u64) = v" using assms by (simp add: uint_word_of_int)
  then have "RawF_toMpz P G Z (RawF_fromUI P G Z (word_of_int v)) = v"
    using raw_toMpz [OF raw_fromUI [of "word_of_int v"]] assms q_lower by simp
  then show ?thesis using export_word [OF assms]
    by (simp add: RawF_toRprBE_def mpz_export_be put_def be8_def)
qed

lemma toRprBE_zero: "RawF_toRprBE P G Z (RawF_fromUI P G Z 0) data 32 = (32, data)"
proof -
  have "RawF_toMpz P G Z (RawF_fromUI P G Z 0) = 0" using raw_toMpz [OF raw_fromUI [of 0]] by simp
  moreover have "mpz_export Z 0 = []" using export_length [of 0 0] by simp
  ultimately show ?thesis by (simp add: RawF_toRprBE_def mpz_export_be put_def)
qed

section \<open>Strings\<close>

lemma string_roundtrip:
  assumes "raw_elem P a" and s: "list_all is_digit s" "s \<noteq> []"
  shows "RawF_fromString P G Z (RawF_toString P G Z a 10) 10 = a
    \<and> RawF_toString P G Z (RawF_fromString P G Z s 10) 10 = digits (dec_val s mod nat (prime_of P))
    \<and> F_element2str P G Z e (F_str2element P Z e s 10 st) = digits (dec_val s mod nat (prime_of P))"
proof -
  note ra = repr_m_of [OF assms(1)]
  define n where "n = nat ((lval a * Rinv P) mod prime_of P)"
  have n: "RawF_toString P G Z a 10 = digits n" "int n = (lval a * Rinv P) mod prime_of P"
    using raw_toString [OF ra] q_pos by (simp_all add: n_def)
  have "repr_m P (RawF_fromString P G Z (digits n) 10) (int n)"
    using raw_fromString [OF digits_digits digits_nonempty] by (simp add: dec_val_digits)
  then have "repr_m P (RawF_fromString P G Z (digits n) 10) (lval a * Rinv P)" by (simp add: n(2) repr_m_mod)
  then have "RawF_fromString P G Z (digits n) 10 = a"
    using ra lval_inject [of "RawF_fromString P G Z (digits n) 10" a] by (auto simp: repr_m_def)
  moreover have d: "nat (int (dec_val s) mod prime_of P) = dec_val s mod nat (prime_of P)"
    using q_pos by (simp add: nat_mod_distrib)
  moreover have "RawF_toString P G Z (RawF_fromString P G Z s 10) 10 = digits (dec_val s mod nat (prime_of P))"
    using raw_toString [OF raw_fromString [OF s]] d by simp
  moreover have "F_element2str P G Z e (F_str2element P Z e s 10 st) = digits (dec_val s mod nat (prime_of P))"
    using str2element [OF s, of e st] element2str [of "F_str2element P Z e s 10 st" e] d by (simp add: elem_repr_def)
  ultimately show ?thesis using n(1) by simp
qed

end

end
