(* ===== verification/Primality.thy ===== *)
theory Primality
  imports Main
begin

text \<open>
  The modulus of the base field of the curve is prime. The proof is Pocklington's test with a
  chain of certificates: for large enough prime factors of \<open>n - 1\<close>, a base whose powers show
  that every prime divisor of \<open>n\<close> exceeds the square root of \<open>n\<close>. The powers are computed by
  repeated squaring; the certificates hold the quotients, so checking them only multiplies.
\<close>

section \<open>Primes\<close>

definition is_prime :: "int \<Rightarrow> bool" where
  "is_prime p \<longleftrightarrow> 1 < p \<and> (\<forall>d. 0 < d \<longrightarrow> d dvd p \<longrightarrow> d = 1 \<or> d = p)"

lemma is_primeD: "is_prime p \<Longrightarrow> 0 < d \<Longrightarrow> d dvd p \<Longrightarrow> d = 1 \<or> d = p"
  by (simp add: is_prime_def)

lemma is_prime_gt_1: "is_prime p \<Longrightarrow> 1 < p"
  by (simp add: is_prime_def)

lemma prime_coprime:
  assumes p: "is_prime p" and "\<not> p dvd x"
  shows "coprime x p"
proof -
  have "gcd x p dvd p" "0 < gcd x p" using is_prime_gt_1 [OF p] by (simp_all add: gcd_pos_int)
  then have "gcd x p = 1 \<or> gcd x p = p" by (intro is_primeD [OF p])
  moreover have "gcd x p \<noteq> p" using assms(2) by (metis gcd_dvd1)
  ultimately show ?thesis by (simp add: coprime_iff_gcd_eq_1)
qed

lemma prime_dvd_mult: "is_prime p \<Longrightarrow> p dvd x * y \<Longrightarrow> p dvd x \<or> p dvd y"
  using prime_coprime coprime_commute coprime_dvd_mult_right_iff by blast

lemma prime_dvd_prod: "is_prime p \<Longrightarrow> p dvd prod_list xs \<Longrightarrow> \<exists>x \<in> set xs. p dvd x"
proof (induction xs)
  case Nil
  then show ?case using is_prime_gt_1 [of p] zdvd_not_zless [of 1 p] by auto
next
  case (Cons x xs)
  then show ?case using prime_dvd_mult [of p x "prod_list xs"] by auto
qed

lemma small_prime_divisor:
  assumes "1 < n" "\<not> is_prime n"
  shows "\<exists>p. is_prime p \<and> p dvd n \<and> p * p \<le> n"
proof -
  define D where "D = {d. 1 < d \<and> d \<le> n \<and> d dvd n}"
  have D: "finite D" by (rule finite_subset [of _ "{1..n}"]) (auto simp: D_def)
  have "n \<in> D" using assms by (simp add: D_def)
  then have p: "Min D \<in> D" using D by (intro Min_in) auto
  define p where "p = Min D"
  have pd: "1 < p" "p \<le> n" "p dvd n" using p by (simp_all add: D_def p_def)
  have least: "p \<le> d" if "1 < d" "d dvd n" for d
    using that assms(1) zdvd_imp_le [of d n] D by (auto simp: p_def D_def intro!: Min_le)
  have "is_prime p"
    unfolding is_prime_def
  proof (intro conjI allI impI)
    fix d assume d: "0 < d" "d dvd p"
    show "d = 1 \<or> d = p"
    proof (cases "d = 1")
      case False
      then have "p \<le> d" using d pd by (intro least) (auto intro: dvd_trans)
      then show ?thesis using zdvd_imp_le [OF d(2)] pd by simp
    qed simp
  qed (rule pd(1))
  moreover have "p * p \<le> n"
  proof -
    obtain k where k: "n = p * k" using pd(3) by (auto elim: dvdE)
    have "p \<noteq> n" using calculation assms(2) by auto
    then have "1 < k" using k pd assms(1) by (smt (verit) mult_cancel_left2 zero_less_mult_pos)
    then have "p \<le> k" by (rule least) (simp add: k)
    then show ?thesis unfolding k using pd(1) by (intro mult_left_mono) simp_all
  qed
  ultimately show ?thesis using pd(3) by blast
qed

section \<open>Fermat's little theorem\<close>

lemma mod_inj_on:
  assumes p: "is_prime p" and a: "\<not> p dvd a"
  shows "inj_on (\<lambda>x. (a * x) mod p) {1..<p}"
proof (rule inj_onI)
  fix x y assume xy: "x \<in> {1..<p}" "y \<in> {1..<p}" and "(a * x) mod p = (a * y) mod p"
  then have "p dvd a * x - a * y" by (simp add: mod_eq_dvd_iff)
  then have "p dvd a * (x - y)" by (simp only: right_diff_distrib)
  then have "p dvd x - y" using prime_dvd_mult [OF p] a by blast
  then show "x = y" using xy zdvd_not_zless [of "x - y" p] zdvd_not_zless [of "y - x" p] dvd_minus_iff [of p "x - y"]
    by (smt (verit, best) atLeastLessThan_iff)
qed

lemma fermat:
  assumes p: "is_prime p" and a: "\<not> p dvd a"
  shows "a ^ nat (p - 1) mod p = 1"
proof -
  let ?S = "{1..<p}" and ?f = "\<lambda>x. (a * x) mod p"
  have p1: "1 < p" using is_prime_gt_1 [OF p] .
  have "?f ` ?S \<subseteq> ?S"
  proof
    fix y assume "y \<in> ?f ` ?S"
    then obtain x where x: "1 \<le> x" "x < p" "y = (a * x) mod p" by auto
    have "\<not> p dvd x" using x zdvd_not_zless by auto
    then have "\<not> p dvd a * x" using prime_dvd_mult [OF p] a by blast
    then have "y \<noteq> 0" by (simp add: x dvd_eq_mod_eq_0)
    moreover have "0 \<le> y" "y < p" using p1 by (simp_all add: x)
    ultimately show "y \<in> ?S" by simp
  qed
  then have "?f ` ?S = ?S" using mod_inj_on [OF p a] by (intro card_subset_eq) (simp_all add: card_image)
  then have "(\<Prod>x \<in> ?S. x) = (\<Prod>x \<in> ?S. ?f x)"
    using prod.reindex [OF mod_inj_on [OF p a], of "\<lambda>x. x"] by simp
  then have "(\<Prod>x \<in> ?S. x) mod p = (\<Prod>x \<in> ?S. a * x) mod p"
    using mod_prod_eq [of "\<lambda>x. a * x" p ?S] by simp
  then have "(\<Prod>x \<in> ?S. a * x) mod p = (\<Prod>x \<in> ?S. x) mod p" by (rule sym)
  then have "p dvd (\<Prod>x \<in> ?S. a * x) - (\<Prod>x \<in> ?S. x)" by (simp only: mod_eq_dvd_iff)
  moreover have "(\<Prod>x \<in> ?S. a * x) = a ^ nat (p - 1) * (\<Prod>x \<in> ?S. x)" by (simp add: prod.distrib)
  ultimately have "p dvd (a ^ nat (p - 1) - 1) * (\<Prod>x \<in> ?S. x)" by (simp add: left_diff_distrib)
  moreover have "coprime (\<Prod>x \<in> ?S. x) p"
    by (intro prod_coprime_left prime_coprime [OF p]) (use zdvd_not_zless in auto)
  ultimately have "p dvd a ^ nat (p - 1) - 1" by (simp add: coprime_commute coprime_dvd_mult_left_iff)
  then have "a ^ nat (p - 1) mod p = 1 mod p" by (simp add: mod_eq_dvd_iff)
  then show ?thesis using p1 by simp
qed

section \<open>Pocklington's test\<close>

lemma pow_mod_coprime:
  assumes "b ^ m mod p = (1::int)" "b ^ n mod p = 1" "coprime m n" "0 < m" "1 < p"
  shows "b mod p = 1"
proof -
  have pow1: "b ^ (m * k) mod p = 1" if "b ^ m mod p = 1" for m k
  proof -
    have "b ^ (m * k) mod p = (b ^ m mod p) ^ k mod p" by (simp add: power_mult power_mod)
    then show ?thesis using that assms(5) by simp
  qed
  obtain x y where "m * x = n * y + 1" using bezout_nat [of m n] assms(3,4) by auto
  then have "b ^ (m * x) = b ^ (n * y) * b" by simp
  then have "b ^ (m * x) mod p = (b ^ (n * y) mod p) * b mod p" by (simp add: mod_mult_left_eq)
  then show ?thesis using pow1 [OF assms(1), of x] pow1 [OF assms(2), of y] by simp
qed

text \<open>An element of order \<open>F\<close> modulo every prime divisor of \<open>n\<close>.\<close>

definition order_witness :: "int \<Rightarrow> int \<Rightarrow> int \<Rightarrow> bool" where
  "order_witness n F b \<longleftrightarrow> b ^ nat F mod n = 1 \<and> coprime (b - 1) n"

lemma mod_1_iff: "1 < (p::int) \<Longrightarrow> x mod p = 1 \<longleftrightarrow> p dvd x - 1"
  by (metis mod_eq_dvd_iff mod_pos_pos_trivial zero_le_one)

lemma witness_divides:
  assumes n: "1 < n" and F: "is_prime F" and w: "order_witness n F b" and p: "is_prime p" "p dvd n"
  shows "F dvd p - 1"
proof (rule ccontr)
  assume nd: "\<not> F dvd p - 1"
  have F1: "1 < F" and p1: "1 < p" using F p by (simp_all add: is_prime_gt_1)
  have "n dvd b ^ nat F - 1" using w mod_1_iff [OF n] by (simp add: order_witness_def)
  then have 1: "b ^ nat F mod p = 1" using p(2) by (simp only: mod_1_iff [OF p1]) (rule dvd_trans)
  have co: "coprime (b - 1) n" using w by (simp add: order_witness_def)
  have npb: "\<not> p dvd b"
  proof
    assume "p dvd b"
    moreover have "nat F \<noteq> 0" using F1 by simp
    ultimately have "p dvd b ^ nat F" using dvd_power_le [of p b 1 "nat F"] by simp
    then show False using 1 by (simp add: dvd_eq_mod_eq_0)
  qed
  then have 2: "b ^ nat (p - 1) mod p = 1" by (rule fermat [OF p(1)])
  have "coprime F (p - 1)" using prime_coprime [OF F nd] by (simp add: coprime_commute)
  then have "coprime (int (nat F)) (int (nat (p - 1)))" using F1 p1 by simp
  then have "coprime (nat F) (nat (p - 1))" by (simp only: coprime_int_iff)
  then have "b mod p = 1" using 1 2 F1 p1 by (intro pow_mod_coprime [of b "nat F" p "nat (p - 1)"]) simp_all
  then have "p dvd b - 1" by (simp add: mod_1_iff [OF p1])
  then have "is_unit p" using co p(2) coprime_common_divisor by blast
  then show False using p1 by simp
qed

lemma distinct_primes_dvd:
  assumes "distinct Fs" "\<And>F. F \<in> set Fs \<Longrightarrow> is_prime F" "\<And>F. F \<in> set Fs \<Longrightarrow> F dvd m"
  shows "prod_list Fs dvd m"
  using assms
proof (induction Fs)
  case (Cons F Fs)
  have "\<not> F dvd prod_list Fs"
  proof
    assume "F dvd prod_list Fs"
    then obtain x where x: "x \<in> set Fs" "F dvd x" using prime_dvd_prod Cons.prems(2) by (meson list.set_intros(1))
    then have "F = 1 \<or> F = x" using Cons.prems(2) is_prime_gt_1 [of F] by (intro is_primeD) auto
    then show False using x Cons.prems(1,2) is_prime_gt_1 [of F] by auto
  qed
  then have "coprime (prod_list Fs) F" using prime_coprime Cons.prems(2) by simp
  then show ?case using Cons by (simp add: coprime_commute divides_mult)
qed simp

theorem pocklington:
  assumes n: "1 < n" and Fs: "distinct Fs" "\<And>F. F \<in> set Fs \<Longrightarrow> is_prime F" "n < prod_list Fs * prod_list Fs"
    and w: "\<And>F. F \<in> set Fs \<Longrightarrow> \<exists>b. order_witness n F b"
  shows "is_prime n"
proof (rule ccontr)
  assume "\<not> is_prime n"
  then obtain p where p: "is_prime p" "p dvd n" "p * p \<le> n" using small_prime_divisor [OF n] by blast
  have nonneg: "0 \<le> prod_list Fs" if "\<And>F. F \<in> set Fs \<Longrightarrow> is_prime F" for Fs
    using that
  proof (induction Fs)
    case (Cons F Fs)
    then show ?case using is_prime_gt_1 [of F] by simp
  qed simp
  have "prod_list Fs dvd p - 1" using witness_divides [OF n Fs(2) _ p(1,2)] w by (intro distinct_primes_dvd Fs) blast+
  then have "prod_list Fs \<le> p - 1" using is_prime_gt_1 [OF p(1)] by (intro zdvd_imp_le) simp_all
  then have "prod_list Fs * prod_list Fs \<le> p * p" using nonneg [OF Fs(2)] is_prime_gt_1 [OF p(1)] by (intro mult_mono) simp_all
  then show False using p(3) Fs(3) by linarith
qed

section \<open>Certificates\<close>

text \<open>A power is built by squarings and multiplications by the base; each step subtracts the
  given multiple of the modulus.\<close>

datatype pow_step = Sq int | Mul int

fun pow_steps :: "int \<Rightarrow> int \<Rightarrow> int \<Rightarrow> pow_step list \<Rightarrow> int" where
  "pow_steps n b r [] = r"
| "pow_steps n b r (Sq k # ss) = pow_steps n b (r ^ 2 - k * n) ss"
| "pow_steps n b r (Mul k # ss) = pow_steps n b (r * b - k * n) ss"

fun pow_exp :: "nat \<Rightarrow> pow_step list \<Rightarrow> nat" where
  "pow_exp e [] = e"
| "pow_exp e (Sq k # ss) = pow_exp (2 * e) ss"
| "pow_exp e (Mul k # ss) = pow_exp (e + 1) ss"

lemma mod_minus_multiple: "(x - k * n) mod n = x mod (n::int)"
  by (metis mod_minus_right mod_mult_self1 uminus_add_conv_diff minus_mult_left diff_conv_add_uminus)

lemma pow_steps_mod: "r mod n = b ^ e mod n \<Longrightarrow> pow_steps n b r ss mod n = b ^ pow_exp e ss mod n"
proof (induction ss arbitrary: r e)
  case (Cons s ss)
  show ?case
  proof (cases s)
    case (Sq k)
    have "r ^ 2 mod n = (b ^ e) ^ 2 mod n" using Cons.prems by (metis power_mod)
    then show ?thesis using Sq Cons.IH [of "r ^ 2 - k * n" "2 * e"]
      by (simp add: mod_minus_multiple mult.commute flip: power_mult)
  next
    case (Mul k)
    have "(r * b) mod n = (b ^ e * b) mod n" using Cons.prems by (metis mod_mult_left_eq)
    then show ?thesis using Mul Cons.IH [of "r * b - k * n" "e + 1"]
      by (simp add: mod_minus_multiple mult.commute)
  qed
qed simp

text \<open>\<open>r\<close> is the power \<open>b^e\<close> modulo \<open>n\<close>; a list of steps takes one power to a higher one.\<close>

definition pow_reach :: "int \<Rightarrow> int \<Rightarrow> nat \<Rightarrow> int \<Rightarrow> bool" where
  "pow_reach n b e r \<longleftrightarrow> r mod n = b ^ e mod n"

lemma pow_reach_start: "pow_reach n b 1 b"
  by (simp add: pow_reach_def)

lemma pow_reach_steps: "pow_reach n b e r \<Longrightarrow> pow_steps n b r ss = r' \<Longrightarrow> pow_exp e ss = e' \<Longrightarrow> pow_reach n b e' r'"
  using pow_steps_mod [of r n b e ss] by (simp add: pow_reach_def)

lemmas pow_eval = pow_steps.simps power_numeral pow.simps sqr.simps numeral_times_numeral mult_num_simps add_num_simps
  numeral_plus_numeral diff_numeral_simps sub_num_simps dbl_simps dbl_inc_simps dbl_dec_simps add_neg_numeral_simps BitM.simps

lemma order_witnessI:
  assumes "pow_reach n b (nat F) 1" and "1 < n" and "u * (b - 1) = v * n + 1"
  shows "order_witness n F b"
proof -
  have "b ^ nat F mod n = 1" using assms(1,2) by (simp add: pow_reach_def)
  moreover have "coprime (b - 1) n"
  proof (rule coprimeI)
    fix d assume "d dvd b - 1" "d dvd n"
    then have "d dvd u * (b - 1) - v * n" by simp
    then show "is_unit d" using assms(3) by simp
  qed
  ultimately show ?thesis by (simp add: order_witness_def)
qed

text \<open>Small primes by trial division.\<close>

lemma small_prime:
  assumes "1 < n" "n < m * m" "0 < m" "list_all (\<lambda>d. n mod d \<noteq> 0) [2..m - 1]"
  shows "is_prime n"
proof (rule ccontr)
  assume "\<not> is_prime n"
  then obtain p where p: "is_prime p" "p dvd n" "p * p \<le> n" using small_prime_divisor [OF assms(1)] by blast
  have "p < m"
  proof (rule ccontr)
    assume "\<not> p < m"
    then have "m * m \<le> p * p" using assms(3) by (intro mult_mono) simp_all
    then show False using p(3) assms(2) by simp
  qed
  then have "n mod p \<noteq> 0" using assms(4) is_prime_gt_1 [OF p(1)] by (simp add: list_all_iff)
  then show False using p(2) by (simp add: dvd_eq_mod_eq_0)
qed

end
