(* ===== verification/FqPrime.thy ===== *)
theory FqPrime
  imports Primality
begin

text \<open>
  The certificates for the modulus of the base field: the chain of primes and, for each, the
  powers of an element whose order is a large prime factor of \<open>n - 1\<close>.
\<close>

section \<open>Small primes\<close>

lemma prime_13: "is_prime 13"
  by (rule small_prime [where m = 4]) (simp_all add: upto_rec_numeral upto.simps)

lemma prime_3557: "is_prime 3557"
  by (rule small_prime [where m = 60]) (simp_all add: upto_rec_numeral upto.simps)

lemma prime_13327: "is_prime 13327"
  by (rule small_prime [where m = 116]) (simp_all add: upto_rec_numeral upto.simps)

section \<open>1263766531\<close>

text \<open>The powers of an element of order \<open>3557\<close>.\<close>

lemma p31_557_pow: "pow_reach 1263766531
    142661317 3557 1"
  by (rule pow_reach_steps [OF pow_reach_start, where ss = "[
      Sq 16104439, Mul 40576059, Sq 338083406, Sq 254418781, Mul 93188586, Sq 496865855, Mul 90578244, Sq 1060022906, Mul 6799446, Sq 128486302,
      Mul 11483864, Sq 1242498785, Sq 967774210, Sq 903230387, Mul 56500920, Sq 92247148, Sq 1486780, Mul 70000696]"])
    (simp only: pow_eval, simp)

lemma p31_557_order: "order_witness 1263766531 3557
    142661317"
  by (rule order_witnessI [where u = 1084735757
      and v = 122451281])
    (simp_all add: p31_557_pow)

text \<open>The powers of an element of order \<open>13\<close>.\<close>

lemma p31_13_pow: "pow_reach 1263766531
    733610513 13 1"
  by (rule pow_reach_steps [OF pow_reach_start, where ss = "[
      Sq 425857444, Mul 46274997, Sq 89248087, Sq 451281857, Mul 56424735]"])
    (simp only: pow_eval, simp)

lemma p31_13_order: "order_witness 1263766531 13
    733610513"
  by (rule order_witnessI [where u = 645555144
      and v = 374741717])
    (simp_all add: p31_13_pow)

lemma prime_p31: "is_prime 1263766531"
  by (rule pocklington [where Fs = "[3557, 13]"])
    (auto simp: prime_3557 prime_13 intro: p31_557_order p31_13_order)

section \<open>35385462869\<close>

text \<open>The powers of an element of order \<open>1263766531\<close>.\<close>

lemma p36_pow: "pow_reach 35385462869
    268435456 1263766531 1"
  by (rule pow_reach_steps [OF pow_reach_start, where ss = "[
      Sq 2036361, Sq 8639407313, Sq 9115939780, Mul 212669273, Sq 30133052545, Sq 23423611479, Mul 199202723, Sq 15348816193, Mul 268210955,
      Sq 11950083396, Sq 21992220941, Mul 198032136, Sq 1713687460, Sq 20103875589, Mul 109934353, Sq 1550493047, Sq 16379087074, Sq 8350256991,
      Mul 26804015, Sq 9211475, Mul 97645190, Sq 4681788107, Mul 12326923, Sq 12419611568, Sq 2146456374, Sq 1330138798, Sq 25731522893, Mul 38893319,
      Sq 923866081, Mul 22127314, Sq 8345857354, Sq 11734998422, Sq 6932029925, Sq 6343911114, Sq 7470102245, Sq 12100283940, Sq 4103613096,
      Sq 32001932832, Sq 11140833924, Mul 197042300, Sq 17484923477, Mul 132174595]"])
    (simp only: pow_eval, simp)

lemma p36_order: "order_witness 35385462869 1263766531
    268435456"
  by (rule order_witnessI [where u = 30792025501
      and v = 233589466])
    (simp_all add: p36_pow)

lemma prime_p36: "is_prime 35385462869"
  by (rule pocklington [where Fs = "[1263766531]"])
    (auto simp: prime_p31 intro: p36_order)

section \<open>2480874801745591\<close>

text \<open>The powers of an element of order \<open>35385462869\<close>.\<close>

lemma p52_pow: "pow_reach 2480874801745591
    1241451147209469 35385462869 1"
  by (rule pow_reach_steps [OF pow_reach_start, where ss = "[
      Sq 621232861014706, Sq 1075906577909810, Sq 1870390321689641, Sq 48208584167697, Sq 65641838402524, Sq 2390698760709875, Mul 157874694998027,
      Sq 1562302929398960, Mul 1178403356069424, Sq 1114245255142746, Mul 48573106783375, Sq 331938757224863, Mul 1226805456855436,
      Sq 1706838145914348, Sq 2167777304624643, Mul 617579125006967, Sq 28306323640371, Sq 222640235082119, Sq 4102978077041, Mul 1037524068168237,
      Sq 751166739999942, Sq 142409781772823, Sq 1105896470287056, Sq 919068957770264, Mul 43361887169691, Sq 408769570555928, Mul 703166652495078,
      Sq 1122973915689145, Sq 242730993130998, Mul 123123028934267, Sq 160808515544361, Sq 98352039886245, Mul 689675959196148, Sq 221328718085025,
      Sq 116475545923975, Sq 1961914031446933, Sq 497005923833550, Sq 61146061769367, Sq 302099633647428, Mul 740838977379995, Sq 439839399093100,
      Sq 533493880257184, Mul 319284492886333, Sq 192691133245412, Sq 158001472205462, Mul 274548083745688, Sq 3172991321215, Sq 34603329765254,
      Mul 401908083226763]"])
    (simp only: pow_eval, simp)

lemma p52_order: "order_witness 2480874801745591 35385462869
    1241451147209469"
  by (rule order_witnessI [where u = 60395260069513
      and v = 30222309020413])
    (simp_all add: p52_pow)

lemma prime_p52: "is_prime 2480874801745591"
  by (rule pocklington [where Fs = "[35385462869]"])
    (auto simp: prime_p36 intro: p52_order)

section \<open>173171039\<close>

text \<open>The powers of an element of order \<open>13327\<close>.\<close>

lemma p28_pow: "pow_reach 173171039
    16359965 13327 1"
  by (rule pow_reach_steps [OF pow_reach_start, where ss = "[
      Sq 1545572, Mul 13765822, Sq 154886597, Sq 5735388, Mul 6402213, Sq 10607719, Sq 104667247, Sq 32965544, Sq 13280087, Sq 147029519,
      Sq 172733204, Sq 1699111, Mul 1489134, Sq 13260549, Mul 2659398, Sq 48220196, Mul 5499980, Sq 32228178, Mul 10743746]"])
    (simp only: pow_eval, simp)

lemma p28_order: "order_witness 173171039 13327
    16359965"
  by (rule order_witnessI [where u = 35859620
      and v = 3387761])
    (simp_all add: p28_pow)

lemma prime_p28: "is_prime 173171039"
  by (rule pocklington [where Fs = "[13327]"])
    (auto simp: prime_13327 intro: p28_order)

section \<open>13427688667394608761327070753331941386769\<close>

text \<open>The powers of an element of order \<open>2480874801745591\<close>.\<close>

lemma p134_591_pow: "pow_reach 13427688667394608761327070753331941386769
    11079643483354044030555362120445414701546 2480874801745591 1"
  by (rule pow_reach_steps [OF pow_reach_start, where ss = "[
      Sq 9142191389670395144015446400242595837569, Sq 148536654181491706743341001206609668129, Sq 2272805594650753690836647412032428085764,
      Sq 49346645564942485667245810358841552058, Mul 8352577592796259916095285138184621028952, Sq 74618904335511985787391341351440486109,
      Mul 8762192531740775611800554031572208732895, Sq 1430592663249443116131840150909779041470, Sq 447445464436311838790734409143668883039,
      Mul 10690497364946128661126474023237161942955, Sq 4178097188562246003271391862560952059099, Sq 146273567018397684170891818474941359624,
      Sq 12566066542665552336168088976098959049063, Sq 199350949837499622686642920378439087844, Sq 6034454135264078967134728746046347023129,
      Sq 8560001988985252695322513308588147775883, Mul 2460779469180654481483620367520624397710, Sq 3167133804850208390926813001607825098580,
      Sq 8199725332105965828512475733899721848471, Mul 8906341727177637941519696001701963488016, Sq 13234318517632224931662339278572247464464,
      Sq 9828018598011723975116941940380657739504, Mul 10868983752310668805327020564980223943348, Sq 74430029777535818168432020188594317295,
      Mul 312381649473727935665717810022763376799, Sq 6310217559820925235455515622792584885051, Mul 60075639057781548792140103862468091202,
      Sq 223485440946783550451813834273374451739, Mul 8659978790606626245901939910388759275469, Sq 8415201862627063351677150519903632054889,
      Sq 23908630041444252242663206814765718469, Mul 3742103488036588350223488274951019703043, Sq 3103611311970783916072765290745346026899,
      Sq 6037774171043637881325769286980203031154, Mul 7525562152465616432028636092781053422916, Sq 111460045463603242485429048173347536061,
      Mul 10485101370321614654422342382944887996109, Sq 538252128777985212283990615101456799543, Sq 6824280599932195045091861246518336917,
      Mul 2330266726718601048591235828767330687303, Sq 30911258239692733546481073260684445526, Sq 463760152046918744575075203055699538459,
      Mul 6879103009434915800982178121849019634629, Sq 2862444082589124843589159407098499825328, Sq 4521231478884798367967936337626865906,
      Sq 9014308144062262551101375364046614505870, Mul 9455039464275073725841962893781610803518, Sq 1575487849645940716738018708328286109901,
      Sq 7518139272315568766823594855238995569238, Mul 4933310532280242895610090537870021172475, Sq 13025599586602640746509307793827475811810,
      Sq 6797136716768409205984126574793692357917, Sq 100560208078511560475349251405620127740, Mul 1241610031201243645864466880036870530728,
      Sq 5768584087167342287189575678397932849922, Sq 951555771496187578890182670359029325001, Sq 1538253242319832530707443713185460973127,
      Mul 9565587413689039589865888697899235009642, Sq 4153864296094511350752490870540040083519, Mul 5617687876377321779814684977255554510154,
      Sq 1237137378365523879433370984605979518347, Mul 7836561351841278260393820651193964797628, Sq 11408694341575047413209158883062664767694,
      Sq 1421040863185690293382569182287096022512, Mul 2564481811146018808607205013814401361284, Sq 10185782245048179605045779215853157858467,
      Sq 11948534664827230729410898642135358383545, Mul 9847173447877849505042602587190029617554, Sq 10421659457233801247316683913951683021410,
      Mul 11043427814222293621885947309073675724766, Sq 5246883860805363142767985956486525156787, Sq 6684135105184322103629677404140193389470,
      Mul 169918791444928492585075744842636658605, Sq 3383188900852732943229235942689021967646, Mul 183205400277693637252080876200267305694,
      Sq 13363971160600629365800061596085530856629, Mul 7702641817969804814882625026579070078621]"])
    (simp only: pow_eval, simp)

lemma p134_591_order: "order_witness 13427688667394608761327070753331941386769 2480874801745591
    11079643483354044030555362120445414701546"
  by (rule order_witnessI [where u = 6785926852418085198570490017495330175623
      and v = 5599299484168009323850478809842907506686])
    (simp_all add: p134_591_pow)

text \<open>The powers of an element of order \<open>173171039\<close>.\<close>

lemma p134_39_pow: "pow_reach 13427688667394608761327070753331941386769
    9785822746442342713677375315050249518427 173171039 1"
  by (rule pow_reach_steps [OF pow_reach_start, where ss = "[
      Sq 7131705924737473037298335693433143117105, Sq 12416368552888864116314404055007683639081, Mul 563656190006525416364952969323100447456,
      Sq 176650775121539495295811644793945808469, Sq 1860169130683244761997147653265769790001, Sq 10850247421310806488573314954330514507641,
      Mul 7348975318000040607939526775931763312289, Sq 1414130049171820688095383165645072415950, Sq 530567519178836657571242045666575087718,
      Mul 4260202907349559083639056232334052474543, Sq 5343883860291443345762903029634906658921, Sq 7390359442376032910221122023643270863976,
      Sq 7172999573017631405220276544155358018419, Mul 7146920983169399056045934361367076301715, Sq 27245381092973242895766794656898699751,
      Sq 21591098164546503589913484663600504702, Sq 10657927117896583478959903460465561696093, Mul 3845474203799285326230454400812139166820,
      Sq 4187476826063281595312240550672203639754, Mul 6647079129263528680835057531106492674662, Sq 118956474462379200942000486783961267727,
      Sq 3263401476593300556128415118272686326697, Sq 574713084693598317367545119964669402169, Sq 2156935869918382999545038993033525309265,
      Sq 473875724705875078916604256619651942295, Mul 6281488864563160086383939477416307689456, Sq 3115840337686379067044512311284315871383,
      Sq 5457461741992919586499433852934947690595, Mul 3270317494508432483858690985184624732478, Sq 423681589097697066275828215964791216901,
      Sq 7669412351770612933541130611195005101940, Mul 3321872518323799093285697539479377051857, Sq 8521328251098851120135131109753411957558,
      Mul 5943569210560626610364388396826791756839, Sq 3636870460086452090007264013152788191099, Mul 4505134456242692535440834074835409761409,
      Sq 860734116334034985850174663140935409863, Mul 76786807016822886138023365820136898501, Sq 9177112394036473162072747527389889174929,
      Mul 429920415067734424220460684267169557663]"])
    (simp only: pow_eval, simp)

lemma p134_39_order: "order_witness 13427688667394608761327070753331941386769 173171039
    9785822746442342713677375315050249518427"
  by (rule order_witnessI [where u = 8400704698881656509131354358865537047819
      and v = 6122260439957911926599827184786105782797])
    (simp_all add: p134_39_pow)

lemma prime_p134: "is_prime 13427688667394608761327070753331941386769"
  by (rule pocklington [where Fs = "[2480874801745591, 173171039]"])
    (auto simp: prime_p52 prime_p28 intro: p134_591_order p134_39_order)

section \<open>21888242871839275222246405745257275088696311157297823662689037894645226208583\<close>

text \<open>The powers of an element of order \<open>13427688667394608761327070753331941386769\<close>.\<close>

lemma fq_pow_1: "pow_reach 21888242871839275222246405745257275088696311157297823662689037894645226208583
    20520420087326380218354900027015874311863624918437260220194913954166250002289 1262 11563494126660254421990594607155083764770268681978913414181913347425770478200"
  by (rule pow_reach_steps [OF pow_reach_start, where ss = "[
      Sq 19238074203850603232075934733970503619080248404937198273859482994282858037284,
      Sq 62364246092568038487843797424838160046389053177325094074683747031571159708,
      Sq 6672240505728306605573235773690991160564166835151540889568402418069339256107,
      Mul 1620682096871819815405055300783697389587096132150360566998608716917243440679,
      Sq 172673695976629647393611546709552966557130308767821777230812719950591596253,
      Mul 6193728292163846686812800520056982624145203360743723426857896631072321168465,
      Sq 349937087453244938650308336451998425223665288634199571804742323686370281678,
      Mul 7464155399221504890751328277347198580542443196201023125577143987089850818388,
      Sq 19854764971115567279117329503899493399406501039129702697745576689544002590458,
      Sq 5663891875708295668181057207827350864117154958506018584890447652899248371,
      Mul 19965117554832470942377181727841006688349343770633454679777441340208259975795,
      Sq 279837445587586118661721248579251909492847035076450117132476337806636222088,
      Mul 17986484502493965288937086377846749084862141476873496206633107193652807344359,
      Sq 687608210074462491014855789301031763240037691955976282778192760406524298936,
      Mul 4123943877081162673224691745315925051670549548939246087960999641294192346018,
      Sq 5897967110490847702481916213442917428185585319778630810893887287616108168628]"])
    (simp only: pow_eval, simp)

lemma fq_pow_2: "pow_reach 21888242871839275222246405745257275088696311157297823662689037894645226208583
    20520420087326380218354900027015874311863624918437260220194913954166250002289 646519 10383822259845886481468339656286319156087626983945751301243728330525391427339"
  by (rule pow_reach_steps [OF fq_pow_1, where ss = "[
      Sq 6108959828353281685381564891707885821262293835797632271754686220033393691784,
      Mul 12892141837262942356407921950708442964700299733257772819870889751282751014321,
      Sq 6239438180570536747078891855689180623657337318819025567727433179191053618605,
      Sq 9962555380739875074534934224330088226105587402163586868248156122687682612206,
      Mul 6702178885118583806937770743407644043415873567183889947765163420881781550853,
      Sq 3458227012184922284839528414708959601758887928437408207787552373576743595516,
      Mul 8699285425420821982834053381504210660900895074042192060081083882090107941930,
      Sq 19315116356108265395111629224126942476013670638973219919201155389444419246110,
      Mul 15571906855963755085423840116431251471986654786130596036371447950086047280038,
      Sq 21194005487510731422657742217138350790254362867380875197387139333402698328017,
      Sq 9144506496054763573867296889749153565710618951847533894936078956727863421217,
      Mul 2180824995227846006036871873198812429684194158939589129640818385817678241637,
      Sq 4938949011945588468428300545805630932285149671954375090282214673115073357175,
      Mul 15280706256013004918913276455819825321429940390872571712418529819865842360938,
      Sq 7556482818583578235286014967001956778792188161380629686475687497912593279386,
      Mul 18790229951942331125431476357133814641550061072947714122585734347101003582088]"])
    (simp only: pow_eval, simp)

lemma fq_pow_3: "pow_reach 21888242871839275222246405745257275088696311157297823662689037894645226208583
    20520420087326380218354900027015874311863624918437260220194913954166250002289 1324072329 14142029604359203322089452243374140744066391812010877430440239836692480825927"
  by (rule pow_reach_steps [OF fq_pow_2, where ss = "[
      Sq 4926104180925075392735345686188998595640290508588358927729261845262335609151,
      Mul 1469990874840138926947989365116606997307946882740236001837698184206611057664,
      Sq 9568166621942434385609363193396710752876752596361220734232758990171812299436,
      Sq 20924644415637126657506760525399810180320619555548884225654586933325434554709,
      Mul 8987701339351765350350096006393673971466405543969388229482586698500360100080,
      Sq 4958422739241743980627100800745221126273732440669513901839709751192645120774,
      Mul 15102125094109034397389531952369932062205854058431131586119289732206317684689,
      Sq 450066030900351227892106830109971744467914419011059414580099453239902766627,
      Sq 963413879485533681182588712563871455351703194006315502318617029392071353383,
      Sq 4892827911436993069150673133420649373922118871360394634363504552822454710564,
      Sq 19499271224132938553250126003188317863309648437382547047151077544790567991380,
      Mul 5129195836748225869769082037913243307568850468412546617561568613502978349495,
      Sq 16032858394347992172847972846626207653612161560000781415336737773026004153987,
      Sq 907860766308439626582391642477264449123918873367780896749832541878605193206,
      Sq 6723870951407384282487541732196194806198985071103615595150091138730434053609,
      Mul 7404112142926461850110519060004694102588577797240888114441798879800628299362]"])
    (simp only: pow_eval, simp)

lemma fq_pow_4: "pow_reach 21888242871839275222246405745257275088696311157297823662689037894645226208583
    20520420087326380218354900027015874311863624918437260220194913954166250002289 1355850065559 12641802187603674250120431490860898685268472338467046165455959140055954618995"
  by (rule pow_reach_steps [OF fq_pow_3, where ss = "[
      Sq 9137188512645844943217837957960918890213554409874081787930850223840070902158,
      Mul 11482734788550941509660666627336260106068880517722434841841362909354419157048,
      Sq 2321071780105949499890967879767790742486383036561060660251528666414901835963,
      Sq 12662643479188283631359183689376182912141768940011044409225083520376807523828,
      Mul 6613717529882038894412730327731415040616910173672918870282798166615644668267,
      Sq 1829365289923200008393811304950479233114588640613105560196853665248654795870,
      Sq 12354120776248382891055493941639267625312916870295669747538152181767137814836,
      Sq 9767993500666202015141802842052170594987904431806262095675085544658258904598,
      Mul 4700205758184492240987341554931100619864109980272996424361905717364446603526,
      Sq 4415738324402897667567198305437252281908639273062632948811110424498344473032,
      Sq 851701382177683740956011396666044351898481962507251339152800067540271984297,
      Mul 10067156740665155007684768432670727184752317421216746194054381285232807639648,
      Sq 18572115173250787427024658120035435782165731058139924106095178496769594173278,
      Mul 9392393087026615753691017082759978613235945007963194130504501553843809908119,
      Sq 17415469201697549817141237992086921883081925338346866568329622204441673640810,
      Mul 19064661624599511254826792748089232416028843853139935312167439641320036007272]"])
    (simp only: pow_eval, simp)

lemma fq_pow_5: "pow_reach 21888242871839275222246405745257275088696311157297823662689037894645226208583
    20520420087326380218354900027015874311863624918437260220194913954166250002289 2776780934266704 21656305680770361421798476594608898787779291669201607871720519490293143186176"
  by (rule pow_reach_steps [OF fq_pow_4, where ss = "[
      Sq 7301415809677176279163021061459419448440617767102737028794028159269230331666,
      Mul 5444691450178891479644867054834576829764523345372610353879728445299734467263,
      Sq 40509366634872029770443794777074180924923682225529808705602215545448844596,
      Mul 18858178837886826085379285979636893057061120301528351183767177068236892831696,
      Sq 955171540853169302162730554104992885723520114362382528040954753135176740270,
      Mul 4365556191721658214282253983072585607385799004976928644246979644860316132722,
      Sq 7788071482708632741787624447571197023910315396237013001726800323698818564603,
      Sq 21561373594126230540149537856979812758925909584033190926355999117114872046405,
      Mul 19254198186371387250483390240733781795283427753976275108715386113840314176306,
      Sq 6283494016837552361838597309692007265318914215434323170786912529641310596798,
      Sq 15395906436259847249666911523846107585828288165495049268466475548699459003434,
      Mul 1850526430632738935288379929160135609874316287158722562263665130473600475117,
      Sq 11554792879921464037571689325855731782631569866938519325911827651190745523501,
      Sq 677290036752732995294574402146561265706280722812869556942536901065701776001,
      Sq 12783002693209350560933676849164065705166384565282207595337440753693032577964,
      Sq 76171978195010040657450954022198031595497735187743186442926197317276166015]"])
    (simp only: pow_eval, simp)

lemma fq_pow_6: "pow_reach 21888242871839275222246405745257275088696311157297823662689037894645226208583
    20520420087326380218354900027015874311863624918437260220194913954166250002289 2843423676689106013 13215086942735791946702418599616789950329864663749547370676544795766726804619"
  by (rule pow_reach_steps [OF fq_pow_5, where ss = "[
      Mul 20302976931999738977773237868125410999569228460172420719455684475101312380136,
      Sq 32983854089765381702750112081150083665697814665664491387319612268850459384,
      Sq 3182581322879502704319461452935494540426496531127194630299055963510714370673,
      Sq 2433861866104323029454944885587996571420341828786385559948572827279626042861,
      Sq 1592677727509604847314900013954799997281953773149953433056867908160791902377,
      Mul 16709189603306564056393206128225529765630063901596020018046100875316653125876,
      Sq 4384421002997996663833707556679490580748641463215037186124302118046052694596,
      Sq 21505987595168315945517948898248131345487949195524684993633379211208953633905,
      Mul 2678765064663627614501543220170773684886367454307520077391103778866803117184,
      Sq 10682616688371192115214523616028420625612141415223203328722661353644718784107,
      Mul 2386350723827135845020757122342868980068125409588939410835479923344438874396,
      Sq 18495164869162363597908255687173546117068407246763522236393366997830568061825,
      Mul 1295747388819023334798808239414364408735133612246713365803921160540456062505,
      Sq 745034740852984266489079209528652416605513233664805342817726045022700935021,
      Sq 12240347738538345450654531373809669101196247704561648173666111913396571214897,
      Mul 5322921740442825163500216020777836637336675798717771679715164968731312993566]"])
    (simp only: pow_eval, simp)

lemma fq_pow_7: "pow_reach 21888242871839275222246405745257275088696311157297823662689037894645226208583
    20520420087326380218354900027015874311863624918437260220194913954166250002289 23293326759437156458580 2015666968720036938275823611024389700998976289779553459912876601582520045090"
  by (rule pow_reach_steps [OF fq_pow_6, where ss = "[
      Sq 7978645153318837242997818644362297053620749598870608895034982027964787740331,
      Sq 2175059641960013375317264288928714209949038776174526500276569040368180091903,
      Sq 9535331770943615501440808578201244279339607112751828398777838249236737048249,
      Sq 3659292321267958452121918862028843841402966501978301948402503536154524839757,
      Sq 823953617861042566618496833581890983308040934151629774983674737356257637383,
      Sq 963880109071351654930592705854705844042450112492046285691606478143951959669,
      Sq 1218296115757117053000603741203788498437853104064499575688101749993856945228,
      Mul 14785163984819280263102475327028275371875702510387846363389832663620802224826,
      Sq 3909479627983390655988601633494928893704392045402078763544697977998111256875,
      Sq 5450929252189867467675342252833644798321782417832353754808804404235223540473,
      Mul 11303853372227129695438648374890368636995761288218205234035784675120239499950,
      Sq 7120715964694917635992131446528931594481228767561731927987953351956133273917,
      Sq 18546636347373520104485140633419213514635367982889900528611420966712544562282,
      Mul 3787096976699209870762188009325060500417415445656008241337511840812206734561,
      Sq 16715512805194495141792168073427551564795367097859177724047493203348792188884,
      Sq 8554154729014748311369961734273684593733185496451035845171623277413825792977]"])
    (simp only: pow_eval, simp)

lemma fq_pow_8: "pow_reach 21888242871839275222246405745257275088696311157297823662689037894645226208583
    20520420087326380218354900027015874311863624918437260220194913954166250002289 47704733203327296427172650 6133558309398666728462459848480611071766606631577479070146944340045663609992"
  by (rule pow_reach_steps [OF fq_pow_7, where ss = "[
      Sq 185620808055645200174682363459428113350878400289229466007211219902767515352,
      Sq 526337382526921626704996982628151946256812218816037210893624670674892188,
      Mul 8523824738791789153919151067235307523631218332366883300404615633021592846970,
      Sq 5904166835943583084908341912148361507357367200126943805053730559753699829399,
      Mul 17072236266671437927908503627433000330329010614370675342194650592396890526348,
      Sq 16333151554714923648973898793674199649181026852841238574525999203311337946822,
      Sq 19033774931408586328590657012650909417139505508439406342777376478276651495023,
      Sq 6523216273066527575602857276549263082816687190248130035343760683545133275724,
      Mul 2199278233803547575884468412030535620987976982722701269354967935154639982645,
      Sq 3416224906134977451830711586968265498220480881415308306556391818366557112989,
      Sq 11668054268917501472572933044014163507726741308885896217484100109252847590925,
      Mul 5212592348175796062563310966875455804880926791856826954637046511084994428949,
      Sq 5019539951369711161215805878736585252958966730779872718478754469270962675922,
      Sq 2890174081503141114608465737613288490163315514887643572009804580085615124403,
      Mul 16252506390490135405993103841417790112661898686886457734333296728498434173960,
      Sq 2408047988674285325925982512805957437989486813744520086676161955352436226351]"])
    (simp only: pow_eval, simp)

lemma fq_pow_9: "pow_reach 21888242871839275222246405745257275088696311157297823662689037894645226208583
    20520420087326380218354900027015874311863624918437260220194913954166250002289 97699293600414303082849588487 1918465491087974783299773739850442850948020949349000835061686094005558155742"
  by (rule pow_reach_steps [OF fq_pow_8, where ss = "[
      Sq 1718755486910044796608690407539220283690013760082362903772320571101997132533,
      Mul 10708839126935610345385959449386548882647503017350290631154147377007835821937,
      Sq 10620919825552019306693935448814117507408878477314990827142712678069108956337,
      Sq 13655675902901194979197592046431184905954620242036505923267751941573351840995,
      Mul 5725725428790796351459267976252958661421855653836454929406564034205282156990,
      Sq 3454798889529573106887873420343300320665263365484166065471591711953653735680,
      Sq 17489274388757531908865743796447719013074622347467783732695172089998522809263,
      Sq 2618000173571616838433891175299141640088154947299929106806198910807971297448,
      Sq 21671572047955157856291648727172512520279883525453656153511330613336939409340,
      Sq 688769857737741063596562408189700140638438447326989646988709736969541764564,
      Sq 311987515755451206885961714427397115587633588949679624329465508361341280871,
      Mul 7102475173608369904749770043673829852113953090559332351698164920210305674868,
      Sq 13292950980049415244627683364637424374143748470972165549609460785696984374772,
      Mul 8010357146591422839749691643429541583475046176961193565006916367017735844711,
      Sq 133517368051772554852429096783763136864217058726685332089306973155506767,
      Mul 1066663422942203665218290409288589960220476504786800792474279466703887066446]"])
    (simp only: pow_eval, simp)

lemma fq_pow_10: "pow_reach 21888242871839275222246405745257275088696311157297823662689037894645226208583
    20520420087326380218354900027015874311863624918437260220194913954166250002289 100044076646824246356837978611379 18277663234776867181645399030253632870153220714484750343755467762626076888896"
  by (rule pow_reach_steps [OF fq_pow_9, where ss = "[
      Sq 168150082308829478584639528919322886666491355271736020360296063193601039556,
      Mul 9655686347774374026281927638470838173248469585487151318243607650422770423868,
      Sq 4101175662373667187651981581651254160756762745515951661644363202455674075416,
      Sq 8540839258896610928106735260749794291712858101437881347228361479897290467780,
      Mul 13885960405131746003602347562748184940109860229408243622811386945293098825199,
      Sq 1685224918023440742267936951875119150722068153273506057705919428738766332901,
      Sq 93251216014653473933867272712523088248610329518626801648453679697649504745,
      Mul 9510807493150587967163484469724788048859317779295491328911814166230918731724,
      Sq 2994849673734582452181355406382343169415165509809169252616725928817621769959,
      Mul 20107619275393065740999202706174162895508846328415833558169986901956445599159,
      Sq 8603412903470251371062279865971035188840889995792712998547915207045779290281,
      Sq 18500001262220718912597828774489444619388264172971051496616756600861358920526,
      Sq 8671177651641391839759268920993010087502380363977451159063881816640826785971,
      Mul 19126265659414755275084729830065677893252764179751225139495310987983687683839,
      Sq 53215320132522112559814836234283067823282020628744430759498730406177162710,
      Mul 17935001786536119495631075654644037769318467546105025737688882380970293688198]"])
    (simp only: pow_eval, simp)

lemma fq_pow_11: "pow_reach 21888242871839275222246405745257275088696311157297823662689037894645226208583
    20520420087326380218354900027015874311863624918437260220194913954166250002289 102445134486348028269402090098052531 18338225489892412437721552570711987887724438446817484280951940738691181390302"
  by (rule pow_reach_steps [OF fq_pow_10, where ss = "[
      Sq 15262667509675788151924604910758561268356434310987674712855252453398067676414,
      Sq 3416630241611980719111548291052145103851931104319690712841552389683821458651,
      Mul 14956431528598659751191806750566807432062823831880598012581318370127986793389,
      Sq 755656361680585840350306939258471452247215846012662140587008157158526905376,
      Mul 8966643223593238630165603056282073885380013748700399932415113486684389788438,
      Sq 7028270164127046157053033086865275620635277549119812653173110337954298904049,
      Sq 9845892671694128103872225093346830921972162147108690209485619896730590966400,
      Mul 352288315014795760943081401432589218156818234043364646364073299154932511570,
      Sq 57072605584174843100654519568595943636054719103765580814662554803417136881,
      Mul 13613887308318445796373270115465867295590550635568688509717348514360219246438,
      Sq 419688013354223935447004355898314198517871884088799918285900916321320437467,
      Sq 156264995040666383025236983757878171932804491399449968822042152458431457629,
      Sq 331587507122853437160336184056892400177988366665167313932671049409591473464,
      Mul 179721599251832338961716297542650636346864036778577625937486548978550337589,
      Sq 12389441919696980030106987417106485159537664283706006246556901580528593797427,
      Mul 699538150407637626109669288684771194050315576242991743495931434948164848386]"])
    (simp only: pow_eval, simp)

lemma fq_pow_12: "pow_reach 21888242871839275222246405745257275088696311157297823662689037894645226208583
    20520420087326380218354900027015874311863624918437260220194913954166250002289 419615270856081523791470961041623168336 21255027283617507042572505379677870006756283953933128320881412245287461956469"
  by (rule pow_reach_steps [OF fq_pow_11, where ss = "[
      Sq 15363979470037798579658459979905344018366134499033012780550712294351277644861,
      Sq 16947306086640453144223232824226598343026565172982692944698055051448357584206,
      Mul 5651474360768321710305338293459694466340423398197956337050269957150900356276,
      Sq 11471228337974495983648186100306632273564861582216511502524952715249748499143,
      Sq 4568286480865395551264295841621856160306412964883492514906413095687059175693,
      Mul 17156754443111089301058063097859230659437927445104809505300604977937365664511,
      Sq 16006992898113474160611250365742257709631458706215110925025541800392095925262,
      Sq 11883882668078120241938128956579845405102002003977683314278682845564117760225,
      Mul 10001743184678426699824874721294157629927942981102145951602175267503365002912,
      Sq 459041016850928043757344223505840925311637389904675239839110644544864946562,
      Sq 5478744315521327809963852810526287202476199693461451919913284635371489759795,
      Mul 11797030081693659673634948062571002639905453841843137363312605358757386072636,
      Sq 3696237385951330120328038913009976660879206132691367710895447337598683347774,
      Sq 571386820176648375601120324894201389603744155232952989479521362015802004821,
      Sq 7975628175663656077914145389512817919650687663466810797432486412924774450014,
      Sq 1268124104188175900228147410610557532388015127599390454492538017530420036020]"])
    (simp only: pow_eval, simp)

lemma fq_pow_13: "pow_reach 21888242871839275222246405745257275088696311157297823662689037894645226208583
    20520420087326380218354900027015874311863624918437260220194913954166250002289 13427688667394608761327070753331941386769 1"
  by (rule pow_reach_steps [OF fq_pow_12, where ss = "[
      Sq 20640130296094514229340867760989529319617262028296508058712044149234174122695,
      Mul 4157751069980098114560835425361435139478456644670710280123052455280621371933,
      Sq 807706780728004634186289179490024930730219207764371874200941797143508517788,
      Sq 7767014481816712324395367008780593448643405055076675212451459320561158913616,
      Sq 3640922097980666094516011571895792265579596148601278263011623489930139288459,
      Sq 4071909010538316902090147926377709276541058872909308670776918893023291830549,
      Mul 10045334125319058982299502594446416921053576633424456009920151963599505590964]"])
    (simp only: pow_eval, simp)

lemma fq_order: "order_witness 21888242871839275222246405745257275088696311157297823662689037894645226208583 13427688667394608761327070753331941386769
    20520420087326380218354900027015874311863624918437260220194913954166250002289"
  by (rule order_witnessI [where u = 7760040696430108728351579495285625070970037227808537281002514205477518194167
      and v = 7275106362711593634910217017553301347431408024134515045317937743039521961465])
    (simp_all add: fq_pow_13)

lemma prime_fq: "is_prime 21888242871839275222246405745257275088696311157297823662689037894645226208583"
  by (rule pocklington [where Fs = "[13427688667394608761327070753331941386769]"])
    (auto simp: prime_p134 intro: fq_order)

end
