(* ===== verification/FqField.thy ===== *)
theory FqField
  imports FqPrime
begin

text \<open>
  The base field of the curve as a type: the integers modulo the prime that \<open>build/fq.cpp\<close>
  computes with. This is what the elements of \<open>RawFq\<close> denote.
\<close>

definition fq_prime :: int where
  "fq_prime = 21888242871839275222246405745257275088696311157297823662689037894645226208583"

lemma is_prime_fq: "is_prime fq_prime"
  unfolding fq_prime_def by (rule prime_fq)

lemma fq_prime_gt_1: "1 < fq_prime"
  by (rule is_prime_gt_1 [OF is_prime_fq])

typedef fq = "{0..<fq_prime}"
  using fq_prime_gt_1 by (intro exI [of _ 0]) simp

setup_lifting type_definition_fq

lift_definition of_fq :: "int \<Rightarrow> fq" is "\<lambda>x. x mod fq_prime"
  using fq_prime_gt_1 by simp

instantiation fq :: comm_ring_1
begin

lift_definition zero_fq :: fq is 0 using fq_prime_gt_1 by simp
lift_definition one_fq :: fq is 1 using fq_prime_gt_1 by simp
lift_definition plus_fq :: "fq \<Rightarrow> fq \<Rightarrow> fq" is "\<lambda>x y. (x + y) mod fq_prime" using fq_prime_gt_1 by simp
lift_definition minus_fq :: "fq \<Rightarrow> fq \<Rightarrow> fq" is "\<lambda>x y. (x - y) mod fq_prime" using fq_prime_gt_1 by simp
lift_definition uminus_fq :: "fq \<Rightarrow> fq" is "\<lambda>x. (- x) mod fq_prime" using fq_prime_gt_1 by simp
lift_definition times_fq :: "fq \<Rightarrow> fq \<Rightarrow> fq" is "\<lambda>x y. (x * y) mod fq_prime" using fq_prime_gt_1 by simp

instance
  by standard (transfer; use fq_prime_gt_1 in \<open>simp add: mod_simps algebra_simps\<close>)+

end

lemma of_fq_add: "of_fq (x + y) = of_fq x + of_fq y"
  by transfer (simp add: mod_simps)

lemma of_fq_diff: "of_fq (x - y) = of_fq x - of_fq y"
  by transfer (simp add: mod_simps)

lemma of_fq_minus: "of_fq (- x) = - of_fq x"
  by transfer (simp add: mod_simps)

lemma of_fq_mult: "of_fq (x * y) = of_fq x * of_fq y"
  by transfer (simp add: mod_simps)

lemma of_fq_0: "of_fq 0 = 0"
  by transfer simp

lemma of_fq_1: "of_fq 1 = 1"
  using fq_prime_gt_1 by transfer simp

lemma of_fq_power: "of_fq (x ^ n) = of_fq x ^ n"
  by (induction n) (simp_all add: of_fq_1 of_fq_mult)

lemmas of_fq_hom = of_fq_add of_fq_diff of_fq_minus of_fq_mult of_fq_0 of_fq_1 of_fq_power

lemma of_fq_eq_iff: "of_fq x = of_fq y \<longleftrightarrow> x mod fq_prime = y mod fq_prime"
  by transfer simp

lemma of_fq_eq_0_iff: "of_fq x = 0 \<longleftrightarrow> fq_prime dvd x"
  using of_fq_eq_iff [of x 0] by (simp add: of_fq_0 dvd_eq_mod_eq_0)

lemma of_fq_mod: "of_fq (x mod fq_prime) = of_fq x"
  by (simp add: of_fq_eq_iff)

lemma of_fq_int: "of_fq n = of_int n"
proof (cases n rule: int_cases2)
  case (nonneg m)
  have "of_fq (int m) = of_nat m" by (induction m) (simp_all add: of_fq_hom)
  then show ?thesis using nonneg by simp
next
  case (nonpos m)
  have "of_fq (int m) = of_nat m" by (induction m) (simp_all add: of_fq_hom)
  then show ?thesis using nonpos by (simp add: of_fq_minus)
qed

lemma of_fq_surj: obtains x where "y = of_fq x" "0 \<le> x" "x < fq_prime"
proof
  show "y = of_fq (Rep_fq y)" using Rep_fq [of y] by (simp add: Rep_fq_inject [symmetric] of_fq.rep_eq)
  show "0 \<le> Rep_fq y" "Rep_fq y < fq_prime" using Rep_fq [of y] by simp_all
qed

lemma fq_fermat: "(y :: fq) \<noteq> 0 \<Longrightarrow> y ^ nat (fq_prime - 1) = 1"
proof -
  assume y: "y \<noteq> 0"
  obtain x where x: "y = of_fq x" by (rule of_fq_surj)
  then have "\<not> fq_prime dvd x" using y by (simp add: of_fq_eq_0_iff)
  then have "x ^ nat (fq_prime - 1) mod fq_prime = 1" by (rule fermat [OF is_prime_fq])
  then show ?thesis using fq_prime_gt_1 by (simp add: x of_fq_eq_iff flip: of_fq_power of_fq_1)
qed

instantiation fq :: field
begin

definition inverse_fq :: "fq \<Rightarrow> fq" where
  "inverse_fq x = x ^ nat (fq_prime - 2)"

definition divide_fq :: "fq \<Rightarrow> fq \<Rightarrow> fq" where
  "divide_fq x y = x * inverse y"

instance
proof
  fix a :: fq
  assume "a \<noteq> 0"
  have "nat (fq_prime - 1) = Suc (nat (fq_prime - 2))" using fq_prime_gt_1 by simp
  then have "inverse a * a = a ^ nat (fq_prime - 1)" by (simp add: inverse_fq_def mult.commute)
  then show "inverse a * a = 1" using fq_fermat [OF \<open>a \<noteq> 0\<close>] by simp
next
  show "inverse (0 :: fq) = 0" by (simp add: inverse_fq_def) (simp add: fq_prime_def)
qed (rule divide_fq_def)

end

lemma fq_numeral_eq_0: "(numeral n :: fq) = 0 \<longleftrightarrow> fq_prime dvd numeral n"
  by (simp add: of_fq_int [of "numeral n", symmetric, simplified] flip: of_fq_eq_0_iff)

text \<open>The prime is 3 modulo 4, so \<open>-1\<close> is not a square: \<open>x\<^sup>2 + 1\<close> has no root and the
  quadratic extension by it is a field.\<close>

lemma fq_no_sqrt_minus_1: "(x :: fq) ^ 2 \<noteq> - 1"
proof
  assume x: "x ^ 2 = - 1"
  define k where "k = nat ((fq_prime - 1) div 2)"
  have k: "nat (fq_prime - 1) = 2 * k" "odd k" by (simp_all add: k_def fq_prime_def)
  have "x \<noteq> 0" using x by auto
  then have "x ^ (2 * k) = 1" using fq_fermat [of x] k by simp
  then have "(- 1 :: fq) ^ k = 1" by (simp add: power_mult x)
  then have "(- 1 :: fq) = 1" using k(2) by simp
  then have "(2 :: fq) = 0" by (metis add.right_inverse one_add_one)
  then show False by (simp add: fq_numeral_eq_0 fq_prime_def zdvd_not_zless)
qed

end
