(* ===== verification/Naf.thy ===== *)
theory Naf
  imports Machine
begin

text \<open>
  The signed-digit recoding of scalars (\<open>depends/ffiasm/c/naf.cpp\<close>): a table of 1024 entries,
  indexed by a pending bit, seven bits of one byte, the lowest bit of the next byte and a
  pending carry, gives eight digits at once. A digit is a byte, 0, 1, or 2 for -1. The
  correctness lemmas say that the digits denote the scalar, that no two neighbours are both
  non-zero, and that two digits beyond the bits of the scalar are enough.
\<close>

section \<open>The model\<close>

text \<open>One turn of the inner loop of \<open>buildNafTable\<close>: the digit and the new \<open>last\<close> and
  \<open>carry\<close>.\<close>

definition naf_step :: "bool \<Rightarrow> bool \<Rightarrow> bool \<Rightarrow> u8 \<times> bool \<times> bool" where
  "naf_step lst carry cur =
     (if lst then
        (if cur then (if carry then (1, False, True) else (2, False, True))
         else (if carry then (2, False, True) else (1, False, False)))
      else
        (if cur then (if carry then (0, False, True) else (0, True, False))
         else (if carry then (0, True, False) else (0, False, False))))"

text \<open>The inner loop, from bit \<open>i\<close> of the index, for \<open>n\<close> turns.\<close>

fun naf_digits :: "nat \<Rightarrow> nat \<Rightarrow> nat \<Rightarrow> bool \<Rightarrow> bool \<Rightarrow> u8 list \<times> bool \<times> bool" where
  "naf_digits in' i 0 lst carry = ([], lst, carry)"
| "naf_digits in' i (Suc n) lst carry =
     (let (d, lst, carry) = naf_step lst carry (bit in' (i + 1));
          (ds, lst, carry) = naf_digits in' (i + 1) n lst carry
      in (d # ds, lst, carry))"

definition naf_entry :: "nat \<Rightarrow> u64" where
  "naf_entry in' =
     (let (res, lst, carry) = naf_digits in' 0 8 (bit in' 0) (bit in' 9);
          r64 = of_nat (le_val res);
          r64 = (if carry then r64 OR 0x4 else r64);
          r64 = (if lst then r64 OR 0x8 else r64)
      in r64)"

definition NAFTable :: "u64 list" where
  "NAFTable = map naf_entry [0..<1024]"

text \<open>The loop of \<open>buildNaf\<close> over the bytes of the scalar; each turn writes eight digits.\<close>

definition naf_index :: "u8 list \<Rightarrow> u32 \<Rightarrow> u32 \<Rightarrow> bool \<Rightarrow> bool \<Rightarrow> nat" where
  "naf_index scalar scalarSize i lst carry =
     (if lst then 1 else 0)
     + (if i < scalarSize then unat (scalar ! unat i AND 0xFE) else 0)
     + (if i < scalarSize - 1 then unat (scalar ! unat (i + 1) AND 1) * 256 else 0)
     + (if carry then 0x200 else 0)"

fun naf_rows :: "u8 list \<Rightarrow> u32 \<Rightarrow> u32 \<Rightarrow> nat \<Rightarrow> bool \<Rightarrow> bool \<Rightarrow> u8 list" where
  "naf_rows scalar scalarSize i 0 lst carry = []"
| "naf_rows scalar scalarSize i (Suc n) lst carry =
     (let rs = NAFTable ! naf_index scalar scalarSize i lst carry;
          carry = (rs AND 4 \<noteq> 0);
          lst = (rs AND 8 \<noteq> 0)
      in le_bytes 8 (unat (rs AND 0x0303030303030303))
         @ naf_rows scalar scalarSize (i + 1) n lst carry)"

definition buildNaf :: "u8 list \<Rightarrow> u32 \<Rightarrow> u8 list" where
  "buildNaf scalar scalarSize =
     naf_rows scalar scalarSize 0 (unat (scalarSize + 2)) (scalar ! 0 AND 1 \<noteq> 0) False"

section \<open>Bits of composed numbers\<close>

lemma bit_add_pow2:
  fixes m y :: nat
  assumes "m < 2 ^ n"
  shows "bit (m + 2 ^ n * y) k = (if k < n then bit m k else bit y (k - n))"
proof -
  have m: "\<not> bit m j" if "n \<le> j" for j
    using assms that by (metis bit_take_bit_iff linorder_not_le take_bit_nat_eq_self_iff)
  have "m AND push_bit n y = 0"
    by (rule bit_eqI) (use m in \<open>auto simp: bit_and_iff bit_push_bit_iff\<close>)
  then have "m + push_bit n y = m OR push_bit n y"
    by (rule disjunctive_add_eq_or)
  then show ?thesis
    using m by (auto simp: push_bit_eq_mult mult.commute bit_or_iff bit_push_bit_iff simp flip: push_bit_eq_mult)
qed

section \<open>The digits\<close>

text \<open>The number that a digit denotes, and a list of digits, least significant first.\<close>

definition naf_digit :: "u8 \<Rightarrow> int" where
  "naf_digit d = (if d = 1 then 1 else if d = 2 then - 1 else 0)"

primrec naf_value :: "u8 list \<Rightarrow> int" where
  "naf_value [] = 0"
| "naf_value (d # ds) = naf_digit d + 2 * naf_value ds"

lemma naf_value_append: "naf_value (xs @ ys) = naf_value xs + 2 ^ length xs * naf_value ys"
  by (induction xs) (simp_all add: algebra_simps)

text \<open>The state of the recoding denotes what is still to be written.\<close>

abbreviation naf_pending :: "bool \<Rightarrow> bool \<Rightarrow> int" where
  "naf_pending lst carry \<equiv> of_bool lst + 2 * of_bool carry"

lemma naf_step_value:
  assumes "naf_step lst carry cur = (d, lst', carry')"
  shows "naf_pending lst carry + 2 * of_bool cur = naf_digit d + 2 * naf_pending lst' carry'"
    and "\<not> (lst' \<and> carry')" and "d \<noteq> 0 \<Longrightarrow> lst \<and> \<not> lst'" and "d \<in> {0, 1, 2}"
  using assms by (auto simp: naf_step_def naf_digit_def split: if_splits)

lemma length_naf_digits: "naf_digits s i n lst carry = (ds, lst', carry') \<Longrightarrow> length ds = n"
  by (induction s i n lst carry arbitrary: ds rule: naf_digits.induct) (auto simp: Let_def split: prod.splits)

lemma naf_digits_SucE:
  assumes "naf_digits s i (Suc n) lst carry = (ds, lst', carry')"
  obtains d l c es where "naf_step lst carry (bit s (i + 1)) = (d, l, c)"
    "naf_digits s (i + 1) n l c = (es, lst', carry')" "ds = d # es"
  using assms by (auto simp: Let_def split: prod.splits)

lemma naf_digits_range: "naf_digits s i n lst carry = (ds, lst', carry') \<Longrightarrow> set ds \<subseteq> {0, 1, 2}"
proof (induction n arbitrary: i lst carry ds)
  case (Suc n)
  from Suc.prems show ?case
  proof (rule naf_digits_SucE)
    fix d l c es
    assume "naf_step lst carry (bit s (i + 1)) = (d, l, c)" "naf_digits s (i + 1) n l c = (es, lst', carry')" "ds = d # es"
    with Suc.IH [of "i + 1" l c es] show ?thesis using naf_step_value(4) by fastforce
  qed
qed simp

text \<open>No two neighbouring digits are both non-zero.\<close>

fun nonadjacent :: "u8 list \<Rightarrow> bool" where
  "nonadjacent (d # e # ds) \<longleftrightarrow> (d = 0 \<or> e = 0) \<and> nonadjacent (e # ds)"
| "nonadjacent _ \<longleftrightarrow> True"

lemma naf_digits_nonadjacent:
  "naf_digits s i n lst carry = (ds, lst', carry') \<Longrightarrow> nonadjacent ds \<and> (\<not> lst \<and> ds \<noteq> [] \<longrightarrow> hd ds = 0)"
proof (induction n arbitrary: i lst carry ds)
  case (Suc n)
  from Suc.prems show ?case
  proof (rule naf_digits_SucE)
    fix d l c es
    assume st: "naf_step lst carry (bit s (i + 1)) = (d, l, c)" and es: "naf_digits s (i + 1) n l c = (es, lst', carry')" "ds = d # es"
    have "nonadjacent (d # es)"
      using Suc.IH [OF es(1)] naf_step_value(3) [OF st] by (cases es) auto
    then show ?thesis using naf_step_value(3) [OF st] es(2) by auto
  qed
qed simp

lemma naf_digits_cong:
  assumes "\<And>k. k < n \<Longrightarrow> bit s (i + k + 1) = bit s' (i' + k + 1)"
  shows "naf_digits s i n lst carry = naf_digits s' i' n lst carry"
  using assms
proof (induction n arbitrary: i i' lst carry)
  case (Suc n)
  have "naf_digits s (i + 1) n l c = naf_digits s' (i' + 1) n l c" for l c
    by (rule Suc.IH) (use Suc.prems [of "Suc _"] in simp)
  then show ?case using Suc.prems [of 0] by simp
qed simp

lemma naf_digits_add:
  "naf_digits s i (m + n) lst carry =
     (let (ds, lst, carry) = naf_digits s i m lst carry;
          (es, lst, carry) = naf_digits s (i + m) n lst carry
      in (ds @ es, lst, carry))"
  by (induction m arbitrary: i lst carry) (simp_all add: Let_def split: prod.splits)

lemma drop_bit_Suc_odd: "drop_bit k s = of_bool (bit s k) + 2 * drop_bit (Suc k) (s :: nat)"
proof -
  have "drop_bit k s = of_bool (odd (drop_bit k s)) + 2 * (drop_bit k s div 2)" by (simp add: odd_two_times_div_two_succ)
  then show ?thesis by (simp add: bit_iff_odd_drop_bit drop_bit_Suc flip: drop_bit_half)
qed

lemma naf_digits_value:
  assumes "naf_digits s i n lst carry = (ds, lst', carry')"
  shows "naf_pending lst carry + 2 * int (drop_bit (i + 1) s)
    = naf_value ds + 2 ^ n * (naf_pending lst' carry' + 2 * int (drop_bit (i + n + 1) s))"
  using assms
proof (induction n arbitrary: i lst carry ds)
  case (Suc n)
  obtain d l c es where st: "naf_step lst carry (bit s (i + 1)) = (d, l, c)"
    and es: "naf_digits s (i + 1) n l c = (es, lst', carry')" "ds = d # es"
    using Suc.prems by (rule naf_digits_SucE)
  have "int (drop_bit (i + 1) s) = of_bool (bit s (i + 1)) + 2 * int (drop_bit (Suc (i + 1)) s)"
    by (subst drop_bit_Suc_odd) simp
  then have "naf_pending lst carry + 2 * int (drop_bit (i + 1) s)
      = naf_digit d + 2 * (naf_pending l c + 2 * int (drop_bit (i + 1 + 1) s))"
    using naf_step_value(1) [OF st] by simp
  also have "\<dots> = naf_value ds + 2 ^ Suc n * (naf_pending lst' carry' + 2 * int (drop_bit (i + Suc n + 1) s))"
    unfolding Suc.IH [OF es(1)] es(2) by (simp add: algebra_simps)
  finally show ?case .
qed simp

lemma naf_digits_state:
  "naf_digits s i n lst carry = (ds, lst', carry') \<Longrightarrow> \<not> (lst \<and> carry) \<Longrightarrow> \<not> (lst' \<and> carry')"
proof (induction n arbitrary: i lst carry ds)
  case (Suc n)
  from Suc.prems(1) show ?case
    by (rule naf_digits_SucE) (use Suc.IH naf_step_value(2) in blast)
qed auto

lemma naf_value_replicate [simp]: "naf_value (replicate n 0) = 0"
  by (induction n) (simp_all add: naf_digit_def)

lemma nonadjacent_prefix: "nonadjacent (xs @ ys) \<Longrightarrow> nonadjacent xs"
  by (induction xs rule: nonadjacent.induct) auto

text \<open>Once the bits of the scalar are used up, two more digits empty the state.\<close>

lemma naf_digits_flush:
  assumes "drop_bit (i + 1) s = 0" and "\<not> (lst \<and> carry)"
  shows "\<exists>ds. naf_digits s i (Suc (Suc n)) lst carry = (ds @ replicate n 0, False, False) \<and> length ds = 2"
proof -
  have z: "\<not> bit s k" if "i + 1 \<le> k" for k
  proof -
    have "bit s k = bit (drop_bit (i + 1) s) (k - (i + 1))" using that by (simp add: bit_drop_bit_eq)
    then show ?thesis using assms(1) by simp
  qed
  have idle: "naf_digits s j n False False = (replicate n 0, False, False)" if "i \<le> j" for j n
    using that by (induction n arbitrary: j) (simp_all add: z naf_step_def)
  show ?thesis using assms(2) idle [of "i + 2" n] z [of "i + 1"] z [of "i + 2"]
    by (cases lst; cases carry) (simp_all add: naf_step_def)
qed

section \<open>The table\<close>

lemma bit_small_digit: "d \<in> {0, 1, 2 :: u8} \<Longrightarrow> 2 \<le> j \<Longrightarrow> \<not> bit d j"
  by (cases j) (auto simp: bit_Suc bit_1_iff)

lemma digit_bits:
  assumes "set ds \<subseteq> {0, 1, 2 :: u8}" and "length ds = 8" and "k < 64"
  shows "bit (of_nat (le_val ds) :: u64) k \<longleftrightarrow> bit (ds ! (k div 8)) (k mod 8)"
    and "2 \<le> k mod 8 \<Longrightarrow> \<not> bit (of_nat (le_val ds) :: u64) k"
proof -
  show eq: "bit (of_nat (le_val ds) :: u64) k \<longleftrightarrow> bit (ds ! (k div 8)) (k mod 8)"
    using assms by (simp add: bit_of_nat_iff bit_le_val)
  have "ds ! (k div 8) \<in> set ds" using assms by (intro nth_mem) (simp add: less_mult_imp_div_less)
  then have "ds ! (k div 8) \<in> {0, 1, 2}" using assms(1) by blast
  then show "2 \<le> k mod 8 \<Longrightarrow> \<not> bit (of_nat (le_val ds) :: u64) k"
    unfolding eq by (rule bit_small_digit)
qed

lemma bit_naf_mask: "k < 64 \<Longrightarrow> bit (0x0303030303030303 :: u64) k \<longleftrightarrow> k mod 8 < 2"
proof -
  have "\<forall>k\<in>set [0..<64]. bit (0x0303030303030303 :: u64) k \<longleftrightarrow> k mod 8 < 2" by code_simp
  then show "k < 64 \<Longrightarrow> ?thesis" by simp
qed

lemma naf_entry_unpack:
  assumes "naf_digits in' 0 8 (bit in' 0) (bit in' 9) = (ds, lst, carry)"
  shows "le_bytes 8 (unat (naf_entry in' AND 0x0303030303030303)) = ds"
    and "naf_entry in' AND 4 \<noteq> 0 \<longleftrightarrow> carry" and "naf_entry in' AND 8 \<noteq> 0 \<longleftrightarrow> lst"
proof -
  have ds: "set ds \<subseteq> {0, 1, 2}" "length ds = 8"
    using naf_digits_range [OF assms] length_naf_digits [OF assms] by simp_all
  have e: "bit (naf_entry in') k \<longleftrightarrow> bit (ds ! (k div 8)) (k mod 8) \<or> (carry \<and> k = 2) \<or> (lst \<and> k = 3)" if "k < 64" for k
    using that digit_bits(1) [OF ds, of k] assms
    by (auto simp: naf_entry_def Let_def bit_or_iff bit_numeral_rec bit_1_iff split: if_splits nat.splits)
  show "le_bytes 8 (unat (naf_entry in' AND 0x0303030303030303)) = ds"
  proof (rule nth_equalityI)
    fix i assume i: "i < length (le_bytes 8 (unat (naf_entry in' AND 0x0303030303030303)))"
    show "le_bytes 8 (unat (naf_entry in' AND 0x0303030303030303)) ! i = ds ! i"
    proof (rule bit_word_eqI)
      fix j assume j: "j < LENGTH(8)"
      have "ds ! i \<in> {0, 1, 2}" using ds i by (metis length_le_bytes nth_mem subsetD)
      then have s: "\<not> (bit (ds ! i) j \<and> 2 \<le> j)" using bit_small_digit [of "ds ! i" j] by blast
      have k: "8 * i + j < 64" "(8 * i + j) mod 8 = j" "(8 * i + j) div 8 = i" using i j by simp_all
      have "8 * i + j = 2 \<or> 8 * i + j = 3 \<Longrightarrow> 2 \<le> j" by presburger
      then show "bit (le_bytes 8 (unat (naf_entry in' AND 0x0303030303030303)) ! i) j = bit (ds ! i) j"
        using i j s k bit_naf_mask [OF k(1)] e [OF k(1)]
        by (auto simp: bit_le_bytes bit_unsigned_iff bit_and_iff)
    qed
  qed (simp add: ds)
  have "ds ! 0 \<in> {0, 1, 2}" using ds by (metis nth_mem subsetD zero_less_numeral)
  then have d0: "\<not> bit (ds ! 0) 2" "\<not> bit (ds ! 0) 3" by (simp_all add: bit_small_digit)
  have p: "(4::u64) = 2 ^ 2" "(8::u64) = 2 ^ 3" by simp_all
  show "naf_entry in' AND 4 \<noteq> 0 \<longleftrightarrow> carry" "naf_entry in' AND 8 \<noteq> 0 \<longleftrightarrow> lst"
    unfolding p and_exp_eq_0_iff_not_bit not_not using d0 by (simp_all add: e)
qed

section \<open>The recoding\<close>

text \<open>A row of the table continues the recoding of the whole scalar by eight digits.\<close>

lemma bit_byte: "i < length bs \<Longrightarrow> j < 8 \<Longrightarrow> bit (bs ! i) j \<longleftrightarrow> bit (le_val bs) (8 * i + j)"
  using bit_le_val [of "8 * i + j" bs] by simp

lemma not_bit_le_val: "8 * length bs \<le> k \<Longrightarrow> \<not> bit (le_val bs) k"
proof -
  assume "8 * length bs \<le> k"
  have "le_val bs < 2 ^ (8 * length bs)" using le_val_upper [of bs] by (simp add: power_mult)
  also have "\<dots> \<le> 2 ^ k" by (rule power_increasing) (use \<open>8 * length bs \<le> k\<close> in simp_all)
  finally show ?thesis by (simp add: bit_iff_odd)
qed

lemma bit_FE: "bit (0xFE :: u8) n \<longleftrightarrow> n \<noteq> 0 \<and> n < 8"
proof -
  have "\<forall>n\<in>set [0..<8]. bit (0xFE :: u8) n \<longleftrightarrow> n \<noteq> 0" by code_simp
  then show ?thesis by (cases "n < 8") (auto dest: bit_imp_le_length)
qed

lemma and_FE: "unat (b AND 0xFE :: u8) = 2 * (unat b div 2)"
proof -
  have "unat (b AND 0xFE :: u8) = 2 * drop_bit 1 (unat b)"
  proof (rule bit_eqI)
    fix n show "bit (unat (b AND 0xFE)) n = bit (2 * drop_bit 1 (unat b)) n"
      using bit_imp_le_length [of b n]
      unfolding bit_unsigned_iff bit_and_iff bit_FE by (cases n) (auto simp: bit_double_iff bit_drop_bit_eq bit_unsigned_iff)
  qed
  then show ?thesis by (simp add: drop_bit_eq_div)
qed

lemma unat_and_1: "unat (b AND 1 :: u8) = of_bool (bit b 0)"
proof -
  have "b AND 1 = of_bool (bit b 0)" by (simp add: and_one_eq mod_2_eq_odd bit_0)
  then show ?thesis by (cases "bit b 0") simp_all
qed

lemma naf_index_bits:
  fixes lst carry :: bool
  assumes "n = length scalar" "0 < n" "i < n + 2" "n < 2 ^ 28"
  defines "x \<equiv> naf_index scalar (of_nat n) (of_nat i) lst carry"
  shows "x < 1024" and "bit x 0 = lst" and "bit x 9 = carry"
    and "\<And>k. k < 8 \<Longrightarrow> bit x (k + 1) = bit (le_val scalar) (8 * i + k + 1)"
proof -
  define m :: nat where "m = (if i < n then unat (scalar ! i) div 2 else 0)"
  define c :: nat where "c = (if i + 1 < n then unat (scalar ! (i + 1) AND 1) else 0)"
  have w: "(of_nat i :: u32) < of_nat n \<longleftrightarrow> i < n" "(of_nat i :: u32) < of_nat n - 1 \<longleftrightarrow> i + 1 < n"
    "unat (of_nat i :: u32) = i" "unat (of_nat i + 1 :: u32) = i + 1"
  proof -
    have "(of_nat n :: u32) - 1 = of_nat (n - 1)" using assms(2) by simp
    moreover have "(of_nat i :: u32) + 1 = of_nat (i + 1)" by simp
    ultimately show "(of_nat i :: u32) < of_nat n \<longleftrightarrow> i < n" "(of_nat i :: u32) < of_nat n - 1 \<longleftrightarrow> i + 1 < n"
      "unat (of_nat i :: u32) = i" "unat (of_nat i + 1 :: u32) = i + 1"
      using assms(2-4) by (simp_all only: of_nat_word_less_iff unat_of_nat) (auto simp: less_diff_conv take_bit_nat_eq_self)
  qed
  have c: "c < 2" by (simp add: c_def unat_and_1)
  have m: "m < 2 ^ 7" using unat_u8_upper [of "scalar ! i"] by (auto simp: m_def)
  have x: "x = of_bool lst + 2 ^ 1 * (m + 2 ^ 7 * (c + 2 ^ 1 * of_bool carry))"
    by (simp add: x_def naf_index_def w and_FE m_def c_def)
  have b2: "(of_bool lst :: nat) < 2 ^ 1" "c < 2 ^ 1" using c by simp_all
  have bits: "bit x k = (if k < 1 then bit (of_bool lst :: nat) k
      else if k - 1 < 7 then bit m (k - 1) else if k - 1 - 7 < 1 then bit c (k - 1 - 7)
      else bit (of_bool carry :: nat) (k - 1 - 7 - 1))" for k
    unfolding x bit_add_pow2 [OF b2(1)] bit_add_pow2 [OF m] bit_add_pow2 [OF b2(2)] by (rule refl)
  have "m + 2 ^ 7 * (c + 2 ^ 1 * of_bool carry) < 512" using m c by simp
  then show "x < 1024" unfolding x by simp
  show "bit x 0 = lst" "bit x 9 = carry" unfolding bits by (simp_all add: bit_0)
  fix k :: nat assume "k < 8"
  show "bit x (k + 1) = bit (le_val scalar) (8 * i + k + 1)"
  proof (cases "k < 7")
    case True
    then have "bit m k = bit (le_val scalar) (8 * i + (k + 1))"
      using bit_byte [of i scalar "k + 1"] not_bit_le_val [of scalar "8 * i + (k + 1)"] assms(1)
      by (auto simp: m_def bit_unsigned_iff bit_Suc simp flip: bit_Suc)
    then show ?thesis using True by (simp add: bits add.assoc)
  next
    case False
    then have "k = 7" using \<open>k < 8\<close> by simp
    then show ?thesis using bit_byte [of "i + 1" scalar 0] not_bit_le_val [of scalar "8 * (i + 1)"] assms(1) c
      by (auto simp: bits bit_0 c_def unat_and_1)
  qed
qed

lemma naf_rows_digits:
  assumes "n = length scalar" "0 < n" "i + k = n + 2" "n < 2 ^ 28"
  shows "naf_rows scalar (of_nat n) (of_nat i) k lst carry
    = fst (naf_digits (le_val scalar) (8 * i) (8 * k) lst carry)"
  using assms(3)
proof (induction k arbitrary: i lst carry)
  case (Suc k)
  define x where "x = naf_index scalar (of_nat n) (of_nat i) lst carry"
  have "i < n + 2" using Suc.prems by simp
  note x = naf_index_bits [OF assms(1,2) this assms(4), where lst = lst and carry = carry, folded x_def]
  obtain ds l c where row: "naf_digits x 0 8 lst carry = (ds, l, c)" by (metis prod_cases3)
  have e: "NAFTable ! x = naf_entry x" using x(1) by (simp add: NAFTable_def)
  note u = naf_entry_unpack [of x, unfolded x(2,3), OF row]
  have "naf_rows scalar (of_nat n) (of_nat i) (Suc k) lst carry = ds @ naf_rows scalar (of_nat n) (of_nat (Suc i)) k l c"
    by (simp add: u e Let_def flip: x_def) (simp add: add.commute)
  also have "\<dots> = ds @ fst (naf_digits (le_val scalar) (8 * Suc i) (8 * k) l c)"
    using Suc.IH [of "Suc i" l c] Suc.prems by simp
  also have "naf_digits (le_val scalar) (8 * i) 8 lst carry = (ds, l, c)"
    unfolding row [symmetric] by (rule naf_digits_cong) (use x(4) in simp)
  then have "ds @ fst (naf_digits (le_val scalar) (8 * Suc i) (8 * k) l c)
      = fst (naf_digits (le_val scalar) (8 * i) (8 + 8 * k) lst carry)"
    by (simp only: naf_digits_add) (simp add: Let_def add.commute split: prod.splits)
  finally show ?case by simp
qed simp

lemma buildNaf_digits:
  assumes "n = length scalar" "0 < n" "n < 2 ^ 28"
  shows "buildNaf scalar (of_nat n) = fst (naf_digits (le_val scalar) 0 (8 * (n + 2)) (bit (le_val scalar) 0) False)"
proof -
  have "unat (of_nat n + 2 :: u32) = n + 2"
  proof -
    have "(of_nat n + 2 :: u32) = of_nat (n + 2)" by simp
    moreover have "n + 2 < 2 ^ 32" using assms(3) by simp
    ultimately show ?thesis by (simp only: unat_of_nat) simp
  qed
  moreover have "scalar ! 0 AND 1 \<noteq> 0 \<longleftrightarrow> bit (le_val scalar) 0"
    using bit_byte [of 0 scalar 0] assms(1,2) by (simp add: and_one_eq mod_2_eq_odd bit_0)
  ultimately show ?thesis
    using naf_rows_digits [of n scalar 0 "n + 2"] assms by (simp add: buildNaf_def)
qed

text \<open>The digits denote the scalar; all of them lie in the first \<open>8 * n + 2\<close> positions.\<close>

lemma buildNaf_value:
  assumes "n = length scalar" "0 < n" "n < 2 ^ 28"
  shows "\<exists>ds. buildNaf scalar (of_nat n) = ds @ replicate 14 0 \<and> length ds = 8 * n + 2
    \<and> naf_value ds = int (le_val scalar) \<and> set ds \<subseteq> {0, 1, 2} \<and> nonadjacent ds"
proof -
  let ?s = "le_val scalar"
  obtain ds l c where d: "naf_digits ?s 0 (8 * n) (bit ?s 0) False = (ds, l, c)" by (metis prod_cases3)
  have "drop_bit (8 * n + 1) ?s = 0"
    using not_bit_le_val [of scalar] assms(1) by (intro bit_eqI) (simp add: bit_drop_bit_eq)
  moreover have "\<not> (l \<and> c)" using naf_digits_state [OF d] by simp
  ultimately obtain es where e: "naf_digits ?s (8 * n) (Suc (Suc 14)) l c = (es @ replicate 14 0, False, False)" "length es = 2"
    using naf_digits_flush by blast
  have all: "naf_digits ?s 0 (8 * n + Suc (Suc 14)) (bit ?s 0) False = ((ds @ es) @ replicate 14 0, False, False)"
    unfolding naf_digits_add d using e by (simp add: Let_def)
  have "8 * (n + 2) = 8 * n + Suc (Suc 14)" by simp
  then have b: "buildNaf scalar (of_nat n) = (ds @ es) @ replicate 14 0"
    using buildNaf_digits [OF assms] all by (simp only: fst_conv)
  have "drop_bit (0 + (8 * n + Suc (Suc 14)) + 1) ?s = 0"
    using not_bit_le_val [of scalar] assms(1) by (intro bit_eqI) (simp add: bit_drop_bit_eq)
  then have "naf_value ((ds @ es) @ replicate 14 0) = of_bool (bit ?s 0) + 2 * int (drop_bit 1 ?s)"
    using naf_digits_value [OF all] by simp
  also have "\<dots> = int ?s"
  proof -
    have "?s = of_bool (bit ?s 0) + 2 * drop_bit 1 ?s" using drop_bit_Suc_odd [of 0 ?s] by simp
    then have "int ?s = int (of_bool (bit ?s 0) + 2 * drop_bit 1 ?s)" by (rule arg_cong)
    then show ?thesis by simp
  qed
  finally have "naf_value (ds @ es) = int ?s" by (simp add: naf_value_append)
  moreover have "set (ds @ es) \<subseteq> {0, 1, 2}" using naf_digits_range [OF all] by simp
  moreover have "nonadjacent (ds @ es)" using naf_digits_nonadjacent [OF all] nonadjacent_prefix by blast
  ultimately show ?thesis using b length_naf_digits [OF d] e(2) by (intro exI [of _ "ds @ es"]) simp
qed

end
