(* ===== verification/PointGroup.thy ===== *)
theory PointGroup
  imports Main
begin

text \<open>
  Commutative groups on a set, the interface between the curve arithmetic and the algorithms
  that only add points: integer multiples and sums of lists, with the laws that the scalar
  multiplication and the multi-scalar multiplication need.
\<close>

primrec nmul :: "('g \<Rightarrow> 'g \<Rightarrow> 'g) \<Rightarrow> 'g \<Rightarrow> nat \<Rightarrow> 'g \<Rightarrow> 'g" where
  "nmul gadd gzero 0 p = gzero"
| "nmul gadd gzero (Suc n) p = gadd p (nmul gadd gzero n p)"

definition zmul :: "('g \<Rightarrow> 'g \<Rightarrow> 'g) \<Rightarrow> 'g \<Rightarrow> ('g \<Rightarrow> 'g) \<Rightarrow> int \<Rightarrow> 'g \<Rightarrow> 'g" where
  "zmul gadd gzero gneg k p = (if 0 \<le> k then nmul gadd gzero (nat k) p else gneg (nmul gadd gzero (nat (- k)) p))"

primrec nsum :: "('g \<Rightarrow> 'g \<Rightarrow> 'g) \<Rightarrow> 'g \<Rightarrow> (nat \<Rightarrow> 'g) \<Rightarrow> nat \<Rightarrow> 'g" where
  "nsum gadd gzero f 0 = gzero"
| "nsum gadd gzero f (Suc n) = gadd (nsum gadd gzero f n) (f n)"

locale comm_grp =
  fixes G :: "'g set" and gadd :: "'g \<Rightarrow> 'g \<Rightarrow> 'g" and gzero :: 'g and gneg :: "'g \<Rightarrow> 'g"
  assumes plus_closed: "p \<in> G \<Longrightarrow> q \<in> G \<Longrightarrow> gadd p q \<in> G"
    and zero_closed: "gzero \<in> G"
    and neg_closed: "p \<in> G \<Longrightarrow> gneg p \<in> G"
    and plus_assoc: "p \<in> G \<Longrightarrow> q \<in> G \<Longrightarrow> r \<in> G \<Longrightarrow> gadd (gadd p q) r = gadd p (gadd q r)"
    and plus_comm: "p \<in> G \<Longrightarrow> q \<in> G \<Longrightarrow> gadd p q = gadd q p"
    and plus_zero: "p \<in> G \<Longrightarrow> gadd gzero p = p"
    and plus_neg: "p \<in> G \<Longrightarrow> gadd p (gneg p) = gzero"
begin

abbreviation nm :: "nat \<Rightarrow> 'g \<Rightarrow> 'g" where "nm \<equiv> nmul gadd gzero"
abbreviation zm :: "int \<Rightarrow> 'g \<Rightarrow> 'g" where "zm \<equiv> zmul gadd gzero gneg"
abbreviation ns :: "(nat \<Rightarrow> 'g) \<Rightarrow> nat \<Rightarrow> 'g" where "ns \<equiv> nsum gadd gzero"

lemma nmul_closed: "p \<in> G \<Longrightarrow> nm n p \<in> G"
  by (induction n) (simp_all add: zero_closed plus_closed)

lemma zmul_closed: "p \<in> G \<Longrightarrow> zm k p \<in> G"
  by (simp add: zmul_def nmul_closed neg_closed)

lemma nsum_closed: "(\<And>i. i < n \<Longrightarrow> f i \<in> G) \<Longrightarrow> ns f n \<in> G"
  by (induction n) (simp_all add: zero_closed plus_closed)

lemmas closed = plus_closed zero_closed neg_closed nmul_closed zmul_closed nsum_closed

lemma plus_zero_right: "p \<in> G \<Longrightarrow> gadd p gzero = p"
  by (metis plus_comm plus_zero zero_closed)

lemma plus_left_comm: "p \<in> G \<Longrightarrow> q \<in> G \<Longrightarrow> r \<in> G \<Longrightarrow> gadd p (gadd q r) = gadd q (gadd p r)"
  by (metis plus_assoc plus_comm)

lemma neg_unique: "p \<in> G \<Longrightarrow> q \<in> G \<Longrightarrow> gadd p q = gzero \<Longrightarrow> q = gneg p"
  by (metis neg_closed plus_assoc plus_comm plus_neg plus_zero)

lemma neg_zero: "gneg gzero = gzero"
  using neg_unique [of gzero gzero] plus_zero [OF zero_closed] zero_closed by simp

lemma neg_neg: "p \<in> G \<Longrightarrow> gneg (gneg p) = p"
  using neg_unique [of "gneg p" p] plus_comm [of p "gneg p"] plus_neg neg_closed by simp

lemma plus_neg_cancel: "p \<in> G \<Longrightarrow> q \<in> G \<Longrightarrow> gadd p (gadd (gneg p) q) = q"
  by (metis neg_closed plus_assoc plus_neg plus_zero)

lemma neg_plus_cancel: "p \<in> G \<Longrightarrow> q \<in> G \<Longrightarrow> gadd (gneg p) (gadd p q) = q"
  using plus_neg_cancel [of "gneg p" q] by (simp add: neg_neg neg_closed)

lemma neg_plus: "p \<in> G \<Longrightarrow> q \<in> G \<Longrightarrow> gneg (gadd p q) = gadd (gneg p) (gneg q)"
  by (rule neg_unique [symmetric])
    (simp_all add: closed plus_assoc plus_left_comm [of q] plus_neg plus_neg_cancel plus_zero_right)

lemma zmul_0 [simp]: "zm 0 p = gzero"
  by (simp add: zmul_def)

lemma zmul_succ: "p \<in> G \<Longrightarrow> zm (k + 1) p = gadd p (zm k p)"
proof -
  assume p: "p \<in> G"
  consider "0 \<le> k" | "k = - 1" | "k < - 1" by linarith
  then show ?thesis
  proof cases
    case 1
    then have "nat (k + 1) = Suc (nat k)" by simp
    then show ?thesis using 1 by (simp add: zmul_def)
  next
    case 2
    then show ?thesis by (simp add: zmul_def p plus_zero_right plus_neg)
  next
    case 3
    define n where "n = nat (- (k + 1))"
    have n: "k = - int (Suc n)" "nat (- k) = Suc n" using 3 by (simp_all add: n_def)
    have "zm (k + 1) p = gneg (nm n p)" using 3 by (simp add: zmul_def n_def)
    moreover have "zm k p = gadd (gneg p) (gneg (nm n p))" using 3 by (simp add: zmul_def n(2) neg_plus p closed)
    ultimately show ?thesis by (simp add: plus_neg_cancel p closed)
  qed
qed

lemma zmul_pred: "p \<in> G \<Longrightarrow> zm (k - 1) p = gadd (gneg p) (zm k p)"
  using zmul_succ [of p "k - 1"] by (simp add: neg_plus_cancel closed)

lemma zmul_1: "p \<in> G \<Longrightarrow> zm 1 p = p"
  using zmul_succ [of p 0] by (simp add: plus_zero_right)

lemma zmul_add: "p \<in> G \<Longrightarrow> zm (j + k) p = gadd (zm j p) (zm k p)"
proof (induction j rule: int_induct [where k = 0])
  case base
  then show ?case by (simp add: plus_zero closed)
next
  case (step1 i)
  have "zm (i + 1 + k) p = gadd p (zm (i + k) p)" using zmul_succ [of p "i + k"] step1.prems by (simp add: ac_simps)
  then show ?case using step1 by (simp add: zmul_succ plus_assoc closed)
next
  case (step2 i)
  have "zm (i - 1 + k) p = gadd (gneg p) (zm (i + k) p)" using zmul_pred [of p "i + k"] step2.prems by (simp add: algebra_simps)
  then show ?case using step2 by (simp add: zmul_pred plus_assoc closed)
qed

lemma zmul_neg: "p \<in> G \<Longrightarrow> zm (- k) p = gneg (zm k p)"
  by (rule neg_unique) (simp_all add: closed flip: zmul_add)

lemma zmul_minus_1: "p \<in> G \<Longrightarrow> zm (- 1) p = gneg p"
  by (simp add: zmul_neg zmul_1)

lemma zmul_double: "p \<in> G \<Longrightarrow> zm (2 * k) p = gadd (zm k p) (zm k p)"
  by (simp add: flip: zmul_add)

lemma zmul_plus: "p \<in> G \<Longrightarrow> q \<in> G \<Longrightarrow> zm k (gadd p q) = gadd (zm k p) (zm k q)"
proof (induction k rule: int_induct [where k = 0])
  case base
  then show ?case by (simp add: plus_zero zero_closed)
next
  case (step1 i)
  then show ?case by (simp add: zmul_succ plus_assoc plus_left_comm closed)
next
  case (step2 i)
  then show ?case by (simp add: zmul_pred neg_plus plus_assoc plus_left_comm closed)
qed

lemma zmul_zmul: "p \<in> G \<Longrightarrow> zm j (zm k p) = zm (j * k) p"
proof (induction j rule: int_induct [where k = 0])
  case base
  then show ?case by simp
next
  case (step1 i)
  have "zm ((i + 1) * k) p = gadd (zm k p) (zm (i * k) p)"
    using zmul_add [OF step1.prems, of k "i * k"] by (simp add: algebra_simps)
  then show ?case using step1 zmul_succ [OF zmul_closed [OF step1.prems], of i] by simp
next
  case (step2 i)
  have "zm ((i - 1) * k) p = gadd (zm (- k) p) (zm (i * k) p)"
    using zmul_add [OF step2.prems, of "- k" "i * k"] by (simp add: algebra_simps)
  then show ?case using step2 zmul_pred [OF zmul_closed [OF step2.prems], of i] by (simp add: zmul_neg)
qed

lemma zmul_zero: "zm k gzero = gzero"
  by (induction k rule: int_induct [where k = 0]) (simp_all add: zmul_succ zmul_pred neg_zero plus_zero zero_closed)

lemma nsum_cong: "(\<And>i. i < n \<Longrightarrow> f i = g i) \<Longrightarrow> ns f n = ns g n"
  by (induction n) simp_all

lemma nsum_plus:
  "(\<And>i. i < n \<Longrightarrow> f i \<in> G \<and> g i \<in> G) \<Longrightarrow> ns (\<lambda>i. gadd (f i) (g i)) n = gadd (ns f n) (ns g n)"
proof (induction n)
  case (Suc n)
  have "ns f n \<in> G" "ns g n \<in> G" using Suc.prems by (simp_all add: nsum_closed)
  then show ?case using Suc by (simp add: plus_assoc plus_left_comm [of "f n"] closed)
qed (simp add: plus_zero zero_closed)

lemma zmul_nsum: "(\<And>i. i < n \<Longrightarrow> f i \<in> G) \<Longrightarrow> zm k (ns f n) = ns (\<lambda>i. zm k (f i)) n"
  by (induction n) (simp_all add: zmul_zero zmul_plus nsum_closed)

lemma nsum_zero: "ns (\<lambda>i. gzero) n = gzero"
  by (induction n) (simp_all add: plus_zero zero_closed)

lemma nsum_zmul: "p \<in> G \<Longrightarrow> ns (\<lambda>k. zm (c k) p) n = zm (\<Sum>k < n. c k) p"
  by (induction n) (simp_all add: zmul_add)

lemma nsum_swap:
  assumes "\<And>i k. i < m \<Longrightarrow> k < n \<Longrightarrow> f i k \<in> G"
  shows "ns (\<lambda>i. ns (f i) n) m = ns (\<lambda>k. ns (\<lambda>i. f i k) m) n"
  using assms
proof (induction m)
  case 0
  then show ?case by (simp add: nsum_zero)
next
  case (Suc m)
  have "ns (\<lambda>k. gadd (ns (\<lambda>i. f i k) m) (f m k)) n = gadd (ns (\<lambda>k. ns (\<lambda>i. f i k) m) n) (ns (f m) n)"
    using Suc.prems by (intro nsum_plus) (simp add: nsum_closed)
  then show ?case using Suc by simp
qed

lemma nsum_head: "(\<And>i. i \<le> n \<Longrightarrow> f i \<in> G) \<Longrightarrow> ns f (Suc n) = gadd (f 0) (ns (\<lambda>i. f (Suc i)) n)"
proof (induction n)
  case (Suc n)
  have "ns (\<lambda>i. f (Suc i)) n \<in> G" using Suc.prems by (simp add: nsum_closed)
  then show ?case using Suc by (simp add: plus_assoc)
qed (simp add: plus_zero plus_zero_right)

end

end
