(* ===== verification/AffineCurve.thy ===== *)
theory AffineCurve
  imports PointGroup
begin

text \<open>
  The mathematics that the curve code refers to: the points of a short Weierstrass curve
  \<open>y\<^sup>2 = x\<^sup>3 + a x + b\<close> over a field of characteristic other than 2, in affine form with a
  point at infinity, and their addition by chords and tangents. The main result is that they
  form a commutative group.

  The proof of associativity works with lines counted with multiplicity: \<open>on_line l c P Q R\<close>
  says that \<open>y = l x + c\<close> meets the curve exactly in \<open>P\<close>, \<open>Q\<close> and \<open>R\<close>. Chords and
  tangents are then one case, and for two lines with slopes \<open>l \<noteq> m\<close> through a common point
  the slopes of the two lines that associativity compares differ by \<open>l - m\<close>.
\<close>

section \<open>Points and their addition\<close>

datatype 'a apoint = Infinity | Affine 'a 'a

definition on_curve :: "'a::field \<Rightarrow> 'a \<Rightarrow> 'a apoint \<Rightarrow> bool" where
  "on_curve a b p = (case p of Infinity \<Rightarrow> True | Affine x y \<Rightarrow> y ^ 2 = x ^ 3 + a * x + b)"

fun aneg :: "'a::field apoint \<Rightarrow> 'a apoint" where
  "aneg Infinity = Infinity"
| "aneg (Affine x y) = Affine x (- y)"

definition slope :: "'a::field \<Rightarrow> 'a \<Rightarrow> 'a \<Rightarrow> 'a \<Rightarrow> 'a \<Rightarrow> 'a" where
  "slope a x1 y1 x2 y2 = (if x1 = x2 then (3 * x1 ^ 2 + a) / (2 * y1) else (y2 - y1) / (x2 - x1))"

fun aadd :: "'a::field \<Rightarrow> 'a apoint \<Rightarrow> 'a apoint \<Rightarrow> 'a apoint" where
  "aadd a Infinity q = q"
| "aadd a p Infinity = p"
| "aadd a (Affine x1 y1) (Affine x2 y2) =
     (if x1 = x2 \<and> y1 = - y2 then Infinity
      else let l = slope a x1 y1 x2 y2;
               x3 = l ^ 2 - x1 - x2
           in Affine x3 (- y1 - l * (x3 - x1)))"

lemma aadd_Infinity_right [simp]: "aadd a p Infinity = p"
  by (cases p) simp_all

lemma aneg_aneg [simp]: "aneg (aneg p) = p"
  by (cases p) simp_all

lemma on_curve_Infinity [simp]: "on_curve a b Infinity"
  by (simp add: on_curve_def)

lemma on_curve_Affine: "on_curve a b (Affine x y) \<longleftrightarrow> y ^ 2 = x ^ 3 + a * x + b"
  by (simp add: on_curve_def)

lemma aadd_aneg: "aadd a p (aneg p) = Infinity"
  by (cases p) simp_all

lemma on_curve_aneg: "on_curve a b p \<Longrightarrow> on_curve a b (aneg p)"
  by (cases p) (simp_all add: on_curve_def)

section \<open>Lines with multiplicity\<close>

definition on_line :: "'a::field \<Rightarrow> 'a \<Rightarrow> 'a \<Rightarrow> 'a \<Rightarrow> 'a \<Rightarrow> 'a \<Rightarrow> 'a \<Rightarrow> 'a \<Rightarrow> 'a \<Rightarrow> 'a \<Rightarrow> bool" where
  "on_line a b l c x1 y1 x2 y2 x3 y3 \<longleftrightarrow>
     y1 = l * x1 + c \<and> y2 = l * x2 + c \<and> y3 = l * x3 + c
     \<and> x1 + x2 + x3 = l ^ 2 \<and> x1 * x2 + x1 * x3 + x2 * x3 = a - 2 * l * c \<and> x1 * x2 * x3 = c ^ 2 - b"

lemma on_line_rotate: "on_line a b l c x1 y1 x2 y2 x3 y3 \<Longrightarrow> on_line a b l c x2 y2 x3 y3 x1 y1"
  by (simp add: on_line_def algebra_simps)

lemma on_line_swap: "on_line a b l c x1 y1 x2 y2 x3 y3 \<Longrightarrow> on_line a b l c x2 y2 x1 y1 x3 y3"
  by (simp add: on_line_def algebra_simps)

lemma on_line_neg:
  "on_line a b l c x1 y1 x2 y2 x3 y3 \<Longrightarrow> on_line a b (- l) (- c) x1 (- y1) x2 (- y2) x3 (- y3)"
  by (simp add: on_line_def)

lemma on_line_curve: "on_line a b l c x1 y1 x2 y2 x3 y3 \<Longrightarrow> y1 ^ 2 = x1 ^ 3 + a * x1 + b"
  unfolding on_line_def by algebra

text \<open>A double point of a line lies on the tangent.\<close>

lemma on_line_tangent: "on_line a b l c x y x y x3 y3 \<Longrightarrow> 2 * y * l = 3 * x ^ 2 + a"
  unfolding on_line_def by algebra

lemma on_line_exists:
  fixes a b :: "'a::field"
  assumes P: "y1 ^ 2 = x1 ^ 3 + a * x1 + b" and Q: "y2 ^ 2 = x2 ^ 3 + a * x2 + b"
    and "\<not> (x1 = x2 \<and> y1 = - y2)" and "(2 :: 'a) \<noteq> 0"
  shows "\<exists>l c x3 y3. on_line a b l c x1 y1 x2 y2 x3 y3 \<and> aadd a (Affine x1 y1) (Affine x2 y2) = Affine x3 (- y3)"
proof -
  define l where "l = slope a x1 y1 x2 y2"
  define c where "c = y1 - l * x1"
  define x3 where "x3 = l ^ 2 - x1 - x2"
  have "y2 = l * x2 + c \<and> x1 * x2 + x1 * x3 + x2 * x3 = a - 2 * l * c \<and> x1 * x2 * x3 = c ^ 2 - b"
  proof (cases "x1 = x2")
    case True
    have "(y1 - y2) * (y1 + y2) = 0" using P Q True by (simp add: algebra_simps power2_eq_square)
    with assms(3) True have y: "y2 = y1" by (auto simp: add_eq_0_iff)
    then have "y1 \<noteq> 0" using assms(3) True by auto
    then have "2 * y1 * l = 3 * x1 ^ 2 + a" using True assms(4) by (simp add: l_def slope_def)
    then show ?thesis using P True y unfolding c_def x3_def by simp algebra
  next
    case False
    then have l: "l * (x2 - x1) = y2 - y1" by (simp add: l_def slope_def)
    have "(x2 - x1) * (x1 * x2 + x1 * x3 + x2 * x3 - (a - 2 * l * c)) = 0"
      using P Q l unfolding c_def x3_def by algebra
    then have e2: "x1 * x2 + x1 * x3 + x2 * x3 = a - 2 * l * c" using False by simp
    moreover have "x1 * x2 * x3 = c ^ 2 - b" using P e2 unfolding c_def x3_def by algebra
    ultimately show ?thesis using l by (simp add: c_def algebra_simps)
  qed
  then have "on_line a b l c x1 y1 x2 y2 x3 (l * x3 + c)"
    by (simp add: on_line_def c_def x3_def)
  moreover have "aadd a (Affine x1 y1) (Affine x2 y2) = Affine x3 (- (l * x3 + c))"
    using assms(3) by (simp add: Let_def flip: l_def x3_def) (simp add: c_def x3_def algebra_simps)
  ultimately show ?thesis by blast
qed

definition smooth :: "'a::field \<Rightarrow> 'a \<Rightarrow> bool" where
  "smooth a b \<longleftrightarrow> (\<forall>x. x ^ 3 + a * x + b = 0 \<longrightarrow> 3 * x ^ 2 + a \<noteq> 0)"

lemma on_line_aadd:
  fixes a b :: "'a::field"
  assumes L: "on_line a b l c x1 y1 x2 y2 x3 y3" and "smooth a b" and "(2 :: 'a) \<noteq> 0"
  shows "aadd a (Affine x1 y1) (Affine x2 y2) = Affine x3 (- y3)"
proof -
  have eqs: "x3 = l ^ 2 - x1 - x2" "y1 = l * x1 + c" "y2 = l * x2 + c" "y3 = l * x3 + c"
    using L unfolding on_line_def by algebra+
  have "slope a x1 y1 x2 y2 = l \<and> \<not> (x1 = x2 \<and> y1 = - y2)"
  proof (cases "x1 = x2")
    case True
    then have y: "y2 = y1" using eqs by simp
    have t: "2 * y1 * l = 3 * x1 ^ 2 + a" using L on_line_tangent True y by blast
    have "y1 \<noteq> 0"
    proof
      assume "y1 = 0"
      then have "x1 ^ 3 + a * x1 + b = 0" "3 * x1 ^ 2 + a = 0" using on_line_curve [OF L] t by simp_all
      then show False using assms(2) by (simp add: smooth_def)
    qed
    moreover have "y1 \<noteq> - y1"
    proof
      assume "y1 = - y1"
      then have "2 * y1 = 0" by algebra
      then show False using \<open>y1 \<noteq> 0\<close> assms(3) by simp
    qed
    ultimately show ?thesis using True y t assms(3) by (simp add: slope_def field_simps)
  next
    case False
    then show ?thesis by (simp add: slope_def eqs field_simps)
  qed
  then show ?thesis by (simp add: Let_def eqs(1)) (simp add: eqs algebra_simps)
qed

section \<open>Associativity\<close>

text \<open>Two lines of different slopes through a common point \<open>(x2, y2)\<close>: the line through the
  first point of one and the reflected last point of the other ends where the line through
  the other two does.\<close>

lemma on_line_join:
  fixes a b :: "'a::field"
  assumes L: "on_line a b l c x1 y1 x2 y2 x4 y4" and M: "on_line a b m d x2 y2 x3 y3 x5 y5"
    and "l \<noteq> m" and k: "k * (m - l) = m * l - x1 - x2 - x5"
  shows "x4 = x5 + (m - l) * (k - l)" and "x3 = x1 + (m - l) * (m + k)"
    and "2 * y2 = (x1 - x2) * (k - l) - (x5 - x2) * (k + m)"
    and "on_line a b k (y1 - k * x1) x1 y1 x5 (- y5) (k ^ 2 - x1 - x5) (k * (k ^ 2 - x1 - x5) + (y1 - k * x1))"
proof -
  have n: "m - l \<noteq> 0" using assms(3) by simp
  show x4: "x4 = x5 + (m - l) * (k - l)" and x3: "x3 = x1 + (m - l) * (m + k)"
    using L M k unfolding on_line_def by algebra+
  have c: "c = y2 - l * x2" "d = y2 - m * x2" "y1 = y2 + l * (x1 - x2)" "y5 = y2 + m * (x5 - x2)"
    using L M unfolding on_line_def by algebra+
  have a: "x1 * x2 + x1 * x4 + x2 * x4 + 2 * l * c = a" "x2 * x3 + x2 * x5 + x3 * x5 + 2 * m * d = a"
    "c ^ 2 - x1 * x2 * x4 = b"
    using L M unfolding on_line_def by algebra+
  have "(m - l) * (2 * y2 - ((x1 - x2) * (k - l) - (x5 - x2) * (k + m)))
      = (x2 * x3 + x2 * x5 + x3 * x5 + 2 * m * d) - (x1 * x2 + x1 * x4 + x2 * x4 + 2 * l * c)"
    unfolding c x4 x3 by (simp add: algebra_simps)
  also have "\<dots> = 0" unfolding a by simp
  finally have "(m - l) * (2 * y2 - ((x1 - x2) * (k - l) - (x5 - x2) * (k + m))) = 0" .
  then show y2: "2 * y2 = (x1 - x2) * (k - l) - (x5 - x2) * (k + m)" using n by simp
  have "- y5 = k * x5 + (y1 - k * x1)" using y2 unfolding c by algebra
  moreover have "x1 * x5 + x1 * (k ^ 2 - x1 - x5) + x5 * (k ^ 2 - x1 - x5) = a - 2 * k * (y1 - k * x1)"
    using y2 k unfolding c a(1) [symmetric] x4 by algebra
  moreover have "x1 * x5 * (k ^ 2 - x1 - x5) = (y1 - k * x1) ^ 2 - b"
    using y2 k unfolding c a(3) [symmetric] x4 by algebra
  ultimately show "on_line a b k (y1 - k * x1) x1 y1 x5 (- y5) (k ^ 2 - x1 - x5) (k * (k ^ 2 - x1 - x5) + (y1 - k * x1))"
    by (simp add: on_line_def)
qed

lemma on_line_assoc:
  fixes a b :: "'a::field"
  assumes L: "on_line a b l c x1 y1 x2 y2 x4 y4" and M: "on_line a b m d x2 y2 x3 y3 x5 y5" and "l \<noteq> m"
  shows "\<exists>k e k' e' x6 y6. on_line a b k e x1 y1 x5 (- y5) x6 y6 \<and> on_line a b k' e' x4 (- y4) x3 y3 x6 y6"
proof -
  define k where "k = (m * l - x1 - x2 - x5) / (m - l)"
  have k: "k * (m - l) = m * l - x1 - x2 - x5" using assms(3) by (simp add: k_def)
  note J = on_line_join [OF L M assms(3) k]
  define k' where "k' = k + (m - l)"
  have k': "k' * (l - m) = l * m - x3 - x2 - x4" using k unfolding k'_def J(1,2) by algebra
  note J' = on_line_join [OF on_line_swap [OF M] on_line_swap [OF L] not_sym [OF assms(3)] k']
  have x6: "k' ^ 2 - x3 - x4 = k ^ 2 - x1 - x5"
    unfolding k'_def J(1,2) by (simp add: power2_eq_square algebra_simps)
  have "y1 = y2 + l * (x1 - x2)" "y3 = y2 + m * (x3 - x2)" using L M unfolding on_line_def by algebra+
  then have "k' * (k ^ 2 - x1 - x5) + (y3 - k' * x3) = k * (k ^ 2 - x1 - x5) + (y1 - k * x1)"
    using k J(3) unfolding k'_def J(2) by algebra
  then show ?thesis using J(4) on_line_swap [OF J'(4)] unfolding x6 by metis
qed

section \<open>The group\<close>

lemma aadd_comm:
  fixes a b :: "'a::field"
  assumes "on_curve a b p" "on_curve a b q" "smooth a b" "(2 :: 'a) \<noteq> 0"
  shows "aadd a p q = aadd a q p"
proof (cases "p = Infinity \<or> q = Infinity")
  case False
  then obtain x1 y1 x2 y2 where [simp]: "p = Affine x1 y1" "q = Affine x2 y2" by (metis apoint.exhaust)
  show ?thesis
  proof (cases "x1 = x2 \<and> y1 = - y2")
    case False
    obtain l c x3 y3 where L: "on_line a b l c x1 y1 x2 y2 x3 y3" "aadd a p q = Affine x3 (- y3)"
      using on_line_exists [of y1 x1 a b y2 x2] assms False by (auto simp: on_curve_Affine)
    then show ?thesis using on_line_aadd [OF on_line_swap [OF L(1)] assms(3,4)] by simp
  qed simp
qed auto

lemma aadd_cases [consumes 2, case_names Inf_l Inf_r Opp Line]:
  fixes a b :: "'a::field"
  assumes "on_curve a b p" "on_curve a b q"
  obtains "p = Infinity" | "q = Infinity" | "q = aneg p" "aadd a p q = Infinity"
  | l c x1 y1 x2 y2 x3 y3 where "p = Affine x1 y1" "q = Affine x2 y2" "(2 :: 'a) \<noteq> 0 \<Longrightarrow> on_line a b l c x1 y1 x2 y2 x3 y3"
    "(2 :: 'a) \<noteq> 0 \<Longrightarrow> aadd a p q = Affine x3 (- y3)"
proof (cases "p = Infinity \<or> q = Infinity")
  case False
  then obtain x1 y1 x2 y2 where pq: "p = Affine x1 y1" "q = Affine x2 y2" by (metis apoint.exhaust)
  show ?thesis
  proof (cases "x1 = x2 \<and> y1 = - y2")
    case True
    then show ?thesis using that(3) pq by simp
  next
    case False
    then show ?thesis using that(4) [OF pq] on_line_exists [of y1 x1 a b y2 x2] assms pq
      by (metis on_curve_Affine)
  qed
qed (use that in auto)

lemma aadd_closed:
  fixes a b :: "'a::field"
  assumes "on_curve a b p" "on_curve a b q" "(2 :: 'a) \<noteq> 0"
  shows "on_curve a b (aadd a p q)"
  using assms(1,2)
proof (cases rule: aadd_cases)
  case (Line l c x1 y1 x2 y2 x3 y3)
  then have "on_line a b l c x3 y3 x1 y1 x2 y2" using on_line_rotate [OF on_line_rotate] assms(3) by blast
  then show ?thesis using on_line_curve Line(4) assms(3) by (fastforce simp: on_curve_Affine)
qed (use assms in auto)

lemma aadd_cancel:
  fixes a b :: "'a::field"
  assumes "on_curve a b p" "on_curve a b q" "smooth a b" "(2 :: 'a) \<noteq> 0"
  shows "aadd a (aneg p) (aadd a p q) = q"
  using assms(1,2)
proof (cases rule: aadd_cases)
  case Inf_r
  then show ?thesis by (cases p) simp_all
next
  case (Line l c x1 y1 x2 y2 x3 y3)
  from on_line_neg [OF Line(3) [OF assms(4)]] have "on_line a b (- l) (- c) x1 (- y1) x3 (- y3) x2 (- y2)"
    using on_line_rotate on_line_swap by blast
  then show ?thesis using on_line_aadd [OF _ assms(3,4)] Line assms(4) by fastforce
qed auto

lemma aadd_assoc:
  fixes a b :: "'a::field"
  assumes p: "on_curve a b p" and q: "on_curve a b q" and r: "on_curve a b r" and s: "smooth a b" and two: "(2 :: 'a) \<noteq> 0"
  shows "aadd a (aadd a p q) r = aadd a p (aadd a q r)"
  using p q
proof (cases rule: aadd_cases)
  case Opp
  then show ?thesis using aadd_cancel [OF on_curve_aneg [OF p] r s two] by simp
next
  case L: (Line l c x1 y1 x2 y2 x4 y4)
  show ?thesis using q r
  proof (cases rule: aadd_cases)
    case Opp
    have "aadd a (aadd a p q) r = aadd a (aneg q) (aadd a q p)"
      using Opp(1) aadd_comm [OF p q s two] aadd_comm [OF on_curve_aneg [OF q] aadd_closed [OF q p two] s two] by simp
    then show ?thesis using aadd_cancel [OF q p s two] Opp by simp
  next
    case M: (Line m d x2' y2' x3 y3 x5 y5)
    have [simp]: "x2' = x2" "y2' = y2" using L(2) M(1) by auto
    have lines: "on_line a b l c x1 y1 x2 y2 x4 y4" "on_line a b m d x2 y2 x3 y3 x5 y5"
      using L(3) M(3) two by simp_all
    show ?thesis
    proof (cases "l = m")
      case True
      have "c = d" "(x1 - x3) * (x1 - x5) = 0"
        using lines True unfolding on_line_def by algebra+
      moreover have "x1 + x4 = x3 + x5" using lines True unfolding on_line_def by algebra
      ultimately consider "x1 = x3" "x4 = x5" | "x1 = x5" "x4 = x3" by fastforce
      then show ?thesis
      proof cases
        case 1
        then have "p = r" "aadd a p q = aadd a q r" using lines L M two True \<open>c = d\<close> by (auto simp: on_line_def)
        then show ?thesis using aadd_comm [OF aadd_closed [OF p q two] r s two] by simp
      next
        case 2
        then have "aadd a q r = aneg p" "r = aneg (aadd a p q)" using lines L M two True \<open>c = d\<close> by (auto simp: on_line_def)
        then show ?thesis by (metis aadd_aneg)
      qed
    next
      case False
      from on_line_assoc [OF lines False] obtain k e k' e' x6 y6 where
        J: "on_line a b k e x1 y1 x5 (- y5) x6 y6" "on_line a b k' e' x4 (- y4) x3 y3 x6 y6" by blast
      show ?thesis using on_line_aadd [OF J(1) s two] on_line_aadd [OF J(2) s two] L M two by simp
    qed
  qed (use L in auto)
qed auto

text \<open>The points of a smooth curve are a commutative group.\<close>

lemma curve_comm_grp:
  fixes a b :: "'a::field"
  assumes "smooth a b" "(2 :: 'a) \<noteq> 0"
  shows "comm_grp (Collect (on_curve a b)) (aadd a) Infinity aneg"
proof
  fix p q r :: "'a apoint"
  assume p: "p \<in> Collect (on_curve a b)" and q: "q \<in> Collect (on_curve a b)" and r: "r \<in> Collect (on_curve a b)"
  show "aadd a (aadd a p q) r = aadd a p (aadd a q r)" using aadd_assoc assms p q r by blast
next
  fix p :: "'a apoint"
  show "aadd a p (aneg p) = Infinity" by (rule aadd_aneg)
qed (use aadd_closed aadd_comm assms on_curve_aneg in auto)

end
