(* ===== verification/Curve.thy ===== *)
theory Curve
  imports AffineCurve
begin

text \<open>
  The curve class (\<open>depends/ffiasm/c/curve.cpp\<close>, \<open>curve.hpp\<close>). A template over the base
  field: the operations of the field are a record, a point is a record of field elements in
  extended Jacobian coordinates (XYZZ). The operations write through references, so they run
  on a store of points; the result and the operands may be the same object. Affine points are
  never modified while they are read and are passed by value. \<open>F.copy\<close> is an assignment.

  Overloads are told apart by the types of their arguments: \<open>p\<close> for \<open>Point\<close>, \<open>a\<close> for
  \<open>PointAffine\<close>, the destination first.
\<close>

section \<open>The base field and the state\<close>

record 'e base_ops =
  f_add :: "'e \<Rightarrow> 'e \<Rightarrow> 'e"
  f_sub :: "'e \<Rightarrow> 'e \<Rightarrow> 'e"
  f_mul :: "'e \<Rightarrow> 'e \<Rightarrow> 'e"
  f_div :: "'e \<Rightarrow> 'e \<Rightarrow> 'e"
  f_square :: "'e \<Rightarrow> 'e"
  f_neg :: "'e \<Rightarrow> 'e"
  f_isZero :: "'e \<Rightarrow> bool"
  f_eq :: "'e \<Rightarrow> 'e \<Rightarrow> bool"
  f_zero :: 'e
  f_one :: 'e
  f_negOne :: 'e

record 'e point =
  px :: 'e
  py :: 'e
  pzz :: 'e
  pzzz :: 'e

record 'e point_affine =
  ax :: 'e
  ay :: 'e

datatype type_of_a = a_is_zero | a_is_one | a_is_negone | a_is_long

record 'e curve =
  typeOfA :: type_of_a
  fa :: 'e
  fb :: 'e
  fone :: "'e point"
  fzero :: "'e point"
  foneAffine :: "'e point_affine"
  fzeroAffine :: "'e point_affine"

text \<open>Objects that hold points: variables, the local variables of the inline functions, and the
  elements of the two arrays of the multi-scalar multiplication.\<close>

datatype pref = PVar nat | PTmp nat | PBucket nat | PChunk nat

type_synonym 'e pstore = "pref \<Rightarrow> 'e point"

definition set_x :: "pref \<Rightarrow> 'e \<Rightarrow> 'e pstore \<Rightarrow> 'e pstore" where
  "set_x p v s = s(p := (s p)\<lparr>px := v\<rparr>)"

definition set_y :: "pref \<Rightarrow> 'e \<Rightarrow> 'e pstore \<Rightarrow> 'e pstore" where
  "set_y p v s = s(p := (s p)\<lparr>py := v\<rparr>)"

definition set_zz :: "pref \<Rightarrow> 'e \<Rightarrow> 'e pstore \<Rightarrow> 'e pstore" where
  "set_zz p v s = s(p := (s p)\<lparr>pzz := v\<rparr>)"

definition set_zzz :: "pref \<Rightarrow> 'e \<Rightarrow> 'e pstore \<Rightarrow> 'e pstore" where
  "set_zzz p v s = s(p := (s p)\<lparr>pzzz := v\<rparr>)"

lemmas set_defs = set_x_def set_y_def set_zz_def set_zzz_def

section \<open>Construction\<close>

definition initCurve :: "'e base_ops \<Rightarrow> 'e \<Rightarrow> 'e \<Rightarrow> 'e \<Rightarrow> 'e \<Rightarrow> 'e curve" where
  "initCurve F aa ab agx agy =
     \<lparr>typeOfA = (if f_isZero F aa then a_is_zero
                 else if f_eq F aa (f_one F) then a_is_one
                 else if f_eq F aa (f_negOne F) then a_is_negone
                 else a_is_long),
      fa = aa, fb = ab,
      fone = \<lparr>px = agx, py = agy, pzz = f_one F, pzzz = f_one F\<rparr>,
      fzero = \<lparr>px = f_one F, py = f_one F, pzz = f_zero F, pzzz = f_zero F\<rparr>,
      foneAffine = \<lparr>ax = agx, ay = agy\<rparr>,
      fzeroAffine = \<lparr>ax = f_zero F, ay = f_zero F\<rparr>\<rparr>"

definition mulByA :: "'e base_ops \<Rightarrow> 'e curve \<Rightarrow> 'e \<Rightarrow> 'e" where
  "mulByA F C ab =
     (case typeOfA C of
        a_is_zero \<Rightarrow> f_zero F
      | a_is_one \<Rightarrow> ab
      | a_is_negone \<Rightarrow> f_neg F ab
      | a_is_long \<Rightarrow> f_mul F (fa C) ab)"

section \<open>Tests and copies\<close>

definition isZero_p :: "'e base_ops \<Rightarrow> 'e point \<Rightarrow> bool" where
  "isZero_p F p1 = f_isZero F (pzz p1)"

definition isZero_a :: "'e base_ops \<Rightarrow> 'e point_affine \<Rightarrow> bool" where
  "isZero_a F p1 \<longleftrightarrow> f_isZero F (ax p1) \<and> f_isZero F (ay p1)"

definition copy_pp :: "pref \<Rightarrow> pref \<Rightarrow> 'e pstore \<Rightarrow> 'e pstore" where
  "copy_pp r a s =
     (let s = set_x r (px (s a)) s;
          s = set_y r (py (s a)) s;
          s = set_zz r (pzz (s a)) s
      in set_zzz r (pzzz (s a)) s)"

definition copy_pa :: "'e base_ops \<Rightarrow> pref \<Rightarrow> 'e point_affine \<Rightarrow> 'e pstore \<Rightarrow> 'e pstore" where
  "copy_pa F r a s =
     (if isZero_a F a
      then let s = set_x r (f_one F) s;
               s = set_y r (f_one F) s;
               s = set_zz r (f_zero F) s
           in set_zzz r (f_zero F) s
      else let s = set_x r (ax a) s;
               s = set_y r (ay a) s;
               s = set_zz r (f_one F) s
           in set_zzz r (f_one F) s)"

definition copy_ap :: "'e base_ops \<Rightarrow> 'e point \<Rightarrow> 'e point_affine" where
  "copy_ap F a =
     (if isZero_p F a then \<lparr>ax = f_zero F, ay = f_zero F\<rparr>
      else \<lparr>ax = f_div F (px a) (pzz a), ay = f_div F (py a) (pzzz a)\<rparr>)"

definition copy_aa :: "'e point_affine \<Rightarrow> 'e point_affine" where
  "copy_aa a = \<lparr>ax = ax a, ay = ay a\<rparr>"

section \<open>Doubling\<close>

definition dbl_pp :: "'e base_ops \<Rightarrow> 'e curve \<Rightarrow> pref \<Rightarrow> pref \<Rightarrow> 'e pstore \<Rightarrow> 'e pstore" where
  "dbl_pp F C p3 p1 s =
     (if isZero_p F (s p1) then copy_pp p3 p1 s
      else
        let U = f_add F (py (s p1)) (py (s p1));
            V = f_square F U;
            W = f_mul F U V;
            S = f_mul F (px (s p1)) V;
            M = f_square F (px (s p1));
            tmp = f_add F M M;
            M = f_add F M tmp;
            M = (if typeOfA C \<noteq> a_is_zero
                 then let tmp = f_square F (pzz (s p1));
                          tmp = mulByA F C tmp
                      in f_add F M tmp
                 else M);
            s = set_x p3 (f_square F M) s;
            s = set_x p3 (f_sub F (px (s p3)) S) s;
            s = set_x p3 (f_sub F (px (s p3)) S) s;
            tmp = f_mul F W (py (s p1));
            s = set_y p3 (f_sub F S (px (s p3))) s;
            s = set_y p3 (f_mul F M (py (s p3))) s;
            s = set_y p3 (f_sub F (py (s p3)) tmp) s;
            s = set_zz p3 (f_mul F V (pzz (s p1))) s
        in set_zzz p3 (f_mul F W (pzzz (s p1))) s)"

definition dbl_pa :: "'e base_ops \<Rightarrow> 'e curve \<Rightarrow> pref \<Rightarrow> 'e point_affine \<Rightarrow> 'e pstore \<Rightarrow> 'e pstore" where
  "dbl_pa F C p3 p1 s =
     (if isZero_a F p1 then copy_pa F p3 p1 s
      else
        let U = f_add F (ay p1) (ay p1);
            s = set_zz p3 (f_square F U) s;
            s = set_zzz p3 (f_mul F U (pzz (s p3))) s;
            S = f_mul F (ax p1) (pzz (s p3));
            M = f_square F (ax p1);
            tmp = f_add F M M;
            M = f_add F tmp M;
            M = f_add F M (fa C);
            s = set_x p3 (f_square F M) s;
            s = set_x p3 (f_sub F (px (s p3)) S) s;
            s = set_x p3 (f_sub F (px (s p3)) S) s;
            tmp = f_mul F (pzzz (s p3)) (ay p1);
            s = set_y p3 (f_sub F S (px (s p3))) s;
            s = set_y p3 (f_mul F M (py (s p3))) s
        in set_y p3 (f_sub F (py (s p3)) tmp) s)"

section \<open>Addition\<close>

definition add_ppp :: "'e base_ops \<Rightarrow> 'e curve \<Rightarrow> pref \<Rightarrow> pref \<Rightarrow> pref \<Rightarrow> 'e pstore \<Rightarrow> 'e pstore" where
  "add_ppp F C p3 p1 p2 s =
     (if isZero_p F (s p1) then copy_pp p3 p2 s
      else if isZero_p F (s p2) then copy_pp p3 p1 s
      else
        let U1 = f_mul F (px (s p1)) (pzz (s p2));
            U2 = f_mul F (px (s p2)) (pzz (s p1));
            S1 = f_mul F (py (s p1)) (pzzz (s p2));
            S2 = f_mul F (py (s p2)) (pzzz (s p1));
            P = f_sub F U2 U1;
            R = f_sub F S2 S1
        in if f_isZero F P \<and> f_isZero F R then dbl_pp F C p3 p1 s
           else
             let PP = f_square F P;
                 PPP = f_mul F P PP;
                 Q = f_mul F U1 PP;
                 s = set_x p3 (f_square F R) s;
                 s = set_x p3 (f_sub F (px (s p3)) PPP) s;
                 s = set_x p3 (f_sub F (px (s p3)) Q) s;
                 s = set_x p3 (f_sub F (px (s p3)) Q) s;
                 tmp = f_mul F S1 PPP;
                 s = set_y p3 (f_sub F Q (px (s p3))) s;
                 s = set_y p3 (f_mul F (py (s p3)) R) s;
                 s = set_y p3 (f_sub F (py (s p3)) tmp) s;
                 s = set_zz p3 (f_mul F (pzz (s p1)) (pzz (s p2))) s;
                 s = set_zz p3 (f_mul F (pzz (s p3)) PP) s;
                 s = set_zzz p3 (f_mul F (pzzz (s p1)) (pzzz (s p2))) s
             in set_zzz p3 (f_mul F (pzzz (s p3)) PPP) s)"

definition add_ppa :: "'e base_ops \<Rightarrow> 'e curve \<Rightarrow> pref \<Rightarrow> pref \<Rightarrow> 'e point_affine \<Rightarrow> 'e pstore \<Rightarrow> 'e pstore" where
  "add_ppa F C p3 p1 p2 s =
     (if isZero_p F (s p1) then copy_pa F p3 p2 s
      else if isZero_a F p2 then copy_pp p3 p1 s
      else
        let U2 = f_mul F (ax p2) (pzz (s p1));
            S2 = f_mul F (ay p2) (pzzz (s p1));
            P = f_sub F U2 (px (s p1));
            R = f_sub F S2 (py (s p1))
        in if f_isZero F P \<and> f_isZero F R then dbl_pa F C p3 p2 s
           else
             let PP = f_square F P;
                 PPP = f_mul F P PP;
                 Q = f_mul F (px (s p1)) PP;
                 s = set_x p3 (f_square F R) s;
                 s = set_x p3 (f_sub F (px (s p3)) PPP) s;
                 s = set_x p3 (f_sub F (px (s p3)) Q) s;
                 s = set_x p3 (f_sub F (px (s p3)) Q) s;
                 tmp = f_mul F (py (s p1)) PPP;
                 s = set_y p3 (f_sub F Q (px (s p3))) s;
                 s = set_y p3 (f_mul F (py (s p3)) R) s;
                 s = set_y p3 (f_sub F (py (s p3)) tmp) s;
                 s = set_zz p3 (f_mul F (pzz (s p1)) PP) s
             in set_zzz p3 (f_mul F (pzzz (s p1)) PPP) s)"

definition add_paa :: "'e base_ops \<Rightarrow> 'e curve \<Rightarrow> pref \<Rightarrow> 'e point_affine \<Rightarrow> 'e point_affine \<Rightarrow> 'e pstore \<Rightarrow> 'e pstore" where
  "add_paa F C p3 p1 p2 s =
     (if isZero_a F p1 then copy_pa F p3 p2 s
      else if isZero_a F p2 then copy_pa F p3 p1 s
      else
        let P = f_sub F (ax p2) (ax p1);
            R = f_sub F (ay p2) (ay p1)
        in if f_isZero F P \<and> f_isZero F R then dbl_pa F C p3 p2 s
           else
             let PP = f_square F P;
                 PPP = f_mul F P PP;
                 Q = f_mul F (ax p1) PP;
                 s = set_x p3 (f_square F R) s;
                 s = set_x p3 (f_sub F (px (s p3)) PPP) s;
                 s = set_x p3 (f_sub F (px (s p3)) Q) s;
                 s = set_x p3 (f_sub F (px (s p3)) Q) s;
                 tmp = f_mul F (ay p1) PPP;
                 s = set_y p3 (f_sub F Q (px (s p3))) s;
                 s = set_y p3 (f_mul F (py (s p3)) R) s;
                 s = set_y p3 (f_sub F (py (s p3)) tmp) s;
                 s = set_zz p3 PP s
             in set_zzz p3 PPP s)"

text \<open>The overloads that \<open>curve.hpp\<close> defines in terms of these. A local \<open>Point tmp\<close> is an object
  of its own; it does not outlive the call.\<close>

definition scoped :: "pref \<Rightarrow> 'e pstore \<Rightarrow> 'e pstore \<Rightarrow> 'e pstore" where
  "scoped tmp outer s = s(tmp := outer tmp)"

definition add_pap :: "'e base_ops \<Rightarrow> 'e curve \<Rightarrow> pref \<Rightarrow> 'e point_affine \<Rightarrow> pref \<Rightarrow> 'e pstore \<Rightarrow> 'e pstore" where
  "add_pap F C p3 p1 p2 s = add_ppa F C p3 p2 p1 s"

definition add_app :: "'e base_ops \<Rightarrow> 'e curve \<Rightarrow> pref \<Rightarrow> pref \<Rightarrow> 'e pstore \<Rightarrow> 'e point_affine" where
  "add_app F C p1 p2 s = copy_ap F (add_ppp F C (PTmp 1) p1 p2 s (PTmp 1))"

definition add_apa :: "'e base_ops \<Rightarrow> 'e curve \<Rightarrow> pref \<Rightarrow> 'e point_affine \<Rightarrow> 'e pstore \<Rightarrow> 'e point_affine" where
  "add_apa F C p1 p2 s = copy_ap F (add_ppa F C (PTmp 1) p1 p2 s (PTmp 1))"

definition add_aaa :: "'e base_ops \<Rightarrow> 'e curve \<Rightarrow> 'e point_affine \<Rightarrow> 'e point_affine \<Rightarrow> 'e pstore \<Rightarrow> 'e point_affine" where
  "add_aaa F C p1 p2 s = copy_ap F (add_paa F C (PTmp 1) p1 p2 s (PTmp 1))"

definition add_aap :: "'e base_ops \<Rightarrow> 'e curve \<Rightarrow> 'e point_affine \<Rightarrow> pref \<Rightarrow> 'e pstore \<Rightarrow> 'e point_affine" where
  "add_aap F C p1 p2 s = copy_ap F (add_pap F C (PTmp 1) p1 p2 s (PTmp 1))"

definition dbl_ap :: "'e base_ops \<Rightarrow> 'e curve \<Rightarrow> pref \<Rightarrow> 'e pstore \<Rightarrow> 'e point_affine" where
  "dbl_ap F C a s = copy_ap F (dbl_pp F C (PTmp 1) a s (PTmp 1))"

definition dbl_aa :: "'e base_ops \<Rightarrow> 'e curve \<Rightarrow> 'e point_affine \<Rightarrow> 'e pstore \<Rightarrow> 'e point_affine" where
  "dbl_aa F C a s = copy_ap F (dbl_pa F C (PTmp 1) a s (PTmp 1))"

section \<open>Negation and subtraction\<close>

definition neg_pp :: "'e base_ops \<Rightarrow> pref \<Rightarrow> pref \<Rightarrow> 'e pstore \<Rightarrow> 'e pstore" where
  "neg_pp F r a s =
     (let s = set_x r (px (s a)) s;
          s = set_y r (f_neg F (py (s a))) s;
          s = set_zz r (pzz (s a)) s
      in set_zzz r (pzzz (s a)) s)"

definition neg_pa :: "'e base_ops \<Rightarrow> pref \<Rightarrow> 'e point_affine \<Rightarrow> 'e pstore \<Rightarrow> 'e pstore" where
  "neg_pa F r a s =
     (let s = set_x r (ax a) s;
          s = set_y r (f_neg F (ay a)) s;
          s = set_zz r (f_one F) s
      in set_zzz r (f_one F) s)"

definition neg_ap :: "'e base_ops \<Rightarrow> 'e point \<Rightarrow> 'e point_affine" where
  "neg_ap F a =
     (if isZero_p F a then \<lparr>ax = f_zero F, ay = f_zero F\<rparr>
      else let rx = f_div F (px a) (pzz a);
               ry = f_div F (py a) (pzzz a)
           in \<lparr>ax = rx, ay = f_neg F ry\<rparr>)"

definition neg_aa :: "'e base_ops \<Rightarrow> 'e point_affine \<Rightarrow> 'e point_affine" where
  "neg_aa F a = \<lparr>ax = ax a, ay = f_neg F (ay a)\<rparr>"

definition sub_ppp :: "'e base_ops \<Rightarrow> 'e curve \<Rightarrow> pref \<Rightarrow> pref \<Rightarrow> pref \<Rightarrow> 'e pstore \<Rightarrow> 'e pstore" where
  "sub_ppp F C p3 p1 p2 s = scoped (PTmp 0) s (add_ppp F C p3 p1 (PTmp 0) (neg_pp F (PTmp 0) p2 s))"

definition sub_ppa :: "'e base_ops \<Rightarrow> 'e curve \<Rightarrow> pref \<Rightarrow> pref \<Rightarrow> 'e point_affine \<Rightarrow> 'e pstore \<Rightarrow> 'e pstore" where
  "sub_ppa F C p3 p1 p2 s = add_ppa F C p3 p1 (neg_aa F p2) s"

definition sub_paa :: "'e base_ops \<Rightarrow> 'e curve \<Rightarrow> pref \<Rightarrow> 'e point_affine \<Rightarrow> 'e point_affine \<Rightarrow> 'e pstore \<Rightarrow> 'e pstore" where
  "sub_paa F C p3 p1 p2 s = add_paa F C p3 p1 (neg_aa F p2) s"

definition sub_pap :: "'e base_ops \<Rightarrow> 'e curve \<Rightarrow> pref \<Rightarrow> 'e point_affine \<Rightarrow> pref \<Rightarrow> 'e pstore \<Rightarrow> 'e pstore" where
  "sub_pap F C p3 p1 p2 s = scoped (PTmp 0) s (add_pap F C p3 p1 (PTmp 0) (neg_pp F (PTmp 0) p2 s))"

definition sub_app :: "'e base_ops \<Rightarrow> 'e curve \<Rightarrow> pref \<Rightarrow> pref \<Rightarrow> 'e pstore \<Rightarrow> 'e point_affine" where
  "sub_app F C p1 p2 s = add_app F C p1 (PTmp 0) (neg_pp F (PTmp 0) p2 s)"

definition sub_apa :: "'e base_ops \<Rightarrow> 'e curve \<Rightarrow> pref \<Rightarrow> 'e point_affine \<Rightarrow> 'e pstore \<Rightarrow> 'e point_affine" where
  "sub_apa F C p1 p2 s = add_apa F C p1 (neg_aa F p2) s"

definition sub_aaa :: "'e base_ops \<Rightarrow> 'e curve \<Rightarrow> 'e point_affine \<Rightarrow> 'e point_affine \<Rightarrow> 'e pstore \<Rightarrow> 'e point_affine" where
  "sub_aaa F C p1 p2 s = add_aaa F C p1 (neg_aa F p2) s"

definition sub_aap :: "'e base_ops \<Rightarrow> 'e curve \<Rightarrow> 'e point_affine \<Rightarrow> pref \<Rightarrow> 'e pstore \<Rightarrow> 'e point_affine" where
  "sub_aap F C p1 p2 s = add_aap F C p1 (PTmp 0) (neg_pp F (PTmp 0) p2 s)"

section \<open>Equality\<close>

definition eq_pp :: "'e base_ops \<Rightarrow> 'e point \<Rightarrow> 'e point \<Rightarrow> bool" where
  "eq_pp F p1 p2 =
     (if isZero_p F p1 then isZero_p F p2
      else
        let U1 = f_mul F (px p1) (pzz p2);
            U2 = f_mul F (px p2) (pzz p1);
            S1 = f_mul F (py p1) (pzzz p2);
            S2 = f_mul F (py p2) (pzzz p1);
            P = f_sub F U2 U1;
            R = f_sub F S2 S1
        in f_isZero F P \<and> f_isZero F R)"

definition eq_pa :: "'e base_ops \<Rightarrow> 'e point \<Rightarrow> 'e point_affine \<Rightarrow> bool" where
  "eq_pa F p1 p2 =
     (if isZero_p F p1 then isZero_a F p2
      else
        let U2 = f_mul F (ax p2) (pzz p1);
            S2 = f_mul F (ay p2) (pzzz p1);
            P = f_sub F U2 (px p1);
            R = f_sub F S2 (py p1)
        in f_isZero F P \<and> f_isZero F R)"

definition eq_aa :: "'e base_ops \<Rightarrow> 'e point_affine \<Rightarrow> 'e point_affine \<Rightarrow> bool" where
  "eq_aa F p1 p2 \<longleftrightarrow> f_eq F (ax p1) (ax p2) \<and> f_eq F (ay p1) (ay p2)"

definition eq_ap :: "'e base_ops \<Rightarrow> 'e point_affine \<Rightarrow> 'e point \<Rightarrow> bool" where
  "eq_ap F p1 p2 = eq_pa F p2 p1"

section \<open>Reference formulas\<close>

text \<open>The formulas that the comments of the source name (add-2008-s, madd-2008-s, dbl-2008-s and
  their affine variants), on values. The lemmas below say that the functions on the store
  compute them, whichever of their arguments are the same object.\<close>

definition xyzz_of_affine :: "'e base_ops \<Rightarrow> 'e point_affine \<Rightarrow> 'e point" where
  "xyzz_of_affine F a =
     (if isZero_a F a then \<lparr>px = f_one F, py = f_one F, pzz = f_zero F, pzzz = f_zero F\<rparr>
      else \<lparr>px = ax a, py = ay a, pzz = f_one F, pzzz = f_one F\<rparr>)"

definition xyzz_tangent :: "'e base_ops \<Rightarrow> 'e \<Rightarrow> 'e \<Rightarrow> 'e \<Rightarrow> 'e \<Rightarrow> 'e \<Rightarrow> 'e \<Rightarrow> 'e point" where
  "xyzz_tangent F M S W Y1 ZZ3 ZZZ3 =
     (let X3 = f_sub F (f_sub F (f_square F M) S) S
      in \<lparr>px = X3, py = f_sub F (f_mul F M (f_sub F S X3)) (f_mul F W Y1), pzz = ZZ3, pzzz = ZZZ3\<rparr>)"

definition xyzz_dbl :: "'e base_ops \<Rightarrow> 'e curve \<Rightarrow> 'e point \<Rightarrow> 'e point" where
  "xyzz_dbl F C p =
     (if isZero_p F p then p
      else
        let U = f_add F (py p) (py p);
            V = f_square F U;
            W = f_mul F U V;
            XX = f_square F (px p);
            M = f_add F XX (f_add F XX XX);
            M = (if typeOfA C \<noteq> a_is_zero then f_add F M (mulByA F C (f_square F (pzz p))) else M)
        in xyzz_tangent F M (f_mul F (px p) V) W (py p) (f_mul F V (pzz p)) (f_mul F W (pzzz p)))"

definition xyzz_dbl_affine :: "'e base_ops \<Rightarrow> 'e curve \<Rightarrow> 'e point_affine \<Rightarrow> 'e point" where
  "xyzz_dbl_affine F C p =
     (if isZero_a F p then xyzz_of_affine F p
      else
        let U = f_add F (ay p) (ay p);
            V = f_square F U;
            W = f_mul F U V;
            XX = f_square F (ax p);
            M = f_add F (f_add F (f_add F XX XX) XX) (fa C)
        in xyzz_tangent F M (f_mul F (ax p) V) W (ay p) V W)"

definition xyzz_chord :: "'e base_ops \<Rightarrow> 'e \<Rightarrow> 'e \<Rightarrow> 'e \<Rightarrow> 'e \<Rightarrow> 'e \<Rightarrow> 'e \<Rightarrow> 'e point" where
  "xyzz_chord F P R U1 S1 ZZ ZZZ =
     (let PP = f_square F P;
          PPP = f_mul F P PP;
          Q = f_mul F U1 PP;
          X3 = f_sub F (f_sub F (f_sub F (f_square F R) PPP) Q) Q
      in \<lparr>px = X3, py = f_sub F (f_mul F (f_sub F Q X3) R) (f_mul F S1 PPP),
          pzz = f_mul F ZZ PP, pzzz = f_mul F ZZZ PPP\<rparr>)"

definition xyzz_add :: "'e base_ops \<Rightarrow> 'e curve \<Rightarrow> 'e point \<Rightarrow> 'e point \<Rightarrow> 'e point" where
  "xyzz_add F C p1 p2 =
     (if isZero_p F p1 then p2
      else if isZero_p F p2 then p1
      else
        let U1 = f_mul F (px p1) (pzz p2);
            S1 = f_mul F (py p1) (pzzz p2);
            P = f_sub F (f_mul F (px p2) (pzz p1)) U1;
            R = f_sub F (f_mul F (py p2) (pzzz p1)) S1
        in if f_isZero F P \<and> f_isZero F R then xyzz_dbl F C p1
           else xyzz_chord F P R U1 S1 (f_mul F (pzz p1) (pzz p2)) (f_mul F (pzzz p1) (pzzz p2)))"

definition xyzz_add_mixed :: "'e base_ops \<Rightarrow> 'e curve \<Rightarrow> 'e point \<Rightarrow> 'e point_affine \<Rightarrow> 'e point" where
  "xyzz_add_mixed F C p1 p2 =
     (if isZero_p F p1 then xyzz_of_affine F p2
      else if isZero_a F p2 then p1
      else
        let P = f_sub F (f_mul F (ax p2) (pzz p1)) (px p1);
            R = f_sub F (f_mul F (ay p2) (pzzz p1)) (py p1)
        in if f_isZero F P \<and> f_isZero F R then xyzz_dbl_affine F C p2
           else xyzz_chord F P R (px p1) (py p1) (pzz p1) (pzzz p1))"

definition xyzz_add_affine :: "'e base_ops \<Rightarrow> 'e curve \<Rightarrow> 'e point_affine \<Rightarrow> 'e point_affine \<Rightarrow> 'e point" where
  "xyzz_add_affine F C p1 p2 =
     (if isZero_a F p1 then xyzz_of_affine F p2
      else if isZero_a F p2 then xyzz_of_affine F p1
      else
        let P = f_sub F (ax p2) (ax p1);
            R = f_sub F (ay p2) (ay p1);
            PP = f_square F P
        in if f_isZero F P \<and> f_isZero F R then xyzz_dbl_affine F C p2
           else (xyzz_chord F P R (ax p1) (ay p1) PP PP)\<lparr>pzz := PP, pzzz := f_mul F P PP\<rparr>)"

section \<open>The operations compute the formulas\<close>

lemma point_full [simp]:
  "(p :: 'e point)\<lparr>px := a, py := b, pzz := c, pzzz := d\<rparr> = \<lparr>px = a, py = b, pzz = c, pzzz = d\<rparr>"
  "(p :: 'e point)\<lparr>pzz := c, pzzz := d, px := a, py := b\<rparr> = \<lparr>px = a, py = b, pzz = c, pzzz = d\<rparr>"
  "\<lparr>px = px p, py = py p, pzz = pzz p, pzzz = pzzz p\<rparr> = p"
  by (cases p; simp)+

lemma copy_pp_store [simp]: "copy_pp r a s = s(r := s a)"
  by (cases "r = a") (simp_all add: copy_pp_def Let_def set_defs)

lemma copy_pa_store [simp]: "copy_pa F r a s = s(r := xyzz_of_affine F a)"
  by (simp add: copy_pa_def Let_def set_defs xyzz_of_affine_def)

lemma dbl_pp_store: "dbl_pp F C p3 p1 s = s(p3 := xyzz_dbl F C (s p1))"
  by (cases "p3 = p1") (simp_all add: dbl_pp_def xyzz_dbl_def xyzz_tangent_def Let_def set_defs)

lemma dbl_pa_store: "dbl_pa F C p3 p1 s = s(p3 := xyzz_dbl_affine F C p1)"
  by (simp add: dbl_pa_def xyzz_dbl_affine_def xyzz_tangent_def Let_def set_defs)

lemma add_ppp_store: "add_ppp F C p3 p1 p2 s = s(p3 := xyzz_add F C (s p1) (s p2))"
  by (cases "p3 = p1"; cases "p3 = p2")
    (simp_all add: add_ppp_def xyzz_add_def xyzz_chord_def Let_def set_defs dbl_pp_store)

lemma add_ppa_store: "add_ppa F C p3 p1 p2 s = s(p3 := xyzz_add_mixed F C (s p1) p2)"
  by (cases "p3 = p1")
    (simp_all add: add_ppa_def xyzz_add_mixed_def xyzz_chord_def Let_def set_defs dbl_pa_store)

lemma add_paa_store: "add_paa F C p3 p1 p2 s = s(p3 := xyzz_add_affine F C p1 p2)"
  by (simp add: add_paa_def xyzz_add_affine_def xyzz_chord_def Let_def set_defs dbl_pa_store)

lemma neg_pp_store: "neg_pp F r a s = s(r := (s a)\<lparr>py := f_neg F (py (s a))\<rparr>)"
  by (cases "s a"; cases "r = a") (simp_all add: neg_pp_def Let_def set_defs)

lemma neg_pa_store: "neg_pa F r a s = s(r := \<lparr>px = ax a, py = f_neg F (ay a), pzz = f_one F, pzzz = f_one F\<rparr>)"
  by (simp add: neg_pa_def Let_def set_defs)

lemma sub_ppp_store:
  "p3 \<noteq> PTmp 0 \<Longrightarrow> p1 \<noteq> PTmp 0 \<Longrightarrow>
    sub_ppp F C p3 p1 p2 s = s(p3 := xyzz_add F C (s p1) ((s p2)\<lparr>py := f_neg F (py (s p2))\<rparr>))"
  by (auto simp: sub_ppp_def scoped_def add_ppp_store neg_pp_store)

lemma sub_ppa_store: "sub_ppa F C p3 p1 p2 s = s(p3 := xyzz_add_mixed F C (s p1) (neg_aa F p2))"
  by (simp add: sub_ppa_def add_ppa_store)

lemmas store_simps = dbl_pp_store dbl_pa_store add_ppp_store add_ppa_store add_paa_store neg_pp_store neg_pa_store
  sub_ppp_store sub_ppa_store

end
