(* ===== verification/CurveCorrect.thy ===== *)
theory CurveCorrect
  imports Curve
begin

text \<open>
  Correctness of the curve operations: in extended Jacobian coordinates \<open>(X, Y, ZZ, ZZZ)\<close> with
  \<open>ZZ\<^sup>3 = ZZZ\<^sup>2\<close> the formulas of the code compute the sum, the double and the opposite of
  the affine points \<open>(X/ZZ, Y/ZZZ)\<close>, in every case (equal points, opposite points, points at
  infinity, points of order two), and keep the invariant of the representation.
\<close>

section \<open>The representation\<close>

definition xyzz_ok :: "'a::field \<Rightarrow> 'a \<Rightarrow> 'a \<Rightarrow> 'a \<Rightarrow> 'a \<Rightarrow> 'a \<Rightarrow> bool" where
  "xyzz_ok a b X Y ZZ ZZZ \<longleftrightarrow> ZZ ^ 3 = ZZZ ^ 2 \<and> Y ^ 2 = X ^ 3 + a * X * ZZ ^ 2 + b * ZZ ^ 3 \<and> (ZZ = 0 \<longrightarrow> X \<noteq> 0)"

definition xyzz_val :: "'a::field \<Rightarrow> 'a \<Rightarrow> 'a \<Rightarrow> 'a \<Rightarrow> 'a apoint" where
  "xyzz_val X Y ZZ ZZZ = (if ZZ = 0 then Infinity else Affine (X / ZZ) (Y / ZZZ))"

lemma xyzz_okI:
  assumes "t \<noteq> 0" and "on_curve a b (Affine x y)"
  shows "xyzz_ok a b (x * t ^ 2) (y * t ^ 3) (t ^ 2) (t ^ 3)" and "xyzz_val (x * t ^ 2) (y * t ^ 3) (t ^ 2) (t ^ 3) = Affine x y"
proof -
  have c: "y ^ 2 = x ^ 3 + a * x + b" using assms(2) by (simp add: on_curve_Affine)
  have "(t ^ 2) ^ 3 = (t ^ 3) ^ 2" by (simp flip: power_mult)
  moreover have "(y * t ^ 3) ^ 2 = (x * t ^ 2) ^ 3 + a * (x * t ^ 2) * (t ^ 2) ^ 2 + b * (t ^ 2) ^ 3"
    using c by algebra
  ultimately show "xyzz_ok a b (x * t ^ 2) (y * t ^ 3) (t ^ 2) (t ^ 3)" using assms(1) by (simp add: xyzz_ok_def)
  show "xyzz_val (x * t ^ 2) (y * t ^ 3) (t ^ 2) (t ^ 3) = Affine x y" using assms(1) by (simp add: xyzz_val_def)
qed

lemma xyzz_okE:
  assumes "xyzz_ok a b X Y ZZ ZZZ"
  obtains "ZZ = 0" "ZZZ = 0" "X \<noteq> 0" "xyzz_val X Y ZZ ZZZ = Infinity"
  | t x y where "t \<noteq> 0" "ZZ = t ^ 2" "ZZZ = t ^ 3" "X = x * t ^ 2" "Y = y * t ^ 3" "on_curve a b (Affine x y)"
    "xyzz_val X Y ZZ ZZZ = Affine x y"
proof (cases "ZZ = 0")
  case True
  then show ?thesis using that(1) assms by (simp add: xyzz_ok_def xyzz_val_def)
next
  case False
  have eqs: "ZZ ^ 3 = ZZZ ^ 2" "Y ^ 2 = X ^ 3 + a * X * ZZ ^ 2 + b * ZZ ^ 3" using assms by (simp_all add: xyzz_ok_def)
  define t where "t = ZZZ / ZZ"
  have n: "ZZZ \<noteq> 0" using eqs(1) False by auto
  have tz: "t * ZZ = ZZZ" using False by (simp add: t_def)
  have "(t ^ 2 - ZZ) * ZZ ^ 2 = 0" using eqs(1) tz by algebra
  then have t2: "t ^ 2 = ZZ" using False by simp
  have t3: "t ^ 3 = ZZZ" using tz by (simp add: power3_eq_cube mult.commute flip: t2 power2_eq_square)
  have t: "t \<noteq> 0" using n False by (simp add: t_def)
  have "(Y / ZZZ) ^ 2 = (X / ZZ) ^ 3 + a * (X / ZZ) + b"
  proof -
    have "(Y / ZZZ) ^ 2 = Y ^ 2 / ZZ ^ 3" using eqs(1) by (simp add: power_divide)
    also have "\<dots> = (X / ZZ) ^ 3 + a * (X / ZZ) + b"
      unfolding eqs(2) using False by (simp add: field_simps power3_eq_cube power2_eq_square)
    finally show ?thesis .
  qed
  then have "on_curve a b (Affine (X / ZZ) (Y / ZZZ))" by (simp add: on_curve_Affine)
  then show ?thesis using that(2) [of t "X / ZZ" "Y / ZZZ"] t t2 t3 False n by (simp add: xyzz_val_def)
qed

lemma xyzz_val_on_curve: "xyzz_ok a b X Y ZZ ZZZ \<Longrightarrow> on_curve a b (xyzz_val X Y ZZ ZZZ)"
  by (erule xyzz_okE) simp_all

section \<open>The formulas\<close>

lemma xyzz_chord_math:
  fixes a b :: "'a::field"
  assumes T: "T \<noteq> 0" and P: "P = (x2 - x1) * T ^ 2" and R: "R = (y2 - y1) * T ^ 3" and n: "\<not> (P = 0 \<and> R = 0)"
    and c: "on_curve a b (Affine x1 y1)" "on_curve a b (Affine x2 y2)" and two: "(2 :: 'a) \<noteq> 0"
    and X3: "X3 = R ^ 2 - P ^ 3 - 2 * (x1 * T ^ 2 * P ^ 2)" and Y3: "Y3 = R * (x1 * T ^ 2 * P ^ 2 - X3) - y1 * T ^ 3 * P ^ 3"
    and ZZ: "ZZ3 = T ^ 2 * P ^ 2" "ZZZ3 = T ^ 3 * P ^ 3"
  shows "xyzz_ok a b X3 Y3 ZZ3 ZZZ3 \<and> xyzz_val X3 Y3 ZZ3 ZZZ3 = aadd a (Affine x1 y1) (Affine x2 y2)"
proof (cases "x1 = x2")
  case True
  have "(y1 - y2) * (y1 + y2) = 0"
    using c True by (simp add: on_curve_Affine algebra_simps power2_eq_square)
  moreover have "P = 0" "R \<noteq> 0" using P n True by simp_all
  ultimately have "y1 = - y2" using R by (auto simp: add_eq_0_iff2)
  moreover have "X3 = R ^ 2" "Y3 = - (R ^ 3)" "ZZ3 = 0" "ZZZ3 = 0"
    using \<open>P = 0\<close> by (simp_all add: X3 Y3 ZZ power3_eq_cube power2_eq_square)
  ultimately show ?thesis using True \<open>R \<noteq> 0\<close> by (simp add: xyzz_ok_def xyzz_val_def flip: power_mult)
next
  case False
  define l where "l = (y2 - y1) / (x2 - x1)"
  have l: "y2 - y1 = l * (x2 - x1)" using False by (simp add: l_def)
  define x3 where "x3 = l ^ 2 - x1 - x2"
  define y3 where "y3 = - y1 - l * (x3 - x1)"
  have s: "aadd a (Affine x1 y1) (Affine x2 y2) = Affine x3 y3"
    using False by (simp add: Let_def slope_def x3_def y3_def l_def)
  then have c3: "on_curve a b (Affine x3 y3)" using aadd_closed [OF c two] by simp
  have t: "T * P \<noteq> 0" using T False by (simp add: P)
  have "X3 = x3 * (T * P) ^ 2" "Y3 = y3 * (T * P) ^ 3"
    unfolding Y3 X3 y3_def x3_def P R l by algebra+
  then show ?thesis using xyzz_okI [OF t c3] s by (simp add: ZZ power_mult_distrib)
qed

lemma xyzz_tangent_math:
  fixes a b :: "'a::field"
  assumes T: "T \<noteq> 0" and c: "on_curve a b (Affine x y)" and two: "(2 :: 'a) \<noteq> 0" and sm: "smooth a b"
    and U: "U = 2 * (y * T ^ 3)" and M: "M = 3 * (x * T ^ 2) ^ 2 + a * (T ^ 2) ^ 2"
    and X3: "X3 = M ^ 2 - 2 * (x * T ^ 2 * U ^ 2)" and Y3: "Y3 = M * (x * T ^ 2 * U ^ 2 - X3) - U ^ 3 * (y * T ^ 3)"
    and ZZ: "ZZ3 = U ^ 2 * T ^ 2" "ZZZ3 = U ^ 3 * T ^ 3"
  shows "xyzz_ok a b X3 Y3 ZZ3 ZZZ3 \<and> xyzz_val X3 Y3 ZZ3 ZZZ3 = aadd a (Affine x y) (Affine x y)"
proof (cases "y = 0")
  case True
  then have "3 * x ^ 2 + a \<noteq> 0" using c sm by (simp add: on_curve_Affine smooth_def)
  moreover have "M = (3 * x ^ 2 + a) * T ^ 4" unfolding M by algebra
  ultimately have "M \<noteq> 0" using T by simp
  moreover have "X3 = M ^ 2" "Y3 = - (M ^ 3)" "ZZ3 = 0" "ZZZ3 = 0"
    using True by (simp_all add: X3 Y3 ZZ U power3_eq_cube power2_eq_square)
  ultimately show ?thesis using True by (simp add: xyzz_ok_def xyzz_val_def flip: power_mult)
next
  case False
  have "y \<noteq> - y"
  proof
    assume "y = - y"
    then have "2 * y = 0" by algebra
    then show False using False two by simp
  qed
  define l where "l = (3 * x ^ 2 + a) / (2 * y)"
  have l: "3 * x ^ 2 + a = l * (2 * y)" using False two by (simp add: l_def)
  define x3 where "x3 = l ^ 2 - x - x"
  define y3 where "y3 = - y - l * (x3 - x)"
  have s: "aadd a (Affine x y) (Affine x y) = Affine x3 y3"
    using \<open>y \<noteq> - y\<close> by (simp add: Let_def slope_def x3_def y3_def l_def)
  then have c3: "on_curve a b (Affine x3 y3)" using aadd_closed [OF c c two] by simp
  have t: "U * T \<noteq> 0" using T False two by (simp add: U)
  have M': "M = l * (2 * y) * T ^ 4" unfolding M l [symmetric] by algebra
  have "X3 = x3 * (U * T) ^ 2" "Y3 = y3 * (U * T) ^ 3"
    unfolding Y3 X3 y3_def x3_def M' U by algebra+
  then show ?thesis using xyzz_okI [OF t c3] s by (simp add: ZZ power_mult_distrib)
qed

section \<open>Base fields\<close>

text \<open>What the curve code asks of its base field: elements that satisfy an invariant denote the
  elements of a field, and the operations compute there.\<close>

locale base_field =
  fixes F :: "'e base_ops" and good :: "'e \<Rightarrow> bool" and ev :: "'e \<Rightarrow> 'a::field"
  assumes add_law: "good x \<Longrightarrow> good y \<Longrightarrow> good (f_add F x y) \<and> ev (f_add F x y) = ev x + ev y"
    and sub_law: "good x \<Longrightarrow> good y \<Longrightarrow> good (f_sub F x y) \<and> ev (f_sub F x y) = ev x - ev y"
    and mul_law: "good x \<Longrightarrow> good y \<Longrightarrow> good (f_mul F x y) \<and> ev (f_mul F x y) = ev x * ev y"
    and div_law: "good x \<Longrightarrow> good y \<Longrightarrow> ev y \<noteq> 0 \<Longrightarrow> good (f_div F x y) \<and> ev (f_div F x y) = ev x / ev y"
    and square_law: "good x \<Longrightarrow> good (f_square F x) \<and> ev (f_square F x) = ev x ^ 2"
    and neg_law: "good x \<Longrightarrow> good (f_neg F x) \<and> ev (f_neg F x) = - ev x"
    and isZero_law: "good x \<Longrightarrow> f_isZero F x \<longleftrightarrow> ev x = 0"
    and eq_law: "good x \<Longrightarrow> good y \<Longrightarrow> f_eq F x y \<longleftrightarrow> ev x = ev y"
    and const_law: "good (f_zero F)" "ev (f_zero F) = 0" "good (f_one F)" "ev (f_one F) = 1"
      "good (f_negOne F)" "ev (f_negOne F) = - 1"
begin

lemmas laws = add_law sub_law mul_law div_law square_law neg_law isZero_law eq_law const_law

end

section \<open>Points of the code and the points they stand for\<close>

definition point_ok :: "('e \<Rightarrow> bool) \<Rightarrow> ('e \<Rightarrow> 'a::field) \<Rightarrow> 'a \<Rightarrow> 'a \<Rightarrow> 'e point \<Rightarrow> bool" where
  "point_ok good ev a b p \<longleftrightarrow> good (px p) \<and> good (py p) \<and> good (pzz p) \<and> good (pzzz p)
     \<and> xyzz_ok a b (ev (px p)) (ev (py p)) (ev (pzz p)) (ev (pzzz p))"

definition point_val :: "('e \<Rightarrow> 'a::field) \<Rightarrow> 'e point \<Rightarrow> 'a apoint" where
  "point_val ev p = xyzz_val (ev (px p)) (ev (py p)) (ev (pzz p)) (ev (pzzz p))"

definition affine_val :: "('e \<Rightarrow> 'a::field) \<Rightarrow> 'e point_affine \<Rightarrow> 'a apoint" where
  "affine_val ev p = (if ev (ax p) = 0 \<and> ev (ay p) = 0 then Infinity else Affine (ev (ax p)) (ev (ay p)))"

definition affine_ok :: "('e \<Rightarrow> bool) \<Rightarrow> ('e \<Rightarrow> 'a::field) \<Rightarrow> 'a \<Rightarrow> 'a \<Rightarrow> 'e point_affine \<Rightarrow> bool" where
  "affine_ok good ev a b p \<longleftrightarrow> good (ax p) \<and> good (ay p) \<and> on_curve a b (affine_val ev p)"

text \<open>A point that satisfies the invariant and stands for a given point of the curve.\<close>

definition rep_p :: "('e \<Rightarrow> bool) \<Rightarrow> ('e \<Rightarrow> 'a::field) \<Rightarrow> 'a \<Rightarrow> 'a \<Rightarrow> 'e point \<Rightarrow> 'a apoint \<Rightarrow> bool" where
  "rep_p good ev a b p v \<longleftrightarrow> point_ok good ev a b p \<and> point_val ev p = v"

definition rep_a :: "('e \<Rightarrow> bool) \<Rightarrow> ('e \<Rightarrow> 'a::field) \<Rightarrow> 'a \<Rightarrow> 'a \<Rightarrow> 'e point_affine \<Rightarrow> 'a apoint \<Rightarrow> bool" where
  "rep_a good ev a b p v \<longleftrightarrow> affine_ok good ev a b p \<and> affine_val ev p = v"

lemma rep_p_on_curve: "rep_p good ev a b p v \<Longrightarrow> on_curve a b v"
  by (auto simp: rep_p_def point_ok_def point_val_def xyzz_val_on_curve)

lemma rep_a_on_curve: "rep_a good ev a b p v \<Longrightarrow> on_curve a b v"
  by (auto simp: rep_a_def affine_ok_def)

locale curve_field = base_field F good ev
  for F :: "'e base_ops" and good :: "'e \<Rightarrow> bool" and ev :: "'e \<Rightarrow> 'a::field" +
  fixes aa ab :: 'e and gx gy :: 'e
  assumes good_ab: "good aa" "good ab" and two: "(2 :: 'a) \<noteq> 0"
    and curve_smooth: "smooth (ev aa) (ev ab)" and b_nonzero: "ev ab \<noteq> 0"
begin

abbreviation C :: "'e curve" where "C \<equiv> initCurve F aa ab gx gy"
abbreviation rp :: "'e point \<Rightarrow> 'a apoint \<Rightarrow> bool" where "rp \<equiv> rep_p good ev (ev aa) (ev ab)"
abbreviation ra :: "'e point_affine \<Rightarrow> 'a apoint \<Rightarrow> bool" where "ra \<equiv> rep_a good ev (ev aa) (ev ab)"

lemma rep_p_cases:
  assumes "rp p v"
  obtains "good (px p)" "good (py p)" "good (pzz p)" "good (pzzz p)" "ev (pzz p) = 0" "ev (pzzz p) = 0" "ev (px p) \<noteq> 0" "v = Infinity"
  | t x y where "good (px p)" "good (py p)" "good (pzz p)" "good (pzzz p)" "t \<noteq> 0" "ev (pzz p) = t ^ 2" "ev (pzzz p) = t ^ 3"
    "ev (px p) = x * t ^ 2" "ev (py p) = y * t ^ 3" "on_curve (ev aa) (ev ab) (Affine x y)" "v = Affine x y"
proof -
  have g: "good (px p)" "good (py p)" "good (pzz p)" "good (pzzz p)"
    and ok: "xyzz_ok (ev aa) (ev ab) (ev (px p)) (ev (py p)) (ev (pzz p)) (ev (pzzz p))"
    and v: "v = xyzz_val (ev (px p)) (ev (py p)) (ev (pzz p)) (ev (pzzz p))"
    using assms by (auto simp: rep_p_def point_ok_def point_val_def)
  from ok show thesis by (rule xyzz_okE) (use that g v in auto)
qed

lemma rep_a_cases:
  assumes "ra p v"
  obtains "good (ax p)" "good (ay p)" "ev (ax p) = 0" "ev (ay p) = 0" "v = Infinity"
  | "good (ax p)" "good (ay p)" "\<not> (ev (ax p) = 0 \<and> ev (ay p) = 0)" "on_curve (ev aa) (ev ab) (Affine (ev (ax p)) (ev (ay p)))"
    "v = Affine (ev (ax p)) (ev (ay p))"
proof (cases "ev (ax p) = 0 \<and> ev (ay p) = 0")
  case True
  then show thesis using that(1) assms by (simp add: rep_a_def affine_ok_def affine_val_def)
next
  case False
  then have av: "affine_val ev p = Affine (ev (ax p)) (ev (ay p))" by (simp only: affine_val_def if_False)
  show thesis using assms False unfolding rep_a_def affine_ok_def av by (intro that(2)) (blast intro: sym)+
qed

lemma mulByA_law: "good x \<Longrightarrow> good (mulByA F C x) \<and> ev (mulByA F C x) = ev aa * ev x"
  using good_ab laws by (auto simp: mulByA_def initCurve_def)

lemma xyzz_of_affine_rep: "ra p v \<Longrightarrow> rp (xyzz_of_affine F p) v"
proof (erule rep_a_cases)
  assume "good (ax p)" "good (ay p)" "ev (ax p) = 0" "ev (ay p) = 0" "v = Infinity"
  then show ?thesis by (simp add: xyzz_of_affine_def isZero_a_def laws rep_p_def point_ok_def point_val_def xyzz_ok_def xyzz_val_def)
next
  assume a: "good (ax p)" "good (ay p)" "\<not> (ev (ax p) = 0 \<and> ev (ay p) = 0)" "on_curve (ev aa) (ev ab) (Affine (ev (ax p)) (ev (ay p)))"
    "v = Affine (ev (ax p)) (ev (ay p))"
  then have "\<not> isZero_a F p" by (auto simp: isZero_a_def laws)
  then show ?thesis using a xyzz_okI [OF one_neq_zero a(4)]
    by (simp add: xyzz_of_affine_def laws rep_p_def point_ok_def point_val_def)
qed

lemma xyzz_chord_rep:
  assumes g: "good P" "good R" "good U1" "good S1" "good ZZ" "good ZZZ"
    and T: "T \<noteq> 0" "ev U1 = x1 * T ^ 2" "ev S1 = y1 * T ^ 3" "ev ZZ = T ^ 2" "ev ZZZ = T ^ 3"
    and P: "ev P = (x2 - x1) * T ^ 2" "ev R = (y2 - y1) * T ^ 3" "\<not> (ev P = 0 \<and> ev R = 0)"
    and c: "on_curve (ev aa) (ev ab) (Affine x1 y1)" "on_curve (ev aa) (ev ab) (Affine x2 y2)"
  shows "rp (xyzz_chord F P R U1 S1 ZZ ZZZ) (aadd (ev aa) (Affine x1 y1) (Affine x2 y2))"
proof -
  have e: "ev (px (xyzz_chord F P R U1 S1 ZZ ZZZ)) = ev R ^ 2 - ev P ^ 3 - 2 * (x1 * T ^ 2 * ev P ^ 2)"
    "ev (py (xyzz_chord F P R U1 S1 ZZ ZZZ)) = ev R * (x1 * T ^ 2 * ev P ^ 2
      - (ev R ^ 2 - ev P ^ 3 - 2 * (x1 * T ^ 2 * ev P ^ 2))) - y1 * T ^ 3 * ev P ^ 3"
    "ev (pzz (xyzz_chord F P R U1 S1 ZZ ZZZ)) = T ^ 2 * ev P ^ 2" "ev (pzzz (xyzz_chord F P R U1 S1 ZZ ZZZ)) = T ^ 3 * ev P ^ 3"
    using g T by (simp_all add: xyzz_chord_def Let_def laws power3_eq_cube power2_eq_square algebra_simps)
  show ?thesis
    using xyzz_chord_math [OF T(1) P c two refl refl refl refl] g
    unfolding rep_p_def point_ok_def point_val_def e by (simp add: xyzz_chord_def Let_def laws)
qed

lemma xyzz_tangent_rep:
  assumes g: "good M" "good S" "good W" "good Y1" "good ZZ3" "good ZZZ3"
    and T: "T \<noteq> 0" and c: "on_curve (ev aa) (ev ab) (Affine x y)" and U: "U = 2 * (y * T ^ 3)"
    and M: "ev M = 3 * (x * T ^ 2) ^ 2 + ev aa * (T ^ 2) ^ 2" "ev S = x * T ^ 2 * U ^ 2" "ev W = U ^ 3" "ev Y1 = y * T ^ 3"
    and ZZ: "ev ZZ3 = U ^ 2 * T ^ 2" "ev ZZZ3 = U ^ 3 * T ^ 3"
  shows "rp (xyzz_tangent F M S W Y1 ZZ3 ZZZ3) (aadd (ev aa) (Affine x y) (Affine x y))"
proof -
  have e: "ev (px (xyzz_tangent F M S W Y1 ZZ3 ZZZ3)) = ev M ^ 2 - 2 * (x * T ^ 2 * U ^ 2)"
    "ev (py (xyzz_tangent F M S W Y1 ZZ3 ZZZ3)) = ev M * (x * T ^ 2 * U ^ 2 - (ev M ^ 2 - 2 * (x * T ^ 2 * U ^ 2))) - U ^ 3 * (y * T ^ 3)"
    "ev (pzz (xyzz_tangent F M S W Y1 ZZ3 ZZZ3)) = U ^ 2 * T ^ 2" "ev (pzzz (xyzz_tangent F M S W Y1 ZZ3 ZZZ3)) = U ^ 3 * T ^ 3"
    using g M(2-4) ZZ by (simp_all add: xyzz_tangent_def Let_def laws algebra_simps)
  show ?thesis
    using xyzz_tangent_math [OF T c two curve_smooth U M(1) refl refl refl refl] g
    unfolding rep_p_def point_ok_def point_val_def e by (simp add: xyzz_tangent_def Let_def laws)
qed

lemma isZero_p_rep: "rp p v \<Longrightarrow> isZero_p F p \<longleftrightarrow> v = Infinity"
  by (erule rep_p_cases) (simp_all add: isZero_p_def laws)

lemma isZero_a_rep: "ra p v \<Longrightarrow> isZero_a F p \<longleftrightarrow> v = Infinity"
  by (erule rep_a_cases) (auto simp: isZero_a_def laws)

lemma typeOfA_zero: "typeOfA C = a_is_zero \<longleftrightarrow> ev aa = 0"
  using good_ab by (simp add: initCurve_def laws)

lemma fa_C [simp]: "fa C = aa"
  by (simp add: initCurve_def)

lemma xyzz_dbl_rep:
  assumes "rp p v"
  shows "rp (xyzz_dbl F C p) (aadd (ev aa) v v)"
  using assms
proof (cases rule: rep_p_cases)
  case 1
  then show ?thesis using assms isZero_p_rep [OF assms] by (simp add: xyzz_dbl_def)
next
  case (2 t x y)
  have "\<not> isZero_p F p" using isZero_p_rep [OF assms] 2 by simp
  then show ?thesis unfolding xyzz_dbl_def Let_def 2(11)
    by (simp only: if_False) (rule xyzz_tangent_rep [where T = t and U = "2 * (y * t ^ 3)"],
      simp_all add: 2 laws mulByA_law typeOfA_zero power2_eq_square power3_eq_cube algebra_simps)
qed

lemma xyzz_dbl_affine_rep:
  assumes "ra p v"
  shows "rp (xyzz_dbl_affine F C p) (aadd (ev aa) v v)"
  using assms
proof (cases rule: rep_a_cases)
  case 1
  then show ?thesis using xyzz_of_affine_rep [OF assms] isZero_a_rep [OF assms] by (simp add: xyzz_dbl_affine_def)
next
  case 2
  have "\<not> isZero_a F p" using isZero_a_rep [OF assms] 2 by simp
  then show ?thesis unfolding xyzz_dbl_affine_def Let_def 2(5)
    by (simp only: if_False) (rule xyzz_tangent_rep [where T = 1 and U = "2 * (ev (ay p) * 1 ^ 3)"],
      simp_all add: 2(1,2,4) laws good_ab power2_eq_square power3_eq_cube algebra_simps)
qed

lemma xyzz_add_rep:
  assumes p: "rp p v" and q: "rp q w"
  shows "rp (xyzz_add F C p q) (aadd (ev aa) v w)"
proof (cases "v = Infinity \<or> w = Infinity")
  case True
  then show ?thesis using p q isZero_p_rep [OF p] isZero_p_rep [OF q] by (auto simp: xyzz_add_def)
next
  case False
  obtain t x y where P: "good (px p)" "good (py p)" "good (pzz p)" "good (pzzz p)" "t \<noteq> 0" "ev (pzz p) = t ^ 2" "ev (pzzz p) = t ^ 3"
    "ev (px p) = x * t ^ 2" "ev (py p) = y * t ^ 3" "on_curve (ev aa) (ev ab) (Affine x y)" "v = Affine x y"
    using p False by (elim rep_p_cases) simp_all
  obtain t' x' y' where Q: "good (px q)" "good (py q)" "good (pzz q)" "good (pzzz q)" "t' \<noteq> 0" "ev (pzz q) = t' ^ 2" "ev (pzzz q) = t' ^ 3"
    "ev (px q) = x' * t' ^ 2" "ev (py q) = y' * t' ^ 3" "on_curve (ev aa) (ev ab) (Affine x' y')" "w = Affine x' y'"
    using q False by (elim rep_p_cases) simp_all
  have n: "\<not> isZero_p F p" "\<not> isZero_p F q" using isZero_p_rep p q False by blast+
  let ?P = "f_sub F (f_mul F (px q) (pzz p)) (f_mul F (px p) (pzz q))"
  let ?R = "f_sub F (f_mul F (py q) (pzzz p)) (f_mul F (py p) (pzzz q))"
  have e: "good ?P" "good ?R" "ev ?P = (x' - x) * (t * t') ^ 2" "ev ?R = (y' - y) * (t * t') ^ 3"
    by (simp_all add: P Q laws algebra_simps power_mult_distrib)
  show ?thesis
  proof (cases "ev ?P = 0 \<and> ev ?R = 0")
    case True
    then have "v = w" using e P Q by simp
    then show ?thesis using True n e xyzz_dbl_rep [OF p] by (simp add: xyzz_add_def Let_def isZero_law)
  next
    case False
    then have "\<not> (f_isZero F ?P \<and> f_isZero F ?R)" using e by (simp add: isZero_law)
    moreover have "rp (xyzz_chord F ?P ?R (f_mul F (px p) (pzz q)) (f_mul F (py p) (pzzz q)) (f_mul F (pzz p) (pzz q)) (f_mul F (pzzz p) (pzzz q)))
        (aadd (ev aa) (Affine x y) (Affine x' y'))"
      by (rule xyzz_chord_rep [OF e(1,2) _ _ _ _ _ _ _ _ _ e(3,4) False P(10) Q(10)])
        (simp_all add: P Q laws algebra_simps power_mult_distrib)
    ultimately show ?thesis using n by (simp only: xyzz_add_def Let_def if_False P(11) Q(11))
  qed
qed

lemma xyzz_add_mixed_rep:
  assumes p: "rp p v" and q: "ra q w"
  shows "rp (xyzz_add_mixed F C p q) (aadd (ev aa) v w)"
proof (cases "v = Infinity \<or> w = Infinity")
  case True
  then show ?thesis using p xyzz_of_affine_rep [OF q] isZero_p_rep [OF p] isZero_a_rep [OF q] by (auto simp: xyzz_add_mixed_def)
next
  case False
  obtain t x y where P: "good (px p)" "good (py p)" "good (pzz p)" "good (pzzz p)" "t \<noteq> 0" "ev (pzz p) = t ^ 2" "ev (pzzz p) = t ^ 3"
    "ev (px p) = x * t ^ 2" "ev (py p) = y * t ^ 3" "on_curve (ev aa) (ev ab) (Affine x y)" "v = Affine x y"
    using p False by (elim rep_p_cases) simp_all
  have Q: "good (ax q)" "good (ay q)" "on_curve (ev aa) (ev ab) (Affine (ev (ax q)) (ev (ay q)))" "w = Affine (ev (ax q)) (ev (ay q))"
    using q False by (elim rep_a_cases; simp)+
  have n: "\<not> isZero_p F p" "\<not> isZero_a F q" using isZero_p_rep isZero_a_rep p q False by blast+
  let ?P = "f_sub F (f_mul F (ax q) (pzz p)) (px p)"
  let ?R = "f_sub F (f_mul F (ay q) (pzzz p)) (py p)"
  have e: "good ?P" "good ?R" "ev ?P = (ev (ax q) - x) * t ^ 2" "ev ?R = (ev (ay q) - y) * t ^ 3"
    by (simp_all add: P Q laws algebra_simps)
  show ?thesis
  proof (cases "ev ?P = 0 \<and> ev ?R = 0")
    case True
    then have "v = w" using e P Q by simp
    then show ?thesis using True n e xyzz_dbl_affine_rep [OF q] by (simp add: xyzz_add_mixed_def Let_def isZero_law)
  next
    case False
    then have "\<not> (f_isZero F ?P \<and> f_isZero F ?R)" using e by (simp add: isZero_law)
    moreover have "rp (xyzz_chord F ?P ?R (px p) (py p) (pzz p) (pzzz p)) (aadd (ev aa) (Affine x y) (Affine (ev (ax q)) (ev (ay q))))"
      by (rule xyzz_chord_rep [OF e(1,2) P(1-4) P(5) _ _ _ _ e(3,4) False P(10) Q(3)]) (simp_all add: P)
    ultimately show ?thesis using n by (simp only: xyzz_add_mixed_def Let_def if_False P(11) Q(4))
  qed
qed

lemma xyzz_add_affine_rep:
  assumes p: "ra p v" and q: "ra q w"
  shows "rp (xyzz_add_affine F C p q) (aadd (ev aa) v w)"
proof (cases "v = Infinity \<or> w = Infinity")
  case True
  then show ?thesis using xyzz_of_affine_rep [OF p] xyzz_of_affine_rep [OF q] isZero_a_rep [OF p] isZero_a_rep [OF q]
    by (auto simp: xyzz_add_affine_def)
next
  case False
  have P: "good (ax p)" "good (ay p)" "on_curve (ev aa) (ev ab) (Affine (ev (ax p)) (ev (ay p)))" "v = Affine (ev (ax p)) (ev (ay p))"
    using p False by (elim rep_a_cases; simp)+
  have Q: "good (ax q)" "good (ay q)" "on_curve (ev aa) (ev ab) (Affine (ev (ax q)) (ev (ay q)))" "w = Affine (ev (ax q)) (ev (ay q))"
    using q False by (elim rep_a_cases; simp)+
  have n: "\<not> isZero_a F p" "\<not> isZero_a F q" using isZero_a_rep p q False by blast+
  let ?P = "f_sub F (ax q) (ax p)"
  let ?R = "f_sub F (ay q) (ay p)"
  have e: "good ?P" "good ?R" "ev ?P = (ev (ax q) - ev (ax p)) * 1 ^ 2" "ev ?R = (ev (ay q) - ev (ay p)) * 1 ^ 3"
    by (simp_all add: P Q laws)
  show ?thesis
  proof (cases "ev ?P = 0 \<and> ev ?R = 0")
    case True
    then have "v = w" using e P Q by simp
    then show ?thesis using True n e xyzz_dbl_affine_rep [OF q] by (simp add: xyzz_add_affine_def Let_def isZero_law)
  next
    case False
    then have z: "\<not> (f_isZero F ?P \<and> f_isZero F ?R)" using e by (simp add: isZero_law)
    let ?c = "xyzz_chord F ?P ?R (ax p) (ay p) (f_one F) (f_one F)"
    have c: "rp ?c (aadd (ev aa) (Affine (ev (ax p)) (ev (ay p))) (Affine (ev (ax q)) (ev (ay q))))"
      by (rule xyzz_chord_rep [OF e(1,2) P(1,2) const_law(3,3) one_neq_zero _ _ _ _ e(3,4) False P(3) Q(3)]) (simp_all add: laws)
    let ?d = "(xyzz_chord F ?P ?R (ax p) (ay p) (f_square F ?P) (f_square F ?P))\<lparr>pzz := f_square F ?P, pzzz := f_mul F ?P (f_square F ?P)\<rparr>"
    have d: "px ?d = px ?c" "py ?d = py ?c" "ev (pzz ?d) = ev (pzz ?c)" "ev (pzzz ?d) = ev (pzzz ?c)" "good (pzz ?d)" "good (pzzz ?d)"
      using e by (simp_all add: xyzz_chord_def Let_def laws)
    then have "rp ?d (aadd (ev aa) (Affine (ev (ax p)) (ev (ay p))) (Affine (ev (ax q)) (ev (ay q))))"
      using c unfolding rep_p_def point_ok_def point_val_def by simp
    then show ?thesis using n z by (simp only: xyzz_add_affine_def Let_def if_False P(4) Q(4))
  qed
qed

text \<open>The opposite, the conversion to affine coordinates and the tests.\<close>

lemma neg_p_rep: "rp p v \<Longrightarrow> rp (p\<lparr>py := f_neg F (py p)\<rparr>) (aneg v)"
  by (cases v) (auto simp: rep_p_def point_ok_def point_val_def laws xyzz_ok_def xyzz_val_def split: if_splits)

lemma neg_aa_rep: "ra p v \<Longrightarrow> ra (neg_aa F p) (aneg v)"
  by (cases v) (auto simp: rep_a_def affine_ok_def affine_val_def neg_aa_def laws on_curve_Affine split: if_splits)

lemma affine_zero_off_curve: "\<not> on_curve (ev aa) (ev ab) (Affine 0 0)"
  using b_nonzero by (simp add: on_curve_Affine)

lemma copy_ap_rep: "rp p v \<Longrightarrow> ra (copy_ap F p) v"
proof (erule rep_p_cases)
  fix t x y
  assume P: "good (px p)" "good (py p)" "good (pzz p)" "good (pzzz p)" "t \<noteq> 0" "ev (pzz p) = t ^ 2" "ev (pzzz p) = t ^ 3"
    "ev (px p) = x * t ^ 2" "ev (py p) = y * t ^ 3" "on_curve (ev aa) (ev ab) (Affine x y)" "v = Affine x y"
  then have "\<not> (x = 0 \<and> y = 0)" using affine_zero_off_curve by auto
  then have "affine_val ev (copy_ap F p) = Affine x y"
    using P by (simp add: copy_ap_def isZero_p_def laws affine_val_def)
  then show ?thesis using P by (simp add: rep_a_def affine_ok_def) (simp add: copy_ap_def isZero_p_def laws)
qed (simp add: copy_ap_def isZero_p_def laws rep_a_def affine_ok_def affine_val_def)

lemma neg_ap_eq: "neg_ap F p = (if isZero_p F p then copy_ap F p else neg_aa F (copy_ap F p))"
  by (simp add: neg_ap_def copy_ap_def neg_aa_def Let_def)

lemma neg_ap_rep: "rp p v \<Longrightarrow> ra (neg_ap F p) (aneg v)"
  using copy_ap_rep [of p v] neg_aa_rep [of "copy_ap F p" v] isZero_p_rep [of p v] by (auto simp: neg_ap_eq)

lemma eq_pp_rep:
  assumes p: "rp p v" and q: "rp q w"
  shows "eq_pp F p q \<longleftrightarrow> v = w"
proof (cases "v = Infinity")
  case True
  then show ?thesis using isZero_p_rep [OF p] isZero_p_rep [OF q] by (auto simp: eq_pp_def)
next
  case False
  then obtain t x y where P: "good (px p)" "good (py p)" "good (pzz p)" "good (pzzz p)" "t \<noteq> 0" "ev (pzz p) = t ^ 2" "ev (pzzz p) = t ^ 3"
    "ev (px p) = x * t ^ 2" "ev (py p) = y * t ^ 3" "v = Affine x y"
    using p by (elim rep_p_cases) simp_all
  have n: "\<not> isZero_p F p" using isZero_p_rep p False by blast
  from q show ?thesis
    by (rule rep_p_cases) (use n P in \<open>auto simp: eq_pp_def Let_def laws\<close>)
qed

lemma eq_pa_rep:
  assumes p: "rp p v" and q: "ra q w"
  shows "eq_pa F p q \<longleftrightarrow> v = w"
proof (cases "v = Infinity")
  case True
  then show ?thesis using isZero_p_rep [OF p] isZero_a_rep [OF q] by (auto simp: eq_pa_def)
next
  case False
  then obtain t x y where P: "good (px p)" "good (py p)" "good (pzz p)" "good (pzzz p)" "t \<noteq> 0" "ev (pzz p) = t ^ 2" "ev (pzzz p) = t ^ 3"
    "ev (px p) = x * t ^ 2" "ev (py p) = y * t ^ 3" "on_curve (ev aa) (ev ab) (Affine x y)" "v = Affine x y"
    using p by (elim rep_p_cases) simp_all
  have n: "\<not> isZero_p F p" using isZero_p_rep p False by blast
  have "\<not> (x = 0 \<and> y = 0)" using affine_zero_off_curve P(10) by auto
  with q show ?thesis
    by (elim rep_a_cases) (use n P in \<open>auto simp: eq_pa_def Let_def laws\<close>)
qed

end

end
