(* ===== verification/Exp.thy ===== *)
theory Exp
  imports Naf CurveCorrect
begin

text \<open>
  Scalar multiplication of points (\<open>depends/ffiasm/c/exp.hpp\<close>): double and add or subtract over
  the digits of the signed recoding. The template is instantiated for a base in extended
  coordinates and for an affine base.
\<close>

section \<open>The model\<close>

text \<open>The first loop skips the leading zero digits; the index is one more than the loop variable
  of the source, which ends at -1.\<close>

fun naf_top :: "u8 list \<Rightarrow> nat \<Rightarrow> nat" where
  "naf_top naf 0 = 0"
| "naf_top naf (Suc i) = (if naf ! i = 0 then naf_top naf i else Suc i)"

fun naf_loop :: "(u8 \<Rightarrow> 's \<Rightarrow> 's) \<Rightarrow> u8 list \<Rightarrow> nat \<Rightarrow> 's \<Rightarrow> 's" where
  "naf_loop body naf 0 s = s"
| "naf_loop body naf (Suc i) s = naf_loop body naf i (body (naf ! i) s)"

definition naf_body_p :: "'e base_ops \<Rightarrow> 'e curve \<Rightarrow> pref \<Rightarrow> pref \<Rightarrow> u8 \<Rightarrow> 'e pstore \<Rightarrow> 'e pstore" where
  "naf_body_p F C r baseCopy d s =
     (let s = dbl_pp F C r r s
      in if d = 1 then add_ppp F C r r baseCopy s
         else if d = 2 then sub_ppp F C r r baseCopy s
         else s)"

definition naf_body_a :: "'e base_ops \<Rightarrow> 'e curve \<Rightarrow> pref \<Rightarrow> 'e point_affine \<Rightarrow> u8 \<Rightarrow> 'e pstore \<Rightarrow> 'e pstore" where
  "naf_body_a F C r baseCopy d s =
     (let s = dbl_pp F C r r s
      in if d = 1 then add_ppa F C r r baseCopy s
         else if d = 2 then sub_ppa F C r r baseCopy s
         else s)"

definition mulByScalar_p :: "'e base_ops \<Rightarrow> 'e curve \<Rightarrow> pref \<Rightarrow> pref \<Rightarrow> u8 list \<Rightarrow> u32 \<Rightarrow> 'e pstore \<Rightarrow> 'e pstore" where
  "mulByScalar_p F C r base scalar scalarSize s =
     (let nBits = unat (scalarSize * 8 + 2);
          naf = buildNaf scalar scalarSize;
          outer = s;
          s = copy_pp (PTmp 2) base s;
          s = s(r := fzero C);
          s = naf_loop (naf_body_p F C r (PTmp 2)) naf (naf_top naf nBits) s
      in scoped (PTmp 2) outer s)"

definition mulByScalar_a :: "'e base_ops \<Rightarrow> 'e curve \<Rightarrow> pref \<Rightarrow> 'e point_affine \<Rightarrow> u8 list \<Rightarrow> u32 \<Rightarrow> 'e pstore \<Rightarrow> 'e pstore" where
  "mulByScalar_a F C r base scalar scalarSize s =
     (let nBits = unat (scalarSize * 8 + 2);
          naf = buildNaf scalar scalarSize;
          baseCopy = copy_aa base;
          s = s(r := fzero C)
      in naf_loop (naf_body_a F C r baseCopy) naf (naf_top naf nBits) s)"

section \<open>The loop in a group\<close>

lemma naf_value_take_Suc: "i < length naf \<Longrightarrow> naf_value (take (Suc i) naf) = naf_value (take i naf) + 2 ^ i * naf_digit (naf ! i)"
  by (simp add: take_Suc_conv_app_nth naf_value_append)

lemma naf_top_value: "n \<le> length naf \<Longrightarrow> naf_top naf n \<le> n \<and> naf_value (take (naf_top naf n) naf) = naf_value (take n naf)"
proof (induction n)
  case (Suc n)
  have "naf ! n = 0 \<Longrightarrow> naf_value (take (Suc n) naf) = naf_value (take n naf)"
    using Suc.prems by (simp add: naf_value_take_Suc naf_digit_def)
  then show ?case using Suc by auto
qed simp

context comm_grp
begin

lemma naf_loop_value:
  assumes p: "p \<in> G" and v: "v \<in> G" and s: "Inv s v" and n: "n \<le> length naf"
    and body: "\<And>d s v. v \<in> G \<Longrightarrow> Inv s v \<Longrightarrow> Inv (body d s) (gadd (gadd v v) (zm (naf_digit d) p))"
  shows "Inv (naf_loop body naf n s) (gadd (zm (2 ^ n) v) (zm (naf_value (take n naf)) p))"
  using v s n
proof (induction n arbitrary: v s)
  case 0
  then show ?case by (simp add: zmul_1 plus_zero_right)
next
  case (Suc n)
  let ?w = "gadd (gadd v v) (zm (naf_digit (naf ! n)) p)"
  have "Inv (naf_loop body naf n (body (naf ! n) s)) (gadd (zm (2 ^ n) ?w) (zm (naf_value (take n naf)) p))"
    using Suc.prems by (intro Suc.IH body) (simp_all add: closed p)
  moreover have "gadd (zm (2 ^ n) ?w) (zm (naf_value (take n naf)) p)
      = gadd (zm (2 ^ Suc n) v) (zm (naf_value (take (Suc n) naf)) p)"
    using Suc.prems p
    by (simp add: zmul_plus zmul_zmul zmul_add zmul_double closed plus_assoc naf_value_take_Suc plus_comm plus_left_comm)
  ultimately show ?case by simp
qed

end

section \<open>Correctness\<close>

sublocale curve_field \<subseteq> grp: comm_grp "Collect (on_curve (ev aa) (ev ab))" "aadd (ev aa)" Infinity aneg
  using curve_comm_grp curve_smooth two by blast

context curve_field
begin

abbreviation smul :: "int \<Rightarrow> 'a apoint \<Rightarrow> 'a apoint" where
  "smul \<equiv> zmul (aadd (ev aa)) Infinity aneg"

lemma fzero_rep: "rp (fzero C) Infinity"
  by (simp add: initCurve_def rep_p_def point_ok_def point_val_def xyzz_ok_def xyzz_val_def laws)

lemma naf_body_p_rep:
  assumes "r \<noteq> bc" "r \<noteq> PTmp 0" "bc \<noteq> PTmp 0" "rp (s r) v" "rp (s bc) p"
  shows "rp (naf_body_p F C r bc d s r) (aadd (ev aa) (aadd (ev aa) v v) (smul (naf_digit d) p))
    \<and> rp (naf_body_p F C r bc d s bc) p \<and> (\<forall>k. k \<noteq> r \<longrightarrow> naf_body_p F C r bc d s k = s k)"
proof -
  have c: "on_curve (ev aa) (ev ab) p" "on_curve (ev aa) (ev ab) v" using assms rep_p_on_curve by blast+
  note d = xyzz_dbl_rep [OF assms(4)]
  show ?thesis
    using assms d xyzz_add_rep [OF d assms(5)] xyzz_add_rep [OF d neg_p_rep [OF assms(5)]] c
    by (auto simp: naf_body_p_def Let_def store_simps naf_digit_def grp.zmul_1 grp.zmul_minus_1)
qed

lemma naf_body_a_rep:
  assumes "rp (s r) v" "ra bc p"
  shows "rp (naf_body_a F C r bc d s r) (aadd (ev aa) (aadd (ev aa) v v) (smul (naf_digit d) p))
    \<and> (\<forall>k. k \<noteq> r \<longrightarrow> naf_body_a F C r bc d s k = s k)"
proof -
  have c: "on_curve (ev aa) (ev ab) p" using assms rep_a_on_curve by blast
  note d = xyzz_dbl_rep [OF assms(1)]
  show ?thesis
    using assms d xyzz_add_mixed_rep [OF d assms(2)] xyzz_add_mixed_rep [OF d neg_aa_rep [OF assms(2)]] c
    by (auto simp: naf_body_a_def Let_def store_simps naf_digit_def grp.zmul_1 grp.zmul_minus_1)
qed

lemma nBits_value: "n < 2 ^ 28 \<Longrightarrow> unat (of_nat n * 8 + 2 :: u32) = 8 * n + 2"
proof -
  assume "n < 2 ^ 28"
  have "(of_nat n * 8 + 2 :: u32) = of_nat (8 * n + 2)" by simp
  moreover have "8 * n + 2 < 2 ^ 32" using \<open>n < 2 ^ 28\<close> by simp
  ultimately show ?thesis by (simp only: unat_of_nat) simp
qed

lemma buildNaf_take:
  assumes "n = length scalar" "0 < n" "n < 2 ^ 28"
  shows "naf_top (buildNaf scalar (of_nat n)) (8 * n + 2) \<le> length (buildNaf scalar (of_nat n))
    \<and> naf_value (take (naf_top (buildNaf scalar (of_nat n)) (8 * n + 2)) (buildNaf scalar (of_nat n))) = int (le_val scalar)"
proof -
  obtain ds where "buildNaf scalar (of_nat n) = ds @ replicate 14 0" "length ds = 8 * n + 2" "naf_value ds = int (le_val scalar)"
    using buildNaf_value [OF assms] by blast
  moreover have "8 * n + 2 \<le> length (ds @ replicate 14 0)" using calculation by simp
  ultimately show ?thesis using naf_top_value [of "8 * n + 2" "ds @ replicate 14 0"]
    by (auto simp del: naf_top.simps add_2_eq_Suc')
qed

text \<open>The result is the multiple of the base by the scalar; every other object keeps its
  value. The result may be the base itself.\<close>

lemma mulByScalar_p_rep:
  assumes n: "n = length scalar" "0 < n" "n < 2 ^ 28" and p: "rp (s base) p" and r: "r = PVar i" "base = PVar j"
  shows "rp (mulByScalar_p F C r base scalar (of_nat n) s r) (smul (int (le_val scalar)) p)
    \<and> (\<forall>k. k \<noteq> r \<longrightarrow> mulByScalar_p F C r base scalar (of_nat n) s k = s k)"
proof -
  define s0 where "s0 = (copy_pp (PTmp 2) base s)(r := fzero C)"
  define naf where "naf = buildNaf scalar (of_nat n)"
  define Inv where "Inv s' v \<longleftrightarrow> rp (s' r) v \<and> rp (s' (PTmp 2)) p \<and> (\<forall>k. k \<noteq> r \<and> k \<noteq> PTmp 2 \<longrightarrow> s' k = s k)" for s' v
  have c: "p \<in> Collect (on_curve (ev aa) (ev ab))" using rep_p_on_curve p by blast
  note top = buildNaf_take [OF n, folded naf_def]
  have "Inv (naf_loop (naf_body_p F C r (PTmp 2)) naf (naf_top naf (8 * n + 2)) s0)
      (aadd (ev aa) (smul (2 ^ naf_top naf (8 * n + 2)) Infinity) (smul (naf_value (take (naf_top naf (8 * n + 2)) naf)) p))"
  proof (rule grp.naf_loop_value [OF c, where Inv = Inv and v = Infinity and s = s0])
    show "Inv s0 Infinity" using p r fzero_rep by (simp add: Inv_def s0_def)
  next
    fix d s' v assume "Inv s' v"
    then show "Inv (naf_body_p F C r (PTmp 2) d s') (aadd (ev aa) (aadd (ev aa) v v) (smul (naf_digit d) p))"
      using naf_body_p_rep [of r "PTmp 2" s' v p d] r by (simp add: Inv_def)
  qed (use top in simp_all)
  then have i: "Inv (naf_loop (naf_body_p F C r (PTmp 2)) naf (naf_top naf (8 * n + 2)) s0) (smul (int (le_val scalar)) p)"
    using top by (simp add: grp.zmul_zero)
  have "mulByScalar_p F C r base scalar (of_nat n) s
      = (naf_loop (naf_body_p F C r (PTmp 2)) naf (naf_top naf (8 * n + 2)) s0)(PTmp 2 := s (PTmp 2))"
    by (simp add: mulByScalar_p_def Let_def scoped_def s0_def naf_def nBits_value [OF n(3)])
  then show ?thesis using i r by (simp add: Inv_def)
qed

lemma mulByScalar_a_rep:
  assumes n: "n = length scalar" "0 < n" "n < 2 ^ 28" and p: "ra base p"
  shows "rp (mulByScalar_a F C r base scalar (of_nat n) s r) (smul (int (le_val scalar)) p)
    \<and> (\<forall>k. k \<noteq> r \<longrightarrow> mulByScalar_a F C r base scalar (of_nat n) s k = s k)"
proof -
  define s0 where "s0 = s(r := fzero C)"
  define naf where "naf = buildNaf scalar (of_nat n)"
  define Inv where "Inv s' v \<longleftrightarrow> rp (s' r) v \<and> (\<forall>k. k \<noteq> r \<longrightarrow> s' k = s k)" for s' v
  have c: "p \<in> Collect (on_curve (ev aa) (ev ab))" using rep_a_on_curve p by blast
  have b: "copy_aa base = base" by (simp add: copy_aa_def)
  note top = buildNaf_take [OF n, folded naf_def]
  have "Inv (naf_loop (naf_body_a F C r base) naf (naf_top naf (8 * n + 2)) s0)
      (aadd (ev aa) (smul (2 ^ naf_top naf (8 * n + 2)) Infinity) (smul (naf_value (take (naf_top naf (8 * n + 2)) naf)) p))"
  proof (rule grp.naf_loop_value [OF c, where Inv = Inv and v = Infinity and s = s0])
    show "Inv s0 Infinity" using fzero_rep by (simp add: Inv_def s0_def)
  next
    fix d s' v assume "Inv s' v"
    then show "Inv (naf_body_a F C r base d s') (aadd (ev aa) (aadd (ev aa) v v) (smul (naf_digit d) p))"
      using naf_body_a_rep [of s' r v base p d] p by (simp add: Inv_def)
  qed (use top in simp_all)
  then have "Inv (naf_loop (naf_body_a F C r base) naf (naf_top naf (8 * n + 2)) s0) (smul (int (le_val scalar)) p)"
    using top by (simp add: grp.zmul_zero)
  then show ?thesis by (simp add: mulByScalar_a_def Let_def Inv_def s0_def naf_def nBits_value [OF n(3)] b)
qed

end

end
