(* ===== verification/Msm.thy ===== *)
theory Msm
  imports Exp ThreadPool
begin

text \<open>
  Multi-scalar multiplication (\<open>depends/ffiasm/c/msm.hpp\<close>, \<open>msm.cpp\<close>): every scalar is cut into
  chunks of \<open>bitsPerChunk\<close> bits that are recoded to signed digits; for every chunk the points
  are added into buckets by digit, the buckets are summed with their weights, and the chunks
  are combined by doubling. The loops over the points and over the chunks run on the thread
  pool; a chunk uses the row of buckets of the thread that runs it.
\<close>

section \<open>The model\<close>

record msm =
  m_scalars :: "u8 list"
  m_scalarSize :: u64
  m_bitsPerChunk :: u64

definition calcChunkCount :: "u64 \<Rightarrow> u64 \<Rightarrow> u64" where
  "calcChunkCount scalarSize bitsPerChunk = (scalarSize * 8 - 1) div bitsPerChunk + 1"

definition calcAddsCount :: "u64 \<Rightarrow> u64 \<Rightarrow> u64 \<Rightarrow> u64" where
  "calcAddsCount nPoints scalarSize bitsPerChunk =
     calcChunkCount scalarSize bitsPerChunk * (nPoints + push_bit (unat bitsPerChunk) 1 + bitsPerChunk + 1)"

definition MIN_CHUNK_SIZE_BITS :: u64 where "MIN_CHUNK_SIZE_BITS = 3"
definition MAX_CHUNK_SIZE_BITS :: u64 where "MAX_CHUNK_SIZE_BITS = 16"

definition calcBitsPerChunk :: "u64 \<Rightarrow> u64 \<Rightarrow> u64" where
  "calcBitsPerChunk n scalarSize =
     fst (fold (\<lambda>k (bitsPerChunk, minAdds).
         let curAdds = calcAddsCount n scalarSize k
         in if curAdds < minAdds then (k, curAdds) else (bitsPerChunk, minAdds))
       (map of_nat [unat MIN_CHUNK_SIZE_BITS + 1..<unat MAX_CHUNK_SIZE_BITS + 1])
       (MIN_CHUNK_SIZE_BITS, calcAddsCount n scalarSize MIN_CHUNK_SIZE_BITS))"

definition calcBucketCount :: "u64 \<Rightarrow> u64" where
  "calcBucketCount bitsPerChunk = push_bit (unat (bitsPerChunk - 1)) 1"

definition getBucketIndex :: "msm \<Rightarrow> u64 \<Rightarrow> u64 \<Rightarrow> u64" where
  "getBucketIndex m scalarIdx chunkIdx =
     (let bitStart = chunkIdx * m_bitsPerChunk m;
          byteStart = bitStart div 8;
          efectiveBitsPerChunk = m_bitsPerChunk m;
          byteStart = (if byteStart > m_scalarSize m - 8 then m_scalarSize m - 8 else byteStart);
          efectiveBitsPerChunk = (if bitStart + m_bitsPerChunk m > m_scalarSize m * 8
            then m_scalarSize m * 8 - bitStart else efectiveBitsPerChunk);
          shift = bitStart - byteStart * 8;
          v = of_nat (le_val (take 8 (drop (unat (scalarIdx * m_scalarSize m + byteStart)) (m_scalars m))));
          v = drop_bit (unat shift) v
      in v AND (push_bit (unat efectiveBitsPerChunk) 1 - 1))"

text \<open>The body of the first loop, for one scalar: the digits, with a carry from chunk to chunk.\<close>

definition slice_step :: "msm \<Rightarrow> nat \<Rightarrow> nat \<Rightarrow> nat \<Rightarrow> nat \<Rightarrow> int \<times> (nat \<Rightarrow> int) \<Rightarrow> int \<times> (nat \<Rightarrow> int)" where
  "slice_step m nChunks nBuckets i j = (\<lambda>(carry, slicedScalars).
     let bucketIndex = int (unat (getBucketIndex m (of_nat i) (of_nat j))) + carry;
         (bucketIndex, carry) = (if bucketIndex \<ge> int nBuckets then (bucketIndex - int nBuckets * 2, 1) else (bucketIndex, 0))
     in (carry, slicedScalars(i * nChunks + j := bucketIndex)))"

definition slice_scalar :: "msm \<Rightarrow> nat \<Rightarrow> nat \<Rightarrow> nat \<Rightarrow> (nat \<Rightarrow> int) \<Rightarrow> (nat \<Rightarrow> int)" where
  "slice_scalar m nChunks nBuckets i slicedScalars =
     snd (fold (slice_step m nChunks nBuckets i) [0..<nChunks] (0, slicedScalars))"

definition slice_scalars :: "msm \<Rightarrow> nat \<Rightarrow> nat \<Rightarrow> int \<Rightarrow> int \<Rightarrow> nat \<Rightarrow> (nat \<Rightarrow> int) \<Rightarrow> (nat \<Rightarrow> int)" where
  "slice_scalars m nChunks nBuckets begin' end' numThread slicedScalars =
     fold (\<lambda>i. slice_scalar m nChunks nBuckets (nat i)) [begin'..end' - 1] slicedScalars"

text \<open>The body of the second loop, for one chunk.\<close>

definition clear_buckets :: "'e curve \<Rightarrow> nat \<Rightarrow> nat \<Rightarrow> 'e pstore \<Rightarrow> 'e pstore" where
  "clear_buckets C row nBuckets s = fold (\<lambda>i s. s(PBucket (row + i) := fzero C)) [0..<nBuckets] s"

definition bucket_point :: "'e base_ops \<Rightarrow> 'e curve \<Rightarrow> nat \<Rightarrow> int \<Rightarrow> 'e point_affine \<Rightarrow> 'e pstore \<Rightarrow> 'e pstore" where
  "bucket_point F C row bucketIndex base s =
     (if bucketIndex > 0
      then add_ppa F C (PBucket (row + nat (bucketIndex - 1))) (PBucket (row + nat (bucketIndex - 1))) base s
      else if bucketIndex < 0
      then sub_ppa F C (PBucket (row + nat (- bucketIndex - 1))) (PBucket (row + nat (- bucketIndex - 1))) base s
      else s)"

definition fill_buckets :: "'e base_ops \<Rightarrow> 'e curve \<Rightarrow> nat \<Rightarrow> nat \<Rightarrow> 'e point_affine list \<Rightarrow> (nat \<Rightarrow> int) \<Rightarrow> nat \<Rightarrow> nat \<Rightarrow> 'e pstore \<Rightarrow> 'e pstore" where
  "fill_buckets F C row nChunks bases slicedScalars nPoints j s =
     fold (\<lambda>i. bucket_point F C row (slicedScalars (i * nChunks + j)) (bases ! i)) [0..<nPoints] s"

text \<open>The local variables \<open>t\<close> and \<open>tmp\<close> of the loop body are \<open>PTmp 3\<close> and \<open>PTmp 4\<close>.\<close>

definition sum_buckets :: "'e base_ops \<Rightarrow> 'e curve \<Rightarrow> nat \<Rightarrow> nat \<Rightarrow> 'e pstore \<Rightarrow> 'e pstore" where
  "sum_buckets F C row nBuckets s =
     (let s = copy_pp (PTmp 3) (PBucket (row + (nBuckets - 1))) s;
          s = copy_pp (PTmp 4) (PTmp 3) s
      in fold (\<lambda>i s. let s = add_ppp F C (PTmp 4) (PTmp 4) (PBucket (row + i)) s
                     in add_ppp F C (PTmp 3) (PTmp 3) (PTmp 4) s)
           (rev [0..<nBuckets - 1]) s)"

definition process_chunk :: "'e base_ops \<Rightarrow> 'e curve \<Rightarrow> nat \<Rightarrow> nat \<Rightarrow> nat \<Rightarrow> 'e point_affine list \<Rightarrow> (nat \<Rightarrow> int) \<Rightarrow> nat \<Rightarrow> nat \<Rightarrow> 'e pstore \<Rightarrow> 'e pstore" where
  "process_chunk F C nBuckets nChunks nPoints bases slicedScalars numThread j s =
     (let row = numThread * nBuckets;
          s = clear_buckets C row nBuckets s;
          s = fill_buckets F C row nChunks bases slicedScalars nPoints j s;
          s = sum_buckets F C row nBuckets s
      in s(PChunk j := s (PTmp 3)))"

definition process_chunks :: "'e base_ops \<Rightarrow> 'e curve \<Rightarrow> nat \<Rightarrow> nat \<Rightarrow> nat \<Rightarrow> 'e point_affine list \<Rightarrow> (nat \<Rightarrow> int) \<Rightarrow> int \<Rightarrow> int \<Rightarrow> nat \<Rightarrow> 'e pstore \<Rightarrow> 'e pstore" where
  "process_chunks F C nBuckets nChunks nPoints bases slicedScalars begin' end' numThread s =
     fold (\<lambda>j. process_chunk F C nBuckets nChunks nPoints bases slicedScalars numThread (nat j)) [begin'..end' - 1] s"

definition combine_chunks :: "'e base_ops \<Rightarrow> 'e curve \<Rightarrow> nat \<Rightarrow> nat \<Rightarrow> pref \<Rightarrow> 'e pstore \<Rightarrow> 'e pstore" where
  "combine_chunks F C bits nChunks r s =
     fold (\<lambda>j s. add_ppp F C r r (PChunk j) ((dbl_pp F C r r ^^ bits) s))
       (rev [0..<nChunks - 1]) (copy_pp r (PChunk (nChunks - 1)) s)"

text \<open>\<open>garbage\<close> is the contents of the freshly allocated array of digits.\<close>

definition MSM_run :: "'e base_ops \<Rightarrow> 'e curve \<Rightarrow> nat \<Rightarrow> (nat \<Rightarrow> (nat \<times> nat) list) \<Rightarrow> (nat \<Rightarrow> int) \<Rightarrow> pref
    \<Rightarrow> 'e point_affine list \<Rightarrow> u8 list \<Rightarrow> u64 \<Rightarrow> u64 \<Rightarrow> 'e pstore \<Rightarrow> 'e pstore" where
  "MSM_run F C nThreads sched garbage r bases scalars scalarSize nPoints s =
     (let m = \<lparr>m_scalars = scalars, m_scalarSize = scalarSize, m_bitsPerChunk = calcBitsPerChunk nPoints scalarSize\<rparr>
      in if nPoints = 0 then s(r := fzero C)
         else if nPoints = 1 then mulByScalar_a F C r (bases ! 0) scalars (ucast scalarSize) s
         else
           let nChunks = calcChunkCount scalarSize (m_bitsPerChunk m);
               nBuckets = calcBucketCount (m_bitsPerChunk m);
               slicedScalars = parallelFor nThreads sched 0 (as_int nPoints)
                 (slice_scalars m (unat nChunks) (unat nBuckets)) garbage;
               s = parallelFor nThreads sched 0 (as_int nChunks)
                 (process_chunks F C (unat nBuckets) (unat nChunks) (unat nPoints) bases slicedScalars) s
           in combine_chunks F C (unat (m_bitsPerChunk m)) (unat nChunks) r s)"

end
