(* ===== verification/MsmDigits.thy ===== *)
theory MsmDigits
  imports Msm
begin

text \<open>
  The arithmetic of the multi-scalar multiplication: the sizes it computes, the chunks it reads
  from a scalar, and the signed digits it recodes them to.
\<close>

section \<open>Sizes\<close>

lemma calcBitsPerChunk_range: "3 \<le> unat (calcBitsPerChunk n sz) \<and> unat (calcBitsPerChunk n sz) \<le> 16"
proof -
  define ks where "ks = map (of_nat :: nat \<Rightarrow> u64) [unat MIN_CHUNK_SIZE_BITS + 1..<unat MAX_CHUNK_SIZE_BITS + 1]"
  define f where "f = (\<lambda>k (bitsPerChunk, minAdds). let curAdds = calcAddsCount n sz k
      in if curAdds < minAdds then (k, curAdds) else (bitsPerChunk, minAdds))"
  have "3 \<le> unat (fst (fold f xs st)) \<and> unat (fst (fold f xs st)) \<le> 16"
    if "\<forall>k \<in> set xs. 3 \<le> unat k \<and> unat k \<le> 16" "3 \<le> unat (fst st) \<and> unat (fst st) \<le> 16" for xs st
    using that by (induction xs arbitrary: st) (auto simp: f_def Let_def split: prod.splits)
  moreover have "\<forall>k \<in> set ks. 3 \<le> unat k \<and> unat k \<le> 16"
    by (auto simp: ks_def MIN_CHUNK_SIZE_BITS_def MAX_CHUNK_SIZE_BITS_def unat_of_nat)
  ultimately have "3 \<le> unat (fst (fold f ks (MIN_CHUNK_SIZE_BITS, calcAddsCount n sz MIN_CHUNK_SIZE_BITS)))
      \<and> unat (fst (fold f ks (MIN_CHUNK_SIZE_BITS, calcAddsCount n sz MIN_CHUNK_SIZE_BITS))) \<le> 16"
    by (simp add: MIN_CHUNK_SIZE_BITS_def)
  then show ?thesis by (simp add: calcBitsPerChunk_def f_def ks_def)
qed

lemma unat_mult64: "unat (x :: u64) * unat y < 2 ^ 64 \<Longrightarrow> unat (x * y) = unat x * unat y"
  using unat_mult_lem [of x y] by simp

lemma unat_add64: "unat (x :: u64) + unat y < 2 ^ 64 \<Longrightarrow> unat (x + y) = unat x + unat y"
  using unat_add_lem [of x y] by simp

lemma unat_sub64: "unat (y :: u64) \<le> unat x \<Longrightarrow> unat (x - y) = unat x - unat y"
  by (simp add: unat_sub_if')

lemma calcChunkCount_value:
  assumes "0 < unat sz" "unat sz < 2 ^ 28"
  shows "unat (calcChunkCount sz b) = (8 * unat sz - 1) div unat b + 1"
proof -
  have m: "unat (sz * 8) = 8 * unat sz" using assms by (subst unat_mult64) simp_all
  have s: "unat (sz * 8 - 1) = 8 * unat sz - 1" using assms by (subst unat_sub64) (simp_all add: m)
  have "unat ((sz * 8 - 1) div b) = (8 * unat sz - 1) div unat b" by (simp add: unat_div s)
  moreover have "(8 * unat sz - 1) div unat b \<le> 8 * unat sz" by (meson diff_le_self div_le_dividend le_trans)
  ultimately show ?thesis using assms unfolding calcChunkCount_def by (subst unat_add64) simp_all
qed

lemma unat_exp64: "n < 64 \<Longrightarrow> unat (2 ^ n :: u64) = 2 ^ n"
proof -
  assume "n < 64"
  then have "(2::nat) ^ n < 2 ^ 64" by (intro power_strict_increasing) simp_all
  moreover have "(2 ^ n :: u64) = of_nat (2 ^ n)" by simp
  ultimately show ?thesis by (simp only: unat_of_nat) simp
qed

lemma calcBucketCount_value:
  assumes "3 \<le> unat b" "unat b \<le> 16"
  shows "unat (calcBucketCount b) = 2 ^ (unat b - 1)"
proof -
  have "unat (b - 1) = unat b - 1" using assms by (subst unat_sub64) simp_all
  then show ?thesis using assms by (simp add: calcBucketCount_def unat_exp64)
qed

section \<open>The chunks of a scalar\<close>

definition scalar_at :: "u8 list \<Rightarrow> nat \<Rightarrow> nat \<Rightarrow> nat" where
  "scalar_at scalars sz i = le_val (take sz (drop (i * sz) scalars))"

lemma le_val_take_drop: "le_val (take n (drop k bs)) = le_val bs div 256 ^ k mod 256 ^ n"
  if "k + n \<le> length bs"
proof -
  have k: "length (take k bs) = k" and n: "length (take n (drop k bs)) = n" using that by simp_all
  have "le_val bs = le_val (take k bs) + 256 ^ k * le_val (drop k bs)"
    using le_val_append [of "take k bs" "drop k bs"] k by simp
  moreover have "le_val (take k bs) < 256 ^ k" using le_val_upper [of "take k bs"] k by simp
  ultimately have "le_val bs div 256 ^ k = le_val (drop k bs)" by simp
  moreover have "le_val (drop k bs) = le_val (take n (drop k bs)) + 256 ^ n * le_val (drop n (drop k bs))"
    using le_val_append [of "take n (drop k bs)" "drop n (drop k bs)"] n by (simp only: append_take_drop_id)
  moreover have "le_val (take n (drop k bs)) < 256 ^ n" using le_val_upper [of "take n (drop k bs)"] n by simp
  ultimately show ?thesis by simp
qed

lemma window_bits:
  fixes x :: nat
  assumes "s + e \<le> 64"
  shows "take_bit e (drop_bit s (take_bit 64 x)) = take_bit e (drop_bit s x)"
  by (rule bit_eqI) (use assms in \<open>auto simp: bit_take_bit_iff bit_drop_bit_eq\<close>)

lemma unat_mask_and:
  assumes "e < 64"
  shows "unat (v AND (push_bit e 1 - 1) :: u64) = unat v mod 2 ^ e"
proof -
  have "(push_bit e 1 - 1 :: u64) = mask e" by (simp add: mask_eq_exp_minus_1 push_bit_eq_mult)
  then have "v AND (push_bit e 1 - 1) = take_bit e v" by (simp add: take_bit_eq_mask)
  moreover have "unat (take_bit e v) = take_bit e (unat v)" by (rule unsigned_take_bit_eq)
  ultimately show ?thesis by (simp only: take_bit_eq_mod)
qed

lemma getBucketIndex_value:
  assumes m: "m_scalars m = bs" "unat (m_scalarSize m) = sz" "unat (m_bitsPerChunk m) = b"
    and sz: "8 \<le> sz" "sz < 2 ^ 28" and b: "3 \<le> b" "b \<le> 16"
    and i: "i * sz + sz \<le> length bs" "length bs < 2 ^ 62" and j: "j * b < 8 * sz"
  shows "unat (getBucketIndex m (of_nat i) (of_nat j)) = scalar_at bs sz i div 2 ^ (b * j) mod 2 ^ b"
proof -
  define bitStart where "bitStart = (of_nat j :: u64) * m_bitsPerChunk m"
  define byteStart where "byteStart = (if bitStart div 8 > m_scalarSize m - 8 then m_scalarSize m - 8 else bitStart div 8)"
  define eff where "eff = (if bitStart + m_bitsPerChunk m > m_scalarSize m * 8 then m_scalarSize m * 8 - bitStart else m_bitsPerChunk m)"
  define k where "k = min (j * b div 8) (sz - 8)"
  define e where "e = min b (8 * sz - j * b)"
  have jb: "j \<le> j * b" using b by simp
  have "sz < 268435456" using sz by simp
  then have "j < 18446744073709551616" using j jb by linarith
  then have uj: "unat (of_nat j :: u64) = j" by (simp add: unat_of_nat)
  have bitS: "unat bitStart = j * b"
    unfolding bitStart_def using j sz by (subst unat_mult64) (simp_all add: uj m)
  have sz8: "unat (m_scalarSize m - 8) = sz - 8" using sz m by (subst unat_sub64) simp_all
  have div8: "unat (bitStart div 8) = j * b div 8" by (simp add: unat_div bitS)
  have byteS: "unat byteStart = k"
    by (simp add: byteStart_def word_less_nat_alt sz8 div8 k_def min_def)
  have szm: "unat (m_scalarSize m * 8) = 8 * sz" using sz m by (subst unat_mult64) simp_all
  have sum: "unat (bitStart + m_bitsPerChunk m) = j * b + b" using j sz b m bitS by (subst unat_add64) simp_all
  have eff: "unat eff = e"
    using j by (auto simp: eff_def word_less_nat_alt szm sum e_def unat_sub64 bitS m)
  have ks: "8 * k \<le> j * b" "8 * k + 64 \<ge> j * b + e" using sz j b by (auto simp: k_def e_def min_def)
  have "unat (byteStart * 8) = 8 * k"
    using sz by (subst unat_mult64) (simp_all add: byteS k_def)
  then have sh: "unat (bitStart - byteStart * 8) = j * b - 8 * k"
    using ks by (subst unat_sub64) (simp_all add: bitS)
  have "i \<le> i * sz" using sz by simp
  moreover have "length bs < 4611686018427387904" using i by simp
  ultimately have "i < 18446744073709551616" using i by linarith
  then have ui: "unat (of_nat i :: u64) = i" by (simp add: unat_of_nat)
  have isz: "unat (of_nat i * m_scalarSize m :: u64) = i * sz" using i m by (subst unat_mult64) (simp_all add: ui)
  have addr: "unat (of_nat i * m_scalarSize m + byteStart :: u64) = i * sz + k"
    using i sz isz byteS by (subst unat_add64) (simp_all add: k_def)
  define S where "S = scalar_at bs sz i"
  have Sv: "le_val (take 8 (drop (i * sz + k) bs)) = S div 256 ^ k mod 256 ^ 8"
  proof -
    have "take 8 (drop (i * sz + k) bs) = take 8 (drop k (take sz (drop (i * sz) bs)))"
      using sz by (simp add: drop_take add.commute k_def min_def)
    then show ?thesis using le_val_take_drop [of k 8 "take sz (drop (i * sz) bs)"] i sz
      by (simp add: S_def scalar_at_def k_def)
  qed
  have word: "unat (of_nat (le_val (take 8 (drop (i * sz + k) bs))) :: u64) = take_bit 64 (drop_bit (8 * k) S)"
    unfolding Sv by (simp add: unat_of_nat take_bit_eq_mod drop_bit_eq_div power_mult)
  have "unat (getBucketIndex m (of_nat i) (of_nat j))
      = take_bit e (drop_bit (j * b - 8 * k) (take_bit 64 (drop_bit (8 * k) S)))"
  proof -
    have "e < 64" using b by (simp add: e_def)
    moreover have "getBucketIndex m (of_nat i) (of_nat j) = drop_bit (j * b - 8 * k)
        (of_nat (le_val (take 8 (drop (i * sz + k) bs)))) AND (push_bit e 1 - 1)"
      by (simp add: getBucketIndex_def Let_def m(1) addr eff sh flip: bitStart_def byteStart_def eff_def)
    ultimately show ?thesis
      by (simp only: unat_mask_and unsigned_drop_bit_eq) (simp add: word take_bit_eq_mod)
  qed
  also have "\<dots> = take_bit e (drop_bit (j * b) S)"
    using ks by (subst window_bits) (simp_all add: drop_bit_drop_bit)
  also have "\<dots> = S div 2 ^ (b * j) mod 2 ^ b"
  proof (cases "e = b")
    case True
    then show ?thesis by (simp add: take_bit_eq_mod drop_bit_eq_div mult.commute)
  next
    case False
    then have e': "e = 8 * sz - j * b" "e \<le> b" by (auto simp: e_def min_def)
    have "S < 2 ^ (8 * sz)"
      using le_val_upper [of "take sz (drop (i * sz) bs)"] i by (simp add: S_def scalar_at_def power_mult)
    then have "S div 2 ^ (j * b) < 2 ^ e"
      using j unfolding e' by (simp add: less_mult_imp_div_less flip: power_add)
    moreover have "(2::nat) ^ e \<le> 2 ^ b" using e' by (intro power_increasing) simp_all
    ultimately have "S div 2 ^ (j * b) < 2 ^ b" by (rule less_le_trans)
    then show ?thesis using \<open>S div 2 ^ (j * b) < 2 ^ e\<close> by (simp add: take_bit_eq_mod drop_bit_eq_div mult.commute)
  qed
  finally show ?thesis by (simp add: S_def)
qed

section \<open>The signed digits\<close>

text \<open>The recoding of the chunks of a number \<open>S\<close>: the digits and the carry after them.\<close>

primrec msm_carry :: "nat \<Rightarrow> nat \<Rightarrow> nat \<Rightarrow> int" where
  "msm_carry b S 0 = 0"
| "msm_carry b S (Suc j) = (if int (S div 2 ^ (b * j) mod 2 ^ b) + msm_carry b S j \<ge> 2 ^ (b - 1) then 1 else 0)"

definition msm_digit :: "nat \<Rightarrow> nat \<Rightarrow> nat \<Rightarrow> int" where
  "msm_digit b S j = int (S div 2 ^ (b * j) mod 2 ^ b) + msm_carry b S j - 2 ^ b * msm_carry b S (Suc j)"

lemma msm_carry_range: "msm_carry b S j \<in> {0, 1}"
  by (induction j) simp_all

lemma pow2_pred: "0 < b \<Longrightarrow> (2::'a::comm_semiring_1) ^ b = 2 * 2 ^ (b - 1)"
  by (cases b) simp_all

lemma msm_digit_range:
  assumes "0 < b"
  shows "- (2 ^ (b - 1)) \<le> msm_digit b S j" and "msm_digit b S j < 2 ^ (b - 1)"
proof -
  define v where "v = int (S div 2 ^ (b * j) mod 2 ^ b)"
  have v: "0 \<le> v" "v < 2 * 2 ^ (b - 1)"
    using pow2_pred [OF assms, where 'a = int] by (simp_all add: v_def zmod_int)
  have c: "msm_carry b S j = 0 \<or> msm_carry b S j = 1" using msm_carry_range [of b S j] by simp
  have "(0::int) < 2 ^ (b - 1)" by simp
  then show "- (2 ^ (b - 1)) \<le> msm_digit b S j" "msm_digit b S j < 2 ^ (b - 1)"
    using v c unfolding msm_digit_def msm_carry.simps pow2_pred [OF assms, where 'a = int] v_def [symmetric]
    by (simp_all split: if_splits) linarith+
qed

lemma msm_digits_sum:
  "(\<Sum>j < n. msm_digit b S j * 2 ^ (b * j)) + msm_carry b S n * 2 ^ (b * n) = int (S mod 2 ^ (b * n))"
proof (induction n)
  case (Suc n)
  have m: "S mod 2 ^ (b * Suc n) = S mod 2 ^ (b * n) + 2 ^ (b * n) * (S div 2 ^ (b * n) mod 2 ^ b)"
  proof -
    have "S mod 2 ^ (b * Suc n) = S mod (2 ^ (b * n) * 2 ^ b)" by (simp add: power_add mult.commute)
    also have "\<dots> = 2 ^ (b * n) * (S div 2 ^ (b * n) mod 2 ^ b) + S mod 2 ^ (b * n)" by (rule mod_mult2_eq)
    finally show ?thesis by simp
  qed
  have "(\<Sum>j < Suc n. msm_digit b S j * 2 ^ (b * j)) + msm_carry b S (Suc n) * 2 ^ (b * Suc n)
      = (\<Sum>j < n. msm_digit b S j * 2 ^ (b * j)) + msm_carry b S n * 2 ^ (b * n) + int (S div 2 ^ (b * n) mod 2 ^ b) * 2 ^ (b * n)"
    by (simp add: msm_digit_def algebra_simps power_add)
  also have "\<dots> = int (S mod 2 ^ (b * Suc n))" unfolding Suc.IH m by (simp add: mult.commute)
  finally show ?case .
qed simp

text \<open>When the two highest bits of the scalar are zero, nothing is carried out of the last chunk.\<close>

lemma msm_last_carry:
  assumes S: "S < 2 ^ (8 * sz - 2)" and b: "3 \<le> b" and sz: "0 < sz" and n: "n = (8 * sz - 1) div b + 1"
  shows "msm_carry b S n = 0" and "S mod 2 ^ (b * n) = S"
proof -
  define k where "k = (8 * sz - 1) div b"
  have k: "b * k \<le> 8 * sz - 1" "8 * sz - 1 < b * k + b"
    using b by (simp_all add: k_def) (metis dividend_less_times_div not_gr_zero not_numeral_le_zero add.commute mult.commute mult_Suc_right)
  have "S div 2 ^ (b * k) < 2 ^ (b - 2)"
  proof (cases "b * k \<le> 8 * sz - 2")
    case True
    have "b * k + (8 * sz - 2 - b * k) = 8 * sz - 2" using True by simp
    then have "S < 2 ^ (b * k) * 2 ^ (8 * sz - 2 - b * k)" using S by (simp only: flip: power_add)
    then have "S div 2 ^ (b * k) < 2 ^ (8 * sz - 2 - b * k)" by (simp add: less_mult_imp_div_less mult.commute)
    also have "(2::nat) ^ (8 * sz - 2 - b * k) \<le> 2 ^ (b - 2)" using k by (intro power_increasing) simp_all
    finally show ?thesis .
  next
    case False
    then have "(2::nat) ^ (8 * sz - 2) \<le> 2 ^ (b * k)" by (intro power_increasing) simp_all
    then have "S < 2 ^ (b * k)" using S by (rule less_le_trans [rotated])
    then show ?thesis by simp
  qed
  moreover have "(2::nat) ^ (b - 1) = 2 * 2 ^ (b - 2)" using b pow2_pred [of "b - 1", where 'a = nat] by (simp add: numeral_2_eq_2)
  moreover have "S div 2 ^ (b * k) mod 2 ^ b \<le> S div 2 ^ (b * k)" by simp
  moreover have "(1::nat) \<le> 2 ^ (b - 2)" by simp
  ultimately have "S div 2 ^ (b * k) mod 2 ^ b + 1 < 2 ^ (b - 1) \<or> S div 2 ^ (b * k) mod 2 ^ b + 1 \<le> 2 ^ (b - 2)" by linarith
  then have "S div 2 ^ (b * k) mod 2 ^ b + 1 < 2 ^ (b - 1)" using \<open>(2::nat) ^ (b - 1) = 2 * 2 ^ (b - 2)\<close> \<open>(1::nat) \<le> 2 ^ (b - 2)\<close> by linarith
  then have "int (S div 2 ^ (b * k) mod 2 ^ b + 1) < int (2 ^ (b - 1))" by (simp only: of_nat_less_iff)
  moreover have "msm_carry b S k \<le> 1" using msm_carry_range [of b S k] by auto
  ultimately have "int (S div 2 ^ (b * k) mod 2 ^ b) + msm_carry b S k < 2 ^ (b - 1)" by simp
  moreover have nk: "n = Suc k" by (simp add: n k_def)
  ultimately show "msm_carry b S n = 0" by simp
  have "S < 2 ^ (8 * sz - 2)" by (rule S)
  also have "(2::nat) ^ (8 * sz - 2) \<le> 2 ^ (b * n)" using k by (intro power_increasing) (simp_all add: nk)
  finally show "S mod 2 ^ (b * n) = S" by simp
qed

section \<open>The first loop\<close>

lemma slice_fold:
  assumes "\<And>j. j < n \<Longrightarrow> int (unat (getBucketIndex m (of_nat i) (of_nat j))) = int (S div 2 ^ (b * j) mod 2 ^ b)"
    and "nBuckets = 2 ^ (b - 1)" "0 < b"
  shows "fold (slice_step m nChunks nBuckets i) [0..<n] (0, sl)
    = (msm_carry b S n, \<lambda>k. if i * nChunks \<le> k \<and> k < i * nChunks + n then msm_digit b S (k - i * nChunks) else sl k)"
  using assms(1)
proof (induction n)
  case (Suc n)
  let ?sl = "\<lambda>k. if i * nChunks \<le> k \<and> k < i * nChunks + n then msm_digit b S (k - i * nChunks) else sl k"
  have "fold (slice_step m nChunks nBuckets i) [0..<Suc n] (0, sl) = slice_step m nChunks nBuckets i n (msm_carry b S n, ?sl)"
    using Suc by simp
  also have "\<dots> = (msm_carry b S (Suc n), ?sl(i * nChunks + n := msm_digit b S n))"
    using Suc.prems [of n] assms(2) pow2_pred [OF assms(3), where 'a = int]
    by (simp add: slice_step_def Let_def msm_digit_def mult.commute)
  also have "?sl(i * nChunks + n := msm_digit b S n)
      = (\<lambda>k. if i * nChunks \<le> k \<and> k < i * nChunks + Suc n then msm_digit b S (k - i * nChunks) else sl k)"
    by (rule ext) (auto simp: less_Suc_eq)
  finally show ?case .
qed auto

end
