(* ===== verification/MsmCorrect.thy ===== *)
theory MsmCorrect
  imports MsmDigits
begin

text \<open>
  The multi-scalar multiplication computes the sum of the multiples: for every base field that
  keeps the contract of \<open>base_field\<close>, every number of threads and every schedule.
\<close>

section \<open>The buckets of a chunk\<close>

text \<open>How often a point with digit \<open>d\<close> counts in bucket \<open>k\<close>.\<close>

definition bucket_weight :: "int \<Rightarrow> nat \<Rightarrow> int" where
  "bucket_weight d k = (if d = int k + 1 then 1 else if d = - (int k + 1) then - 1 else 0)"

lemma bucket_weight_sum:
  assumes "- int n \<le> d" "d \<le> int n"
  shows "(\<Sum>k < n. (int k + 1) * bucket_weight d k) = d"
proof (cases "d = 0")
  case True
  then show ?thesis by (auto simp: bucket_weight_def intro!: sum.neutral)
next
  case False
  define k0 where "k0 = nat (\<bar>d\<bar> - 1)"
  have k0: "k0 < n" "int k0 + 1 = \<bar>d\<bar>" using assms False by (auto simp: k0_def)
  have "(\<Sum>k < n. (int k + 1) * bucket_weight d k) = (\<Sum>k < n. if k = k0 then d else 0)"
  proof (rule sum.cong)
    fix k assume "k \<in> {..<n}"
    have "k = k0 \<longleftrightarrow> int k + 1 = \<bar>d\<bar>" using k0(2) by auto
    then show "(int k + 1) * bucket_weight d k = (if k = k0 then d else 0)"
      by (cases "0 \<le> d") (auto simp: bucket_weight_def)
  qed simp
  also have "\<dots> = d" using k0(1) by simp
  finally show ?thesis .
qed

context curve_field
begin

abbreviation psum :: "(nat \<Rightarrow> 'a apoint) \<Rightarrow> nat \<Rightarrow> 'a apoint" where
  "psum \<equiv> nsum (aadd (ev aa)) Infinity"

abbreviation cpoints :: "'a apoint set" where
  "cpoints \<equiv> Collect (on_curve (ev aa) (ev ab))"

lemma clear_buckets_get:
  "clear_buckets C row n s p = (if \<exists>k < n. p = PBucket (row + k) then fzero C else s p)"
  by (induction n) (auto simp: clear_buckets_def less_Suc_eq)

lemma bucket_point_rep:
  assumes base: "ra base p" and s: "rp (s (PBucket (row + k))) v"
  shows "rp (bucket_point F C row d base s (PBucket (row + k))) (aadd (ev aa) v (smul (bucket_weight d k) p))"
proof -
  have c: "on_curve (ev aa) (ev ab) v" "on_curve (ev aa) (ev ab) p" using rep_p_on_curve s rep_a_on_curve base by blast+
  have "d > 0 \<Longrightarrow> nat (d - 1) = k \<longleftrightarrow> d = int k + 1" "d < 0 \<Longrightarrow> nat (- d - 1) = k \<longleftrightarrow> d = - (int k + 1)" by auto
  then show ?thesis
    using s xyzz_add_mixed_rep [OF s base] xyzz_add_mixed_rep [OF s neg_aa_rep [OF base]] c
    by (auto simp: bucket_point_def store_simps bucket_weight_def grp.zmul_1 grp.zmul_minus_1)
qed

lemma bucket_point_frame: "\<forall>k. p \<noteq> PBucket k \<Longrightarrow> bucket_point F C row d base s p = s p"
  by (simp add: bucket_point_def store_simps)

lemma fill_buckets_rep:
  assumes "\<And>i. i < n \<Longrightarrow> ra (bases ! i) (P i)" and "rp (s (PBucket (row + k))) Infinity"
  shows "rp (fill_buckets F C row nChunks bases sl n j s (PBucket (row + k)))
    (psum (\<lambda>i. smul (bucket_weight (sl (i * nChunks + j)) k) (P i)) n)"
  using assms(1)
proof (induction n)
  case 0
  then show ?case using assms(2) by (simp add: fill_buckets_def)
next
  case (Suc n)
  then show ?case using bucket_point_rep [of "bases ! n" "P n"] by (simp add: fill_buckets_def)
qed

lemma fill_buckets_frame: "\<forall>k. p \<noteq> PBucket k \<Longrightarrow> fill_buckets F C row nChunks bases sl n j s p = s p"
  by (induction n) (simp_all add: fill_buckets_def bucket_point_frame)

section \<open>The weighted sum of the buckets\<close>

abbreviation upper_sum :: "(nat \<Rightarrow> 'a apoint) \<Rightarrow> nat \<Rightarrow> nat \<Rightarrow> 'a apoint" where
  "upper_sum b n i \<equiv> psum (\<lambda>k. b (i + k)) (n - i)"

abbreviation upper_weighted :: "(nat \<Rightarrow> 'a apoint) \<Rightarrow> nat \<Rightarrow> nat \<Rightarrow> 'a apoint" where
  "upper_weighted b n i \<equiv> psum (\<lambda>k. smul (int k + 1) (b (i + k))) (n - i)"

lemma upper_step:
  assumes b: "\<And>k. k < n \<Longrightarrow> b k \<in> cpoints" and i: "i < n"
  shows "upper_sum b n i = aadd (ev aa) (upper_sum b n (Suc i)) (b i)"
    and "upper_weighted b n i = aadd (ev aa) (upper_weighted b n (Suc i)) (upper_sum b n i)"
proof -
  define m where "m = n - Suc i"
  have m: "n - i = Suc m" using i by (simp add: m_def)
  have c: "b (i + k) \<in> cpoints" if "k \<le> m" for k using b i that by (simp add: m_def)
  have c': "b (i + Suc k) \<in> cpoints" if "k < m" for k using c [of "Suc k"] that by simp
  have U: "psum (\<lambda>k. b (i + Suc k)) m \<in> cpoints" by (intro grp.nsum_closed c')
  have V: "psum (\<lambda>k. smul (int k + 1) (b (i + Suc k))) m \<in> cpoints" by (intro grp.nsum_closed grp.zmul_closed c')
  have "upper_sum b n i = aadd (ev aa) (b i) (psum (\<lambda>k. b (i + Suc k)) m)"
    unfolding m using grp.nsum_head [of m "\<lambda>k. b (i + k)"] c by simp
  then show US: "upper_sum b n i = aadd (ev aa) (upper_sum b n (Suc i)) (b i)"
    using grp.plus_comm [OF c [of 0] U] by (simp add: m_def)
  have "upper_weighted b n i = aadd (ev aa) (smul (int 0 + 1) (b (i + 0))) (psum (\<lambda>k. smul (int (Suc k) + 1) (b (i + Suc k))) m)"
    unfolding m by (intro grp.nsum_head grp.zmul_closed c)
  also have "psum (\<lambda>k. smul (int (Suc k) + 1) (b (i + Suc k))) m
      = psum (\<lambda>k. aadd (ev aa) (smul (int k + 1) (b (i + Suc k))) (b (i + Suc k))) m"
  proof (rule grp.nsum_cong)
    fix k assume "k < m"
    then have k: "b (i + Suc k) \<in> cpoints" by (rule c')
    have "smul (int k + 1 + 1) (b (i + Suc k)) = aadd (ev aa) (b (i + Suc k)) (smul (int k + 1) (b (i + Suc k)))"
      by (rule grp.zmul_succ [OF k])
    then show "smul (int (Suc k) + 1) (b (i + Suc k)) = aadd (ev aa) (smul (int k + 1) (b (i + Suc k))) (b (i + Suc k))"
      using grp.plus_comm [OF k grp.zmul_closed [OF k]] by (simp add: add.commute add.left_commute)
  qed
  also have "\<dots> = aadd (ev aa) (psum (\<lambda>k. smul (int k + 1) (b (i + Suc k))) m) (psum (\<lambda>k. b (i + Suc k)) m)"
    using c' by (intro grp.nsum_plus conjI grp.zmul_closed)
  finally show "upper_weighted b n i = aadd (ev aa) (upper_weighted b n (Suc i)) (upper_sum b n i)"
    using c [of 0] U V grp.zmul_1 [OF c [of 0]] unfolding US
    by (simp add: m_def grp.plus_left_comm grp.plus_comm)
qed

lemma sum_buckets_loop:
  assumes b: "\<And>k. k < n \<Longrightarrow> rp (s (PBucket (row + k))) (b k)" and "i < n"
    and "rp (s (PTmp 4)) (upper_sum b n i)" "rp (s (PTmp 3)) (upper_weighted b n i)"
  defines "s' \<equiv> fold (\<lambda>i s. let s = add_ppp F C (PTmp 4) (PTmp 4) (PBucket (row + i)) s
       in add_ppp F C (PTmp 3) (PTmp 3) (PTmp 4) s) (rev [0..<i]) s"
  shows "rp (s' (PTmp 3)) (upper_weighted b n 0) \<and> (\<forall>p. p \<noteq> PTmp 3 \<and> p \<noteq> PTmp 4 \<longrightarrow> s' p = s p)"
  using assms(1-4) unfolding s'_def
proof (induction i arbitrary: s)
  case (Suc i)
  have c: "b k \<in> cpoints" if "k < n" for k using Suc.prems(1) that rep_p_on_curve by blast
  have i: "i < n" using Suc.prems(2) by simp
  define s1 where "s1 = s(PTmp 4 := xyzz_add F C (s (PTmp 4)) (s (PBucket (row + i))))"
  define s2 where "s2 = s1(PTmp 3 := xyzz_add F C (s1 (PTmp 3)) (s1 (PTmp 4)))"
  have 1: "rp (s1 (PTmp 4)) (upper_sum b n i)"
    using xyzz_add_rep [OF Suc.prems(3) Suc.prems(1) [OF i]] upper_step(1) [of n b, OF c i] by (simp add: s1_def)
  have 2: "rp (s2 (PTmp 3)) (upper_weighted b n i)"
    using xyzz_add_rep [OF Suc.prems(4) 1] upper_step(2) [of n b, OF c i] by (simp add: s2_def s1_def)
  have "rp (fold (\<lambda>i s. let s = add_ppp F C (PTmp 4) (PTmp 4) (PBucket (row + i)) s
       in add_ppp F C (PTmp 3) (PTmp 3) (PTmp 4) s) (rev [0..<i]) s2 (PTmp 3)) (upper_weighted b n 0)
     \<and> (\<forall>p. p \<noteq> PTmp 3 \<and> p \<noteq> PTmp 4 \<longrightarrow> fold (\<lambda>i s. let s = add_ppp F C (PTmp 4) (PTmp 4) (PBucket (row + i)) s
       in add_ppp F C (PTmp 3) (PTmp 3) (PTmp 4) s) (rev [0..<i]) s2 p = s2 p)"
    using Suc.prems(1) i 1 2 by (intro Suc.IH) (simp_all add: s2_def s1_def)
  moreover have "add_ppp F C (PTmp 3) (PTmp 3) (PTmp 4) (add_ppp F C (PTmp 4) (PTmp 4) (PBucket (row + i)) s) = s2"
    by (simp add: s1_def s2_def store_simps)
  ultimately show ?case by (simp add: s1_def s2_def)
qed simp

lemma sum_buckets_rep:
  assumes b: "\<And>k. k < n \<Longrightarrow> rp (s (PBucket (row + k))) (b k)" and n: "0 < n"
  shows "rp (sum_buckets F C row n s (PTmp 3)) (psum (\<lambda>k. smul (int k + 1) (b k)) n)
    \<and> (\<forall>p. p \<noteq> PTmp 3 \<and> p \<noteq> PTmp 4 \<longrightarrow> sum_buckets F C row n s p = s p)"
proof -
  have c: "b (n - 1) \<in> cpoints" using rep_p_on_curve [OF b [of "n - 1"]] n by simp
  have one: "n - (n - 1) = Suc 0" using n by simp
  let ?s = "s(PTmp 3 := s (PBucket (row + (n - 1))), PTmp 4 := s (PBucket (row + (n - 1))))"
  have "rp (s (PBucket (row + (n - 1)))) (b (n - 1))" by (rule b) (use n in simp)
  then have "rp (?s (PTmp 4)) (upper_sum b n (n - 1))" "rp (?s (PTmp 3)) (upper_weighted b n (n - 1))"
    using c unfolding one by (simp_all add: grp.zmul_1)
  then show ?thesis
    using sum_buckets_loop [of n ?s row b "n - 1"] b n by (simp add: sum_buckets_def Let_def)
qed

lemma sum_of_buckets:
  assumes P: "\<And>i. i < n \<Longrightarrow> P i \<in> cpoints" and d: "\<And>i. i < n \<Longrightarrow> - int m \<le> d i \<and> d i \<le> int m"
  shows "psum (\<lambda>k. smul (int k + 1) (psum (\<lambda>i. smul (bucket_weight (d i) k) (P i)) n)) m = psum (\<lambda>i. smul (d i) (P i)) n"
proof -
  have "psum (\<lambda>k. smul (int k + 1) (psum (\<lambda>i. smul (bucket_weight (d i) k) (P i)) n)) m
      = psum (\<lambda>k. psum (\<lambda>i. smul ((int k + 1) * bucket_weight (d i) k) (P i)) n) m"
  proof (rule grp.nsum_cong)
    fix k
    have "smul (int k + 1) (psum (\<lambda>i. smul (bucket_weight (d i) k) (P i)) n)
        = psum (\<lambda>i. smul (int k + 1) (smul (bucket_weight (d i) k) (P i))) n"
      by (intro grp.zmul_nsum grp.zmul_closed P)
    also have "\<dots> = psum (\<lambda>i. smul ((int k + 1) * bucket_weight (d i) k) (P i)) n"
      by (intro grp.nsum_cong grp.zmul_zmul P)
    finally show "smul (int k + 1) (psum (\<lambda>i. smul (bucket_weight (d i) k) (P i)) n)
        = psum (\<lambda>i. smul ((int k + 1) * bucket_weight (d i) k) (P i)) n" .
  qed
  also have "\<dots> = psum (\<lambda>i. psum (\<lambda>k. smul ((int k + 1) * bucket_weight (d i) k) (P i)) m) n"
    by (intro grp.nsum_swap grp.zmul_closed P)
  also have "\<dots> = psum (\<lambda>i. smul (d i) (P i)) n"
  proof (rule grp.nsum_cong)
    fix i assume i: "i < n"
    show "psum (\<lambda>k. smul ((int k + 1) * bucket_weight (d i) k) (P i)) m = smul (d i) (P i)"
      unfolding grp.nsum_zmul [OF P [OF i]] using bucket_weight_sum [of m "d i"] d [OF i] by simp
  qed
  finally show ?thesis .
qed

text \<open>One chunk: whatever the buckets held before, the sum of the points times their digits.\<close>

lemma process_chunk_rep:
  assumes bases: "\<And>i. i < n \<Longrightarrow> ra (bases ! i) (P i)" and m: "0 < m"
    and d: "\<And>i. i < n \<Longrightarrow> - int m \<le> sl (i * nChunks + j) \<and> sl (i * nChunks + j) \<le> int m"
  shows "rp (process_chunk F C m nChunks n bases sl t j s (PChunk j)) (psum (\<lambda>i. smul (sl (i * nChunks + j)) (P i)) n)
    \<and> (\<forall>p. (\<forall>k. p \<noteq> PBucket k) \<and> p \<noteq> PTmp 3 \<and> p \<noteq> PTmp 4 \<and> p \<noteq> PChunk j
        \<longrightarrow> process_chunk F C m nChunks n bases sl t j s p = s p)"
proof -
  define s1 where "s1 = clear_buckets C (t * m) m s"
  define s2 where "s2 = fill_buckets F C (t * m) nChunks bases sl n j s1"
  define b where "b k = psum (\<lambda>i. smul (bucket_weight (sl (i * nChunks + j)) k) (P i)) n" for k
  have P: "P i \<in> cpoints" if "i < n" for i using rep_a_on_curve [OF bases [OF that]] by simp
  have "rp (s1 (PBucket (t * m + k))) Infinity" if "k < m" for k
    using that fzero_rep by (auto simp: s1_def clear_buckets_get)
  then have b: "rp (s2 (PBucket (t * m + k))) (b k)" if "k < m" for k
    using that fill_buckets_rep [OF bases] by (simp add: s2_def b_def)
  note sb = sum_buckets_rep [of m s2 "t * m" b, OF b m]
  have "psum (\<lambda>k. smul (int k + 1) (b k)) m = psum (\<lambda>i. smul (sl (i * nChunks + j)) (P i)) n"
    unfolding b_def by (rule sum_of_buckets [OF P d])
  moreover have "process_chunk F C m nChunks n bases sl t j s
      = (sum_buckets F C (t * m) m s2)(PChunk j := sum_buckets F C (t * m) m s2 (PTmp 3))"
    by (simp add: process_chunk_def Let_def s1_def s2_def)
  ultimately show ?thesis
    using sb by (auto simp: s2_def s1_def fill_buckets_frame clear_buckets_get)
qed

section \<open>The loops over the chunks\<close>

lemma process_chunks_rep:
  fixes s :: "'e pstore"
  assumes bases: "\<And>i. i < n \<Longrightarrow> ra (bases ! i) (P i)" and m: "0 < m"
    and d: "\<And>i j. i < n \<Longrightarrow> j < nChunks \<Longrightarrow> - int m \<le> sl (i * nChunks + j) \<and> sl (i * nChunks + j) \<le> int m"
    and sched: "\<And>n. schedule nThreads n (sched n)" "0 < nThreads"
  defines "s' \<equiv> parallelFor nThreads sched 0 (int nChunks) (process_chunks F C m nChunks n bases sl) s"
  shows "(\<forall>j < nChunks. rp (s' (PChunk j)) (psum (\<lambda>i. smul (sl (i * nChunks + j)) (P i)) n)) \<and> (\<forall>v. s' (PVar v) = s (PVar v))"
proof -
  define Q where "Q E s' \<longleftrightarrow> (\<forall>j. int j \<in> E \<longrightarrow> rp (s' (PChunk j)) (psum (\<lambda>i. smul (sl (i * nChunks + j)) (P i)) n))
    \<and> (\<forall>v. s' (PVar v) = s (PVar v))" for E s'
  have step: "Q (insert (int j) E) (process_chunk F C m nChunks n bases sl t j s')" if "Q E s'" "j < nChunks" for E s' t j
  proof -
    have pc: "rp (process_chunk F C m nChunks n bases sl t j s' (PChunk j)) (psum (\<lambda>i. smul (sl (i * nChunks + j)) (P i)) n)
        \<and> (\<forall>p. (\<forall>k. p \<noteq> PBucket k) \<and> p \<noteq> PTmp 3 \<and> p \<noteq> PTmp 4 \<and> p \<noteq> PChunk j
          \<longrightarrow> process_chunk F C m nChunks n bases sl t j s' p = s' p)"
      using that(2) by (intro process_chunk_rep bases m d)
    have "rp (process_chunk F C m nChunks n bases sl t j s' (PChunk k)) (psum (\<lambda>i. smul (sl (i * nChunks + k)) (P i)) n)"
      if "int k \<in> insert (int j) E" for k
      using pc \<open>Q E s'\<close> that by (cases "k = j") (auto simp: Q_def)
    then show ?thesis using pc that(1) by (simp add: Q_def)
  qed
  have loop: "Q (E \<union> set js) (fold (\<lambda>j. process_chunk F C m nChunks n bases sl t (nat j)) js s')"
    if "Q E s'" "set js \<subseteq> {0..<int nChunks}" for E s' t js
    using that
  proof (induction js arbitrary: E s')
    case (Cons j js)
    then have "Q (insert (int (nat j)) E) (process_chunk F C m nChunks n bases sl t (nat j) s')" by (intro step) auto
    then have "Q (insert j E \<union> set js) (fold (\<lambda>j. process_chunk F C m nChunks n bases sl t (nat j)) js
        (process_chunk F C m nChunks n bases sl t (nat j) s'))"
      using Cons.prems by (intro Cons.IH) simp_all
    then show ?case by simp
  qed simp
  have "Q {0..<int nChunks} s'"
    unfolding s'_def
  proof (rule parallelFor_rule [where Q = Q, OF sched])
    fix E b e t s' assume "Q E s'" "{b..<e} \<subseteq> {0..<int nChunks}"
    then show "Q (E \<union> {b..<e}) (process_chunks F C m nChunks n bases sl b e t s')"
      using loop [of E s' "[b..e - 1]" t] by (simp add: process_chunks_def atLeastAtMost_def atLeastLessThan_def lessThan_def atMost_def)
  qed (simp add: Q_def)
  then show ?thesis by (simp add: Q_def)
qed

abbreviation horner :: "nat \<Rightarrow> (nat \<Rightarrow> 'a apoint) \<Rightarrow> nat \<Rightarrow> nat \<Rightarrow> 'a apoint" where
  "horner b V n i \<equiv> psum (\<lambda>k. smul (2 ^ (b * k)) (V (i + k))) (n - i)"

lemma horner_step:
  assumes V: "\<And>k. k < n \<Longrightarrow> V k \<in> cpoints" and i: "i < n"
  shows "horner b V n i = aadd (ev aa) (smul (2 ^ b) (horner b V n (Suc i))) (V i)"
proof -
  define m where "m = n - Suc i"
  have m: "n - i = Suc m" using i by (simp add: m_def)
  have c: "V (i + k) \<in> cpoints" if "k \<le> m" for k using V i that by (simp add: m_def)
  have c': "V (i + Suc k) \<in> cpoints" if "k < m" for k using c [of "Suc k"] that by simp
  have "horner b V n i = aadd (ev aa) (smul (2 ^ (b * 0)) (V (i + 0))) (psum (\<lambda>k. smul (2 ^ (b * Suc k)) (V (i + Suc k))) m)"
    unfolding m by (intro grp.nsum_head grp.zmul_closed c)
  also have "psum (\<lambda>k. smul (2 ^ (b * Suc k)) (V (i + Suc k))) m = psum (\<lambda>k. smul (2 ^ b) (smul (2 ^ (b * k)) (V (i + Suc k)))) m"
    by (rule grp.nsum_cong) (use grp.zmul_zmul c' in \<open>simp add: power_add\<close>)
  also have "\<dots> = smul (2 ^ b) (psum (\<lambda>k. smul (2 ^ (b * k)) (V (i + Suc k))) m)"
    by (intro grp.zmul_nsum [symmetric] grp.zmul_closed c')
  finally have "horner b V n i = aadd (ev aa) (V i) (smul (2 ^ b) (horner b V n (Suc i)))"
    using grp.zmul_1 [OF c [of 0]] by (simp add: m_def)
  moreover have "smul (2 ^ b) (horner b V n (Suc i)) \<in> cpoints"
    using c' by (intro grp.zmul_closed grp.nsum_closed) (simp add: m_def)
  ultimately show ?thesis using grp.plus_comm [OF V [OF i]] by simp
qed

lemma dbl_iter_rep: "rp (s r) v \<Longrightarrow> rp ((dbl_pp F C r r ^^ n) s r) (smul (2 ^ n) v)
    \<and> (\<forall>p. p \<noteq> r \<longrightarrow> (dbl_pp F C r r ^^ n) s p = s p)"
proof (induction n)
  case 0
  then show ?case using rep_p_on_curve by (fastforce simp: grp.zmul_1)
next
  case (Suc n)
  have "v \<in> cpoints" using Suc.prems rep_p_on_curve by fastforce
  then show ?case using Suc xyzz_dbl_rep by (auto simp: store_simps grp.zmul_double)
qed

lemma combine_loop:
  assumes "\<And>j. j < n \<Longrightarrow> rp (s (PChunk j)) (V j)" and "i < n" and "rp (s r) (horner b V n i)" and r: "r = PVar v"
  defines "s' \<equiv> fold (\<lambda>j s. add_ppp F C r r (PChunk j) ((dbl_pp F C r r ^^ b) s)) (rev [0..<i]) s"
  shows "rp (s' r) (horner b V n 0) \<and> (\<forall>p. p \<noteq> r \<longrightarrow> s' p = s p)"
  using assms(1-3) unfolding s'_def
proof (induction i arbitrary: s)
  case (Suc i)
  define s1 where "s1 = (dbl_pp F C r r ^^ b) s"
  define s2 where "s2 = add_ppp F C r r (PChunk i) s1"
  have c: "V j \<in> cpoints" if "j < n" for j using rep_p_on_curve [OF Suc.prems(1) [OF that]] by simp
  have i: "i < n" using Suc.prems(2) by simp
  have 1: "rp (s1 r) (smul (2 ^ b) (horner b V n (Suc i)))" "\<And>p. p \<noteq> r \<Longrightarrow> s1 p = s p"
    using dbl_iter_rep [where n = b and s = s and r = r and v = "horner b V n (Suc i)"] Suc.prems(3) by (simp_all add: s1_def)
  have "rp (s1 (PChunk i)) (V i)" using 1(2) Suc.prems(1) [OF i] r by simp
  then have "rp (s2 r) (aadd (ev aa) (smul (2 ^ b) (horner b V n (Suc i))) (V i))"
    using xyzz_add_rep [OF 1(1)] by (simp add: s2_def store_simps)
  then have 2: "rp (s2 r) (horner b V n i)" using horner_step [where V = V, OF c i] by simp
  have 3: "s2 p = s p" if "p \<noteq> r" for p using 1(2) that by (simp add: s2_def store_simps)
  then have "rp (fold (\<lambda>j s. add_ppp F C r r (PChunk j) ((dbl_pp F C r r ^^ b) s)) (rev [0..<i]) s2 r) (horner b V n 0)
      \<and> (\<forall>p. p \<noteq> r \<longrightarrow> fold (\<lambda>j s. add_ppp F C r r (PChunk j) ((dbl_pp F C r r ^^ b) s)) (rev [0..<i]) s2 p = s2 p)"
    using Suc.prems(1) i r 2 3 by (intro Suc.IH) simp_all
  then show ?case using 3 by (simp add: s2_def s1_def)
qed simp

lemma combine_chunks_rep:
  assumes V: "\<And>j. j < n \<Longrightarrow> rp (s (PChunk j)) (V j)" and n: "0 < n" and r: "r = PVar v"
  shows "rp (combine_chunks F C b n r s r) (psum (\<lambda>k. smul (2 ^ (b * k)) (V k)) n)
    \<and> (\<forall>p. p \<noteq> r \<longrightarrow> combine_chunks F C b n r s p = s p)"
proof -
  have one: "n - (n - 1) = Suc 0" using n by simp
  have "V (n - 1) \<in> cpoints" using rep_p_on_curve [OF V [of "n - 1"]] n by simp
  then have "rp ((s(r := s (PChunk (n - 1)))) r) (horner b V n (n - 1))"
    using V [of "n - 1"] n unfolding one by (simp add: grp.zmul_1)
  then show ?thesis
    using combine_loop [of n "s(r := s (PChunk (n - 1)))" V "n - 1" r b v] V n r by (simp add: combine_chunks_def)
qed

section \<open>The whole\<close>

text \<open>The digits after the first loop; \<open>S\<close> are the scalars.\<close>

lemma slice_scalars_rep:
  assumes m: "m_scalars m = bs" "unat (m_scalarSize m) = sz" "unat (m_bitsPerChunk m) = b"
    and sz: "8 \<le> sz" "sz < 2 ^ 28" and b: "3 \<le> b" "b \<le> 16"
    and len: "n * sz \<le> length bs" "length bs < 2 ^ 62" and nC: "nChunks = (8 * sz - 1) div b + 1"
    and sched: "\<And>n. schedule nThreads n (sched n)" "0 < nThreads"
    and i: "i < n" and j: "j < nChunks"
  shows "parallelFor nThreads sched 0 (int n) (slice_scalars m nChunks (2 ^ (b - 1))) garbage (i * nChunks + j)
    = msm_digit b (scalar_at bs sz i) j"
proof -
  define Q where "Q E sl \<longleftrightarrow> (\<forall>i. int i \<in> E \<longrightarrow> (\<forall>j < nChunks. sl (i * nChunks + j) = msm_digit b (scalar_at bs sz i) j))" for E sl
  have fits: "j * b < 8 * sz" if "j < nChunks" for j
  proof -
    have "j \<le> (8 * sz - 1) div b" using that nC by simp
    then have "j * b \<le> (8 * sz - 1) div b * b" by simp
    also have "\<dots> \<le> 8 * sz - 1" by (rule div_times_less_eq_dividend)
    finally show ?thesis using sz by linarith
  qed
  have step: "Q (insert (int i) E) (slice_scalar m nChunks (2 ^ (b - 1)) i sl)" if "Q E sl" "i < n" for E sl i
  proof -
    have "Suc i * sz \<le> n * sz" using that by (intro mult_le_mono1) simp
    then have "i * sz + sz \<le> length bs" using len by simp
    then have "fold (slice_step m nChunks (2 ^ (b - 1)) i) [0..<nChunks] (0, sl)
      = (msm_carry b (scalar_at bs sz i) nChunks, \<lambda>k. if i * nChunks \<le> k \<and> k < i * nChunks + nChunks
          then msm_digit b (scalar_at bs sz i) (k - i * nChunks) else sl k)"
      using getBucketIndex_value [OF m sz b _ len(2) fits, of i] b by (intro slice_fold) (simp_all add: zmod_int)
    then have slice: "slice_scalar m nChunks (2 ^ (b - 1)) i sl k = (if i * nChunks \<le> k \<and> k < i * nChunks + nChunks
        then msm_digit b (scalar_at bs sz i) (k - i * nChunks) else sl k)" for k
      by (simp add: slice_scalar_def)
    have other: "\<not> (i * nChunks \<le> i' * nChunks + j \<and> i' * nChunks + j < i * nChunks + nChunks)" if "i' \<noteq> i" "j < nChunks" for i' j
    proof (cases "i' < i")
      case True
      then have "Suc i' * nChunks \<le> i * nChunks" by (intro mult_le_mono1) simp
      then show ?thesis using that by simp
    next
      case False
      then have "Suc i * nChunks \<le> i' * nChunks" using that by (intro mult_le_mono1) simp
      then show ?thesis by simp
    qed
    have "slice_scalar m nChunks (2 ^ (b - 1)) i sl (i' * nChunks + j) = msm_digit b (scalar_at bs sz i') j"
      if "int i' \<in> insert (int i) E" "j < nChunks" for i' j
      using \<open>Q E sl\<close> other [of i' j] that unfolding slice by (cases "i' = i") (auto simp: Q_def)
    then show ?thesis by (simp add: Q_def)
  qed
  have loop: "Q (E \<union> set js) (fold (\<lambda>i. slice_scalar m nChunks (2 ^ (b - 1)) (nat i)) js sl)"
    if "Q E sl" "set js \<subseteq> {0..<int n}" for E sl js
    using that
  proof (induction js arbitrary: E sl)
    case (Cons i js)
    then have "Q (insert (int (nat i)) E) (slice_scalar m nChunks (2 ^ (b - 1)) (nat i) sl)" by (intro step) auto
    then have "Q (insert i E \<union> set js) (fold (\<lambda>i. slice_scalar m nChunks (2 ^ (b - 1)) (nat i)) js
        (slice_scalar m nChunks (2 ^ (b - 1)) (nat i) sl))"
      using Cons.prems by (intro Cons.IH) simp_all
    then show ?case by simp
  qed simp
  have "Q {0..<int n} (parallelFor nThreads sched 0 (int n) (slice_scalars m nChunks (2 ^ (b - 1))) garbage)"
  proof (rule parallelFor_rule [where Q = Q, OF sched])
    fix E b' e t sl assume "Q E sl" "{b'..<e} \<subseteq> {0..<int n}"
    then show "Q (E \<union> {b'..<e}) (slice_scalars m nChunks (2 ^ (b - 1)) b' e t sl)"
      using loop [of E sl "[b'..e - 1]"] by (simp add: slice_scalars_def atLeastAtMost_def atLeastLessThan_def lessThan_def atMost_def)
  qed (simp add: Q_def)
  then show ?thesis using i j by (simp add: Q_def)
qed

lemma sum_of_chunks:
  assumes P: "\<And>i. i < n \<Longrightarrow> P i \<in> cpoints"
  shows "psum (\<lambda>k. smul (2 ^ (b * k)) (psum (\<lambda>i. smul (d i k) (P i)) n)) m
    = psum (\<lambda>i. smul (\<Sum>k < m. d i k * 2 ^ (b * k)) (P i)) n"
proof -
  have "psum (\<lambda>k. smul (2 ^ (b * k)) (psum (\<lambda>i. smul (d i k) (P i)) n)) m
      = psum (\<lambda>k. psum (\<lambda>i. smul (d i k * 2 ^ (b * k)) (P i)) n) m"
  proof (rule grp.nsum_cong)
    fix k
    have "smul (2 ^ (b * k)) (psum (\<lambda>i. smul (d i k) (P i)) n) = psum (\<lambda>i. smul (2 ^ (b * k)) (smul (d i k) (P i))) n"
      by (intro grp.zmul_nsum grp.zmul_closed P)
    also have "\<dots> = psum (\<lambda>i. smul (d i k * 2 ^ (b * k)) (P i)) n"
      by (intro grp.nsum_cong) (use grp.zmul_zmul P in \<open>simp add: mult.commute\<close>)
    finally show "smul (2 ^ (b * k)) (psum (\<lambda>i. smul (d i k) (P i)) n) = psum (\<lambda>i. smul (d i k * 2 ^ (b * k)) (P i)) n" .
  qed
  also have "\<dots> = psum (\<lambda>i. psum (\<lambda>k. smul (d i k * 2 ^ (b * k)) (P i)) m) n"
    by (intro grp.nsum_swap grp.zmul_closed P)
  also have "\<dots> = psum (\<lambda>i. smul (\<Sum>k < m. d i k * 2 ^ (b * k)) (P i)) n"
    by (intro grp.nsum_cong grp.nsum_zmul P)
  finally show ?thesis .
qed

lemma MSM_run_rep:
  assumes bases: "\<And>i. i < unat n \<Longrightarrow> ra (bases ! i) (P i)"
    and len: "length scalars = unat n * unat sz" and sz: "8 \<le> unat sz" "unat sz < 2 ^ 28" and n: "unat n < 2 ^ 31"
    and S: "\<And>i. i < unat n \<Longrightarrow> scalar_at scalars (unat sz) i < 2 ^ (8 * unat sz - 2)"
    and sched: "\<And>n. schedule nThreads n (sched n)" "0 < nThreads" and r: "r = PVar v"
  shows "rp (MSM_run F C nThreads sched garbage r bases scalars sz n s r)
    (psum (\<lambda>i. smul (int (scalar_at scalars (unat sz) i)) (P i)) (unat n))"
proof -
  consider "n = 0" | "n = 1" | "n \<noteq> 0" "n \<noteq> 1" by blast
  then show ?thesis
  proof cases
    case 1
    then show ?thesis using fzero_rep by (simp add: MSM_run_def Let_def)
  next
    case 2
    have u: "(ucast sz :: u32) = of_nat (unat sz)" by (simp add: of_nat_unat)
    have l: "unat sz = length scalars" "0 < unat sz" using len sz 2 by simp_all
    have "P 0 \<in> cpoints" using rep_a_on_curve [OF bases [of 0]] 2 by simp
    then show ?thesis
      using mulByScalar_a_rep [OF l sz(2) bases [of 0], of r s] 2 l
      by (simp add: MSM_run_def Let_def u scalar_at_def grp.plus_zero grp.zmul_closed)
  next
    case 3
    define b where "b = calcBitsPerChunk n sz"
    define m where "m = \<lparr>m_scalars = scalars, m_scalarSize = sz, m_bitsPerChunk = b\<rparr>"
    define nC where "nC = unat (calcChunkCount sz b)"
    define B where "B = unat (calcBucketCount b)"
    define sl where "sl = parallelFor nThreads sched 0 (int (unat n)) (slice_scalars m nC B) garbage"
    define s1 where "s1 = parallelFor nThreads sched 0 (int nC) (process_chunks F C B nC (unat n) bases sl) s"
    have b: "3 \<le> unat b" "unat b \<le> 16" using calcBitsPerChunk_range by (simp_all add: b_def)
    have nC: "nC = (8 * unat sz - 1) div unat b + 1" using calcChunkCount_value [of sz b] sz by (simp add: nC_def)
    have B: "B = 2 ^ (unat b - 1)" using calcBucketCount_value [OF b] by (simp add: B_def)
    have "(8 * unat sz - 1) div unat b \<le> (8 * unat sz - 1) div 2" using b by (intro div_le_mono2) simp_all
    then have nC31: "nC < 2 ^ 31" using sz nC by simp
    have P: "P i \<in> cpoints" if "i < unat n" for i using rep_a_on_curve [OF bases [OF that]] by simp
    have "unat n * unat sz \<le> 2 ^ 31 * 2 ^ 28" using n sz by (intro mult_le_mono) simp_all
    then have l62: "length scalars < 2 ^ 62" using len by simp
    have sl: "sl (i * nC + j) = msm_digit (unat b) (scalar_at scalars (unat sz) i) j" if "i < unat n" "j < nC" for i j
      unfolding sl_def B by (rule slice_scalars_rep [OF _ _ _ sz b _ l62 nC sched that]) (simp_all add: m_def len)
    have d: "- int B \<le> sl (i * nC + j) \<and> sl (i * nC + j) \<le> int B" if "i < unat n" "j < nC" for i j
      using msm_digit_range [of "unat b" "scalar_at scalars (unat sz) i" j] b by (simp add: sl [OF that] B less_imp_le)
    have "0 < B" by (simp add: B)
    have chunks: "(\<forall>j < nC. rp (s1 (PChunk j)) (psum (\<lambda>i. smul (sl (i * nC + j)) (P i)) (unat n))) \<and> (\<forall>v. s1 (PVar v) = s (PVar v))"
      unfolding s1_def by (intro process_chunks_rep bases \<open>0 < B\<close> d sched)
    have "rp (combine_chunks F C (unat b) nC r s1 r) (psum (\<lambda>k. smul (2 ^ (unat b * k)) (psum (\<lambda>i. smul (sl (i * nC + k)) (P i)) (unat n))) nC)"
      using combine_chunks_rep [of nC s1 "\<lambda>k. psum (\<lambda>i. smul (sl (i * nC + k)) (P i)) (unat n)" r v "unat b"] chunks r nC by simp
    also have "psum (\<lambda>k. smul (2 ^ (unat b * k)) (psum (\<lambda>i. smul (sl (i * nC + k)) (P i)) (unat n))) nC
        = psum (\<lambda>i. smul (\<Sum>k < nC. sl (i * nC + k) * 2 ^ (unat b * k)) (P i)) (unat n)"
      by (rule sum_of_chunks [OF P])
    also have "\<dots> = psum (\<lambda>i. smul (int (scalar_at scalars (unat sz) i)) (P i)) (unat n)"
    proof (rule grp.nsum_cong)
      fix i assume i: "i < unat n"
      note lc = msm_last_carry [OF S [OF i] b(1) _ nC]
      have "(\<Sum>k < nC. sl (i * nC + k) * 2 ^ (unat b * k)) = (\<Sum>k < nC. msm_digit (unat b) (scalar_at scalars (unat sz) i) k * 2 ^ (unat b * k))"
        by (intro sum.cong) (simp_all add: sl [OF i])
      also have "\<dots> = int (scalar_at scalars (unat sz) i)"
        using msm_digits_sum [of "unat b" "scalar_at scalars (unat sz) i" nC] lc sz by simp
      finally show "smul (\<Sum>k < nC. sl (i * nC + k) * 2 ^ (unat b * k)) (P i) = smul (int (scalar_at scalars (unat sz) i)) (P i)"
        by simp
    qed
    finally have "rp (combine_chunks F C (unat b) nC r s1 r) (psum (\<lambda>i. smul (int (scalar_at scalars (unat sz) i)) (P i)) (unat n))" .
    moreover have "MSM_run F C nThreads sched garbage r bases scalars sz n s = combine_chunks F C (unat b) nC r s1"
      using 3 as_int_small [OF n] as_int_small [of "calcChunkCount sz b"] nC31
      by (simp add: MSM_run_def Let_def s1_def sl_def nC_def B_def m_def b_def)
    ultimately show ?thesis by simp
  qed
qed

end

end
