(* ===== verification/G1.thy ===== *)
theory G1
  imports RawClassCorrect FqField MsmCorrect
begin

text \<open>
  The curve over the base field: the class \<open>RawFq\<close> provides what the curve template asks of
  its base field, so everything shown about the template holds for the group \<open>G1\<close> that
  \<open>depends/ffiasm/c/alt_bn128.cpp\<close> constructs (\<open>y\<^sup>2 = x\<^sup>3 + 3\<close>, generator \<open>(1, 2)\<close>).
\<close>

section \<open>The class as a base field\<close>

definition RawFq_ops :: "gmp \<Rightarrow> mpz_lib \<Rightarrow> limbs base_ops" where
  "RawFq_ops G Z = \<lparr>
     f_add = F_rawAdd Fq_field G,
     f_sub = F_rawSub Fq_field G,
     f_mul = F_rawMMul Fq_field G,
     f_div = RawF_div Fq_field G Z,
     f_square = F_rawMSquare Fq_field G,
     f_neg = F_rawNeg Fq_field G,
     f_isZero = (\<lambda>a. F_rawIsZero G a \<noteq> 0),
     f_eq = (\<lambda>a b. F_rawIsEq G a b \<noteq> 0),
     f_zero = fZero (RawF Fq_field G Z),
     f_one = fOne (RawF Fq_field G Z),
     f_negOne = fNegOne (RawF Fq_field G Z)\<rparr>"

definition Curve_new :: "'e base_ops \<Rightarrow> (string \<Rightarrow> 'e) \<Rightarrow> string \<Rightarrow> string \<Rightarrow> string \<Rightarrow> string \<Rightarrow> 'e curve" where
  "Curve_new F fromString as' bs gxs gys =
     (let aa = fromString as';
          ab = fromString bs;
          agx = fromString gxs;
          agy = fromString gys
      in initCurve F aa ab agx agy)"

definition Fq_fromString :: "gmp \<Rightarrow> mpz_lib \<Rightarrow> string \<Rightarrow> limbs" where
  "Fq_fromString G Z s = RawF_fromString Fq_field G Z s 10"

definition G1_curve :: "gmp \<Rightarrow> mpz_lib \<Rightarrow> limbs curve" where
  "G1_curve G Z = Curve_new (RawFq_ops G Z) (Fq_fromString G Z) ''0'' ''3'' ''1'' ''2''"

section \<open>What elements denote\<close>

definition fq_good :: "limbs \<Rightarrow> bool" where
  "fq_good x = raw_elem Fq_field x"

definition fq_val :: "limbs \<Rightarrow> fq" where
  "fq_val x = of_fq (lval x * Rinv Fq_field)"

lemma prime_of_fq: "prime_of Fq_field = fq_prime"
  by (simp add: prime_of_Fq fq_prime_def)

lemma raw_class_fieldI: "gmp_mpn G \<Longrightarrow> gmp_mpz Z \<Longrightarrow> field_ok P \<Longrightarrow> raw_class_field G P Z"
  by (simp add: raw_class_field_def mont_field_def mont_field_axioms_def)

context raw_class_field
begin

lemma rawIsZero_iff: "raw_elem P x \<Longrightarrow> F_rawIsZero G x \<noteq> 0 \<longleftrightarrow> lval x = 0"
  using rawIsZero [of x] by (simp add: raw_elem_def)

lemma rawIsEq_iff: "raw_elem P x \<Longrightarrow> raw_elem P y \<Longrightarrow> F_rawIsEq G x y \<noteq> 0 \<longleftrightarrow> lval x = lval y"
  using rawIsEq [of x y] by (simp add: raw_elem_def lval_inject)

end

locale raw_fq = raw_class_field G Fq_field Z for G Z
begin

lemma repr_fq: "repr_m Fq_field x v \<Longrightarrow> fq_good x \<and> fq_val x = of_fq v"
  using repr_m_val [of x v] by (simp add: fq_good_def fq_val_def repr_m_raw of_fq_eq_iff prime_of_fq)

lemma fq_repr: "fq_good x \<Longrightarrow> repr_m Fq_field x (lval x * Rinv Fq_field)"
  unfolding fq_good_def by (rule repr_m_of)

lemma fq_val_0_iff:
  assumes "fq_good x"
  shows "fq_val x = 0 \<longleftrightarrow> lval x = 0"
proof
  assume "fq_val x = 0"
  then have "repr_m Fq_field x 0"
    using fq_repr [OF assms] repr_m_cong by (fastforce simp: fq_val_def of_fq_eq_0_iff prime_of_fq dvd_eq_mod_eq_0)
  then show "lval x = 0" by (simp add: repr_m_def)
qed (simp add: fq_val_def of_fq_0)

lemma fq_val_eq_iff:
  assumes "fq_good x" "fq_good y"
  shows "fq_val x = fq_val y \<longleftrightarrow> lval x = lval y"
proof
  assume "fq_val x = fq_val y"
  then have "repr_m Fq_field y (lval x * Rinv Fq_field)"
    using fq_repr [OF assms(2)] repr_m_cong by (fastforce simp: fq_val_def of_fq_eq_iff prime_of_fq)
  then show "lval x = lval y" using fq_repr [OF assms(1)] by (simp add: repr_m_def)
qed (simp add: fq_val_def)

lemma fq_div:
  assumes "fq_good x" "fq_good y" "fq_val y \<noteq> 0"
  shows "fq_good (RawF_div Fq_field G Z x y) \<and> fq_val (RawF_div Fq_field G Z x y) = fq_val x / fq_val y"
proof -
  let ?u = "lval x * Rinv Fq_field" and ?v = "lval y * Rinv Fq_field"
  have "\<not> fq_prime dvd ?v" using assms(3) by (simp add: fq_val_def of_fq_eq_0_iff)
  then have "coprime ?v (prime_of Fq_field)" unfolding prime_of_fq by (rule prime_coprime [OF is_prime_fq])
  then obtain w where w: "repr_m Fq_field (RawF_div Fq_field G Z x y) (?u * w)" "(?v * w) mod prime_of Fq_field = 1"
    using raw_div [OF fq_repr [OF assms(1)] fq_repr [OF assms(2)]] by blast
  have "of_fq (?v * w) = of_fq 1" using w(2) fq_prime_gt_1 by (simp only: of_fq_eq_iff prime_of_fq) simp
  then have "fq_val y * of_fq w = 1" by (simp add: fq_val_def of_fq_mult of_fq_1)
  then have "of_fq w = 1 / fq_val y" using assms(3) by (simp add: field_simps)
  then show ?thesis using repr_fq [OF w(1)] by (simp add: of_fq_mult fq_val_def)
qed

lemma base_field_fq: "base_field (RawFq_ops G Z) fq_good fq_val"
proof
  fix x y assume x: "fq_good x" and y: "fq_good y"
  note r = fq_repr [OF x] fq_repr [OF y]
  show "fq_good (f_add (RawFq_ops G Z) x y) \<and> fq_val (f_add (RawFq_ops G Z) x y) = fq_val x + fq_val y"
    using repr_fq [OF repr_add_m [OF r]] by (simp add: RawFq_ops_def of_fq_add fq_val_def)
  show "fq_good (f_sub (RawFq_ops G Z) x y) \<and> fq_val (f_sub (RawFq_ops G Z) x y) = fq_val x - fq_val y"
    using repr_fq [OF repr_sub_m [OF r]] by (simp add: RawFq_ops_def of_fq_diff fq_val_def)
  show "fq_good (f_mul (RawFq_ops G Z) x y) \<and> fq_val (f_mul (RawFq_ops G Z) x y) = fq_val x * fq_val y"
    using repr_fq [OF repr_mul_mm [OF r]] by (simp add: RawFq_ops_def of_fq_mult fq_val_def)
  show "f_eq (RawFq_ops G Z) x y \<longleftrightarrow> fq_val x = fq_val y"
    using rawIsEq_iff [of x y] fq_val_eq_iff [OF x y] x y by (simp add: RawFq_ops_def fq_good_def)
  show "fq_good (f_square (RawFq_ops G Z) x) \<and> fq_val (f_square (RawFq_ops G Z) x) = fq_val x ^ 2"
    using repr_fq [OF repr_mul_mm [OF r(1,1)]] by (simp add: RawFq_ops_def F_rawMSquare_def of_fq_mult fq_val_def power2_eq_square)
  show "fq_good (f_neg (RawFq_ops G Z) x) \<and> fq_val (f_neg (RawFq_ops G Z) x) = - fq_val x"
    using repr_fq [OF repr_neg_m [OF r(1)]] by (simp add: RawFq_ops_def of_fq_minus fq_val_def)
  show "f_isZero (RawFq_ops G Z) x \<longleftrightarrow> fq_val x = 0"
    using rawIsZero_iff [of x] fq_val_0_iff [OF x] x by (simp add: RawFq_ops_def fq_good_def)
  assume "fq_val y \<noteq> 0"
  then show "fq_good (f_div (RawFq_ops G Z) x y) \<and> fq_val (f_div (RawFq_ops G Z) x y) = fq_val x / fq_val y"
    using fq_div [OF x y] by (simp add: RawFq_ops_def)
next
  show "fq_good (f_zero (RawFq_ops G Z))" "fq_val (f_zero (RawFq_ops G Z)) = 0"
    using repr_fq [OF raw_consts(1)] by (simp_all add: RawFq_ops_def of_fq_0)
  show "fq_good (f_one (RawFq_ops G Z))" "fq_val (f_one (RawFq_ops G Z)) = 1"
    using repr_fq [OF raw_consts(2)] by (simp_all add: RawFq_ops_def of_fq_1)
  show "fq_good (f_negOne (RawFq_ops G Z))" "fq_val (f_negOne (RawFq_ops G Z)) = - 1"
    using repr_fq [OF raw_consts(3)] by (simp_all add: RawFq_ops_def of_fq_1 of_fq_minus)
qed

lemma fq_fromString: "list_all is_digit s \<Longrightarrow> s \<noteq> [] \<Longrightarrow> fq_good (Fq_fromString G Z s) \<and> fq_val (Fq_fromString G Z s) = of_nat (dec_val s)"
  using repr_fq [OF raw_fromString [of s]] by (simp add: Fq_fromString_def of_fq_int)

lemma g1_coefficients:
  "fq_good (Fq_fromString G Z ''0'')" "fq_val (Fq_fromString G Z ''0'') = 0"
  "fq_good (Fq_fromString G Z ''3'')" "fq_val (Fq_fromString G Z ''3'') = 3"
  using fq_fromString [of "''0''"] fq_fromString [of "''3''"] by (simp_all add: is_digit_def dec_val_def)

lemma fq_small_numerals: "(2 :: fq) \<noteq> 0" "(3 :: fq) \<noteq> 0"
  by (simp_all add: fq_numeral_eq_0 fq_prime_def zdvd_not_zless)

lemma smooth_g1: "smooth (0 :: fq) 3"
  using fq_small_numerals by (auto simp: smooth_def)

lemma curve_field_g1: "curve_field (RawFq_ops G Z) fq_good fq_val (Fq_fromString G Z ''0'') (Fq_fromString G Z ''3'')"
  unfolding curve_field_def curve_field_axioms_def
  using base_field_fq g1_coefficients smooth_g1 fq_small_numerals by simp

end

text \<open>The interfaces hold of the model, for any GMP that behaves as documented and for the
  reference instance.\<close>

lemma raw_fqI: "gmp_mpn G \<Longrightarrow> gmp_mpz Z \<Longrightarrow> raw_fq G Z"
  by (simp add: raw_fq_def raw_class_fieldI field_ok_Fq)

lemma G1_field: "gmp_mpn G \<Longrightarrow> gmp_mpz Z \<Longrightarrow>
    curve_field (RawFq_ops G Z) fq_good fq_val (Fq_fromString G Z ''0'') (Fq_fromString G Z ''3'')"
  by (rule raw_fq.curve_field_g1 [OF raw_fqI])

interpretation rfr: raw_class_field gmp_ref Fr_field mpz_ref
  by (rule raw_class_fieldI [OF gref.gmp_mpn_axioms zref.gmp_mpz_axioms field_ok_Fr])

interpretation rfq: raw_fq gmp_ref mpz_ref
  by (rule raw_fqI [OF gref.gmp_mpn_axioms zref.gmp_mpz_axioms])

interpretation f1: base_field "RawFq_ops gmp_ref mpz_ref" fq_good fq_val
  by (rule rfq.base_field_fq)

interpretation g1: curve_field "RawFq_ops gmp_ref mpz_ref" fq_good fq_val
  "Fq_fromString gmp_ref mpz_ref ''0''" "Fq_fromString gmp_ref mpz_ref ''3''"
  "Fq_fromString gmp_ref mpz_ref ''1''" "Fq_fromString gmp_ref mpz_ref ''2''"
  by (rule rfq.curve_field_g1)

end
