(* ===== verification/CurveRuns.thy ===== *)
theory CurveRuns
  imports Exp
begin

text \<open>
  Programs over the curve class: sequences of calls of its operations on variables, where a
  call may name the same variable as result and operand. The abstract program works on the
  points themselves with the group operations of the curve, and the calls refine it.
\<close>

datatype 'e curve_op =
    Zero nat
  | Copy nat nat
  | CopyAffine nat "'e point_affine"
  | Add nat nat nat
  | AddMixed nat nat "'e point_affine"
  | AddAffine nat "'e point_affine" "'e point_affine"
  | Dbl nat nat
  | DblAffine nat "'e point_affine"
  | Neg nat nat
  | Sub nat nat nat
  | SubMixed nat nat "'e point_affine"
  | Mul nat nat "u8 list"
  | MulAffine nat "'e point_affine" "u8 list"

fun call :: "'e base_ops \<Rightarrow> 'e curve \<Rightarrow> 'e curve_op \<Rightarrow> 'e pstore \<Rightarrow> 'e pstore" where
  "call F C (Zero r) s = s(PVar r := fzero C)"
| "call F C (Copy r a) s = copy_pp (PVar r) (PVar a) s"
| "call F C (CopyAffine r a) s = copy_pa F (PVar r) a s"
| "call F C (Add r a b) s = add_ppp F C (PVar r) (PVar a) (PVar b) s"
| "call F C (AddMixed r a b) s = add_ppa F C (PVar r) (PVar a) b s"
| "call F C (AddAffine r a b) s = add_paa F C (PVar r) a b s"
| "call F C (Dbl r a) s = dbl_pp F C (PVar r) (PVar a) s"
| "call F C (DblAffine r a) s = dbl_pa F C (PVar r) a s"
| "call F C (Neg r a) s = neg_pp F (PVar r) (PVar a) s"
| "call F C (Sub r a b) s = sub_ppp F C (PVar r) (PVar a) (PVar b) s"
| "call F C (SubMixed r a b) s = sub_ppa F C (PVar r) (PVar a) b s"
| "call F C (Mul r a k) s = mulByScalar_p F C (PVar r) (PVar a) k (of_nat (length k)) s"
| "call F C (MulAffine r a k) s = mulByScalar_a F C (PVar r) a k (of_nat (length k)) s"

text \<open>The arguments that a call brings along: affine points on the curve, scalars of a length
  for which the number of bits does not wrap.\<close>

definition scalar_ok :: "u8 list \<Rightarrow> bool" where
  "scalar_ok k \<longleftrightarrow> k \<noteq> [] \<and> length k < 2 ^ 28"

fun args_ok :: "('e point_affine \<Rightarrow> bool) \<Rightarrow> 'e curve_op \<Rightarrow> bool" where
  "args_ok ok (CopyAffine r a) = ok a"
| "args_ok ok (AddMixed r a b) = ok b"
| "args_ok ok (AddAffine r a b) = (ok a \<and> ok b)"
| "args_ok ok (DblAffine r a) = ok a"
| "args_ok ok (SubMixed r a b) = ok b"
| "args_ok ok (Mul r a k) = scalar_ok k"
| "args_ok ok (MulAffine r a k) = (ok a \<and> scalar_ok k)"
| "args_ok ok op = True"

text \<open>The abstract operations.\<close>

fun abstract_call :: "'a::field \<Rightarrow> ('e point_affine \<Rightarrow> 'a apoint) \<Rightarrow> 'e curve_op \<Rightarrow> (nat \<Rightarrow> 'a apoint) \<Rightarrow> (nat \<Rightarrow> 'a apoint)" where
  "abstract_call a val (Zero r) v = v(r := Infinity)"
| "abstract_call a val (Copy r x) v = v(r := v x)"
| "abstract_call a val (CopyAffine r x) v = v(r := val x)"
| "abstract_call a val (Add r x y) v = v(r := aadd a (v x) (v y))"
| "abstract_call a val (AddMixed r x y) v = v(r := aadd a (v x) (val y))"
| "abstract_call a val (AddAffine r x y) v = v(r := aadd a (val x) (val y))"
| "abstract_call a val (Dbl r x) v = v(r := aadd a (v x) (v x))"
| "abstract_call a val (DblAffine r x) v = v(r := aadd a (val x) (val x))"
| "abstract_call a val (Neg r x) v = v(r := aneg (v x))"
| "abstract_call a val (Sub r x y) v = v(r := aadd a (v x) (aneg (v y)))"
| "abstract_call a val (SubMixed r x y) v = v(r := aadd a (v x) (aneg (val y)))"
| "abstract_call a val (Mul r x k) v = v(r := zmul (aadd a) Infinity aneg (int (le_val k)) (v x))"
| "abstract_call a val (MulAffine r x k) v = v(r := zmul (aadd a) Infinity aneg (int (le_val k)) (val x))"

context curve_field
begin

lemma call_refines:
  assumes s: "\<And>i. rp (s (PVar i)) (v i)" and ok: "args_ok (affine_ok good ev (ev aa) (ev ab)) op"
  shows "rp (call F C op s (PVar i)) (abstract_call (ev aa) (affine_val ev) op v i)"
proof -
  have a: "ra x (affine_val ev x)" if "affine_ok good ev (ev aa) (ev ab) x" for x using that by (simp add: rep_a_def)
  show ?thesis
  proof (cases op)
    case (Mul r x k)
    then have "k \<noteq> []" "length k < 2 ^ 28" using ok by (simp_all add: scalar_ok_def)
    then show ?thesis
      using mulByScalar_p_rep [of "length k" k s "PVar x" "v x" "PVar r" r x] s by (cases "i = r") (simp_all add: Mul)
  next
    case (MulAffine r x k)
    then have "k \<noteq> []" "length k < 2 ^ 28" "affine_ok good ev (ev aa) (ev ab) x" using ok by (simp_all add: scalar_ok_def)
    then show ?thesis
      using mulByScalar_a_rep [of "length k" k x "affine_val ev x" "PVar r" s] a s by (cases "i = r") (simp_all add: MulAffine)
  qed (use s ok a in \<open>auto simp: store_simps fzero_rep intro: xyzz_of_affine_rep xyzz_add_rep xyzz_add_mixed_rep
      xyzz_add_affine_rep xyzz_dbl_rep xyzz_dbl_affine_rep neg_p_rep neg_aa_rep\<close>)
qed

lemma calls_refine:
  assumes "\<And>i. rp (s (PVar i)) (v i)" and "\<And>op. op \<in> set ops \<Longrightarrow> args_ok (affine_ok good ev (ev aa) (ev ab)) op"
  shows "rp (fold (call F C) ops s (PVar i)) (fold (abstract_call (ev aa) (affine_val ev)) ops v i)"
  using assms
proof (induction ops arbitrary: s v)
  case (Cons op ops)
  have "rp (call F C op s (PVar i)) (abstract_call (ev aa) (affine_val ev) op v i)" for i
    using Cons.prems by (intro call_refines) simp_all
  then show ?case using Cons.IH [of "call F C op s" "abstract_call (ev aa) (affine_val ev) op v"] Cons.prems(2) by simp
qed simp

end

end
