(* ===== verification/CurveTheorems.thy ===== *)
theory CurveTheorems
  imports G1 CurveRuns
begin

text \<open>
  The properties of the curve layer, for the group \<open>G1\<close> of the prover and any GMP that behaves
  as documented.
\<close>

section \<open>Points of G1\<close>

text \<open>A point or an affine point of the code that satisfies its invariant and stands for a
  given point of \<open>y\<^sup>2 = x\<^sup>3 + 3\<close>.\<close>

definition g1_point :: "limbs point \<Rightarrow> fq apoint \<Rightarrow> bool" where
  "g1_point p v \<longleftrightarrow> rep_p fq_good fq_val 0 3 p v"

definition g1_affine :: "limbs point_affine \<Rightarrow> fq apoint \<Rightarrow> bool" where
  "g1_affine p v \<longleftrightarrow> rep_a fq_good fq_val 0 3 p v"

definition g1_add :: "fq apoint \<Rightarrow> fq apoint \<Rightarrow> fq apoint" where
  "g1_add v w = aadd 0 v w"

definition g1_mul :: "int \<Rightarrow> fq apoint \<Rightarrow> fq apoint" where
  "g1_mul k v = zmul (aadd 0) Infinity aneg k v"

definition g1_sum :: "(nat \<Rightarrow> fq apoint) \<Rightarrow> nat \<Rightarrow> fq apoint" where
  "g1_sum f n = nsum (aadd 0) Infinity f n"

lemmas g1_defs = g1_point_def g1_affine_def g1_add_def g1_mul_def g1_sum_def

lemma G1_curve_eq: "G1_curve G Z = initCurve (RawFq_ops G Z) (Fq_fromString G Z ''0'') (Fq_fromString G Z ''3'')
    (Fq_fromString G Z ''1'') (Fq_fromString G Z ''2'')"
  by (simp add: G1_curve_def Curve_new_def)

lemmas g1_coeffs = raw_fq.g1_coefficients(2,4) [OF raw_fqI]

lemma g1_generator:
  assumes "gmp_mpn G" "gmp_mpz Z"
  shows "g1_affine (foneAffine (G1_curve G Z)) (Affine 1 2)" and "g1_point (fone (G1_curve G Z)) (Affine 1 2)"
proof -
  note str = raw_fq.fq_fromString [OF raw_fqI [OF assms]]
  have x: "fq_good (Fq_fromString G Z ''1'')" "fq_val (Fq_fromString G Z ''1'') = 1"
    and y: "fq_good (Fq_fromString G Z ''2'')" "fq_val (Fq_fromString G Z ''2'') = 2"
    using str [of "''1''"] str [of "''2''"] by (simp_all add: is_digit_def dec_val_def)
  note one = base_field.const_law(3,4) [OF raw_fq.base_field_fq [OF raw_fqI [OF assms]]]
  show "g1_affine (foneAffine (G1_curve G Z)) (Affine 1 2)"
    using x y by (simp add: g1_affine_def rep_a_def affine_ok_def affine_val_def G1_curve_eq initCurve_def on_curve_Affine)
  show "g1_point (fone (G1_curve G Z)) (Affine 1 2)"
    using x y one by (simp add: g1_point_def rep_p_def point_ok_def point_val_def xyzz_ok_def xyzz_val_def G1_curve_eq initCurve_def)
qed

text \<open>A store for the witnesses: every variable is the generator.\<close>

definition generator_store :: "limbs pstore" where
  "generator_store = (\<lambda>p. fone (G1_curve gmp_ref mpz_ref))"

lemmas generator_ref = g1_generator [OF gref.gmp_mpn_axioms zref.gmp_mpz_axioms]

section \<open>Signed recoding of scalars\<close>

text \<open>C16: the signed recoding of scalars. For every scalar of \<open>n\<close> bytes, \<open>buildNaf\<close> returns
  \<open>8 * n + 16\<close> digits 0, 1, 2 (for 0, 1, -1) that denote the scalar, no two adjacent of which
  are not zero, and all of them beyond position \<open>8 * n + 2\<close>, where the scalar multiplication
  starts reading, are zero.\<close>

theorem naf_denotes_scalar:
  assumes "0 < length scalar" and "length scalar < 2 ^ 28"
  shows "\<exists>ds. buildNaf scalar (of_nat (length scalar)) = ds @ replicate 14 0 \<and> length ds = 8 * length scalar + 2
    \<and> naf_value ds = int (le_val scalar) \<and> set ds \<subseteq> {0, 1, 2} \<and> nonadjacent ds"
  by (rule buildNaf_value [OF refl assms])

theorem naf_denotes_scalar_witness:
  "\<exists>ds. buildNaf [0xFF, 0x7B] (of_nat 2) = ds @ replicate 14 0 \<and> length ds = 18 \<and> naf_value ds = 0x7BFF"
  using naf_denotes_scalar [of "[0xFF, 0x7B]"] by auto

section \<open>Curve arithmetic\<close>

text \<open>C18: aliasing. Every operation that writes through a reference while it reads its
  operands leaves in the destination the value of the published formula at the operands'
  values before the call, whichever of the destination and the operands are one object, and
  changes nothing else.\<close>

theorem curve_ops_alias_safe:
  "dbl_pp F C p3 p1 s = s(p3 := xyzz_dbl F C (s p1))
    \<and> add_ppp F C p3 p1 p2 s = s(p3 := xyzz_add F C (s p1) (s p2))
    \<and> add_ppa F C p3 p1 q s = s(p3 := xyzz_add_mixed F C (s p1) q)
    \<and> neg_pp F p3 p1 s = s(p3 := (s p1)\<lparr>py := f_neg F (py (s p1))\<rparr>)
    \<and> copy_pp p3 p1 s = s(p3 := s p1)"
  by (simp add: store_simps)

text \<open>C10: a program over the curve class computes in the group of the curve. From variables
  that hold valid points, any sequence of calls (with equal and opposite operands, points at
  infinity and aliased arguments) leaves valid points, and they stand for the results of the
  same sequence of group operations.\<close>

theorem g1_programs_refine:
  assumes "gmp_mpn G" and "gmp_mpz Z"
    and "\<And>i. g1_point (s (PVar i)) (v i)" and "list_all (args_ok (affine_ok fq_good fq_val 0 3)) ops"
  shows "g1_point (fold (call (RawFq_ops G Z) (G1_curve G Z)) ops s (PVar i)) (fold (abstract_call 0 (affine_val fq_val)) ops v i)"
  using curve_field.calls_refine [OF G1_field [OF assms(1,2)], of s v ops] assms(3,4)
  unfolding g1_point_def G1_curve_eq g1_coeffs [OF assms(1,2)] list_all_iff by blast

theorem g1_programs_refine_witness:
  "g1_point (fold (call (RawFq_ops gmp_ref mpz_ref) (G1_curve gmp_ref mpz_ref)) [Dbl 0 0, Add 0 0 1, Sub 1 0 0] generator_store (PVar 0))
    (aadd 0 (aadd 0 (Affine 1 2) (Affine 1 2)) (Affine 1 2))"
  using g1_programs_refine [OF gref.gmp_mpn_axioms zref.gmp_mpz_axioms, of generator_store "\<lambda>i. Affine 1 2" "[Dbl 0 0, Add 0 0 1, Sub 1 0 0]" 0]
    generator_ref(2) by (simp add: generator_store_def del: aadd.simps)

text \<open>C19: conversion to affine coordinates and back gives a point that stands for the same
  point of the curve, and the equality tests of the class decide whether two representations
  stand for the same point.\<close>

theorem g1_affine_roundtrip:
  assumes "gmp_mpn G" and "gmp_mpz Z" and "g1_point p v" and "g1_point q w"
  shows "g1_affine (copy_ap (RawFq_ops G Z) p) v
    \<and> g1_point (copy_pa (RawFq_ops G Z) r (copy_ap (RawFq_ops G Z) p) s r) v
    \<and> (eq_pp (RawFq_ops G Z) p q \<longleftrightarrow> v = w)
    \<and> (eq_pa (RawFq_ops G Z) q (copy_ap (RawFq_ops G Z) p) \<longleftrightarrow> w = v)"
proof -
  note f = G1_field [OF assms(1,2)]
  note c = curve_field.copy_ap_rep [OF f, unfolded g1_coeffs [OF assms(1,2)], OF assms(3) [unfolded g1_point_def]]
  show ?thesis
    using c curve_field.xyzz_of_affine_rep [OF f, unfolded g1_coeffs [OF assms(1,2)], OF c]
      curve_field.eq_pp_rep [OF f, unfolded g1_coeffs [OF assms(1,2)]] curve_field.eq_pa_rep [OF f, unfolded g1_coeffs [OF assms(1,2)]]
      assms(3,4) by (simp add: g1_point_def g1_affine_def)
qed

theorem g1_affine_roundtrip_witness:
  "g1_affine (copy_ap (RawFq_ops gmp_ref mpz_ref) (fone (G1_curve gmp_ref mpz_ref))) (Affine 1 2)"
  using g1_affine_roundtrip [OF gref.gmp_mpn_axioms zref.gmp_mpz_axioms generator_ref(2,2)] by blast

text \<open>The negation of an affine point into a point in extended coordinates misses the
  point at infinity: for the affine zero \<open>(0, 0)\<close> it produces \<open>(0, 0, 1, 1)\<close>, which the class
  does not recognise as zero and which does not satisfy the invariant of points.\<close>

theorem neg_affine_zero_wrong:
  assumes "gmp_mpn G" and "gmp_mpz Z"
  shows "isZero_a (RawFq_ops G Z) (fzeroAffine (G1_curve G Z))
    \<and> \<not> isZero_p (RawFq_ops G Z) (neg_pa (RawFq_ops G Z) r (fzeroAffine (G1_curve G Z)) s r)
    \<and> (\<nexists>v. g1_point (neg_pa (RawFq_ops G Z) r (fzeroAffine (G1_curve G Z)) s r) v)"
proof -
  note laws = base_field.laws [OF raw_fq.base_field_fq [OF raw_fqI [OF assms]]]
  show ?thesis
    using raw_fq.fq_small_numerals(2) [OF raw_fqI [OF assms]]
    by (simp add: G1_curve_eq initCurve_def isZero_a_def isZero_p_def store_simps laws g1_point_def rep_p_def point_ok_def xyzz_ok_def)
qed

theorem neg_affine_zero_wrong_witness:
  "\<not> isZero_p (RawFq_ops gmp_ref mpz_ref) (neg_pa (RawFq_ops gmp_ref mpz_ref) (PVar 0) (fzeroAffine (G1_curve gmp_ref mpz_ref)) generator_store (PVar 0))"
  using neg_affine_zero_wrong [OF gref.gmp_mpn_axioms zref.gmp_mpz_axioms] by blast

section \<open>Scalar multiplication\<close>

text \<open>C15: scalar multiplication. For a base that is a valid point or affine point, and a scalar
  of any positive number of bytes, the result stands for the multiple of the base by the
  scalar, and no other object changes; the result may be written over the base.\<close>

theorem g1_mulByScalar:
  assumes "gmp_mpn G" and "gmp_mpz Z" and "scalar_ok k" and "g1_point (s (PVar a)) v" and "g1_affine b w"
  shows "g1_point (mulByScalar_p (RawFq_ops G Z) (G1_curve G Z) (PVar r) (PVar a) k (of_nat (length k)) s (PVar r)) (g1_mul (int (le_val k)) v)
    \<and> g1_point (mulByScalar_a (RawFq_ops G Z) (G1_curve G Z) (PVar r) b k (of_nat (length k)) s (PVar r)) (g1_mul (int (le_val k)) w)
    \<and> (\<forall>p. p \<noteq> PVar r \<longrightarrow>
        mulByScalar_p (RawFq_ops G Z) (G1_curve G Z) (PVar r) (PVar a) k (of_nat (length k)) s p = s p
        \<and> mulByScalar_a (RawFq_ops G Z) (G1_curve G Z) (PVar r) b k (of_nat (length k)) s p = s p)"
proof -
  note f = G1_field [OF assms(1,2)]
  note k = assms(3) [unfolded scalar_ok_def]
  show ?thesis
    using curve_field.mulByScalar_p_rep [OF f, unfolded g1_coeffs [OF assms(1,2)], where n = "length k" and scalar = k and s = s and base = "PVar a" and p = v and r = "PVar r" and i = r and j = a]
      curve_field.mulByScalar_a_rep [OF f, unfolded g1_coeffs [OF assms(1,2)], where n = "length k" and scalar = k and base = b and p = w and r = "PVar r" and s = s] k assms(4,5)
    by (simp add: g1_defs G1_curve_eq)
qed

theorem g1_mulByScalar_witness:
  "g1_point (mulByScalar_p (RawFq_ops gmp_ref mpz_ref) (G1_curve gmp_ref mpz_ref) (PVar 0) (PVar 0) [7, 1] (of_nat 2) generator_store (PVar 0))
    (g1_mul 263 (Affine 1 2))"
  using g1_mulByScalar [OF gref.gmp_mpn_axioms zref.gmp_mpz_axioms, of "[7, 1]" generator_store 0 "Affine 1 2"
      "foneAffine (G1_curve gmp_ref mpz_ref)" "Affine 1 2" 0] generator_ref
  by (simp add: scalar_ok_def generator_store_def)

section \<open>Parallel loops\<close>

text \<open>C20: every parallel loop does all of its work exactly once. The jobs of a range partition
  it in order, there are at most four per thread, and their sizes differ by at most one; and
  in every complete run of the pool each job is executed exactly once, by a thread of the
  pool.\<close>

theorem parallel_loop_exact:
  assumes "begin' < end'" and "0 < nThreads"
    and "schedule nThreads (length (divideWork begin' end' nThreads)) log"
  shows "concat (map (\<lambda>(b, e). [b..e - 1]) (divideWork begin' end' nThreads)) = [begin'..end' - 1]
    \<and> length (divideWork begin' end' nThreads) \<le> nThreads * chunksPerThread
    \<and> (\<exists>m. \<forall>(b, e) \<in> set (divideWork begin' end' nThreads). e - b = m \<or> e - b = m + 1)
    \<and> distinct (map fst log) \<and> set (map fst log) = {..<length (divideWork begin' end' nThreads)}
    \<and> (\<forall>x \<in> set log. snd x < nThreads)"
proof -
  have "\<exists>m. \<forall>(b, e) \<in> set (divideWork begin' end' nThreads). e - b = m \<or> e - b = m + 1"
    unfolding divideWork_def Let_def by (intro exI) (use job_ranges_size in blast)
  then show ?thesis
    using divideWork_cover [OF assms(1,2)] divideWork_count [OF assms(1,2)] schedule_complete [OF assms(3,2)] by blast
qed

lemma schedule_1_1: "schedule 1 1 [(0, 0)]"
proof -
  let ?p = "pool_start (min 1 1) 1"
  let ?q = "?p\<lparr>threads := (threads ?p)(0 := Popping), finished := finished ?p @ [(0, 0)]\<rparr>"
  let ?r = "?q\<lparr>threads := (threads ?q)(0 := Stopped)\<rparr>"
  have "pool_step ?p ?q" by (rule pool_step.run) (simp add: pool_start_def)
  moreover have "pool_step ?q ?r" by (rule pool_step.stop) (simp_all add: pool_start_def)
  ultimately have "pool_run ?p ?r" by (blast intro: pool_run.intros)
  moreover have "pool_done ?r" by (simp add: pool_done_def pool_start_def)
  moreover have "finished ?r = [(0, 0)]" by (simp add: pool_start_def)
  ultimately show ?thesis unfolding schedule_def by blast
qed

theorem parallel_loop_exact_witness:
  "concat (map (\<lambda>(b, e). [b..e - 1]) (divideWork 5 6 1)) = [5..5]"
  using parallel_loop_exact [of 5 6 1 "[(0, 0)]"] schedule_1_1 by (simp add: divideWork_def Let_def chunksPerThread_def)

text \<open>C21: the pool cannot get stuck and every run ends. In every state that a loop can reach,
  some thread can take a step unless all have stopped, each step decreases the amount of work
  that is left, and so a state in which the loop has returned is always reachable.\<close>

theorem pool_terminates:
  assumes "pool_run (pool_start (min nThreads jobCount) jobCount) p"
  shows "(\<not> pool_done p \<longrightarrow> (\<exists>q. pool_step p q))
    \<and> (\<forall>q. pool_step p q \<longrightarrow> pool_work (min nThreads jobCount) q < pool_work (min nThreads jobCount) p)
    \<and> (\<exists>q. pool_run p q \<and> pool_done q)"
proof -
  have "pool_inv (min nThreads jobCount) jobCount p" using pool_inv_run [OF assms] pool_inv_start by simp
  then show ?thesis using pool_progress pool_step_work pool_run_completes by blast
qed

theorem pool_terminates_witness:
  "\<exists>q. pool_run (pool_start (min 2 5) 5) q \<and> pool_done q"
  using pool_terminates [OF pool_run.none] by blast

section \<open>Multi-scalar multiplication\<close>

text \<open>C8: the multi-scalar multiplication. For any number of points below \<open>2^31\<close>, scalars of
  \<open>sz\<close> bytes whose two highest bits are zero (as for field elements), any number of threads,
  any schedule of the parallel loops and any initial contents of the arrays, the result stands
  for the sum of the points multiplied by their scalars.\<close>

theorem g1_msm:
  assumes "gmp_mpn G" and "gmp_mpz Z"
    and "\<And>i. i < unat n \<Longrightarrow> g1_affine (bases ! i) (Q i)"
    and "length scalars = unat n * unat sz" and "8 \<le> unat sz" and "unat sz < 2 ^ 28" and "unat n < 2 ^ 31"
    and "\<And>i. i < unat n \<Longrightarrow> scalar_at scalars (unat sz) i < 2 ^ (8 * unat sz - 2)"
    and "\<And>n. schedule nThreads n (sched n)" and "0 < nThreads"
  shows "g1_point (MSM_run (RawFq_ops G Z) (G1_curve G Z) nThreads sched garbage (PVar r) bases scalars sz n s (PVar r))
    (g1_sum (\<lambda>i. g1_mul (int (scalar_at scalars (unat sz) i)) (Q i)) (unat n))"
  using curve_field.MSM_run_rep [OF G1_field [OF assms(1,2)], unfolded g1_coeffs [OF assms(1,2)], where n = n and bases = bases and P = Q
      and scalars = scalars and sz = sz and nThreads = nThreads and sched = sched and r = "PVar r" and v = r] assms(3-10)
  by (simp add: g1_defs G1_curve_eq)

theorem g1_msm_witness:
  "\<exists>sched. g1_point (MSM_run (RawFq_ops gmp_ref mpz_ref) (G1_curve gmp_ref mpz_ref) 4 sched (\<lambda>k. 17) (PVar 0)
      (replicate 2 (foneAffine (G1_curve gmp_ref mpz_ref))) [5, 0, 0, 0, 0, 0, 0, 0, 9, 1, 0, 0, 0, 0, 0, 0] 8 2 generator_store (PVar 0))
    (g1_sum (\<lambda>i. g1_mul (int (scalar_at [5, 0, 0, 0, 0, 0, 0, 0, 9, 1, 0, 0, 0, 0, 0, 0] 8 i)) (Affine 1 2)) 2)"
proof -
  obtain sched where "\<And>n. schedule 4 n (sched n)" using schedule_exists [of 4] by metis
  moreover have "scalar_at [5, 0, 0, 0, 0, 0, 0, 0, 9, 1, 0, 0, 0, 0, 0, 0] 8 i < 2 ^ 62" if "i < 2" for i
    using that by (auto simp: less_2_cases_iff scalar_at_def)
  moreover have "unat (2 :: u64) = 2" "unat (8 :: u64) = 8" by simp_all
  ultimately show ?thesis
    using g1_msm [OF gref.gmp_mpn_axioms zref.gmp_mpz_axioms, of 2 "replicate 2 (foneAffine (G1_curve gmp_ref mpz_ref))"
      "\<lambda>i. Affine 1 2" "[5, 0, 0, 0, 0, 0, 0, 0, 9, 1, 0, 0, 0, 0, 0, 0]" 8 4 sched "\<lambda>k. 17" 0 generator_store] generator_ref(1)
    by auto
qed

end
