(* ===== verification/RawTheorems.thy ===== *)
theory RawTheorems
  imports G1
begin

text \<open>
  The properties of the field classes \<open>RawFr\<close> and \<open>RawFq\<close>, for any GMP that behaves as
  documented.
\<close>

text \<open>C14: the class of the base field computes in the field. The constants are 0, 1 and -1,
  division by any element that is not zero is division in the field of integers modulo the
  prime (inverses are taken of the Montgomery representation and corrected by \<open>R^3\<close>), and
  \<open>exp\<close> raises to the power given by the little-endian bytes of the exponent.\<close>

theorem rawFq_field:
  assumes "gmp_mpn G" and "gmp_mpz Z" and "fq_good x" and "fq_good y" and "length k < 2 ^ 28"
  shows "fq_val (fZero (RawF Fq_field G Z)) = 0 \<and> fq_val (fOne (RawF Fq_field G Z)) = 1 \<and> fq_val (fNegOne (RawF Fq_field G Z)) = - 1
    \<and> (fq_val y \<noteq> 0 \<longrightarrow> fq_good (RawF_div Fq_field G Z x y) \<and> fq_val (RawF_div Fq_field G Z x y) = fq_val x / fq_val y)
    \<and> fq_good (RawF_exp Fq_field G Z r x k (of_nat (length k)))
    \<and> fq_val (RawF_exp Fq_field G Z r x k (of_nat (length k))) = fq_val x ^ le_val k"
proof -
  note F = raw_fqI [OF assms(1,2)]
  note e = raw_fq.repr_fq [OF F raw_class_field.raw_exp [OF raw_fq.axioms [OF F] raw_fq.fq_repr [OF F assms(3)] refl assms(5)]]
  show ?thesis
    using base_field.const_law [OF raw_fq.base_field_fq [OF F]] raw_fq.fq_div [OF F assms(3,4)] e
    by (simp add: RawFq_ops_def of_fq_power fq_val_def)
qed

lemma fq_good_small: "fq_good [2, 0, 0, 0]" "fq_good [3, 0, 0, 0]"
  by (simp_all add: fq_good_def raw_elem_def prime_of_Fq)

theorem rawFq_field_witness:
  "fq_val (RawF_exp Fq_field gmp_ref mpz_ref [] [2, 0, 0, 0] [5] (of_nat 1)) = fq_val [2, 0, 0, 0] ^ 5"
  using rawFq_field [OF gref.gmp_mpn_axioms zref.gmp_mpz_axioms fq_good_small, of "[5]" "[]"] by simp

text \<open>C31: reading and printing numbers are inverse to each other in both fields. The string
  of a reduced element reads back as the same four limbs, and a string of digits reads as an
  element that prints as the number reduced modulo the prime; for tagged elements, an element
  that is read from a string prints as that number too, whether it was stored short or long.\<close>

theorem field_string_roundtrip:
  assumes "gmp_mpn G" and "gmp_mpz Z" and "field_ok P" and "raw_elem P a" and "list_all is_digit s" and "s \<noteq> []"
  shows "RawF_fromString P G Z (RawF_toString P G Z a 10) 10 = a
    \<and> RawF_toString P G Z (RawF_fromString P G Z s 10) 10 = digits (dec_val s mod nat (prime_of P))
    \<and> F_element2str P G Z e (F_str2element P Z e s 10 st) = digits (dec_val s mod nat (prime_of P))"
  using raw_class_field.string_roundtrip [OF raw_class_fieldI [OF assms(1-3)] assms(4-6)] by blast

theorem field_string_roundtrip_witness:
  "RawF_toString Fr_field gmp_ref mpz_ref (RawF_fromString Fr_field gmp_ref mpz_ref ''042'' 10) 10 = digits 42"
  using field_string_roundtrip [OF gref.gmp_mpn_axioms zref.gmp_mpz_axioms field_ok_Fr, of "[1, 0, 0, 0]" "''042''"]
  by (simp add: raw_elem_def prime_of_Fr is_digit_def dec_val_def)

text \<open>The big-endian representation loses the leading zero words. For an element below
  \<open>2^64\<close>, \<open>toRprBE\<close> reports 32 bytes but writes only the eight bytes of one word, at the start
  of the buffer, and leaves the rest of the buffer as it was; for zero it writes nothing.\<close>

theorem toRprBE_truncates:
  assumes "gmp_mpn G" and "gmp_mpz Z" and "field_ok P" and "0 < v" and "v < 2 ^ 64" and "length data = 32"
  shows "RawF_toRprBE P G Z (RawF_fromUI P G Z (word_of_int v)) data 32 = (32, be8 (word_of_int v) @ drop 8 data)
    \<and> RawF_toRprBE P G Z (RawF_fromUI P G Z 0) data 32 = (32, data)"
proof -
  note F = raw_class_fieldI [OF assms(1-3)]
  show ?thesis
    using raw_class_field.toRprBE_small [OF F, of v data] raw_class_field.toRprBE_zero [OF F, of data] assms(4-6) by simp
qed

lemma be8_1: "be8 1 = [0, 0, 0, 0, 0, 0, 0, 1]"
proof -
  have "(8::nat) = Suc (Suc (Suc (Suc (Suc (Suc (Suc (Suc 0)))))))" by simp
  then show ?thesis unfolding be8_def by (simp only: le_bytes.simps) simp
qed

theorem toRprBE_truncates_witness:
  "snd (RawF_toRprBE Fr_field gmp_ref mpz_ref (RawF_fromUI Fr_field gmp_ref mpz_ref 1) (replicate 32 0xAA) 32)
    = [0, 0, 0, 0, 0, 0, 0, 1] @ replicate 24 0xAA"
  using toRprBE_truncates [OF gref.gmp_mpn_axioms zref.gmp_mpz_axioms field_ok_Fr, of 1 "replicate 32 0xAA"]
  by (simp add: be8_1)

end
