(* ===== verification/SplitParStr.thy ===== *)
theory SplitParStr
  imports Machine "HOL-Library.Char_ord"
begin

text \<open>
  Splitting of the textual form of a tuple (\<open>depends/ffiasm/c/splitparstr.cpp\<close>): the fields of
  the tower read their elements with it. \<open>removePars\<close> throws when \<open>std::string::erase\<close> is
  called with a position behind the end; \<open>splitParStr\<close> calls itself on its own result when it
  has found no comma, so a string without one never returns (\<open>None\<close>).

  Strings are shorter than \<open>2\<^sup>3\<^sup>1\<close> characters, so the counters \<open>i\<close>, \<open>ns\<close>, \<open>ins\<close> stay in
  range; the one place where a negative number meets an unsigned one is written out.
\<close>

text \<open>\<open>std::isspace\<close> in the C locale.\<close>

definition isspace :: "char \<Rightarrow> bool" where
  "isspace c \<longleftrightarrow> of_char c = (32 :: nat) \<or> 9 \<le> (of_char c :: nat) \<and> (of_char c :: nat) \<le> 13"

text \<open>\<open>s.erase(pos, n)\<close>.\<close>

definition erase :: "nat \<Rightarrow> nat \<Rightarrow> string \<Rightarrow> string outcome" where
  "erase pos n s =
     (if length s < pos then Throw (runtime_error ''basic_string::erase'')
      else Ok (take pos s @ drop (pos + n) s))"

text \<open>The character at an index, and the terminator behind the last one.\<close>

definition str_at :: "string \<Rightarrow> nat \<Rightarrow> char" where
  "str_at s i = (if i < length s then s ! i else CHR 0x00)"

text \<open>The loop over the enclosing parentheses. The index \<open>s.length()-1-ns\<close> is used only after
  \<open>s[ns] == '('\<close>; on the empty string that fails.\<close>

function (sequential) outer_pars :: "string \<Rightarrow> nat \<Rightarrow> nat" where
  "outer_pars s ns =
     (if length s \<ge> ns * 2 \<and> str_at s ns = CHR ''('' \<and> str_at s (length s - 1 - ns) = CHR '')''
      then outer_pars s (ns + 1) else ns)"
  by pat_completeness auto
termination
  by (relation "measure (\<lambda>(s, ns). length s + 1 - ns)") (auto simp: str_at_def split: if_splits)

declare outer_pars.simps [simp del]

definition min_ins :: "string \<Rightarrow> int" where
  "min_ins s =
     snd (fold (\<lambda>c (ins, minIns).
            let ins = (if c = CHR ''('' then ins + 1 else ins);
                ins = (if c = CHR '')'' then ins - 1 else ins);
                minIns = (if ins < minIns then ins else minIns)
            in (ins, minIns)) s (0, 0))"

definition removePars :: "string \<Rightarrow> string outcome" where
  "removePars s =
     (let ns = outer_pars s 0;
          minIns = min_ins (take (length s - ns * 2 - ns) (drop ns s));
          n = nat ((int ns + minIns) mod 2 ^ 32)
      in bind_o (erase 0 n s) (\<lambda>s.
         erase (nat ((int (length s) - int n) mod 2 ^ 64)) (length s) s))"

text \<open>One step of the loop over the characters, on \<open>(accS, scaped, nPar, res)\<close>.\<close>

type_synonym split_state = "string \<times> bool \<times> int \<times> string list"

definition split_char :: "char \<Rightarrow> split_state \<Rightarrow> split_state outcome" where
  "split_char c st =
     (case st of (accS, scaped, nPar, res) \<Rightarrow>
        if scaped then Ok (accS @ [c], False, nPar, res)
        else if isspace c then Ok (accS, scaped, nPar, res)
        else if c = CHR '','' \<and> nPar = 0
        then bind_o (removePars accS) (\<lambda>accS. Ok ([], scaped, nPar, res @ [accS]))
        else let nPar = (if c = CHR ''('' then nPar + 1 else nPar);
                 nPar = (if c = CHR '')'' then nPar - 1 else nPar)
             in Ok (accS @ [c], scaped, nPar, res))"

primrec split_loop :: "string \<Rightarrow> split_state \<Rightarrow> split_state outcome" where
  "split_loop [] st = Ok st"
| "split_loop (c # cs) st = bind_o (split_char c st) (split_loop cs)"

definition split_once :: "string \<Rightarrow> string list outcome" where
  "split_once s =
     bind_o (split_loop s ([], False, 0, [])) (\<lambda>(accS, scaped, nPar, res).
       bind_o (removePars accS) (\<lambda>accS. Ok (res @ [accS])))"

partial_function (option) splitParStr :: "string \<Rightarrow> string list outcome option" where
  "splitParStr s =
     (case split_once s of
        Ok res \<Rightarrow>
          if length res = 1
          then (case removePars (res ! 0) of
                  Ok r0 \<Rightarrow> splitParStr r0
                | Throw e \<Rightarrow> Some (Throw e)
                | Undef \<Rightarrow> Some Undef)
          else Some (Ok res)
      | Throw e \<Rightarrow> Some (Throw e)
      | Undef \<Rightarrow> Some Undef)"

section \<open>Numbers\<close>

text \<open>Strings without white space, commas and parentheses pass unchanged.\<close>

definition plain :: "char \<Rightarrow> bool" where
  "plain c \<longleftrightarrow> \<not> isspace c \<and> c \<noteq> CHR '','' \<and> c \<noteq> CHR ''('' \<and> c \<noteq> CHR '')''"

lemma str_at_plain: "list_all plain s \<Longrightarrow> str_at s i \<noteq> CHR ''(''"
  by (auto simp: str_at_def list_all_length plain_def)

lemma min_ins_plain: "list_all plain s \<Longrightarrow> min_ins s = 0"
proof -
  have "list_all plain s \<Longrightarrow> fold (\<lambda>c (ins, minIns).
            let ins = (if c = CHR ''('' then ins + 1 else ins);
                ins = (if c = CHR '')'' then ins - 1 else ins);
                minIns = (if ins < minIns then ins else minIns)
            in (ins, minIns)) s (0, 0) = (0 :: int, 0 :: int)"
    by (induction s) (simp_all add: plain_def)
  then show "list_all plain s \<Longrightarrow> min_ins s = 0" by (simp add: min_ins_def)
qed

lemma removePars_plain:
  assumes "list_all plain s" "length s < 2 ^ 64"
  shows "removePars s = Ok s"
proof -
  have "outer_pars s 0 = 0" using str_at_plain [OF assms(1)] by (subst outer_pars.simps) simp
  moreover have "nat (int (length s) mod 2 ^ 64) = length s" using assms(2) by simp
  ultimately show ?thesis using min_ins_plain [OF assms(1)] by (simp add: removePars_def erase_def)
qed

lemma split_loop_append: "split_loop (s @ t) st = bind_o (split_loop s st) (split_loop t)"
proof (induction s arbitrary: st)
  case (Cons c s)
  then show ?case by (cases "split_char c st") simp_all
qed simp

lemma split_loop_plain: "list_all plain s \<Longrightarrow> split_loop s (acc, False, n, res) = Ok (acc @ s, False, n, res)"
  by (induction s arbitrary: acc) (simp_all add: split_char_def plain_def)

lemma split_loop_space: "list_all isspace s \<Longrightarrow> split_loop s (acc, False, n, res) = Ok (acc, False, n, res)"
  by (induction s) (simp_all add: split_char_def)

text \<open>A pair of numbers is split at its comma, whatever the white space behind it.\<close>

lemma split_pair:
  assumes "list_all plain s" "list_all plain t" "list_all isspace w" "length s < 2 ^ 64" "length t < 2 ^ 64"
  shows "splitParStr (s @ CHR '','' # w @ t) = Some (Ok [s, t])"
proof -
  have "\<not> isspace (CHR '','')" by (simp add: isspace_def of_char_def)
  then have "split_once (s @ CHR '','' # w @ t) = Ok [s, t]"
    using assms by (simp add: split_once_def split_loop_append split_loop_plain split_loop_space split_char_def removePars_plain)
  then show ?thesis by (subst splitParStr.simps) simp
qed

text \<open>A string without a comma is handed to the function again, for ever.\<close>

lemma split_no_comma:
  assumes "splitParStr s = Some r"
  shows "list_all plain s \<longrightarrow> length s < 2 ^ 64 \<longrightarrow> False"
  using assms
proof (induct rule: splitParStr.raw_induct)
  case (1 self s r)
  show ?case
  proof (intro impI)
    assume s: "list_all plain s" "length s < 2 ^ 64"
    then have "split_once s = Ok [s]"
      using removePars_plain by (simp add: split_once_def split_loop_plain)
    then have "self s = Some r" using 1(2) removePars_plain [OF s] by simp
    then show False using 1(1) 1(3) s by blast
  qed
qed (fact assms)

lemma split_diverges: "list_all plain s \<Longrightarrow> length s < 2 ^ 64 \<Longrightarrow> splitParStr s = None"
  using split_no_comma by (cases "splitParStr s") blast+

end
