(* ===== verification/F2Field.thy ===== *)
theory F2Field
  imports CurveCorrect SplitParStr
begin

text \<open>
  The quadratic extension of a field (\<open>depends/ffiasm/c/f2field.cpp\<close>, \<open>f2field.hpp\<close>): pairs
  \<open>a + b u\<close> with \<open>u\<^sup>2\<close> the non-residue given to the constructor. The operations write the two
  components of the result one after the other; each reads what it still needs of its operands
  before (the products go to local variables first, the other operations work component by
  component), so the result of a call does not depend on whether the result object is one of the
  operands, and the operations are functions of the operands.

  A component of the result that is written and then updated in place (\<open>F.sub(r.b, r.b, aa)\<close>)
  is a sequence of \<open>let\<close>s under one name.
\<close>

section \<open>Elements and the field object\<close>

record 'e inv_ops = "'e base_ops" +
  f_inv :: "'e \<Rightarrow> 'e"

record 'e f2 =
  f2_a :: 'e
  f2_b :: 'e

datatype type_of_nr = nr_is_zero | nr_is_one | nr_is_negone | nr_is_long

record 'e f2_field =
  f2_F :: "'e inv_ops"
  typeOfNr :: type_of_nr
  f2_nr :: 'e
  f2_fOne :: "'e f2"
  f2_fZero :: "'e f2"
  f2_fNegOne :: "'e f2"

definition F2_initField :: "'e inv_ops \<Rightarrow> 'e \<Rightarrow> 'e f2_field" where
  "F2_initField B anr =
     \<lparr>f2_F = B,
      typeOfNr = (if f_isZero B anr then nr_is_zero
                  else if f_eq B anr (f_one B) then nr_is_one
                  else if f_eq B anr (f_negOne B) then nr_is_negone
                  else nr_is_long),
      f2_nr = anr,
      f2_fOne = \<lparr>f2_a = f_one B, f2_b = f_zero B\<rparr>,
      f2_fZero = \<lparr>f2_a = f_zero B, f2_b = f_zero B\<rparr>,
      f2_fNegOne = \<lparr>f2_a = f_negOne B, f2_b = f_zero B\<rparr>\<rparr>"

text \<open>The constructor from a string.\<close>

definition F2_new :: "'e inv_ops \<Rightarrow> (string \<Rightarrow> 'e) \<Rightarrow> string \<Rightarrow> 'e f2_field" where
  "F2_new B fromString nrs = (let anr = fromString nrs in F2_initField B anr)"

text \<open>\<open>None\<close>: the call does not return (\<open>splitParStr\<close>), or the assertion on the number of parts
  ends the program.\<close>

definition F2_fromString :: "(string \<Rightarrow> 'e) \<Rightarrow> string \<Rightarrow> 'e f2 outcome option" where
  "F2_fromString fromString s =
     (case splitParStr s of
        None \<Rightarrow> None
      | Some (Ok els) \<Rightarrow>
          if length els \<noteq> 2 then None
          else Some (Ok \<lparr>f2_a = fromString (els ! 0), f2_b = fromString (els ! 1)\<rparr>)
      | Some (Throw e) \<Rightarrow> Some (Throw e)
      | Some Undef \<Rightarrow> Some Undef)"

definition F2_toString :: "('e \<Rightarrow> string) \<Rightarrow> 'e f2 \<Rightarrow> string" where
  "F2_toString toString e = ''('' @ toString (f2_a e) @ '','' @ toString (f2_b e) @ '')''"

section \<open>Operations\<close>

definition F2_mulByNr :: "'e f2_field \<Rightarrow> 'e \<Rightarrow> 'e" where
  "F2_mulByNr X a =
     (case typeOfNr X of
        nr_is_zero \<Rightarrow> f_zero (f2_F X)
      | nr_is_one \<Rightarrow> a
      | nr_is_negone \<Rightarrow> f_neg (f2_F X) a
      | nr_is_long \<Rightarrow> f_mul (f2_F X) (f2_nr X) a)"

definition F2_add :: "'e f2_field \<Rightarrow> 'e f2 \<Rightarrow> 'e f2 \<Rightarrow> 'e f2" where
  "F2_add X a b = \<lparr>f2_a = f_add (f2_F X) (f2_a a) (f2_a b), f2_b = f_add (f2_F X) (f2_b a) (f2_b b)\<rparr>"

definition F2_sub :: "'e f2_field \<Rightarrow> 'e f2 \<Rightarrow> 'e f2 \<Rightarrow> 'e f2" where
  "F2_sub X a b = \<lparr>f2_a = f_sub (f2_F X) (f2_a a) (f2_a b), f2_b = f_sub (f2_F X) (f2_b a) (f2_b b)\<rparr>"

definition F2_neg :: "'e f2_field \<Rightarrow> 'e f2 \<Rightarrow> 'e f2" where
  "F2_neg X a = \<lparr>f2_a = f_neg (f2_F X) (f2_a a), f2_b = f_neg (f2_F X) (f2_b a)\<rparr>"

definition F2_conjugate :: "'e f2_field \<Rightarrow> 'e f2 \<Rightarrow> 'e f2" where
  "F2_conjugate X a = \<lparr>f2_a = f2_a a, f2_b = f_neg (f2_F X) (f2_b a)\<rparr>"

definition F2_mul :: "'e f2_field \<Rightarrow> 'e f2 \<Rightarrow> 'e f2 \<Rightarrow> 'e f2" where
  "F2_mul X e1 e2 =
     (let F = f2_F X;
          aa = f_mul F (f2_a e1) (f2_a e2);
          bb = f_mul F (f2_b e1) (f2_b e2);
          bbr = F2_mulByNr X bb;
          sum1 = f_add F (f2_a e1) (f2_b e1);
          sum2 = f_add F (f2_a e2) (f2_b e2);
          ra = f_add F aa bbr;
          rb = f_mul F sum1 sum2;
          rb = f_sub F rb aa;
          rb = f_sub F rb bb
      in \<lparr>f2_a = ra, f2_b = rb\<rparr>)"

definition F2_mulScalar :: "'e f2_field \<Rightarrow> 'e f2 \<Rightarrow> 'e \<Rightarrow> 'e f2" where
  "F2_mulScalar X a b = \<lparr>f2_a = f_mul (f2_F X) (f2_a a) b, f2_b = f_mul (f2_F X) (f2_b a) b\<rparr>"

definition F2_dbl :: "'e f2_field \<Rightarrow> 'e f2 \<Rightarrow> 'e f2" where
  "F2_dbl X a = \<lparr>f2_a = f_add (f2_F X) (f2_a a) (f2_a a), f2_b = f_add (f2_F X) (f2_b a) (f2_b a)\<rparr>"

definition F2_mulXi :: "'e f2_field \<Rightarrow> 'e f2 \<Rightarrow> 'e f2" where
  "F2_mulXi X a =
     (let t = F2_dbl X a;
          t = F2_dbl X t;
          t = F2_dbl X t;
          t = F2_add X t a;
          t = t\<lparr>f2_b := f_add (f2_F X) (f2_b t) (f2_a a)\<rparr>;
          t = t\<lparr>f2_a := f_sub (f2_F X) (f2_a t) (f2_b a)\<rparr>
      in t)"

definition F2_square :: "'e f2_field \<Rightarrow> 'e f2 \<Rightarrow> 'e f2" where
  "F2_square X e1 =
     (let F = f2_F X
      in if typeOfNr X = nr_is_negone
         then let ab = f_mul F (f2_a e1) (f2_b e1);
                  tmp1 = f_add F (f2_a e1) (f2_b e1);
                  tmp2 = f_sub F (f2_a e1) (f2_b e1)
              in \<lparr>f2_a = f_mul F tmp1 tmp2, f2_b = f_add F ab ab\<rparr>
         else let ab = f_mul F (f2_a e1) (f2_b e1);
                  tmp1 = f_add F (f2_a e1) (f2_b e1);
                  tmp2 = F2_mulByNr X (f2_b e1);
                  tmp2 = f_add F (f2_a e1) tmp1;
                  tmp1 = f_mul F tmp1 tmp2;
                  tmp2 = F2_mulByNr X ab;
                  tmp2 = f_add F ab tmp2
              in \<lparr>f2_a = f_sub F tmp1 tmp2, f2_b = f_add F ab ab\<rparr>)"

definition F2_inv :: "'e f2_field \<Rightarrow> 'e f2 \<Rightarrow> 'e f2" where
  "F2_inv X e1 =
     (let F = f2_F X;
          t0 = f_square F (f2_a e1);
          t1 = f_square F (f2_b e1);
          t2 = F2_mulByNr X t1;
          t2 = f_sub F t0 t2;
          t3 = f_inv F t2;
          ra = f_mul F (f2_a e1) t3;
          rb = f_mul F (f2_b e1) t3;
          rb = f_neg F rb
      in \<lparr>f2_a = ra, f2_b = rb\<rparr>)"

definition F2_div :: "'e f2_field \<Rightarrow> 'e f2 \<Rightarrow> 'e f2 \<Rightarrow> 'e f2" where
  "F2_div X e1 e2 = (let tmp = F2_inv X e2 in F2_mul X e1 tmp)"

definition F2_isZero :: "'e f2_field \<Rightarrow> 'e f2 \<Rightarrow> bool" where
  "F2_isZero X a \<longleftrightarrow> f_isZero (f2_F X) (f2_a a) \<and> f_isZero (f2_F X) (f2_b a)"

definition F2_isOne :: "'e f2_field \<Rightarrow> 'e f2 \<Rightarrow> bool" where
  "F2_isOne X a \<longleftrightarrow> f_eq (f2_F X) (f2_a a) (f_one (f2_F X)) \<and> f_isZero (f2_F X) (f2_b a)"

definition F2_eq :: "'e f2_field \<Rightarrow> 'e f2 \<Rightarrow> 'e f2 \<Rightarrow> bool" where
  "F2_eq X a b \<longleftrightarrow> f_eq (f2_F X) (f2_a a) (f2_a b) \<and> f_eq (f2_F X) (f2_b a) (f2_b b)"

text \<open>The class as what a template over it sees.\<close>

definition F2_ops :: "'e f2_field \<Rightarrow> 'e f2 base_ops" where
  "F2_ops X = \<lparr>
     f_add = F2_add X,
     f_sub = F2_sub X,
     f_mul = F2_mul X,
     f_div = F2_div X,
     f_square = F2_square X,
     f_neg = F2_neg X,
     f_isZero = F2_isZero X,
     f_eq = F2_eq X,
     f_zero = f2_fZero X,
     f_one = f2_fOne X,
     f_negOne = f2_fNegOne X\<rparr>"

end
