(* ===== verification/Fq2Field.thy ===== *)
theory Fq2Field
  imports FqField F2Field
begin

text \<open>
  The quadratic extension by a square root of \<open>-1\<close> as a type and a field, and the proof that the
  class \<open>F2Field\<close> over a correct base field computes in it.
\<close>

section \<open>The field\<close>

datatype fq2 = Fq2 (fq2_re: fq) (fq2_im: fq)

lemma fq2_eqI: "fq2_re x = fq2_re y \<Longrightarrow> fq2_im x = fq2_im y \<Longrightarrow> x = y"
  by (cases x; cases y) simp

instantiation fq2 :: comm_ring_1
begin

definition zero_fq2 :: fq2 where "0 = Fq2 0 0"
definition one_fq2 :: fq2 where "1 = Fq2 1 0"
definition plus_fq2 :: "fq2 \<Rightarrow> fq2 \<Rightarrow> fq2" where "x + y = Fq2 (fq2_re x + fq2_re y) (fq2_im x + fq2_im y)"
definition minus_fq2 :: "fq2 \<Rightarrow> fq2 \<Rightarrow> fq2" where "x - y = Fq2 (fq2_re x - fq2_re y) (fq2_im x - fq2_im y)"
definition uminus_fq2 :: "fq2 \<Rightarrow> fq2" where "- x = Fq2 (- fq2_re x) (- fq2_im x)"
definition times_fq2 :: "fq2 \<Rightarrow> fq2 \<Rightarrow> fq2" where
  "x * y = Fq2 (fq2_re x * fq2_re y - fq2_im x * fq2_im y) (fq2_re x * fq2_im y + fq2_im x * fq2_re y)"

instance
  by standard (simp_all add: zero_fq2_def one_fq2_def plus_fq2_def minus_fq2_def uminus_fq2_def times_fq2_def algebra_simps)

end

lemma fq2_re_simps [simp]:
  "fq2_re 0 = 0" "fq2_re 1 = 1" "fq2_re (x + y) = fq2_re x + fq2_re y" "fq2_re (x - y) = fq2_re x - fq2_re y"
  "fq2_re (- x) = - fq2_re x" "fq2_re (x * y) = fq2_re x * fq2_re y - fq2_im x * fq2_im y"
  by (simp_all add: zero_fq2_def one_fq2_def plus_fq2_def minus_fq2_def uminus_fq2_def times_fq2_def)

lemma fq2_im_simps [simp]:
  "fq2_im 0 = 0" "fq2_im 1 = 0" "fq2_im (x + y) = fq2_im x + fq2_im y" "fq2_im (x - y) = fq2_im x - fq2_im y"
  "fq2_im (- x) = - fq2_im x" "fq2_im (x * y) = fq2_re x * fq2_im y + fq2_im x * fq2_re y"
  by (simp_all add: zero_fq2_def one_fq2_def plus_fq2_def minus_fq2_def uminus_fq2_def times_fq2_def)

lemma fq2_eq_iff: "x = y \<longleftrightarrow> fq2_re x = fq2_re y \<and> fq2_im x = fq2_im y"
  using fq2_eqI by auto

lemma fq2_of_nat [simp]: "fq2_re (of_nat n) = of_nat n" "fq2_im (of_nat n) = 0"
  by (induction n) simp_all

lemma fq2_numeral [simp]: "fq2_re (numeral n) = numeral n" "fq2_im (numeral n) = 0"
  using fq2_of_nat [of "numeral n"] by simp_all

text \<open>The conjugate and the norm.\<close>

definition fq2_conj :: "fq2 \<Rightarrow> fq2" where
  "fq2_conj x = Fq2 (fq2_re x) (- fq2_im x)"

definition fq2_norm :: "fq2 \<Rightarrow> fq" where
  "fq2_norm x = fq2_re x ^ 2 + fq2_im x ^ 2"

text \<open>The embedding of the base field.\<close>

definition fq2_of :: "fq \<Rightarrow> fq2" where
  "fq2_of c = Fq2 c 0"

lemma fq2_conj_sel [simp]: "fq2_re (fq2_conj x) = fq2_re x" "fq2_im (fq2_conj x) = - fq2_im x"
  by (simp_all add: fq2_conj_def)

lemma fq2_of_sel [simp]: "fq2_re (fq2_of c) = c" "fq2_im (fq2_of c) = 0"
  by (simp_all add: fq2_of_def)

lemma fq2_norm_mult: "fq2_norm (x * y) = fq2_norm x * fq2_norm y"
  by (simp add: fq2_norm_def power2_eq_square algebra_simps)

lemma fq2_mult_conj: "x * fq2_conj x = fq2_of (fq2_norm x)"
  by (simp add: fq2_eq_iff fq2_norm_def power2_eq_square)

lemma fq2_norm_0_iff: "fq2_norm x = 0 \<longleftrightarrow> x = 0"
proof
  assume n: "fq2_norm x = 0"
  show "x = 0"
  proof (cases "fq2_im x = 0")
    case True
    then show ?thesis using n by (simp add: fq2_norm_def fq2_eq_iff)
  next
    case False
    have "(fq2_re x / fq2_im x) ^ 2 = - 1"
      using n False by (simp add: fq2_norm_def power_divide eq_neg_iff_add_eq_0) (simp add: field_simps)
    then show ?thesis using fq_no_sqrt_minus_1 by blast
  qed
qed (simp add: fq2_norm_def)

instantiation fq2 :: field
begin

definition inverse_fq2 :: "fq2 \<Rightarrow> fq2" where
  "inverse_fq2 x = fq2_conj x * fq2_of (inverse (fq2_norm x))"

definition divide_fq2 :: "fq2 \<Rightarrow> fq2 \<Rightarrow> fq2" where
  "divide_fq2 x y = x * inverse y"

instance
proof
  fix a :: fq2
  assume "a \<noteq> 0"
  then have n: "fq2_norm a \<noteq> 0" by (simp add: fq2_norm_0_iff)
  have "inverse a * a = (a * fq2_conj a) * fq2_of (inverse (fq2_norm a))" by (simp add: inverse_fq2_def ac_simps)
  also have "\<dots> = 1" unfolding fq2_mult_conj using n by (simp add: fq2_eq_iff)
  finally show "inverse a * a = 1" .
next
  show "inverse (0 :: fq2) = 0" by (simp add: inverse_fq2_def fq2_eq_iff)
qed (rule divide_fq2_def)

end

section \<open>The class computes in the field\<close>

definition f2_good :: "('e \<Rightarrow> bool) \<Rightarrow> 'e f2 \<Rightarrow> bool" where
  "f2_good good x \<longleftrightarrow> good (f2_a x) \<and> good (f2_b x)"

definition f2_val :: "('e \<Rightarrow> fq) \<Rightarrow> 'e f2 \<Rightarrow> fq2" where
  "f2_val ev x = Fq2 (ev (f2_a x)) (ev (f2_b x))"

text \<open>\<open>\<xi> = 9 + u\<close>, by which \<open>mulXi\<close> multiplies.\<close>

definition fq2_xi :: fq2 where
  "fq2_xi = Fq2 9 1"

lemma fq2_xi_sel [simp]: "fq2_re fq2_xi = 9" "fq2_im fq2_xi = 1"
  by (simp_all add: fq2_xi_def)

locale f2_class = base_field "base_ops.truncate B" good ev
  for B :: "'e inv_ops" and good :: "'e \<Rightarrow> bool" and ev :: "'e \<Rightarrow> fq" +
  fixes nr :: 'e
  assumes inv_law: "good x \<Longrightarrow> ev x \<noteq> 0 \<Longrightarrow> good (f_inv B x) \<and> ev (f_inv B x) = inverse (ev x)"
    and nr_law: "good nr" "ev nr = - 1"
begin

abbreviation X :: "'e f2_field" where "X \<equiv> F2_initField B nr"
abbreviation gd :: "'e f2 \<Rightarrow> bool" where "gd \<equiv> f2_good good"
abbreviation vl :: "'e f2 \<Rightarrow> fq2" where "vl \<equiv> f2_val ev"

lemmas base_laws = laws [unfolded base_ops.truncate_def base_ops.simps]

lemma f2_F [simp]: "f2_F X = B"
  by (simp add: F2_initField_def)

lemma nr_type: "typeOfNr X = nr_is_negone"
proof -
  have "(0 :: fq) \<noteq> - 1" "(1 :: fq) \<noteq> - 1" using fq_no_sqrt_minus_1 [of 0] fq_no_sqrt_minus_1 [of 1] by auto
  then show ?thesis using nr_law by (simp add: F2_initField_def base_laws)
qed

lemma f2_mulByNr: "good x \<Longrightarrow> good (F2_mulByNr X x) \<and> ev (F2_mulByNr X x) = - ev x"
  by (simp add: F2_mulByNr_def nr_type base_laws)

lemma f2_add: "gd x \<Longrightarrow> gd y \<Longrightarrow> gd (F2_add X x y) \<and> vl (F2_add X x y) = vl x + vl y"
  by (simp add: F2_add_def f2_good_def f2_val_def base_laws fq2_eq_iff)

lemma f2_sub: "gd x \<Longrightarrow> gd y \<Longrightarrow> gd (F2_sub X x y) \<and> vl (F2_sub X x y) = vl x - vl y"
  by (simp add: F2_sub_def f2_good_def f2_val_def base_laws fq2_eq_iff)

lemma f2_neg: "gd x \<Longrightarrow> gd (F2_neg X x) \<and> vl (F2_neg X x) = - vl x"
  by (simp add: F2_neg_def f2_good_def f2_val_def base_laws fq2_eq_iff)

lemma f2_dbl: "gd x \<Longrightarrow> gd (F2_dbl X x) \<and> vl (F2_dbl X x) = 2 * vl x"
  by (simp add: F2_dbl_def f2_good_def f2_val_def base_laws fq2_eq_iff)

lemma f2_conjugate: "gd x \<Longrightarrow> gd (F2_conjugate X x) \<and> vl (F2_conjugate X x) = fq2_conj (vl x)"
  by (simp add: F2_conjugate_def f2_good_def f2_val_def base_laws fq2_eq_iff)

lemma f2_mul: "gd x \<Longrightarrow> gd y \<Longrightarrow> gd (F2_mul X x y) \<and> vl (F2_mul X x y) = vl x * vl y"
  by (simp add: F2_mul_def Let_def f2_good_def f2_val_def f2_mulByNr base_laws fq2_eq_iff algebra_simps)

lemma f2_mulScalar: "gd x \<Longrightarrow> good c \<Longrightarrow> gd (F2_mulScalar X x c) \<and> vl (F2_mulScalar X x c) = vl x * fq2_of (ev c)"
  by (simp add: F2_mulScalar_def f2_good_def f2_val_def base_laws fq2_eq_iff)

lemma f2_mulXi: "gd x \<Longrightarrow> gd (F2_mulXi X x) \<and> vl (F2_mulXi X x) = fq2_xi * vl x"
  by (simp add: F2_mulXi_def F2_dbl_def F2_add_def Let_def f2_good_def f2_val_def base_laws fq2_eq_iff)

lemma f2_square: "gd x \<Longrightarrow> gd (F2_square X x) \<and> vl (F2_square X x) = vl x ^ 2"
  by (simp add: F2_square_def nr_type Let_def f2_good_def f2_val_def base_laws fq2_eq_iff power2_eq_square algebra_simps)

lemma f2_inv:
  assumes "gd x" "vl x \<noteq> 0"
  shows "gd (F2_inv X x) \<and> vl (F2_inv X x) = inverse (vl x)"
proof -
  let ?n = "f_sub B (f_square B (f2_a x)) (F2_mulByNr X (f_square B (f2_b x)))"
  have g: "good (f2_a x)" "good (f2_b x)" using assms(1) by (simp_all add: f2_good_def)
  have n: "good ?n" "ev ?n = fq2_norm (vl x)" using g by (simp_all add: f2_mulByNr base_laws fq2_norm_def f2_val_def)
  have "fq2_norm (vl x) \<noteq> 0" using assms(2) by (simp add: fq2_norm_0_iff)
  then have i: "good (f_inv B ?n)" "ev (f_inv B ?n) = inverse (fq2_norm (vl x))" using inv_law n by simp_all
  show ?thesis
    using g i by (simp add: F2_inv_def Let_def f2_good_def base_laws inverse_fq2_def fq2_eq_iff) (simp add: f2_val_def base_laws)
qed

lemma f2_div:
  assumes "gd x" "gd y" "vl y \<noteq> 0"
  shows "gd (F2_div X x y) \<and> vl (F2_div X x y) = vl x / vl y"
  using f2_mul [OF assms(1) conjunct1 [OF f2_inv [OF assms(2,3)]]] f2_inv [OF assms(2,3)]
  by (simp add: F2_div_def Let_def divide_fq2_def)

lemma f2_isZero: "gd x \<Longrightarrow> F2_isZero X x \<longleftrightarrow> vl x = 0"
  by (simp add: F2_isZero_def f2_good_def f2_val_def base_laws fq2_eq_iff)

lemma f2_isOne: "gd x \<Longrightarrow> F2_isOne X x \<longleftrightarrow> vl x = 1"
  by (simp add: F2_isOne_def f2_good_def f2_val_def base_laws fq2_eq_iff)

lemma f2_eq: "gd x \<Longrightarrow> gd y \<Longrightarrow> F2_eq X x y \<longleftrightarrow> vl x = vl y"
  by (simp add: F2_eq_def f2_good_def f2_val_def base_laws fq2_eq_iff)

lemma f2_consts: "gd (f2_fZero X)" "vl (f2_fZero X) = 0" "gd (f2_fOne X)" "vl (f2_fOne X) = 1"
  "gd (f2_fNegOne X)" "vl (f2_fNegOne X) = - 1"
  by (simp_all add: F2_initField_def f2_good_def f2_val_def base_laws fq2_eq_iff)

lemmas f2_laws = f2_add f2_sub f2_neg f2_dbl f2_conjugate f2_mul f2_mulScalar f2_mulXi f2_square
  f2_isZero f2_isOne f2_eq f2_consts

lemma base_field_f2: "base_field (F2_ops X) gd vl"
  by standard (simp_all add: F2_ops_def f2_laws f2_div)

end

end
