(* ===== verification/QPower.thy ===== *)
theory QPower
  imports Fq2Field
begin

text \<open>
  The map \<open>x \<mapsto> x\<^sup>q\<close>: additive in characteristic \<open>q\<close>, the identity on the base field and
  conjugation on the quadratic extension.
\<close>

lemma prime_dvd_binomial:
  assumes "is_prime (int p)" "0 < k" "k < p"
  shows "p dvd (p choose k)"
proof -
  have f: "\<not> int p dvd int (fact m)" if "m < p" for m :: nat
    using that
  proof (induction m)
    case 0
    then show ?case using is_prime_gt_1 [OF assms(1)] by (simp add: zdvd_not_zless)
  next
    case (Suc m)
    then have "\<not> int p dvd int (Suc m)" "\<not> int p dvd int (fact m)" by (auto dest: zdvd_imp_le)
    then show ?case using prime_dvd_mult [OF assms(1), of "int (Suc m)" "int (fact m)"]
      by (simp only: fact_Suc of_nat_mult of_nat_id) blast
  qed
  have "fact k * fact (p - k) * (p choose k) = (fact p :: nat)" using assms by (intro binomial_fact_lemma) simp
  moreover have "p dvd (fact p :: nat)" using assms by (simp add: dvd_fact)
  ultimately have "p dvd fact k * fact (p - k) * (p choose k)" by simp
  then have "int p dvd int (fact k) * (int (fact (p - k)) * int (p choose k))"
    by (simp only: of_nat_dvd_iff flip: of_nat_mult) (simp only: mult.assoc)
  moreover have "\<not> int p dvd int (fact k)" "\<not> int p dvd int (fact (p - k))" using f assms by simp_all
  ultimately have "int p dvd int (p choose k)" using prime_dvd_mult [OF assms(1)] by blast
  then show ?thesis by (simp only: of_nat_dvd_iff)
qed

lemma power_char_add:
  fixes x y :: "'a::comm_ring_1"
  assumes p: "is_prime (int p)" and char: "of_nat p = (0 :: 'a)"
  shows "(x + y) ^ p = x ^ p + y ^ p"
proof -
  have p1: "1 < p" using is_prime_gt_1 [OF p] by simp
  have z: "of_nat (p choose k) = (0 :: 'a)" if "k \<in> {0<..<p}" for k
  proof -
    have "p dvd (p choose k)" using prime_dvd_binomial [OF p, of k] that by simp
    then obtain m where "p choose k = p * m" by (elim dvdE)
    then show ?thesis using char by simp
  qed
  have "(x + y) ^ p = (\<Sum>k\<le>p. of_nat (p choose k) * x ^ k * y ^ (p - k))" by (rule binomial_ring)
  also have "\<dots> = (\<Sum>k\<in>{0, p}. of_nat (p choose k) * x ^ k * y ^ (p - k))"
  proof (rule sum.mono_neutral_right)
    show "\<forall>k \<in> {..p} - {0, p}. of_nat (p choose k) * x ^ k * y ^ (p - k) = 0" using z by auto
  qed auto
  also have "\<dots> = x ^ p + y ^ p" using p1 by (simp add: add.commute)
  finally show ?thesis .
qed

definition q_nat :: nat where
  "q_nat = nat fq_prime"

lemma q_nat: "int q_nat = fq_prime" "1 < q_nat" "is_prime (int q_nat)"
  using fq_prime_gt_1 is_prime_fq by (simp_all add: q_nat_def)

lemma fq_char: "of_nat q_nat = (0 :: fq)"
proof -
  have "of_nat q_nat = (of_int (int q_nat) :: fq)" by simp
  also have "\<dots> = of_fq fq_prime" unfolding q_nat(1) by (rule of_fq_int [symmetric])
  finally show ?thesis by (simp add: of_fq_eq_0_iff)
qed

lemma fq2_char: "of_nat q_nat = (0 :: fq2)"
  by (simp add: fq2_eq_iff fq_char)

lemma fq_power_q: "(x :: fq) ^ q_nat = x"
proof (cases "x = 0")
  case True
  then show ?thesis using q_nat(2) by simp
next
  case False
  have "q_nat = Suc (nat (fq_prime - 1))" using fq_prime_gt_1 by (simp add: q_nat_def)
  then have "x ^ q_nat = x ^ Suc (nat (fq_prime - 1))" by (rule arg_cong)
  then show ?thesis by (simp only: power_Suc fq_fermat [OF False] mult_1_right)
qed

lemma fq2_of_hom: "fq2_of (x + y) = fq2_of x + fq2_of y" "fq2_of (x * y) = fq2_of x * fq2_of y"
  "fq2_of 0 = 0" "fq2_of 1 = 1"
  by (simp_all add: fq2_eq_iff)

lemma fq2_of_power: "fq2_of (x ^ n) = fq2_of x ^ n"
  by (induction n) (simp_all add: fq2_of_hom)

text \<open>\<open>u\<^sup>q = -u\<close>, as the prime is 3 modulo 4.\<close>

lemma fq2_i_power: "Fq2 0 1 ^ q_nat = - Fq2 0 1"
proof -
  define k where "k = nat (fq_prime div 4)"
  have q: "q_nat = 4 * k + 3" by (simp add: q_nat_def k_def fq_prime_def)
  have "Fq2 0 1 ^ 4 = 1" "Fq2 0 1 ^ 3 = - Fq2 0 1"
    by (simp_all add: fq2_eq_iff power4_eq_xxxx power3_eq_cube)
  then show ?thesis unfolding q by (simp add: power_add power_mult)
qed

lemma fq2_power_q: "x ^ q_nat = fq2_conj x"
proof -
  have "x = fq2_of (fq2_re x) + Fq2 0 1 * fq2_of (fq2_im x)" by (simp add: fq2_eq_iff)
  then have "x ^ q_nat = fq2_of (fq2_re x) ^ q_nat + (Fq2 0 1 * fq2_of (fq2_im x)) ^ q_nat"
    using power_char_add [OF q_nat(3) fq2_char] by metis
  also have "\<dots> = fq2_conj x"
    by (simp add: power_mult_distrib fq2_i_power fq2_eq_iff fq_power_q flip: fq2_of_power)
  finally show ?thesis .
qed

end
