(* ===== verification/XiPower.thy ===== *)
theory XiPower
  imports QPower
begin

text \<open>
  The power \<open>\<xi>\<^bsup>(q-1)/6\<^esup>\<close> in the quadratic extension, on which the Frobenius maps of the tower and
  its irreducibility rest. The group of units of the extension has \<open>q\<^sup>2 - 1\<close> elements, of which
  144 have an order that divides a power of 6; \<open>\<xi>\<close> is the product of a sixth power \<open>\<rho>\<^sup>6\<close> and an
  element \<open>\<gamma>\<close> of order 144. The power of the first factor is \<open>\<rho>\<^bsup>q-1\<^esup>\<close>, the conjugate of \<open>\<rho>\<close>
  divided by \<open>\<rho>\<close>, that of the second depends on the exponent modulo 144 only.
\<close>

section \<open>The computation\<close>

definition fq2_int :: "int \<Rightarrow> int \<Rightarrow> fq2" where
  "fq2_int a b = Fq2 (of_fq a) (of_fq b)"

lemma of_fq_prime: "of_fq fq_prime = 0"
  by (simp add: of_fq_eq_0_iff)

text \<open>Products; \<open>n\<close> is the opposite of the imaginary part of the first factor.\<close>

lemma fq2_int_mult:
  assumes "b + n = fq_prime" "a * c + n * d = e + k * fq_prime" "a * d + b * c = f + l * fq_prime"
  shows "fq2_int a b * fq2_int c d = fq2_int e f"
proof -
  have n: "of_fq n = - of_fq b" using arg_cong [OF assms(1), of of_fq] by (simp add: of_fq_hom of_fq_prime eq_neg_iff_add_eq_0 add.commute)
  show ?thesis
    using arg_cong [OF assms(2), of of_fq] arg_cong [OF assms(3), of of_fq]
    by (simp add: fq2_int_def fq2_eq_iff of_fq_hom of_fq_prime n)
qed

lemma fq2_int_square:
  assumes "b + n = fq_prime" "(a + b) * (a + n) = e + k * fq_prime" "a * b + a * b = f + l * fq_prime"
  shows "fq2_int a b * fq2_int a b = fq2_int e f"
proof (rule fq2_int_mult [OF assms(1)])
  have "a * a + n * b = (a + b) * (a + n) - a * (b + n)" by (simp add: algebra_simps)
  then show "a * a + n * b = e + (k - a) * fq_prime" using assms(2) by (simp add: assms(1) left_diff_distrib)
  show "a * b + b * a = f + l * fq_prime" using assms(3) by simp
qed

lemmas numeral_eval = fq_prime_def numeral_times_numeral numeral_plus_numeral mult_num_simps add_num_simps add_0_left add_0_right

abbreviation xi_root :: fq2 where "xi_root \<equiv> fq2_int
    12122914939105493910868458331604061221798903618490294462583197313345872514727
    3074388270038684720075442724577888268917874076469478950656467045457460449219"

abbreviation xi_tor :: fq2 where "xi_tor \<equiv> fq2_int
    4931163215029817498636237371166504623285127378454754350981498729304629623838
    16830806999223961919034227411921386032553622591468818830724020565057313612131"

abbreviation xi_sixth :: fq2 where "xi_sixth \<equiv> fq2_int
    8376118865763821496583973867626364092589906065868298776909617916018768340080
    16469823323077808223889137241176536799009286646108169935659301613961712198316"

abbreviation xi_root2 :: fq2 where "xi_root2 \<equiv> fq2_int
    4187869960195607682224324691432810582175245833862497620030766409816192841521
    3661217940220549764476353118344249101500317355121873760984343655478174275666"

lemma xi_root2: "xi_root * xi_root = xi_root2"
  by (rule fq2_int_square [where n = 18813854601800590502170963020679386819778437080828344712032570849187765759364
      and k = 21479817716636046171191157374399033621467061314512939713421961176352968546555
      and l = 3405531243936787670089358410238457568223870310163327976086549698527874727720])
    (simp_all only: numeral_eval)

abbreviation xi_root3 :: fq2 where "xi_root3 \<equiv> fq2_int
    13461509942224963807966245140537931170844019094972151558623820160233865746286
    8802108873887261899925397355662492007779442616313045388744798580743815303970"

lemma xi_root3: "xi_root2 * xi_root = xi_root3"
  by (rule fq2_int_mult [where n = 18227024931618725457770052626913025987195993802175949901704694239167051932917
      and k = 4879612473981232885176691680148449590858934409988833882810958021498778440088
      and l = 2616005874942210144046230478570710360002541395374068352144969894767649033817])
    (simp_all only: numeral_eval)

abbreviation xi_root6 :: fq2 where "xi_root6 \<equiv> fq2_int
    17671942633850580425984209289361346740951777891187700549406542221814986477025
    12103020174917572019162410723571051511184836744188037591559021850037545026923"

lemma xi_root6: "xi_root3 * xi_root3 = xi_root6"
  by (rule fq2_int_square [where n = 13086133997952013322321008389594783080916868540984778273944239313901410904613
      and k = 27002927033050873668503317931679033895588288630185582551502012854218732110393
      and l = 10826787404741843974099793149779149789206844477301561667733633400583398247499])
    (simp_all only: numeral_eval)

lemma xi_split: "xi_root6 * xi_tor = fq2_int 9 1"
  by (rule fq2_int_mult [where n = 9785222696921703203083995021686223577511474413109786071130016044607681181660
      and k = 11505557096795601223195222712000356330701859928453059584262397550858904292047
      and l = 16315381081067357873339392960707786109281737944905592009456825097477287924756])
    (simp_all only: numeral_eval)

abbreviation xi_tor2 :: fq2 where "xi_tor2 \<equiv> fq2_int
    5691668684692868001097450236379606042911492122810514003515148536502284708554
    16196574187146407221148955508877669045784819034487309659173889358142941500029"

lemma xi_tor2: "xi_tor * xi_tor = xi_tor2"
  by (rule fq2_int_square [where n = 5057435872615313303212178333335889056142688565829004831965017329587912596452
      and k = 9930975140408336316274957458178623212426913999291834267854035968773746266632
      and l = 7583565007003730813373426275268173889637443286673695469922786908084152529169])
    (simp_all only: numeral_eval)

abbreviation xi_tor4 :: fq2 where "xi_tor4 \<equiv> fq2_int
    0
    19895247255497403403422303219301992521751749499552101323204351297954795986100"

lemma xi_tor4: "xi_tor2 * xi_tor2 = xi_tor4"
  by (rule fq2_int_square [where n = 5691668684692868001097450236379606042911492122810514003515148536502284708554
      and k = 11383337369385736002194900472759212085822984245621028007030297073004569417108
      and l = 8423292325478447402973672870687169371305935751319041944145916403500978097904])
    (simp_all only: numeral_eval)

abbreviation xi_tor8 :: fq2 where "xi_tor8 \<equiv> fq2_int
    4336362792337107706980495335260139288113033627674302120110336174121206966103
    0"

lemma xi_tor8: "xi_tor4 * xi_tor4 = xi_tor8"
  by (rule fq2_int_square [where n = 1992995616341871818824102525955282566944561657745722339484686596690430222483
      and k = 1811526891327484832588782438541478579090159500853085946162815288470814808659
      and l = 0])
    (simp_all only: numeral_eval)

abbreviation xi_tor16 :: fq2 where "xi_tor16 \<equiv> fq2_int
    6842935079230004127707477632842844890227747532459477263852101868624654581657
    0"

lemma xi_tor16: "xi_tor8 * xi_tor8 = xi_tor16"
  by (rule fq2_int_square [where n = 21888242871839275222246405745257275088696311157297823662689037894645226208583
      and k = 5195456067976805911933954912001880067859521282337887809178455145689957049247
      and l = 0])
    (simp_all only: numeral_eval)

abbreviation xi_tor32 :: fq2 where "xi_tor32 \<equiv> fq2_int
    17163191934745891739132544720428239898291370081950630242931335389727612144517
    0"

lemma xi_tor32: "xi_tor16 * xi_tor16 = xi_tor32"
  by (rule fq2_int_square [where n = 21888242871839275222246405745257275088696311157297823662689037894645226208583
      and k = 8982246159280248517491511467686145829409837015245125203744680999244742621261
      and l = 0])
    (simp_all only: numeral_eval)

abbreviation xi_tor48 :: fq2 where "xi_tor48 \<equiv> fq2_int
    21888242871839275220042445260109153167277707414472061641714758635765020556616
    0"

lemma xi_tor48: "xi_tor32 * xi_tor16 = xi_tor48"
  by (rule fq2_int_mult [where n = 21888242871839275222246405745257275088696311157297823662689037894645226208583
      and k = 5365739445121620898390153707872935069962608237129702914901962297368699389091
      and l = 0])
    (simp_all only: numeral_eval)

abbreviation xi_tor96 :: fq2 where "xi_tor96 \<equiv> fq2_int
    2203960485148121921418603742825762020974279258880205651966
    0"

lemma xi_tor96: "xi_tor48 * xi_tor48 = xi_tor96"
  by (rule fq2_int_square [where n = 21888242871839275222246405745257275088696311157297823662689037894645226208583
      and k = 43776485743678550437880930035070184413358731221441045240986179527058697670646
      and l = 0])
    (simp_all only: numeral_eval)

lemma xi_tor144: "xi_tor96 * xi_tor48 = fq2_int 1 0"
  by (rule fq2_int_mult [where n = 21888242871839275222246405745257275088696311157297823662689037894645226208583
      and k = 2203960485148121921196683607503078042443337744471343442585
      and l = 0])
    (simp_all only: numeral_eval)

abbreviation xi_aux1 :: fq2 where "xi_aux1 \<equiv> fq2_int
    13433717127591647335060862235730002367794524208282445716269467353540878908429
    2231115373528426053273762962961615419015756784691921376454692387857662566023"

lemma xi_aux1: "xi_sixth * xi_root = xi_aux1"
  by (rule fq2_int_mult [where n = 5418419548761466998357268504080738289687024511189653727029736280683514010267
      and k = 5400218862904990475633539325011832604851545651726826681807468701504738797388
      and l = 10298392160438436259633296921817815678323415337277070978844247958425192753563])
    (simp_all only: numeral_eval)

abbreviation xi_aux2 :: fq2 where "xi_aux2 \<equiv> fq2_int
    21104959879590682785583006908920192413531354374437518558450386557250088338015
    756590815984673629876593836891811799794990226598495062421512148887547827761"

lemma xi_aux2: "xi_aux1 * xi_tor16 = xi_aux2"
  by (rule fq2_int_mult [where n = 19657127498310849168972642782295659669680554372605902286234345506787563642560
      and k = 4199791400118233449839482353102750589474016338067413406871113060111153242986
      and l = 697514996736880521385784369156768344320270853259930128347187151243790850450])
    (simp_all only: numeral_eval)

abbreviation xi_root_conj :: fq2 where "xi_root_conj \<equiv> fq2_int
    12122914939105493910868458331604061221798903618490294462583197313345872514727
    18813854601800590502170963020679386819778437080828344712032570849187765759364"

lemma xi_aux3: "xi_tor * xi_root_conj = xi_aux2"
  by (rule fq2_int_mult [where n = 5057435872615313303212178333335889056142688565829004831965017329587912596452
      and k = 7078226255031893413318123777575154928104491763088712217576285846921121722533
      and l = 13560368051986566557108119143577961685559113947458852350031877011467470673476])
    (simp_all only: numeral_eval)

abbreviation xi_sixth2 :: fq2 where "xi_sixth2 \<equiv> fq2_int
    21575463638280843010398324269430826099269044274347216827212613867836435027261
    10307601595873709700152284273816112264069230130616436755625194854815875713954"

lemma xi_sixth2: "xi_sixth * xi_sixth = xi_sixth2"
  by (rule fq2_int_square [where n = 5418419548761466998357268504080738289687024511189653727029736280683514010267
      and k = 15658557243533089258208087536676012408398634569337112751350904926671216409297
      and l = 12605232741611732518200907597562414454486712087715537939239625467614142821682])
    (simp_all only: numeral_eval)

abbreviation xi_sixth3 :: fq2 where "xi_sixth3 \<equiv> fq2_int
    2821565182194536844548159561693502659359617185244120367078079554186484126554
    3505843767911556378687030309984248845540243509899259641013678093033130930403"

lemma xi_sixth3: "xi_sixth2 * xi_sixth = xi_sixth3"
  by (rule fq2_int_mult [where n = 11580641275965565522094121471441162824627081026681386907063843039829350494629
      and k = 16970287015555566124843298906288714991998522973245678216367612200216673255230
      and l = 20178950544824406101271420337966227911472077371318223123757831118210307163071])
    (simp_all only: numeral_eval)

abbreviation xi_sixth4 :: fq2 where "xi_sixth4 \<equiv> fq2_int
    2581911344467009335267311115468803099551665605076196740867805258568234346338
    19937756971775647987995932169929341994314640652964949448313374472400716661030"

lemma xi_sixth4: "xi_sixth2 * xi_sixth2 = xi_sixth4"
  by (rule fq2_int_square [where n = 11580641275965565522094121471441162824627081026681386907063843039829350494629
      and k = 48296168042408085718925417802924582057674549058019533648271219786331004172964
      and l = 20320615476702375430506860014609115530950080671171966475629169588660202602626])
    (simp_all only: numeral_eval)

lemma xi_sixth_powers: "xi_sixth ^ 2 = xi_sixth2" "xi_sixth ^ 3 = xi_sixth3" "xi_sixth ^ 4 = xi_sixth4"
proof -
  show 2: "xi_sixth ^ 2 = xi_sixth2" by (simp only: power2_eq_square xi_sixth2)
  show "xi_sixth ^ 3 = xi_sixth3" by (simp only: power3_eq_cube xi_sixth2 xi_sixth3)
  have "xi_sixth ^ 4 = xi_sixth ^ 2 * xi_sixth ^ 2" by (simp flip: power_add)
  then show "xi_sixth ^ 4 = xi_sixth4" by (simp only: 2 xi_sixth4)
qed

lemma xi_int: "fq2_xi = fq2_int 9 1"
  by (simp add: fq2_xi_def fq2_int_def of_fq_int)

lemma fq2_int_1: "fq2_int 1 0 = 1"
  by (simp add: fq2_int_def of_fq_int fq2_eq_iff)

lemma xi_tor_power: "xi_tor ^ 144 = 1" and xi_tor_16: "xi_tor ^ 16 = xi_tor16"
proof -
  have "xi_tor ^ 16 = (((xi_tor ^ 2) ^ 2) ^ 2) ^ 2" by (simp flip: power_mult)
  then show 16: "xi_tor ^ 16 = xi_tor16" by (simp only: power2_eq_square xi_tor2 xi_tor4 xi_tor8 xi_tor16)
  have "xi_tor ^ 144 = (xi_tor16 * xi_tor16 * xi_tor16) * (xi_tor16 * xi_tor16 * xi_tor16) * (xi_tor16 * xi_tor16 * xi_tor16)"
    by (simp flip: 16 power_add)
  also have "\<dots> = 1" by (simp only: xi_tor32 xi_tor48 xi_tor96 xi_tor144 fq2_int_1)
  finally show "xi_tor ^ 144 = 1" .
qed

lemma xi_root_6: "fq2_xi = xi_root ^ 6 * xi_tor"
proof -
  have "xi_root ^ 6 = (xi_root * xi_root * xi_root) * (xi_root * xi_root * xi_root)"
    by (simp flip: power_Suc power_add add: power_numeral_reduce mult.assoc)
  then show ?thesis by (simp only: xi_root2 xi_root3 xi_root6 xi_split xi_int)
qed

lemma xi_root_q: "xi_root ^ q_nat = xi_root_conj"
proof -
  have "of_fq (- x) = of_fq (fq_prime - x)" for x by (simp add: of_fq_hom of_fq_prime)
  then show ?thesis by (simp add: fq2_power_q fq2_int_def fq2_eq_iff flip: of_fq_minus) (simp add: fq_prime_def)
qed

theorem xi_power: "fq2_xi ^ ((q_nat - 1) div 6) = xi_sixth"
proof -
  define k where "k = (q_nat - 1) div 6"
  define m where "m = k div 144"
  have q: "q_nat = 21888242871839275222246405745257275088696311157297823662689037894645226208583"
    by (simp add: q_nat_def fq_prime_def)
  have k: "k = 144 * m + 129" "q_nat = Suc (6 * k)" by (simp_all add: m_def k_def q)
  have n: "xi_root \<noteq> 0" "xi_tor \<noteq> 0"
    using xi_root_6 xi_tor_power fq2_xi_sel(2) by (metis fq2_im_simps(1) mult_eq_0_iff zero_neq_one zero_power2 power_eq_0_iff zero_less_numeral) (use xi_tor_power in fastforce)
  have "fq2_xi ^ k * (xi_root * xi_tor ^ 16) = (xi_root ^ 6) ^ k * xi_root * (xi_tor ^ k * xi_tor ^ 15) * xi_tor"
    unfolding xi_root_6 by (simp only: power_mult_distrib) (simp add: ac_simps flip: power_Suc)
  also have "xi_tor ^ k * xi_tor ^ 15 = (xi_tor ^ 144) ^ (m + 1)" by (simp add: k(1) flip: power_add power_mult)
  also have "\<dots> = 1" by (simp only: xi_tor_power power_one)
  also have "(xi_root ^ 6) ^ k * xi_root = xi_root ^ q_nat" by (simp only: k(2) power_Suc2 power_mult)
  also have "xi_root ^ q_nat * 1 * xi_tor = xi_sixth * (xi_root * xi_tor ^ 16)"
    by (simp only: xi_root_q xi_tor_16 mult.assoc [symmetric] xi_aux1 xi_aux2 xi_aux3 mult_1_right mult.commute [of xi_root_conj])
  finally show ?thesis using n unfolding k_def by simp
qed

end
