(* ===== verification/Fq6Field.thy ===== *)
theory Fq6Field
  imports XiPower
begin

text \<open>
  The sextic extension \<open>x \<tau>\<^sup>2 + y \<tau> + z\<close>, \<open>\<tau>\<^sup>3 = \<xi>\<close>, as a type and a field. It is one because
  \<open>\<xi>\<close> is not a cube: its norm \<open>82\<close> would be a cube of the base field, but the norm of
  \<open>\<xi>\<^bsup>(q-1)/6\<^esup>\<close> has order 6.
\<close>

section \<open>\<open>\<xi>\<close> is neither a cube nor a square, and neither is its norm\<close>

lemma fq2_norm_power: "fq2_norm (x ^ n) = fq2_norm x ^ n"
  by (induction n) (simp_all add: fq2_norm_mult fq2_norm_def [of 1])

text \<open>The norm of \<open>\<xi>\<^bsup>(q-1)/6\<^esup>\<close> is a primitive sixth root of unity.\<close>

definition fq_omega6 :: fq where
  "fq_omega6 = of_fq 21888242871839275220042445260109153167277707414472061641714758635765020556617"

lemma of_fq_reduce: "x = y + k * fq_prime \<Longrightarrow> of_fq x = of_fq y"
  by (simp add: of_fq_hom of_fq_prime)

lemma norm_sixth: "fq2_norm xi_sixth = fq_omega6"
  unfolding fq2_norm_def fq2_int_def fq_omega6_def fq2.sel power2_eq_square of_fq_mult [symmetric] of_fq_add [symmetric]
  by (rule of_fq_reduce [where k = 15598074708228655218869851970971817356454736547444593497655022181436807992833]) (simp only: numeral_eval)

lemma omega6: "fq_omega6 ^ 2 = fq_omega6 - 1"
proof -
  have "of_fq 21888242871839275220042445260109153167277707414472061641714758635765020556616 = fq_omega6 - 1"
    unfolding fq_omega6_def of_fq_1 [symmetric] of_fq_diff [symmetric] by simp
  then show ?thesis
    unfolding power2_eq_square fq_omega6_def of_fq_mult [symmetric]
    by (rule subst) (rule of_fq_reduce [where k = 21888242871839275217838484774961031246081023806968983599271420891293677114031], simp only: numeral_eval)
qed

lemma omega6_order: "fq_omega6 ^ 2 \<noteq> 1" "fq_omega6 ^ 3 = - 1" "fq_omega6 ^ 6 = 1"
proof -
  have "fq_omega6 = of_fq 2 \<longleftrightarrow> False" by (simp add: fq_omega6_def of_fq_eq_iff fq_prime_def)
  then show "fq_omega6 ^ 2 \<noteq> 1" by (simp add: omega6 of_fq_int diff_eq_eq)
  have "fq_omega6 ^ 3 = fq_omega6 * fq_omega6 ^ 2" by (simp add: power3_eq_cube power2_eq_square)
  also have "\<dots> = fq_omega6 * (fq_omega6 - 1)" by (simp only: omega6)
  also have "\<dots> = fq_omega6 ^ 2 - fq_omega6" by (simp add: right_diff_distrib power2_eq_square)
  also have "\<dots> = - 1" by (simp add: omega6)
  finally show 3: "fq_omega6 ^ 3 = - 1" .
  have "fq_omega6 ^ 6 = (fq_omega6 ^ 3) ^ 2" by (simp flip: power_mult)
  then show "fq_omega6 ^ 6 = 1" by (simp add: 3)
qed

lemma norm_xi_power: "fq2_norm fq2_xi ^ ((q_nat - 1) div 6) = fq_omega6"
  using arg_cong [OF xi_power, of fq2_norm] by (simp only: fq2_norm_power norm_sixth)

lemma q_nat_6: "q_nat - 1 = (q_nat - 1) div 6 * 6"
  by (simp add: q_nat_def fq_prime_def)

lemma fq_power_q1: "(c :: fq) \<noteq> 0 \<Longrightarrow> c ^ (q_nat - 1) = 1"
  using fq_fermat [of c] fq_prime_gt_1 by (simp add: q_nat_def nat_diff_distrib)

lemma norm_xi_not_power:
  assumes "n = 2 \<or> n = 3"
  shows "c ^ n \<noteq> fq2_norm fq2_xi"
proof
  assume c: "c ^ n = fq2_norm fq2_xi"
  let ?k = "(q_nat - 1) div 6"
  have n: "n * (6 div n) = 6" using assms by auto
  have "fq_omega6 ^ (6 div n) = (c ^ n) ^ (?k * (6 div n))" unfolding c power_mult norm_xi_power ..
  also have "\<dots> = c ^ (?k * (n * (6 div n)))" by (simp add: ac_simps flip: power_mult)
  also have "\<dots> = c ^ (q_nat - 1)" unfolding n q_nat_6 [symmetric] ..
  also have "\<dots> = 1"
  proof (rule fq_power_q1)
    have "fq2_norm fq2_xi \<noteq> 0" by (simp add: fq2_norm_0_iff fq2_eq_iff)
    then show "c \<noteq> 0" using c assms by auto
  qed
  finally have "fq_omega6 ^ (6 div n) = 1" .
  moreover have "(- 1 :: fq) \<noteq> 1" using fq_no_sqrt_minus_1 [of 1] by auto
  ultimately show False using assms omega6_order(1,2) by auto
qed

lemma xi_not_cube: "x ^ 3 \<noteq> fq2_xi"
  using norm_xi_not_power [of 3 "fq2_norm x"] by (auto simp flip: fq2_norm_power)

lemma xi_not_square: "x ^ 2 \<noteq> fq2_xi"
  using norm_xi_not_power [of 2 "fq2_norm x"] by (auto simp flip: fq2_norm_power)

lemma xi_nonzero: "fq2_xi \<noteq> 0"
  by (simp add: fq2_eq_iff)

section \<open>The ring\<close>

datatype fq6 = Fq6 (fq6_x: fq2) (fq6_y: fq2) (fq6_z: fq2)

lemma fq6_eq_iff: "a = b \<longleftrightarrow> fq6_x a = fq6_x b \<and> fq6_y a = fq6_y b \<and> fq6_z a = fq6_z b"
  by (cases a; cases b) simp

instantiation fq6 :: comm_ring_1
begin

definition zero_fq6 :: fq6 where "0 = Fq6 0 0 0"
definition one_fq6 :: fq6 where "1 = Fq6 0 0 1"
definition plus_fq6 :: "fq6 \<Rightarrow> fq6 \<Rightarrow> fq6" where
  "a + b = Fq6 (fq6_x a + fq6_x b) (fq6_y a + fq6_y b) (fq6_z a + fq6_z b)"
definition minus_fq6 :: "fq6 \<Rightarrow> fq6 \<Rightarrow> fq6" where
  "a - b = Fq6 (fq6_x a - fq6_x b) (fq6_y a - fq6_y b) (fq6_z a - fq6_z b)"
definition uminus_fq6 :: "fq6 \<Rightarrow> fq6" where
  "- a = Fq6 (- fq6_x a) (- fq6_y a) (- fq6_z a)"
definition times_fq6 :: "fq6 \<Rightarrow> fq6 \<Rightarrow> fq6" where
  "a * b = Fq6 (fq6_x a * fq6_z b + fq6_y a * fq6_y b + fq6_z a * fq6_x b)
     (fq6_y a * fq6_z b + fq6_z a * fq6_y b + fq2_xi * (fq6_x a * fq6_x b))
     (fq6_z a * fq6_z b + fq2_xi * (fq6_x a * fq6_y b + fq6_y a * fq6_x b))"

instance
  by standard (simp_all add: zero_fq6_def one_fq6_def plus_fq6_def minus_fq6_def uminus_fq6_def times_fq6_def algebra_simps)

end

lemma fq6_simps [simp]:
  "fq6_x 0 = 0" "fq6_y 0 = 0" "fq6_z 0 = 0" "fq6_x 1 = 0" "fq6_y 1 = 0" "fq6_z 1 = 1"
  "fq6_x (a + b) = fq6_x a + fq6_x b" "fq6_y (a + b) = fq6_y a + fq6_y b" "fq6_z (a + b) = fq6_z a + fq6_z b"
  "fq6_x (a - b) = fq6_x a - fq6_x b" "fq6_y (a - b) = fq6_y a - fq6_y b" "fq6_z (a - b) = fq6_z a - fq6_z b"
  "fq6_x (- a) = - fq6_x a" "fq6_y (- a) = - fq6_y a" "fq6_z (- a) = - fq6_z a"
  "fq6_x (a * b) = fq6_x a * fq6_z b + fq6_y a * fq6_y b + fq6_z a * fq6_x b"
  "fq6_y (a * b) = fq6_y a * fq6_z b + fq6_z a * fq6_y b + fq2_xi * (fq6_x a * fq6_x b)"
  "fq6_z (a * b) = fq6_z a * fq6_z b + fq2_xi * (fq6_x a * fq6_y b + fq6_y a * fq6_x b)"
  by (simp_all add: zero_fq6_def one_fq6_def plus_fq6_def minus_fq6_def uminus_fq6_def times_fq6_def)

lemma fq6_of_nat [simp]: "fq6_x (of_nat n) = 0" "fq6_y (of_nat n) = 0" "fq6_z (of_nat n) = of_nat n"
  by (induction n) simp_all

lemma fq6_numeral [simp]: "fq6_x (numeral n) = 0" "fq6_y (numeral n) = 0" "fq6_z (numeral n) = numeral n"
  using fq6_of_nat [of "numeral n"] by simp_all

definition fq6_of :: "fq2 \<Rightarrow> fq6" where
  "fq6_of c = Fq6 0 0 c"

definition fq6_tau :: fq6 where
  "fq6_tau = Fq6 0 1 0"

lemma fq6_of_sel [simp]: "fq6_x (fq6_of c) = 0" "fq6_y (fq6_of c) = 0" "fq6_z (fq6_of c) = c"
  by (simp_all add: fq6_of_def)

lemma fq6_tau_sel [simp]: "fq6_x fq6_tau = 0" "fq6_y fq6_tau = 1" "fq6_z fq6_tau = 0"
  by (simp_all add: fq6_tau_def)

lemma fq6_of_hom: "fq6_of (x + y) = fq6_of x + fq6_of y" "fq6_of (x * y) = fq6_of x * fq6_of y"
  "fq6_of 0 = 0" "fq6_of 1 = 1" "fq6_of (x - y) = fq6_of x - fq6_of y" "fq6_of (- x) = - fq6_of x"
  by (simp_all add: fq6_eq_iff)

lemma fq6_of_power: "fq6_of (x ^ n) = fq6_of x ^ n"
  by (induction n) (simp_all add: fq6_of_hom)

lemma fq6_tau_cube: "fq6_tau ^ 3 = fq6_of fq2_xi"
  by (simp add: power3_eq_cube fq6_eq_iff)

lemma fq6_split: "a = fq6_of (fq6_x a) * fq6_tau ^ 2 + fq6_of (fq6_y a) * fq6_tau + fq6_of (fq6_z a)"
  by (simp add: fq6_eq_iff power2_eq_square)

section \<open>The norm and the inverse\<close>

definition fq6_adj :: "fq6 \<Rightarrow> fq6" where
  "fq6_adj a = Fq6 (fq6_y a ^ 2 - fq6_x a * fq6_z a) (fq2_xi * fq6_x a ^ 2 - fq6_y a * fq6_z a)
     (fq6_z a ^ 2 - fq2_xi * (fq6_x a * fq6_y a))"

definition fq6_norm :: "fq6 \<Rightarrow> fq2" where
  "fq6_norm a = fq6_z a ^ 3 + fq2_xi * fq6_y a ^ 3 + fq2_xi ^ 2 * fq6_x a ^ 3 - 3 * fq2_xi * (fq6_x a * fq6_y a * fq6_z a)"

lemma fq6_mult_adj: "a * fq6_adj a = fq6_of (fq6_norm a)"
  by (simp add: fq6_eq_iff fq6_adj_def fq6_norm_def power2_eq_square power3_eq_cube algebra_simps)

lemma cubic_form_zero:
  fixes x y z k :: "'a::field"
  assumes nc: "\<And>t. t ^ 3 \<noteq> k" and n: "z ^ 3 + k * y ^ 3 + k ^ 2 * x ^ 3 - 3 * k * (x * y * z) = 0"
  shows "x = 0 \<and> y = 0 \<and> z = 0"
proof -
  have root: "\<not> (b ^ 3 = k * c ^ 3 \<and> c \<noteq> 0)" for b c
  proof
    assume bc: "b ^ 3 = k * c ^ 3 \<and> c \<noteq> 0"
    then have "(b / c) ^ 3 = k" by (simp add: power_divide)
    then show False using nc by blast
  qed
  let ?B = "k * x ^ 2 - y * z" and ?C = "y ^ 2 - x * z"
  have "?B ^ 3 - k * ?C ^ 3 = (k * x ^ 3 - y ^ 3) * (z ^ 3 + k * y ^ 3 + k ^ 2 * x ^ 3 - 3 * k * (x * y * z))"
    by algebra
  then have "?B ^ 3 = k * ?C ^ 3" using n by simp
  then have C: "?C = 0" using root by blast
  have "x = 0"
  proof (rule ccontr)
    assume "x \<noteq> 0"
    have "(y ^ 3 - k * x ^ 3) ^ 2 = 0" using n C \<open>x \<noteq> 0\<close> by algebra
    then show False using root [of y x] \<open>x \<noteq> 0\<close> by simp
  qed
  then show ?thesis using C n by simp
qed

lemma fq6_norm_0_iff: "fq6_norm a = 0 \<longleftrightarrow> a = 0"
  using cubic_form_zero [OF xi_not_cube, of "fq6_z a" "fq6_y a" "fq6_x a"]
  by (auto simp: fq6_norm_def fq6_eq_iff)

instantiation fq6 :: field
begin

definition inverse_fq6 :: "fq6 \<Rightarrow> fq6" where
  "inverse_fq6 a = fq6_adj a * fq6_of (inverse (fq6_norm a))"

definition divide_fq6 :: "fq6 \<Rightarrow> fq6 \<Rightarrow> fq6" where
  "divide_fq6 x y = x * inverse y"

instance
proof
  fix a :: fq6
  assume "a \<noteq> 0"
  then have n: "fq6_norm a \<noteq> 0" by (simp add: fq6_norm_0_iff)
  have "inverse a * a = (a * fq6_adj a) * fq6_of (inverse (fq6_norm a))" by (simp only: inverse_fq6_def ac_simps)
  also have "\<dots> = 1" unfolding fq6_mult_adj using n by (simp flip: fq6_of_hom)
  finally show "inverse a * a = 1" .
next
  show "inverse (0 :: fq6) = 0" by (simp add: inverse_fq6_def fq6_adj_def fq6_eq_iff)
qed (rule divide_fq6_def)

end

text \<open>The norm is multiplicative: it is the product of the conjugates.\<close>

lemma fq6_norm_mult: "fq6_norm (a * b) = fq6_norm a * fq6_norm b"
proof -
  have "fq6_adj (a * b) = fq6_adj a * fq6_adj b"
    unfolding fq6_adj_def by (simp add: fq6_eq_iff) (intro conjI; algebra)
  then have "fq6_of (fq6_norm (a * b)) = fq6_of (fq6_norm a * fq6_norm b)"
    by (metis fq6_mult_adj fq6_of_hom(2) mult.assoc mult.left_commute)
  then show ?thesis by (simp add: fq6_of_def)
qed

lemma tau_not_square: "a ^ 2 \<noteq> fq6_tau"
proof
  assume "a ^ 2 = fq6_tau"
  then have "fq6_norm a ^ 2 = fq6_norm fq6_tau" by (metis fq6_norm_mult power2_eq_square)
  then show False using xi_not_square by (simp add: fq6_norm_def)
qed

end
