(* ===== verification/Fq12Field.thy ===== *)
theory Fq12Field
  imports Fq6Field
begin

text \<open>
  The extension \<open>x w + y\<close>, \<open>w\<^sup>2 = \<tau>\<close>, of degree 12 as a type and a field, and its Frobenius map
  \<open>a \<mapsto> a\<^sup>q\<close> in coordinates, with the powers \<open>q\<^sup>2\<close>, \<open>q\<^sup>6\<close> and \<open>q\<^sup>1\<^sup>2\<close> of it.
\<close>

section \<open>The field\<close>

datatype fq12 = Fq12 (fq12_x: fq6) (fq12_y: fq6)

lemma fq12_eq_iff: "a = b \<longleftrightarrow> fq12_x a = fq12_x b \<and> fq12_y a = fq12_y b"
  by (cases a; cases b) simp

instantiation fq12 :: comm_ring_1
begin

definition zero_fq12 :: fq12 where "0 = Fq12 0 0"
definition one_fq12 :: fq12 where "1 = Fq12 0 1"
definition plus_fq12 :: "fq12 \<Rightarrow> fq12 \<Rightarrow> fq12" where "a + b = Fq12 (fq12_x a + fq12_x b) (fq12_y a + fq12_y b)"
definition minus_fq12 :: "fq12 \<Rightarrow> fq12 \<Rightarrow> fq12" where "a - b = Fq12 (fq12_x a - fq12_x b) (fq12_y a - fq12_y b)"
definition uminus_fq12 :: "fq12 \<Rightarrow> fq12" where "- a = Fq12 (- fq12_x a) (- fq12_y a)"
definition times_fq12 :: "fq12 \<Rightarrow> fq12 \<Rightarrow> fq12" where
  "a * b = Fq12 (fq12_x a * fq12_y b + fq12_y a * fq12_x b) (fq12_y a * fq12_y b + fq6_tau * (fq12_x a * fq12_x b))"

instance
  by standard (simp_all add: zero_fq12_def one_fq12_def plus_fq12_def minus_fq12_def uminus_fq12_def times_fq12_def algebra_simps)

end

lemma fq12_simps [simp]:
  "fq12_x 0 = 0" "fq12_y 0 = 0" "fq12_x 1 = 0" "fq12_y 1 = 1"
  "fq12_x (a + b) = fq12_x a + fq12_x b" "fq12_y (a + b) = fq12_y a + fq12_y b"
  "fq12_x (a - b) = fq12_x a - fq12_x b" "fq12_y (a - b) = fq12_y a - fq12_y b"
  "fq12_x (- a) = - fq12_x a" "fq12_y (- a) = - fq12_y a"
  "fq12_x (a * b) = fq12_x a * fq12_y b + fq12_y a * fq12_x b"
  "fq12_y (a * b) = fq12_y a * fq12_y b + fq6_tau * (fq12_x a * fq12_x b)"
  by (simp_all add: zero_fq12_def one_fq12_def plus_fq12_def minus_fq12_def uminus_fq12_def times_fq12_def)

definition fq12_of :: "fq6 \<Rightarrow> fq12" where
  "fq12_of c = Fq12 0 c"

definition fq12_w :: fq12 where
  "fq12_w = Fq12 1 0"

lemma fq12_of_sel [simp]: "fq12_x (fq12_of c) = 0" "fq12_y (fq12_of c) = c" "fq12_x fq12_w = 1" "fq12_y fq12_w = 0"
  by (simp_all add: fq12_of_def fq12_w_def)

lemma fq12_of_hom: "fq12_of (x + y) = fq12_of x + fq12_of y" "fq12_of (x * y) = fq12_of x * fq12_of y"
  "fq12_of 0 = 0" "fq12_of 1 = 1" "fq12_of (x - y) = fq12_of x - fq12_of y" "fq12_of (- x) = - fq12_of x"
  by (simp_all add: fq12_eq_iff)

lemma fq12_of_power: "fq12_of (x ^ n) = fq12_of x ^ n"
  by (induction n) (simp_all add: fq12_of_hom)

lemma fq12_of_eq_iff [simp]: "fq12_of x = fq12_of y \<longleftrightarrow> x = y"
  by (simp add: fq12_of_def)

lemma fq12_split: "a = fq12_of (fq12_x a) * fq12_w + fq12_of (fq12_y a)"
  by (simp add: fq12_eq_iff)

lemma fq12_w_square: "fq12_w ^ 2 = fq12_of fq6_tau"
  by (simp add: fq12_eq_iff power2_eq_square)

text \<open>The conjugate and the norm.\<close>

definition fq12_conj :: "fq12 \<Rightarrow> fq12" where
  "fq12_conj a = Fq12 (- fq12_x a) (fq12_y a)"

definition fq12_norm :: "fq12 \<Rightarrow> fq6" where
  "fq12_norm a = fq12_y a ^ 2 - fq6_tau * fq12_x a ^ 2"

lemma fq12_conj_sel [simp]: "fq12_x (fq12_conj a) = - fq12_x a" "fq12_y (fq12_conj a) = fq12_y a"
  by (simp_all add: fq12_conj_def)

lemma fq12_mult_conj: "a * fq12_conj a = fq12_of (fq12_norm a)"
  by (simp add: fq12_eq_iff fq12_norm_def power2_eq_square)

lemma fq12_norm_0_iff: "fq12_norm a = 0 \<longleftrightarrow> a = 0"
proof
  assume n: "fq12_norm a = 0"
  show "a = 0"
  proof (cases "fq12_x a = 0")
    case True
    then show ?thesis using n by (simp add: fq12_norm_def fq12_eq_iff)
  next
    case False
    then have "(fq12_y a / fq12_x a) ^ 2 = fq6_tau" using n by (simp add: fq12_norm_def power_divide)
    then show ?thesis using tau_not_square by blast
  qed
qed (simp add: fq12_norm_def)

instantiation fq12 :: field
begin

definition inverse_fq12 :: "fq12 \<Rightarrow> fq12" where
  "inverse_fq12 a = fq12_conj a * fq12_of (inverse (fq12_norm a))"

definition divide_fq12 :: "fq12 \<Rightarrow> fq12 \<Rightarrow> fq12" where
  "divide_fq12 x y = x * inverse y"

instance
proof
  fix a :: fq12
  assume "a \<noteq> 0"
  then have n: "fq12_norm a \<noteq> 0" by (simp add: fq12_norm_0_iff)
  have "inverse a * a = (a * fq12_conj a) * fq12_of (inverse (fq12_norm a))" by (simp only: inverse_fq12_def ac_simps)
  also have "\<dots> = 1" unfolding fq12_mult_conj using n by (simp flip: fq12_of_hom)
  finally show "inverse a * a = 1" .
next
  show "inverse (0 :: fq12) = 0" by (simp add: inverse_fq12_def fq12_eq_iff)
qed (rule divide_fq12_def)

end

section \<open>The Frobenius map\<close>

lemma fq6_char: "of_nat q_nat = (0 :: fq6)"
  by (simp add: fq6_eq_iff fq2_char)

lemma fq12_char: "of_nat q_nat = (0 :: fq12)"
proof -
  have "of_nat n = fq12_of (of_nat n)" for n by (induction n) (simp_all add: fq12_of_hom)
  then show ?thesis by (simp add: fq6_char fq12_of_hom)
qed

lemma xi_power_q: "fq2_xi ^ q_nat = fq2_xi * xi_sixth ^ 6"
proof -
  have "q_nat = Suc ((q_nat - 1) div 6 * 6)" using q_nat(2) unfolding q_nat_6 [symmetric] by simp
  then have "fq2_xi ^ q_nat = fq2_xi ^ Suc ((q_nat - 1) div 6 * 6)" by (rule arg_cong)
  then show ?thesis by (simp only: power_Suc power_mult xi_power)
qed

text \<open>A root of a root of \<open>\<xi>\<close> is multiplied by a power of the constant.\<close>

lemma root_power_q:
  fixes t :: "'a::comm_ring_1"
  assumes "\<And>x n. h (x ^ n) = h x ^ n" and "t ^ m = h fq2_xi" and "m * l = 6"
  shows "t ^ q_nat = t * h xi_sixth ^ l"
proof -
  have "q_nat = Suc (m * ((q_nat - 1) div 6 * l))"
    using q_nat(2) q_nat_6 assms(3) by (metis Suc_diff_1 mult.left_commute zero_less_one less_trans)
  then have "t ^ q_nat = t ^ Suc (m * ((q_nat - 1) div 6 * l))" by (rule arg_cong)
  also have "\<dots> = t * (h (fq2_xi ^ ((q_nat - 1) div 6))) ^ l" by (simp only: power_Suc power_mult assms(1,2))
  finally show ?thesis by (simp only: xi_power)
qed

definition fq6_frob :: "fq6 \<Rightarrow> fq6" where
  "fq6_frob a = Fq6 (fq2_conj (fq6_x a) * xi_sixth ^ 4) (fq2_conj (fq6_y a) * xi_sixth ^ 2) (fq2_conj (fq6_z a))"

lemma fq6_power_q: "a ^ q_nat = fq6_frob a"
proof -
  have t: "fq6_tau ^ q_nat = fq6_tau * fq6_of xi_sixth ^ 2"
    by (rule root_power_q [where m = 3]) (simp_all add: fq6_of_power fq6_tau_cube)
  have "a ^ q_nat = (fq6_of (fq6_x a) * fq6_tau ^ 2) ^ q_nat + (fq6_of (fq6_y a) * fq6_tau) ^ q_nat + fq6_of (fq6_z a) ^ q_nat"
    using power_char_add [OF q_nat(3) fq6_char] fq6_split [of a] by metis
  also have "(fq6_of (fq6_x a) * fq6_tau ^ 2) ^ q_nat = fq6_of (fq6_x a ^ q_nat) * (fq6_tau ^ q_nat) ^ 2"
    by (simp add: power_mult_distrib fq6_of_power flip: power_mult) (simp add: mult.commute)
  also have "(fq6_of (fq6_y a) * fq6_tau) ^ q_nat = fq6_of (fq6_y a ^ q_nat) * fq6_tau ^ q_nat"
    by (simp add: power_mult_distrib fq6_of_power)
  also have "fq6_of (fq6_z a) ^ q_nat = fq6_of (fq6_z a ^ q_nat)" by (simp add: fq6_of_power)
  finally show ?thesis
    unfolding fq2_power_q t
    by (simp add: fq6_eq_iff fq6_frob_def power2_eq_square power4_eq_xxxx mult.assoc flip: fq6_of_power fq6_of_hom)
qed

definition fq12_frob :: "fq12 \<Rightarrow> fq12" where
  "fq12_frob a = Fq12 (fq6_frob (fq12_x a) * fq6_of xi_sixth) (fq6_frob (fq12_y a))"

lemma fq12_power_q: "a ^ q_nat = fq12_frob a"
proof -
  have "fq12_w ^ 6 = fq12_of (fq6_tau ^ 3)" by (simp add: fq12_of_power flip: fq12_w_square power_mult)
  then have t: "fq12_w ^ q_nat = fq12_w * fq12_of (fq6_of xi_sixth) ^ 1"
    by (intro root_power_q [where m = 6 and h = "\<lambda>x. fq12_of (fq6_of x)"]) (simp_all add: fq6_of_power fq12_of_power fq6_tau_cube)
  have "a ^ q_nat = (fq12_of (fq12_x a) * fq12_w) ^ q_nat + fq12_of (fq12_y a) ^ q_nat"
    using power_char_add [OF q_nat(3) fq12_char] fq12_split [of a] by metis
  also have "\<dots> = fq12_of (fq12_x a ^ q_nat) * fq12_w ^ q_nat + fq12_of (fq12_y a ^ q_nat)"
    by (simp add: power_mult_distrib fq12_of_power)
  finally show ?thesis
    unfolding fq6_power_q t by (simp add: fq12_frob_def fq12_eq_iff mult.commute)
qed

section \<open>Powers of the Frobenius map\<close>

definition fq6_frob2 :: "fq6 \<Rightarrow> fq6" where
  "fq6_frob2 a = Fq6 (fq6_x a * fq2_of (fq_omega6 ^ 4)) (fq6_y a * fq2_of (fq_omega6 ^ 2)) (fq6_z a)"

definition fq12_frob2 :: "fq12 \<Rightarrow> fq12" where
  "fq12_frob2 a = Fq12 (fq6_frob2 (fq12_x a) * fq6_of (fq2_of fq_omega6)) (fq6_frob2 (fq12_y a))"

lemma fq2_conj_mult: "fq2_conj (x * y) = fq2_conj x * fq2_conj y"
  by (simp add: fq2_eq_iff)

lemma fq2_conj_conj [simp]: "fq2_conj (fq2_conj x) = x"
  by (simp add: fq2_eq_iff)

lemma fq2_conj_power: "fq2_conj (x ^ n) = fq2_conj x ^ n"
proof (induction n)
  case 0
  show ?case by (simp add: fq2_eq_iff)
qed (simp add: fq2_conj_mult)

lemma sixth_conj: "fq2_conj xi_sixth ^ n * xi_sixth ^ n = fq2_of (fq_omega6 ^ n)"
  using fq2_mult_conj [of xi_sixth] by (simp add: norm_sixth mult.commute fq2_of_power flip: power_mult_distrib)

lemma fq6_frob_frob: "fq6_frob (fq6_frob a) = fq6_frob2 a"
  by (simp add: fq6_frob_def fq6_frob2_def fq2_conj_mult fq2_conj_power mult.assoc sixth_conj)

lemma fq6_frob_mult: "fq6_frob (a * b) = fq6_frob a * fq6_frob b"
  by (simp add: power_mult_distrib flip: fq6_power_q)

lemma fq6_frob_of: "fq6_frob (fq6_of c) = fq6_of (fq2_conj c)"
  by (simp add: fq6_frob_def fq6_eq_iff fq2_conj_def zero_fq2_def)

lemma fq12_frob_frob: "fq12_frob (fq12_frob a) = fq12_frob2 a"
  using sixth_conj [of 1]
  by (simp add: fq12_frob_def fq12_frob2_def fq6_frob_mult fq6_frob_frob fq6_frob_of mult.assoc flip: fq6_of_hom)

lemma fq12_power_q2: "a ^ q_nat ^ 2 = fq12_frob2 a"
  by (simp add: power2_eq_square power_mult fq12_power_q fq12_frob_frob)

lemma fq12_frob2_thrice: "fq12_frob2 (fq12_frob2 (fq12_frob2 a)) = fq12_conj a"
proof -
  define e where "e = fq2_of fq_omega6"
  have e2: "e ^ 2 = e - 1" unfolding e_def fq2_of_power [symmetric] omega6 by (simp add: fq2_eq_iff)
  have o: "fq2_of (fq_omega6 ^ 2) = e - 1" "fq2_of (fq_omega6 ^ 4) = - e" "fq2_of fq_omega6 = e"
    using e2 by (simp_all add: fq2_of_power flip: e_def) algebra
  show ?thesis
    unfolding fq12_frob2_def fq6_frob2_def fq12_conj_def fq12_eq_iff fq6_eq_iff o
    by (simp, intro conjI) (use e2 in algebra)+
qed

lemma fq12_power_q6: "a ^ q_nat ^ 6 = fq12_conj a"
proof -
  have "q_nat ^ 6 = q_nat ^ 2 * (q_nat ^ 2 * q_nat ^ 2)" by (simp flip: power_add)
  then show ?thesis by (simp only: power_mult fq12_power_q2 fq12_frob2_thrice)
qed

lemma fq12_power_q12: "a ^ q_nat ^ 12 = (a :: fq12)"
proof -
  have "q_nat ^ 12 = q_nat ^ 6 * q_nat ^ 6" by (simp flip: power_add)
  then show ?thesis by (simp only: power_mult fq12_power_q6) (simp add: fq12_eq_iff)
qed

end
