(* ===== verification/F6Field.thy ===== *)
theory F6Field
  imports F2Field
begin

text \<open>
  The cubic extension \<open>x \<tau>\<^sup>2 + y \<tau> + z\<close> with \<open>\<tau>\<^sup>3 = \<xi> = 9 + u\<close> over the quadratic one
  (\<open>depends/ffiasm/c/f6field.cpp\<close>, \<open>f6field.hpp\<close>), instantiated with \<open>F2Field\<close>. As in
  \<open>F2Field\<close> every operation reads what it needs before it overwrites it: \<open>mul\<close> and \<open>square\<close>
  copy from local variables at the end, \<open>mulTau\<close> saves the two components it moves, the others
  work component by component.
\<close>

section \<open>Computations that may not return or throw\<close>

fun bind_oo :: "'a outcome option \<Rightarrow> ('a \<Rightarrow> 'b outcome option) \<Rightarrow> 'b outcome option" where
  "bind_oo None f = None"
| "bind_oo (Some (Ok x)) f = f x"
| "bind_oo (Some (Throw e)) f = Some (Throw e)"
| "bind_oo (Some Undef) f = Some Undef"

section \<open>Elements and the field object\<close>

record 'e f6 =
  f6_x :: "'e f2"
  f6_y :: "'e f2"
  f6_z :: "'e f2"

record 'e f6_field =
  f6_F :: "'e f2_field"
  f6_fOne :: "'e f6"
  f6_fZero :: "'e f6"
  f6_fNegOne :: "'e f6"
  xiTo2PMinus2Over3 :: "'e f2"
  xiToPMinus1Over3 :: "'e f2"
  xiTo2PSquaredMinus2Over3 :: 'e
  xiToPSquaredMinus1Over3 :: 'e

definition F6_new :: "'e inv_ops \<Rightarrow> (string \<Rightarrow> 'e) \<Rightarrow> 'e f6_field outcome option" where
  "F6_new B fromString =
     (let F = F2_new B fromString ''-1''
      in bind_oo (F2_fromString fromString
           ''2581911344467009335267311115468803099551665605076196740867805258568234346338,19937756971775647987995932169929341994314640652964949448313374472400716661030'') (\<lambda>c1.
         bind_oo (F2_fromString fromString
           ''21575463638280843010398324269430826099269044274347216827212613867836435027261,10307601595873709700152284273816112264069230130616436755625194854815875713954'') (\<lambda>c2.
         Some (Ok
           \<lparr>f6_F = F,
            f6_fOne = \<lparr>f6_x = f2_fZero F, f6_y = f2_fZero F, f6_z = f2_fOne F\<rparr>,
            f6_fZero = \<lparr>f6_x = f2_fZero F, f6_y = f2_fZero F, f6_z = f2_fZero F\<rparr>,
            f6_fNegOne = \<lparr>f6_x = f2_fZero F, f6_y = f2_fZero F, f6_z = f2_fNegOne F\<rparr>,
            xiTo2PMinus2Over3 = c1,
            xiToPMinus1Over3 = c2,
            xiTo2PSquaredMinus2Over3 = fromString ''2203960485148121921418603742825762020974279258880205651966'',
            xiToPSquaredMinus1Over3 = fromString ''21888242871839275220042445260109153167277707414472061641714758635765020556616''\<rparr>))))"

definition F6_fromString :: "(string \<Rightarrow> 'e) \<Rightarrow> string \<Rightarrow> 'e f6 outcome option" where
  "F6_fromString fromString s =
     bind_oo (splitParStr s) (\<lambda>els.
       if length els \<noteq> 3 then None
       else bind_oo (F2_fromString fromString (els ! 0)) (\<lambda>x.
            bind_oo (F2_fromString fromString (els ! 1)) (\<lambda>y.
            bind_oo (F2_fromString fromString (els ! 2)) (\<lambda>z.
            Some (Ok \<lparr>f6_x = x, f6_y = y, f6_z = z\<rparr>)))))"

definition F6_toString :: "('e \<Rightarrow> string) \<Rightarrow> 'e f6 \<Rightarrow> string" where
  "F6_toString toString e =
     ''('' @ F2_toString toString (f6_x e) @ '','' @ F2_toString toString (f6_y e) @ '','' @ F2_toString toString (f6_z e) @ '')''"

section \<open>Operations\<close>

definition F6_add :: "'e f6_field \<Rightarrow> 'e f6 \<Rightarrow> 'e f6 \<Rightarrow> 'e f6" where
  "F6_add X a b = (let F = f6_F X in
     \<lparr>f6_x = F2_add F (f6_x a) (f6_x b), f6_y = F2_add F (f6_y a) (f6_y b), f6_z = F2_add F (f6_z a) (f6_z b)\<rparr>)"

definition F6_sub :: "'e f6_field \<Rightarrow> 'e f6 \<Rightarrow> 'e f6 \<Rightarrow> 'e f6" where
  "F6_sub X a b = (let F = f6_F X in
     \<lparr>f6_x = F2_sub F (f6_x a) (f6_x b), f6_y = F2_sub F (f6_y a) (f6_y b), f6_z = F2_sub F (f6_z a) (f6_z b)\<rparr>)"

definition F6_neg :: "'e f6_field \<Rightarrow> 'e f6 \<Rightarrow> 'e f6" where
  "F6_neg X a = (let F = f6_F X in
     \<lparr>f6_x = F2_neg F (f6_x a), f6_y = F2_neg F (f6_y a), f6_z = F2_neg F (f6_z a)\<rparr>)"

definition F6_mul :: "'e f6_field \<Rightarrow> 'e f6 \<Rightarrow> 'e f6 \<Rightarrow> 'e f6" where
  "F6_mul X a b =
     (let F = f6_F X;
          v0 = F2_mul F (f6_z a) (f6_z b);
          v1 = F2_mul F (f6_y a) (f6_y b);
          v2 = F2_mul F (f6_x a) (f6_x b);
          t0 = F2_add F (f6_x a) (f6_y a);
          t1 = F2_add F (f6_x b) (f6_y b);
          tz = F2_mul F t0 t1;
          tz = F2_sub F tz v1;
          tz = F2_sub F tz v2;
          tz = F2_mulXi F tz;
          tz = F2_add F tz v0;
          t0 = F2_add F (f6_y a) (f6_z a);
          t1 = F2_add F (f6_y b) (f6_z b);
          ty = F2_mul F t0 t1;
          ty = F2_sub F ty v0;
          ty = F2_sub F ty v1;
          t0 = F2_mulXi F v2;
          ty = F2_add F ty t0;
          t0 = F2_add F (f6_x a) (f6_z a);
          t1 = F2_add F (f6_x b) (f6_z b);
          tx = F2_mul F t0 t1;
          tx = F2_sub F tx v0;
          tx = F2_add F tx v1;
          tx = F2_sub F tx v2
      in \<lparr>f6_x = tx, f6_y = ty, f6_z = tz\<rparr>)"

definition F6_mulScalar :: "'e f6_field \<Rightarrow> 'e f6 \<Rightarrow> 'e f2 \<Rightarrow> 'e f6" where
  "F6_mulScalar X a b = (let F = f6_F X in
     \<lparr>f6_x = F2_mul F (f6_x a) b, f6_y = F2_mul F (f6_y a) b, f6_z = F2_mul F (f6_z a) b\<rparr>)"

definition F6_mulTau :: "'e f6_field \<Rightarrow> 'e f6 \<Rightarrow> 'e f6" where
  "F6_mulTau X a =
     (let tz = F2_mulXi (f6_F X) (f6_x a);
          ty = f6_y a
      in \<lparr>f6_x = ty, f6_y = f6_z a, f6_z = tz\<rparr>)"

definition F6_mulGFP :: "'e f6_field \<Rightarrow> 'e f6 \<Rightarrow> 'e \<Rightarrow> 'e f6" where
  "F6_mulGFP X a b = (let F = f6_F X in
     \<lparr>f6_x = F2_mulScalar F (f6_x a) b, f6_y = F2_mulScalar F (f6_y a) b, f6_z = F2_mulScalar F (f6_z a) b\<rparr>)"

definition F6_square :: "'e f6_field \<Rightarrow> 'e f6 \<Rightarrow> 'e f6" where
  "F6_square X a =
     (let F = f6_F X;
          v0 = F2_square F (f6_z a);
          v1 = F2_square F (f6_y a);
          v2 = F2_square F (f6_x a);
          c0 = F2_add F (f6_x a) (f6_y a);
          c0 = F2_square F c0;
          c0 = F2_sub F c0 v1;
          c0 = F2_sub F c0 v2;
          c0 = F2_mulXi F c0;
          c0 = F2_add F c0 v0;
          c1 = F2_add F (f6_y a) (f6_z a);
          c1 = F2_square F c1;
          c1 = F2_sub F c1 v0;
          c1 = F2_sub F c1 v1;
          xiV2 = F2_mulXi F v2;
          c1 = F2_add F c1 xiV2;
          c2 = F2_add F (f6_x a) (f6_z a);
          c2 = F2_square F c2;
          c2 = F2_sub F c2 v0;
          c2 = F2_add F c2 v1;
          c2 = F2_sub F c2 v2
      in \<lparr>f6_x = c2, f6_y = c1, f6_z = c0\<rparr>)"

definition F6_dbl :: "'e f6_field \<Rightarrow> 'e f6 \<Rightarrow> 'e f6" where
  "F6_dbl X a = (let F = f6_F X in
     \<lparr>f6_x = F2_dbl F (f6_x a), f6_y = F2_dbl F (f6_y a), f6_z = F2_dbl F (f6_z a)\<rparr>)"

definition F6_Frobenius :: "'e f6_field \<Rightarrow> 'e f6 \<Rightarrow> 'e f6" where
  "F6_Frobenius X a =
     (let F = f6_F X;
          rx = F2_conjugate F (f6_x a);
          ry = F2_conjugate F (f6_y a);
          rz = F2_conjugate F (f6_z a);
          rx = F2_mul F rx (xiTo2PMinus2Over3 X);
          ry = F2_mul F ry (xiToPMinus1Over3 X)
      in \<lparr>f6_x = rx, f6_y = ry, f6_z = rz\<rparr>)"

definition F6_FrobeniusP2 :: "'e f6_field \<Rightarrow> 'e f6 \<Rightarrow> 'e f6" where
  "F6_FrobeniusP2 X a = (let F = f6_F X in
     \<lparr>f6_x = F2_mulScalar F (f6_x a) (xiTo2PSquaredMinus2Over3 X),
      f6_y = F2_mulScalar F (f6_y a) (xiToPSquaredMinus1Over3 X),
      f6_z = f6_z a\<rparr>)"

definition F6_inv :: "'e f6_field \<Rightarrow> 'e f6 \<Rightarrow> 'e f6" where
  "F6_inv X a =
     (let F = f6_F X;
          A = F2_square F (f6_z a);
          t1 = F2_mul F (f6_x a) (f6_y a);
          t1 = F2_mulXi F t1;
          A = F2_sub F A t1;
          B = F2_square F (f6_x a);
          B = F2_mulXi F B;
          t1 = F2_mul F (f6_y a) (f6_z a);
          B = F2_sub F B t1;
          Cv = F2_square F (f6_y a);
          t1 = F2_mul F (f6_x a) (f6_z a);
          Cv = F2_sub F Cv t1;
          Fv = F2_mul F Cv (f6_y a);
          Fv = F2_mulXi F Fv;
          t1 = F2_mul F A (f6_z a);
          Fv = F2_add F Fv t1;
          t1 = F2_mul F B (f6_x a);
          t1 = F2_mulXi F t1;
          Fv = F2_add F Fv t1;
          Fv = F2_inv F Fv
      in \<lparr>f6_x = F2_mul F Cv Fv, f6_y = F2_mul F B Fv, f6_z = F2_mul F A Fv\<rparr>)"

definition F6_div :: "'e f6_field \<Rightarrow> 'e f6 \<Rightarrow> 'e f6 \<Rightarrow> 'e f6" where
  "F6_div X a b = (let tmp = F6_inv X b in F6_mul X a tmp)"

definition F6_isZero :: "'e f6_field \<Rightarrow> 'e f6 \<Rightarrow> bool" where
  "F6_isZero X a \<longleftrightarrow> F2_isZero (f6_F X) (f6_x a) \<and> F2_isZero (f6_F X) (f6_y a) \<and> F2_isZero (f6_F X) (f6_z a)"

definition F6_isOne :: "'e f6_field \<Rightarrow> 'e f6 \<Rightarrow> bool" where
  "F6_isOne X a \<longleftrightarrow> F2_isZero (f6_F X) (f6_x a) \<and> F2_isZero (f6_F X) (f6_y a) \<and> F2_isOne (f6_F X) (f6_z a)"

definition F6_eq :: "'e f6_field \<Rightarrow> 'e f6 \<Rightarrow> 'e f6 \<Rightarrow> bool" where
  "F6_eq X a b \<longleftrightarrow> F2_eq (f6_F X) (f6_x a) (f6_x b) \<and> F2_eq (f6_F X) (f6_y a) (f6_y b) \<and> F2_eq (f6_F X) (f6_z a) (f6_z b)"

end
