(* ===== verification/F12Field.thy ===== *)
theory F12Field
  imports F6Field RawClass
begin

text \<open>
  The quadratic extension \<open>x w + y\<close> with \<open>w\<^sup>2 = \<tau>\<close> over the sextic one
  (\<open>depends/ffiasm/c/f12field.cpp\<close>, \<open>f12field.hpp\<close>), instantiated with \<open>F6Field\<close>. \<open>exp\<close> sets
  its result to one before it reads the base, so result and base must be different objects, as
  they are in every call; the other operations do not depend on the aliasing of their operands.
\<close>

section \<open>Elements and the field object\<close>

record 'e f12 =
  f12_x :: "'e f6"
  f12_y :: "'e f6"

record 'e f12_field =
  f12_F :: "'e f6_field"
  f12_fOne :: "'e f12"
  f12_fZero :: "'e f12"
  f12_fNegOne :: "'e f12"
  xiToPMinus1Over6 :: "'e f2"
  xiToPSquaredMinus1Over6 :: 'e

definition F12_new :: "'e inv_ops \<Rightarrow> (string \<Rightarrow> 'e) \<Rightarrow> 'e f12_field outcome option" where
  "F12_new B fromString =
     bind_oo (F6_new B fromString) (\<lambda>F.
     bind_oo (F2_fromString fromString
       ''8376118865763821496583973867626364092589906065868298776909617916018768340080,16469823323077808223889137241176536799009286646108169935659301613961712198316'') (\<lambda>c.
     Some (Ok
       \<lparr>f12_F = F,
        f12_fOne = \<lparr>f12_x = f6_fZero F, f12_y = f6_fOne F\<rparr>,
        f12_fZero = \<lparr>f12_x = f6_fZero F, f12_y = f6_fZero F\<rparr>,
        f12_fNegOne = \<lparr>f12_x = f6_fZero F, f12_y = f6_fNegOne F\<rparr>,
        xiToPMinus1Over6 = c,
        xiToPSquaredMinus1Over6 = fromString ''21888242871839275220042445260109153167277707414472061641714758635765020556617''\<rparr>)))"

definition F12_fromString :: "(string \<Rightarrow> 'e) \<Rightarrow> string \<Rightarrow> 'e f12 outcome option" where
  "F12_fromString fromString s =
     bind_oo (splitParStr s) (\<lambda>els.
       if length els \<noteq> 2 then None
       else bind_oo (F6_fromString fromString (els ! 0)) (\<lambda>x.
            bind_oo (F6_fromString fromString (els ! 1)) (\<lambda>y.
            Some (Ok \<lparr>f12_x = x, f12_y = y\<rparr>))))"

definition F12_toString :: "('e \<Rightarrow> string) \<Rightarrow> 'e f12 \<Rightarrow> string" where
  "F12_toString toString e = ''('' @ F6_toString toString (f12_x e) @ '','' @ F6_toString toString (f12_y e) @ '')''"

section \<open>Operations\<close>

definition F12_add :: "'e f12_field \<Rightarrow> 'e f12 \<Rightarrow> 'e f12 \<Rightarrow> 'e f12" where
  "F12_add X a b = \<lparr>f12_x = F6_add (f12_F X) (f12_x a) (f12_x b), f12_y = F6_add (f12_F X) (f12_y a) (f12_y b)\<rparr>"

definition F12_sub :: "'e f12_field \<Rightarrow> 'e f12 \<Rightarrow> 'e f12 \<Rightarrow> 'e f12" where
  "F12_sub X a b = \<lparr>f12_x = F6_sub (f12_F X) (f12_x a) (f12_x b), f12_y = F6_sub (f12_F X) (f12_y a) (f12_y b)\<rparr>"

definition F12_neg :: "'e f12_field \<Rightarrow> 'e f12 \<Rightarrow> 'e f12" where
  "F12_neg X a = \<lparr>f12_x = F6_neg (f12_F X) (f12_x a), f12_y = F6_neg (f12_F X) (f12_y a)\<rparr>"

definition F12_conjugate :: "'e f12_field \<Rightarrow> 'e f12 \<Rightarrow> 'e f12" where
  "F12_conjugate X a = \<lparr>f12_x = F6_neg (f12_F X) (f12_x a), f12_y = f12_y a\<rparr>"

definition F12_mul :: "'e f12_field \<Rightarrow> 'e f12 \<Rightarrow> 'e f12 \<Rightarrow> 'e f12" where
  "F12_mul X a b =
     (let F = f12_F X;
          tx = F6_mul F (f12_x a) (f12_y b);
          t = F6_mul F (f12_x b) (f12_y a);
          tx = F6_add F tx t;
          ty = F6_mul F (f12_y a) (f12_y b);
          t = F6_mul F (f12_x a) (f12_x b);
          t = F6_mulTau F t;
          ry = F6_add F ty t
      in \<lparr>f12_x = tx, f12_y = ry\<rparr>)"

definition F12_mulScalar :: "'e f12_field \<Rightarrow> 'e f12 \<Rightarrow> 'e f6 \<Rightarrow> 'e f12" where
  "F12_mulScalar X a b = \<lparr>f12_x = F6_mul (f12_F X) (f12_x a) b, f12_y = F6_mul (f12_F X) (f12_y a) b\<rparr>"

definition F12_square :: "'e f12_field \<Rightarrow> 'e f12 \<Rightarrow> 'e f12" where
  "F12_square X a =
     (let F = f12_F X;
          v0 = F6_mul F (f12_x a) (f12_y a);
          t = F6_mulTau F (f12_x a);
          t = F6_add F (f12_y a) t;
          ty = F6_add F (f12_x a) (f12_y a);
          ty = F6_mul F ty t;
          ty = F6_sub F ty v0;
          t = F6_mulTau F v0;
          ty = F6_sub F ty t
      in \<lparr>f12_x = F6_dbl F v0, f12_y = ty\<rparr>)"

text \<open>The loop of \<open>exp\<close>, \<open>n\<close> bits to go; \<open>bit_is_set\<close> is the macro \<open>BIT_IS_SET\<close>, which
  \<open>build/fr.cpp\<close> also defines.\<close>

primrec F12_exp_loop :: "'e f12_field \<Rightarrow> 'e f12 \<Rightarrow> u8 list \<Rightarrow> nat \<Rightarrow> 'e f12 \<Rightarrow> 'e f12" where
  "F12_exp_loop X a scalar 0 r = r"
| "F12_exp_loop X a scalar (Suc i) r =
     (let t = F12_square X r;
          r = (if bit_is_set scalar i then F12_mul X t a else t)
      in F12_exp_loop X a scalar i r)"

definition F12_exp :: "'e f12_field \<Rightarrow> 'e f12 \<Rightarrow> u8 list \<Rightarrow> u32 \<Rightarrow> 'e f12" where
  "F12_exp X a scalar scalarSize = F12_exp_loop X a scalar (nat (sint (scalarSize * 8 - 1) + 1)) (f12_fOne X)"

definition F12_Frobenius :: "'e f12_field \<Rightarrow> 'e f12 \<Rightarrow> 'e f12" where
  "F12_Frobenius X a =
     (let F = f12_F X;
          rx = F6_Frobenius F (f12_x a);
          ry = F6_Frobenius F (f12_y a);
          rx = F6_mulScalar F rx (xiToPMinus1Over6 X)
      in \<lparr>f12_x = rx, f12_y = ry\<rparr>)"

definition F12_FrobeniusP2 :: "'e f12_field \<Rightarrow> 'e f12 \<Rightarrow> 'e f12" where
  "F12_FrobeniusP2 X a =
     (let F = f12_F X;
          rx = F6_FrobeniusP2 F (f12_x a);
          rx = F6_mulGFP F rx (xiToPSquaredMinus1Over6 X);
          ry = F6_FrobeniusP2 F (f12_y a)
      in \<lparr>f12_x = rx, f12_y = ry\<rparr>)"

definition F12_inv :: "'e f12_field \<Rightarrow> 'e f12 \<Rightarrow> 'e f12" where
  "F12_inv X a =
     (let F = f12_F X;
          t1 = F6_square F (f12_x a);
          t2 = F6_square F (f12_y a);
          t1 = F6_mulTau F t1;
          t1 = F6_sub F t2 t1;
          t2 = F6_inv F t1;
          r = \<lparr>f12_x = F6_neg F (f12_x a), f12_y = f12_y a\<rparr>
      in F12_mulScalar X r t2)"

definition F12_div :: "'e f12_field \<Rightarrow> 'e f12 \<Rightarrow> 'e f12 \<Rightarrow> 'e f12" where
  "F12_div X a b = (let tmp = F12_inv X b in F12_mul X a tmp)"

definition F12_isZero :: "'e f12_field \<Rightarrow> 'e f12 \<Rightarrow> bool" where
  "F12_isZero X a \<longleftrightarrow> F6_isZero (f12_F X) (f12_x a) \<and> F6_isZero (f12_F X) (f12_y a)"

definition F12_isOne :: "'e f12_field \<Rightarrow> 'e f12 \<Rightarrow> bool" where
  "F12_isOne X a \<longleftrightarrow> F6_isZero (f12_F X) (f12_x a) \<and> F6_isOne (f12_F X) (f12_y a)"

definition F12_eq :: "'e f12_field \<Rightarrow> 'e f12 \<Rightarrow> 'e f12 \<Rightarrow> bool" where
  "F12_eq X a b \<longleftrightarrow> F6_eq (f12_F X) (f12_x a) (f12_x b) \<and> F6_eq (f12_F X) (f12_y a) (f12_y b)"

end
