(* ===== verification/TowerCorrect.thy ===== *)
theory TowerCorrect
  imports Fq12Field F12Field Mpz
begin

text \<open>
  The classes \<open>F2Field\<close>, \<open>F6Field\<close>, \<open>F12Field\<close> over a correct base field compute in the fields of
  the tower: every operation is the one of the field, and the two Frobenius maps are the powers
  with exponents \<open>q\<close> and \<open>q\<^sup>2\<close>.
\<close>

section \<open>Reading constants\<close>

lemma digit_plain: "is_digit c \<Longrightarrow> plain c"
  by (auto simp: is_digit_def plain_def isspace_def)

lemma digits_plain: "list_all is_digit s \<Longrightarrow> list_all plain s"
  using digit_plain by (auto simp: list_all_iff)

lemma F2_fromString_pair:
  assumes "list_all is_digit s" "list_all is_digit t" "list_all isspace w" "length s < 2 ^ 64" "length t < 2 ^ 64"
  shows "F2_fromString fs (s @ CHR '','' # w @ t) = Some (Ok \<lparr>f2_a = fs s, f2_b = fs t\<rparr>)"
  unfolding F2_fromString_def split_pair [OF digits_plain digits_plain, OF assms] by simp

locale tower = f2_class B good ev "fs ''-1''"
  for B :: "'e inv_ops" and good :: "'e \<Rightarrow> bool" and ev :: "'e \<Rightarrow> fq" and fs :: "string \<Rightarrow> 'e" +
  assumes fs_law: "list_all is_digit s \<Longrightarrow> s \<noteq> [] \<Longrightarrow> good (fs s) \<and> ev (fs s) = of_nat (dec_val s)"
begin

text \<open>A constant of the extension, written as a pair of decimal numbers.\<close>

lemma fs_int: "list_all is_digit s \<Longrightarrow> s \<noteq> [] \<Longrightarrow> dec_val s = nat n \<Longrightarrow> 0 \<le> n \<Longrightarrow> good (fs s) \<and> ev (fs s) = of_fq n"
  using fs_law [of s] by (simp add: of_fq_int)

lemma f2_constant:
  assumes "str = s @ CHR '','' # w @ t"
    and "list_all is_digit s" "s \<noteq> []" "length s < 2 ^ 64" "dec_val s = nat a" "0 \<le> a"
    and "list_all is_digit t" "t \<noteq> []" "length t < 2 ^ 64" "dec_val t = nat b" "0 \<le> b" and "list_all isspace w"
  obtains c where "F2_fromString fs str = Some (Ok c)" "gd c" "vl c = fq2_int a b"
proof
  show "F2_fromString fs str = Some (Ok \<lparr>f2_a = fs s, f2_b = fs t\<rparr>)"
    unfolding assms(1) by (rule F2_fromString_pair [OF assms(2,7,12,4,9)])
  show "gd \<lparr>f2_a = fs s, f2_b = fs t\<rparr>" "vl \<lparr>f2_a = fs s, f2_b = fs t\<rparr> = fq2_int a b"
    using fs_int [OF assms(2,3,5,6)] fs_int [OF assms(7,8,10,11)] by (simp_all add: f2_good_def f2_val_def fq2_int_def)
qed

section \<open>The sextic extension\<close>

definition gd6 :: "'e f6 \<Rightarrow> bool" where
  "gd6 a \<longleftrightarrow> gd (f6_x a) \<and> gd (f6_y a) \<and> gd (f6_z a)"

definition vl6 :: "'e f6 \<Rightarrow> fq6" where
  "vl6 a = Fq6 (vl (f6_x a)) (vl (f6_y a)) (vl (f6_z a))"

definition ok6 :: "'e f6_field \<Rightarrow> bool" where
  "ok6 Y \<longleftrightarrow> f6_F Y = X
     \<and> gd6 (f6_fOne Y) \<and> vl6 (f6_fOne Y) = 1 \<and> gd6 (f6_fZero Y) \<and> vl6 (f6_fZero Y) = 0
     \<and> gd6 (f6_fNegOne Y) \<and> vl6 (f6_fNegOne Y) = - 1
     \<and> gd (xiTo2PMinus2Over3 Y) \<and> vl (xiTo2PMinus2Over3 Y) = xi_sixth ^ 4
     \<and> gd (xiToPMinus1Over3 Y) \<and> vl (xiToPMinus1Over3 Y) = xi_sixth ^ 2
     \<and> good (xiTo2PSquaredMinus2Over3 Y) \<and> ev (xiTo2PSquaredMinus2Over3 Y) = fq_omega6 ^ 4
     \<and> good (xiToPSquaredMinus1Over3 Y) \<and> ev (xiToPSquaredMinus1Over3 Y) = fq_omega6 ^ 2"

lemma F2_new: "F2_new B fs ''-1'' = X"
  by (simp add: F2_new_def)

lemma omega6_constants:
  "fq_omega6 ^ 2 = of_fq 21888242871839275220042445260109153167277707414472061641714758635765020556616"
  "fq_omega6 ^ 4 = of_fq 2203960485148121921418603742825762020974279258880205651966"
proof -
  show "fq_omega6 ^ 2 = of_fq 21888242871839275220042445260109153167277707414472061641714758635765020556616"
    unfolding omega6 unfolding fq_omega6_def of_fq_1 [symmetric] of_fq_diff [symmetric] by simp
  have "fq_omega6 ^ 4 = fq_omega6 ^ 3 * fq_omega6" by (simp flip: power_Suc2)
  also have "\<dots> = of_fq (fq_prime - 21888242871839275220042445260109153167277707414472061641714758635765020556617)"
    unfolding omega6_order(2) by (simp add: of_fq_hom of_fq_prime fq_omega6_def)
  finally show "fq_omega6 ^ 4 = of_fq 2203960485148121921418603742825762020974279258880205651966"
    by (simp add: fq_prime_def)
qed

lemma F6_new_ok: "\<exists>Y. F6_new B fs = Some (Ok Y) \<and> ok6 Y"
proof -
  obtain c1 where c1: "F2_fromString fs
      ''2581911344467009335267311115468803099551665605076196740867805258568234346338,19937756971775647987995932169929341994314640652964949448313374472400716661030'' = Some (Ok c1)"
    "gd c1" "vl c1 = xi_sixth ^ 4"
    by (rule f2_constant [where s = "''2581911344467009335267311115468803099551665605076196740867805258568234346338''"
        and t = "''19937756971775647987995932169929341994314640652964949448313374472400716661030''" and w = "[]"
        and a = 2581911344467009335267311115468803099551665605076196740867805258568234346338
        and b = 19937756971775647987995932169929341994314640652964949448313374472400716661030])
      (simp_all add: is_digit_def dec_val_def xi_sixth_powers)
  obtain c2 where c2: "F2_fromString fs
      ''21575463638280843010398324269430826099269044274347216827212613867836435027261,10307601595873709700152284273816112264069230130616436755625194854815875713954'' = Some (Ok c2)"
    "gd c2" "vl c2 = xi_sixth ^ 2"
    by (rule f2_constant [where s = "''21575463638280843010398324269430826099269044274347216827212613867836435027261''"
        and t = "''10307601595873709700152284273816112264069230130616436755625194854815875713954''" and w = "[]"
        and a = 21575463638280843010398324269430826099269044274347216827212613867836435027261
        and b = 10307601595873709700152284273816112264069230130616436755625194854815875713954])
      (simp_all add: is_digit_def dec_val_def xi_sixth_powers)
  have c3: "good (fs ''2203960485148121921418603742825762020974279258880205651966'')"
    "ev (fs ''2203960485148121921418603742825762020974279258880205651966'') = fq_omega6 ^ 4"
    using fs_int [of "''2203960485148121921418603742825762020974279258880205651966''" 2203960485148121921418603742825762020974279258880205651966]
    unfolding omega6_constants by (simp_all add: is_digit_def dec_val_def)
  have c4: "good (fs ''21888242871839275220042445260109153167277707414472061641714758635765020556616'')"
    "ev (fs ''21888242871839275220042445260109153167277707414472061641714758635765020556616'') = fq_omega6 ^ 2"
    using fs_int [of "''21888242871839275220042445260109153167277707414472061641714758635765020556616''"
        21888242871839275220042445260109153167277707414472061641714758635765020556616]
    unfolding omega6_constants by (simp_all add: is_digit_def dec_val_def)
  show ?thesis
    unfolding F6_new_def Let_def F2_new c1(1) c2(1) bind_oo.simps
    using c1(2,3) c2(2,3) c3 c4 by (simp add: ok6_def gd6_def vl6_def f2_consts fq6_eq_iff)
qed

text \<open>The operations.\<close>

lemmas f6_defs = gd6_def vl6_def fq6_eq_iff Let_def

lemma f6_add: "f6_F Y = X \<Longrightarrow> gd6 a \<Longrightarrow> gd6 b \<Longrightarrow> gd6 (F6_add Y a b) \<and> vl6 (F6_add Y a b) = vl6 a + vl6 b"
  by (simp add: F6_add_def f6_defs f2_laws)

lemma f6_sub: "f6_F Y = X \<Longrightarrow> gd6 a \<Longrightarrow> gd6 b \<Longrightarrow> gd6 (F6_sub Y a b) \<and> vl6 (F6_sub Y a b) = vl6 a - vl6 b"
  by (simp add: F6_sub_def f6_defs f2_laws)

lemma f6_neg: "f6_F Y = X \<Longrightarrow> gd6 a \<Longrightarrow> gd6 (F6_neg Y a) \<and> vl6 (F6_neg Y a) = - vl6 a"
  by (simp add: F6_neg_def f6_defs f2_laws)

lemma f6_dbl: "f6_F Y = X \<Longrightarrow> gd6 a \<Longrightarrow> gd6 (F6_dbl Y a) \<and> vl6 (F6_dbl Y a) = 2 * vl6 a"
  by (simp add: F6_dbl_def f6_defs f2_laws)

lemma f6_mul: "f6_F Y = X \<Longrightarrow> gd6 a \<Longrightarrow> gd6 b \<Longrightarrow> gd6 (F6_mul Y a b) \<and> vl6 (F6_mul Y a b) = vl6 a * vl6 b"
  by (simp add: F6_mul_def f6_defs f2_laws algebra_simps)

lemma f6_square: "f6_F Y = X \<Longrightarrow> gd6 a \<Longrightarrow> gd6 (F6_square Y a) \<and> vl6 (F6_square Y a) = vl6 a ^ 2"
  by (simp add: F6_square_def f6_defs f2_laws power2_eq_square algebra_simps)

lemma f6_mulScalar: "f6_F Y = X \<Longrightarrow> gd6 a \<Longrightarrow> gd b \<Longrightarrow> gd6 (F6_mulScalar Y a b) \<and> vl6 (F6_mulScalar Y a b) = vl6 a * fq6_of (vl b)"
  by (simp add: F6_mulScalar_def f6_defs f2_laws)

lemma f6_mulTau: "f6_F Y = X \<Longrightarrow> gd6 a \<Longrightarrow> gd6 (F6_mulTau Y a) \<and> vl6 (F6_mulTau Y a) = fq6_tau * vl6 a"
  by (simp add: F6_mulTau_def f6_defs f2_laws)

lemma f6_mulGFP: "f6_F Y = X \<Longrightarrow> gd6 a \<Longrightarrow> good c
    \<Longrightarrow> gd6 (F6_mulGFP Y a c) \<and> vl6 (F6_mulGFP Y a c) = vl6 a * fq6_of (fq2_of (ev c))"
  by (simp add: F6_mulGFP_def f6_defs f2_laws)

lemma f6_isZero: "f6_F Y = X \<Longrightarrow> gd6 a \<Longrightarrow> F6_isZero Y a \<longleftrightarrow> vl6 a = 0"
  by (simp add: F6_isZero_def f6_defs f2_laws)

lemma f6_isOne: "f6_F Y = X \<Longrightarrow> gd6 a \<Longrightarrow> F6_isOne Y a \<longleftrightarrow> vl6 a = 1"
  by (simp add: F6_isOne_def f6_defs f2_laws)

lemma f6_eq: "f6_F Y = X \<Longrightarrow> gd6 a \<Longrightarrow> gd6 b \<Longrightarrow> F6_eq Y a b \<longleftrightarrow> vl6 a = vl6 b"
  by (simp add: F6_eq_def f6_defs f2_laws)

lemma f6_inv:
  assumes Y: "f6_F Y = X" and a: "gd6 a" "vl6 a \<noteq> 0"
  shows "gd6 (F6_inv Y a) \<and> vl6 (F6_inv Y a) = inverse (vl6 a)"
proof -
  have g: "gd (f6_x a)" "gd (f6_y a)" "gd (f6_z a)" using a(1) by (simp_all add: gd6_def)
  define n where "n = F2_add X (F2_add X (F2_mulXi X (F2_mul X (F2_sub X (F2_square X (f6_y a)) (F2_mul X (f6_x a) (f6_z a))) (f6_y a)))
      (F2_mul X (F2_sub X (F2_square X (f6_z a)) (F2_mulXi X (F2_mul X (f6_x a) (f6_y a)))) (f6_z a)))
      (F2_mulXi X (F2_mul X (F2_sub X (F2_mulXi X (F2_square X (f6_x a))) (F2_mul X (f6_y a) (f6_z a))) (f6_x a)))"
  have n: "gd n" "vl n = fq6_norm (vl6 a)"
    using g by (simp_all add: n_def f2_laws fq6_norm_def vl6_def power2_eq_square power3_eq_cube algebra_simps)
  have "vl n \<noteq> 0" using a(2) by (simp add: n fq6_norm_0_iff)
  note i = f2_inv [OF n(1) this]
  show ?thesis
    unfolding F6_inv_def Let_def Y n_def [symmetric] inverse_fq6_def n(2) [symmetric]
    using g i by (simp add: gd6_def vl6_def fq6_eq_iff fq6_adj_def f2_laws)
qed

lemma f6_div:
  assumes "f6_F Y = X" "gd6 a" "gd6 b" "vl6 b \<noteq> 0"
  shows "gd6 (F6_div Y a b) \<and> vl6 (F6_div Y a b) = vl6 a / vl6 b"
  using f6_mul [OF assms(1,2) conjunct1 [OF f6_inv [OF assms(1,3,4)]]] f6_inv [OF assms(1,3,4)]
  by (simp add: F6_div_def Let_def divide_fq6_def)

lemma f6_Frobenius: "ok6 Y \<Longrightarrow> gd6 a \<Longrightarrow> gd6 (F6_Frobenius Y a) \<and> vl6 (F6_Frobenius Y a) = vl6 a ^ q_nat"
  unfolding fq6_power_q by (simp add: ok6_def F6_Frobenius_def f6_defs f2_laws fq6_frob_def)

lemma f6_FrobeniusP2: "ok6 Y \<Longrightarrow> gd6 a \<Longrightarrow> gd6 (F6_FrobeniusP2 Y a) \<and> vl6 (F6_FrobeniusP2 Y a) = fq6_frob2 (vl6 a)"
  by (simp add: ok6_def F6_FrobeniusP2_def f6_defs f2_laws fq6_frob2_def)

lemma ok6_F: "ok6 Y \<Longrightarrow> f6_F Y = X"
  by (simp add: ok6_def)

lemmas f6_laws = f6_add f6_sub f6_neg f6_dbl f6_mul f6_square f6_mulScalar f6_mulTau f6_mulGFP f6_isZero f6_isOne f6_eq
  f6_Frobenius f6_FrobeniusP2 ok6_F

section \<open>The extension of degree 12\<close>

definition gd12 :: "'e f12 \<Rightarrow> bool" where
  "gd12 a \<longleftrightarrow> gd6 (f12_x a) \<and> gd6 (f12_y a)"

definition vl12 :: "'e f12 \<Rightarrow> fq12" where
  "vl12 a = Fq12 (vl6 (f12_x a)) (vl6 (f12_y a))"

definition ok12 :: "'e f12_field \<Rightarrow> bool" where
  "ok12 Y \<longleftrightarrow> ok6 (f12_F Y)
     \<and> gd12 (f12_fOne Y) \<and> vl12 (f12_fOne Y) = 1 \<and> gd12 (f12_fZero Y) \<and> vl12 (f12_fZero Y) = 0
     \<and> gd12 (f12_fNegOne Y) \<and> vl12 (f12_fNegOne Y) = - 1
     \<and> gd (xiToPMinus1Over6 Y) \<and> vl (xiToPMinus1Over6 Y) = xi_sixth
     \<and> good (xiToPSquaredMinus1Over6 Y) \<and> ev (xiToPSquaredMinus1Over6 Y) = fq_omega6"

lemma F12_new_ok: "\<exists>Y. F12_new B fs = Some (Ok Y) \<and> ok12 Y"
proof -
  obtain Y6 where Y6: "F6_new B fs = Some (Ok Y6)" "ok6 Y6" using F6_new_ok by blast
  obtain c1 where c1: "F2_fromString fs
      ''8376118865763821496583973867626364092589906065868298776909617916018768340080,16469823323077808223889137241176536799009286646108169935659301613961712198316'' = Some (Ok c1)"
    "gd c1" "vl c1 = xi_sixth"
    by (rule f2_constant [where s = "''8376118865763821496583973867626364092589906065868298776909617916018768340080''"
        and t = "''16469823323077808223889137241176536799009286646108169935659301613961712198316''" and w = "[]"
        and a = 8376118865763821496583973867626364092589906065868298776909617916018768340080
        and b = 16469823323077808223889137241176536799009286646108169935659301613961712198316])
      (simp_all add: is_digit_def dec_val_def)
  have c2: "good (fs ''21888242871839275220042445260109153167277707414472061641714758635765020556617'')"
    "ev (fs ''21888242871839275220042445260109153167277707414472061641714758635765020556617'') = fq_omega6"
    using fs_int [of "''21888242871839275220042445260109153167277707414472061641714758635765020556617''"
        21888242871839275220042445260109153167277707414472061641714758635765020556617]
    unfolding fq_omega6_def by (simp_all add: is_digit_def dec_val_def)
  show ?thesis
    unfolding F12_new_def Let_def Y6(1) c1(1) bind_oo.simps
    using Y6(2) c1(2,3) c2 by (simp add: ok12_def ok6_def gd12_def vl12_def fq12_eq_iff)
qed

lemmas f12_defs = gd12_def vl12_def fq12_eq_iff Let_def ok12_def

lemma f12_add: "ok12 Y \<Longrightarrow> gd12 a \<Longrightarrow> gd12 b \<Longrightarrow> gd12 (F12_add Y a b) \<and> vl12 (F12_add Y a b) = vl12 a + vl12 b"
  by (simp add: F12_add_def f12_defs f6_laws)

lemma f12_sub: "ok12 Y \<Longrightarrow> gd12 a \<Longrightarrow> gd12 b \<Longrightarrow> gd12 (F12_sub Y a b) \<and> vl12 (F12_sub Y a b) = vl12 a - vl12 b"
  by (simp add: F12_sub_def f12_defs f6_laws)

lemma f12_neg: "ok12 Y \<Longrightarrow> gd12 a \<Longrightarrow> gd12 (F12_neg Y a) \<and> vl12 (F12_neg Y a) = - vl12 a"
  by (simp add: F12_neg_def f12_defs f6_laws)

lemma f12_conjugate: "ok12 Y \<Longrightarrow> gd12 a \<Longrightarrow> gd12 (F12_conjugate Y a) \<and> vl12 (F12_conjugate Y a) = vl12 a ^ q_nat ^ 6"
  unfolding fq12_power_q6 by (simp add: F12_conjugate_def f12_defs f6_laws)

lemma f12_mul: "ok12 Y \<Longrightarrow> gd12 a \<Longrightarrow> gd12 b \<Longrightarrow> gd12 (F12_mul Y a b) \<and> vl12 (F12_mul Y a b) = vl12 a * vl12 b"
  by (simp add: F12_mul_def f12_defs f6_laws mult.commute)

lemma f12_mulScalar: "ok12 Y \<Longrightarrow> gd12 a \<Longrightarrow> gd6 b
    \<Longrightarrow> gd12 (F12_mulScalar Y a b) \<and> vl12 (F12_mulScalar Y a b) = vl12 a * fq12_of (vl6 b)"
  by (simp add: F12_mulScalar_def f12_defs f6_laws)

lemma f12_square: "ok12 Y \<Longrightarrow> gd12 a \<Longrightarrow> gd12 (F12_square Y a) \<and> vl12 (F12_square Y a) = vl12 a ^ 2"
  by (simp add: F12_square_def f12_defs f6_laws power2_eq_square algebra_simps)

lemma f12_Frobenius: "ok12 Y \<Longrightarrow> gd12 a \<Longrightarrow> gd12 (F12_Frobenius Y a) \<and> vl12 (F12_Frobenius Y a) = vl12 a ^ q_nat"
  unfolding fq12_power_q by (simp add: F12_Frobenius_def f12_defs f6_laws fq12_frob_def fq6_power_q)

lemma f12_FrobeniusP2: "ok12 Y \<Longrightarrow> gd12 a \<Longrightarrow> gd12 (F12_FrobeniusP2 Y a) \<and> vl12 (F12_FrobeniusP2 Y a) = vl12 a ^ q_nat ^ 2"
  unfolding fq12_power_q2 by (simp add: F12_FrobeniusP2_def f12_defs f6_laws fq12_frob2_def)

lemma f12_isZero: "ok12 Y \<Longrightarrow> gd12 a \<Longrightarrow> F12_isZero Y a \<longleftrightarrow> vl12 a = 0"
  by (simp add: F12_isZero_def f12_defs f6_laws)

lemma f12_isOne: "ok12 Y \<Longrightarrow> gd12 a \<Longrightarrow> F12_isOne Y a \<longleftrightarrow> vl12 a = 1"
  by (simp add: F12_isOne_def f12_defs f6_laws)

lemma f12_eq: "ok12 Y \<Longrightarrow> gd12 a \<Longrightarrow> gd12 b \<Longrightarrow> F12_eq Y a b \<longleftrightarrow> vl12 a = vl12 b"
  by (simp add: F12_eq_def f12_defs f6_laws)

lemma f12_inv:
  assumes Y: "ok12 Y" and a: "gd12 a" "vl12 a \<noteq> 0"
  shows "gd12 (F12_inv Y a) \<and> vl12 (F12_inv Y a) = inverse (vl12 a)"
proof -
  have F: "f6_F (f12_F Y) = X" using Y by (simp add: ok12_def ok6_def)
  have g: "gd6 (f12_x a)" "gd6 (f12_y a)" using a(1) by (simp_all add: gd12_def)
  define n where "n = F6_sub (f12_F Y) (F6_square (f12_F Y) (f12_y a)) (F6_mulTau (f12_F Y) (F6_square (f12_F Y) (f12_x a)))"
  have n: "gd6 n" "vl6 n = fq12_norm (vl12 a)"
    using g F by (simp_all add: n_def f6_laws fq12_norm_def vl12_def)
  have "vl6 n \<noteq> 0" using a(2) by (simp add: n fq12_norm_0_iff)
  note i = f6_inv [OF F n(1) this]
  have "gd12 \<lparr>f12_x = F6_neg (f12_F Y) (f12_x a), f12_y = f12_y a\<rparr>"
    "vl12 \<lparr>f12_x = F6_neg (f12_F Y) (f12_x a), f12_y = f12_y a\<rparr> = fq12_conj (vl12 a)"
    using g F by (simp_all add: gd12_def vl12_def fq12_eq_iff f6_laws)
  then show ?thesis
    using f12_mulScalar [OF Y _ conjunct1 [OF i]] i
    by (simp add: F12_inv_def Let_def inverse_fq12_def flip: n_def n(2))
qed

lemma f12_div:
  assumes "ok12 Y" "gd12 a" "gd12 b" "vl12 b \<noteq> 0"
  shows "gd12 (F12_div Y a b) \<and> vl12 (F12_div Y a b) = vl12 a / vl12 b"
  using f12_mul [OF assms(1,2) conjunct1 [OF f12_inv [OF assms(1,3,4)]]] f12_inv [OF assms(1,3,4)]
  by (simp add: F12_div_def Let_def divide_fq12_def)

lemma f12_consts: "ok12 Y \<Longrightarrow> gd12 (f12_fOne Y)" "ok12 Y \<Longrightarrow> vl12 (f12_fOne Y) = 1" "ok12 Y \<Longrightarrow> gd12 (f12_fZero Y)"
    "ok12 Y \<Longrightarrow> vl12 (f12_fZero Y) = 0" "ok12 Y \<Longrightarrow> gd12 (f12_fNegOne Y)" "ok12 Y \<Longrightarrow> vl12 (f12_fNegOne Y) = - 1"
  by (simp_all add: ok12_def)

lemmas f12_laws = f12_add f12_sub f12_neg f12_conjugate f12_mul f12_mulScalar f12_square f12_Frobenius f12_FrobeniusP2
  f12_isZero f12_isOne f12_eq f12_consts

end

end
