(* ===== verification/FrPrime.thy ===== *)
theory FrPrime
  imports Primality
begin

text \<open>
  The certificates for the modulus of the scalar field, in the form of those of the base field
  in \<open>FqPrime\<close>.
\<close>

section \<open>Small primes\<close>

lemma prime_983: "is_prime 983"
  by (rule small_prime [where m = 32]) (simp_all add: upto_rec_numeral upto.simps)

lemma prime_1637: "is_prime 1637"
  by (rule small_prime [where m = 41]) (simp_all add: upto_rec_numeral upto.simps)

lemma prime_853: "is_prime 853"
  by (rule small_prime [where m = 30]) (simp_all add: upto_rec_numeral upto.simps)

lemma prime_4999: "is_prime 4999"
  by (rule small_prime [where m = 71]) (simp_all add: upto_rec_numeral upto.simps)

lemma prime_3691: "is_prime 3691"
  by (rule small_prime [where m = 61]) (simp_all add: upto_rec_numeral upto.simps)

section \<open>639533339\<close>

text \<open>The powers of an element of order \<open>1637\<close>.\<close>

lemma p30_637_pow: "pow_reach 639533339
    248876995 1637 1"
  by (rule pow_reach_steps [OF pow_reach_start, where ss = "[
      Sq 96851492, Mul 223506056, Sq 103886036, Sq 314681730, Sq 332368330, Mul 242225274, Sq 572623278, Mul 84591911, Sq 469075630, Sq 51423588,
      Sq 184149217, Mul 75359704, Sq 33815864, Sq 141891806, Mul 11837596]"])
    (simp only: pow_eval mult_zero_left mult_1_left diff_zero, simp)

lemma p30_637_order: "order_witness 639533339 1637
    248876995"
  by (rule order_witnessI [where u = 296391531
      and v = 115341967])
    (simp_all add: p30_637_pow)

text \<open>The powers of an element of order \<open>853\<close>.\<close>

lemma p30_853_pow: "pow_reach 639533339
    256057581 853 1"
  by (rule pow_reach_steps [OF pow_reach_start, where ss = "[
      Sq 102520823, Mul 215146647, Sq 68304208, Sq 434170468, Mul 251664882, Sq 566658317, Sq 4866138, Mul 2704316, Sq 84579483, Sq 148478008,
      Mul 52815057, Sq 128561894, Sq 212295515, Mul 109679626]"])
    (simp only: pow_eval mult_zero_left mult_1_left diff_zero, simp)

lemma p30_853_order: "order_witness 639533339 853
    256057581"
  by (rule order_witnessI [where u = 303978671
      and v = 121707561])
    (simp_all add: p30_853_pow)

lemma prime_p30: "is_prime 639533339"
  by (rule pocklington [where Fs = "[1637, 853]"])
    (auto simp: prime_1637 prime_853 intro: p30_637_order p30_853_order)

section \<open>65865678001877903\<close>

text \<open>The powers of an element of order \<open>639533339\<close>.\<close>

lemma p56_pow: "pow_reach 65865678001877903
    8595199928015311 639533339 1"
  by (rule pow_reach_steps [OF pow_reach_start, where ss = "[
      Sq 1121638219535948, Sq 5612054531243013, Sq 49272871693409161, Mul 426470486169982, Sq 5259093418759782, Mul 3585931294155095,
      Sq 29039037011862199, Sq 35635434184421551, Sq 63791688952762989, Sq 40002140595916967, Sq 57025191431651969, Mul 4270546016108860,
      Sq 51896123270387331, Mul 5485567026732897, Sq 9611470876657096, Mul 5350194041969359, Sq 28442793311971879, Mul 406908343749735,
      Sq 4684008398454788, Sq 46458408286782710, Mul 1765544575825524, Sq 15757161600212, Sq 2286816488902135, Sq 55555497738486739,
      Sq 40057151456145759, Sq 18805961086870182, Sq 26498279738793255, Sq 22456438028403256, Mul 3745239219771056, Sq 17601064792557961,
      Sq 62465572167997396, Sq 778313152257439, Sq 16595046700215247, Mul 5742637791927834, Sq 31494405804500891, Mul 7125586537081813,
      Sq 55804294176725281, Sq 49359749193896012, Mul 2978180442825847, Sq 40033264313372528, Mul 2203555839839122]"])
    (simp only: pow_eval mult_zero_left mult_1_left diff_zero, simp)

lemma p56_order: "order_witness 65865678001877903 639533339
    8595199928015311"
  by (rule order_witnessI [where u = 39033286818209505
      and v = 5093683299525283])
    (simp_all add: p56_pow)

lemma prime_p56: "is_prime 65865678001877903"
  by (rule pocklington [where Fs = "[639533339]"])
    (auto simp: prime_p30 intro: p56_order)

section \<open>13818364434197438864469338081\<close>

text \<open>The powers of an element of order \<open>65865678001877903\<close>.\<close>

lemma p94_pow: "pow_reach 13818364434197438864469338081
    7935281130018080704632618576 65865678001877903 1"
  by (rule pow_reach_steps [OF pow_reach_start, where ss = "[
      Sq 4556884203790953644048480649, Mul 5017657867678860257462704564, Sq 2626658154666458512022102589, Mul 6235455413640637301026581811,
      Sq 12148439916717187945993007246, Sq 12292607985911379118920501901, Mul 3227929667924232023739200777, Sq 6282347664290678482172820614,
      Sq 879999424871565427703033557, Mul 2197877579159553238824627821, Sq 5823353613936214452629922993, Sq 12318834183271586178204503029,
      Sq 218066780238875881708645688, Sq 375489476416926927519801274, Sq 7913059196821277262825356721, Sq 9707709772458610131767890683,
      Sq 1427181835548658164227207531, Sq 5068570390649222222447822820, Sq 6208243277799203197439006991, Sq 7846986668837679889618568807,
      Sq 9640372273245219505906826722, Mul 4232418328815130299746654555, Sq 1210080557208763680525159596, Mul 2969750500085756279170655275,
      Sq 1109055515733298309438705, Mul 494339535377795531552937444, Sq 1155513444986667017935628325, Mul 7430160050756767463919612841,
      Sq 3765259175111960399778577035, Mul 5176402487340607091201894021, Sq 776027583842131564554195909, Sq 4383902044145152776301274455,
      Sq 10660309049614580476033707195, Sq 41053714139785103145534241, Sq 6503711526842239666776851284, Mul 5759109270696129881246703817,
      Sq 7692654319156573966798222008, Mul 4588823360639311893639651885, Sq 712834170252007700279149200, Sq 11277697636925491626123609344,
      Mul 6894810689246460346796757791, Sq 376660300561203939319250238, Sq 5145553972584220841260386703, Sq 6241283026006494625360125555,
      Sq 3909398619257669835214187983, Sq 9144376109008709814932628929, Mul 4120599904576697068930787866, Sq 7971741213603122672321489891,
      Mul 4520553294387153840190844953, Sq 255347119878347713289285475, Sq 3766904424235236668690114342, Sq 5080565997746519261641650059,
      Sq 12049782734103079186712343744, Mul 3762405420424563936962765370, Sq 8162792658097975055380754810, Sq 471428557447292700283853517,
      Sq 637796668980676221542498, Mul 5496380835655396344463637913, Sq 2486550643226126051195222874, Mul 4038791758188599709026623487,
      Sq 2364435928482029727391501744, Sq 6280386855539157330383867780, Sq 3478086896138170026909664475, Mul 6702650521794682898868994983,
      Sq 688184901375131755302615449, Mul 6561976397748665609295550381, Sq 706351639730284556117162526, Mul 3997114070369800377347964494,
      Sq 676687891952362932159807334, Sq 1078013469197015318761326081, Sq 2823370130928126115010642214, Sq 4207146032464250442699538742,
      Mul 6742851248411215048459293869, Sq 2394195495074076269275954810, Mul 2670737281591122951914177504, Sq 6163454577781994231476112614,
      Mul 5472251716154324542910593800, Sq 3765483389889942359474483577, Mul 6401066542102789263873037327]"])
    (simp only: pow_eval mult_zero_left mult_1_left diff_zero, simp)

lemma p94_order: "order_witness 13818364434197438864469338081 65865678001877903
    7935281130018080704632618576"
  by (rule order_witnessI [where u = 12281824895882260584345986666
      and v = 7052913809197938965814028629])
    (simp_all add: p94_pow)

lemma prime_p94: "is_prime 13818364434197438864469338081"
  by (rule pocklington [where Fs = "[65865678001877903]"])
    (auto simp: prime_p56 intro: p94_order)

section \<open>405928799\<close>

text \<open>The powers of an element of order \<open>4999\<close>.\<close>

lemma p29_999_pow: "pow_reach 405928799
    357727241 4999 1"
  by (rule pow_reach_steps [OF pow_reach_start, where ss = "[
      Sq 315249322, Sq 204967312, Sq 167954724, Mul 298843615, Sq 76768515, Mul 261300297, Sq 310986165, Mul 161427712, Sq 478053, Sq 2958880,
      Sq 56800721, Sq 37757996, Sq 213670680, Mul 262974499, Sq 82803101, Mul 312602625, Sq 526961, Mul 152489956]"])
    (simp only: pow_eval mult_zero_left mult_1_left diff_zero, simp)

lemma p29_999_order: "order_witness 405928799 4999
    357727241"
  by (rule order_witnessI [where u = 173101550
      and v = 152546801])
    (simp_all add: p29_999_pow)

text \<open>The powers of an element of order \<open>3691\<close>.\<close>

lemma p29_691_pow: "pow_reach 405928799
    122990330 3691 1"
  by (rule pow_reach_steps [OF pow_reach_start, where ss = "[
      Sq 37264222, Mul 118582117, Sq 129565677, Mul 86474279, Sq 1621422, Sq 68836951, Sq 345331061, Mul 10421429, Sq 46365753, Mul 52273463,
      Sq 353514647, Sq 80098454, Mul 91278997, Sq 363374831, Sq 33938971, Mul 114468868, Sq 319986388, Mul 98531441]"])
    (simp only: pow_eval mult_zero_left mult_1_left diff_zero, simp)

lemma p29_691_order: "order_witness 405928799 3691
    122990330"
  by (rule order_witnessI [where u = 170220075
      and v = 51574126])
    (simp_all add: p29_691_pow)

lemma prime_p29: "is_prime 405928799"
  by (rule pocklington [where Fs = "[4999, 3691]"])
    (auto simp: prime_4999 prime_3691 intro: p29_999_order p29_691_order)

section \<open>21888242871839275222246405745257275088548364400416034343698204186575808495617\<close>

text \<open>The powers of an element of order \<open>13818364434197438864469338081\<close>.\<close>

lemma fr_81_pow_1: "pow_reach 21888242871839275222246405745257275088548364400416034343698204186575808495617
    18810536960267738281623319138564098156538132287104634306360290224932305588168 2857 18104796406065173190581331151014028290209456347151045762255637259888157688897"
  by (rule pow_reach_steps [OF pow_reach_start, where ss = "[
      Sq 16165587288362616707920763639162090134193059927275503713066419440776747514958,
      Sq 3771395013950787002268134367743755588826109318081692324372043765197340430082,
      Mul 15519811117607095879998092674667399375640143197388920738719532985862578126608,
      Sq 911341215618652005137420345027206622979839573017459824326505336229837275880,
      Mul 3216560399354472255912688325387478303424380436284573302904162918481323257956,
      Sq 2426842926767541311626789636639200531515174708218646150036372641114102423189,
      Sq 12153940865779239510031226977251839677690878650351456811375368740009898863110,
      Sq 15789232719067613696551283370135861429302168974356987293062113843438204733063,
      Mul 8484019797316921114000445929253229626309111235607606888771757480740919470823,
      Sq 582378630146065902894608831416026079250985044495071087512893244922072084841,
      Sq 21770960606586310882524703146249678386185646007908940985950994434108090694298,
      Mul 15541532629983139364520358542681159857345098545938235434430744919055504253785,
      Sq 3680106249697180029076657033249580364464634904213392239054211851518805910644,
      Sq 7113014244201506168504204569478467019710498849538043398615622540046940827769,
      Sq 15547822603683422451051869491161387902086375451316154145199059268047079546375,
      Mul 13300886912984480952761928661264914736157994234782855583182942458411965080903]"])
    (simp only: pow_eval mult_zero_left mult_1_left diff_zero, simp)

lemma fr_81_pow_2: "pow_reach 21888242871839275222246405745257275088548364400416034343698204186575808495617
    18810536960267738281623319138564098156538132287104634306360290224932305588168 11704609 1865602758692113732805214818701321192943896161784096184444957995389216886377"
  by (rule pow_reach_steps [OF fr_81_pow_1, where ss = "[
      Sq 14975329670102781472015968848271696765339112657517628025876478478584554484182,
      Mul 6217026091781225891109006903994424820551570776715448430557966986915194196366,
      Sq 21447369400191579579991368237037903734061533038263226048078092457283566232694,
      Sq 6940099303696332963636943761681770646062289649791083469354465070920694381209,
      Sq 8256535628803336664417254433324988240522602832708060024891683897762001988462,
      Mul 2031847347851771920487702869889095631793837876092946143172544216571752371127,
      Sq 16357097262839765889303433318050677465945563063911755349047410329040147195258,
      Sq 11762630284496405185508292194685564354881853556668286914760706256663766070298,
      Sq 296384847170753674941240559321564754865381022830422149383608925688325747738,
      Mul 6667414825177090833808853446819389043799720513958804015240941996717063336377,
      Sq 8628914313531304047534734275065139648607415286848936412766034625815795393669,
      Sq 3904075724676737642219686105299520169828401213899959479170237814808089629553,
      Sq 8081574667471349621926412993758431402780796641124328093204937921154345156027,
      Sq 11646412378807362054253403256438198174365215823680990224085140686966649342621,
      Sq 16641929106344635685984984078360757688310234858492233260867896983389257761519,
      Mul 4942611565843206230977617443761563966368812115360605552649308688557258019623]"])
    (simp only: pow_eval mult_zero_left mult_1_left diff_zero, simp)

lemma fr_81_pow_3: "pow_reach 21888242871839275222246405745257275088548364400416034343698204186575808495617
    18810536960267738281623319138564098156538132287104634306360290224932305588168 5992760295 7869451465732257446455653160922000624677206634823476245857754131876678353832"
  by (rule pow_reach_steps [OF fr_81_pow_2, where ss = "[
      Sq 159011103523412245436607713173189704703000955583029507066152576612051946079,
      Mul 17656255607278982402466520253316257351360588396545516456310675226773002496839,
      Sq 7996633481970165216751668100432495815310743233650628265404197083899690361164,
      Mul 13917853514345097954212840714337268562077314311171321343575017109163872221297,
      Sq 5888550724099541576883547767475487789513303685080660720472950489395461768094,
      Mul 3608644921798307121767745166259491959964940598456169689437802006032601044274,
      Sq 8331794354828773150025246640423761777533608604812926713687542492227752830282,
      Mul 17922219340621389611429480212215078534730090450171855943518715687895901667954,
      Sq 1252344895627958267363493706156095119909780195743128733412896367489175899115,
      Sq 13865820855922064058356895157517978689816666554941036873654389120032443565,
      Sq 761915495104638361879212621355096783759787922601730437354472840174162603345,
      Mul 17247028811022200693049494250247081033863702869119007202405151405708757179614,
      Sq 11219861391826587861077850229730342453758541559825899419718489874857590219806,
      Mul 6782717654364702449211159429841820541495303896607658331771654756084199003999,
      Sq 2783698037632911834472311364612918678432338371099115578114311032884418699597,
      Mul 11153043000735863555140672373884633812489928587082465194454718112924027279864]"])
    (simp only: pow_eval mult_zero_left mult_1_left diff_zero, simp)

lemma fr_81_pow_4: "pow_reach 21888242871839275222246405745257275088548364400416034343698204186575808495617
    18810536960267738281623319138564098156538132287104634306360290224932305588168 6136586543002 1158864674556884102863072769414513629576922765871300912853430616761293277995"
  by (rule pow_reach_steps [OF fr_81_pow_3, where ss = "[
      Sq 2829293641071140280370524532298254256667029220277697137143992924284249520684,
      Mul 10950722848328347169859961869485672276423657635680853552808128251154452703651,
      Sq 9330795494043962216497208833137032782738688299322656286342707702033511664274,
      Mul 2929043526531709798649416089966502553188731459046322744781822967133374944228,
      Sq 1238379887654668451567617143593623636927584392306041531921921130960159198396,
      Mul 7261642288391197596152455675007240970957607803723803760746218463530932349410,
      Sq 9161434269660672399031902016002724177848930836628092323816924321041857221204,
      Sq 12830697363262136353817184232089687902146710326771542286018517374749058858176,
      Sq 21887923479055428325165119310323208245807268505016009575706837542570065452798,
      Mul 1879185634143104249763634532372404838294428499272825193813080079633312474819,
      Sq 16754457409347662792587752302818273884202824045428752394230044088275573726265,
      Mul 11642599777823248190274714291796517986528536312899535635074036100474633687445,
      Sq 6096682584705130830368985332043033808394824174104281898430550164656090274937,
      Sq 1166955920744280506288609444211575475255546565829550055758509173435723670462,
      Mul 8631652757722592570991214273479754470088418199143808204072434301043166881722,
      Sq 410418457194825452280761692980795497732548183225762155842326499520578499513]"])
    (simp only: pow_eval mult_zero_left mult_1_left diff_zero, simp)

lemma fr_81_pow_5: "pow_reach 21888242871839275222246405745257275088548364400416034343698204186575808495617
    18810536960267738281623319138564098156538132287104634306360290224932305588168 6283864620035018 11052742353096130583380847994547880482106796542005414620605658134912518192539"
  by (rule pow_reach_steps [OF fr_81_pow_4, where ss = "[
      Sq 61355648409021102071083692638449745128461023957535654751450209891654285762,
      Mul 524911285034674982657748571000430660098810107963838005110002155086015494129,
      Sq 11070424309786411015739733790173224298728408343921146789174980981515355445204,
      Mul 11621685009253443644971230658357375424064495795910483681147378491322911061153,
      Sq 18290364652995598267184074214688138541314707880616468756164614393495454261959,
      Mul 3734683364198543138282117290146260604832430178586425496982427695251436593519,
      Sq 11555138774731153286161219469588189932515424725567212638293444793669852192819,
      Mul 5461755877684689825601811728851465899020332063550965770516836914077906977722,
      Sq 11505742291410259869167850136400207352309151629235686211718190071152185158199,
      Sq 12385528211069385124017167275177156398893732455794125582117560967301842335,
      Sq 20474040632333995284581804604997899166529881873729586611353604277090575348961,
      Mul 15238534964170777061808643166221350131054404996372756916798325319718171757951,
      Sq 3019720831225005547094232470628248828234061490518361149546099927808837560013,
      Sq 18610470446447138580589612050744221915871880903869242542345963370792951581169,
      Mul 7243603089514082583840080736260828207273696189514419833931723719818498891724,
      Sq 15820547111000921634681616064056013888094066478756192614549600691753798797301]"])
    (simp only: pow_eval mult_zero_left mult_1_left diff_zero, simp)

lemma fr_81_pow_6: "pow_reach 21888242871839275222246405745257275088548364400416034343698204186575808495617
    18810536960267738281623319138564098156538132287104634306360290224932305588168 12869354741831718816 10071983599491435122969773105556695380105943533582030903187821310227440231351"
  by (rule pow_reach_steps [OF fr_81_pow_5, where ss = "[
      Sq 5581220668978239862858952676201552271443220671179692548489085738292038165585,
      Mul 3935949421747015593148536016949531370582101947425335419603828299171793679220,
      Sq 6569446108463759039331443088601521166249448111184382463771228040480899556349,
      Mul 12656045235416216708841520912472818952890881739207300309235566691318999361741,
      Sq 269168110320117786234587425765623136667875639165864516494194438961322022663,
      Mul 2952095081644961293485023851521963068924975086041687275365328802904251792577,
      Sq 15931850204084047155344343519310809226446584634842888077779395214063563482963,
      Mul 13784410577245235549159378572637687035068958765476082158219475590596454412707,
      Sq 14916306110633922502307248417966736072765872174175629081371304040891786529068,
      Sq 7325645275053417323134842811890177309846708341490866249922260266639486420311,
      Mul 2531821701773309252851457485969339493673773135481970766027095384789234319652,
      Sq 1317488520051628841112233621611967593070996214153997133751244271251000657264,
      Sq 5474921289983950448834336394183595870957566037436124138343799133193731348430,
      Sq 16188474696434765338971484987368579472880186979335508564218022207255658696696,
      Sq 13554430964945722527787893210104601763525937814436829012505358887084181981579,
      Sq 20710356730396599206496257084562054730393422130554858629091839835385338594914]"])
    (simp only: pow_eval mult_zero_left mult_1_left diff_zero, simp)

lemma fr_81_pow_7: "pow_reach 21888242871839275222246405745257275088548364400416034343698204186575808495617
    18810536960267738281623319138564098156538132287104634306360290224932305588168 13178219255635680069417 5943997453117762920024847409610815971305710943922462566915468061023111475281"
  by (rule pow_reach_steps [OF fr_81_pow_6, where ss = "[
      Mul 8655761948127716689790027140138236497932974430773977599066825646767708690594,
      Sq 61389051300458513013694486103888845476876140601059068147264198915079617587,
      Mul 15669788657105111316313653966204204813604382748598666950604291464529515317093,
      Sq 740759550539710721782323044809234283053201906698356930495936538552512053301,
      Mul 11914690423927625128654993935689581182402576383376946177922702755702709485598,
      Sq 19667778789477614948389879650687839790769064437748288135991768227163632969798,
      Sq 5114572790229371577651991347645218832896418562480838851512501039536811240387,
      Sq 84802535685680121793939041974074006322247128113790685347690616557374614660,
      Mul 15637014361855230429633551544874059543822966803045813727210168968950522503675,
      Sq 21629932382043948849679912622636575656141409232911495145122697903810895464810,
      Sq 1716269025989581274533871752924916579857310419320606888659265758168864964528,
      Mul 18236266330470042761915414172652783329383925645310043955212348205303402910634,
      Sq 18594298349173563291024338133736443978120459572249153369470657640866191067997,
      Sq 25575435354571661081566239045145436101040718725026000341992420830491836011,
      Sq 14707559699738262923285110895770166514566680483213106287543280675298318579403,
      Mul 10289057003028625429852172612806119411159418586173208659105699148284696372279]"])
    (simp only: pow_eval mult_zero_left mult_1_left diff_zero, simp)

lemma fr_81_pow_8: "pow_reach 21888242871839275222246405745257275088548364400416034343698204186575808495617
    18810536960267738281623319138564098156538132287104634306360290224932305588168 26988993035541872782166675 14244080746985472109071544864289643402291784897116457025653203028876510377496"
  by (rule pow_reach_steps [OF fr_81_pow_7, where ss = "[
      Sq 1614159068388552169931835828601321855843163065590648941101127513137590836308,
      Sq 17528019806502624102114683286300760130997545645739216606465126175672409688320,
      Mul 11735746102388818172859498694968645287729795183389184574613248985201366889800,
      Sq 57513011892752776962328868284857583012770508564194364207145979607338296,
      Sq 13477470057957058177421965011213507988751787845236011456181322912393103369405,
      Mul 16007549311442685490580757715774910965444354983283477742306090332490172985004,
      Sq 9391527842076055093935820154573845197121055110231824512060247572633298342374,
      Sq 7360401978227345062479407227191430739038117809217953605470938385213643392913,
      Sq 4352819183099198957555369587581414792136223782067670113302348946629336429537,
      Mul 13073122206411076468252622847766218861604958836508904199667315634396877448612,
      Sq 642554541735277395697236792577142911445915097991100602623205107955250463968,
      Sq 2870733524408428056177735199473157241037482568717490934753628613294960145905,
      Sq 4736110802233047067357934937341934211238535857768661318549689569749260912562,
      Mul 5983272170578872141141474219282647242548194453356412052513881177069284667111,
      Sq 144072615256196675356280341032133157352579184578093936141344206662226748644,
      Mul 14089055085116565984460202745967130468690255184073583032947906372017706137744]"])
    (simp only: pow_eval mult_zero_left mult_1_left diff_zero, simp)

lemma fr_81_pow_9: "pow_reach 21888242871839275222246405745257275088548364400416034343698204186575808495617
    18810536960267738281623319138564098156538132287104634306360290224932305588168 13818364434197438864469338081 1"
  by (rule pow_reach_steps [OF fr_81_pow_8, where ss = "[
      Sq 9269535134210294826282127096542739066348060566751072589197375400620171073564,
      Mul 7552217121585559463992630574679884701160798220029344838268624283758611723252,
      Sq 10245254565077664903228153999007247418994447751291042262059173913129255300177,
      Mul 5352196588145240248669124543433936453901743666413166800959812748503013027654,
      Sq 14364149507596140210945774173263882572808159230806300592850812744353875397549,
      Mul 3035375744673626321207023792307746919197098551416039638808228603612837902146,
      Sq 8001348093749302557284265149018403039013618504238086914216423782174627871,
      Mul 10405949048456815536825402638649134808531759039770239439439286703664692904139,
      Sq 3722493127069020511451937664586127890516367301343543155603530534662067981773,
      Sq 1593034933270393094089505262047765471362562134506684932607242725009065065248,
      Sq 1983838725571585187814529848561581238862665888399718445442553752470577648485,
      Sq 131489516100919203375034960463920269589835809010794528461264380810026069584,
      Sq 13231368708663678652623418735523578136013185743167822885014883102895407703403,
      Mul 31020717452500581225536528621486575053039252315858113139694046186227422639]"])
    (simp only: pow_eval mult_zero_left mult_1_left diff_zero, simp)

lemma fr_81_order: "order_witness 21888242871839275222246405745257275088548364400416034343698204186575808495617 13818364434197438864469338081
    18810536960267738281623319138564098156538132287104634306360290224932305588168"
  by (rule order_witnessI [where u = 18830771696733986827343121108258373716716634563029220880262390084180817631389
      and v = 16182976818459130185777021246784971380378737693564323278560854903669132907786])
    (simp_all add: fr_81_pow_9)

text \<open>The powers of an element of order \<open>405928799\<close>.\<close>

lemma fr_799_pow_1: "pow_reach 21888242871839275222246405745257275088548364400416034343698204186575808495617
    14222862425608002768327293780974001985325119916805696672186700023306367139382 6193 5227698462601000433332186069309560302511577298615062026565323516182410003106"
  by (rule pow_reach_steps [OF pow_reach_start, where ss = "[
      Sq 9241939463218935390999996053957072212464739742668329086032133508319902541083,
      Mul 6877922301096685784926359356952328297166971251246434798411071679654369759285,
      Sq 302495242824479709514470573306638307208881312001835331092866966097480862384,
      Sq 14487949242411362525691784523465872435384249481546221606382927824891321022038,
      Sq 498446556573266834683556108831033280740841627503468139630800923096971246159,
      Sq 1090810880202342713989773785190287081796964159804839731357180086348012783472,
      Sq 2391729928290122487307003694248431600149289695922431062589939809968885037885,
      Sq 10858161511304110232792769700084852822861336022765068632019646459480961234675,
      Mul 5320743797045463791828817309232933809698923291893839734460319793157358667063,
      Sq 4072891722234438249979322264747703719442168923032186247867665181699543748651,
      Mul 12124101944151258143531907013354262069363144408996423531356353649908553017840,
      Sq 13837935626171174651524906076705205954214097205138983607295517415081370248108,
      Sq 6325747012121523601489400652904004620825821208846398064090816671685180804225,
      Sq 6435146556335098689404946087191892372578447997237040547637355711484371315590,
      Sq 453668944357122225917572278392338576727041648699214809821879202436131600523,
      Mul 737140208727054678160277235455251087357367585028752693761392050631325927122]"])
    (simp only: pow_eval mult_zero_left mult_1_left diff_zero, simp)

lemma fr_799_pow_2: "pow_reach 21888242871839275222246405745257275088548364400416034343698204186575808495617
    14222862425608002768327293780974001985325119916805696672186700023306367139382 3171318 19797363386404965399190537984205835914018662676570196371434920442295492771511"
  by (rule pow_reach_steps [OF fr_799_pow_1, where ss = "[
      Sq 1248562133374409790208735140973927960088369308119463621378212404335563714258,
      Mul 8875906764252200086705036790134610455187322315320118143419527081666452212136,
      Sq 2089195535631921767818652317574675896855151910931592616530637117872950196143,
      Mul 10026579184858658843518968747666029409041635827805218364102097456048713827950,
      Sq 1135841552114384701722140291382242652308498702049787171778958871934823284413,
      Mul 7379785591186295581156150586408816672652873526142594885742421369468458250152,
      Sq 4660677590904566078491824511202623868762663750176859514661582095952117194956,
      Mul 2135153750888931183188370957223456122974473613913800613020910932102245490296,
      Sq 6580972915478084214738303222473659491642548438319474496295467471339764686057,
      Mul 12497373117271503554370809735868795036078242565813894810419818021470768530122,
      Sq 4292874327896119622765385261919155914156138195862636418947123165810653554843,
      Sq 1830389596894696159514948493546952075308313842186232576152595856600465608416,
      Mul 7008646868136854465856354009943182093069164495173111783155225266859571806595,
      Sq 1282735958695399366066641751095615232739989706766290216941512582103752910310,
      Mul 13687531632655072665114295058852429616686118049937877969193712619765493755370,
      Sq 15011985280894476091651049826864380290005461185880806494750924776546923678089]"])
    (simp only: pow_eval mult_zero_left mult_1_left diff_zero, simp)

lemma fr_799_pow_3: "pow_reach 21888242871839275222246405745257275088548364400416034343698204186575808495617
    14222862425608002768327293780974001985325119916805696672186700023306367139382 405928799 1"
  by (rule pow_reach_steps [OF fr_799_pow_2, where ss = "[
      Sq 17906215649572304867282756387615218287527372749037365615132521171929620616428,
      Mul 1580414603700576190071753173677032330665824175053642928110676222141701207441,
      Sq 9513683823643091068638336364515289801624744868371520246214197705747097308830,
      Sq 14245065356460550988846985886113838041385956672112944636995436210700919868035,
      Mul 8586955069369761327357597708734444819917387841458295559815844253991556271834,
      Sq 18046890033304439844019583431132577118003033431396530087686700210102652667164,
      Mul 6095563860457548229425538798678062285640271379332711628575304082078369704611,
      Sq 7718716989198112386608235066553052134787704032080463379592324099335504531852,
      Mul 4135819830660842002521720274473603170923091890882889815836491114472694860145,
      Sq 7580258996537464861887124314819658815793739360457901598149232571865746821107,
      Mul 6347728072289187900609967215126093251497278116418043938465110409248716587679,
      Sq 8265584316858711882443070662051867123100454087681602399488727643646403624298,
      Mul 2877603271828138885234744155755163551569303676939512528483232313021909624297]"])
    (simp only: pow_eval mult_zero_left mult_1_left diff_zero, simp)

lemma fr_799_order: "order_witness 21888242871839275222246405745257275088548364400416034343698204186575808495617 405928799
    14222862425608002768327293780974001985325119916805696672186700023306367139382"
  by (rule order_witnessI [where u = 11867785311923627686151832346040282841447401680872518887358118101719435550735
      and v = 7711623028694825417506845074318203452747374779481014847127216627349116421402])
    (simp_all add: fr_799_pow_3)

text \<open>The powers of an element of order \<open>983\<close>.\<close>

lemma fr_983_pow: "pow_reach 21888242871839275222246405745257275088548364400416034343698204186575808495617
    7126879685284399999585885404354813824736962529068896379753601470480697959896 983 1"
  by (rule pow_reach_steps [OF pow_reach_start, where ss = "[
      Sq 2320534103441779267189205448584516757432609592131405284845458919794375772318,
      Mul 5607173782119851551856564024841781523651220869821872538663051161381311815562,
      Sq 7175975200074302228321049301834347750448216259458760858623563879140840157410,
      Mul 5193401573382734493361892821041732049137847846212447348881352831835244427974,
      Sq 21776862257302680735517442873576628401564662718381054039889293069078741398880,
      Mul 775136096181345379464633019775765403583373207946440396696786974789244682824,
      Sq 2400887586381273655868841831749460412710044432819301111353589741298810147801,
      Sq 1771172652764418888734089374797329327525916336346635524384357293129985978123,
      Mul 3840628764858937946141692310250547058087218797792084615293160519656524883375,
      Sq 102214834760824406959095366435834019246163906208460754936243108681342565,
      Sq 8057045320339649782670469202201148926358230595930575624141900210798941659987,
      Mul 2136106554497762687859656916683346869236317293740982963884711083673895682342,
      Sq 15418385085621641072881413255540314011738392936847226261145542861499434263093,
      Mul 6131992448384279294177982683893580554592657428513539364418777866600715207419,
      Sq 15571884622666907603027370729154338162729864772438078122790545187007165256504,
      Mul 1521130880425796109533257176340718986053067881816691289549320211825818354263]"])
    (simp only: pow_eval mult_zero_left mult_1_left diff_zero, simp)

lemma fr_983_order: "order_witness 21888242871839275222246405745257275088548364400416034343698204186575808495617 983
    7126879685284399999585885404354813824736962529068896379753601470480697959896"
  by (rule order_witnessI [where u = 2182979773476594597816621090240490251929741808593388263240661821959304335301
      and v = 710784976759980282178454411707012067581443694152988473245121839271926298482])
    (simp_all add: fr_983_pow)

lemma prime_fr: "is_prime 21888242871839275222246405745257275088548364400416034343698204186575808495617"
  by (rule pocklington [where Fs = "[13818364434197438864469338081, 405928799, 983]"])
    (auto simp: prime_p94 prime_p29 prime_983 intro: fr_81_order fr_799_order fr_983_order)

end
