(* ===== verification/FrField.thy ===== *)
theory FrField
  imports FrPrime
begin

text \<open>
  The scalar field of the curve as a ring, the integers modulo the prime of \<open>build/fr.cpp\<close>, and
  the facts on squares that decide the search of the transform's constructor: 2 and 3 are
  squares, 5 is not. The last is shown with a Gauss sum in the group ring of the cyclic group of
  order five.
\<close>

definition fr_prime :: int where
  "fr_prime = 21888242871839275222246405745257275088548364400416034343698204186575808495617"

lemma is_prime_fr: "is_prime fr_prime"
  unfolding fr_prime_def by (rule prime_fr)

lemma fr_prime_gt_1: "1 < fr_prime"
  by (rule is_prime_gt_1 [OF is_prime_fr])

section \<open>The ring\<close>

typedef fr = "{0..<fr_prime}"
  using fr_prime_gt_1 by (intro exI [of _ 0]) simp

setup_lifting type_definition_fr

lift_definition of_fr :: "int \<Rightarrow> fr" is "\<lambda>x. x mod fr_prime"
  using fr_prime_gt_1 by simp

instantiation fr :: comm_ring_1
begin

lift_definition zero_fr :: fr is 0 using fr_prime_gt_1 by simp
lift_definition one_fr :: fr is 1 using fr_prime_gt_1 by simp
lift_definition plus_fr :: "fr \<Rightarrow> fr \<Rightarrow> fr" is "\<lambda>x y. (x + y) mod fr_prime" using fr_prime_gt_1 by simp
lift_definition minus_fr :: "fr \<Rightarrow> fr \<Rightarrow> fr" is "\<lambda>x y. (x - y) mod fr_prime" using fr_prime_gt_1 by simp
lift_definition uminus_fr :: "fr \<Rightarrow> fr" is "\<lambda>x. (- x) mod fr_prime" using fr_prime_gt_1 by simp
lift_definition times_fr :: "fr \<Rightarrow> fr \<Rightarrow> fr" is "\<lambda>x y. (x * y) mod fr_prime" using fr_prime_gt_1 by simp

instance
  by standard (transfer; use fr_prime_gt_1 in \<open>simp add: mod_simps algebra_simps\<close>)+

end

lemma of_fr_hom: "of_fr (x + y) = of_fr x + of_fr y" "of_fr (x - y) = of_fr x - of_fr y" "of_fr (- x) = - of_fr x"
  "of_fr (x * y) = of_fr x * of_fr y" "of_fr 0 = 0" "of_fr 1 = 1"
  by (transfer; use fr_prime_gt_1 in \<open>simp add: mod_simps\<close>)+

lemma of_fr_power: "of_fr (x ^ n) = of_fr x ^ n"
  by (induction n) (simp_all add: of_fr_hom)

lemma of_fr_eq_iff: "of_fr x = of_fr y \<longleftrightarrow> x mod fr_prime = y mod fr_prime"
  by transfer simp

lemma of_fr_int: "of_fr n = of_int n"
proof -
  have "of_fr (int m) = of_nat m" for m by (induction m) (simp_all add: of_fr_hom)
  then show ?thesis by (cases n rule: int_cases2) (simp_all add: of_fr_hom)
qed

section \<open>Squares\<close>

text \<open>The group ring of the cyclic group of order five.\<close>

datatype c5 = C5 int int int int int

instantiation c5 :: comm_ring_1
begin

definition zero_c5 :: c5 where "zero_c5 = C5 0 0 0 0 0"
definition one_c5 :: c5 where "one_c5 = C5 1 0 0 0 0"

fun plus_c5 :: "c5 \<Rightarrow> c5 \<Rightarrow> c5" where
  "plus_c5 (C5 a b c d e) (C5 a' b' c' d' e') = C5 (a + a') (b + b') (c + c') (d + d') (e + e')"

fun minus_c5 :: "c5 \<Rightarrow> c5 \<Rightarrow> c5" where
  "minus_c5 (C5 a b c d e) (C5 a' b' c' d' e') = C5 (a - a') (b - b') (c - c') (d - d') (e - e')"

fun uminus_c5 :: "c5 \<Rightarrow> c5" where
  "uminus_c5 (C5 a b c d e) = C5 (- a) (- b) (- c) (- d) (- e)"

fun times_c5 :: "c5 \<Rightarrow> c5 \<Rightarrow> c5" where
  "times_c5 (C5 a b c d e) (C5 a' b' c' d' e') =
     C5 (a * a' + b * e' + c * d' + d * c' + e * b')
        (a * b' + b * a' + c * e' + d * d' + e * c')
        (a * c' + b * b' + c * a' + d * e' + e * d')
        (a * d' + b * c' + c * b' + d * a' + e * e')
        (a * e' + b * d' + c * c' + d * b' + e * a')"

instance
proof
  fix x y z :: c5
  show "x + y + z = x + (y + z)" "x * y * z = x * (y * z)" "(x + y) * z = x * z + y * z"
    by (cases x; cases y; cases z; simp add: algebra_simps)+
  show "x + y = y + x" "x * y = y * x" "x - y = x + - y"
    by (cases x; cases y; simp add: algebra_simps)+
  show "0 + x = x" "1 * x = x" "- x + x = 0"
    by (cases x; simp add: zero_c5_def one_c5_def)+
  show "(0 :: c5) \<noteq> 1" by (simp add: zero_c5_def one_c5_def)
qed

end

lemma of_nat_c5: "of_nat n = C5 (int n) 0 0 0 0"
  by (induction n) (simp_all add: zero_c5_def one_c5_def)

lemma of_int_c5: "of_int n = C5 n 0 0 0 0"
  by (cases n rule: int_cases2) (simp_all add: of_nat_c5)

definition gauss :: c5 where
  "gauss = C5 0 1 (- 1) (- 1) 1"

lemma gauss_power: "gauss ^ (2 * k + 1) = of_int (5 ^ k) * gauss"
proof (induction k)
  case (Suc k)
  have "gauss ^ (2 * Suc k + 1) = gauss ^ (2 * k + 1) * (gauss * gauss)" by (simp add: ac_simps)
  also have "\<dots> = of_int (5 ^ k) * (gauss * (gauss * gauss))" by (simp only: Suc.IH mult.assoc)
  also have "gauss * (gauss * gauss) = of_int 5 * gauss" by (simp add: gauss_def of_int_c5 del: of_int_numeral)
  also have "of_int (5 ^ k) * (of_int 5 * gauss) = of_int (5 ^ Suc k) * gauss" by (simp only: power_Suc of_int_mult ac_simps)
  finally show ?case .
qed simp

text \<open>Powers with a prime exponent are additive up to multiples of the prime.\<close>

lemma fr_dvd_binomial:
  assumes "is_prime (int p)" "0 < k" "k < p"
  shows "p dvd (p choose k)"
proof -
  obtain p' k' where s: "p = Suc p'" "k = Suc k'" using assms(2,3) by (cases p; cases k) auto
  have "p * (p' choose k') = (p choose k) * k" unfolding s by (rule Suc_times_binomial_eq)
  then have "p dvd k * (p choose k)" by (metis dvd_triv_left mult.commute)
  then have "int p dvd int k * int (p choose k)" by (simp only: int_dvd_int_iff flip: of_nat_mult)
  moreover have "\<not> int p dvd int k" using assms(2,3) by (simp add: nat_dvd_not_less)
  ultimately have "int p dvd int (p choose k)" using prime_dvd_mult [OF assms(1)] by blast
  then show ?thesis by (simp only: int_dvd_int_iff)
qed

lemma power_prime_add:
  fixes x y :: "'a::comm_ring_1"
  assumes "is_prime (int p)"
  shows "\<exists>z. (x + y) ^ p = x ^ p + y ^ p + of_nat p * z"
proof -
  have p: "0 < p" using is_prime_gt_1 [OF assms] by simp
  define z where "z = (\<Sum>k \<in> {1..<p}. of_nat ((p choose k) div p) * x ^ k * y ^ (p - k))"
  have "(x + y) ^ p = (\<Sum>k \<le> p. of_nat (p choose k) * x ^ k * y ^ (p - k))" by (rule binomial_ring)
  also have "{..p} = insert 0 (insert p {1..<p})" using p by auto
  also have "(\<Sum>k \<in> insert 0 (insert p {1..<p}). of_nat (p choose k) * x ^ k * y ^ (p - k))
      = y ^ p + (x ^ p + (\<Sum>k \<in> {1..<p}. of_nat (p choose k) * x ^ k * y ^ (p - k)))"
    using p by (subst sum.insert; simp)+
  also have "(\<Sum>k \<in> {1..<p}. of_nat (p choose k) * x ^ k * y ^ (p - k)) = of_nat p * z"
    unfolding z_def sum_distrib_left
  proof (rule sum.cong)
    fix k assume "k \<in> {1..<p}"
    then have "p * ((p choose k) div p) = (p choose k)" using fr_dvd_binomial [OF assms, of k] by simp
    then show "of_nat (p choose k) * x ^ k * y ^ (p - k) = of_nat p * (of_nat ((p choose k) div p) * x ^ k * y ^ (p - k))"
      by (metis mult.assoc of_nat_mult)
  qed simp
  finally show ?thesis by (intro exI [of _ z]) (simp add: ac_simps)
qed

lemma five_non_square:
  assumes p: "is_prime (int p)" "p = 2 * k + 1" "p mod 5 = 2"
  shows "(5 ^ k :: int) mod int p = int p - 1"
proof -
  define X where "X = C5 0 1 0 0 0"
  have X5: "X ^ 5 = 1" by (simp add: X_def one_c5_def eval_nat_numeral)
  have "X ^ p = X ^ (5 * (p div 5) + p mod 5)" by simp
  also have "\<dots> = X ^ 2" unfolding power_add power_mult X5 p(3) by simp
  finally have Xp: "X ^ p = X ^ 2" .
  have odd: "(- u) ^ p = - (u ^ p)" for u :: c5 using p(2) by simp
  have "gauss = ((X + - (X ^ 2)) + - (X ^ 3)) + X ^ 4" by (simp add: gauss_def X_def eval_nat_numeral)
  moreover obtain z1 where z1: "(((X + - (X ^ 2)) + - (X ^ 3)) + X ^ 4) ^ p = ((X + - (X ^ 2)) + - (X ^ 3)) ^ p + (X ^ 4) ^ p + of_nat p * z1"
    using power_prime_add [OF p(1)] by blast
  moreover obtain z2 where z2: "((X + - (X ^ 2)) + - (X ^ 3)) ^ p = (X + - (X ^ 2)) ^ p + (- (X ^ 3)) ^ p + of_nat p * z2"
    using power_prime_add [OF p(1)] by blast
  moreover obtain z3 where z3: "(X + - (X ^ 2)) ^ p = X ^ p + (- (X ^ 2)) ^ p + of_nat p * z3"
    using power_prime_add [OF p(1)] by blast
  moreover have "(X ^ j) ^ p = X ^ (2 * j)" for j by (metis Xp mult.commute power_mult)
  ultimately have "gauss ^ p = X ^ 2 + - (X ^ (2 * 2)) + - (X ^ (2 * 3)) + X ^ (2 * 4) + of_nat p * (z1 + z2 + z3)"
    by (simp add: odd Xp distrib_left del: mult_Suc_right)
  also have "X ^ 2 + - (X ^ (2 * 2)) + - (X ^ (2 * 3)) + X ^ (2 * 4) = - gauss" by (simp add: gauss_def X_def eval_nat_numeral)
  finally have "of_int (5 ^ k) * gauss = - gauss + of_nat p * (z1 + z2 + z3)" using gauss_power [of k] by (simp only: p(2))
  then have e: "5 ^ k = - 1 + int p * (case z1 + z2 + z3 of C5 a b c d e \<Rightarrow> b)"
    by (cases "z1 + z2 + z3") (simp add: gauss_def of_int_c5 of_nat_c5 del: of_int_power)
  have "(5 ^ k :: int) mod int p = (- 1) mod int p" by (simp only: e mod_mult_self2)
  also have "\<dots> = int p - 1" using is_prime_gt_1 [OF p(1)] by (simp add: zmod_minus1)
  finally show ?thesis .
qed

section \<open>The search for a non-residue\<close>

lemma square_residue:
  assumes p: "is_prime p" "p = 2 * int k + 1" and y: "y * y = x + c * p" "\<not> p dvd x"
  shows "x ^ k mod p = 1"
proof -
  have "\<not> p dvd y" using y by (metis dvd_add_left_iff dvd_mult dvd_mult2 dvd_refl)
  then have "y ^ nat (p - 1) mod p = 1" by (rule fermat [OF p(1)])
  moreover have "nat (p - 1) = 2 * k" by (simp add: p(2))
  then have "y ^ nat (p - 1) = (y * y) ^ k" by (simp add: power_mult power2_eq_square)
  moreover have "(x + c * p) ^ k mod p = x ^ k mod p" by (metis mod_mult_self1 power_mod)
  ultimately show ?thesis by (simp only: y(1))
qed

lemma fr_two_square: "6265726278199534483148339147879825670854228981575640389718095647651409606938 * 6265726278199534483148339147879825670854228981575640389718095647651409606938 = 2 + 1793626195724920607714833847266294156867737712259220162591014383862531659426 * fr_prime"
  by (simp add: fr_prime_def)

lemma fr_three_square: "21888242871839275217838484774961031245711156914764510301779439637018554284970 * 21888242871839275217838484774961031245711156914764510301779439637018554284970 = 3 + 21888242871839275213430563804664787403761629970403722173984441145096748911841 * fr_prime"
  by (simp add: fr_prime_def)

text \<open>The powers of 2, 3, 4 and 5 at half the order of the multiplicative group.\<close>

lemma fr_half_order:
  defines "k \<equiv> nat ((fr_prime - 1) div 2)"
  shows "2 ^ k mod fr_prime = 1" "3 ^ k mod fr_prime = 1" "4 ^ k mod fr_prime = 1" "5 ^ k mod fr_prime = fr_prime - 1"
proof -
  have k: "fr_prime = 2 * int k + 1" by (simp add: k_def fr_prime_def)
  have "\<not> fr_prime dvd 2" "\<not> fr_prime dvd 3" by (simp_all add: fr_prime_def zdvd_not_zless)
  then show "2 ^ k mod fr_prime = 1" "3 ^ k mod fr_prime = 1"
    using square_residue [OF is_prime_fr k] fr_two_square fr_three_square by blast+
  have "(4::int) ^ k = 2 ^ k * 2 ^ k" by (simp flip: power_mult_distrib)
  then have "4 ^ k mod fr_prime = (2 ^ k mod fr_prime) * (2 ^ k mod fr_prime) mod fr_prime" by (simp only: mod_mult_eq)
  also have "\<dots> = 1" unfolding \<open>2 ^ k mod fr_prime = 1\<close> using fr_prime_gt_1 by simp
  finally show "4 ^ k mod fr_prime = 1" .
  have e: "fr_prime = int (2 * k + 1)" using k by simp
  have "int ((2 * k + 1) mod 5) = fr_prime mod 5" unfolding e by (simp only: zmod_int of_nat_numeral)
  also have "\<dots> = 2" by (simp add: fr_prime_def)
  finally have m: "(2 * k + 1) mod 5 = 2" by linarith
  have "is_prime (int (2 * k + 1))" using is_prime_fr unfolding e .
  then have "(5 ^ k :: int) mod int (2 * k + 1) = int (2 * k + 1) - 1" using m by (intro five_non_square) simp_all
  then show "5 ^ k mod fr_prime = fr_prime - 1" unfolding e .
qed

end
