(* ===== verification/Fft.thy ===== *)
theory Fft
  imports RawClass Curve ThreadPool
begin

text \<open>
  The fast Fourier transform over a field (\<open>depends/ffiasm/c/fft.hpp\<close>, \<open>fft.cpp\<close>): the tables
  of the constructor, the bit-reversal permutation, the transform and its inverse. An array of
  elements is a list; the loops run on the thread pool, each with its own schedule. A result
  \<open>None\<close> means that \<open>log2\<close> is called on zero or that the assertion on the length fails.
\<close>

section \<open>The model\<close>

text \<open>What the class asks of the field beyond the curve class: \<open>f_exp F r b k size\<close> is \<open>exp\<close>, with the destination's old value \<open>r\<close>.\<close>

record 'e fft_ops = "'e base_ops" +
  f_toMpz :: "'e \<Rightarrow> int"
  f_fromMpz :: "int \<Rightarrow> 'e"
  f_exp :: "'e \<Rightarrow> 'e \<Rightarrow> u8 list \<Rightarrow> u32 \<Rightarrow> 'e"

record 'e fft_obj =
  fft_s :: u32
  fft_nqr :: 'e
  fft_roots :: "'e list"
  fft_powTwoInv :: "'e list"

text \<open>The loop of \<open>log2\<close>; it does not end on zero, where the assertion in front of it fails.\<close>

partial_function (option) log2_loop :: "u64 \<Rightarrow> u32 \<Rightarrow> u32 option" where
  "log2_loop n res = (if n = 1 then Some res else log2_loop (drop_bit 1 n) (res + 1))"

definition log2 :: "u64 \<Rightarrow> u32 option" where
  "log2 n = log2_loop n 0"

definition BR :: "u64 \<Rightarrow> u64 \<Rightarrow> u64" where
  "BR x domainPow =
     (let x = drop_bit 16 x OR push_bit 16 x;
          x = drop_bit 8 (x AND 0xFF00FF00) OR push_bit 8 (x AND 0x00FF00FF);
          x = drop_bit 4 (x AND 0xF0F0F0F0) OR push_bit 4 (x AND 0x0F0F0F0F);
          x = drop_bit 2 (x AND 0xCCCCCCCC) OR push_bit 2 (x AND 0x33333333)
      in drop_bit (unat (32 - domainPow)) (drop_bit 1 (x AND 0xAAAAAAAA) OR push_bit 1 (x AND 0x55555555)))"

text \<open>The search for an element that is not a square: \<open>m_aux\<close> is the power of \<open>m_nqr\<close>.\<close>

partial_function (option) nqr_loop :: "mpz_lib \<Rightarrow> int \<Rightarrow> int \<Rightarrow> int \<Rightarrow> int \<Rightarrow> int option" where
  "nqr_loop Z m_qm1d2 m_q m_nqr m_aux =
     (if m_aux = 1
      then nqr_loop Z m_qm1d2 m_q (mpz_add Z m_nqr 1) (mpz_powm Z (mpz_add Z m_nqr 1) m_qm1d2 m_q)
      else Some m_nqr)"

text \<open>The loop that divides \<open>m_aux\<close> by two as long as it is even, at most up to the domain.\<close>

function adicity_loop :: "mpz_lib \<Rightarrow> u32 \<Rightarrow> u32 \<Rightarrow> int \<Rightarrow> u32 \<times> int" where
  "adicity_loop Z domainPow s m_aux =
     (if \<not> bit m_aux 0 \<and> s < domainPow
      then adicity_loop Z domainPow (s + 1) (mpz_fdiv_q Z m_aux (2 ^ 1))
      else (s, m_aux))"
  by pat_completeness auto

lemma unat_less_Suc: "x < y \<Longrightarrow> unat (x + 1) = unat x + 1" for x y :: "'a::len word"
proof -
  assume "x < y"
  then have "unat x + 1 \<le> unat y" by (simp add: word_less_nat_alt)
  then have "unat x + 1 < 2 ^ LENGTH('a)" using unsigned_less [of y] by (rule order_le_less_trans)
  then show ?thesis by (simp add: unat_word_ariths)
qed

termination adicity_loop
  by (relation "measure (\<lambda>(Z, domainPow, s, m_aux). unat domainPow - unat s)")
    (auto simp: unat_less_Suc word_less_nat_alt)

declare adicity_loop.simps [simp del]

text \<open>The body of the parallel block: one thread's part of the table of roots.\<close>

definition root_block :: "'e fft_ops \<Rightarrow> u64 \<Rightarrow> nat \<Rightarrow> nat \<Rightarrow> 'e list \<Rightarrow> 'e list" where
  "root_block F nRoots nThreads idThread roots =
     (let increment = nRoots div of_nat nThreads;
          start = (if idThread = 0 then 2 else of_nat idThread * increment);
          end' = (if idThread = nThreads - 1 then nRoots else (of_nat idThread + 1) * increment);
          roots = (if end' > start
            then roots[unat start := f_exp F (roots ! unat start) (roots ! 1) (le_bytes 8 (unat start)) 8] else roots)
      in fold (\<lambda>i roots. roots[i := f_mul F (roots ! (i - 1)) (roots ! 1)]) [unat start + 1..<unat end'] roots)"

text \<open>The constructor. \<open>None\<close>: it does not return, or an assertion fails; \<open>garbage\<close> is what the
  freshly allocated arrays hold.\<close>

definition FFT :: "'e fft_ops \<Rightarrow> mpz_lib \<Rightarrow> nat \<Rightarrow> nat list \<Rightarrow> (nat \<Rightarrow> 'e) \<Rightarrow> u64 \<Rightarrow> 'e fft_obj outcome option" where
  "FFT F Z nThreads order garbage maxDomainSize =
     Option.bind (log2 maxDomainSize) (\<lambda>domainPow.
       let m_aux = f_toMpz F (f_negOne F);
           m_q = mpz_add Z m_aux 1;
           m_qm1d2 = mpz_fdiv_q Z m_aux (2 ^ 1)
       in Option.bind (nqr_loop Z m_qm1d2 m_q 2 (mpz_powm Z 2 m_qm1d2 m_q)) (\<lambda>m_nqr.
         let nqr = f_fromMpz F m_nqr;
             (s, m_aux) = adicity_loop Z domainPow 1 m_qm1d2
         in if s < domainPow then Some (Throw (range_error ''Domain size too big for the curve''))
            else
              let nRoots = push_bit (unat s) (1 :: u64);
                  roots = map garbage [0..<unat nRoots];
                  powTwoInv = map garbage [0..<unat (s + 1)];
                  roots = roots[0 := f_one F];
                  powTwoInv = powTwoInv[0 := f_one F];
                  (roots, powTwoInv) = (if nRoots > 1
                    then (roots[1 := f_fromMpz F (mpz_powm Z m_nqr m_aux m_q)],
                          powTwoInv[1 := f_fromMpz F (mpz_invert Z 2 m_q)])
                    else (roots, powTwoInv));
                  roots = parallelBlock nThreads order (root_block F nRoots) roots;
                  aux = f_mul F (roots ! unat (nRoots - 1)) (roots ! 1)
              in if \<not> f_eq F aux (f_one F) then None
                 else
                   let powTwoInv = fold (\<lambda>i p. p[i := f_mul F (p ! (i - 1)) (p ! 1)]) [2..<unat s + 1] powTwoInv
                   in Some (Ok \<lparr>fft_s = s, fft_nqr = nqr, fft_roots = roots, fft_powTwoInv = powTwoInv\<rparr>)))"

definition root :: "'e fft_obj \<Rightarrow> u32 \<Rightarrow> u64 \<Rightarrow> 'e" where
  "root T domainPow idx = fft_roots T ! unat (push_bit (unat (fft_s T - domainPow)) idx)"

text \<open>The loop over the part of one job.\<close>

definition for_part :: "(u64 \<Rightarrow> 's \<Rightarrow> 's) \<Rightarrow> int \<Rightarrow> int \<Rightarrow> nat \<Rightarrow> 's \<Rightarrow> 's" where
  "for_part body begin' end' numThread s = fold (\<lambda>i. body (word_of_int i)) [begin'..end' - 1] s"

definition swap_rev :: "u32 \<Rightarrow> u64 \<Rightarrow> 'e list \<Rightarrow> 'e list" where
  "swap_rev domainPow i a =
     (let r = BR i (ucast domainPow)
      in if i > r then let tmp = a ! unat i; a = a[unat i := a ! unat r] in a[unat r := tmp] else a)"

definition reversePermutation :: "nat \<Rightarrow> (nat \<Rightarrow> (nat \<times> nat) list) \<Rightarrow> 'e list \<Rightarrow> u64 \<Rightarrow> 'e list option" where
  "reversePermutation nThreads sched a n =
     Option.bind (log2 n) (\<lambda>domainPow.
       Some (parallelFor nThreads sched 0 (as_int n) (for_part (swap_rev domainPow)) a))"

definition butterfly :: "'e fft_ops \<Rightarrow> 'e fft_obj \<Rightarrow> u32 \<Rightarrow> u64 \<Rightarrow> u64 \<Rightarrow> u64 \<Rightarrow> 'e list \<Rightarrow> 'e list" where
  "butterfly F T s m mdiv2 i a =
     (let k = (i div mdiv2) * m;
          j = i mod mdiv2;
          t = f_mul F (root T s j) (a ! unat (k + j + mdiv2));
          u = a ! unat (k + j);
          a = a[unat (k + j) := f_add F t u]
      in a[unat (k + j + mdiv2) := f_sub F u t])"

definition fft_stage :: "'e fft_ops \<Rightarrow> 'e fft_obj \<Rightarrow> nat \<Rightarrow> (nat \<Rightarrow> (nat \<times> nat) list) \<Rightarrow> u64 \<Rightarrow> u32 \<Rightarrow> 'e list \<Rightarrow> 'e list" where
  "fft_stage F T nThreads sched n s a =
     (let m = scast (push_bit (unat s) 1 :: u32);
          mdiv2 = drop_bit 1 m
      in parallelFor nThreads sched 0 (as_int (drop_bit 1 n)) (for_part (butterfly F T s m mdiv2)) a)"

text \<open>\<open>sched s\<close> is the schedule of the loop of stage \<open>s\<close>, stage 0 being the permutation.\<close>

definition fft :: "'e fft_ops \<Rightarrow> 'e fft_obj \<Rightarrow> nat \<Rightarrow> (nat \<Rightarrow> nat \<Rightarrow> (nat \<times> nat) list) \<Rightarrow> 'e list \<Rightarrow> u64 \<Rightarrow> 'e list option" where
  "fft F T nThreads sched a n =
     Option.bind (reversePermutation nThreads (sched 0) a n) (\<lambda>a.
       Option.bind (log2 n) (\<lambda>domainPow.
         if push_bit (unat domainPow) 1 \<noteq> n then None
         else Some (fold (\<lambda>s. fft_stage F T nThreads (sched s) n (of_nat s)) [1..<unat domainPow + 1] a)))"

definition ifft_pair :: "'e fft_ops \<Rightarrow> 'e \<Rightarrow> u64 \<Rightarrow> u64 \<Rightarrow> 'e list \<Rightarrow> 'e list" where
  "ifft_pair F c n i a =
     (let r = n - i;
          tmp = a ! unat i;
          a = a[unat i := f_mul F (a ! unat r) c]
      in a[unat r := f_mul F tmp c])"

definition ifft :: "'e fft_ops \<Rightarrow> 'e fft_obj \<Rightarrow> nat \<Rightarrow> (nat \<Rightarrow> nat \<Rightarrow> (nat \<times> nat) list) \<Rightarrow> (nat \<Rightarrow> (nat \<times> nat) list)
    \<Rightarrow> 'e list \<Rightarrow> u64 \<Rightarrow> 'e list option" where
  "ifft F T nThreads sched sched' a n =
     Option.bind (fft F T nThreads sched a n) (\<lambda>a.
       Option.bind (log2 n) (\<lambda>domainPow.
         let nDiv2 = drop_bit 1 n;
             c = fft_powTwoInv T ! unat domainPow;
             a = parallelFor nThreads sched' 1 (as_int nDiv2) (for_part (ifft_pair F c n)) a;
             a = a[0 := f_mul F (a ! 0) c]
         in Some (a[unat nDiv2 := f_mul F (a ! unat nDiv2) c])))"

end
