(* ===== verification/FftWords.thy ===== *)
theory FftWords
  imports Fft
begin

text \<open>
  The word-level parts of the transform: \<open>log2\<close> is the binary logarithm and has no value on
  zero, the shift-and-mask routine \<open>BR\<close> reverses bits, and the parallel loops of the class
  update disjoint parts of the array.
\<close>

section \<open>Logarithms\<close>

lemma unat_drop_bit_1: "unat (drop_bit 1 (n :: 'a::len word)) = unat n div 2"
proof -
  have "unat (drop_bit 1 n) = drop_bit 1 (unat n)" by (simp only: unsigned_drop_bit_eq) (simp add: take_bit_nat_eq_self)
  then show ?thesis by (simp add: drop_bit_eq_div)
qed

lemma log2_loop_value: "2 ^ k \<le> unat n \<Longrightarrow> unat n < 2 ^ (k + 1) \<Longrightarrow> log2_loop n res = Some (res + of_nat k)"
proof (induction k arbitrary: n res)
  case 0
  then have "unat n = 1" by simp
  then have "n = 1" by (simp add: word_unat_eq_iff)
  then show ?case by (subst log2_loop.simps) simp
next
  case (Suc k)
  have "n \<noteq> 1" using Suc.prems(1) one_less_power [of "2 :: nat" "Suc k"] by auto
  moreover have "unat (drop_bit 1 n) = unat n div 2" by (rule unat_drop_bit_1)
  then have "log2_loop (drop_bit 1 n) (res + 1) = Some (res + 1 + of_nat k)"
    using Suc.prems by (intro Suc.IH) auto
  ultimately show ?case by (subst log2_loop.simps) (simp add: add.assoc)
qed

lemma log2_loop_zero: "log2_loop 0 res = None"
proof -
  have "log2_loop n res = Some y \<Longrightarrow> n \<noteq> 0" for n y
    by (rule log2_loop.raw_induct [of "\<lambda>n _ _. n \<noteq> 0"]) (fastforce split: if_splits)+
  then show ?thesis by (cases "log2_loop 0 res") blast+
qed

lemma log2_pow: "k < 64 \<Longrightarrow> unat n = 2 ^ k \<Longrightarrow> log2 n = Some (of_nat k)"
  using log2_loop_value [of k n 0] by (simp add: log2_def)

lemma log2_zero: "log2 0 = None"
  by (simp add: log2_def log2_loop_zero)

lemma log2_total:
  assumes "n \<noteq> 0"
  shows "\<exists>k < 64. log2 n = Some (of_nat k) \<and> 2 ^ k \<le> unat n \<and> unat n < 2 ^ (k + 1)"
proof -
  have "0 < unat n" using assms by (simp add: unat_gt_0)
  then obtain k where k: "2 ^ k \<le> unat n" "unat n < 2 ^ (k + 1)" using ex_power_ivl1 [of 2 "unat n"] by auto
  have "unat n < 2 ^ 64" using unsigned_less [of n] by simp
  then have "(2 :: nat) ^ k < 2 ^ 64" using k(1) by (rule order_le_less_trans [rotated])
  then have "k < 64" by (rule power_less_imp_less_exp [rotated]) simp
  then show ?thesis using k log2_loop_value [OF k, of 0] by (auto simp: log2_def)
qed

lemma unat_push_bit: "unat j * 2 ^ k < 2 ^ 64 \<Longrightarrow> unat (push_bit k (j :: u64)) = unat j * 2 ^ k"
  by (simp only: unsigned_push_bit_eq) (simp add: push_bit_eq_mult take_bit_nat_eq_self)

lemma word_index: "0 \<le> i \<Longrightarrow> i < 2 ^ 64 \<Longrightarrow> unat (word_of_int i :: u64) = nat i"
  by (simp only: unat_eq_nat_uint unsigned_of_int) (simp add: take_bit_int_eq_self)

lemma unat_u32: "d \<le> 30 \<Longrightarrow> unat (of_nat d :: u32) = d"
  by (simp add: unat_of_nat)

lemma log2_length:
  assumes "d \<le> 30" "unat n = 2 ^ d"
  shows "log2 n = Some (of_nat d)" "unat (of_nat d :: u32) = d" "unat (ucast (of_nat d :: u32) :: u64) = d"
proof -
  show "log2 n = Some (of_nat d)" using assms by (intro log2_pow) simp_all
  show d: "unat (of_nat d :: u32) = d" using assms(1) by (simp add: unat_of_nat)
  show "unat (ucast (of_nat d :: u32) :: u64) = d" using assms(1) by (simp add: unat_of_nat unsigned_ucast_eq take_bit_nat_eq_self)
qed

lemma unat_scast_pow: "s \<le> 30 \<Longrightarrow> unat (scast (push_bit s 1 :: u32) :: u64) = 2 ^ s"
proof -
  assume s: "s \<le> 30"
  have p: "(2::int) ^ s < 2 ^ 31" using s power_strict_increasing_iff [of "2::int" s 31] by simp
  have "uint (push_bit s 1 :: u32) = take_bit 32 (push_bit s 1)" by (simp only: unsigned_push_bit_eq) simp
  also have "\<dots> = 2 ^ s" using p s by (simp add: push_bit_eq_mult take_bit_int_eq_self)
  finally have "sint (push_bit s 1 :: u32) = signed_take_bit 31 (2 ^ s)" by (simp only: sint_uint) simp
  also have "\<dots> = 2 ^ s" using p zero_le_power [of "2::int" s] by (intro signed_take_bit_int_eq_self) linarith+
  finally have "sint (push_bit s 1 :: u32) = 2 ^ s" .
  then have "(scast (push_bit s 1 :: u32) :: u64) = word_of_int (2 ^ s)" by (simp only: scast_eq)
  then show ?thesis using word_index [of "2 ^ s"] p by (simp only: nat_power_eq [of 2] zero_le_power) simp
qed

lemma pow_bounds:
  assumes "d \<le> 30"
  shows "(2::nat) ^ d < 2 ^ 31" "(2::nat) ^ d < 2 ^ 64" "(2::int) ^ d < 2 ^ 31" "(2::int) ^ d < 2 ^ 64"
  using assms power_strict_increasing_iff [of "2::nat" d 31] power_strict_increasing_iff [of "2::nat" d 64]
    power_strict_increasing_iff [of "2::int" d 31] power_strict_increasing_iff [of "2::int" d 64]
  by simp_all

section \<open>Bit reversal\<close>

text \<open>The reversal of the lowest \<open>d\<close> bits of a number.\<close>

primrec brev :: "nat \<Rightarrow> nat \<Rightarrow> nat" where
  "brev 0 x = 0"
| "brev (Suc d) x = (x mod 2) * 2 ^ d + brev d (x div 2)"

lemma brev_less: "brev d x < 2 ^ d"
proof (induction d arbitrary: x)
  case (Suc d)
  have "(x mod 2) * 2 ^ d \<le> 1 * (2::nat) ^ d" by (intro mult_right_mono) simp_all
  then show ?case using Suc.IH [of "x div 2"] by (simp only: brev.simps power_Suc)
qed simp

lemma bit_brev: "bit (brev d x) j \<longleftrightarrow> j < d \<and> bit x (d - 1 - j)"
proof (induction d arbitrary: x j)
  case (Suc d)
  have t: "take_bit d (brev d (x div 2)) = brev d (x div 2)" using brev_less by (simp add: take_bit_nat_eq_self)
  have "brev (Suc d) x = brev d (x div 2) + push_bit d (of_bool (odd x))" by (simp add: push_bit_eq_mult mod_2_eq_odd)
  also have "\<dots> = take_bit d (brev d (x div 2)) OR push_bit d (of_bool (odd x))"
    by (subst disjunctive_add) (auto simp: t bit_push_bit_iff dest: arg_cong [OF t, of "\<lambda>n. bit n _", THEN iffD2, unfolded bit_take_bit_iff])
  finally have "brev (Suc d) x = take_bit d (brev d (x div 2)) OR push_bit d (of_bool (odd x))" .
  then show ?case
    by (cases "j < d") (auto simp: bit_or_iff bit_take_bit_iff bit_push_bit_iff Suc.IH bit_Suc [symmetric] Suc_diff_Suc less_Suc_eq bit_0 bit_Suc_0_iff of_bool_def)
qed simp

lemma brev_brev: "x < 2 ^ d \<Longrightarrow> brev d (brev d x) = x"
proof (rule bit_eqI)
  fix j
  assume "x < 2 ^ d"
  then have "bit x j \<Longrightarrow> j < d" by (metis bit_take_bit_iff take_bit_nat_eq_self)
  then show "bit (brev d (brev d x)) j = bit x j" by (auto simp: bit_brev)
qed

text \<open>One step of the routine swaps the neighbouring groups of \<open>w\<close> bits.\<close>

definition swap_groups :: "nat \<Rightarrow> u64 \<Rightarrow> u64 \<Rightarrow> u64 \<Rightarrow> u64" where
  "swap_groups w hi lo x = drop_bit w (x AND hi) OR push_bit w (x AND lo)"

lemma bit_mask_groups:
  assumes "list_all (\<lambda>j. bit (M :: u64) j \<longleftrightarrow> j < 32 \<and> Q j) [0..<64]"
  shows "bit M j \<longleftrightarrow> j < 32 \<and> Q j"
  using assms by (cases "j < 64") (auto simp: list_all_iff dest: bit_imp_le_length)

lemma bit_masks:
  "bit (0xFF00FF00 :: u64) j \<longleftrightarrow> j < 32 \<and> odd (j div 8)" "bit (0x00FF00FF :: u64) j \<longleftrightarrow> j < 32 \<and> even (j div 8)"
  "bit (0xF0F0F0F0 :: u64) j \<longleftrightarrow> j < 32 \<and> odd (j div 4)" "bit (0x0F0F0F0F :: u64) j \<longleftrightarrow> j < 32 \<and> even (j div 4)"
  "bit (0xCCCCCCCC :: u64) j \<longleftrightarrow> j < 32 \<and> odd (j div 2)" "bit (0x33333333 :: u64) j \<longleftrightarrow> j < 32 \<and> even (j div 2)"
  "bit (0xAAAAAAAA :: u64) j \<longleftrightarrow> j < 32 \<and> odd j" "bit (0x55555555 :: u64) j \<longleftrightarrow> j < 32 \<and> even j"
  by (rule bit_mask_groups, code_simp)+

lemma bit_swap_groups:
  "bit (swap_groups 8 0xFF00FF00 0x00FF00FF x) j \<longleftrightarrow> j < 32 \<and> bit x (if even (j div 8) then j + 8 else j - 8)"
  "bit (swap_groups 4 0xF0F0F0F0 0x0F0F0F0F x) j \<longleftrightarrow> j < 32 \<and> bit x (if even (j div 4) then j + 4 else j - 4)"
  "bit (swap_groups 2 0xCCCCCCCC 0x33333333 x) j \<longleftrightarrow> j < 32 \<and> bit x (if even (j div 2) then j + 2 else j - 2)"
  "bit (swap_groups 1 0xAAAAAAAA 0x55555555 x) j \<longleftrightarrow> j < 32 \<and> bit x (if even j then j + 1 else j - 1)"
proof -
  have "list_all (\<lambda>j.
      (j + 8 < 32 \<and> odd ((j + 8) div 8) \<longleftrightarrow> j < 32 \<and> even (j div 8))
      \<and> (8 \<le> j \<and> j - 8 < 32 \<and> even ((j - 8) div 8) \<longleftrightarrow> j < 32 \<and> odd (j div 8))
      \<and> (j + 4 < 32 \<and> odd ((j + 4) div 4) \<longleftrightarrow> j < 32 \<and> even (j div 4))
      \<and> (4 \<le> j \<and> j - 4 < 32 \<and> even ((j - 4) div 4) \<longleftrightarrow> j < 32 \<and> odd (j div 4))
      \<and> (j + 2 < 32 \<and> odd ((j + 2) div 2) \<longleftrightarrow> j < 32 \<and> even (j div 2))
      \<and> (2 \<le> j \<and> j - 2 < 32 \<and> even ((j - 2) div 2) \<longleftrightarrow> j < 32 \<and> odd (j div 2))
      \<and> (j + 1 < 32 \<and> odd (j + 1) \<longleftrightarrow> j < 32 \<and> even j)
      \<and> (1 \<le> j \<and> j - 1 < 32 \<and> even (j - 1) \<longleftrightarrow> j < 32 \<and> odd j)) [0..<64]"
    by code_simp
  then have e: "j + 8 < 32 \<and> odd ((j + 8) div 8) \<longleftrightarrow> j < 32 \<and> even (j div 8)"
    "8 \<le> j \<and> j < 64 \<and> j - 8 < 32 \<and> even ((j - 8) div 8) \<longleftrightarrow> j < 32 \<and> odd (j div 8)"
    "j + 4 < 32 \<and> odd ((j + 4) div 4) \<longleftrightarrow> j < 32 \<and> even (j div 4)"
    "4 \<le> j \<and> j < 64 \<and> j - 4 < 32 \<and> even ((j - 4) div 4) \<longleftrightarrow> j < 32 \<and> odd (j div 4)"
    "j + 2 < 32 \<and> odd ((j + 2) div 2) \<longleftrightarrow> j < 32 \<and> even (j div 2)"
    "2 \<le> j \<and> j < 64 \<and> j - 2 < 32 \<and> even ((j - 2) div 2) \<longleftrightarrow> j < 32 \<and> odd (j div 2)"
    "j + 1 < 32 \<and> odd (j + 1) \<longleftrightarrow> j < 32 \<and> even j"
    "1 \<le> j \<and> j < 64 \<and> j - 1 < 32 \<and> even (j - 1) \<longleftrightarrow> j < 32 \<and> odd j"
    by (cases "j < 64"; simp add: list_all_iff)+
  have s: "bit (swap_groups w hi lo x) j \<longleftrightarrow> bit x (j + w) \<and> bit hi (j + w) \<or> w \<le> j \<and> j < 64 \<and> bit x (j - w) \<and> bit lo (j - w)"
    for w hi lo by (auto simp: swap_groups_def bit_or_iff bit_and_iff bit_drop_bit_eq bit_push_bit_iff add.commute)
  show "bit (swap_groups 8 0xFF00FF00 0x00FF00FF x) j \<longleftrightarrow> j < 32 \<and> bit x (if even (j div 8) then j + 8 else j - 8)"
    using e(1,2) unfolding s bit_masks by auto
  show "bit (swap_groups 4 0xF0F0F0F0 0x0F0F0F0F x) j \<longleftrightarrow> j < 32 \<and> bit x (if even (j div 4) then j + 4 else j - 4)"
    using e(3,4) unfolding s bit_masks by auto
  show "bit (swap_groups 2 0xCCCCCCCC 0x33333333 x) j \<longleftrightarrow> j < 32 \<and> bit x (if even (j div 2) then j + 2 else j - 2)"
    using e(5,6) unfolding s bit_masks by auto
  show "bit (swap_groups 1 0xAAAAAAAA 0x55555555 x) j \<longleftrightarrow> j < 32 \<and> bit x (if even j then j + 1 else j - 1)"
    using e(7,8) unfolding s bit_masks by auto
qed

definition rev_word :: "u64 \<Rightarrow> u64" where
  "rev_word x = swap_groups 1 0xAAAAAAAA 0x55555555 (swap_groups 2 0xCCCCCCCC 0x33333333
     (swap_groups 4 0xF0F0F0F0 0x0F0F0F0F (swap_groups 8 0xFF00FF00 0x00FF00FF
       (drop_bit 16 x OR push_bit 16 x))))"

lemma BR_rev_word: "BR x d = drop_bit (unat (32 - d)) (rev_word x)"
  by (simp only: BR_def rev_word_def swap_groups_def Let_def)

lemma bit_rev_word:
  assumes "unat x < 2 ^ 32"
  shows "bit (rev_word x) j \<longleftrightarrow> j < 32 \<and> bit x (31 - j)"
proof -
  have high: "\<not> bit x (k + 32)" for k
  proof -
    have "bit (take_bit 32 (unat x)) (k + 32) \<longleftrightarrow> bit (unat x) (k + 32)" using assms by (simp add: take_bit_nat_eq_self)
    then show ?thesis by (auto simp: bit_take_bit_iff bit_unsigned_iff dest: bit_imp_le_length)
  qed
  have first: "bit (drop_bit 16 x OR push_bit 16 x) k \<longleftrightarrow> bit x (if k < 16 then k + 16 else k - 16)" if "k < 32" for k
    using that high [of "k - 16"] by (auto simp: bit_or_iff bit_drop_bit_eq bit_push_bit_iff add.commute)
  show ?thesis
  proof (cases "j < 32")
    case True
    have u: "[0..<32] = [0, 1, 2, 3, 4, 5, 6, 7, 8, 9, 10, 11, 12, 13, 14, 15, 16, 17, 18, 19, 20, 21, 22, 23, 24, 25, 26, 27, 28, 29, 30, 31]" by code_simp
    have "list_all (\<lambda>j. bit (rev_word x) j \<longleftrightarrow> bit x (31 - j)) [0..<32]"
      unfolding u list.pred_inject by (simp add: rev_word_def bit_swap_groups first del: One_nat_def)
    then show ?thesis using True by (simp add: list_all_iff)
  qed (simp add: rev_word_def bit_swap_groups del: One_nat_def)
qed

lemma BR_brev:
  assumes "unat d \<le> 32" "unat x < 2 ^ unat d"
  shows "unat (BR x d) = brev (unat d) (unat x)"
proof (rule bit_eqI)
  fix j
  have e: "unat (32 - d) = 32 - unat d" using assms(1) by (subst unat_sub) (simp_all add: word_le_nat_alt)
  have "(2 :: nat) ^ unat d \<le> 2 ^ 32" using assms(1) by (intro power_increasing) simp_all
  then have x: "unat x < 2 ^ 32" using assms(2) by linarith
  have "bit (BR x d) j \<longleftrightarrow> j < unat d \<and> bit x (unat d - 1 - j)"
    using assms(1) by (auto simp: BR_rev_word e bit_drop_bit_eq bit_rev_word [OF x])
  then show "bit (unat (BR x d)) j = bit (brev (unat d) (unat x)) j"
    by (auto simp: bit_brev bit_unsigned_iff dest: bit_imp_le_length)
qed

section \<open>Loops that update disjoint parts of an array\<close>

lemma for_part_array:
  assumes Q: "length a = length a0" "\<And>x. x < length a0 \<Longrightarrow> a ! x = (if x \<in> \<Union>(Fp ` E) then R x else a0 ! x)"
    and E: "E \<inter> {b..<e} = {}" "E \<subseteq> I" "{b..<e} \<subseteq> I"
    and fp: "\<And>i. i \<in> I \<Longrightarrow> Fp i \<subseteq> {..<length a0}"
    and disj: "\<And>i j. i \<in> I \<Longrightarrow> j \<in> I \<Longrightarrow> i \<noteq> j \<Longrightarrow> Fp i \<inter> Fp j = {}"
    and body: "\<And>i a. i \<in> I \<Longrightarrow> length a = length a0 \<Longrightarrow> \<forall>x \<in> Fp i. a ! x = a0 ! x
      \<Longrightarrow> length (body (word_of_int i) a) = length a0
        \<and> (\<forall>x < length a0. body (word_of_int i) a ! x = (if x \<in> Fp i then R x else a ! x))"
  shows "length (for_part body b e t a) = length a0
    \<and> (\<forall>x < length a0. for_part body b e t a ! x = (if x \<in> \<Union>(Fp ` (E \<union> {b..<e})) then R x else a0 ! x))"
proof -
  let ?Q = "\<lambda>D a. length a = length a0 \<and> (\<forall>x < length a0. a ! x = (if x \<in> \<Union>(Fp ` (E \<union> D)) then R x else a0 ! x))"
  have "?Q ({} \<union> set [b..e - 1]) (fold (\<lambda>i. body (word_of_int i)) [b..e - 1] a)"
  proof (rule fold_set_rule [where Q = "\<lambda>D a. D \<subseteq> {b..<e} \<longrightarrow> ?Q D a", THEN mp])
    fix D i c
    assume IH: "D \<subseteq> {b..<e} \<longrightarrow> ?Q D c" and i: "i \<notin> D" "i \<in> set [b..e - 1]"
    show "insert i D \<subseteq> {b..<e} \<longrightarrow> ?Q (insert i D) (body (word_of_int i) c)"
    proof
      assume D: "insert i D \<subseteq> {b..<e}"
      have i': "i \<in> I" "i \<notin> E \<union> D" "E \<union> D \<subseteq> I" using D E i by auto
      then have "Fp i \<inter> \<Union>(Fp ` (E \<union> D)) = {}" using disj by blast
      moreover have "?Q D c" using IH D by blast
      ultimately have "\<forall>x \<in> Fp i. c ! x = a0 ! x" using fp [OF i'(1)] by (metis disjoint_iff image_Un lessThan_iff subsetD)
      then show "?Q (insert i D) (body (word_of_int i) c)" using body [OF i'(1), of c] IH D by auto
    qed
  qed (use Q in auto)
  moreover have "set [b..e - 1] = {b..<e}" by auto
  ultimately show ?thesis by (simp add: for_part_def)
qed

lemma parallelFor_array:
  assumes sched: "\<And>n. schedule nThreads n (sched n)" "0 < nThreads"
    and fp: "\<And>i. i \<in> {b..<e} \<Longrightarrow> Fp i \<subseteq> {..<length a0}"
    and disj: "\<And>i j. i \<in> {b..<e} \<Longrightarrow> j \<in> {b..<e} \<Longrightarrow> i \<noteq> j \<Longrightarrow> Fp i \<inter> Fp j = {}"
    and body: "\<And>i a. i \<in> {b..<e} \<Longrightarrow> length a = length a0 \<Longrightarrow> \<forall>x \<in> Fp i. a ! x = a0 ! x
      \<Longrightarrow> length (body (word_of_int i) a) = length a0
        \<and> (\<forall>x < length a0. body (word_of_int i) a ! x = (if x \<in> Fp i then R x else a ! x))"
  shows "length (parallelFor nThreads sched b e (for_part body) a0) = length a0
    \<and> (\<forall>x < length a0. parallelFor nThreads sched b e (for_part body) a0 ! x
        = (if x \<in> \<Union>(Fp ` {b..<e}) then R x else a0 ! x))"
proof (rule parallelFor_rule [OF sched, where Q = "\<lambda>E a. length a = length a0
    \<and> (\<forall>x < length a0. a ! x = (if x \<in> \<Union>(Fp ` E) then R x else a0 ! x))"])
  fix E b' e' t a
  assume "length a = length a0 \<and> (\<forall>x < length a0. a ! x = (if x \<in> \<Union>(Fp ` E) then R x else a0 ! x))"
    and "E \<subseteq> {b..<e}" "{b'..<e'} \<subseteq> {b..<e}" "E \<inter> {b'..<e'} = {}"
  then show "length (for_part body b' e' t a) = length a0
      \<and> (\<forall>x < length a0. for_part body b' e' t a ! x = (if x \<in> \<Union>(Fp ` (E \<union> {b'..<e'})) then R x else a0 ! x))"
    using for_part_array [of a a0 Fp E R b' e' "{b..<e}" body t] fp disj body by blast
qed auto

section \<open>The permutation\<close>

lemma reversePermutation_value:
  fixes a :: "'e list"
  assumes sched: "\<And>n. schedule nThreads n (sched n)" "0 < nThreads"
    and n: "d \<le> 30" "unat n = 2 ^ d" "length a = 2 ^ d"
  shows "\<exists>b. reversePermutation nThreads sched a n = Some b \<and> length b = 2 ^ d \<and> (\<forall>x < 2 ^ d. b ! x = a ! brev d x)"
proof -
  note L = log2_length [OF n(1,2)] and B = pow_bounds [OF n(1)]
  have N: "as_int n = 2 ^ d" using as_int_small [of n] B n(2) by simp
  define Fp :: "int \<Rightarrow> nat set" where "Fp i = (if nat i > brev d (nat i) then {nat i, brev d (nat i)} else {})" for i
  let ?body = "swap_rev (of_nat d :: u32)"
  have body: "?body (word_of_int i) c = (if nat i > brev d (nat i) then c[nat i := c ! brev d (nat i), brev d (nat i) := c ! nat i] else c)"
    if "i \<in> {0..<2 ^ d}" for i and c :: "'e list"
  proof -
    have i: "nat i < 2 ^ d" using that by (simp add: nat_less_iff)
    have u: "unat (word_of_int i :: u64) = nat i" using that B(4) by (intro word_index) auto
    then have r: "unat (BR (word_of_int i) (ucast (of_nat d :: u32))) = brev d (nat i)"
      using BR_brev [of "ucast (of_nat d :: u32)" "word_of_int i"] L(3) n(1) i by simp
    show ?thesis by (simp add: swap_rev_def Let_def word_less_nat_alt u r)
  qed
  have res: "length (parallelFor nThreads sched 0 (2 ^ d) (for_part ?body) a) = length a
      \<and> (\<forall>x < length a. parallelFor nThreads sched 0 (2 ^ d) (for_part ?body) a ! x
          = (if x \<in> \<Union>(Fp ` {0..<2 ^ d}) then a ! brev d x else a ! x))"
  proof (rule parallelFor_array [OF sched])
    fix i :: int assume i: "i \<in> {0..<2 ^ d}"
    then have l: "nat i < 2 ^ d" by (simp add: nat_less_iff)
    show "Fp i \<subseteq> {..<length a}" using l brev_less [of d "nat i"] by (auto simp: Fp_def n(3))
    show "Fp i \<inter> Fp j = {}" if "j \<in> {0..<2 ^ d}" "i \<noteq> j" for j
    proof -
      have "nat j < 2 ^ d" "nat i \<noteq> nat j" using that i by (simp_all add: nat_less_iff eq_nat_nat_iff)
      then show ?thesis using brev_brev [OF l] brev_brev [of "nat j" d] by (auto simp: Fp_def)
    qed
    show "length (?body (word_of_int i) c) = length a
        \<and> (\<forall>x < length a. ?body (word_of_int i) c ! x = (if x \<in> Fp i then a ! brev d x else c ! x))"
      if c: "length c = length a" "\<forall>x \<in> Fp i. c ! x = a ! x" for c
      using c l brev_less [of d "nat i"] brev_brev [OF l] unfolding body [OF i]
      by (auto simp: Fp_def n(3) nth_list_update)
  qed
  have all: "a ! brev d x = a ! x" if "x < 2 ^ d" "x \<notin> \<Union>(Fp ` {0..<2 ^ d})" for x
  proof -
    have x: "int x \<in> {0..<2 ^ d}" using that(1) by (simp add: of_nat_less_iff [of x "2 ^ d", symmetric] del: of_nat_less_iff)
    have b: "int (brev d x) \<in> {0..<2 ^ d}" using brev_less [of d x] by (simp add: of_nat_less_iff [of _ "2 ^ d", symmetric] del: of_nat_less_iff)
    have "x \<notin> Fp (int x)" "x \<notin> Fp (int (brev d x))" using that(2) x b by blast+
    then have "brev d x = x" using brev_brev [OF that(1)] by (auto simp: Fp_def split: if_splits)
    then show ?thesis by simp
  qed
  show ?thesis
  proof (intro exI conjI)
    show "reversePermutation nThreads sched a n = Some (parallelFor nThreads sched 0 (2 ^ d) (for_part ?body) a)"
      by (simp add: reversePermutation_def L(1) N)
  qed (use res all n(3) in auto)
qed

end
