(* ===== verification/FftCorrect.thy ===== *)
theory FftCorrect
  imports FftWords
begin

text \<open>
  The mathematics of the transform, over any commutative ring: the sums of the powers of a root
  of unity, the inverse of a transform, and the step from one stage of the algorithm to the next.
\<close>

section \<open>Sums over powers of a root of unity\<close>

text \<open>The transform of \<open>n\<close> coefficients.\<close>

definition dft :: "'a::comm_ring_1 \<Rightarrow> nat \<Rightarrow> (nat \<Rightarrow> 'a) \<Rightarrow> nat \<Rightarrow> 'a" where
  "dft w n X i = (\<Sum>j < n. X j * w ^ (i * j))"

lemma dft_cong: "(\<And>j. j < n \<Longrightarrow> X j = Y j) \<Longrightarrow> dft w n X i = dft w n Y i"
  by (simp add: dft_def)

lemma dft_scale: "dft w n (\<lambda>j. X j * c) i = dft w n X i * c"
  by (simp add: dft_def sum_distrib_left sum_distrib_right ac_simps)

lemma sum_even_odd: "(\<Sum>j < 2 * (n::nat). f j) = (\<Sum>j < n. f (2 * j)) + (\<Sum>j < n. f (2 * j + 1) :: 'a::comm_monoid_add)"
  by (induction n) (simp_all add: ac_simps)

lemma sum_split_at: "(\<Sum>k < n + m. f k) = (\<Sum>k < (n::nat). f k) + (\<Sum>k < m. f (n + k) :: 'a::comm_monoid_add)"
  by (induction m) (simp_all add: ac_simps)

lemma geometric_double: "(\<Sum>k < 2 ^ Suc l. z ^ k) = (1 + z ^ 2 ^ l) * (\<Sum>k < 2 ^ l. z ^ k :: 'a::comm_ring_1)"
  by (simp add: mult_2 sum_split_at power_add sum_distrib_left distrib_right sum.distrib)

lemma odd_decompose: "0 < m \<Longrightarrow> \<exists>t c. m = 2 ^ t * c \<and> odd (c :: nat)"
proof (induction m rule: less_induct)
  case (less m)
  show ?case
  proof (cases "odd m")
    case True
    then show ?thesis by (intro exI [of _ 0] exI [of _ m]) simp
  next
    case False
    then obtain t c where "m div 2 = 2 ^ t * c" "odd c" using less by (metis div_greater_zero_iff div_less_dividend dvd_imp_le even_Suc one_less_numeral_iff semiring_norm(76) zero_less_numeral)
    then have "m = 2 ^ Suc t * c" using False by auto
    then show ?thesis using \<open>odd c\<close> by blast
  qed
qed

lemma geometric_zero: "z ^ 2 ^ l = (- 1 :: 'a::comm_ring_1) \<Longrightarrow> l < d \<Longrightarrow> (\<Sum>k < 2 ^ d. z ^ k) = 0"
proof (induction d)
  case (Suc d)
  then show ?case by (cases "l = d") (simp_all add: geometric_double del: power_Suc)
qed simp

text \<open>A root of unity of order \<open>2^d\<close>.\<close>

definition root_of_unity :: "'a::comm_ring_1 \<Rightarrow> nat \<Rightarrow> bool" where
  "root_of_unity w d \<longleftrightarrow> (if d = 0 then w = 1 else w ^ 2 ^ (d - 1) = - 1)"

lemma root_one: "root_of_unity w d \<Longrightarrow> w ^ 2 ^ d = 1"
proof (cases d)
  case (Suc k)
  assume "root_of_unity w d"
  then have "(w ^ 2 ^ k) ^ 2 = 1" using Suc by (simp add: root_of_unity_def)
  then show ?thesis using Suc by (metis mult.commute power_Suc power_mult)
qed (simp add: root_of_unity_def)

lemma root_square: "root_of_unity w (Suc d) \<Longrightarrow> root_of_unity (w ^ 2) d"
  by (cases d) (simp_all add: root_of_unity_def flip: power_mult)

lemma root_power: "root_of_unity w d \<Longrightarrow> e \<le> d \<Longrightarrow> root_of_unity (w ^ 2 ^ (d - e)) e"
proof (induction "d - e" arbitrary: w d)
  case (Suc m)
  then obtain d' where d: "d = Suc d'" by (cases d) auto
  then have "root_of_unity ((w ^ 2) ^ 2 ^ (d' - e)) e" using Suc root_square [of w d'] by (intro Suc.hyps(1)) auto
  then show ?case using d Suc by (simp add: Suc_diff_le flip: power_mult)
qed simp

lemma root_mod: "root_of_unity w d \<Longrightarrow> w ^ (m mod 2 ^ d) = w ^ m"
proof -
  assume "root_of_unity w d"
  then have "w ^ (2 ^ d * (m div 2 ^ d)) = 1" by (simp add: power_mult root_one)
  then have "w ^ m = w ^ (m mod 2 ^ d)" by (metis mult_div_mod_eq mult_1 power_add)
  then show ?thesis by simp
qed

text \<open>The powers of \<open>w^m\<close> sum to zero unless the order divides \<open>m\<close>.\<close>

lemma root_sum:
  assumes "root_of_unity w d"
  shows "(\<Sum>k < 2 ^ d. w ^ (m * k)) = (if 2 ^ d dvd m then 2 ^ d else 0)"
proof (cases "2 ^ d dvd m")
  case True
  then obtain c where c: "m = 2 ^ d * c" by blast
  then have "w ^ (m * k) = 1" for k using root_one [OF assms] by (simp add: power_mult mult.assoc)
  then show ?thesis using True by simp
next
  case False
  then have "m \<noteq> 0" by (metis dvd_0_right)
  then obtain t c where m: "m = 2 ^ t * c" "odd c" using odd_decompose [of m] by auto
  then have t: "t < d" using False by (metis dvd_triv_left le_imp_power_dvd not_less dvd_trans)
  have "(w ^ m) ^ 2 ^ (d - 1 - t) = (w ^ (2 ^ t * 2 ^ (d - 1 - t))) ^ c" by (simp add: m ac_simps flip: power_mult)
  also have "\<dots> = - 1" using t assms m(2) by (simp add: root_of_unity_def flip: power_add split: if_splits)
  finally have "(\<Sum>k < 2 ^ d. (w ^ m) ^ k) = 0" using t by (intro geometric_zero [of _ "d - 1 - t"]) auto
  then show ?thesis using False by (simp add: power_mult)
qed

text \<open>The transform of a transform, read backwards, is a multiple of the coefficients.\<close>

lemma dft_dft:
  assumes w: "root_of_unity w d" and i: "i < 2 ^ d"
  shows "dft w (2 ^ d) (dft w (2 ^ d) X) ((2 ^ d - i) mod 2 ^ d) = 2 ^ d * X i"
proof -
  let ?n = "2 ^ d :: nat"
  have dv: "?n dvd (?n - i) + j \<longleftrightarrow> j = i" if "j < ?n" for j
  proof -
    have "?n dvd ((?n - i) + j) \<longleftrightarrow> int ?n dvd (int ?n - int i + int j)"
      using i by (simp add: int_dvd_int_iff [symmetric] of_nat_diff algebra_simps del: int_dvd_int_iff)
    also have "\<dots> \<longleftrightarrow> int ?n dvd (int j - int i)"
      using dvd_add_right_iff [of "int ?n" "int ?n" "int j - int i"] by (simp add: algebra_simps)
    also have "\<dots> \<longleftrightarrow> j = i"
    proof (cases "j = i")
      case False
      have "int i < int ?n" "int j < int ?n" using i that by (simp_all only: of_nat_less_iff)
      then have "\<bar>int j - int i\<bar> < int ?n" by (simp add: abs_less_iff del: of_nat_power)
      then show ?thesis using False dvd_imp_le_int [of "int j - int i" "int ?n"] by linarith
    qed simp
    finally show ?thesis by simp
  qed
  have "dft w ?n (dft w ?n X) ((?n - i) mod ?n) = (\<Sum>k < ?n. \<Sum>j < ?n. X j * w ^ (((?n - i) + j) * k))"
  proof -
    have "w ^ ((?n - i) mod ?n * k) = w ^ ((?n - i) * k)" for k
      using root_mod [OF w, of "?n - i"] by (simp add: power_mult)
    then have "dft w ?n (dft w ?n X) ((?n - i) mod ?n) = (\<Sum>k < ?n. (\<Sum>j < ?n. X j * w ^ (k * j)) * w ^ ((?n - i) * k))"
      by (simp only: dft_def [of w ?n "dft w ?n X"]) (simp only: dft_def)
    also have "\<dots> = (\<Sum>k < ?n. \<Sum>j < ?n. X j * w ^ (((?n - i) + j) * k))"
      unfolding sum_distrib_right by (intro sum.cong) (simp_all add: algebra_simps flip: power_add)
    finally show ?thesis .
  qed
  also have "\<dots> = (\<Sum>j < ?n. X j * (\<Sum>k < ?n. w ^ (((?n - i) + j) * k)))"
    by (subst sum.swap) (simp add: sum_distrib_left)
  also have "\<dots> = (\<Sum>j < ?n. if j = i then X j * 2 ^ d else 0)"
    using dv by (intro sum.cong) (simp_all add: root_sum [OF w])
  also have "\<dots> = 2 ^ d * X i" using i by (simp add: mult.commute)
  finally show ?thesis .
qed

lemma mirror_product: "i \<le> N \<Longrightarrow> j \<le> N \<Longrightarrow> (N - i) * (N - j) + N * (i + j) = N * N + i * (j :: nat)"
proof -
  assume "i \<le> N" "j \<le> N"
  then have "int ((N - i) * (N - j) + N * (i + j)) = int (N * N + i * j)" by (simp only: of_nat_add of_nat_mult of_nat_diff) (simp add: algebra_simps)
  then show ?thesis by (simp only: of_nat_eq_iff)
qed

text \<open>The same the other way round: first the transform read backwards, then the transform.\<close>

lemma dft_back:
  assumes w: "root_of_unity w d" and i: "i < 2 ^ d"
  shows "dft w (2 ^ d) (\<lambda>j. dft w (2 ^ d) X ((2 ^ d - j) mod 2 ^ d)) i = 2 ^ d * X i"
proof -
  let ?n = "2 ^ d :: nat" and ?Y = "dft w (2 ^ d) X"
  have bij: "bij_betw (\<lambda>j. (?n - j) mod ?n) {..<?n} {..<?n}"
  proof -
    have "(?n - (?n - j) mod ?n) mod ?n = j" if "j < ?n" for j using that by (cases "j = 0") simp_all
    then show ?thesis by (intro bij_betw_byWitness [where f' = "\<lambda>j. (?n - j) mod ?n"]) auto
  qed
  have p: "w ^ (i * j) = w ^ (((?n - i) mod ?n) * ((?n - j) mod ?n))" if "j < ?n" for j
  proof -
    have "w ^ (((?n - i) mod ?n) * ((?n - j) mod ?n)) = w ^ ((?n - i) * (?n - j))"
      using root_mod [OF w, of "((?n - i) mod ?n) * ((?n - j) mod ?n)"] root_mod [OF w, of "(?n - i) * (?n - j)"]
      by (simp add: mod_mult_eq)
    moreover have "w ^ ((?n - i) * (?n - j)) = w ^ ((?n - i) * (?n - j)) * (w ^ ?n) ^ (i + j)" by (simp add: root_one [OF w])
    moreover have "(?n - i) * (?n - j) + ?n * (i + j) = ?n * ?n + i * j"
      using i that by (intro mirror_product) simp_all
    then have "w ^ ((?n - i) * (?n - j)) * (w ^ ?n) ^ (i + j) = (w ^ ?n) ^ ?n * w ^ (i * j)"
      by (metis power_add power_mult)
    ultimately show ?thesis by (simp add: root_one [OF w])
  qed
  have "dft w ?n (\<lambda>j. ?Y ((?n - j) mod ?n)) i = (\<Sum>j < ?n. ?Y ((?n - j) mod ?n) * w ^ (((?n - i) mod ?n) * ((?n - j) mod ?n)))"
    unfolding dft_def [of w ?n "\<lambda>j. ?Y ((?n - j) mod ?n)" i] by (intro sum.cong) (simp_all add: p)
  also have "\<dots> = (\<Sum>j < ?n. ?Y j * w ^ (((?n - i) mod ?n) * j))"
    using bij by (rule sum.reindex_bij_betw)
  also have "\<dots> = 2 ^ d * X i" using dft_dft [OF w i, of X] unfolding dft_def [of w ?n ?Y] .
  finally show ?thesis .
qed

section \<open>The stages\<close>

text \<open>After stage \<open>s\<close> every block of \<open>2^s\<close> elements is the transform of the coefficients of one
  residue class.\<close>

definition stage_inv :: "'a::comm_ring_1 \<Rightarrow> nat \<Rightarrow> nat \<Rightarrow> (nat \<Rightarrow> 'a) \<Rightarrow> (nat \<Rightarrow> 'a) \<Rightarrow> bool" where
  "stage_inv w d s X A \<longleftrightarrow> (\<forall>b < 2 ^ (d - s). \<forall>i < 2 ^ s.
     A (b * 2 ^ s + i) = dft (w ^ 2 ^ (d - s)) (2 ^ s) (\<lambda>j. X (brev (d - s) b + 2 ^ (d - s) * j)) i)"

lemma stage_inv_start: "stage_inv w d 0 X (\<lambda>i. X (brev d i))"
  by (simp add: stage_inv_def dft_def)

lemma stage_inv_end: "stage_inv w d d X A \<Longrightarrow> i < 2 ^ d \<Longrightarrow> A i = dft w (2 ^ d) X i"
  by (auto simp: stage_inv_def dest: spec [of _ 0])

lemma dft_step:
  assumes "v ^ 2 ^ s = (- 1 :: 'a::comm_ring_1)" and "i < 2 ^ s"
  shows "dft v (2 ^ Suc s) Y i = dft (v ^ 2) (2 ^ s) (\<lambda>j. Y (2 * j)) i + v ^ i * dft (v ^ 2) (2 ^ s) (\<lambda>j. Y (2 * j + 1)) i"
    and "dft v (2 ^ Suc s) Y (i + 2 ^ s) = dft (v ^ 2) (2 ^ s) (\<lambda>j. Y (2 * j)) i - v ^ i * dft (v ^ 2) (2 ^ s) (\<lambda>j. Y (2 * j + 1)) i"
proof -
  have e: "(v ^ 2) ^ (k * j) = v ^ (k * (2 * j))" for k j by (simp add: ac_simps flip: power_mult)
  have o: "v ^ k * (Y (2 * j + 1) * (v ^ 2) ^ (k * j)) = Y (2 * j + 1) * v ^ (k * (2 * j + 1))" for k j
    by (simp add: e power_add algebra_simps)
  show g: "dft v (2 ^ Suc s) Y k = dft (v ^ 2) (2 ^ s) (\<lambda>j. Y (2 * j)) k + v ^ k * dft (v ^ 2) (2 ^ s) (\<lambda>j. Y (2 * j + 1)) k" for k
    unfolding dft_def power_Suc sum_even_odd sum_distrib_left o by (simp add: e)
  have "v ^ 2 ^ s * v ^ 2 ^ s = 1" using assms(1) by simp
  then have p: "(v ^ 2) ^ 2 ^ s = 1" by (simp add: power2_eq_square power_mult_distrib)
  have "dft (v ^ 2) (2 ^ s) Z (i + 2 ^ s) = dft (v ^ 2) (2 ^ s) Z i" for Z
  proof -
    have "(v ^ 2) ^ ((i + 2 ^ s) * j) = (v ^ 2) ^ (i * j) * ((v ^ 2) ^ 2 ^ s) ^ j" for j
      by (simp only: distrib_right power_add power_mult)
    then show ?thesis by (simp add: dft_def p)
  qed
  then show "dft v (2 ^ Suc s) Y (i + 2 ^ s) = dft (v ^ 2) (2 ^ s) (\<lambda>j. Y (2 * j)) i - v ^ i * dft (v ^ 2) (2 ^ s) (\<lambda>j. Y (2 * j + 1)) i"
    using assms(1) unfolding g by (simp add: power_add)
qed

text \<open>The new value at a position, from the values before the stage: positions in the lower and
  the upper half of a block of \<open>2^(s+1)\<close>.\<close>

definition stage_val :: "'a::comm_ring_1 \<Rightarrow> nat \<Rightarrow> (nat \<Rightarrow> 'a) \<Rightarrow> nat \<Rightarrow> 'a" where
  "stage_val v s A x =
     (let i = x mod 2 ^ Suc s
      in if i < 2 ^ s then A x + v ^ i * A (x + 2 ^ s)
         else A (x - 2 ^ s) - v ^ (i - 2 ^ s) * A x)"

lemma stage_inv_step:
  assumes w: "root_of_unity w d" and "s < d" and inv: "stage_inv w d s X A"
  shows "stage_inv w d (Suc s) X (stage_val (w ^ 2 ^ (d - Suc s)) s A)"
  unfolding stage_inv_def
proof (intro allI impI)
  fix b i :: nat
  assume b: "b < 2 ^ (d - Suc s)" and i: "i < 2 ^ Suc s"
  define v where "v = w ^ 2 ^ (d - Suc s)"
  define m where "m = d - Suc s"
  have m: "d - s = Suc m" using \<open>s < d\<close> by (simp add: m_def)
  have v: "v ^ 2 ^ s = - 1" using root_power [OF w, of "Suc s"] \<open>s < d\<close> by (simp add: v_def root_of_unity_def)
  have v2: "v ^ 2 = w ^ 2 ^ (d - s)" by (simp add: v_def m mult.commute flip: m_def power_mult)
  define Y where "Y = (\<lambda>j. X (brev m b + 2 ^ m * j))"
  have block: "A (c * 2 ^ s + k) = dft (v ^ 2) (2 ^ s) (\<lambda>j. X (brev (Suc m) c + 2 ^ Suc m * j)) k"
    if "c < 2 ^ Suc m" "k < 2 ^ s" for c k
    using inv that unfolding stage_inv_def v2 m by blast
  have E: "A (2 * b * 2 ^ s + k) = dft (v ^ 2) (2 ^ s) (\<lambda>j. Y (2 * j)) k" if "k < 2 ^ s" for k
    using block [of "2 * b" k] that b by (simp add: Y_def ac_simps flip: m_def)
  have O: "A ((2 * b + 1) * 2 ^ s + k) = dft (v ^ 2) (2 ^ s) (\<lambda>j. Y (2 * j + 1)) k" if "k < 2 ^ s" for k
  proof -
    have "brev (Suc m) (2 * b + 1) + 2 ^ Suc m * j = brev m b + 2 ^ m * (2 * j + 1)" for j by simp
    then show ?thesis using block [of "2 * b + 1" k] that b by (simp only: Y_def flip: m_def) simp
  qed
  have mod: "(b * 2 ^ Suc s + i) mod 2 ^ Suc s = i" using i by simp
  have "stage_val v s A (b * 2 ^ Suc s + i) = dft v (2 ^ Suc s) Y i"
  proof (cases "i < 2 ^ s")
    case True
    have p: "b * 2 ^ Suc s + i = 2 * b * 2 ^ s + i" "b * 2 ^ Suc s + i + 2 ^ s = (2 * b + 1) * 2 ^ s + i" by simp_all
    show ?thesis unfolding stage_val_def Let_def mod unfolding p(2) unfolding p(1) E [OF True] O [OF True] dft_step(1) [OF v True] using True by simp
  next
    case False
    define k where "k = i - 2 ^ s"
    have k: "i = k + 2 ^ s" "k < 2 ^ s" using False i by (simp_all add: k_def)
    have p: "b * 2 ^ Suc s + i - 2 ^ s = 2 * b * 2 ^ s + k" "b * 2 ^ Suc s + i = (2 * b + 1) * 2 ^ s + k" by (simp_all add: k)
    show ?thesis unfolding stage_val_def Let_def mod unfolding p(1) unfolding p(2) E [OF k(2)] O [OF k(2)] using False dft_step(2) [OF v k(2)] by (simp add: k(1))
  qed
  then show "stage_val (w ^ 2 ^ (d - Suc s)) s A (b * 2 ^ Suc s + i)
      = dft (w ^ 2 ^ (d - Suc s)) (2 ^ Suc s) (\<lambda>j. X (brev (d - Suc s) b + 2 ^ (d - Suc s) * j)) i"
    by (simp add: v_def Y_def m_def)
qed

end
