(* ===== verification/FftTransform.thy ===== *)
theory FftTransform
  imports FftCorrect
begin

text \<open>
  The transform of the class computes the values of the polynomial at the powers of the root of
  unity, and the inverse transform recovers the coefficients. The interface \<open>fft_field\<close> says
  what the class asks of the field, \<open>fft_tables\<close> what the constructor promises of the tables.
\<close>

section \<open>Positions of a butterfly\<close>

text \<open>The lower position that the butterfly \<open>x\<close> of a stage with half blocks of \<open>2^s\<close> updates.\<close>

definition pos :: "nat \<Rightarrow> nat \<Rightarrow> nat" where
  "pos s x = (x div 2 ^ s) * 2 ^ Suc s + x mod 2 ^ s"

lemma pos_mod: "pos s x mod 2 ^ Suc s = x mod 2 ^ s" "(pos s x + 2 ^ s) mod 2 ^ Suc s = x mod 2 ^ s + 2 ^ s"
proof -
  have "x mod 2 ^ s < 2 ^ s" by simp
  then have l: "x mod 2 ^ s < 2 ^ Suc s" "x mod 2 ^ s + 2 ^ s < 2 ^ Suc s" unfolding power_Suc by linarith+
  show "pos s x mod 2 ^ Suc s = x mod 2 ^ s" using l(1) unfolding pos_def by (simp only: mod_mult_self3 mod_less)
  have "(pos s x + 2 ^ s) = x div 2 ^ s * 2 ^ Suc s + (x mod 2 ^ s + 2 ^ s)" by (simp add: pos_def)
  then show "(pos s x + 2 ^ s) mod 2 ^ Suc s = x mod 2 ^ s + 2 ^ s" using l(2) by (simp only: mod_mult_self3 mod_less)
qed

lemma pos_div: "pos s x div 2 ^ Suc s = x div 2 ^ s" "(pos s x + 2 ^ s) div 2 ^ Suc s = x div 2 ^ s"
proof -
  have "x mod 2 ^ s < 2 ^ s" by simp
  then have l: "x mod 2 ^ s < 2 ^ Suc s" "x mod 2 ^ s + 2 ^ s < 2 ^ Suc s" unfolding power_Suc by linarith+
  show "pos s x div 2 ^ Suc s = x div 2 ^ s" using l(1) by (simp add: pos_def)
  have e: "(pos s x + 2 ^ s) = x div 2 ^ s * 2 ^ Suc s + (x mod 2 ^ s + 2 ^ s)" by (simp add: pos_def)
  show "(pos s x + 2 ^ s) div 2 ^ Suc s = x div 2 ^ s" unfolding e using l(2) by (simp del: power_Suc)
qed

lemma pos_bound: "s < d \<Longrightarrow> x < 2 ^ (d - 1) \<Longrightarrow> pos s x + 2 ^ s < 2 ^ d"
proof -
  assume "s < d" "x < 2 ^ (d - 1)"
  then have "x < 2 ^ (d - Suc s) * 2 ^ s" by (simp flip: power_add)
  then have "x div 2 ^ s < 2 ^ (d - Suc s)" by (simp add: less_mult_imp_div_less)
  then have "(pos s x + 2 ^ s) div 2 ^ Suc s < 2 ^ (d - Suc s)" unfolding pos_div .
  then have "pos s x + 2 ^ s < 2 ^ (d - Suc s) * 2 ^ Suc s" by (simp add: div_less_iff_less_mult)
  then show ?thesis using \<open>s < d\<close> by (simp flip: power_add power_Suc)
qed

lemma pos_disjoint: "x \<noteq> y \<Longrightarrow> {pos s x, pos s x + 2 ^ s} \<inter> {pos s y, pos s y + 2 ^ s} = {}"
proof (rule ccontr)
  assume "x \<noteq> y" "{pos s x, pos s x + 2 ^ s} \<inter> {pos s y, pos s y + 2 ^ s} \<noteq> {}"
  then obtain z where z: "z = pos s x \<or> z = pos s x + 2 ^ s" "z = pos s y \<or> z = pos s y + 2 ^ s" by auto
  have "z div 2 ^ Suc s = x div 2 ^ s" "z div 2 ^ Suc s = y div 2 ^ s" using z pos_div by metis+
  moreover have m: "x mod 2 ^ s < 2 ^ s" "y mod 2 ^ s < 2 ^ s" by simp_all
  have "x mod 2 ^ s = y mod 2 ^ s" using z m pos_mod by (metis add_less_same_cancel2 add_right_cancel not_less_zero)
  ultimately have "x = y" by (metis div_mult_mod_eq)
  then show False using \<open>x \<noteq> y\<close> by simp
qed

lemma pos_cover:
  assumes "s < d" "z < 2 ^ d"
  shows "\<exists>x < 2 ^ (d - 1). z = pos s x \<or> z = pos s x + 2 ^ s"
proof -
  define r where "r = z mod 2 ^ Suc s"
  define x where "x = (z div 2 ^ Suc s) * 2 ^ s + r mod 2 ^ s"
  have r: "r < 2 * 2 ^ s" by (simp add: r_def)
  have x: "x div 2 ^ s = z div 2 ^ Suc s" "x mod 2 ^ s = r mod 2 ^ s" by (simp_all add: x_def)
  have z: "z = (z div 2 ^ Suc s) * 2 ^ Suc s + r" unfolding r_def by (rule div_mult_mod_eq [symmetric])
  have "r = r mod 2 ^ s \<or> r = r mod 2 ^ s + 2 ^ s"
  proof (cases "r < 2 ^ s")
    case False
    then have "r mod 2 ^ s = r - 2 ^ s" using r by (metis le_mod_geq less_diff_conv2 mod_less mult_2 not_less)
    then show ?thesis using False by simp
  qed simp
  then have "z = pos s x \<or> z = pos s x + 2 ^ s" using z unfolding pos_def x by linarith
  moreover have "z div 2 ^ Suc s < 2 ^ (d - Suc s)"
    using assms by (intro less_mult_imp_div_less) (simp flip: power_add power_Suc)
  then have "x div 2 ^ s < 2 ^ (d - Suc s)" by (simp only: x)
  then have "x < 2 ^ (d - Suc s) * 2 ^ s" by (simp add: div_less_iff_less_mult)
  then have "x < 2 ^ (d - 1)" using assms(1) by (simp flip: power_add)
  ultimately show ?thesis by blast
qed

section \<open>The interfaces\<close>

locale fft_field =
  fixes F :: "'e fft_ops" and good :: "'e \<Rightarrow> bool" and ev :: "'e \<Rightarrow> 'a::comm_ring_1" and q :: int
  assumes add_law: "good x \<Longrightarrow> good y \<Longrightarrow> good (f_add F x y) \<and> ev (f_add F x y) = ev x + ev y"
    and sub_law: "good x \<Longrightarrow> good y \<Longrightarrow> good (f_sub F x y) \<and> ev (f_sub F x y) = ev x - ev y"
    and mul_law: "good x \<Longrightarrow> good y \<Longrightarrow> good (f_mul F x y) \<and> ev (f_mul F x y) = ev x * ev y"
    and one_law: "good (f_one F)" "ev (f_one F) = 1"
    and eq_law: "good x \<Longrightarrow> good y \<Longrightarrow> f_eq F x y \<longleftrightarrow> ev x = ev y"
    and unique: "good x \<Longrightarrow> good y \<Longrightarrow> ev x = ev y \<Longrightarrow> x = y"
    and toMpz_law: "f_toMpz F (f_negOne F) = q - 1"
    and fromMpz_law: "0 \<le> v \<Longrightarrow> v < q \<Longrightarrow> good (f_fromMpz F v) \<and> ev (f_fromMpz F v) = of_int v"
    and exp_law: "good x \<Longrightarrow> length k < 2 ^ 28
      \<Longrightarrow> good (f_exp F r x k (of_nat (length k))) \<and> ev (f_exp F r x k (of_nat (length k))) = ev x ^ le_val k"
    and char: "of_int q = (0 :: 'a)" "2 < q"
begin

lemmas ring_laws = add_law sub_law mul_law

end

locale fft_tables = fft_field F good ev q
  for F :: "'e fft_ops" and good and ev :: "'e \<Rightarrow> 'a::comm_ring_1" and q +
  fixes T :: "'e fft_obj" and w :: 'a
  assumes size: "0 < unat (fft_s T)" "unat (fft_s T) \<le> 32"
    and roots: "i < 2 ^ unat (fft_s T) \<Longrightarrow> good (fft_roots T ! i) \<and> ev (fft_roots T ! i) = w ^ i"
    and order: "root_of_unity w (unat (fft_s T))"
    and inverses: "i \<le> unat (fft_s T) \<Longrightarrow> good (fft_powTwoInv T ! i) \<and> 2 ^ i * ev (fft_powTwoInv T ! i) = 1"
begin

text \<open>The root of unity of order \<open>2^d\<close>.\<close>

definition omega :: "nat \<Rightarrow> 'a" where
  "omega d = w ^ 2 ^ (unat (fft_s T) - d)"

lemma omega_root: "d \<le> unat (fft_s T) \<Longrightarrow> root_of_unity (omega d) d"
  unfolding omega_def by (rule root_power [OF order])

lemma omega_omega: "d \<le> unat (fft_s T) \<Longrightarrow> e \<le> d \<Longrightarrow> omega d ^ 2 ^ (d - e) = omega e"
  by (simp add: omega_def flip: power_mult power_add)

lemma root_value:
  assumes "unat e \<le> unat (fft_s T)" "unat j < 2 ^ unat e"
  shows "good (root T e j) \<and> ev (root T e j) = omega (unat e) ^ unat j"
proof -
  let ?s = "unat (fft_s T)"
  have d: "unat (fft_s T - e) = ?s - unat e" using assms(1) by (simp add: unat_sub word_le_nat_alt)
  have "unat j * 2 ^ (?s - unat e) < 2 ^ unat e * 2 ^ (?s - unat e)" using assms(2) by simp
  then have l: "unat j * 2 ^ (?s - unat e) < 2 ^ ?s" using assms(1) by (simp flip: power_add)
  have "(2::nat) ^ ?s \<le> 2 ^ 32" using size(2) by (intro power_increasing) simp_all
  then have "unat (push_bit (?s - unat e) j) = unat j * 2 ^ (?s - unat e)"
    using l by (intro unat_push_bit) simp
  then show ?thesis using roots [OF l] by (simp add: root_def d omega_def mult.commute flip: power_mult)
qed

section \<open>One stage\<close>

definition stage_elem :: "u32 \<Rightarrow> nat \<Rightarrow> 'e list \<Rightarrow> nat \<Rightarrow> 'e" where
  "stage_elem e s a z =
     (let r = z mod 2 ^ Suc s
      in if r < 2 ^ s then f_add F (f_mul F (root T e (of_nat r)) (a ! (z + 2 ^ s))) (a ! z)
         else f_sub F (a ! (z - 2 ^ s)) (f_mul F (root T e (of_nat (r - 2 ^ s))) (a ! z)))"

lemma fft_stage_elems:
  assumes sched: "\<And>n. schedule nThreads n (sched n)" "0 < nThreads"
    and n: "d \<le> 30" "unat n = 2 ^ d" "length a = 2 ^ d" and s: "s < d"
  shows "length (fft_stage F T nThreads sched n (of_nat (Suc s)) a) = 2 ^ d
    \<and> (\<forall>z < 2 ^ d. fft_stage F T nThreads sched n (of_nat (Suc s)) a ! z = stage_elem (of_nat (Suc s)) s a z)"
proof -
  let ?e = "of_nat (Suc s) :: u32"
  define m where "m = (scast (push_bit (unat ?e) 1 :: u32) :: u64)"
  define h where "h = drop_bit 1 m"
  have e: "unat ?e = Suc s" using s n(1) by (intro unat_u32) simp
  have m: "unat m = 2 ^ Suc s" unfolding m_def e using s n(1) by (intro unat_scast_pow) simp
  have h: "unat h = 2 ^ s" unfolding h_def unat_drop_bit_1 m by simp
  have dn: "unat (drop_bit 1 n) = 2 ^ (d - 1)" unfolding unat_drop_bit_1 n(2) using s by (cases d) simp_all
  have B: "(2::nat) ^ (d - 1) < 2 ^ 31" "(2::nat) ^ d < 2 ^ 64" "(2::int) ^ (d - 1) < 2 ^ 64"
    using pow_bounds [of "d - 1"] pow_bounds [of d] n(1) by simp_all
  have N: "as_int (drop_bit 1 n) = 2 ^ (d - 1)" using as_int_small [of "drop_bit 1 n", unfolded dn, OF B(1)] by simp
  define Fp :: "int \<Rightarrow> nat set" where "Fp i = {pos s (nat i), pos s (nat i) + 2 ^ s}" for i
  let ?body = "butterfly F T ?e m h"
  have in_range: "nat i < 2 ^ (d - 1)" if "i \<in> {0..<2 ^ (d - 1)}" for i using that by (simp add: nat_less_iff)
  have body: "?body (word_of_int i) c = c[pos s (nat i) := stage_elem ?e s c (pos s (nat i)),
      pos s (nat i) + 2 ^ s := stage_elem ?e s c (pos s (nat i) + 2 ^ s)]"
    if i: "i \<in> {0..<2 ^ (d - 1)}" for i c
  proof -
    let ?i = "word_of_int i :: u64" and ?x = "nat i"
    have u: "unat ?i = ?x" using i B(3) by (intro word_index) auto
    have bound: "pos s ?x + 2 ^ s < 2 ^ d" by (rule pos_bound [OF s in_range [OF i]])
    have j: "?i mod h = of_nat (?x mod 2 ^ s)" by (rule word_unat_eq_iff [THEN iffD2]) (use bound B(2) in \<open>simp add: unat_mod u h unat_of_nat pos_def\<close>)
    have k: "unat ((?i div h) * m) = (?x div 2 ^ s) * 2 ^ Suc s"
    proof -
      have q: "unat (?i div h) = ?x div 2 ^ s" by (simp add: unat_div u h)
      have "?x div 2 ^ s * 2 ^ Suc s \<le> pos s ?x" by (simp add: pos_def)
      then have "?x div 2 ^ s * 2 ^ Suc s < 2 ^ 64" using bound B(2) by linarith
      moreover have "LENGTH(64) = 64" by simp
      ultimately have "unat (?i div h) * unat m < 2 ^ LENGTH(64)" unfolding q m by metis
      then have "unat (?i div h * m) = unat (?i div h) * unat m" by (rule unat_mult_lem [THEN iffD1])
      then show ?thesis unfolding q m .
    qed
    have p: "unat ((?i div h) * m + ?i mod h) = pos s ?x"
      using bound B(2) by (simp add: unat_word_ariths(1) k unat_mod u h pos_def)
    have p2: "unat ((?i div h) * m + ?i mod h + h) = pos s ?x + 2 ^ s"
      using bound B(2) by (simp add: unat_word_ariths(1) [of _ h] p h)
    show ?thesis
      unfolding butterfly_def Let_def p p2 unfolding j stage_elem_def pos_mod by simp
  qed
  have res: "length (parallelFor nThreads sched 0 (2 ^ (d - 1)) (for_part ?body) a) = length a
      \<and> (\<forall>x < length a. parallelFor nThreads sched 0 (2 ^ (d - 1)) (for_part ?body) a ! x
          = (if x \<in> \<Union>(Fp ` {0..<2 ^ (d - 1)}) then stage_elem ?e s a x else a ! x))"
  proof (rule parallelFor_array [OF sched])
    fix i :: int assume i: "i \<in> {0..<2 ^ (d - 1)}"
    have bound: "pos s (nat i) + 2 ^ s < 2 ^ d" by (rule pos_bound [OF s in_range [OF i]])
    show "Fp i \<subseteq> {..<length a}" using bound by (auto simp: Fp_def n(3))
    show "Fp i \<inter> Fp j = {}" if "j \<in> {0..<2 ^ (d - 1)}" "i \<noteq> j" for j
      unfolding Fp_def using that i by (intro pos_disjoint) (auto simp: eq_nat_nat_iff)
    show "length (?body (word_of_int i) c) = length a
        \<and> (\<forall>x < length a. ?body (word_of_int i) c ! x = (if x \<in> Fp i then stage_elem ?e s a x else c ! x))"
      if c: "length c = length a" "\<forall>x \<in> Fp i. c ! x = a ! x" for c
    proof -
      have "stage_elem ?e s c (pos s (nat i)) = stage_elem ?e s a (pos s (nat i))"
        "stage_elem ?e s c (pos s (nat i) + 2 ^ s) = stage_elem ?e s a (pos s (nat i) + 2 ^ s)"
        using c(2) unfolding stage_elem_def pos_mod by (simp_all add: Fp_def)
      then show ?thesis using c bound unfolding body [OF i] by (auto simp: Fp_def n(3) nth_list_update)
    qed
  qed
  have "z \<in> \<Union>(Fp ` {0..<2 ^ (d - 1)})" if z: "z < 2 ^ d" for z
  proof -
    obtain x where x: "x < 2 ^ (d - 1)" "z = pos s x \<or> z = pos s x + 2 ^ s" using pos_cover [OF s z] by blast
    have "int x \<in> {0..<2 ^ (d - 1)}" using x(1) by (simp add: of_nat_less_iff [of x "2 ^ (d - 1)", symmetric] del: of_nat_less_iff)
    moreover have "z \<in> Fp (int x)" using x(2) by (auto simp: Fp_def)
    ultimately show ?thesis by blast
  qed
  then show ?thesis unfolding fft_stage_def Let_def m_def [symmetric] h_def [symmetric] N using res n(3) by simp
qed

lemma fft_stage_step:
  assumes sched: "\<And>n. schedule nThreads n (sched n)" "0 < nThreads"
    and n: "d \<le> 30" "unat n = 2 ^ d" "length a = 2 ^ d" and s: "s < d" and d: "d \<le> unat (fft_s T)"
    and a: "\<And>i. i < 2 ^ d \<Longrightarrow> good (a ! i)" "stage_inv (omega d) d s X (\<lambda>i. ev (a ! i))"
  shows "length (fft_stage F T nThreads sched n (of_nat (Suc s)) a) = 2 ^ d
    \<and> (\<forall>i < 2 ^ d. good (fft_stage F T nThreads sched n (of_nat (Suc s)) a ! i))
    \<and> stage_inv (omega d) d (Suc s) X (\<lambda>i. ev (fft_stage F T nThreads sched n (of_nat (Suc s)) a ! i))"
proof -
  let ?b = "fft_stage F T nThreads sched n (of_nat (Suc s)) a"
  have E: "length ?b = 2 ^ d" "?b ! z = stage_elem (of_nat (Suc s)) s a z" if "z < 2 ^ d" for z
    using fft_stage_elems [OF sched n s] that by blast+
  have e: "unat (of_nat (Suc s) :: u32) = Suc s" using s n(1) by (intro unat_u32) simp
  have rt: "good (root T (of_nat (Suc s)) (of_nat r)) \<and> ev (root T (of_nat (Suc s)) (of_nat r)) = omega (Suc s) ^ r"
    if r: "r < 2 ^ s" for r
  proof -
    have "(2::nat) ^ s < 2 ^ 64" using s n(1) pow_bounds(2) [of s] by simp
    then have "unat (of_nat r :: u64) = r" using r by (simp add: unat_of_nat)
    then show ?thesis using root_value [of "of_nat (Suc s)" "of_nat r"] r s d unfolding e by simp
  qed
  have V: "good (?b ! z) \<and> ev (?b ! z) = stage_val (omega (Suc s)) s (\<lambda>i. ev (a ! i)) z" if z: "z < 2 ^ d" for z
  proof -
    define r where "r = z mod 2 ^ Suc s"
    have rl: "r < 2 * 2 ^ s" by (simp add: r_def)
    obtain x where x: "x < 2 ^ (d - 1)" "z = pos s x \<or> z = pos s x + 2 ^ s" using pos_cover [OF s z] by blast
    show ?thesis
    proof (cases "r < 2 ^ s")
      case True
      then have "z = pos s x" using x(2) pos_mod(2) [of s x] by (auto simp: r_def)
      then have "z + 2 ^ s < 2 ^ d" using pos_bound [OF s x(1)] by simp
      then show ?thesis using True z rt [OF True] a(1) ring_laws by (simp add: E stage_elem_def stage_val_def add.commute del: of_nat_Suc power_Suc flip: r_def)
    next
      case False
      have "r - 2 ^ s < 2 ^ s" using rl False by linarith
      moreover have "z - 2 ^ s < 2 ^ d" using z by simp
      ultimately show ?thesis using False z rt [of "r - 2 ^ s"] a(1) ring_laws by (simp add: E stage_elem_def stage_val_def del: of_nat_Suc power_Suc flip: r_def)
    qed
  qed
  have w: "omega d ^ 2 ^ (d - Suc s) = omega (Suc s)" using s d by (intro omega_omega) simp_all
  have si: "stage_inv (omega d) d (Suc s) X (stage_val (omega (Suc s)) s (\<lambda>i. ev (a ! i)))"
    using stage_inv_step [OF omega_root [OF d] s a(2)] unfolding w .
  have "stage_inv (omega d) d (Suc s) X A = stage_inv (omega d) d (Suc s) X B" if "\<And>z. z < 2 ^ d \<Longrightarrow> A z = B z" for A B
  proof -
    have "b * 2 ^ Suc s + i < 2 ^ d" if "b < 2 ^ (d - Suc s)" "i < 2 ^ Suc s" for b i :: nat
    proof -
      have "Suc b * 2 ^ Suc s \<le> 2 ^ (d - Suc s) * 2 ^ Suc s" using that(1) by (intro mult_right_mono) simp_all
      then have "b * 2 ^ Suc s + i < 2 ^ (d - Suc s) * 2 ^ Suc s" using that(2) unfolding mult_Suc by linarith
      then show ?thesis using s by (simp flip: power_add power_Suc)
    qed
    then show ?thesis using that by (auto simp: stage_inv_def)
  qed
  from this [of "\<lambda>i. ev (?b ! i)"] si V have "stage_inv (omega d) d (Suc s) X (\<lambda>i. ev (?b ! i))" by blast
  moreover have "length ?b = 2 ^ d" by (rule E(1) [of 0]) simp
  ultimately show ?thesis using V by blast
qed

section \<open>The transform and its inverse\<close>

lemma fft_value:
  assumes sched: "\<And>s n. schedule nThreads n (sched s n)" "0 < nThreads"
    and n: "d \<le> 30" "d \<le> unat (fft_s T)" "unat n = 2 ^ d" and a: "length a = 2 ^ d" "list_all good a"
  shows "\<exists>b. fft F T nThreads sched a n = Some b \<and> length b = 2 ^ d \<and> list_all good b
    \<and> (\<forall>i < 2 ^ d. ev (b ! i) = dft (omega d) (2 ^ d) (\<lambda>j. ev (a ! j)) i)"
proof -
  let ?X = "\<lambda>j. ev (a ! j)"
  note L = log2_length [OF n(1,3)]
  obtain c where c: "reversePermutation nThreads (sched 0) a n = Some c" "length c = 2 ^ d" "\<forall>x < 2 ^ d. c ! x = a ! brev d x"
    using reversePermutation_value [where sched = "sched 0", OF sched n(1,3) a(1)] by blast
  let ?st = "\<lambda>s. fft_stage F T nThreads (sched s) n (of_nat s)"
  have "length (fold ?st [1..<k + 1] c) = 2 ^ d \<and> (\<forall>i < 2 ^ d. good (fold ?st [1..<k + 1] c ! i))
      \<and> stage_inv (omega d) d k ?X (\<lambda>i. ev (fold ?st [1..<k + 1] c ! i))" if "k \<le> d" for k
    using that
  proof (induction k)
    case 0
    have "stage_inv (omega d) d 0 ?X (\<lambda>i. ev (c ! i)) = stage_inv (omega d) d 0 ?X (\<lambda>i. ?X (brev d i))"
      using c(3) by (simp add: stage_inv_def)
    then show ?case using c a brev_less [of d] stage_inv_start [of "omega d" d ?X] by (simp add: list_all_length)
  next
    case (Suc k)
    then show ?case using fft_stage_step [where sched = "sched (Suc k)" and a = "fold ?st [1..<k + 1] c" and s = k and X = ?X, OF sched n(1,3) _ _ n(2)] by simp
  qed
  from this [of d] obtain b where b: "b = fold ?st [1..<d + 1] c" "length b = 2 ^ d" "\<forall>i < 2 ^ d. good (b ! i)"
    "stage_inv (omega d) d d ?X (\<lambda>i. ev (b ! i))" by blast
  have "push_bit d 1 = n" using n(3) pow_bounds(2) [OF n(1)] unat_push_bit [of 1 d] by (simp add: word_unat_eq_iff)
  then have "fft F T nThreads sched a n = Some b" by (simp add: fft_def c(1) L b(1))
  then show ?thesis using b stage_inv_end [OF b(4)] by (auto simp: list_all_length)
qed

lemma ifft_value:
  assumes sched: "\<And>s n. schedule nThreads n (sched s n)" "\<And>n. schedule nThreads n (sched' n)" "0 < nThreads"
    and n: "d \<le> 30" "d \<le> unat (fft_s T)" "unat n = 2 ^ d" and a: "length a = 2 ^ d" "list_all good a"
  shows "\<exists>b. ifft F T nThreads sched sched' a n = Some b \<and> length b = 2 ^ d \<and> list_all good b
    \<and> (\<forall>i < 2 ^ d. ev (b ! i) = dft (omega d) (2 ^ d) (\<lambda>j. ev (a ! j)) ((2 ^ d - i) mod 2 ^ d) * ev (fft_powTwoInv T ! d))"
proof -
  note L = log2_length [OF n(1,3)] and B = pow_bounds [OF n(1)]
  obtain c where c: "fft F T nThreads sched a n = Some c" "length c = 2 ^ d" "list_all good c"
      "\<forall>i < 2 ^ d. ev (c ! i) = dft (omega d) (2 ^ d) (\<lambda>j. ev (a ! j)) i"
    using fft_value [where sched = sched, OF sched(1,3) n a] by blast
  define k where "k = fft_powTwoInv T ! d"
  have k: "good k" using inverses [OF n(2)] by (simp add: k_def)
  define h where "h = (2::nat) ^ d div 2"
  have dn: "unat (drop_bit 1 n) = h" unfolding unat_drop_bit_1 n(3) h_def ..
  have hl: "h < 2 ^ 31" using B(1) by (simp add: h_def)
  have N: "as_int (drop_bit 1 n) = int h" using as_int_small [of "drop_bit 1 n", unfolded dn, OF hl] .
  define Fp :: "int \<Rightarrow> nat set" where "Fp i = {nat i, 2 ^ d - nat i}" for i
  let ?body = "ifft_pair F k n" and ?R = "\<lambda>x. f_mul F (c ! (2 ^ d - x)) k"
  have range: "0 < nat i \<and> nat i < h \<and> nat i < 2 ^ d - nat i \<and> 2 ^ d - nat i < 2 ^ d \<and> nat i < 2 ^ d" if "i \<in> {1..<int h}" for i
  proof -
    have "0 < nat i" "nat i < h" using that by auto
    moreover have "2 * h \<le> 2 ^ d" by (simp add: h_def)
    ultimately show ?thesis by linarith
  qed
  have body: "?body (word_of_int i) b = b[nat i := f_mul F (b ! (2 ^ d - nat i)) k, 2 ^ d - nat i := f_mul F (b ! nat i) k]"
    if i: "i \<in> {1..<int h}" for i b
  proof -
    have "i < 2 ^ 64" using i hl by auto
    then have u: "unat (word_of_int i :: u64) = nat i" using i by (intro word_index) auto
    have "unat (word_of_int i :: u64) \<le> unat n" unfolding u n(3) using range [OF i] by linarith
    then have "unat (n - word_of_int i) = 2 ^ d - nat i" by (simp only: unat_sub word_le_nat_alt u n(3))
    then show ?thesis by (simp add: ifft_pair_def Let_def u)
  qed
  define b where "b = parallelFor nThreads sched' 1 (int h) (for_part ?body) c"
  have res: "length b = length c \<and> (\<forall>x < length c. b ! x = (if x \<in> \<Union>(Fp ` {1..<int h}) then ?R x else c ! x))"
    unfolding b_def
  proof (rule parallelFor_array [OF sched(2,3)])
    fix i assume i: "i \<in> {1..<int h}"
    note r = range [OF i]
    show "Fp i \<subseteq> {..<length c}" using r by (auto simp: Fp_def c(2))
    show "Fp i \<inter> Fp j = {}" if "j \<in> {1..<int h}" "i \<noteq> j" for j
      using r range [OF that(1)] that i by (auto simp: Fp_def)
    show "length (?body (word_of_int i) b) = length c
        \<and> (\<forall>x < length c. ?body (word_of_int i) b ! x = (if x \<in> Fp i then ?R x else b ! x))"
      if b: "length b = length c" "\<forall>x \<in> Fp i. b ! x = c ! x" for b
      using b r unfolding body [OF i] by (auto simp: Fp_def c(2) nth_list_update)
  qed
  have mem: "x \<in> \<Union>(Fp ` {1..<int h}) \<longleftrightarrow> x \<noteq> 0 \<and> x \<noteq> h" if x: "x < 2 ^ d" for x
  proof
    assume "x \<in> \<Union>(Fp ` {1..<int h})"
    then show "x \<noteq> 0 \<and> x \<noteq> h" using range by (fastforce simp: Fp_def h_def)
  next
    assume "x \<noteq> 0 \<and> x \<noteq> h"
    then consider "0 < x" "x < h" | "h < x" by linarith
    then show "x \<in> \<Union>(Fp ` {1..<int h})"
    proof cases
      case 1
      then have "int x \<in> {1..<int h}" "x \<in> Fp (int x)" by (auto simp: Fp_def)
      then show ?thesis by blast
    next
      case 2
      moreover have "2 ^ d = 2 * h" using x 2 by (cases d) (simp_all add: h_def)
      ultimately have "0 < 2 ^ d - x" "2 ^ d - x < h" using x by linarith+
      then have "int (2 ^ d - x) \<in> {1..<int h}" by (simp del: of_nat_diff)
      moreover have "x \<in> Fp (int (2 ^ d - x))" using x unfolding Fp_def nat_int by simp
      ultimately show ?thesis by blast
    qed
  qed
  define b2 where "b2 = b[0 := f_mul F (b ! 0) k]"
  define b3 where "b3 = b2[h := f_mul F (b2 ! h) k]"
  have "ifft F T nThreads sched sched' a n = Some b3"
    unfolding ifft_def c(1) bind.bind_lunit L(1) Let_def L(2) dn N k_def [symmetric] b_def [symmetric] b2_def [symmetric] b3_def by simp
  moreover have l: "length b3 = 2 ^ d" using res c(2) by (simp add: b3_def b2_def)
  moreover have "good (b3 ! i) \<and> ev (b3 ! i) = ev (c ! ((2 ^ d - i) mod 2 ^ d)) * ev k" if i: "i < 2 ^ d" for i
  proof -
    have g: "good (c ! x)" if "x < 2 ^ d" for x using c(2,3) that by (simp add: list_all_length)
    show ?thesis
    proof (cases "d = 0")
      case True
      then have "b3 = [f_mul F (f_mul F (c ! 0) k) k]"
        using res c(2) mem [of 0] by (cases b) (auto simp: b3_def b2_def h_def)
      moreover have "ev k = 1" using inverses [OF n(2)] True by (simp add: k_def)
      ultimately show ?thesis using True i g k ring_laws by simp
    next
      case False
      then have h: "0 < h" "h < 2 ^ d" "2 ^ d - h = h" by (cases d; simp add: h_def)+
      have "b3 ! i = f_mul F (c ! ((2 ^ d - i) mod 2 ^ d)) k"
        using res c(2) mem [OF i] mem [of 0] mem [of h] i h by (cases "i = 0"; cases "i = h") (simp_all add: b3_def b2_def)
      then show ?thesis using g [of "(2 ^ d - i) mod 2 ^ d"] k ring_laws by simp
    qed
  qed
  ultimately show ?thesis using c(4) by (simp add: list_all_length k_def)
qed

text \<open>The two are inverse to each other.\<close>

lemma fft_ifft:
  assumes sched: "\<And>s n. schedule nThreads n (sched s n)" "\<And>n. schedule nThreads n (sched' n)" "0 < nThreads"
    and n: "d \<le> 30" "d \<le> unat (fft_s T)" "unat n = 2 ^ d" and a: "length a = 2 ^ d" "list_all good a"
  shows "Option.bind (fft F T nThreads sched a n) (\<lambda>b. ifft F T nThreads sched sched' b n) = Some a"
    and "Option.bind (ifft F T nThreads sched sched' a n) (\<lambda>b. fft F T nThreads sched b n) = Some a"
proof -
  let ?N = "2 ^ d :: nat" and ?k = "ev (fft_powTwoInv T ! d)"
  have k: "2 ^ d * ?k = 1" using inverses [OF n(2)] by simp
  note W = omega_root [OF n(2)]
  obtain b where b: "fft F T nThreads sched a n = Some b" "length b = ?N" "list_all good b"
      "\<forall>i < ?N. ev (b ! i) = dft (omega d) ?N (\<lambda>j. ev (a ! j)) i"
    using fft_value [where sched = sched, OF sched(1,3) n a] by blast
  obtain c where c: "ifft F T nThreads sched sched' b n = Some c" "length c = ?N" "list_all good c"
      "\<forall>i < ?N. ev (c ! i) = dft (omega d) ?N (\<lambda>j. ev (b ! j)) ((?N - i) mod ?N) * ?k"
    using ifft_value [where sched = sched and sched' = sched', OF sched n b(2,3)] by blast
  have "ev (c ! i) = ev (a ! i)" if i: "i < ?N" for i
  proof -
    have "dft (omega d) ?N (\<lambda>j. ev (b ! j)) m = dft (omega d) ?N (dft (omega d) ?N (\<lambda>j. ev (a ! j))) m" for m
      using b(4) by (intro dft_cong) simp
    then have "ev (c ! i) = 2 ^ d * ev (a ! i) * ?k" using c(4) i dft_dft [OF W i, of "\<lambda>j. ev (a ! j)"] by simp
    also have "\<dots> = 2 ^ d * ?k * ev (a ! i)" by (simp add: ac_simps)
    finally show ?thesis by (simp add: k)
  qed
  then have "c = a" using a c(2,3) by (auto intro!: nth_equalityI unique simp: list_all_length)
  then show "Option.bind (fft F T nThreads sched a n) (\<lambda>b. ifft F T nThreads sched sched' b n) = Some a"
    using b(1) c(1) by simp
  obtain b' where b': "ifft F T nThreads sched sched' a n = Some b'" "length b' = ?N" "list_all good b'"
      "\<forall>i < ?N. ev (b' ! i) = dft (omega d) ?N (\<lambda>j. ev (a ! j)) ((?N - i) mod ?N) * ?k"
    using ifft_value [where sched = sched and sched' = sched', OF sched n a] by blast
  obtain c' where c': "fft F T nThreads sched b' n = Some c'" "length c' = ?N" "list_all good c'"
      "\<forall>i < ?N. ev (c' ! i) = dft (omega d) ?N (\<lambda>j. ev (b' ! j)) i"
    using fft_value [where sched = sched, OF sched(1,3) n b'(2,3)] by blast
  have "ev (c' ! i) = ev (a ! i)" if i: "i < ?N" for i
  proof -
    have "dft (omega d) ?N (\<lambda>j. ev (b' ! j)) i = dft (omega d) ?N (\<lambda>j. dft (omega d) ?N (\<lambda>j. ev (a ! j)) ((?N - j) mod ?N) * ?k) i"
      using b'(4) by (intro dft_cong) simp
    also have "\<dots> = dft (omega d) ?N (\<lambda>j. dft (omega d) ?N (\<lambda>j. ev (a ! j)) ((?N - j) mod ?N)) i * ?k" by (rule dft_scale)
    also have "\<dots> = 2 ^ d * ev (a ! i) * ?k" unfolding dft_back [OF W i] ..
    also have "\<dots> = 2 ^ d * ?k * ev (a ! i)" by (simp add: ac_simps)
    finally show ?thesis using c'(4) i by (simp add: k)
  qed
  then have "c' = a" using a c'(2,3) by (auto intro!: nth_equalityI unique simp: list_all_length)
  then show "Option.bind (ifft F T nThreads sched sched' a n) (\<lambda>b. fft F T nThreads sched b n) = Some a"
    using b'(1) c'(1) by simp
qed

end

end
