(* ===== verification/FftTables.thy ===== *)
theory FftTables
  imports FftTransform
begin

text \<open>
  The constructor of the transform: the loop that halves the order, the tables of the roots of
  unity, which the threads of the pool fill in parallel, and of the inverses of the powers of
  two. It establishes the interface \<open>fft_tables\<close>, or throws when the field has no root of the
  order that is asked for.
\<close>

section \<open>The loops over integers\<close>

context gmp_mpz
begin

lemma adicity_loop:
  "unat (fst (adicity_loop Z d s m)) \<ge> unat s \<and> unat (fst (adicity_loop Z d s m)) \<le> max (unat s) (unat d)
    \<and> m = snd (adicity_loop Z d s m) * 2 ^ (unat (fst (adicity_loop Z d s m)) - unat s)
    \<and> (fst (adicity_loop Z d s m) < d \<longrightarrow> odd (snd (adicity_loop Z d s m)))"
proof (induction "unat d - unat s" arbitrary: s m rule: less_induct)
  case less
  show ?case
  proof (cases "\<not> bit m 0 \<and> s < d")
    case False
    then show ?thesis by (subst (1 2 3 4 5 6) adicity_loop.simps) (auto simp: bit_0)
  next
    case True
    let ?r = "adicity_loop Z d (s + 1) (m div 2)"
    have s: "unat (s + 1) = unat s + 1" "unat s < unat d" using True unat_less_Suc [of s d] by (simp_all add: word_less_nat_alt)
    have e: "adicity_loop Z d s m = ?r" using True by (subst adicity_loop.simps) (simp add: mpz_fdiv_q)
    have "unat d - (unat s + 1) < unat d - unat s" using s(2) by simp
    note IH = less.hyps [of "s + 1" "m div 2", unfolded s(1), OF this]
    have "m = m div 2 * 2" using True by (simp add: bit_0)
    also have "\<dots> = snd ?r * 2 ^ (unat (fst ?r) - (unat s + 1)) * 2" using IH s(2) by simp
    also have "\<dots> = snd ?r * 2 ^ (unat (fst ?r) - unat s)"
    proof -
      have "unat (fst ?r) - unat s = Suc (unat (fst ?r) - (unat s + 1))" using conjunct1 [OF IH] by linarith
      then show ?thesis by simp
    qed
    finally show ?thesis using IH s(2) unfolding e by simp
  qed
qed

text \<open>What the search for a non-residue returns: the first number from 2 on whose power is not 1.\<close>

lemma nqr_loop_value:
  assumes "0 \<le> e" "0 < q" and "\<And>j. m \<le> j \<Longrightarrow> j < v \<Longrightarrow> j ^ nat e mod q = 1" and "v ^ nat e mod q \<noteq> 1" and "m \<le> v"
  shows "nqr_loop Z e q m (m ^ nat e mod q) = Some v"
  using assms(3,5)
proof (induction "nat (v - m)" arbitrary: m)
  case 0
  then have "m = v" by simp
  then show ?case using assms(4) by (subst nqr_loop.simps) simp
next
  case (Suc n)
  then have "m < v" by simp
  then have "m ^ nat e mod q = 1" "nqr_loop Z e q (m + 1) ((m + 1) ^ nat e mod q) = Some v" using Suc by simp_all
  then show ?case using assms(1,2) by (subst nqr_loop.simps) (simp add: mpz_add mpz_powm)
qed

end

section \<open>The tables\<close>

text \<open>The part of the table of roots that a thread fills.\<close>

definition block_start :: "nat \<Rightarrow> nat \<Rightarrow> nat \<Rightarrow> nat" where
  "block_start N nThreads t = (if t = 0 then 2 else t * (N div nThreads))"

definition block_end :: "nat \<Rightarrow> nat \<Rightarrow> nat \<Rightarrow> nat" where
  "block_end N nThreads t = (if t = nThreads - 1 then N else (t + 1) * (N div nThreads))"

lemma blocks_cover:
  assumes "i < N" "2 \<le> i" "0 < nThreads"
  shows "\<exists>t < nThreads. block_start N nThreads t \<le> i \<and> i < block_end N nThreads t"
proof (cases "N div nThreads = 0")
  case True
  then show ?thesis using assms by (intro exI [of _ "nThreads - 1"]) (auto simp: block_start_def block_end_def)
next
  case False
  define c where "c = N div nThreads"
  define t where "t = min (i div c) (nThreads - 1)"
  have c: "0 < c" using False by (simp add: c_def)
  have "t * c \<le> i div c * c" by (simp add: t_def)
  also have "\<dots> \<le> i" by simp
  finally have lo: "t * c \<le> i" .
  have hi: "i < (t + 1) * c" if "t \<noteq> nThreads - 1"
  proof -
    have "t = i div c" using that by (simp add: t_def min_def split: if_splits)
    then show ?thesis using dividend_less_div_times [OF c, of i] by simp
  qed
  show ?thesis
    using assms lo hi by (intro exI [of _ t]) (auto simp: block_start_def block_end_def t_def simp flip: c_def)
qed

lemma block_bounds:
  assumes "t < nThreads"
  shows "block_end N nThreads t \<le> N" "t \<noteq> 0 \<Longrightarrow> block_start N nThreads t \<le> N" "(t + 1) * (N div nThreads) \<le> N"
proof -
  have "(t + 1) * (N div nThreads) \<le> nThreads * (N div nThreads)" using assms by (intro mult_right_mono) simp_all
  also have "\<dots> \<le> N" by simp
  finally show "(t + 1) * (N div nThreads) \<le> N" .
  then show "block_end N nThreads t \<le> N" "t \<noteq> 0 \<Longrightarrow> block_start N nThreads t \<le> N"
    by (simp_all add: block_start_def block_end_def)
qed

locale fft_setup = fft_field F good ev q + gmp_mpz Z
  for F :: "'e fft_ops" and good and ev :: "'e \<Rightarrow> 'a::comm_ring_1" and q and Z
begin

lemma of_int_mod: "of_int (x mod q) = (of_int x :: 'a)"
proof -
  have "of_int x = (of_int (q * (x div q) + x mod q) :: 'a)" by simp
  then show ?thesis by (simp only: of_int_add of_int_mult char(1)) simp
qed

definition right :: "'a \<Rightarrow> 'e list \<Rightarrow> nat \<Rightarrow> bool" where
  "right w roots i \<longleftrightarrow> good (roots ! i) \<and> ev (roots ! i) = w ^ i"

lemma right_upd: "i < length roots \<Longrightarrow> right w roots j \<Longrightarrow> good x \<Longrightarrow> ev x = w ^ i \<Longrightarrow> right w (roots[i := x]) j"
  by (cases "i = j") (simp_all add: right_def)

lemma right_fold:
  assumes "right w roots 0" "right w roots 1" "right w roots k" "m \<le> length roots"
    and "\<And>i. i \<in> S \<Longrightarrow> right w roots i"
  shows "length (fold (\<lambda>i r. r[i := f_mul F (r ! (i - 1)) (r ! 1)]) [k + 1..<m] roots) = length roots
    \<and> (\<forall>i \<in> S \<union> {k..<m} \<union> {k, 0, 1}. right w (fold (\<lambda>i r. r[i := f_mul F (r ! (i - 1)) (r ! 1)]) [k + 1..<m] roots) i)"
  using assms(4)
proof (induction m)
  case 0
  then show ?case using assms by auto
next
  case (Suc m)
  let ?f = "fold (\<lambda>i r. r[i := f_mul F (r ! (i - 1)) (r ! 1)])"
  show ?case
  proof (cases "k + 1 \<le> m")
    case False
    then have "{k..<Suc m} \<subseteq> {k}" by auto
    then show ?thesis using assms False by auto
  next
    case True
    let ?r = "?f [k + 1..<m] roots"
    note IH = Suc.IH [OF Suc_leD [OF Suc.prems]]
    have "right w ?r (m - 1)" "right w ?r 1" using IH True by auto
    then have g: "good (f_mul F (?r ! (m - 1)) (?r ! 1))" "ev (f_mul F (?r ! (m - 1)) (?r ! 1)) = w ^ m"
      using True mul_law by (simp_all add: right_def mult.commute flip: power_Suc)
    have l: "m < length ?r" using IH Suc.prems by simp
    have e: "?f [k + 1..<Suc m] roots = ?r[m := f_mul F (?r ! (m - 1)) (?r ! 1)]" using True by simp
    have m: "right w (?f [k + 1..<Suc m] roots) m" unfolding e using l g by (simp add: right_def)
    have o: "right w (?f [k + 1..<Suc m] roots) j" if "right w ?r j" for j
      unfolding e by (rule right_upd [OF l that g])
    have "length (?f [k + 1..<Suc m] roots) = length roots" unfolding e using IH by simp
    moreover have "\<forall>i \<in> S \<union> {k..<Suc m} \<union> {k, 0, 1}. right w (?f [k + 1..<Suc m] roots) i"
      using IH m o less_Suc_eq by fastforce
    ultimately show ?thesis by blast
  qed
qed

lemma root_block_value:
  assumes N: "unat nRoots = N" "length roots = N" "2 \<le> N" and t: "t < nThreads" "nThreads < 2 ^ 64"
    and roots: "right w roots 0" "right w roots 1" "\<And>i. i \<in> S \<Longrightarrow> right w roots i"
  shows "length (root_block F nRoots nThreads t roots) = N
    \<and> (\<forall>i \<in> S \<union> {block_start N nThreads t..<block_end N nThreads t} \<union> {0, 1}. right w (root_block F nRoots nThreads t roots) i)"
proof -
  let ?b = "block_start N nThreads t" and ?e = "block_end N nThreads t"
  have n: "unat (of_nat nThreads :: u64) = nThreads" "unat (of_nat t :: u64) = t" "unat (of_nat t + 1 :: u64) = t + 1"
    using t by (simp_all add: unat_of_nat unat_word_ariths)
  define inc where "inc = nRoots div of_nat nThreads"
  have inc: "unat inc = N div nThreads" by (simp add: inc_def unat_div n N(1))
  have b64: "N < 2 ^ 64" using unsigned_less [of nRoots, where 'a = nat] N(1) by simp
  define start where "start = (if t = 0 then 2 else of_nat t * inc)"
  define end' where "end' = (if t = nThreads - 1 then nRoots else (of_nat t + 1) * inc)"
  have l: "(t + 1) * (N div nThreads) < 2 ^ LENGTH(64)" "t * (N div nThreads) < 2 ^ LENGTH(64)"
    using block_bounds(3) [OF t(1), of N] b64 by simp_all
  have "unat (of_nat t * inc) = t * (N div nThreads)" using l(2) unat_mult_lem [of "of_nat t" inc] by (simp add: n(2) inc)
  then have start: "unat start = ?b" by (simp add: start_def block_start_def)
  have "unat ((of_nat t + 1) * inc) = (t + 1) * (N div nThreads)"
    using l(1) unat_mult_lem [of "of_nat t + 1" inc] unfolding n(3) inc by blast
  then have end': "unat end' = ?e" by (simp add: end'_def block_end_def N(1))
  have e: "root_block F nRoots nThreads t roots =
      fold (\<lambda>i r. r[i := f_mul F (r ! (i - 1)) (r ! 1)]) [?b + 1..<?e]
        (if ?e > ?b then roots[?b := f_exp F (roots ! ?b) (roots ! 1) (le_bytes 8 ?b) 8] else roots)"
    unfolding root_block_def Let_def inc_def [symmetric] start_def [symmetric] end'_def [symmetric] word_less_nat_alt start end' ..
  show ?thesis
  proof (cases "?b < ?e")
    case False
    then show ?thesis using N(2) roots unfolding e by auto
  next
    case True
    have lb: "?b < length roots" using True block_bounds(1) [OF t(1), of N] N(2) by simp
    then have v: "le_val (le_bytes 8 ?b) = ?b" using b64 N(2) by simp
    have x: "good (f_exp F (roots ! ?b) (roots ! 1) (le_bytes 8 ?b) 8)" "ev (f_exp F (roots ! ?b) (roots ! 1) (le_bytes 8 ?b) 8) = w ^ ?b"
      using exp_law [of "roots ! 1" "le_bytes 8 ?b" "roots ! ?b"] roots(2) v by (simp_all add: right_def)
    define r where "r = roots[?b := f_exp F (roots ! ?b) (roots ! 1) (le_bytes 8 ?b) 8]"
    have r: "right w r j" if "right w roots j" for j unfolding r_def by (rule right_upd [OF lb that x])
    have rb: "right w r ?b" using lb x by (simp add: right_def r_def)
    have lr: "?e \<le> length r" using block_bounds(1) [OF t(1), of N] N(2) by (simp add: r_def)
    show ?thesis
      using right_fold [OF r [OF roots(1)] r [OF roots(2)] rb lr, of S] r roots(3) True N(2) unfolding e by (auto simp: r_def)
  qed
qed

text \<open>All threads together fill the table, in whatever order they run.\<close>

lemma roots_table:
  assumes N: "unat nRoots = N" "length roots = N" "2 \<le> N" and t: "0 < nThreads" "nThreads < 2 ^ 64"
    and order: "block_order nThreads order" and roots: "right w roots 0" "right w roots 1"
  shows "length (parallelBlock nThreads order (root_block F nRoots) roots) = N
    \<and> (\<forall>i < N. right w (parallelBlock nThreads order (root_block F nRoots) roots) i)"
proof -
  define R where "R D = (\<Union>t \<in> D. {block_start N nThreads t..<block_end N nThreads t}) \<union> {0, 1}" for D
  have "(\<lambda>D r. length r = N \<and> (\<forall>i \<in> R D. right w r i)) {..<nThreads} (parallelBlock nThreads order (root_block F nRoots) roots)"
  proof (rule parallelBlock_rule [OF order])
    show "length roots = N \<and> (\<forall>i \<in> R {}. right w roots i)" using N(2) roots by (simp add: R_def)
    fix D t r assume IH: "length r = N \<and> (\<forall>i \<in> R D. right w r i)" and "t < nThreads"
    then have "length (root_block F nRoots nThreads t r) = N \<and> (\<forall>i \<in> R D \<union> {block_start N nThreads t..<block_end N nThreads t} \<union> {0, 1}.
        right w (root_block F nRoots nThreads t r) i)"
      using N t(2) by (intro root_block_value) (auto simp: R_def)
    moreover have "R (insert t D) \<subseteq> R D \<union> {block_start N nThreads t..<block_end N nThreads t} \<union> {0, 1}" by (auto simp: R_def)
    ultimately show "length (root_block F nRoots nThreads t r) = N \<and> (\<forall>i \<in> R (insert t D). right w (root_block F nRoots nThreads t r) i)"
      by blast
  qed
  moreover have "i \<in> R {..<nThreads}" if "i < N" for i
  proof (cases "2 \<le> i")
    case True
    then show ?thesis using blocks_cover [OF that True t(1)] by (auto simp: R_def)
  next
    case False
    then have "i = 0 \<or> i = 1" by linarith
    then show ?thesis by (auto simp: R_def)
  qed
  ultimately show ?thesis by blast
qed

lemma inverse_table:
  assumes "2 \<le> length p" "good (p ! 0)" "ev (p ! 0) = 1" "good (p ! 1)" "2 * ev (p ! 1) = 1" "m \<le> length p"
  defines "r \<equiv> fold (\<lambda>i p. p[i := f_mul F (p ! (i - 1)) (p ! 1)]) [2..<m] p"
  shows "length r = length p \<and> (\<forall>i < max 2 m. good (r ! i) \<and> 2 ^ i * ev (r ! i) = 1)"
proof -
  have base: "good (p ! i) \<and> 2 ^ i * ev (p ! i) = 1" if "i < 2" for i
    using less_2_cases [OF that] assms(2-5) by auto
  show ?thesis
  using assms(6) unfolding r_def
proof (induction m)
  case 0
  show ?case using base by simp
next
  case (Suc m)
  let ?f = "fold (\<lambda>i p. p[i := f_mul F (p ! (i - 1)) (p ! 1)])"
  show ?case
  proof (cases "2 \<le> m")
    case False
    then have "max 2 (Suc m) = 2" "[2..<Suc m] = []" by simp_all
    then show ?thesis using base by simp
  next
    case True
    let ?r = "?f [2..<m] p"
    have IH: "length ?r = length p" "\<And>i. i < m \<Longrightarrow> good (?r ! i) \<and> 2 ^ i * ev (?r ! i) = 1"
      using Suc.IH [OF Suc_leD [OF Suc.prems]] True by simp_all
    have g: "good (f_mul F (?r ! (m - 1)) (?r ! 1))" "ev (f_mul F (?r ! (m - 1)) (?r ! 1)) = ev (?r ! (m - 1)) * ev (?r ! 1)"
      using IH(2) [of "m - 1"] IH(2) [of 1] True mul_law by simp_all
    have "2 ^ m = (2 :: 'a) ^ (m - 1) * 2 ^ 1" using True by (cases m) simp_all
    then have "2 ^ m * (ev (?r ! (m - 1)) * ev (?r ! 1)) = (2 ^ (m - 1) * ev (?r ! (m - 1))) * (2 ^ 1 * ev (?r ! 1))" by (simp add: ac_simps)
    also have "\<dots> = 1" using IH(2) [of "m - 1"] IH(2) [of 1] True by simp
    finally have v: "2 ^ m * (ev (?r ! (m - 1)) * ev (?r ! 1)) = 1" .
    have "?f [2..<Suc m] p = ?r[m := f_mul F (?r ! (m - 1)) (?r ! 1)]" using True by simp
    moreover have "m < length ?r" using IH(1) Suc.prems by simp
    ultimately show ?thesis using IH g v True by (auto simp: nth_list_update less_Suc_eq)
  qed
qed
qed

section \<open>The constructor\<close>

lemma FFT_value:
  assumes nqr: "nqr_loop Z ((q - 1) div 2) q 2 (2 ^ nat ((q - 1) div 2) mod q) = Some v" "0 \<le> v" "v < q"
      "v ^ nat ((q - 1) div 2) mod q = q - 1" "odd q"
    and t: "0 < nThreads" "nThreads < 2 ^ 64" "block_order nThreads order"
    and d: "log2 maxDomainSize = Some (of_nat d)" "d \<le> 32"
  shows "if 2 ^ d dvd q - 1
    then \<exists>T w. FFT F Z nThreads order garbage maxDomainSize = Some (Ok T) \<and> fft_tables F good ev q T w \<and> d \<le> unat (fft_s T)
    else FFT F Z nThreads order garbage maxDomainSize = Some (Throw (range_error ''Domain size too big for the curve''))"
proof -
  define e where "e = (q - 1) div 2"
  have q1: "q - 1 = 2 * e" "0 < e" "0 < q" using nqr(5) char(2) by (auto simp: e_def)
  have D: "unat (of_nat d :: u32) = d" using d(2) by (simp add: unat_of_nat)
  obtain s m where sm: "adicity_loop Z (of_nat d) 1 e = (s, m)" by fastforce
  have A: "1 \<le> unat s" "unat s \<le> max 1 d" "e = m * 2 ^ (unat s - 1)" "s < of_nat d \<longrightarrow> odd m"
    using adicity_loop [of 1 "of_nat d" e] by (simp_all add: sm D)
  have qm: "q - 1 = m * 2 ^ unat s" using A(1,3) q1(1) by (simp add: power_eq_if)
  have m0: "0 \<le> m" using A(3) q1(2) by (metis zero_le_mult_iff zero_less_mult_pos2 zero_less_numeral zero_less_power less_imp_le)
  have dvd: "2 ^ d dvd q - 1 \<longleftrightarrow> \<not> s < of_nat d"
  proof
    assume "2 ^ d dvd q - 1"
    show "\<not> s < of_nat d"
    proof
      assume "s < of_nat d"
      then have s: "odd m" "unat s < d" using A(4) by (simp_all add: word_less_nat_alt D)
      then have "2 ^ Suc (unat s) dvd q - 1" using \<open>2 ^ d dvd q - 1\<close> by (metis Suc_leI dvd_trans le_imp_power_dvd)
      then show False using s(1) by (simp add: qm)
    qed
  next
    assume "\<not> s < of_nat d"
    then have "d \<le> unat s" by (simp add: word_less_nat_alt D)
    then show "2 ^ d dvd q - 1" by (simp add: qm le_imp_power_dvd dvd_mult)
  qed
  have mpz: "mpz_add Z (q - 1) 1 = q" "mpz_fdiv_q Z (q - 1) 2 = e" "mpz_powm Z 2 e q = 2 ^ nat e mod q" "mpz_powm Z v m q = v ^ nat m mod q"
    using q1 m0 by (simp_all add: mpz_add mpz_fdiv_q mpz_powm e_def)
  note start = d(1) toMpz_law nqr(1) [folded e_def]
  show ?thesis
  proof (cases "2 ^ d dvd q - 1")
    case False
    then have "s < of_nat d" using dvd by blast
    then show ?thesis using False start by (simp add: FFT_def Let_def mpz sm)
  next
    case True
    then have sd: "\<not> s < of_nat d" "d \<le> unat s" using dvd by (simp_all add: word_less_nat_alt D)
    define N where "N = (2::nat) ^ unat s"
    have s32: "unat s \<le> 32" using A(2) d(2) by simp
    have N: "unat (push_bit (unat s) (1 :: u64)) = N" "2 \<le> N"
    proof -
      have "(2::nat) ^ unat s \<le> 2 ^ 32" using s32 by (intro power_increasing) simp_all
      then show "unat (push_bit (unat s) (1 :: u64)) = N" using unat_push_bit [of 1 "unat s"] by (simp add: N_def)
      show "2 \<le> N" using A(1) power_increasing [of 1 "unat s" "2::nat"] by (simp add: N_def)
    qed
    have s1: "unat (s + 1) = unat s + 1" using s32 by (simp add: unat_word_ariths)
    define w where "w = (of_int v :: 'a) ^ nat m"
    define x where "x = f_fromMpz F (v ^ nat m mod q)"
    have x: "good x" "ev x = w" using fromMpz_law [of "v ^ nat m mod q"] q1(3) by (simp_all add: x_def w_def of_int_mod)
    have order: "root_of_unity w (unat s)"
    proof -
      have "w ^ 2 ^ (unat s - 1) = of_int (v ^ nat e)"
        using m0 by (simp add: w_def A(3) nat_mult_distrib nat_power_eq flip: power_mult)
      also have "\<dots> = of_int (v ^ nat e mod q)" by (simp only: of_int_mod)
      also have "\<dots> = - 1" using nqr(4) by (simp add: e_def char(1))
      finally show ?thesis using A(1) by (simp add: root_of_unity_def)
    qed
    define i2 where "i2 = f_fromMpz F (mpz_invert Z 2 q)"
    have "coprime 2 q" using nqr(5) by simp
    then have inv: "0 \<le> mpz_invert Z 2 q" "mpz_invert Z 2 q < q" "(2 * mpz_invert Z 2 q) mod q = 1"
      using mpz_invert [of q 2] char(2) by simp_all
    have i2: "good i2" "2 * ev i2 = 1"
      using fromMpz_law [OF inv(1,2)] of_int_mod [of "2 * mpz_invert Z 2 q"] inv(3) by (simp_all add: i2_def)
    define roots where "roots = (map garbage [0..<N])[0 := f_one F, 1 := x]"
    define p where "p = (map garbage [0..<unat s + 1])[0 := f_one F, 1 := i2]"
    define roots' where "roots' = parallelBlock nThreads order (root_block F (push_bit (unat s) 1)) roots"
    define p' where "p' = fold (\<lambda>i p. p[i := f_mul F (p ! (i - 1)) (p ! 1)]) [2..<unat s + 1] p"
    have R: "length roots' = N" "\<And>i. i < N \<Longrightarrow> good (roots' ! i) \<and> ev (roots' ! i) = w ^ i"
      using roots_table [OF N(1) _ N(2) t(1,2,3), of roots w] N(2) x one_law
      by (simp_all add: right_def roots_def roots'_def)
    have P: "\<And>i. i \<le> unat s \<Longrightarrow> good (p' ! i) \<and> 2 ^ i * ev (p' ! i) = 1"
      using inverse_table [of p "unat s + 1"] A(1) one_law i2 by (simp add: p_def p'_def)
    define T where "T = \<lparr>fft_s = s, fft_nqr = f_fromMpz F v, fft_roots = roots', fft_powTwoInv = p'\<rparr>"
    have tables: "fft_tables F good ev q T w"
      unfolding fft_tables_def fft_tables_axioms_def
      using fft_field_axioms A(1) s32 order R P by (simp add: T_def N_def)
    have "ev (f_mul F (roots' ! (N - 1)) (roots' ! 1)) = w ^ N" "good (f_mul F (roots' ! (N - 1)) (roots' ! 1))"
      using R(2) [of "N - 1"] R(2) [of 1] N(2) mul_law by (simp_all add: power_eq_if)
    then have eq: "f_eq F (f_mul F (roots' ! (N - 1)) (roots' ! 1)) (f_one F)"
      using eq_law one_law root_one [OF order] by (simp add: N_def)
    have last: "unat (push_bit (unat s) 1 - 1 :: u64) = N - 1" using N unat_minus_one [of "push_bit (unat s) 1 :: u64"] by (metis not_numeral_le_zero unat_0)
    have big: "push_bit (unat s) 1 > (1 :: u64)" using N by (simp add: word_less_nat_alt)
    have "FFT F Z nThreads order garbage maxDomainSize = Some (Ok T)"
      using eq by (simp only: FFT_def Let_def start bind.bind_lunit power_one_right mpz sm prod.case sd(1) big last N(1) s1
        if_True if_False not_True_eq_False T_def x_def [symmetric] i2_def [symmetric] roots_def [symmetric] p_def [symmetric]
        roots'_def [symmetric] p'_def [symmetric])
    then show ?thesis using True tables sd(2) by (auto simp: T_def)
  qed
qed

end

end
