(* ===== verification/FrFft.thy ===== *)
theory FrFft
  imports G1 FrField FftTables
begin

text \<open>
  The transform over the scalar field: the class \<open>RawFr\<close> provides what the transform asks of its
  field, and the constructor finds the roots of unity of every order up to \<open>2^28\<close>.
\<close>

section \<open>The class as a field of the transform\<close>

definition RawFr_ops :: "gmp \<Rightarrow> mpz_lib \<Rightarrow> limbs fft_ops" where
  "RawFr_ops G Z = \<lparr>
     f_add = F_rawAdd Fr_field G,
     f_sub = F_rawSub Fr_field G,
     f_mul = F_rawMMul Fr_field G,
     f_div = RawF_div Fr_field G Z,
     f_square = F_rawMSquare Fr_field G,
     f_neg = F_rawNeg Fr_field G,
     f_isZero = (\<lambda>a. F_rawIsZero G a \<noteq> 0),
     f_eq = (\<lambda>a b. F_rawIsEq G a b \<noteq> 0),
     f_zero = fZero (RawF Fr_field G Z),
     f_one = fOne (RawF Fr_field G Z),
     f_negOne = fNegOne (RawF Fr_field G Z),
     f_toMpz = RawF_toMpz Fr_field G Z,
     f_fromMpz = RawF_fromMpz Fr_field G Z,
     f_exp = RawF_exp Fr_field G Z\<rparr>"

definition fr_good :: "limbs \<Rightarrow> bool" where
  "fr_good x = raw_elem Fr_field x"

definition fr_val :: "limbs \<Rightarrow> fr" where
  "fr_val x = of_fr (lval x * Rinv Fr_field)"

lemma prime_of_fr: "prime_of Fr_field = fr_prime"
  by (simp add: prime_of_Fr fr_prime_def)

locale raw_fr = raw_class_field G Fr_field Z for G Z
begin

lemma repr_fr: "repr_m Fr_field x v \<Longrightarrow> fr_good x \<and> fr_val x = of_fr v"
  using repr_m_val [of x v] by (simp add: fr_good_def fr_val_def repr_m_raw of_fr_eq_iff prime_of_fr)

lemma fr_repr: "fr_good x \<Longrightarrow> repr_m Fr_field x (lval x * Rinv Fr_field)"
  unfolding fr_good_def by (rule repr_m_of)

lemma fr_val_eq_iff:
  assumes "fr_good x" "fr_good y"
  shows "fr_val x = fr_val y \<longleftrightarrow> lval x = lval y"
proof
  assume "fr_val x = fr_val y"
  then have "repr_m Fr_field y (lval x * Rinv Fr_field)"
    using fr_repr [OF assms(2)] repr_m_cong by (fastforce simp: fr_val_def of_fr_eq_iff prime_of_fr)
  then show "lval x = lval y" using fr_repr [OF assms(1)] by (simp add: repr_m_def)
qed (simp add: fr_val_def)

lemma fr_val_lval:
  assumes "fr_good x"
  shows "fr_val x = of_fr (RawF_toMpz Fr_field G Z x)"
  using raw_toMpz [OF fr_repr [OF assms]] by (simp add: fr_val_def of_fr_eq_iff prime_of_fr)

lemma fft_setup_fr: "fft_setup (RawFr_ops G Z) fr_good fr_val fr_prime Z"
proof
  fix x y assume x: "fr_good x" and y: "fr_good y"
  note r = fr_repr [OF x] fr_repr [OF y]
  show "fr_good (f_add (RawFr_ops G Z) x y) \<and> fr_val (f_add (RawFr_ops G Z) x y) = fr_val x + fr_val y"
    using repr_fr [OF repr_add_m [OF r]] by (simp add: RawFr_ops_def of_fr_hom fr_val_def)
  show "fr_good (f_sub (RawFr_ops G Z) x y) \<and> fr_val (f_sub (RawFr_ops G Z) x y) = fr_val x - fr_val y"
    using repr_fr [OF repr_sub_m [OF r]] by (simp add: RawFr_ops_def of_fr_hom fr_val_def)
  show "fr_good (f_mul (RawFr_ops G Z) x y) \<and> fr_val (f_mul (RawFr_ops G Z) x y) = fr_val x * fr_val y"
    using repr_fr [OF repr_mul_mm [OF r]] by (simp add: RawFr_ops_def of_fr_hom fr_val_def)
  show "f_eq (RawFr_ops G Z) x y \<longleftrightarrow> fr_val x = fr_val y"
    using rawIsEq_iff [of x y] fr_val_eq_iff [OF x y] x y by (simp add: RawFr_ops_def fr_good_def)
  show "fr_val x = fr_val y \<Longrightarrow> x = y"
    using fr_val_eq_iff [OF x y] x y lval_inject [of x y] by (simp add: fr_good_def raw_elem_def)
next
  show "fr_good (f_one (RawFr_ops G Z))" "fr_val (f_one (RawFr_ops G Z)) = 1"
    using repr_fr [OF raw_consts(2)] by (simp_all add: RawFr_ops_def of_fr_hom)
  have "(- 1) mod fr_prime = fr_prime - 1" using fr_prime_gt_1 by (simp add: zmod_minus1)
  then show "f_toMpz (RawFr_ops G Z) (f_negOne (RawFr_ops G Z)) = fr_prime - 1"
    using raw_toMpz [OF raw_consts(3)] by (simp add: RawFr_ops_def prime_of_fr)
  have "of_fr fr_prime = of_fr 0" by (simp only: of_fr_eq_iff) simp
  then show "of_int fr_prime = (0 :: fr)" by (simp add: of_fr_hom flip: of_fr_int)
  show "2 < fr_prime" by (simp add: fr_prime_def)
next
  fix v assume v: "0 \<le> v" "v < fr_prime"
  then have "v < 2 ^ 256" by (simp add: fr_prime_def)
  then show "fr_good (f_fromMpz (RawFr_ops G Z) v) \<and> fr_val (f_fromMpz (RawFr_ops G Z) v) = of_int v"
    using repr_fr [OF raw_fromMpz [OF v(1)]] by (simp add: RawFr_ops_def of_fr_int)
next
  fix x r and k :: "u8 list" assume "fr_good x" "length k < 2 ^ 28"
  then show "fr_good (f_exp (RawFr_ops G Z) r x k (of_nat (length k)))
      \<and> fr_val (f_exp (RawFr_ops G Z) r x k (of_nat (length k))) = fr_val x ^ le_val k"
    using repr_fr [OF raw_exp [OF fr_repr refl]] by (simp add: RawFr_ops_def of_fr_power fr_val_def)
qed

end

lemma raw_frI: "gmp_mpn G \<Longrightarrow> gmp_mpz Z \<Longrightarrow> raw_fr G Z"
  by (simp add: raw_fr_def raw_class_fieldI field_ok_Fr)

lemma Fr_setup: "gmp_mpn G \<Longrightarrow> gmp_mpz Z \<Longrightarrow> fft_setup (RawFr_ops G Z) fr_good fr_val fr_prime Z"
  by (rule raw_fr.fft_setup_fr [OF raw_frI])

interpretation sfr: raw_fr gmp_ref mpz_ref
  by (rule raw_frI [OF gref.gmp_mpn_axioms zref.gmp_mpz_axioms])

interpretation ffr: fft_setup "RawFr_ops gmp_ref mpz_ref" fr_good fr_val fr_prime mpz_ref
  by (rule sfr.fft_setup_fr)

section \<open>The constructor\<close>

lemma fr_odd: "odd fr_prime"
  by (simp add: fr_prime_def)

lemma fr_order_power: "fr_prime - 1 = 2 ^ 28 * 81540058820840996586704275553141814055101440848469862132140264610111"
  by (simp add: fr_prime_def)

lemma fr_adicity: "2 ^ d dvd fr_prime - 1 \<longleftrightarrow> d \<le> 28"
proof
  assume d: "2 ^ d dvd fr_prime - 1"
  show "d \<le> 28"
  proof (rule ccontr)
    assume "\<not> d \<le> 28"
    then have "(2::int) ^ 29 dvd fr_prime - 1" by (intro power_le_dvd [OF d]) simp
    then have "(2::int) ^ 28 * 2 dvd 2 ^ 28 * 81540058820840996586704275553141814055101440848469862132140264610111"
      unfolding fr_order_power by simp
    then show False by (simp only: dvd_mult_cancel_left) simp
  qed
next
  assume "d \<le> 28"
  then show "2 ^ d dvd fr_prime - 1" unfolding fr_order_power by (intro dvd_mult2 le_imp_power_dvd)
qed

lemma fr_nqr:
  assumes "gmp_mpz Z"
  shows "nqr_loop Z ((fr_prime - 1) div 2) fr_prime 2 (2 ^ nat ((fr_prime - 1) div 2) mod fr_prime) = Some 5"
proof (rule gmp_mpz.nqr_loop_value [OF assms])
  have "0 < fr_prime - 1" using fr_prime_gt_1 by simp
  then show "0 \<le> (fr_prime - 1) div 2" "0 < fr_prime" by simp_all
  show "5 ^ nat ((fr_prime - 1) div 2) mod fr_prime \<noteq> 1" unfolding fr_half_order by (simp add: fr_prime_def)
  fix j :: int assume "2 \<le> j" "j < 5"
  then have "j = 2 \<or> j = 3 \<or> j = 4" by arith
  then show "j ^ nat ((fr_prime - 1) div 2) mod fr_prime = 1" using fr_half_order by blast
qed simp

end
