(* ===== verification/Engine.thy ===== *)
theory Engine
  imports TowerCorrect FrFft
begin

text \<open>
  The engine (\<open>depends/ffiasm/c/alt_bn128.hpp\<close>): the fields of the tower, the scalar field and the
  two groups as one object. \<open>G1\<close> is \<open>y\<^sup>2 = x\<^sup>3 + 3\<close> over the base field, \<open>G2\<close> the twist
  \<open>y\<^sup>2 = x\<^sup>3 + b\<close> over the quadratic extension, with the constants of the source.
\<close>

definition RawFq_inv_ops :: "gmp \<Rightarrow> mpz_lib \<Rightarrow> limbs inv_ops" where
  "RawFq_inv_ops G Z = base_ops.extend (RawFq_ops G Z) (inv_ops.fields (RawF_inv Fq_field G Z))"

text \<open>The constructor of a curve from strings, over a field whose \<open>fromString\<close> may fail.\<close>

definition Curve_new_oo :: "'e base_ops \<Rightarrow> (string \<Rightarrow> 'e outcome option) \<Rightarrow> string \<Rightarrow> string \<Rightarrow> string \<Rightarrow> string \<Rightarrow> 'e curve outcome option" where
  "Curve_new_oo F fromString as' bs gxs gys =
     bind_oo (fromString as') (\<lambda>aa.
     bind_oo (fromString bs) (\<lambda>ab.
     bind_oo (fromString gxs) (\<lambda>agx.
     bind_oo (fromString gys) (\<lambda>agy.
     Some (Ok (initCurve F aa ab agx agy))))))"

definition G2_curve :: "gmp \<Rightarrow> mpz_lib \<Rightarrow> limbs f2_field \<Rightarrow> limbs f2 curve outcome option" where
  "G2_curve G Z f2 =
     Curve_new_oo (F2_ops f2) (F2_fromString (Fq_fromString G Z))
       ''0,0''
       ''19485874751759354771024239261021720505790618469301721065564631296452457478373, 266929791119991161246907387137283842545076965332900288569378510910307636690''
       ''10857046999023057135944570762232829481370756359578518086990519993285655852781, 11559732032986387107991004021392285783925812861821192530917403151452391805634''
       ''8495653923123431417604973247489272438418190587263600148770280649306958101930, 4082367875863433681332203403145435568316851327593401208105741076214120093531''"

record engine =
  en_f1 :: "limbs inv_ops"
  en_f2 :: "limbs f2_field"
  en_f6 :: "limbs f6_field"
  en_f12 :: "limbs f12_field"
  en_fr :: "limbs fft_ops"
  en_g1 :: "limbs curve"
  en_g2 :: "limbs f2 curve"

definition Engine_new :: "gmp \<Rightarrow> mpz_lib \<Rightarrow> engine outcome option" where
  "Engine_new G Z =
     (let f1 = RawFq_inv_ops G Z;
          f2 = F2_new f1 (Fq_fromString G Z) ''-1''
      in bind_oo (F6_new f1 (Fq_fromString G Z)) (\<lambda>f6.
         bind_oo (F12_new f1 (Fq_fromString G Z)) (\<lambda>f12.
         bind_oo (G2_curve G Z f2) (\<lambda>g2.
         Some (Ok
           \<lparr>en_f1 = f1, en_f2 = f2, en_f6 = f6, en_f12 = f12,
            en_fr = RawFr_ops G Z, en_g1 = G1_curve G Z, en_g2 = g2\<rparr>)))))"

section \<open>The tower over \<open>RawFq\<close>\<close>

context raw_fq
begin

lemma truncate_fq: "base_ops.truncate (RawFq_inv_ops G Z) = RawFq_ops G Z"
  by (simp add: RawFq_inv_ops_def base_ops.defs inv_ops.defs)

lemma inv_fq: "f_inv (RawFq_inv_ops G Z) = RawF_inv Fq_field G Z"
  by (simp add: RawFq_inv_ops_def base_ops.defs inv_ops.defs)

lemma fq_inv:
  assumes "fq_good x" "fq_val x \<noteq> 0"
  shows "fq_good (RawF_inv Fq_field G Z x) \<and> fq_val (RawF_inv Fq_field G Z x) = inverse (fq_val x)"
proof -
  let ?v = "lval x * Rinv Fq_field"
  have "\<not> fq_prime dvd ?v" using assms(2) by (simp add: fq_val_def of_fq_eq_0_iff)
  then have "coprime ?v (prime_of Fq_field)" unfolding prime_of_fq by (rule prime_coprime [OF is_prime_fq])
  then obtain w where w: "repr_m Fq_field (RawF_inv Fq_field G Z x) w" "(?v * w) mod prime_of Fq_field = 1"
    using raw_inv [OF fq_repr [OF assms(1)]] by blast
  have "of_fq (?v * w) = of_fq 1" using w(2) fq_prime_gt_1 by (simp only: of_fq_eq_iff prime_of_fq) simp
  then have "fq_val x * of_fq w = 1" by (simp add: fq_val_def of_fq_mult of_fq_1)
  then have "of_fq w = inverse (fq_val x)" using assms(2) by (simp add: field_simps)
  then show ?thesis using repr_fq [OF w(1)] by simp
qed

lemma tower_fq: "tower (RawFq_inv_ops G Z) fq_good fq_val (Fq_fromString G Z)"
proof -
  have nr: "fq_good (Fq_fromString G Z ''-1'') \<and> fq_val (Fq_fromString G Z ''-1'') = - 1"
    using repr_fq [OF raw_fromString_neg [of "''1''"]]
    by (simp add: Fq_fromString_def is_digit_def dec_val_def of_fq_hom)
  show ?thesis
    unfolding tower_def tower_axioms_def f2_class_def f2_class_axioms_def truncate_fq inv_fq
    using base_field_fq fq_inv nr fq_fromString by simp
qed

end

lemma G1_tower: "gmp_mpn G \<Longrightarrow> gmp_mpz Z \<Longrightarrow> tower (RawFq_inv_ops G Z) fq_good fq_val (Fq_fromString G Z)"
  by (rule raw_fq.tower_fq [OF raw_fqI])

sublocale raw_fq \<subseteq> tow: tower "RawFq_inv_ops G Z" fq_good fq_val "Fq_fromString G Z"
  by (rule tower_fq)

interpretation tref: tower "RawFq_inv_ops gmp_ref mpz_ref" fq_good fq_val "Fq_fromString gmp_ref mpz_ref"
  by (rule rfq.tower_fq)

section \<open>The second group\<close>

definition G2_a :: "gmp \<Rightarrow> mpz_lib \<Rightarrow> limbs f2" where
  "G2_a G Z = \<lparr>f2_a = Fq_fromString G Z ''0'', f2_b = Fq_fromString G Z ''0''\<rparr>"

definition G2_b :: "gmp \<Rightarrow> mpz_lib \<Rightarrow> limbs f2" where
  "G2_b G Z = \<lparr>f2_a = Fq_fromString G Z ''19485874751759354771024239261021720505790618469301721065564631296452457478373'',
     f2_b = Fq_fromString G Z ''266929791119991161246907387137283842545076965332900288569378510910307636690''\<rparr>"

definition G2_gx :: "gmp \<Rightarrow> mpz_lib \<Rightarrow> limbs f2" where
  "G2_gx G Z = \<lparr>f2_a = Fq_fromString G Z ''10857046999023057135944570762232829481370756359578518086990519993285655852781'',
     f2_b = Fq_fromString G Z ''11559732032986387107991004021392285783925812861821192530917403151452391805634''\<rparr>"

definition G2_gy :: "gmp \<Rightarrow> mpz_lib \<Rightarrow> limbs f2" where
  "G2_gy G Z = \<lparr>f2_a = Fq_fromString G Z ''8495653923123431417604973247489272438418190587263600148770280649306958101930'',
     f2_b = Fq_fromString G Z ''4082367875863433681332203403145435568316851327593401208105741076214120093531''\<rparr>"

definition Engine_f2 :: "gmp \<Rightarrow> mpz_lib \<Rightarrow> limbs f2_field" where
  "Engine_f2 G Z = F2_initField (RawFq_inv_ops G Z) (Fq_fromString G Z ''-1'')"

abbreviation G2_ops :: "gmp \<Rightarrow> mpz_lib \<Rightarrow> limbs f2 base_ops" where
  "G2_ops G Z \<equiv> F2_ops (Engine_f2 G Z)"

definition twist_b :: fq2 where
  "twist_b = fq2_int 19485874751759354771024239261021720505790618469301721065564631296452457478373
     266929791119991161246907387137283842545076965332900288569378510910307636690"

lemma G2_curve_value:
  "G2_curve G Z f2 = Some (Ok (initCurve (F2_ops f2) (G2_a G Z) (G2_b G Z) (G2_gx G Z) (G2_gy G Z)))"
proof -
  let ?fs = "Fq_fromString G Z"
  have a: "F2_fromString ?fs ''0,0'' = Some (Ok (G2_a G Z))"
    using F2_fromString_pair [of "''0''" "''0''" "[]" ?fs] by (simp add: is_digit_def G2_a_def)
  have b: "F2_fromString ?fs ''19485874751759354771024239261021720505790618469301721065564631296452457478373, 266929791119991161246907387137283842545076965332900288569378510910307636690'' = Some (Ok (G2_b G Z))"
    using F2_fromString_pair [of "''19485874751759354771024239261021720505790618469301721065564631296452457478373''"
        "''266929791119991161246907387137283842545076965332900288569378510910307636690''" "'' ''" ?fs]
    by (simp add: is_digit_def isspace_def G2_b_def)
  have x: "F2_fromString ?fs ''10857046999023057135944570762232829481370756359578518086990519993285655852781, 11559732032986387107991004021392285783925812861821192530917403151452391805634'' = Some (Ok (G2_gx G Z))"
    using F2_fromString_pair [of "''10857046999023057135944570762232829481370756359578518086990519993285655852781''"
        "''11559732032986387107991004021392285783925812861821192530917403151452391805634''" "'' ''" ?fs]
    by (simp add: is_digit_def isspace_def G2_gx_def)
  have y: "F2_fromString ?fs ''8495653923123431417604973247489272438418190587263600148770280649306958101930, 4082367875863433681332203403145435568316851327593401208105741076214120093531'' = Some (Ok (G2_gy G Z))"
    using F2_fromString_pair [of "''8495653923123431417604973247489272438418190587263600148770280649306958101930''"
        "''4082367875863433681332203403145435568316851327593401208105741076214120093531''" "'' ''" ?fs]
    by (simp add: is_digit_def isspace_def G2_gy_def)
  show ?thesis unfolding G2_curve_def Curve_new_oo_def a b x y by simp
qed

context raw_fq
begin

lemma f2_literal:
  assumes "list_all is_digit s" "s \<noteq> []" "dec_val s = nat a" "0 \<le> a" "list_all is_digit t" "t \<noteq> []" "dec_val t = nat b" "0 \<le> b"
  shows "f2_good fq_good \<lparr>f2_a = Fq_fromString G Z s, f2_b = Fq_fromString G Z t\<rparr>
    \<and> f2_val fq_val \<lparr>f2_a = Fq_fromString G Z s, f2_b = Fq_fromString G Z t\<rparr> = fq2_int a b"
  using tower.fs_int [OF tower_fq assms(1-4)] tower.fs_int [OF tower_fq assms(5-8)]
  by (simp add: f2_good_def f2_val_def fq2_int_def)

lemma twist_coefficients: "f2_good fq_good (G2_a G Z)" "f2_val fq_val (G2_a G Z) = 0"
  "f2_good fq_good (G2_b G Z)" "f2_val fq_val (G2_b G Z) = twist_b"
proof -
  show "f2_good fq_good (G2_a G Z)" "f2_val fq_val (G2_a G Z) = 0"
    using f2_literal [of "''0''" 0 "''0''" 0]
    by (simp_all add: G2_a_def is_digit_def dec_val_def fq2_int_def of_fq_0 zero_fq2_def)
  have "f2_good fq_good (G2_b G Z) \<and> f2_val fq_val (G2_b G Z) = twist_b"
    unfolding G2_b_def twist_b_def by (rule f2_literal) (simp_all add: is_digit_def dec_val_def)
  then show "f2_good fq_good (G2_b G Z)" "f2_val fq_val (G2_b G Z) = twist_b" by simp_all
qed

lemma twist_smooth: "smooth 0 twist_b" "twist_b \<noteq> 0" "(2 :: fq2) \<noteq> 0"
proof -
  show b: "twist_b \<noteq> 0"
    by (simp add: twist_b_def fq2_int_def fq2_eq_iff of_fq_eq_0_iff fq_prime_def zdvd_not_zless)
  show "(2 :: fq2) \<noteq> 0" using fq_small_numerals by (simp add: fq2_eq_iff)
  have "(3 :: fq2) \<noteq> 0" using fq_small_numerals by (simp add: fq2_eq_iff)
  then show "smooth 0 twist_b" using b by (auto simp: smooth_def)
qed

lemma curve_field_g2: "curve_field (G2_ops G Z) (f2_good fq_good) (f2_val fq_val) (G2_a G Z) (G2_b G Z)"
proof -
  have "base_field (G2_ops G Z) (f2_good fq_good) (f2_val fq_val)"
    using f2_class.base_field_f2 [OF tower.axioms(1) [OF tower_fq]] by (simp add: Engine_f2_def)
  then show ?thesis
    unfolding curve_field_def curve_field_axioms_def
    using twist_coefficients twist_smooth by simp
qed

end

lemma G2_field: "gmp_mpn G \<Longrightarrow> gmp_mpz Z \<Longrightarrow>
    curve_field (G2_ops G Z) (f2_good fq_good) (f2_val fq_val) (G2_a G Z) (G2_b G Z)"
  by (rule raw_fq.curve_field_g2 [OF raw_fqI])

interpretation g2: curve_field "G2_ops gmp_ref mpz_ref" "f2_good fq_good" "f2_val fq_val"
  "G2_a gmp_ref mpz_ref" "G2_b gmp_ref mpz_ref" "G2_gx gmp_ref mpz_ref" "G2_gy gmp_ref mpz_ref"
  by (rule rfq.curve_field_g2)

sublocale raw_fq \<subseteq> c1: curve_field "RawFq_ops G Z" fq_good fq_val
  "Fq_fromString G Z ''0''" "Fq_fromString G Z ''3''" "Fq_fromString G Z ''1''" "Fq_fromString G Z ''2''"
  by (rule curve_field_g1)

sublocale raw_fq \<subseteq> c2: curve_field "G2_ops G Z" "f2_good fq_good" "f2_val fq_val" "G2_a G Z" "G2_b G Z" "G2_gx G Z" "G2_gy G Z"
  by (rule curve_field_g2)

section \<open>The engine is constructed\<close>

definition engine_ok :: "gmp \<Rightarrow> mpz_lib \<Rightarrow> engine \<Rightarrow> bool" where
  "engine_ok G Z E \<longleftrightarrow> en_f1 E = RawFq_inv_ops G Z \<and> en_f2 E = Engine_f2 G Z
     \<and> tower.ok6 (RawFq_inv_ops G Z) fq_good fq_val (Fq_fromString G Z) (en_f6 E)
     \<and> tower.ok12 (RawFq_inv_ops G Z) fq_good fq_val (Fq_fromString G Z) (en_f12 E)
     \<and> en_fr E = RawFr_ops G Z \<and> en_g1 E = G1_curve G Z
     \<and> en_g2 E = initCurve (G2_ops G Z) (G2_a G Z) (G2_b G Z) (G2_gx G Z) (G2_gy G Z)"

lemma Engine_new_ok:
  assumes "gmp_mpn G" "gmp_mpz Z"
  shows "\<exists>E. Engine_new G Z = Some (Ok E) \<and> engine_ok G Z E"
proof -
  note T = G1_tower [OF assms]
  obtain Y6 where Y6: "F6_new (RawFq_inv_ops G Z) (Fq_fromString G Z) = Some (Ok Y6)"
    "tower.ok6 (RawFq_inv_ops G Z) fq_good fq_val (Fq_fromString G Z) Y6"
    using tower.F6_new_ok [OF T] by blast
  obtain Y12 where Y12: "F12_new (RawFq_inv_ops G Z) (Fq_fromString G Z) = Some (Ok Y12)"
    "tower.ok12 (RawFq_inv_ops G Z) fq_good fq_val (Fq_fromString G Z) Y12"
    using tower.F12_new_ok [OF T] by blast
  show ?thesis
    unfolding Engine_new_def Let_def Y6(1) Y12(1) G2_curve_value
    using Y6(2) Y12(2) by (simp add: engine_ok_def Engine_f2_def F2_new_def)
qed

definition engine_ref :: engine where
  "engine_ref = (case Engine_new gmp_ref mpz_ref of Some (Ok E) \<Rightarrow> E | _ \<Rightarrow> undefined)"

lemma engine_ref_ok: "engine_ok gmp_ref mpz_ref engine_ref"
  using Engine_new_ok [OF gref.gmp_mpn_axioms zref.gmp_mpz_axioms] by (auto simp: engine_ref_def)

locale engine_class = raw_fq G Z for G Z +
  fixes E :: engine
  assumes engine: "engine_ok G Z E"
begin

lemma engine_fields: "en_f1 E = RawFq_inv_ops G Z" "en_f2 E = Engine_f2 G Z" "en_fr E = RawFr_ops G Z" "en_g1 E = G1_curve G Z"
    "en_g2 E = c2.C" "tow.ok6 (en_f6 E)" "tow.ok12 (en_f12 E)"
  using engine by (simp_all add: engine_ok_def)

lemma G1_C: "G1_curve G Z = c1.C"
  by (simp add: G1_curve_def Curve_new_def)

lemma f2_X: "Engine_f2 G Z = tow.X"
  by (simp add: Engine_f2_def)

end

interpretation eref: engine_class gmp_ref mpz_ref engine_ref
  by unfold_locales (rule engine_ref_ok)

end
