(* ===== verification/Verifier.thy ===== *)
theory Verifier
  imports Engine
begin

text \<open>
  The Groth16 verifier (class \<open>Verifier\<close> of \<open>src/groth16.cpp\<close>, \<open>groth16.hpp\<close>): the line
  functions of the pairing, the Miller loop, the final exponentiation, the product of four
  pairings and the check of a proof against a verification key.

  The line functions work on a point \<open>r\<close> in Jacobian coordinates that they keep in the fields of
  an extended point: \<open>zz\<close> holds \<open>Z\<close> and \<open>zzz\<close> holds \<open>Z\<^sup>2\<close>. Their outputs \<open>a\<close>, \<open>b\<close>, \<open>c\<close>, \<open>rOut\<close>
  are different objects from their inputs in every call, so they are functions that return the
  four. An object of the class \<open>Point\<close> that the curve operations write is an object of a point
  store, as in the curve class.
\<close>

section \<open>Proofs, keys and the verifier object\<close>

record groth16_proof =
  pr_A :: "limbs point_affine"
  pr_B :: "limbs f2 point_affine"
  pr_C :: "limbs point_affine"

record verification_key =
  vk_Alpha :: "limbs point_affine"
  vk_Beta :: "limbs f2 point_affine"
  vk_Gamma :: "limbs f2 point_affine"
  vk_Delta :: "limbs f2 point_affine"
  vk_IC :: "limbs point_affine list"

record verifier =
  v_xiToPMinus1Over3 :: "limbs f2"
  v_xiToPMinus1Over2 :: "limbs f2"
  v_xiToPSquaredMinus1Over3 :: limbs

definition Verifier_new :: "gmp \<Rightarrow> mpz_lib \<Rightarrow> verifier outcome option" where
  "Verifier_new G Z =
     bind_oo (F2_fromString (Fq_fromString G Z)
       ''21575463638280843010398324269430826099269044274347216827212613867836435027261,10307601595873709700152284273816112264069230130616436755625194854815875713954'') (\<lambda>c1.
     bind_oo (F2_fromString (Fq_fromString G Z)
       ''2821565182194536844548159561693502659359617185244120367078079554186484126554,3505843767911556378687030309984248845540243509899259641013678093033130930403'') (\<lambda>c2.
     Some (Ok
       \<lparr>v_xiToPMinus1Over3 = c1, v_xiToPMinus1Over2 = c2,
        v_xiToPSquaredMinus1Over3 = Fq_fromString G Z ''21888242871839275220042445260109153167277707414472061641714758635765020556616''\<rparr>)))"

abbreviation G1F :: "engine \<Rightarrow> limbs base_ops" where
  "G1F E \<equiv> base_ops.truncate (en_f1 E)"

abbreviation G2F :: "engine \<Rightarrow> limbs f2 base_ops" where
  "G2F E \<equiv> F2_ops (en_f2 E)"

section \<open>Line functions\<close>

type_synonym line_out = "limbs f2 \<times> limbs f2 \<times> limbs f2 \<times> limbs f2 point"

definition lineFunctionAdd :: "engine \<Rightarrow> limbs f2 point \<Rightarrow> limbs f2 point_affine \<Rightarrow> limbs point_affine \<Rightarrow> limbs f2 \<Rightarrow> line_out" where
  "lineFunctionAdd E r p q r2 =
     (let F = en_f2 E;
          B = F2_mul F (ax p) (pzzz r);
          D = F2_add F (ay p) (pzz r);
          D = F2_square F D;
          D = F2_sub F D r2;
          D = F2_sub F D (pzzz r);
          D = F2_mul F D (pzzz r);
          H = F2_sub F B (px r);
          I = F2_square F H;
          E1 = F2_add F I I;
          E1 = F2_add F E1 E1;
          J = F2_mul F H E1;
          L1 = F2_sub F D (py r);
          L1 = F2_sub F L1 (py r);
          V = F2_mul F (px r) E1;
          x = F2_square F L1;
          x = F2_sub F x J;
          x = F2_sub F x V;
          x = F2_sub F x V;
          zz = F2_add F (pzz r) H;
          zz = F2_square F zz;
          zz = F2_sub F zz (pzzz r);
          zz = F2_sub F zz I;
          t = F2_sub F V x;
          t = F2_mul F t L1;
          t2 = F2_mul F (py r) J;
          t2 = F2_add F t2 t2;
          y = F2_sub F t t2;
          zzz = F2_square F zz;
          t = F2_add F (ay p) zz;
          t = F2_square F t;
          t = F2_sub F t r2;
          t = F2_sub F t zzz;
          t2 = F2_mul F L1 (ax p);
          t2 = F2_add F t2 t2;
          a = F2_sub F t2 t;
          c = F2_mulScalar F zz (ay q);
          c = F2_add F c c;
          b = f2_fZero F;
          b = F2_sub F b L1;
          b = F2_mulScalar F b (ax q);
          b = F2_add F b b
      in (a, b, c, \<lparr>px = x, py = y, pzz = zz, pzzz = zzz\<rparr>))"

definition lineFunctionDouble :: "engine \<Rightarrow> limbs f2 point \<Rightarrow> limbs point_affine \<Rightarrow> line_out" where
  "lineFunctionDouble E r q =
     (let F = en_f2 E;
          A = F2_square F (px r);
          B = F2_square F (py r);
          Cv = F2_square F B;
          D = F2_add F (px r) B;
          D = F2_square F D;
          D = F2_sub F D A;
          D = F2_sub F D Cv;
          D = F2_add F D D;
          E1 = F2_add F A A;
          E1 = F2_add F E1 A;
          Gv = F2_square F E1;
          x = F2_sub F Gv D;
          x = F2_sub F x D;
          zz = F2_add F (py r) (pzz r);
          zz = F2_square F zz;
          zz = F2_sub F zz B;
          zz = F2_sub F zz (pzzz r);
          y = F2_sub F D x;
          y = F2_mul F y E1;
          t = F2_add F Cv Cv;
          t = F2_add F t t;
          t = F2_add F t t;
          y = F2_sub F y t;
          zzz = F2_square F zz;
          t = F2_mul F E1 (pzzz r);
          t = F2_add F t t;
          b = f2_fZero F;
          b = F2_sub F b t;
          b = F2_mulScalar F b (ax q);
          a = F2_add F (px r) E1;
          a = F2_square F a;
          a = F2_sub F a A;
          a = F2_sub F a Gv;
          t = F2_add F B B;
          t = F2_add F t t;
          a = F2_sub F a t;
          c = F2_mul F zz (pzzz r);
          c = F2_add F c c;
          c = F2_mulScalar F c (ay q)
      in (a, b, c, \<lparr>px = x, py = y, pzz = zz, pzzz = zzz\<rparr>))"

definition mulLine :: "engine \<Rightarrow> limbs f12 \<Rightarrow> limbs f2 \<Rightarrow> limbs f2 \<Rightarrow> limbs f2 \<Rightarrow> limbs f12" where
  "mulLine E ret a b c =
     (let F = en_f2 E;
          F6 = en_f6 E;
          a2 = \<lparr>f6_x = f2_fZero F, f6_y = a, f6_z = b\<rparr>;
          a2 = F6_mul F6 a2 (f12_x ret);
          t3 = F6_mulScalar F6 (f12_y ret) c;
          t = F2_add F b c;
          t2 = \<lparr>f6_x = f2_fZero F, f6_y = a, f6_z = t\<rparr>;
          x = F6_add F6 (f12_x ret) (f12_y ret);
          y = t3;
          x = F6_mul F6 x t2;
          x = F6_sub F6 x a2;
          x = F6_sub F6 x y;
          a2 = F6_mulTau F6 a2;
          y = F6_add F6 y a2
      in \<lparr>f12_x = x, f12_y = y\<rparr>)"

section \<open>The Miller loop\<close>

definition sixuPlus2NAF :: "int list" where
  "sixuPlus2NAF = [0, 0, 0, 1, 0, 1, 0, -1, 0, 0, 1, -1, 0, 0, 1, 0,
                   0, 1, 1, 0, -1, 0, 0, 1, 0, -1, 0, 0, 0, 0, 1, 1,
                   1, 0, 0, -1, 0, 0, 1, 0, 0, 0, 0, 0, -1, 0, 0, 1,
                   1, 0, 0, -1, 0, 0, 0, 1, 1, 0, -1, 0, 0, 1, 0, 1, 1]"

definition miller_add :: "engine \<Rightarrow> limbs f2 point_affine \<Rightarrow> limbs point_affine \<Rightarrow> limbs f2
    \<Rightarrow> limbs f12 \<times> limbs f2 point \<Rightarrow> limbs f12 \<times> limbs f2 point" where
  "miller_add E p bAffine r2 st =
     (case st of (ret, r) \<Rightarrow>
        let (a, b, c, newR) = lineFunctionAdd E r p bAffine r2
        in (mulLine E ret a b c, newR))"

text \<open>One round of the loop with the loop variable \<open>i\<close>; \<open>first\<close> is \<open>i == count\<close>.\<close>

definition miller_round :: "engine \<Rightarrow> limbs f2 point_affine \<Rightarrow> limbs f2 point_affine \<Rightarrow> limbs point_affine \<Rightarrow> limbs f2
    \<Rightarrow> bool \<Rightarrow> int \<Rightarrow> limbs f12 \<times> limbs f2 point \<Rightarrow> limbs f12 \<times> limbs f2 point" where
  "miller_round E aAffine minusA bAffine r2 first d st =
     (case st of (ret, r) \<Rightarrow>
        let (a, b, c, newR) = lineFunctionDouble E r bAffine;
            ret = (if \<not> first then F12_square (en_f12 E) ret else ret);
            ret = mulLine E ret a b c;
            r = newR
        in if d = 1 then miller_add E aAffine bAffine r2 (ret, r)
           else if d = - 1 then miller_add E minusA bAffine r2 (ret, r)
           else (ret, r))"

primrec miller_loop :: "engine \<Rightarrow> limbs f2 point_affine \<Rightarrow> limbs f2 point_affine \<Rightarrow> limbs point_affine \<Rightarrow> limbs f2
    \<Rightarrow> nat \<Rightarrow> nat \<Rightarrow> limbs f12 \<times> limbs f2 point \<Rightarrow> limbs f12 \<times> limbs f2 point" where
  "miller_loop E aAffine minusA bAffine r2 count 0 st = st"
| "miller_loop E aAffine minusA bAffine r2 count (Suc i) st =
     miller_loop E aAffine minusA bAffine r2 count i
       (miller_round E aAffine minusA bAffine r2 (Suc i = count) (sixuPlus2NAF ! i) st)"

definition miller :: "engine \<Rightarrow> verifier \<Rightarrow> limbs f2 point \<Rightarrow> limbs point \<Rightarrow> limbs f12" where
  "miller E V q p =
     (let F = en_f2 E;
          ret = f12_fOne (en_f12 E);
          aAffine = copy_ap (G2F E) q;
          bAffine = copy_ap (G1F E) p;
          minusA = neg_aa (G2F E) aAffine;
          r = copy_pa (G2F E) (PVar 0) aAffine (\<lambda>_. fzero (en_g2 E)) (PVar 0);
          r2 = F2_square F (ay aAffine);
          count = length sixuPlus2NAF - 1;
          (ret, r) = miller_loop E aAffine minusA bAffine r2 count count (ret, r);
          q1x = F2_conjugate F (ax aAffine);
          q1x = F2_mul F q1x (v_xiToPMinus1Over3 V);
          q1y = F2_conjugate F (ay aAffine);
          q1y = F2_mul F q1y (v_xiToPMinus1Over2 V);
          q1 = \<lparr>px = q1x, py = q1y, pzz = f2_fOne F, pzzz = f2_fOne F\<rparr>;
          minusQ2 = \<lparr>px = F2_mulScalar F (ax aAffine) (v_xiToPSquaredMinus1Over3 V), py = ay aAffine,
                     pzz = f2_fOne F, pzzz = f2_fOne F\<rparr>;
          r2 = F2_square F (py q1);
          q1Affine = copy_ap (G2F E) q1;
          (ret, r) = miller_add E q1Affine bAffine r2 (ret, r);
          minusQ2Affine = copy_ap (G2F E) minusQ2;
          r2 = F2_square F (py minusQ2);
          (ret, r) = miller_add E minusQ2Affine bAffine r2 (ret, r)
      in ret)"

section \<open>The final exponentiation\<close>

definition finalExponentiation :: "engine \<Rightarrow> limbs f12 \<Rightarrow> limbs f12" where
  "finalExponentiation E inp =
     (let F6 = en_f6 E;
          F12 = en_f12 E;
          u = le_bytes 8 4965661367192848881;
          t1 = \<lparr>f12_x = F6_neg F6 (f12_x inp), f12_y = f12_y inp\<rparr>;
          inv = F12_inv F12 inp;
          t1 = F12_mul F12 t1 inv;
          t2 = F12_FrobeniusP2 F12 t1;
          t1 = F12_mul F12 t1 t2;
          fp = F12_Frobenius F12 t1;
          fp2 = F12_FrobeniusP2 F12 t1;
          fp3 = F12_Frobenius F12 fp2;
          fu = F12_exp F12 t1 u 8;
          fu2 = F12_exp F12 fu u 8;
          fu3 = F12_exp F12 fu2 u 8;
          y3 = F12_Frobenius F12 fu;
          fu2p = F12_Frobenius F12 fu2;
          fu3p = F12_Frobenius F12 fu3;
          y2 = F12_FrobeniusP2 F12 fu2;
          y0 = F12_mul F12 fp fp2;
          y0 = F12_mul F12 y0 fp3;
          y1 = F12_conjugate F12 t1;
          y5 = F12_conjugate F12 fu2;
          y3 = F12_conjugate F12 y3;
          y4 = F12_mul F12 fu fu2p;
          y4 = F12_conjugate F12 y4;
          y6 = F12_mul F12 fu3 fu3p;
          y6 = F12_conjugate F12 y6;
          t0 = F12_square F12 y6;
          t0 = F12_mul F12 t0 y4;
          t0 = F12_mul F12 t0 y5;
          t1 = F12_mul F12 y3 y5;
          t1 = F12_mul F12 t1 t0;
          t0 = F12_mul F12 t0 y2;
          t1 = F12_square F12 t1;
          t1 = F12_mul F12 t1 t0;
          t1 = F12_square F12 t1;
          t0 = F12_mul F12 t1 y1;
          t1 = F12_mul F12 t1 y0;
          t0 = F12_square F12 t0
      in F12_mul F12 t0 t1)"

section \<open>The check\<close>

definition pairing_step :: "engine \<Rightarrow> verifier \<Rightarrow> limbs point \<times> limbs f2 point \<Rightarrow> limbs f12 \<Rightarrow> limbs f12" where
  "pairing_step E V ab acc =
     (if isZero_p (G1F E) (fst ab) \<or> isZero_p (G2F E) (snd ab) then acc
      else let millerRes = miller E V (snd ab) (fst ab)
           in F12_mul (en_f12 E) acc millerRes)"

definition pairingCheck :: "engine \<Rightarrow> verifier \<Rightarrow> limbs point list \<Rightarrow> limbs f2 point list \<Rightarrow> bool" where
  "pairingCheck E V a b =
     (let acc = fold (pairing_step E V) (zip a b) (f12_fOne (en_f12 E));
          ret = finalExponentiation E acc
      in F12_isOne (en_f12 E) ret)"

text \<open>The bytes of an element in memory.\<close>

definition elem_bytes :: "limbs \<Rightarrow> u8 list" where
  "elem_bytes x = concat (map (\<lambda>w. le_bytes 8 (unat w)) x)"

text \<open>\<open>PVar 0\<close> is \<open>vkX\<close>, \<open>PVar 1\<close> is the \<open>p1\<close> of the loop.\<close>

definition input_step :: "gmp \<Rightarrow> engine \<Rightarrow> verification_key \<Rightarrow> limbs list \<Rightarrow> nat \<Rightarrow> limbs pstore \<Rightarrow> limbs pstore" where
  "input_step G E key inputs i s =
     (let input = F_rawFromMontgomery Fr_field G (inputs ! i);
          s = mulByScalar_a (G1F E) (en_g1 E) (PVar 1) (vk_IC key ! (i + 1)) (elem_bytes input) 32 s
      in add_ppp (G1F E) (en_g1 E) (PVar 0) (PVar 0) (PVar 1) s)"

text \<open>The points that \<open>verify\<close> hands to the pairing check: variables 2 to 5 are \<open>pA\<close>,
  \<open>negAlpha\<close>, \<open>negvkX\<close>, \<open>negC\<close>; variables 0 to 3 of the second store are \<open>pB\<close>, \<open>pBeta\<close>,
  \<open>pGamma\<close>, \<open>pDelta\<close>.\<close>

definition verify :: "gmp \<Rightarrow> engine \<Rightarrow> verifier \<Rightarrow> groth16_proof \<Rightarrow> limbs list \<Rightarrow> verification_key \<Rightarrow> bool outcome" where
  "verify G E V proof inputs key =
     (if length inputs + 1 \<noteq> length (vk_IC key)
      then Throw (invalid_argument ''len(inputs)+1 != len(vk.IC)'')
      else
        let s = (\<lambda>_. fzero (en_g1 E));
            s = fold (input_step G E key inputs) [0..<length inputs] s;
            s = add_ppa (G1F E) (en_g1 E) (PVar 0) (PVar 0) (vk_IC key ! 0) s;
            s = copy_pa (G1F E) (PVar 2) (pr_A proof) s;
            s = neg_pa (G1F E) (PVar 3) (vk_Alpha key) s;
            s = neg_pp (G1F E) (PVar 4) (PVar 0) s;
            s = neg_pa (G1F E) (PVar 5) (pr_C proof) s;
            s2 = (\<lambda>_. fzero (en_g2 E));
            s2 = copy_pa (G2F E) (PVar 0) (pr_B proof) s2;
            s2 = copy_pa (G2F E) (PVar 1) (vk_Beta key) s2;
            s2 = copy_pa (G2F E) (PVar 2) (vk_Gamma key) s2;
            s2 = copy_pa (G2F E) (PVar 3) (vk_Delta key) s2;
            g1 = map s [PVar 2, PVar 3, PVar 4, PVar 5];
            g2 = map s2 [PVar 0, PVar 1, PVar 2, PVar 3]
        in Ok (pairingCheck E V g1 g2))"

end
