(* ===== verification/Prover.thy ===== *)
theory Prover
  imports Verifier
begin

text \<open>
  The Groth16 prover (class \<open>Prover\<close> of \<open>src/groth16.cpp\<close>, \<open>groth16.hpp\<close>): the object that the
  constructor builds from the sections of a key, and \<open>prove\<close>: five multi-scalar multiplications,
  the evaluation of the constraints, the six transforms on a coset and the blinded combination.

  The arrays are lists. Every parallel loop has its own schedule \<open>sch phase stage\<close>. The loop over
  the coefficients adds to shared entries, each addition under the lock of its entry: \<open>order\<close> is
  a function that gives the order in which the additions of a loop of \<open>n\<close> iterations happen. \<open>garbage\<close> and \<open>slots\<close> are what freshly allocated
  memory holds, \<open>rb\<close> and \<open>sb\<close> the random bytes. The calls of the logger are left out.
\<close>

section \<open>The prover object\<close>

record coef =
  c_m :: u32
  c_c :: u32
  c_s :: u32
  c_coef :: limbs

record prover =
  p_nVars :: u32
  p_nPublic :: u32
  p_domainSize :: u32
  p_nCoefs :: u64
  p_alpha1 :: "limbs point_affine"
  p_beta1 :: "limbs point_affine"
  p_beta2 :: "limbs f2 point_affine"
  p_delta1 :: "limbs point_affine"
  p_delta2 :: "limbs f2 point_affine"
  p_coefs :: "coef list"
  p_pointsA :: "limbs point_affine list"
  p_pointsB1 :: "limbs point_affine list"
  p_pointsB2 :: "limbs f2 point_affine list"
  p_pointsC :: "limbs point_affine list"
  p_pointsH :: "limbs point_affine list"
  p_fft :: "limbs fft_obj"

definition Prover_new :: "engine \<Rightarrow> mpz_lib \<Rightarrow> nat \<Rightarrow> nat list \<Rightarrow> (nat \<Rightarrow> limbs) \<Rightarrow> u32 \<Rightarrow> u32 \<Rightarrow> u32 \<Rightarrow> u64
    \<Rightarrow> limbs point_affine \<Rightarrow> limbs point_affine \<Rightarrow> limbs f2 point_affine \<Rightarrow> limbs point_affine \<Rightarrow> limbs f2 point_affine
    \<Rightarrow> coef list \<Rightarrow> limbs point_affine list \<Rightarrow> limbs point_affine list \<Rightarrow> limbs f2 point_affine list
    \<Rightarrow> limbs point_affine list \<Rightarrow> limbs point_affine list \<Rightarrow> prover outcome option" where
  "Prover_new E Z nThreads blocks garbage nVars nPublic domainSize nCoefs alpha1 beta1 beta2 delta1 delta2 coefs pA pB1 pB2 pC pH =
     bind_oo (FFT (en_fr E) Z nThreads blocks garbage (ucast (domainSize * 2))) (\<lambda>fft.
       Some (Ok
         \<lparr>p_nVars = nVars, p_nPublic = nPublic, p_domainSize = domainSize, p_nCoefs = nCoefs,
          p_alpha1 = alpha1, p_beta1 = beta1, p_beta2 = beta2, p_delta1 = delta1, p_delta2 = delta2,
          p_coefs = coefs, p_pointsA = pA, p_pointsB1 = pB1, p_pointsB2 = pB2, p_pointsC = pC, p_pointsH = pH,
          p_fft = fft\<rparr>))"

section \<open>The evaluation of the constraints\<close>

text \<open>The loops over the domain have an index of 32 bits when they clear the arrays.\<close>

definition clear_entry :: "limbs fft_ops \<Rightarrow> u64 \<Rightarrow> limbs list \<times> limbs list \<Rightarrow> limbs list \<times> limbs list" where
  "clear_entry F i ab =
     (let i = unat (ucast i :: u32)
      in ((fst ab)[i := f_zero F], (snd ab)[i := f_zero F]))"

definition coef_step :: "limbs fft_ops \<Rightarrow> coef list \<Rightarrow> limbs list \<Rightarrow> nat \<Rightarrow> limbs list \<times> limbs list \<Rightarrow> limbs list \<times> limbs list" where
  "coef_step F coefs wtns i ab =
     (let cf = coefs ! i;
          aux = f_mul F (wtns ! unat (c_s cf)) (c_coef cf);
          c = unat (c_c cf)
      in if c_m cf = 0 then ((fst ab)[c := f_add F (fst ab ! c) aux], snd ab)
         else (fst ab, (snd ab)[c := f_add F (snd ab ! c) aux]))"

definition mul_entry :: "limbs fft_ops \<Rightarrow> limbs list \<Rightarrow> limbs list \<Rightarrow> u64 \<Rightarrow> limbs list \<Rightarrow> limbs list" where
  "mul_entry F a b i c = c[unat i := f_mul F (a ! unat i) (b ! unat i)]"

definition shift_entry :: "limbs fft_ops \<Rightarrow> limbs fft_obj \<Rightarrow> u32 \<Rightarrow> u64 \<Rightarrow> limbs list \<Rightarrow> limbs list" where
  "shift_entry F T domainPower i a = a[unat i := f_mul F (a ! unat i) (root T (domainPower + 1) i)]"

text \<open>The inverse transform, the shift to the coset and the transform, done in turn for \<open>a\<close>, \<open>b\<close>, \<open>c\<close>.\<close>

definition to_coset :: "limbs fft_ops \<Rightarrow> limbs fft_obj \<Rightarrow> nat \<Rightarrow> (nat \<Rightarrow> nat \<Rightarrow> nat \<Rightarrow> (nat \<times> nat) list) \<Rightarrow> nat \<Rightarrow> u32 \<Rightarrow> u64
    \<Rightarrow> limbs list \<Rightarrow> limbs list option" where
  "to_coset F T nThreads sch phase domainPower n a =
     Option.bind (ifft F T nThreads (sch phase) (sch (phase + 1) 0) a n) (\<lambda>a.
       let a = parallelFor nThreads (sch (phase + 2) 0) 0 (as_int n) (for_part (shift_entry F T domainPower)) a
       in fft F T nThreads (sch (phase + 3)) a n)"

definition abc_entry :: "gmp \<Rightarrow> limbs fft_ops \<Rightarrow> limbs list \<Rightarrow> limbs list \<Rightarrow> u64 \<Rightarrow> limbs list \<Rightarrow> limbs list" where
  "abc_entry G F b c i a =
     (let i = unat i;
          a = a[i := f_mul F (a ! i) (b ! i)];
          a = a[i := f_sub F (a ! i) (c ! i)]
      in a[i := F_rawFromMontgomery Fr_field G (a ! i)])"

definition constraint_values :: "gmp \<Rightarrow> limbs fft_ops \<Rightarrow> nat \<Rightarrow> (nat \<Rightarrow> nat \<Rightarrow> nat \<Rightarrow> (nat \<times> nat) list) \<Rightarrow> (nat \<Rightarrow> nat list) \<Rightarrow> (nat \<Rightarrow> limbs)
    \<Rightarrow> prover \<Rightarrow> limbs list \<Rightarrow> limbs list option" where
  "constraint_values G F nThreads sch order garbage P wtns =
     (let n = ucast (p_domainSize P) :: u64;
          T = p_fft P;
          new = map garbage [0..<unat n];
          (a, b) = parallelFor nThreads (sch 4 0) 0 (as_int n) (for_part (clear_entry F)) (new, new);
          (a, b) = fold (coef_step F (p_coefs P) wtns) (order (nat (as_int (p_nCoefs P)))) (a, b);
          c = parallelFor nThreads (sch 5 0) 0 (as_int n) (for_part (mul_entry F a b)) new
      in Option.bind (log2 n) (\<lambda>domainPower.
         Option.bind (to_coset F T nThreads sch 6 domainPower n a) (\<lambda>a.
         Option.bind (to_coset F T nThreads sch 10 domainPower n b) (\<lambda>b.
         Option.bind (to_coset F T nThreads sch 14 domainPower n c) (\<lambda>c.
         Some (parallelFor nThreads (sch 18 0) 0 (as_int n) (for_part (abc_entry G F b c)) a))))))"

section \<open>The proof\<close>

definition fill_random :: "limbs \<Rightarrow> u8 list \<Rightarrow> limbs" where
  "fill_random e bs =
     (let bytes = bs @ drop (length bs) (elem_bytes e)
      in map (\<lambda>i. of_nat (le_val (take 8 (drop (8 * i) bytes)))) [0..<length e])"

text \<open>The result of a multi-scalar multiplication, a local variable of its own.\<close>

definition multiexp :: "'e base_ops \<Rightarrow> 'e curve \<Rightarrow> nat \<Rightarrow> (nat \<Rightarrow> (nat \<times> nat) list) \<Rightarrow> (nat \<Rightarrow> int) \<Rightarrow> 'e point_affine list \<Rightarrow> u8 list
    \<Rightarrow> u64 \<Rightarrow> 'e point" where
  "multiexp F C nThreads sched slots bases scalars n =
     MSM_run F C nThreads sched slots (PVar 0) bases scalars 32 n (\<lambda>_. fzero C) (PVar 0)"

text \<open>The final combination in \<open>G1\<close>: the variables 0 to 4 are \<open>pi_a\<close>, \<open>pib1\<close>, \<open>pi_c\<close>, \<open>pih\<close> and \<open>p1\<close>.\<close>

definition combine_g1 :: "limbs base_ops \<Rightarrow> limbs curve \<Rightarrow> prover \<Rightarrow> limbs \<Rightarrow> limbs \<Rightarrow> limbs \<Rightarrow> limbs pstore \<Rightarrow> limbs pstore" where
  "combine_g1 F C P r s rs st =
     (let st = add_ppa F C (PVar 0) (PVar 0) (p_alpha1 P) st;
          st = mulByScalar_a F C (PVar 4) (p_delta1 P) (elem_bytes r) 32 st;
          st = add_ppp F C (PVar 0) (PVar 0) (PVar 4) st;
          st = add_ppa F C (PVar 1) (PVar 1) (p_beta1 P) st;
          st = mulByScalar_a F C (PVar 4) (p_delta1 P) (elem_bytes s) 32 st;
          st = add_ppp F C (PVar 1) (PVar 1) (PVar 4) st;
          st = add_ppp F C (PVar 2) (PVar 2) (PVar 3) st;
          st = mulByScalar_p F C (PVar 4) (PVar 0) (elem_bytes s) 32 st;
          st = add_ppp F C (PVar 2) (PVar 2) (PVar 4) st;
          st = mulByScalar_p F C (PVar 4) (PVar 1) (elem_bytes r) 32 st;
          st = add_ppp F C (PVar 2) (PVar 2) (PVar 4) st;
          st = mulByScalar_a F C (PVar 4) (p_delta1 P) (elem_bytes rs) 32 st
      in sub_ppp F C (PVar 2) (PVar 2) (PVar 4) st)"

text \<open>The combination in \<open>G2\<close>: the variables 0 and 1 are \<open>pi_b\<close> and \<open>p2\<close>.\<close>

definition combine_g2 :: "limbs f2 base_ops \<Rightarrow> limbs f2 curve \<Rightarrow> prover \<Rightarrow> limbs \<Rightarrow> limbs f2 pstore \<Rightarrow> limbs f2 pstore" where
  "combine_g2 F C P s st =
     (let st = add_ppa F C (PVar 0) (PVar 0) (p_beta2 P) st;
          st = mulByScalar_a F C (PVar 1) (p_delta2 P) (elem_bytes s) 32 st
      in add_ppp F C (PVar 0) (PVar 0) (PVar 1) st)"

definition prove :: "gmp \<Rightarrow> engine \<Rightarrow> nat \<Rightarrow> (nat \<Rightarrow> nat \<Rightarrow> nat \<Rightarrow> (nat \<times> nat) list) \<Rightarrow> (nat \<Rightarrow> nat list) \<Rightarrow> (nat \<Rightarrow> limbs) \<Rightarrow> (nat \<Rightarrow> int)
    \<Rightarrow> u8 list \<Rightarrow> u8 list \<Rightarrow> prover \<Rightarrow> limbs list \<Rightarrow> groth16_proof option" where
  "prove G E nThreads sch order garbage slots rb sb P wtns =
     (let sW = 32 :: u32;
          bytes = concat (map elem_bytes wtns);
          F = en_fr E;
          nVars = ucast (p_nVars P) :: u64;
          pi_a = multiexp (G1F E) (en_g1 E) nThreads (sch 0 0) slots (p_pointsA P) bytes nVars;
          pib1 = multiexp (G1F E) (en_g1 E) nThreads (sch 1 0) slots (p_pointsB1 P) bytes nVars;
          pi_b = multiexp (G2F E) (en_g2 E) nThreads (sch 2 0) slots (p_pointsB2 P) bytes nVars;
          pi_c = multiexp (G1F E) (en_g1 E) nThreads (sch 3 0) slots (p_pointsC P)
            (drop (unat ((p_nPublic P + 1) * sW)) bytes) (ucast (p_nVars P - p_nPublic P - 1))
      in Option.bind (constraint_values G F nThreads sch order garbage P wtns) (\<lambda>a.
         let pih = multiexp (G1F E) (en_g1 E) nThreads (sch 19 0) slots (p_pointsH P) (concat (map elem_bytes a))
               (ucast (p_domainSize P));
             r = fill_random (f_zero F) rb;
             s = fill_random (f_zero F) sb;
             rs = f_mul F r s;
             rs = F_rawToMontgomery Fr_field G rs;
             st = (\<lambda>_. fzero (en_g1 E))(PVar 0 := pi_a, PVar 1 := pib1, PVar 2 := pi_c, PVar 3 := pih);
             st = combine_g1 (G1F E) (en_g1 E) P r s rs st;
             st2 = combine_g2 (G2F E) (en_g2 E) P s ((\<lambda>_. fzero (en_g2 E))(PVar 0 := pi_b))
         in Some \<lparr>pr_A = copy_ap (G1F E) (st (PVar 0)), pr_B = copy_ap (G2F E) (st2 (PVar 0)), pr_C = copy_ap (G1F E) (st (PVar 2))\<rparr>))"

end
