(* ===== verification/ProverConstraints.thy ===== *)
theory ProverConstraints
  imports Prover FrFft "HOL-Library.Multiset"
begin

text \<open>
  The values that the prover computes from the constraints: the rows of the two matrices applied
  to the witness, their products, and the values of \<open>A B - C\<close> on the coset, for any schedule of the
  loops and any order of the guarded additions.
\<close>

section \<open>Loops over an array\<close>

lemma parallelFor_map:
  assumes sched: "\<And>n. schedule nThreads n (sched n)" "0 < nThreads" and n: "unat n = N" "N < 2 ^ 31" "length a = N"
    and body: "\<And>i b. i < N \<Longrightarrow> length b = N \<Longrightarrow> b ! i = a ! i \<Longrightarrow> body (of_nat i) b = b[i := g i]"
  shows "length (parallelFor nThreads sched 0 (as_int n) (for_part body) a) = N
    \<and> (\<forall>x < N. parallelFor nThreads sched 0 (as_int n) (for_part body) a ! x = g x)"
proof -
  have e: "as_int n = int N" using as_int_small [of n] n by simp
  have "length (parallelFor nThreads sched 0 (int N) (for_part body) a) = length a
    \<and> (\<forall>x < length a. parallelFor nThreads sched 0 (int N) (for_part body) a ! x
        = (if x \<in> \<Union>((\<lambda>i. {nat i}) ` {0..<int N}) then g x else a ! x))"
  proof (rule parallelFor_array [OF sched])
    fix i b assume i: "i \<in> {0..<int N}" and b: "length b = length a" "\<forall>x \<in> {nat i}. b ! x = a ! x"
    then have "nat i < N" by auto
    moreover have "word_of_int i = (of_nat (nat i) :: u64)" using i by simp
    ultimately have "body (word_of_int i) b = b[nat i := g (nat i)]" using body [of "nat i" b] b n(3) by simp
    then show "length (body (word_of_int i) b) = length a
        \<and> (\<forall>x < length a. body (word_of_int i) b ! x = (if x \<in> {nat i} then g x else b ! x))"
      using b by (simp add: nth_list_update)
  qed (auto simp: n(3))
  moreover have "x \<in> \<Union>((\<lambda>i. {nat i}) ` {0..<int N})" if "x < N" for x
    using that by (auto intro!: bexI [of _ "int x"])
  ultimately show ?thesis unfolding e n(3) by auto
qed

lemma unat_index: "i < N \<Longrightarrow> N < 2 ^ 31 \<Longrightarrow> unat (of_nat i :: u64) = i"
  using word_index [of "int i"] by simp

section \<open>Clearing the arrays\<close>

lemma clear_part:
  assumes "{b..<e} \<subseteq> {0..<int N}" "N < 2 ^ 31" "length (fst ab) = N" "length (snd ab) = N"
    and "\<forall>i \<in> E. fst ab ! nat i = f_zero F \<and> snd ab ! nat i = f_zero F"
  shows "length (fst (for_part (clear_entry F) b e t ab)) = N \<and> length (snd (for_part (clear_entry F) b e t ab)) = N
    \<and> (\<forall>i \<in> E \<union> {b..<e}. fst (for_part (clear_entry F) b e t ab) ! nat i = f_zero F \<and> snd (for_part (clear_entry F) b e t ab) ! nat i = f_zero F)"
proof -
  let ?Q = "\<lambda>D ab. length (fst ab) = N \<and> length (snd ab) = N \<and> (\<forall>i \<in> E \<union> D. fst ab ! nat i = f_zero F \<and> snd ab ! nat i = f_zero F)"
  have step: "?Q (insert i D) (clear_entry F (word_of_int i) ab)" if "i \<in> {b..<e}" "?Q D ab" for i D ab
  proof -
    have i: "0 \<le> i" "nat i < N" using that(1) assms(1) by auto
    then have "unat (ucast (word_of_int i :: u64) :: u32) = nat i"
      using assms(2) by (simp add: unsigned_ucast_eq unsigned_of_int take_bit_int_eq_self nat_less_iff)
    then show ?thesis using that(2) i by (auto simp: clear_entry_def Let_def nth_list_update)
  qed
  have "?Q ({} \<union> set [b..e - 1]) (fold (\<lambda>i. clear_entry F (word_of_int i)) [b..e - 1] ab)"
    by (rule fold_set_rule [where Q = "\<lambda>D a. ?Q D a"]) (use step assms in auto)
  moreover have "set [b..e - 1] = {b..<e}" by auto
  ultimately show ?thesis by (simp add: for_part_def)
qed

lemma clear_loop:
  assumes sched: "\<And>n. schedule nThreads n (sched n)" "0 < nThreads" and n: "unat n = N" "N < 2 ^ 31" "length a = N" "length b = N"
  shows "parallelFor nThreads sched 0 (as_int n) (for_part (clear_entry F)) (a, b) = (replicate N (f_zero F), replicate N (f_zero F))"
proof -
  have e: "as_int n = int N" using as_int_small [of n] n by simp
  let ?r = "parallelFor nThreads sched 0 (int N) (for_part (clear_entry F)) (a, b)"
  have "length (fst ?r) = N \<and> length (snd ?r) = N \<and> (\<forall>i \<in> {0..<int N}. fst ?r ! nat i = f_zero F \<and> snd ?r ! nat i = f_zero F)"
  proof (rule parallelFor_rule [OF sched, where Q = "\<lambda>E ab. length (fst ab) = N \<and> length (snd ab) = N
        \<and> (\<forall>i \<in> E. fst ab ! nat i = f_zero F \<and> snd ab ! nat i = f_zero F)"])
    fix E b e t ab
    assume "length (fst ab) = N \<and> length (snd ab) = N \<and> (\<forall>i \<in> E. fst ab ! nat i = f_zero F \<and> snd ab ! nat i = f_zero F)"
      "{b..<e} \<subseteq> {0..<int N}"
    then show "length (fst (for_part (clear_entry F) b e t ab)) = N \<and> length (snd (for_part (clear_entry F) b e t ab)) = N
        \<and> (\<forall>i \<in> E \<union> {b..<e}. fst (for_part (clear_entry F) b e t ab) ! nat i = f_zero F
          \<and> snd (for_part (clear_entry F) b e t ab) ! nat i = f_zero F)"
      using clear_part [OF _ n(2)] by blast
  qed (use n in simp_all)
  then have r: "length (fst ?r) = N" "length (snd ?r) = N" "\<And>i. i < N \<Longrightarrow> fst ?r ! i = f_zero F \<and> snd ?r ! i = f_zero F"
    by (auto dest: bspec [where x = "int i" for i])
  have "fst ?r = replicate N (f_zero F)" "snd ?r = replicate N (f_zero F)" by (rule nth_equalityI; simp add: r)+
  then show ?thesis unfolding e by (metis prod.collapse)
qed

section \<open>What the values are\<close>

text \<open>The term that a coefficient contributes to the row \<open>j\<close> of the first or the second matrix.\<close>

definition coef_term :: "coef list \<Rightarrow> limbs list \<Rightarrow> bool \<Rightarrow> nat \<Rightarrow> nat \<Rightarrow> fr" where
  "coef_term coefs wtns first j i =
     (if (c_m (coefs ! i) = 0 \<longleftrightarrow> first) \<and> unat (c_c (coefs ! i)) = j
      then fr_val (wtns ! unat (c_s (coefs ! i))) * fr_val (c_coef (coefs ! i)) else 0)"

text \<open>The values at the points of the domain of a polynomial, and its values on the coset.\<close>

definition on_domain :: "fr \<Rightarrow> nat \<Rightarrow> (nat \<Rightarrow> fr) \<Rightarrow> nat \<Rightarrow> fr" where
  "on_domain w N p i = (\<Sum>j < N. p j * (w ^ i) ^ j)"

definition on_coset :: "fr \<Rightarrow> fr \<Rightarrow> nat \<Rightarrow> (nat \<Rightarrow> fr) \<Rightarrow> nat \<Rightarrow> fr" where
  "on_coset v w N p i = (\<Sum>j < N. p j * (v * w ^ i) ^ j)"

text \<open>The rows of the two matrices applied to the witness.\<close>

definition row_value :: "coef list \<Rightarrow> nat \<Rightarrow> limbs list \<Rightarrow> bool \<Rightarrow> nat \<Rightarrow> fr" where
  "row_value coefs n wtns first j = (\<Sum>i < n. coef_term coefs wtns first j i)"

definition quotient_values :: "fr \<Rightarrow> fr \<Rightarrow> nat \<Rightarrow> (nat \<Rightarrow> fr) \<Rightarrow> (nat \<Rightarrow> fr) \<Rightarrow> (nat \<Rightarrow> fr) \<Rightarrow> bool" where
  "quotient_values v w N A B h \<longleftrightarrow>
     (\<exists>a b c. \<forall>i < N. on_domain w N a i = A i \<and> on_domain w N b i = B i \<and> on_domain w N c i = A i * B i
        \<and> h i = on_coset v w N a i * on_coset v w N b i - on_coset v w N c i)"

section \<open>The scalar field\<close>

context raw_fr
begin

lemmas fr_ring = fft_field.ring_laws [OF fft_setup.axioms(1) [OF fft_setup_fr]]

lemma fr_zero: "fr_good (f_zero (RawFr_ops G Z))" "fr_val (f_zero (RawFr_ops G Z)) = 0"
  using repr_fr [OF raw_consts(1)] by (simp_all add: RawFr_ops_def of_fr_hom)

lemma from_mont_value:
  assumes "fr_good x"
  shows "raw_elem Fr_field (F_rawFromMontgomery Fr_field G x) \<and> of_fr (lval (F_rawFromMontgomery Fr_field G x)) = fr_val x"
  using repr_fromMont [OF fr_repr [OF assms]] by (simp add: repr_n_def fr_val_def of_fr_eq_iff prime_of_fr)

lemma coef_fold:
  assumes "\<And>i. i \<in> set order \<Longrightarrow> fr_good (wtns ! unat (c_s (coefs ! i))) \<and> fr_good (c_coef (coefs ! i)) \<and> unat (c_c (coefs ! i)) < N"
    and "length (fst ab) = N" "length (snd ab) = N" "list_all fr_good (fst ab)" "list_all fr_good (snd ab)"
  shows "case fold (coef_step (RawFr_ops G Z) coefs wtns) order ab of (a, b) \<Rightarrow>
    length a = N \<and> length b = N \<and> list_all fr_good a \<and> list_all fr_good b
    \<and> (\<forall>j < N. fr_val (a ! j) = fr_val (fst ab ! j) + (\<Sum>i\<leftarrow>order. coef_term coefs wtns True j i)
         \<and> fr_val (b ! j) = fr_val (snd ab ! j) + (\<Sum>i\<leftarrow>order. coef_term coefs wtns False j i))"
  using assms
proof (induction order arbitrary: ab)
  case (Cons i order)
  let ?ab = "coef_step (RawFr_ops G Z) coefs wtns i ab"
  have g: "fr_good (wtns ! unat (c_s (coefs ! i)))" "fr_good (c_coef (coefs ! i))" "unat (c_c (coefs ! i)) < N" using Cons.prems(1) by simp_all
  have ab: "length (fst ?ab) = N" "length (snd ?ab) = N" "list_all fr_good (fst ?ab)" "list_all fr_good (snd ?ab)"
    "\<forall>j < N. fr_val (fst ?ab ! j) = fr_val (fst ab ! j) + coef_term coefs wtns True j i
       \<and> fr_val (snd ?ab ! j) = fr_val (snd ab ! j) + coef_term coefs wtns False j i"
    using g Cons.prems(2-5) by (auto simp: coef_step_def Let_def list_all_length nth_list_update fr_ring coef_term_def)
  show ?case using Cons.IH [OF _ ab(1-4)] Cons.prems(1) ab(5) by (auto simp: add.assoc split: prod.splits)
qed auto

lemma sum_list_order:
  assumes "mset order = mset [0..<n]"
  shows "(\<Sum>i\<leftarrow>order. f i) = (\<Sum>i < n. f i :: fr)"
proof -
  have "(\<Sum>i\<leftarrow>order. f i) = (\<Sum>i\<leftarrow>[0..<n]. f i)" using assms by (metis mset_map sum_mset_sum_list)
  then show ?thesis by (simp add: sum_list_distinct_conv_sum_set atLeast0LessThan)
qed

end

section \<open>From the domain to the coset\<close>

context raw_fr
begin

lemma to_coset_value:
  assumes T: "fft_tables (RawFr_ops G Z) fr_good fr_val fr_prime T w" and k: "k < 29" "k + 1 \<le> unat (fft_s T)"
    and sch: "\<And>p s n. schedule nThreads n (sch p s n)" "0 < nThreads" and n: "unat n = 2 ^ k"
    and a: "length a = 2 ^ k" "list_all fr_good a"
  shows "\<exists>b p. to_coset (RawFr_ops G Z) T nThreads sch phase (of_nat k) n a = Some b \<and> length b = 2 ^ k \<and> list_all fr_good b
    \<and> (\<forall>i < 2 ^ k. fr_val (a ! i) = on_domain (fft_tables.omega T w k) (2 ^ k) p i)
    \<and> (\<forall>i < 2 ^ k. fr_val (b ! i) = on_coset (fft_tables.omega T w (k + 1)) (fft_tables.omega T w k) (2 ^ k) p i)"
proof -
  let ?F = "RawFr_ops G Z" and ?w = "fft_tables.omega T w"
  have kk: "k \<le> 30" "k \<le> unat (fft_s T)" and N: "(2::nat) ^ k < 2 ^ 31"
    using k power_strict_increasing [of k 31 "2::nat"] by simp_all
  note fi = fft_tables.fft_ifft(2) [where sched = "sch phase" and sched' = "sch (phase + 1) 0", OF T sch(1) sch(1) sch(2) kk n a]
  obtain c where c: "ifft ?F T nThreads (sch phase) (sch (phase + 1) 0) a n = Some c" "length c = 2 ^ k" "list_all fr_good c"
    using fft_tables.ifft_value [where sched = "sch phase" and sched' = "sch (phase + 1) 0", OF T sch(1) sch(1) sch(2) kk n a] by blast
  define p where "p j = fr_val (c ! j)" for j
  obtain a' where a': "fft ?F T nThreads (sch phase) c n = Some a'" "\<forall>i < 2 ^ k. fr_val (a' ! i) = dft (?w k) (2 ^ k) p i"
    using fft_tables.fft_value [where sched = "sch phase", OF T sch(1) sch(2) kk n c(2,3)] unfolding p_def [symmetric] by blast
  have aa: "a' = a" using fi a'(1) c(1) by simp
  define c1 where "c1 = parallelFor nThreads (sch (phase + 2) 0) 0 (as_int n) (for_part (shift_entry ?F T (of_nat k))) c"
  have e: "unat (of_nat k + 1 :: u32) = k + 1" using unat_u32 [of "k + 1"] k(1) by (simp add: add.commute)
  have rt: "fr_good (root T (of_nat k + 1) (of_nat i)) \<and> fr_val (root T (of_nat k + 1) (of_nat i)) = ?w (k + 1) ^ i" if "i < 2 ^ k" for i
    using fft_tables.root_value [OF T, of "of_nat k + 1" "of_nat i"] k(2) unat_index [OF that N] that unfolding e by simp
  have c1: "length c1 = 2 ^ k \<and> (\<forall>i < 2 ^ k. c1 ! i = f_mul ?F (c ! i) (root T (of_nat k + 1) (of_nat i)))"
    unfolding c1_def by (rule parallelFor_map [OF sch n N c(2)]) (use unat_index N in \<open>simp add: shift_entry_def\<close>)
  have g: "list_all fr_good c1" "\<And>i. i < 2 ^ k \<Longrightarrow> fr_val (c1 ! i) = p i * ?w (k + 1) ^ i"
    using c1 c(2,3) rt by (auto simp: list_all_length fr_ring p_def)
  obtain b where b: "fft ?F T nThreads (sch (phase + 3)) c1 n = Some b" "length b = 2 ^ k" "list_all fr_good b"
    "\<forall>i < 2 ^ k. fr_val (b ! i) = dft (?w k) (2 ^ k) (\<lambda>j. fr_val (c1 ! j)) i"
    using fft_tables.fft_value [where sched = "sch (phase + 3)", OF T sch(1) sch(2) kk n conjunct1 [OF c1] g(1)] by blast
  have "to_coset ?F T nThreads sch phase (of_nat k) n a = Some b"
    using c(1) b(1) by (simp add: to_coset_def c1_def)
  moreover have "fr_val (a ! i) = on_domain (?w k) (2 ^ k) p i" if "i < 2 ^ k" for i
    using a'(2) that unfolding aa by (simp add: dft_def on_domain_def power_mult)
  moreover have "fr_val (b ! i) = on_coset (?w (k + 1)) (?w k) (2 ^ k) p i" if "i < 2 ^ k" for i
    using b(4) that by (simp add: dft_def on_coset_def g(2) power_mult power_mult_distrib mult.assoc)
  ultimately show ?thesis using b(2,3) by blast
qed

section \<open>The values of the quotient\<close>

lemma constraint_values_value:
  assumes T: "fft_tables (RawFr_ops G Z) fr_good fr_val fr_prime (p_fft P) w" and k: "k < 29" "k + 1 \<le> unat (fft_s (p_fft P))"
    and sch: "\<And>p s n. schedule nThreads n (sch p s n)" "0 < nThreads" and n: "unat (p_domainSize P) = 2 ^ k"
    and order: "\<And>n. mset (order n) = mset [0..<n]" and m: "m = nat (as_int (p_nCoefs P))"
    and ok: "\<And>i. i < m \<Longrightarrow> fr_good (wtns ! unat (c_s (p_coefs P ! i))) \<and> fr_good (c_coef (p_coefs P ! i)) \<and> unat (c_c (p_coefs P ! i)) < 2 ^ k"
  shows "\<exists>h. constraint_values G (RawFr_ops G Z) nThreads sch order garbage P wtns = Some h \<and> length h = 2 ^ k
    \<and> (\<forall>i < 2 ^ k. raw_elem Fr_field (h ! i))
    \<and> quotient_values (fft_tables.omega (p_fft P) w (k + 1)) (fft_tables.omega (p_fft P) w k) (2 ^ k)
        (row_value (p_coefs P) m wtns True) (row_value (p_coefs P) m wtns False) (\<lambda>i. of_fr (lval (h ! i)))"
proof -
  let ?F = "RawFr_ops G Z" and ?N = "(2::nat) ^ k" and ?n = "ucast (p_domainSize P) :: u64"
  let ?A = "row_value (p_coefs P) m wtns True" and ?B = "row_value (p_coefs P) m wtns False"
  have N: "unat ?n = ?N" "?N < 2 ^ 31" using n k power_strict_increasing [of k 31 "2::nat"] by (simp_all add: unsigned_ucast_eq take_bit_nat_eq_self)
  define new where "new = map garbage [0..<unat ?n]"
  have cl: "parallelFor nThreads (sch 4 0) 0 (as_int ?n) (for_part (clear_entry ?F)) (new, new)
      = (replicate ?N (f_zero ?F), replicate ?N (f_zero ?F))"
    by (rule clear_loop [OF sch N]) (simp_all add: new_def N)
  define a b where "a = fst (fold (coef_step ?F (p_coefs P) wtns) (order m) (replicate ?N (f_zero ?F), replicate ?N (f_zero ?F)))"
    and "b = snd (fold (coef_step ?F (p_coefs P) wtns) (order m) (replicate ?N (f_zero ?F), replicate ?N (f_zero ?F)))"
  have "set (order m) = {0..<m}" using order by (metis set_mset_mset set_upt)
  then have ab: "length a = ?N" "length b = ?N" "list_all fr_good a" "list_all fr_good b"
    "\<And>j. j < ?N \<Longrightarrow> fr_val (a ! j) = ?A j \<and> fr_val (b ! j) = ?B j"
    using coef_fold [of "order m" wtns "p_coefs P" ?N "(replicate ?N (f_zero ?F), replicate ?N (f_zero ?F))"] ok fr_zero
    by (simp_all add: a_def b_def list_all_iff row_value_def sum_list_order [OF order] split: prod.splits)
  define c where "c = parallelFor nThreads (sch 5 0) 0 (as_int ?n) (for_part (mul_entry ?F a b)) new"
  have "length c = ?N \<and> (\<forall>i < ?N. c ! i = f_mul ?F (a ! i) (b ! i))"
    unfolding c_def by (rule parallelFor_map [OF sch N]) (use unat_index N in \<open>simp_all add: mul_entry_def new_def\<close>)
  then have c: "length c = ?N" "list_all fr_good c" "\<And>j. j < ?N \<Longrightarrow> fr_val (c ! j) = ?A j * ?B j"
    using ab by (auto simp: list_all_length fr_ring)
  note co = to_coset_value [where sch = sch, OF T k sch N(1)]
  obtain a1 pa where a1: "to_coset ?F (p_fft P) nThreads sch 6 (of_nat k) ?n a = Some a1" "length a1 = ?N" "list_all fr_good a1"
    "\<forall>i < ?N. fr_val (a ! i) = on_domain (fft_tables.omega (p_fft P) w k) ?N pa i"
    "\<forall>i < ?N. fr_val (a1 ! i) = on_coset (fft_tables.omega (p_fft P) w (k + 1)) (fft_tables.omega (p_fft P) w k) ?N pa i"
    using co [OF ab(1,3), of 6] by blast
  obtain b1 pb where b1: "to_coset ?F (p_fft P) nThreads sch 10 (of_nat k) ?n b = Some b1" "length b1 = ?N" "list_all fr_good b1"
    "\<forall>i < ?N. fr_val (b ! i) = on_domain (fft_tables.omega (p_fft P) w k) ?N pb i"
    "\<forall>i < ?N. fr_val (b1 ! i) = on_coset (fft_tables.omega (p_fft P) w (k + 1)) (fft_tables.omega (p_fft P) w k) ?N pb i"
    using co [OF ab(2,4), of 10] by blast
  obtain c1 pc where c1: "to_coset ?F (p_fft P) nThreads sch 14 (of_nat k) ?n c = Some c1" "length c1 = ?N" "list_all fr_good c1"
    "\<forall>i < ?N. fr_val (c ! i) = on_domain (fft_tables.omega (p_fft P) w k) ?N pc i"
    "\<forall>i < ?N. fr_val (c1 ! i) = on_coset (fft_tables.omega (p_fft P) w (k + 1)) (fft_tables.omega (p_fft P) w k) ?N pc i"
    using co [OF c(1,2), of 14] by blast
  define h where "h = parallelFor nThreads (sch 18 0) 0 (as_int ?n) (for_part (abc_entry G ?F b1 c1)) a1"
  have "length h = ?N \<and> (\<forall>i < ?N. h ! i = F_rawFromMontgomery Fr_field G (f_sub ?F (f_mul ?F (a1 ! i) (b1 ! i)) (c1 ! i)))"
    unfolding h_def by (rule parallelFor_map [OF sch N a1(2)]) (use unat_index N in \<open>simp_all add: abc_entry_def Let_def\<close>)
  then have h: "length h = ?N" "\<And>i. i < ?N \<Longrightarrow> raw_elem Fr_field (h ! i)
      \<and> of_fr (lval (h ! i)) = fr_val (a1 ! i) * fr_val (b1 ! i) - fr_val (c1 ! i)"
    using a1(2,3) b1(2,3) c1(2,3) from_mont_value by (auto simp: list_all_length fr_ring)
  have l: "log2 ?n = Some (of_nat k)" using log2_length(1) [of k ?n] k(1) N(1) by simp
  have "constraint_values G ?F nThreads sch order garbage P wtns = Some h"
    using cl a1(1) b1(1) c1(1)
    by (simp add: constraint_values_def Let_def m [symmetric] new_def [symmetric] l split_beta a_def [symmetric] b_def [symmetric] c_def [symmetric] h_def)
  moreover have "quotient_values (fft_tables.omega (p_fft P) w (k + 1)) (fft_tables.omega (p_fft P) w k) ?N ?A ?B (\<lambda>i. of_fr (lval (h ! i)))"
    unfolding quotient_values_def
    by (rule exI [of _ pa], rule exI [of _ pb], rule exI [of _ pc])
      (use h(2) a1(4,5) b1(4,5) c1(4,5) ab(5) c(3) in simp)
  ultimately show ?thesis using h by blast
qed

end

end
