(* ===== verification/FinalExp.thy ===== *)
theory FinalExp
  imports Verifier
begin

text \<open>
  The final exponentiation computes \<open>x\<^bsup>(q\<^sup>1\<^sup>2 - 1) / r\<^esup>\<close>: the easy part by a conjugation, an
  inversion and a Frobenius map, the hard part by an addition chain in the parameter \<open>u\<close> of the
  curve, of which \<open>q\<close> and \<open>r\<close> are polynomials.
\<close>

section \<open>The exponent\<close>

definition bn_u :: nat where
  "bn_u = 4965661367192848881"

definition r_nat :: nat where
  "r_nat = nat fr_prime"

lemma q_r_of_u:
  "int q_nat = 36 * int bn_u ^ 4 + 36 * int bn_u ^ 3 + 24 * int bn_u ^ 2 + 6 * int bn_u + 1"
  "int r_nat = 36 * int bn_u ^ 4 + 36 * int bn_u ^ 3 + 18 * int bn_u ^ 2 + 6 * int bn_u + 1"
  unfolding q_nat_def r_nat_def bn_u_def fq_prime_def fr_prime_def by (simp_all add: power4_eq_xxxx power3_eq_cube power2_eq_square)

text \<open>The exponents that the addition chain collects, with and without a conjugation.\<close>

definition hard_pos :: nat where
  "hard_pos = q_nat + q_nat ^ 2 + q_nat ^ 3 + 6 * (bn_u ^ 2 * q_nat ^ 2)"

definition hard_neg :: nat where
  "hard_neg = 2 + 12 * (bn_u * q_nat) + 18 * (bn_u + bn_u ^ 2 * q_nat) + 30 * bn_u ^ 2 + 36 * (bn_u ^ 3 + bn_u ^ 3 * q_nat)"

lemma hard_exponent:
  "int r_nat * int hard_pos = int r_nat * int hard_neg + (int q_nat ^ 4 - int q_nat ^ 2 + 1)"
proof -
  define u where "u = int bn_u"
  have q: "int q_nat = 36 * u ^ 4 + 36 * u ^ 3 + 24 * u ^ 2 + 6 * u + 1"
    and r: "int r_nat = 36 * u ^ 4 + 36 * u ^ 3 + 18 * u ^ 2 + 6 * u + 1"
    using q_r_of_u by (simp_all add: u_def)
  have "int hard_pos = int q_nat + int q_nat ^ 2 + int q_nat ^ 3 + 6 * (u ^ 2 * int q_nat ^ 2)"
    "int hard_neg = 2 + 12 * (u * int q_nat) + 18 * (u + u ^ 2 * int q_nat) + 30 * u ^ 2 + 36 * (u ^ 3 + u ^ 3 * int q_nat)"
    by (simp_all add: hard_pos_def hard_neg_def u_def)
  then show ?thesis unfolding q r by algebra
qed

definition hard_nat :: nat where
  "hard_nat = hard_pos - hard_neg"

lemma hard_nat: "r_nat * hard_nat + q_nat ^ 2 = q_nat ^ 4 + 1" "hard_pos = hard_neg + hard_nat" "0 < r_nat"
proof -
  show r: "0 < r_nat" by (simp add: r_nat_def fr_prime_def)
  have "int q_nat ^ 2 \<le> int q_nat ^ 4" using q_nat(2) by (intro power_increasing) simp_all
  then have "int r_nat * int hard_neg < int r_nat * int hard_pos" using hard_exponent by linarith
  then have le: "hard_neg \<le> hard_pos" using r by (simp add: mult_less_cancel_left_pos)
  then show p: "hard_pos = hard_neg + hard_nat" by (simp add: hard_nat_def)
  have "int r_nat * int hard_nat + int q_nat ^ 2 = int q_nat ^ 4 + 1"
    using hard_exponent unfolding p by (simp add: algebra_simps)
  then have "int (r_nat * hard_nat + q_nat ^ 2) = int (q_nat ^ 4 + 1)" by simp
  then show "r_nat * hard_nat + q_nat ^ 2 = q_nat ^ 4 + 1" by (simp only: of_nat_eq_iff)
qed

lemma full_exponent: "(q_nat ^ 12 - 1) div r_nat = (q_nat ^ 6 - 1) * (q_nat ^ 2 + 1) * hard_nat"
proof -
  define q where "q = int q_nat"
  have h: "int r_nat * int hard_nat = q ^ 4 + 1 - q ^ 2"
    using arg_cong [OF hard_nat(1), of int] by (simp add: q_def)
  have ge: "1 \<le> q_nat ^ 12" "1 \<le> q_nat ^ 6" using q_nat(2) by (simp_all add: one_le_power)
  have "int (r_nat * ((q_nat ^ 6 - 1) * (q_nat ^ 2 + 1) * hard_nat)) = (q ^ 6 - 1) * (q ^ 2 + 1) * (int r_nat * int hard_nat)"
    using ge by (simp add: q_def of_nat_diff) (simp add: algebra_simps)
  also have "\<dots> = q ^ 12 - 1" unfolding h by algebra
  also have "\<dots> = int (q_nat ^ 12 - 1)" using ge by (simp add: q_def of_nat_diff)
  finally have "r_nat * ((q_nat ^ 6 - 1) * (q_nat ^ 2 + 1) * hard_nat) = q_nat ^ 12 - 1" by (simp only: of_nat_eq_iff)
  then show ?thesis using hard_nat(3) by (metis nonzero_mult_div_cancel_left less_numeral_extra(3))
qed

lemma fq12_order: "(x :: fq12) \<noteq> 0 \<Longrightarrow> x ^ (q_nat ^ 12 - 1) = 1"
proof -
  assume x: "x \<noteq> 0"
  have "q_nat ^ 12 = Suc (q_nat ^ 12 - 1)" using q_nat(2) by simp
  then have "x * x ^ (q_nat ^ 12 - 1) = x ^ q_nat ^ 12" by (metis power_Suc)
  then show ?thesis using x by (simp add: fq12_power_q12)
qed

text \<open>After the easy part, conjugation is inversion.\<close>

lemma easy_part:
  assumes "x \<noteq> 0" and "f = x ^ ((q_nat ^ 6 - 1) * (q_nat ^ 2 + 1))"
  shows "f \<noteq> 0" "fq12_conj f = inverse f"
proof -
  show f: "f \<noteq> 0" using assms by simp
  have "(q_nat ^ 6 - 1) * (q_nat ^ 6 + 1) = q_nat ^ 12 - 1"
    by (simp add: algebra_simps diff_mult_distrib2 flip: power_add)
  then have g: "(x ^ (q_nat ^ 6 - 1)) ^ (q_nat ^ 6 + 1) = 1" using fq12_order [OF assms(1)] by (simp only: flip: power_mult)
  have "f ^ q_nat ^ 6 * f = ((x ^ (q_nat ^ 6 - 1)) ^ (q_nat ^ 2 + 1)) ^ (q_nat ^ 6 + 1)"
    by (simp only: assms(2) power_mult power_Suc2 flip: Suc_eq_plus1)
  also have "\<dots> = ((x ^ (q_nat ^ 6 - 1)) ^ (q_nat ^ 6 + 1)) ^ (q_nat ^ 2 + 1)"
    by (simp only: mult.commute flip: power_mult) (simp only: mult.left_commute mult.commute)
  also have "\<dots> = 1" by (simp only: g power_one)
  finally have "f ^ q_nat ^ 6 * f = 1" .
  then show "fq12_conj f = inverse f" using f by (simp add: fq12_power_q6 field_simps)
qed

section \<open>The code\<close>

context engine_class
begin

lemma F12_exp_loop_value:
  assumes Y: "tow.ok12 Y" and a: "tow.gd12 a" and "n \<le> 8 * length scalar" "tow.gd12 r"
  shows "tow.gd12 (F12_exp_loop Y a scalar n r)
    \<and> tow.vl12 (F12_exp_loop Y a scalar n r) = tow.vl12 r ^ (2 ^ n) * tow.vl12 a ^ (le_val scalar mod 2 ^ n)"
  using assms(3,4)
proof (induction n arbitrary: r)
  case 0
  then show ?case by simp
next
  case (Suc n)
  let ?t = "F12_square Y r"
  let ?r = "if bit_is_set scalar n then F12_mul Y ?t a else ?t"
  have t: "tow.gd12 ?t" "tow.vl12 ?t = tow.vl12 r ^ 2" using tow.f12_square [OF Y Suc.prems(2)] by simp_all
  have b: "bit_is_set scalar n \<longleftrightarrow> bit (le_val scalar) n" using Suc.prems(1) by (intro bit_is_set) simp
  have m: "le_val scalar mod 2 ^ Suc n = le_val scalar mod 2 ^ n + (if bit (le_val scalar) n then 2 ^ n else 0)"
    using take_bit_Suc_from_most [of n "le_val scalar"] by (simp add: take_bit_eq_mod of_bool_def split: if_splits)
  have r: "tow.gd12 ?r" "tow.vl12 ?r = tow.vl12 r ^ 2 * (if bit (le_val scalar) n then tow.vl12 a else 1)"
    using tow.f12_mul [OF Y t(1) a] t b by simp_all
  then show ?case
    using Suc.IH [of ?r] Suc.prems(1)
    by (simp add: Let_def m power_mult_distrib power_add mult.commute flip: power_mult del: power_Suc) simp
qed

lemma F12_exp_value:
  assumes "tow.ok12 Y" "tow.gd12 a" "length scalar = n" "0 < n" "n < 2 ^ 28"
  shows "tow.gd12 (F12_exp Y a scalar (of_nat n)) \<and> tow.vl12 (F12_exp Y a scalar (of_nat n)) = tow.vl12 a ^ le_val scalar"
proof -
  have "(of_nat n * 8 - 1 :: u32) = word_of_int (8 * int n - 1)" by (simp add: mult.commute)
  moreover have "sint (word_of_int (8 * int n - 1) :: u32) = 8 * int n - 1"
    using assms(5) by (subst signed_of_int) (simp add: signed_take_bit_int_eq_self)
  ultimately have "nat (sint (of_nat n * 8 - 1 :: u32) + 1) = 8 * n" using assms(4) by (simp add: mult.commute)
  moreover have "le_val scalar < 2 ^ (8 * n)" using le_val_upper [of scalar] assms(3) by (simp add: power_mult)
  ultimately show ?thesis
    using F12_exp_loop_value [OF assms(1,2), of "8 * n" scalar "f12_fOne Y"] tow.f12_consts [OF assms(1)] assms(3)
    by (simp add: F12_exp_def)
qed

lemma exp_u:
  assumes "tow.ok12 Y" "tow.gd12 a"
  shows "tow.gd12 (F12_exp Y a (le_bytes 8 4965661367192848881) 8)
    \<and> tow.vl12 (F12_exp Y a (le_bytes 8 4965661367192848881) 8) = tow.vl12 a ^ bn_u"
  using F12_exp_value [OF assms, of "le_bytes 8 4965661367192848881" 8] by (simp add: bn_u_def)

lemma conj_inverse_power: "fq12_conj f = inverse f \<Longrightarrow> (f ^ n) ^ q_nat ^ 6 = inverse f ^ n"
  by (metis fq12_power_q6 mult.commute power_mult)

text \<open>The hard part, on an element whose conjugate is its inverse.\<close>

lemma finalExponentiation_value:
  assumes inp: "tow.gd12 inp" "tow.vl12 inp \<noteq> 0"
  shows "tow.gd12 (finalExponentiation E inp)
    \<and> tow.vl12 (finalExponentiation E inp) = tow.vl12 inp ^ ((q_nat ^ 12 - 1) div r_nat)"
proof -
  let ?F = "en_f12 E" and ?u = "le_bytes 8 4965661367192848881"
  define x where "x = tow.vl12 inp"
  define f where "f = x ^ ((q_nat ^ 6 - 1) * (q_nat ^ 2 + 1))"
  have Y: "tow.ok12 ?F" by (rule engine_fields(7))
  have F6: "f6_F (en_f6 E) = tow.X" using engine_fields(6) by (rule tow.ok6_F)
  note L = tow.f12_laws [OF Y] exp_u [OF Y] conj_inverse_power
  have x: "x \<noteq> 0" using inp(2) by (simp add: x_def)
  note ep = easy_part [OF x f_def]
  define t0 where "t0 = \<lparr>f12_x = F6_neg (en_f6 E) (f12_x inp), f12_y = f12_y inp\<rparr>"
  have t0: "tow.gd12 t0" "tow.vl12 t0 = x ^ q_nat ^ 6"
    using inp(1) tow.f6_neg [OF F6] by (simp_all add: t0_def x_def tow.gd12_def tow.vl12_def fq12_power_q6 fq12_eq_iff)
  define t1 where "t1 = F12_mul ?F t0 (F12_inv ?F inp)"
  have "q_nat ^ 6 = (q_nat ^ 6 - 1) + 1" using q_nat(2) by simp
  then have "x ^ q_nat ^ 6 = x ^ (q_nat ^ 6 - 1) * x" by (metis power_add power_one_right)
  then have t1: "tow.gd12 t1" "tow.vl12 t1 = x ^ (q_nat ^ 6 - 1)"
    using t0 tow.f12_inv [OF Y inp] x by (simp_all add: t1_def L x_def)
  define t where "t = F12_mul ?F t1 (F12_FrobeniusP2 ?F t1)"
  have "f = x ^ (q_nat ^ 6 - 1) * (x ^ (q_nat ^ 6 - 1)) ^ q_nat ^ 2"
    unfolding f_def power_mult power_add power_one_right by (rule mult.commute)
  then have t: "tow.gd12 t" "tow.vl12 t = f" using t1 by (simp_all add: t_def L)
  define fu where "fu = F12_exp ?F t ?u 8"
  have fu: "tow.gd12 fu" "tow.vl12 fu = f ^ bn_u" using t by (simp_all add: fu_def L)
  define fu2 where "fu2 = F12_exp ?F fu ?u 8"
  have fu2: "tow.gd12 fu2" "tow.vl12 fu2 = f ^ bn_u ^ 2" using fu by (simp_all add: fu2_def L power2_eq_square power_mult)
  define fu3 where "fu3 = F12_exp ?F fu2 ?u 8"
  have fu3: "tow.gd12 fu3" "tow.vl12 fu3 = f ^ bn_u ^ 3"
    using fu2 by (simp_all add: fu3_def L power3_eq_cube power2_eq_square power_mult)
  define g where "g = inverse f"
  have conj: "\<And>n. (f ^ n) ^ q_nat ^ 6 = g ^ n" using conj_inverse_power [OF ep(2)] by (simp add: g_def)
  define y0 where "y0 = F12_mul ?F (F12_mul ?F (F12_Frobenius ?F t) (F12_FrobeniusP2 ?F t)) (F12_Frobenius ?F (F12_FrobeniusP2 ?F t))"
  have y0: "tow.gd12 y0" "tow.vl12 y0 = f ^ (q_nat + q_nat ^ 2 + q_nat ^ 3)"
    using t by (simp_all add: y0_def L power_add power3_eq_cube power2_eq_square power_mult)
  define y1 where "y1 = F12_conjugate ?F t"
  have y1: "tow.gd12 y1" "tow.vl12 y1 = g ^ 1" using t conj [of 1] by (simp_all add: y1_def L)
  define y2 where "y2 = F12_FrobeniusP2 ?F fu2"
  have y2: "tow.gd12 y2" "tow.vl12 y2 = f ^ (bn_u ^ 2 * q_nat ^ 2)" using fu2 by (simp_all add: y2_def L power_mult)
  define y3 where "y3 = F12_conjugate ?F (F12_Frobenius ?F fu)"
  have y3: "tow.gd12 y3" "tow.vl12 y3 = g ^ (bn_u * q_nat)"
    using fu conj [of "bn_u * q_nat"] by (simp_all add: y3_def L power_mult)
  define y4 where "y4 = F12_conjugate ?F (F12_mul ?F fu (F12_Frobenius ?F fu2))"
  have y4: "tow.gd12 y4" "tow.vl12 y4 = g ^ (bn_u + bn_u ^ 2 * q_nat)"
    using fu fu2 conj [of "bn_u + bn_u ^ 2 * q_nat"] by (simp_all add: y4_def L power_add power_mult)
  define y5 where "y5 = F12_conjugate ?F fu2"
  have y5: "tow.gd12 y5" "tow.vl12 y5 = g ^ bn_u ^ 2" using fu2 conj [of "bn_u ^ 2"] by (simp_all add: y5_def L)
  define y6 where "y6 = F12_conjugate ?F (F12_mul ?F fu3 (F12_Frobenius ?F fu3))"
  have y6: "tow.gd12 y6" "tow.vl12 y6 = g ^ (bn_u ^ 3 + bn_u ^ 3 * q_nat)"
    using fu3 conj [of "bn_u ^ 3 + bn_u ^ 3 * q_nat"] by (simp_all add: y6_def L power_add power_mult)
  define s0 where "s0 = F12_mul ?F (F12_mul ?F (F12_square ?F y6) y4) y5"
  define s1 where "s1 = F12_square ?F (F12_mul ?F (F12_square ?F (F12_mul ?F (F12_mul ?F y3 y5) s0)) (F12_mul ?F s0 y2))"
  define res where "res = F12_mul ?F (F12_square ?F (F12_mul ?F s1 y1)) (F12_mul ?F s1 y0)"
  have res: "finalExponentiation E inp = res"
    by (simp only: finalExponentiation_def Let_def res_def s1_def s0_def y0_def y1_def y2_def y3_def y4_def y5_def y6_def
        fu3_def fu2_def fu_def t_def t1_def t0_def)
  have s0: "tow.gd12 s0" "tow.vl12 s0 = tow.vl12 y6 ^ 2 * tow.vl12 y4 * tow.vl12 y5"
    using y4(1) y5(1) y6(1) by (simp_all add: s0_def L)
  have s1: "tow.gd12 s1" "tow.vl12 s1 = ((tow.vl12 y3 * tow.vl12 y5 * tow.vl12 s0) ^ 2 * (tow.vl12 s0 * tow.vl12 y2)) ^ 2"
    using y3(1) y5(1) y2(1) s0(1) by (simp_all add: s1_def L)
  have r: "tow.gd12 res" "tow.vl12 res = (tow.vl12 s1 * tow.vl12 y1) ^ 2 * (tow.vl12 s1 * tow.vl12 y0)"
    using y0(1) y1(1) s1(1) by (simp_all add: res_def L)
  have "tow.vl12 res = tow.vl12 y0 * tow.vl12 y1 ^ 2 * tow.vl12 y2 ^ 6 * tow.vl12 y3 ^ 12 * tow.vl12 y4 ^ 18
      * tow.vl12 y5 ^ 30 * tow.vl12 y6 ^ 36"
    unfolding r(2) s1(2) s0(2) by algebra
  also have "\<dots> = f ^ hard_pos * g ^ hard_neg"
  proof -
    have p: "\<And>n m. (g ^ n) ^ m = g ^ (m * n)" "\<And>n m. (f ^ n) ^ m = f ^ (m * n)"
      by (simp_all add: mult.commute flip: power_mult)
    show ?thesis
      unfolding y0(2) y1(2) y2(2) y3(2) y4(2) y5(2) y6(2) p mult_1_right
      unfolding hard_pos_def hard_neg_def power_add by (simp only: ac_simps)
  qed
  also have "\<dots> = f ^ hard_nat" unfolding hard_nat(2) using ep(1) by (simp add: power_add g_def power_inverse)
  also have "\<dots> = x ^ ((q_nat ^ 12 - 1) div r_nat)" unfolding full_exponent f_def by (simp add: power_mult)
  finally show ?thesis using r(1) by (simp add: res x_def)
qed

end

end
