(* ===== verification/Pairing.thy ===== *)
theory Pairing
  imports FinalExp
begin

text \<open>
  The optimal ate pairing as the textbooks state it, in affine coordinates with divisions, and
  the proof that the Miller loop of the verifier computes it up to a factor of the quadratic
  extension, which the final exponentiation removes.

  A point \<open>(x, y)\<close> of the twist stands for the point \<open>(x w\<^sup>2, y w\<^sup>3)\<close> of the curve over the field
  of degree 12; the tangent or chord through such a point, evaluated at a point \<open>(xP, yP)\<close> of the
  curve over the base field, is \<open>yP - l xP w + (l x - y) w\<^sup>3\<close>, where \<open>l\<close> is the slope on the twist.
\<close>

section \<open>The textbook definition\<close>

definition fq12_of2 :: "fq2 \<Rightarrow> fq12" where
  "fq12_of2 c = fq12_of (fq6_of c)"

definition line_value :: "fq2 \<Rightarrow> fq2 \<Rightarrow> fq2 \<Rightarrow> fq \<times> fq \<Rightarrow> fq12" where
  "line_value l x y P =
     fq12_of2 (fq2_of (snd P)) - fq12_of2 (l * fq2_of (fst P)) * fq12_w + fq12_of2 (l * x - y) * fq12_w ^ 3"

text \<open>\<open>None\<close>: the tangent or chord is vertical.\<close>

fun ate_double :: "fq \<times> fq \<Rightarrow> fq12 \<times> fq2 apoint \<Rightarrow> (fq12 \<times> fq2 apoint) option" where
  "ate_double P (f, Affine x y) =
     (if y = 0 then None
      else Some (f ^ 2 * line_value (slope 0 x y x y) x y P, aadd 0 (Affine x y) (Affine x y)))"
| "ate_double P (f, Infinity) = None"

fun ate_add :: "fq \<times> fq \<Rightarrow> fq2 apoint \<Rightarrow> fq12 \<times> fq2 apoint \<Rightarrow> (fq12 \<times> fq2 apoint) option" where
  "ate_add P (Affine x' y') (f, Affine x y) =
     (if x = x' then None
      else Some (f * line_value (slope 0 x y x' y') x y P, aadd 0 (Affine x y) (Affine x' y')))"
| "ate_add P Q st = None"

definition ate_round :: "fq \<times> fq \<Rightarrow> fq2 apoint \<Rightarrow> int \<Rightarrow> fq12 \<times> fq2 apoint \<Rightarrow> (fq12 \<times> fq2 apoint) option" where
  "ate_round P Q d st =
     (case ate_double P st of
        None \<Rightarrow> None
      | Some st \<Rightarrow> if d = 1 then ate_add P Q st else if d = - 1 then ate_add P (aneg Q) st else Some st)"

primrec ate_loop :: "fq \<times> fq \<Rightarrow> fq2 apoint \<Rightarrow> nat \<Rightarrow> fq12 \<times> fq2 apoint \<Rightarrow> (fq12 \<times> fq2 apoint) option" where
  "ate_loop P Q 0 st = Some st"
| "ate_loop P Q (Suc i) st =
     (case ate_round P Q (sixuPlus2NAF ! i) st of None \<Rightarrow> None | Some st \<Rightarrow> ate_loop P Q i st)"

text \<open>The digits are those of \<open>6 u + 2\<close>; the topmost one is the initial value.\<close>

lemma sixuPlus2NAF_value:
  "length sixuPlus2NAF = 65" "last sixuPlus2NAF = 1"
  "foldr (\<lambda>d v. d + 2 * v) sixuPlus2NAF 0 = 6 * int bn_u + 2"
  by (simp_all add: sixuPlus2NAF_def bn_u_def)

text \<open>The Frobenius map of the curve, read on the twist.\<close>

fun twist_frob :: "fq2 apoint \<Rightarrow> fq2 apoint" where
  "twist_frob Infinity = Infinity"
| "twist_frob (Affine x y) = Affine (x ^ q_nat * fq2_xi ^ ((q_nat - 1) div 3)) (y ^ q_nat * fq2_xi ^ ((q_nat - 1) div 2))"

definition ate_miller :: "fq2 apoint \<Rightarrow> fq \<times> fq \<Rightarrow> fq12 option" where
  "ate_miller Q P =
     (case ate_loop P Q 64 (1, Q) of
        None \<Rightarrow> None
      | Some st \<Rightarrow>
          (case ate_add P (twist_frob Q) st of
             None \<Rightarrow> None
           | Some st \<Rightarrow> map_option fst (ate_add P (aneg (twist_frob (twist_frob Q))) st)))"

fun ate :: "fq apoint \<Rightarrow> fq2 apoint \<Rightarrow> fq12 option" where
  "ate (Affine x y) (Affine x' y') = ate_miller (Affine x' y') (x, y)"
| "ate P Q = Some 1"

section \<open>The embedding of the quadratic extension\<close>

lemma fq12_of2_hom: "fq12_of2 (x + y) = fq12_of2 x + fq12_of2 y" "fq12_of2 (x * y) = fq12_of2 x * fq12_of2 y"
  "fq12_of2 (x - y) = fq12_of2 x - fq12_of2 y" "fq12_of2 (- x) = - fq12_of2 x" "fq12_of2 0 = 0" "fq12_of2 1 = 1"
  by (simp_all add: fq12_of2_def fq6_of_hom fq12_of_hom)

lemma fq12_of2_power: "fq12_of2 (x ^ n) = fq12_of2 x ^ n"
  by (induction n) (simp_all add: fq12_of2_hom)

lemma fq12_of2_0_iff: "fq12_of2 x = 0 \<longleftrightarrow> x = 0"
  by (auto simp: fq12_of2_def fq12_eq_iff fq6_eq_iff)

lemma fq12_of2_final: "k \<noteq> 0 \<Longrightarrow> fq12_of2 k ^ ((q_nat ^ 12 - 1) div r_nat) = 1"
proof -
  assume k: "k \<noteq> 0"
  have "fq12_of2 k ^ q_nat ^ 6 = fq12_of2 k" by (simp add: fq12_power_q6 fq12_of2_def fq12_eq_iff)
  moreover have "q_nat ^ 6 = Suc (q_nat ^ 6 - 1)" using q_nat(2) by simp
  ultimately have "fq12_of2 k * fq12_of2 k ^ (q_nat ^ 6 - 1) = fq12_of2 k" by (metis power_Suc)
  then have "fq12_of2 k ^ (q_nat ^ 6 - 1) = 1" using k by (simp add: fq12_of2_0_iff)
  then show ?thesis unfolding full_exponent power_mult by simp
qed

section \<open>The line functions\<close>

context engine_class
begin

definition jac :: "limbs f2 point \<Rightarrow> fq2 \<Rightarrow> fq2 \<Rightarrow> bool" where
  "jac r x y \<longleftrightarrow> tow.gd (px r) \<and> tow.gd (py r) \<and> tow.gd (pzz r) \<and> tow.gd (pzzz r)
     \<and> tow.vl (pzz r) \<noteq> 0 \<and> tow.vl (pzzz r) = tow.vl (pzz r) ^ 2
     \<and> tow.vl (px r) = x * tow.vl (pzz r) ^ 2 \<and> tow.vl (py r) = y * tow.vl (pzz r) ^ 3"

definition line_rep :: "limbs f2 \<Rightarrow> limbs f2 \<Rightarrow> limbs f2 \<Rightarrow> fq12 \<Rightarrow> bool" where
  "line_rep a b c v \<longleftrightarrow> tow.gd a \<and> tow.gd b \<and> tow.gd c
     \<and> (\<exists>k. k \<noteq> 0 \<and> fq12_of2 (tow.vl c) + fq12_of2 (tow.vl b) * fq12_w + fq12_of2 (tow.vl a) * fq12_w ^ 3 = v * fq12_of2 k)"

lemma line_repI:
  assumes "tow.gd a" "tow.gd b" "tow.gd c" "k \<noteq> 0" "tow.vl a = (l * x - y) * k" "tow.vl b = - (l * fq2_of u) * k"
    "tow.vl c = fq2_of v * k"
  shows "line_rep a b c (line_value l x y (u, v))"
proof -
  have "fq12_of2 (tow.vl c) + fq12_of2 (tow.vl b) * fq12_w + fq12_of2 (tow.vl a) * fq12_w ^ 3 = line_value l x y (u, v) * fq12_of2 k"
    unfolding assms(5-7) line_value_def fst_conv snd_conv fq12_of2_hom by algebra
  then show ?thesis using assms(1-4) unfolding line_rep_def by blast
qed

lemma two_fq2: "(2 :: fq2) \<noteq> 0"
  by (rule twist_smooth(3))

lemma lineFunctionDouble_value:
  assumes r: "jac r x y" and q: "fq_good (ax q)" "fq_good (ay q)" and y: "y \<noteq> 0"
    and out: "lineFunctionDouble E r q = (a, b, c, rOut)"
  shows "line_rep a b c (line_value (slope 0 x y x y) x y (fq_val (ax q), fq_val (ay q)))
    \<and> (\<exists>x3 y3. aadd 0 (Affine x y) (Affine x y) = Affine x3 y3 \<and> jac rOut x3 y3)"
proof -
  define z where "z = tow.vl (pzz r)"
  define l where "l = slope 0 x y x y"
  have z: "z \<noteq> 0" and g: "tow.gd (px r)" "tow.gd (py r)" "tow.gd (pzz r)" "tow.gd (pzzz r)"
    and v: "tow.vl (pzz r) = z" "tow.vl (pzzz r) = z ^ 2" "tow.vl (px r) = x * z ^ 2" "tow.vl (py r) = y * z ^ 3"
    using r by (simp_all add: jac_def z_def)
  note L = tow.f2_laws engine_fields f2_X
  have o: "tow.gd a" "tow.gd b" "tow.gd c" "tow.gd (px rOut)" "tow.gd (py rOut)" "tow.gd (pzz rOut)" "tow.gd (pzzz rOut)"
    and a: "tow.vl a = 6 * (x ^ 3 * z ^ 6) - 4 * (y ^ 2 * z ^ 6)"
    and b: "tow.vl b = - (6 * (x ^ 2 * z ^ 6) * fq2_of (fq_val (ax q)))"
    and c: "tow.vl c = 4 * (y * z ^ 6) * fq2_of (fq_val (ay q))"
    and zz: "tow.vl (pzz rOut) = 2 * (y * z ^ 4)" and zzz: "tow.vl (pzzz rOut) = (2 * (y * z ^ 4)) ^ 2"
    and X: "tow.vl (px rOut) = (3 * (x ^ 2 * z ^ 4)) ^ 2 - 8 * (x * y ^ 2 * z ^ 8)"
    and Y: "tow.vl (py rOut) = (4 * (x * y ^ 2 * z ^ 8) - ((3 * (x ^ 2 * z ^ 4)) ^ 2 - 8 * (x * y ^ 2 * z ^ 8))) * (3 * (x ^ 2 * z ^ 4))
      - 8 * (y ^ 4 * z ^ 12)"
    using out g q
    by (auto simp: lineFunctionDouble_def Let_def L v power2_eq_square power3_eq_cube power4_eq_xxxx eval_nat_numeral algebra_simps)
  have l: "l * (2 * y) = 3 * x ^ 2" using y two_fq2 by (simp add: l_def slope_def)
  have ny: "y \<noteq> - y"
  proof
    assume "y = - y"
    then have "2 * y = 0" by algebra
    then show False using y two_fq2 by simp
  qed
  define x3 where "x3 = l ^ 2 - x - x"
  define y3 where "y3 = - y - l * (x3 - x)"
  have s: "aadd 0 (Affine x y) (Affine x y) = Affine x3 y3" using ny by (simp add: Let_def x3_def y3_def l_def)
  have k: "4 * (y * z ^ 6) \<noteq> 0" "2 * (y * z ^ 4) \<noteq> 0"
    using y z two_fq2 by (simp_all add: no_zero_divisors) (metis mult_2 mult_eq_0_iff numeral_Bit0)
  have "tow.vl a = (l * x - y) * (4 * (y * z ^ 6))" "tow.vl b = - (l * fq2_of (fq_val (ax q))) * (4 * (y * z ^ 6))"
    "tow.vl c = fq2_of (fq_val (ay q)) * (4 * (y * z ^ 6))"
    unfolding a b c using l by algebra+ (simp only: ac_simps)
  from line_repI [OF o(1-3) k(1) this]
  have rep: "line_rep a b c (line_value l x y (fq_val (ax q), fq_val (ay q)))" .
  have d: "3 * (x ^ 2 * z ^ 4) = l * (2 * (y * z ^ 4))" using l by algebra
  have XY: "tow.vl (px rOut) = x3 * (2 * (y * z ^ 4)) ^ 2" "tow.vl (py rOut) = y3 * (2 * (y * z ^ 4)) ^ 3"
    unfolding X Y d x3_def y3_def by algebra+
  have "jac rOut x3 y3"
    unfolding jac_def zz zzz XY using o k(2) by (simp del: power_mult_distrib)
  then show ?thesis using s rep unfolding l_def by blast
qed

lemma lineFunctionAdd_value:
  assumes r: "jac r x y" and p: "tow.gd (ax p)" "tow.gd (ay p)" "tow.vl (ax p) = x'" "tow.vl (ay p) = y'"
    and q: "fq_good (ax q)" "fq_good (ay q)" and r2: "tow.gd r2" "tow.vl r2 = y' ^ 2" and n: "x \<noteq> x'"
    and out: "lineFunctionAdd E r p q r2 = (a, b, c, rOut)"
  shows "line_rep a b c (line_value (slope 0 x y x' y') x y (fq_val (ax q), fq_val (ay q)))
    \<and> (\<exists>x3 y3. aadd 0 (Affine x y) (Affine x' y') = Affine x3 y3 \<and> jac rOut x3 y3)"
proof -
  define z where "z = tow.vl (pzz r)"
  define l where "l = slope 0 x y x' y'"
  define h where "h = (x' - x) * z ^ 3"
  define m where "m = (y' - y) * z ^ 3"
  have z: "z \<noteq> 0" and g: "tow.gd (px r)" "tow.gd (py r)" "tow.gd (pzz r)" "tow.gd (pzzz r)"
    and v: "tow.vl (pzz r) = z" "tow.vl (pzzz r) = z ^ 2" "tow.vl (px r) = x * z ^ 2" "tow.vl (py r) = y * z ^ 3"
    using r by (simp_all add: jac_def z_def)
  note L = tow.f2_laws engine_fields f2_X
  have o: "tow.gd a" "tow.gd b" "tow.gd c" "tow.gd (px rOut)" "tow.gd (py rOut)" "tow.gd (pzz rOut)" "tow.gd (pzzz rOut)"
    and a: "tow.vl a = 4 * m * x' - 4 * h * y'"
    and b: "tow.vl b = - (4 * m * fq2_of (fq_val (ax q)))"
    and c: "tow.vl c = 4 * h * fq2_of (fq_val (ay q))"
    and zz: "tow.vl (pzz rOut) = 2 * h" and zzz: "tow.vl (pzzz rOut) = (2 * h) ^ 2"
    and X: "tow.vl (px rOut) = 4 * m ^ 2 - 4 * h ^ 2 * ((x' - x) + 2 * x)"
    and Y: "tow.vl (py rOut) = (4 * x * h ^ 2 - (4 * m ^ 2 - 4 * h ^ 2 * ((x' - x) + 2 * x))) * (2 * m) - 8 * y * h ^ 3"
    using out g q p r2
    by (auto simp: lineFunctionAdd_def Let_def L v h_def m_def power2_eq_square power3_eq_cube eval_nat_numeral algebra_simps)
  have l: "l * h = m" using n by (simp add: l_def slope_def h_def m_def)
  have lx: "l * (x' - x) = y' - y" using n by (simp add: l_def slope_def)
  define x3 where "x3 = l ^ 2 - x - x'"
  define y3 where "y3 = - y - l * (x3 - x)"
  have s: "aadd 0 (Affine x y) (Affine x' y') = Affine x3 y3" using n by (simp add: Let_def x3_def y3_def l_def)
  have "(4 :: fq2) = 2 * 2" by simp
  then have k: "4 * h \<noteq> 0" "2 * h \<noteq> 0"
    using n z two_fq2 by (simp_all only: h_def mult_eq_0_iff power_eq_0_iff right_minus_eq) simp_all
  have "tow.vl a = (l * x - y) * (4 * h)" "tow.vl b = - (l * fq2_of (fq_val (ax q))) * (4 * h)"
    "tow.vl c = fq2_of (fq_val (ay q)) * (4 * h)"
    unfolding a b c l [symmetric] using lx by algebra+
  from line_repI [OF o(1-3) k(1) this]
  have rep: "line_rep a b c (line_value l x y (fq_val (ax q), fq_val (ay q)))" .
  have XY: "tow.vl (px rOut) = x3 * (2 * h) ^ 2" "tow.vl (py rOut) = y3 * (2 * h) ^ 3"
    unfolding X Y x3_def y3_def l [symmetric] by algebra+
  have "jac rOut x3 y3"
    unfolding jac_def zz zzz XY using o k(2) by (simp del: power_mult_distrib)
  then show ?thesis using s rep unfolding l_def by blast
qed

lemma mulLine_value:
  assumes "tow.gd12 ret" "line_rep a b c v" "tow.vl12 ret = f * fq12_of2 k" "k \<noteq> 0"
  shows "tow.gd12 (mulLine E ret a b c) \<and> (\<exists>k. k \<noteq> 0 \<and> tow.vl12 (mulLine E ret a b c) = f * v * fq12_of2 k)"
proof -
  note L = tow.f6_laws(1-12) [OF tow.ok6_F [OF engine_fields(6)]] tow.f2_laws engine_fields f2_X
  obtain k' where k': "k' \<noteq> 0" "fq12_of2 (tow.vl c) + fq12_of2 (tow.vl b) * fq12_w + fq12_of2 (tow.vl a) * fq12_w ^ 3 = v * fq12_of2 k'"
    and g: "tow.gd a" "tow.gd b" "tow.gd c" using assms(2) by (auto simp: line_rep_def)
  let ?ab = "\<lparr>f6_x = f2_fZero (en_f2 E), f6_y = a, f6_z = b\<rparr>" and ?abc = "\<lparr>f6_x = f2_fZero (en_f2 E), f6_y = a, f6_z = F2_add (en_f2 E) b c\<rparr>"
  have ab: "tow.gd6 ?ab" "tow.vl6 ?ab = fq6_of (tow.vl a) * fq6_tau + fq6_of (tow.vl b)"
    "tow.gd6 ?abc" "tow.vl6 ?abc = fq6_of (tow.vl a) * fq6_tau + fq6_of (tow.vl b) + fq6_of (tow.vl c)"
    using g by (simp_all add: tow.gd6_def tow.vl6_def L fq6_eq_iff)
  have r: "tow.gd6 (f12_x ret)" "tow.gd6 (f12_y ret)" using assms(1) by (simp_all add: tow.gd12_def)
  have "tow.gd12 (mulLine E ret a b c) \<and> tow.vl12 (mulLine E ret a b c)
      = tow.vl12 ret * (fq12_of2 (tow.vl c) + fq12_of2 (tow.vl b) * fq12_w + fq12_of2 (tow.vl a) * fq12_w ^ 3)"
    using r ab g
    by (simp add: mulLine_def Let_def L(1-12) tow.gd12_def tow.vl12_def fq12_eq_iff fq12_of2_def power3_eq_cube)
      (simp add: algebra_simps)
  then have "tow.gd12 (mulLine E ret a b c) \<and> tow.vl12 (mulLine E ret a b c) = f * v * fq12_of2 (k * k')"
    unfolding k'(2) assms(3) fq12_of2_hom by (simp only: ac_simps)
  moreover have "k * k' \<noteq> 0" using k'(1) assms(4) by simp
  ultimately show ?thesis by blast
qed

end

end
