(* ===== verification/Miller.thy ===== *)
theory Miller
  imports Pairing
begin

text \<open>
  The Miller loop of the verifier computes the optimal ate pairing of the textbook, up to a factor
  of the quadratic extension, on every pair of points for which no tangent or chord is vertical.
\<close>

section \<open>The constants of the Frobenius map\<close>

lemma q_minus_1: "(q_nat - 1) div 3 = (q_nat - 1) div 6 * 2" "(q_nat - 1) div 2 = (q_nat - 1) div 6 * 3"
  by (simp_all add: q_nat_def fq_prime_def)

lemma xi_frob: "fq2_xi ^ ((q_nat - 1) div 3) = xi_sixth ^ 2" "fq2_xi ^ ((q_nat - 1) div 2) = xi_sixth ^ 3"
  unfolding q_minus_1 power_mult xi_power by simp_all

lemma twist_frob_conj: "twist_frob (Affine x y) = Affine (fq2_conj x * xi_sixth ^ 2) (fq2_conj y * xi_sixth ^ 3)"
  unfolding twist_frob.simps xi_frob fq2_power_q ..

lemma fq2_conj_hom: "fq2_conj (x * y) = fq2_conj x * fq2_conj y" "fq2_conj (x ^ n) = fq2_conj x ^ n" "fq2_conj (fq2_conj x) = x"
proof -
  show m: "fq2_conj (x * y) = fq2_conj x * fq2_conj y" for x y by (simp add: fq2_conj_def fq2_eq_iff)
  show "fq2_conj (x ^ n) = fq2_conj x ^ n" by (simp add: power_mult mult.commute flip: fq2_power_q) (simp flip: power_mult add: mult.commute)
  show "fq2_conj (fq2_conj x) = x" by (simp add: fq2_conj_def)
qed

lemma twist_frob2: "aneg (twist_frob (twist_frob (Affine x y))) = Affine (x * fq2_of (fq_omega6 ^ 2)) y"
proof -
  have "fq2_of (fq_omega6 ^ 3) = - 1" unfolding omega6_order(2) by (simp add: fq2_eq_iff)
  then show ?thesis
    unfolding twist_frob_conj fq2_conj_hom mult.assoc sixth_conj by simp
qed

section \<open>Points, on the curve or not\<close>

text \<open>The verifier does not check that the points it is given satisfy the equation of the curve, and
  the pairing does not need it: a point object stands for the quotients of its coordinates.\<close>

definition coord_point :: "('e \<Rightarrow> bool) \<Rightarrow> ('e \<Rightarrow> 'a::field) \<Rightarrow> 'e point \<Rightarrow> 'a apoint \<Rightarrow> bool" where
  "coord_point good ev p P \<longleftrightarrow> good (px p) \<and> good (py p) \<and> good (pzz p) \<and> good (pzzz p)
     \<and> (case P of Infinity \<Rightarrow> ev (pzz p) = 0
         | Affine x y \<Rightarrow> ev (pzz p) \<noteq> 0 \<and> ev (pzzz p) \<noteq> 0 \<and> x = ev (px p) / ev (pzz p) \<and> y = ev (py p) / ev (pzzz p))"

definition coord_affine :: "('e \<Rightarrow> bool) \<Rightarrow> ('e \<Rightarrow> 'a::field) \<Rightarrow> 'e point_affine \<Rightarrow> 'a apoint \<Rightarrow> bool" where
  "coord_affine good ev a P \<longleftrightarrow> good (ax a) \<and> good (ay a) \<and> affine_val ev a = P"

lemma rep_a_coord: "rep_a good ev a b p P \<Longrightarrow> coord_affine good ev p P"
  by (auto simp: rep_a_def affine_ok_def coord_affine_def)

lemma coord_affine_Affine: "coord_affine good ev p (Affine x y) \<Longrightarrow> ev (ax p) = x \<and> ev (ay p) = y \<and> \<not> (x = 0 \<and> y = 0)"
  by (auto simp: coord_affine_def affine_val_def split: if_splits)

context base_field
begin

lemma isZero_coord: "coord_point good ev p P \<Longrightarrow> isZero_p F p \<longleftrightarrow> P = Infinity"
  by (cases P) (auto simp: coord_point_def isZero_p_def laws)

lemma copy_ap_coord:
  "coord_point good ev p (Affine x y) \<Longrightarrow> good (ax (copy_ap F p)) \<and> good (ay (copy_ap F p)) \<and> ev (ax (copy_ap F p)) = x \<and> ev (ay (copy_ap F p)) = y"
  by (simp add: coord_point_def copy_ap_def isZero_p_def laws)

lemma xyzz_of_affine_coord: "coord_affine good ev a P \<Longrightarrow> coord_point good ev (xyzz_of_affine F a) P"
  by (auto simp: coord_affine_def coord_point_def affine_val_def xyzz_of_affine_def isZero_a_def laws)

lemma neg_pa_coord:
  "coord_affine good ev a P \<Longrightarrow> P \<noteq> Infinity \<Longrightarrow> coord_point good ev (neg_pa F r a s r) (aneg P)"
  by (cases P) (auto simp: coord_point_def neg_pa_store laws coord_affine_def affine_val_def split: if_splits)

end

context curve_field
begin

lemma rep_coord: "rp p P \<Longrightarrow> coord_point good ev p P"
  by (erule rep_p_cases) (auto simp: coord_point_def)

end

section \<open>The loop\<close>

context engine_class
begin

definition mst :: "limbs f12 \<times> limbs f2 point \<Rightarrow> fq12 \<times> fq2 apoint \<Rightarrow> bool" where
  "mst st v \<longleftrightarrow> tow.gd12 (fst st) \<and> (\<exists>k. k \<noteq> 0 \<and> tow.vl12 (fst st) = fst v * fq12_of2 k)
     \<and> (\<exists>x y. snd v = Affine x y \<and> jac (snd st) x y)"

lemma mst_line:
  assumes "mst (ret, r) (f, T)" "line_rep a b c l" "T' = Affine x3 y3" "jac r' x3 y3"
  shows "mst (mulLine E ret a b c, r') (f * l, T')"
  using assms mulLine_value [of ret a b c l f] by (auto simp: mst_def)

lemma miller_add_value:
  assumes st: "mst st v" and p: "tow.gd (ax p)" "tow.gd (ay p)"
    and q: "fq_good (ax q)" "fq_good (ay q)" and r2: "tow.gd r2" "tow.vl r2 = tow.vl (ay p) ^ 2"
    and out: "ate_add (fq_val (ax q), fq_val (ay q)) (Affine (tow.vl (ax p)) (tow.vl (ay p))) v = Some v'"
  shows "mst (miller_add E p q r2 st) v'"
proof -
  obtain ret r f T where s: "st = (ret, r)" "v = (f, T)" by fastforce
  obtain x y where T: "T = Affine x y" "jac r x y" using st by (auto simp: mst_def s)
  obtain a b c r' where l: "lineFunctionAdd E r p q r2 = (a, b, c, r')" using prod_cases4 by blast
  have n: "x \<noteq> tow.vl (ax p)" using out by (auto simp: s T split: if_splits)
  obtain x3 y3 where e: "line_rep a b c (line_value (slope 0 x y (tow.vl (ax p)) (tow.vl (ay p))) x y (fq_val (ax q), fq_val (ay q)))"
    "aadd 0 (Affine x y) (Affine (tow.vl (ax p)) (tow.vl (ay p))) = Affine x3 y3" "jac r' x3 y3"
    using lineFunctionAdd_value [OF T(2) p refl refl q r2 n l] by blast
  have "v' = (f * line_value (slope 0 x y (tow.vl (ax p)) (tow.vl (ay p))) x y (fq_val (ax q), fq_val (ay q)),
      aadd 0 (Affine x y) (Affine (tow.vl (ax p)) (tow.vl (ay p))))"
    using out n by (simp add: s T del: aadd.simps)
  then show ?thesis
    using mst_line [OF st [unfolded s] e(1,2,3)] by (simp add: miller_add_def s l del: aadd.simps)
qed

lemma miller_double_value:
  assumes st: "mst (ret, r) (f, T)" and q: "fq_good (ax q)" "fq_good (ay q)" and first: "first \<Longrightarrow> f = 1"
    and out: "ate_double (fq_val (ax q), fq_val (ay q)) (f, T) = Some v'"
    and l: "lineFunctionDouble E r q = (a, b, c, r')"
  shows "mst (mulLine E (if \<not> first then F12_square (en_f12 E) ret else ret) a b c, r') v'"
proof -
  let ?ret = "if \<not> first then F12_square (en_f12 E) ret else ret"
  obtain x y where T: "T = Affine x y" "jac r x y" using st by (auto simp: mst_def)
  obtain k where k: "k \<noteq> 0" "tow.vl12 ret = f * fq12_of2 k" "tow.gd12 ret" using st by (auto simp: mst_def)
  have n: "y \<noteq> 0" using out by (auto simp: T split: if_splits)
  obtain x3 y3 where e: "line_rep a b c (line_value (slope 0 x y x y) x y (fq_val (ax q), fq_val (ay q)))"
    "aadd 0 (Affine x y) (Affine x y) = Affine x3 y3" "jac r' x3 y3"
    using lineFunctionDouble_value [OF T(2) q n l] by blast
  have v': "v' = (f ^ 2 * line_value (slope 0 x y x y) x y (fq_val (ax q), fq_val (ay q)), aadd 0 (Affine x y) (Affine x y))"
    using out n by (simp add: T del: aadd.simps)
  have "tow.gd12 ?ret \<and> (\<exists>k. k \<noteq> 0 \<and> tow.vl12 ?ret = f ^ 2 * fq12_of2 k)"
  proof (cases first)
    case True
    then show ?thesis using k first by auto
  next
    case False
    have "tow.vl12 (F12_square (en_f12 E) ret) = f ^ 2 * fq12_of2 (k * k)" "tow.gd12 (F12_square (en_f12 E) ret)"
      using tow.f12_square [OF engine_fields(7) k(3)] by (simp_all add: k(2) fq12_of2_hom power2_eq_square ac_simps)
    then show ?thesis using False k(1) by (intro conjI exI [of _ "k * k"]) simp_all
  qed
  then have "mst (?ret, r) (f ^ 2, T)" using T by (auto simp: mst_def)
  from mst_line [OF this e(1,2,3)] show ?thesis by (simp add: v' del: aadd.simps)
qed

lemma miller_round_value:
  assumes st: "mst st v" and q: "fq_good (ax q)" "fq_good (ay q)" and first: "first \<Longrightarrow> fst v = 1"
    and p: "tow.gd (ax p)" "tow.gd (ay p)" "tow.gd (ax m)" "tow.gd (ay m)" "tow.vl (ax m) = tow.vl (ax p)" "tow.vl (ay m) = - tow.vl (ay p)"
    and r2: "tow.gd r2" "tow.vl r2 = tow.vl (ay p) ^ 2"
    and out: "ate_round (fq_val (ax q), fq_val (ay q)) (Affine (tow.vl (ax p)) (tow.vl (ay p))) d v = Some v'"
  shows "mst (miller_round E p m q r2 first d st) v'"
proof -
  obtain ret r f T where s: "st = (ret, r)" "v = (f, T)" by fastforce
  obtain a b c r' where l: "lineFunctionDouble E r q = (a, b, c, r')" using prod_cases4 by blast
  let ?P = "(fq_val (ax q), fq_val (ay q))"
  obtain v1 where v1: "ate_double ?P (f, T) = Some v1" using out by (auto simp: ate_round_def s split: option.splits)
  let ?ret = "mulLine E (if \<not> first then F12_square (en_f12 E) ret else ret) a b c"
  have m: "mst (?ret, r') v1" by (rule miller_double_value [OF st [unfolded s] q _ v1 l]) (use first s in simp)
  consider "d = 1" | "d = - 1" | "d \<noteq> 1" "d \<noteq> - 1" by blast
  then show ?thesis
  proof cases
    case 1
    then show ?thesis
      using miller_add_value [OF m p(1,2) q r2] out by (simp add: miller_round_def ate_round_def s l v1)
  next
    case 2
    have "tow.vl r2 = tow.vl (ay m) ^ 2" using r2 p by simp
    then show ?thesis
      using 2 miller_add_value [OF m p(3,4) q r2(1), of v'] out p(5,6) by (simp add: miller_round_def ate_round_def s l v1)
  next
    case 3
    then show ?thesis using m out by (simp add: miller_round_def ate_round_def s l v1)
  qed
qed

lemma miller_loop_value:
  assumes q: "fq_good (ax q)" "fq_good (ay q)"
    and p: "tow.gd (ax p)" "tow.gd (ay p)" "tow.gd (ax m)" "tow.gd (ay m)" "tow.vl (ax m) = tow.vl (ax p)" "tow.vl (ay m) = - tow.vl (ay p)"
    and r2: "tow.gd r2" "tow.vl r2 = tow.vl (ay p) ^ 2"
    and st: "mst st v" and n: "n \<le> count" "n = count \<Longrightarrow> fst v = 1"
    and out: "ate_loop (fq_val (ax q), fq_val (ay q)) (Affine (tow.vl (ax p)) (tow.vl (ay p))) n v = Some v'"
  shows "mst (miller_loop E p m q r2 count n st) v'"
  using st n out
proof (induction n arbitrary: st v)
  case (Suc n)
  obtain v1 where v1: "ate_round (fq_val (ax q), fq_val (ay q)) (Affine (tow.vl (ax p)) (tow.vl (ay p))) (sixuPlus2NAF ! n) v = Some v1"
    "ate_loop (fq_val (ax q), fq_val (ay q)) (Affine (tow.vl (ax p)) (tow.vl (ay p))) n v1 = Some v'"
    using Suc.prems(4) by (auto split: option.splits)
  have "mst (miller_round E p m q r2 (Suc n = count) (sixuPlus2NAF ! n) st) v1"
    by (rule miller_round_value [OF Suc.prems(1) q _ p r2 v1(1)]) (use Suc.prems(3) in simp)
  then show ?case using Suc.IH [OF _ _ _ v1(2)] Suc.prems(2) by simp
qed simp

section \<open>The whole function\<close>

definition verifier_ok :: "verifier \<Rightarrow> bool" where
  "verifier_ok V \<longleftrightarrow> tow.gd (v_xiToPMinus1Over3 V) \<and> tow.vl (v_xiToPMinus1Over3 V) = xi_sixth ^ 2
     \<and> tow.gd (v_xiToPMinus1Over2 V) \<and> tow.vl (v_xiToPMinus1Over2 V) = xi_sixth ^ 3
     \<and> fq_good (v_xiToPSquaredMinus1Over3 V) \<and> fq_val (v_xiToPSquaredMinus1Over3 V) = fq_omega6 ^ 2"

lemma Verifier_new_ok: "\<exists>V. Verifier_new G Z = Some (Ok V) \<and> verifier_ok V"
proof -
  obtain c1 where c1: "F2_fromString (Fq_fromString G Z)
      ''21575463638280843010398324269430826099269044274347216827212613867836435027261,10307601595873709700152284273816112264069230130616436755625194854815875713954'' = Some (Ok c1)"
    "tow.gd c1" "tow.vl c1 = xi_sixth ^ 2"
    by (rule tow.f2_constant [where s = "''21575463638280843010398324269430826099269044274347216827212613867836435027261''"
        and t = "''10307601595873709700152284273816112264069230130616436755625194854815875713954''" and w = "[]"
        and a = 21575463638280843010398324269430826099269044274347216827212613867836435027261
        and b = 10307601595873709700152284273816112264069230130616436755625194854815875713954])
      (simp_all add: is_digit_def dec_val_def xi_sixth_powers)
  obtain c2 where c2: "F2_fromString (Fq_fromString G Z)
      ''2821565182194536844548159561693502659359617185244120367078079554186484126554,3505843767911556378687030309984248845540243509899259641013678093033130930403'' = Some (Ok c2)"
    "tow.gd c2" "tow.vl c2 = xi_sixth ^ 3"
    by (rule tow.f2_constant [where s = "''2821565182194536844548159561693502659359617185244120367078079554186484126554''"
        and t = "''3505843767911556378687030309984248845540243509899259641013678093033130930403''" and w = "[]"
        and a = 2821565182194536844548159561693502659359617185244120367078079554186484126554
        and b = 3505843767911556378687030309984248845540243509899259641013678093033130930403])
      (simp_all add: is_digit_def dec_val_def xi_sixth_powers)
  have c3: "fq_good (Fq_fromString G Z ''21888242871839275220042445260109153167277707414472061641714758635765020556616'')"
    "fq_val (Fq_fromString G Z ''21888242871839275220042445260109153167277707414472061641714758635765020556616'') = fq_omega6 ^ 2"
    using tow.fs_int [of "''21888242871839275220042445260109153167277707414472061641714758635765020556616''"
        21888242871839275220042445260109153167277707414472061641714758635765020556616]
    unfolding tow.omega6_constants by (simp_all add: is_digit_def dec_val_def)
  show ?thesis
    unfolding Verifier_new_def c1(1) c2(1) bind_oo.simps
    using c1(2,3) c2(2,3) c3 by (simp add: verifier_ok_def)
qed

lemma G1F_eq: "G1F E = RawFq_ops G Z"
  by (simp add: engine_fields truncate_fq)

lemma G2F_eq: "G2F E = G2_ops G Z"
  by (simp add: engine_fields)

lemma jac_affine: "tow.gd x \<Longrightarrow> tow.gd y \<Longrightarrow> jac \<lparr>px = x, py = y, pzz = f2_fOne (en_f2 E), pzzz = f2_fOne (en_f2 E)\<rparr> (tow.vl x) (tow.vl y)"
  by (simp add: jac_def engine_fields f2_X tow.f2_laws tow.f2_consts)

lemma coord_one:
  assumes "tow.gd x" "tow.gd y"
  shows "coord_point tow.gd tow.vl \<lparr>px = x, py = y, pzz = f2_fOne (en_f2 E), pzzz = f2_fOne (en_f2 E)\<rparr> (Affine (tow.vl x) (tow.vl y))"
  using assms by (simp add: coord_point_def engine_fields f2_X tow.f2_laws tow.f2_consts)

lemmas copy_ap_one = c2.copy_ap_coord [OF coord_one, folded G2F_eq]

lemma miller_value:
  assumes V: "verifier_ok V" and Q: "coord_point tow.gd tow.vl q (Affine x' y')" and P: "coord_point fq_good fq_val p (Affine x y)"
    and out: "ate_miller (Affine x' y') (x, y) = Some f"
  shows "tow.gd12 (miller E V q p) \<and> (\<exists>k. k \<noteq> 0 \<and> tow.vl12 (miller E V q p) = f * fq12_of2 k)"
proof -
  define F where "F = en_f2 E"
  define aA where "aA = copy_ap (G2F E) q"
  define bA where "bA = copy_ap (G1F E) p"
  define mA where "mA = neg_aa (G2F E) aA"
  have y': "y' \<noteq> 0"
  proof
    assume "y' = 0"
    then have "ate_loop (x, y) (Affine x' y') 64 (1, Affine x' y') = None"
      using ate_loop.simps(2) [of "(x, y)" "Affine x' y'" 63 "(1, Affine x' y')"] by (simp add: ate_round_def)
    then show False using out by (simp add: ate_miller_def)
  qed
  have a: "tow.gd (ax aA)" "tow.gd (ay aA)" "tow.vl (ax aA) = x'" "tow.vl (ay aA) = y'"
    using c2.copy_ap_coord [OF Q] by (simp_all add: aA_def G2F_eq)
  have z: "\<not> isZero_a (G2F E) aA" using a y' by (simp add: isZero_a_def G2F_eq c2.laws)
  have b: "fq_good (ax bA)" "fq_good (ay bA)" "fq_val (ax bA) = x" "fq_val (ay bA) = y"
    using c1.copy_ap_coord [OF P] by (simp_all add: bA_def G1F_eq)
  have m: "tow.gd (ax mA)" "tow.gd (ay mA)" "tow.vl (ax mA) = tow.vl (ax aA)" "tow.vl (ay mA) = - tow.vl (ay aA)"
    using a by (simp_all add: mA_def neg_aa_def G2F_eq c2.laws)
  note L = tow.f2_laws tow.f2_consts engine_fields f2_X
  define r0 where "r0 = copy_pa (G2F E) (PVar 0) aA (\<lambda>_. fzero (en_g2 E)) (PVar 0)"
  have r0: "r0 = \<lparr>px = ax aA, py = ay aA, pzz = f2_fOne (en_f2 E), pzzz = f2_fOne (en_f2 E)\<rparr>"
    using z by (simp add: r0_def store_simps xyzz_of_affine_def) (simp add: F2_ops_def)
  have r: "jac r0 x' y'" unfolding r0 using jac_affine [OF a(1,2)] a(3,4) by simp
  define r2 where "r2 = F2_square F (ay aA)"
  have r2: "tow.gd r2" "tow.vl r2 = tow.vl (ay aA) ^ 2" using a by (simp_all add: r2_def F_def L)
  obtain v1 v2 v3 where v: "ate_loop (x, y) (Affine x' y') 64 (1, Affine x' y') = Some v1"
    "ate_add (x, y) (twist_frob (Affine x' y')) v1 = Some v2"
    "ate_add (x, y) (aneg (twist_frob (twist_frob (Affine x' y')))) v2 = Some v3" "f = fst v3"
    using out by (auto simp: ate_miller_def split: option.splits)
  define l where "l = miller_loop E aA mA bA r2 64 64 (f12_fOne (en_f12 E), r0)"
  have st0: "mst (f12_fOne (en_f12 E), r0) (1, Affine x' y')"
    using r tow.f12_consts [OF engine_fields(7)] by (auto simp: mst_def fq12_of2_hom intro: exI [of _ 1])
  have l: "mst l v1"
    unfolding l_def by (rule miller_loop_value [OF b(1,2) a(1,2) m r2 st0]) (simp_all add: a(3,4) b(3,4) v(1))
  define q1x where "q1x = F2_mul F (F2_conjugate F (ax aA)) (v_xiToPMinus1Over3 V)"
  define q1y where "q1y = F2_mul F (F2_conjugate F (ay aA)) (v_xiToPMinus1Over2 V)"
  define q1A where "q1A = copy_ap (G2F E) \<lparr>px = q1x, py = q1y, pzz = f2_fOne F, pzzz = f2_fOne F\<rparr>"
  have q1: "tow.gd q1x" "tow.gd q1y" "tow.vl q1x = fq2_conj x' * xi_sixth ^ 2" "tow.vl q1y = fq2_conj y' * xi_sixth ^ 3"
    using V a by (simp_all add: q1x_def q1y_def F_def L verifier_ok_def)
  have q1A: "tow.gd (ax q1A)" "tow.gd (ay q1A)" "tow.vl (ax q1A) = tow.vl q1x" "tow.vl (ay q1A) = tow.vl q1y"
    using copy_ap_one [OF q1(1,2)] by (simp_all add: q1A_def F_def)
  define r3 where "r3 = F2_square F q1y"
  have r3: "tow.gd r3" "tow.vl r3 = tow.vl (ay q1A) ^ 2" using q1 q1A by (simp_all add: r3_def F_def L)
  define s1 where "s1 = miller_add E q1A bA r3 l"
  have s1: "mst s1 v2"
    unfolding s1_def using v(2)
    by (intro miller_add_value [OF l q1A(1,2) b(1,2) r3]) (simp only: b(3,4) q1A(3,4) q1(3,4) twist_frob_conj)
  define q2x where "q2x = F2_mulScalar F (ax aA) (v_xiToPSquaredMinus1Over3 V)"
  have q2: "tow.gd q2x" "tow.vl q2x = x' * fq2_of (fq_omega6 ^ 2)"
    using V a by (simp_all add: q2x_def F_def L verifier_ok_def)
  define q2A where "q2A = copy_ap (G2F E) \<lparr>px = q2x, py = ay aA, pzz = f2_fOne F, pzzz = f2_fOne F\<rparr>"
  have q2A: "tow.gd (ax q2A)" "tow.gd (ay q2A)" "tow.vl (ax q2A) = tow.vl q2x" "tow.vl (ay q2A) = y'"
    using copy_ap_one [OF q2(1) a(2)] a(4) by (simp_all add: q2A_def F_def)
  have r4: "tow.gd (F2_square F (ay aA))" "tow.vl (F2_square F (ay aA)) = tow.vl (ay q2A) ^ 2"
    using a q2A by (simp_all add: F_def L)
  define s2 where "s2 = miller_add E q2A bA (F2_square F (ay aA)) s1"
  have s2: "mst s2 v3"
    unfolding s2_def using v(3)
    by (intro miller_add_value [OF s1 q2A(1,2) b(1,2) r4]) (simp only: b(3,4) q2A(3,4) q2(2) twist_frob2)
  have n: "length sixuPlus2NAF = 65" by (simp add: sixuPlus2NAF_value)
  have "miller E V q p = fst s2"
    unfolding s2_def s1_def l_def
    by (simp add: miller_def Let_def n split_beta r3_def r2_def q1A_def q2A_def q1x_def q1y_def q2x_def mA_def aA_def bA_def r0_def F_def)
  then show ?thesis using s2 v(4) by (simp add: mst_def)
qed

end

end
