(* ===== verification/VerifierCorrect.thy ===== *)
theory VerifierCorrect
  imports Miller CurveTheorems
begin

text \<open>
  The check of the verifier: the product of the four Miller loops, raised to the final exponent,
  is one exactly when the product of the four ate pairings is one, and the points that \<open>verify\<close>
  hands over are those of the Groth16 equation.
\<close>

section \<open>The Groth16 equation\<close>

text \<open>A pair of points for which no tangent or chord of the loop is vertical and no line passes
  through the point of the base field.\<close>

definition pairable :: "fq apoint \<Rightarrow> fq2 apoint \<Rightarrow> bool" where
  "pairable P Q \<longleftrightarrow> (\<exists>f. ate P Q = Some f \<and> f \<noteq> 0)"

definition pairing :: "fq apoint \<Rightarrow> fq2 apoint \<Rightarrow> fq12" where
  "pairing P Q = the (ate P Q) ^ ((q_nat ^ 12 - 1) div r_nat)"

definition public_point :: "fq apoint list \<Rightarrow> int list \<Rightarrow> fq apoint" where
  "public_point ic ns = g1_add (ic ! 0) (g1_sum (\<lambda>i. g1_mul (ns ! i) (ic ! (i + 1))) (length ns))"

lemma pairing_Infinity: "pairing Infinity Q = 1" "pairing P Infinity = 1"
    "pairable Infinity Q" "pairable P Infinity"
  by (cases P; simp add: pairing_def pairable_def)+

lemma prod_list_power: "prod_list (xs :: 'a::comm_monoid_mult list) ^ n = prod_list (map (\<lambda>x. x ^ n) xs)"
  by (induction xs) (simp_all add: power_mult_distrib)

section \<open>The bytes of a scalar\<close>

lemma elem_bytes_value: "length (elem_bytes x) = 8 * length x \<and> int (le_val (elem_bytes x)) = lval x"
proof (induction x)
  case (Cons w x)
  have "unat w mod 256 ^ 8 = unat w" using unsigned_less [of w, where ?'a = nat] by simp
  then show ?case using Cons by (simp add: elem_bytes_def le_val_append)
qed (simp add: elem_bytes_def)

context engine_class
begin

abbreviation "a1 \<equiv> coord_affine fq_good fq_val"
abbreviation "a2 \<equiv> coord_affine tow.gd tow.vl"
abbreviation "p1 \<equiv> coord_point fq_good fq_val"
abbreviation "p2 \<equiv> coord_point tow.gd tow.vl"

section \<open>The product of the pairings\<close>

definition acc_rep :: "limbs f12 \<Rightarrow> fq12 \<Rightarrow> bool" where
  "acc_rep acc g \<longleftrightarrow> tow.gd12 acc \<and> g \<noteq> 0 \<and> (\<exists>k. k \<noteq> 0 \<and> tow.vl12 acc = g * fq12_of2 k)"

definition pair_rep :: "limbs point \<times> limbs f2 point \<Rightarrow> fq apoint \<times> fq2 apoint \<Rightarrow> bool" where
  "pair_rep ab v \<longleftrightarrow> p1 (fst ab) (fst v) \<and> p2 (snd ab) (snd v) \<and> pairable (fst v) (snd v)"

lemma pairing_step_value:
  assumes V: "verifier_ok V" and p: "pair_rep ab v" and a: "acc_rep acc g"
  shows "acc_rep (pairing_step E V ab acc) (g * the (ate (fst v) (snd v)))"
proof -
  have r: "p1 (fst ab) (fst v)" "p2 (snd ab) (snd v)" using p by (simp_all add: pair_rep_def)
  have z: "isZero_p (G1F E) (fst ab) \<longleftrightarrow> fst v = Infinity" "isZero_p (G2F E) (snd ab) \<longleftrightarrow> snd v = Infinity"
    unfolding G1F_eq G2F_eq by (rule c1.isZero_coord [OF r(1)], rule c2.isZero_coord [OF r(2)])
  obtain f where f: "ate (fst v) (snd v) = Some f" "f \<noteq> 0" using p by (auto simp: pair_rep_def pairable_def)
  show ?thesis
  proof (cases "fst v = Infinity \<or> snd v = Infinity")
    case True
    then have "f = 1" using f(1) by (cases "fst v") auto
    then show ?thesis using True a f(1) by (auto simp: pairing_step_def z)
  next
    case False
    then obtain x y x' y' where v: "fst v = Affine x y" "snd v = Affine x' y'" by (metis apoint.exhaust)
    obtain k where k: "k \<noteq> 0" "tow.vl12 (miller E V (snd ab) (fst ab)) = f * fq12_of2 k" "tow.gd12 (miller E V (snd ab) (fst ab))"
      using miller_value [OF V r(2) [unfolded v(2)] r(1) [unfolded v(1)]] f(1) unfolding v by auto
    obtain k' where k': "k' \<noteq> 0" "tow.vl12 acc = g * fq12_of2 k'" "tow.gd12 acc" "g \<noteq> 0" using a by (auto simp: acc_rep_def)
    have "pairing_step E V ab acc = F12_mul (en_f12 E) acc (miller E V (snd ab) (fst ab))"
      using False by (simp add: pairing_step_def z)
    moreover have "tow.vl12 (F12_mul (en_f12 E) acc (miller E V (snd ab) (fst ab))) = g * f * fq12_of2 (k' * k)"
      "tow.gd12 (F12_mul (en_f12 E) acc (miller E V (snd ab) (fst ab)))"
      using tow.f12_mul [OF engine_fields(7) k'(3) k(3)] by (simp_all add: k(2) k'(2) fq12_of2_hom ac_simps)
    moreover have "k' * k \<noteq> 0" "g * f \<noteq> 0" using k(1) k'(1,4) f(2) by simp_all
    ultimately show ?thesis unfolding acc_rep_def f(1) option.sel by (intro conjI exI [of _ "k' * k"]) simp_all
  qed
qed

lemma pairing_fold_value:
  assumes V: "verifier_ok V"
  shows "list_all2 pair_rep xs vs \<Longrightarrow> acc_rep acc g
    \<Longrightarrow> acc_rep (fold (pairing_step E V) xs acc) (g * prod_list (map (\<lambda>v. the (ate (fst v) (snd v))) vs))"
proof (induction xs vs arbitrary: acc g rule: list_all2_induct)
  case (Cons x xs v vs)
  show ?case using Cons.IH [OF pairing_step_value [OF V Cons.hyps(1) Cons.prems]] by (simp add: mult.assoc)
qed simp

lemma pairingCheck_value:
  assumes V: "verifier_ok V" and ps: "list_all2 pair_rep (zip a b) vs"
  shows "pairingCheck E V a b \<longleftrightarrow> prod_list (map (\<lambda>v. pairing (fst v) (snd v)) vs) = 1"
proof -
  let ?acc = "fold (pairing_step E V) (zip a b) (f12_fOne (en_f12 E))"
  let ?g = "prod_list (map (\<lambda>v. the (ate (fst v) (snd v))) vs)" and ?n = "(q_nat ^ 12 - 1) div r_nat"
  have "acc_rep (f12_fOne (en_f12 E)) 1"
    using tow.f12_consts [OF engine_fields(7)] by (auto simp: acc_rep_def fq12_of2_hom intro: exI [of _ 1])
  from pairing_fold_value [OF V ps this] have acc: "acc_rep ?acc ?g" by simp
  then obtain k where k: "k \<noteq> 0" "tow.vl12 ?acc = ?g * fq12_of2 k" "tow.gd12 ?acc" "?g \<noteq> 0" by (auto simp: acc_rep_def)
  have "tow.vl12 ?acc \<noteq> 0" unfolding k(2) using k(1,4) by (simp add: fq12_of2_0_iff)
  note fin = finalExponentiation_value [OF k(3) this]
  have "tow.vl12 (finalExponentiation E ?acc) = ?g ^ ?n"
    using fin by (simp only: k(2) power_mult_distrib fq12_of2_final [OF k(1)] mult_1_right)
  also have "\<dots> = prod_list (map (\<lambda>v. pairing (fst v) (snd v)) vs)" by (simp only: prod_list_power pairing_def map_map o_def)
  finally show ?thesis using tow.f12_isOne [OF engine_fields(7)] fin by (simp only: pairingCheck_def Let_def)
qed

section \<open>The points of the check\<close>

lemma engine_C: "en_g1 E = c1.C" "en_g2 E = c2.C"
  by (simp_all add: engine_fields G1_C)

lemma input_step_value:
  assumes s: "c1.rp (s (PVar 0)) v" and ic: "c1.ra (vk_IC key ! (i + 1)) P" and n: "repr_m Fr_field (inputs ! i) n" "0 \<le> n" "n < fr_prime"
  shows "c1.rp (input_step G E key inputs i s (PVar 0)) (aadd 0 v (g1_mul n P))"
proof -
  let ?b = "elem_bytes (F_rawFromMontgomery Fr_field G (inputs ! i))"
  let ?s = "mulByScalar_a (RawFq_ops G Z) c1.C (PVar 1) (vk_IC key ! (i + 1)) ?b (of_nat 32) s"
  have r: "repr_n Fr_field (F_rawFromMontgomery Fr_field G (inputs ! i)) n"
    by (rule mont_field.repr_fromMont [OF raw_class_field.axioms(1) [OF raw_class_fieldI [OF gmp_mpn_axioms gmp_mpz_axioms field_ok_Fr]] n(1)])
  then have b: "length ?b = 32" "int (le_val ?b) = n"
    using elem_bytes_value [of "F_rawFromMontgomery Fr_field G (inputs ! i)"] n(2,3)
    by (simp_all add: repr_n_def raw_elem_def prime_of_fr)
  have m: "c1.rp (?s (PVar 1)) (g1_mul n P)" "?s (PVar 0) = s (PVar 0)"
    using c1.mulByScalar_a_rep [of 32 ?b "vk_IC key ! (i + 1)" P "PVar 1" s] b ic by (simp_all add: g1_mul_def g1_coefficients)
  have "input_step G E key inputs i s (PVar 0) = xyzz_add (RawFq_ops G Z) c1.C (s (PVar 0)) (?s (PVar 1))"
    using m(2) by (simp add: input_step_def Let_def engine_C G1F_eq store_simps)
  then show ?thesis using c1.xyzz_add_rep [OF s m(1)] by (simp add: g1_coefficients)
qed

lemma input_fold_value:
  assumes "\<And>i. i < n \<Longrightarrow> c1.ra (vk_IC key ! (i + 1)) (ic ! (i + 1))"
    and "\<And>i. i < n \<Longrightarrow> repr_m Fr_field (inputs ! i) (ns ! i) \<and> 0 \<le> ns ! i \<and> ns ! i < fr_prime"
  shows "c1.rp (fold (input_step G E key inputs) [0..<n] (\<lambda>_. fzero (en_g1 E)) (PVar 0))
    (g1_sum (\<lambda>i. g1_mul (ns ! i) (ic ! (i + 1))) n)"
  using assms
proof (induction n)
  case 0
  then show ?case using c1.fzero_rep by (simp add: engine_C g1_sum_def)
next
  case (Suc n)
  then show ?case
    using input_step_value [of "fold (input_step G E key inputs) [0..<n] (\<lambda>_. fzero (en_g1 E))" _ key n] by (simp add: g1_sum_def)
qed

lemma verify_value:
  assumes V: "verifier_ok V" and len: "length inputs + 1 = length (vk_IC key)"
    and ic: "\<And>i. i < length (vk_IC key) \<Longrightarrow> c1.ra (vk_IC key ! i) (ic ! i)"
    and ns: "length ns = length inputs"
      "\<And>i. i < length inputs \<Longrightarrow> repr_m Fr_field (inputs ! i) (ns ! i) \<and> 0 \<le> ns ! i \<and> ns ! i < fr_prime"
    and pr: "a1 (pr_A proof) A" "a2 (pr_B proof) B" "a1 (pr_C proof) C" "C \<noteq> Infinity"
    and key: "a1 (vk_Alpha key) alpha" "alpha \<noteq> Infinity" "a2 (vk_Beta key) beta" "a2 (vk_Gamma key) gamma"
      "a2 (vk_Delta key) delta"
    and pairs: "pairable A B" "pairable (aneg alpha) beta" "pairable (aneg (public_point ic ns)) gamma" "pairable (aneg C) delta"
  shows "verify G E V proof inputs key = Ok (pairing A B * pairing (aneg alpha) beta
    * pairing (aneg (public_point ic ns)) gamma * pairing (aneg C) delta = 1)"
proof -
  let ?n = "length inputs"
  let ?sum = "g1_sum (\<lambda>i. g1_mul (ns ! i) (ic ! (i + 1))) ?n"
  define s where "s = fold (input_step G E key inputs) [0..<?n] (\<lambda>_. fzero (en_g1 E))"
  have s: "c1.rp (s (PVar 0)) ?sum" unfolding s_def by (rule input_fold_value) (use ic len ns(2) in auto)
  have ic0: "c1.ra (vk_IC key ! 0) (ic ! 0)" by (rule ic) (use len in linarith)
  define vk where "vk = xyzz_add_mixed (RawFq_ops G Z) c1.C (s (PVar 0)) (vk_IC key ! 0)"
  have "c1.rp vk (aadd 0 ?sum (ic ! 0))" using c1.xyzz_add_mixed_rep [OF s ic0] by (simp add: vk_def g1_coefficients)
  moreover have "aadd 0 ?sum (ic ! 0) = public_point ic ns"
    using c1.grp.plus_comm [of ?sum "ic ! 0"] rep_p_on_curve [OF s] rep_a_on_curve [OF ic0] ns(1)
    by (simp add: public_point_def g1_add_def g1_coefficients)
  ultimately have vk: "c1.rp vk (public_point ic ns)" by simp
  define s1 where "s1 = add_ppa (G1F E) (en_g1 E) (PVar 0) (PVar 0) (vk_IC key ! 0) s"
  define s2 where "s2 = copy_pa (G1F E) (PVar 2) (pr_A proof) s1"
  define s3 where "s3 = neg_pa (G1F E) (PVar 3) (vk_Alpha key) s2"
  define s4 where "s4 = neg_pp (G1F E) (PVar 4) (PVar 0) s3"
  define s5 where "s5 = neg_pa (G1F E) (PVar 5) (pr_C proof) s4"
  have v0: "s3 (PVar 0) = vk" by (simp add: s3_def s2_def s1_def vk_def store_simps engine_C G1F_eq)
  have "s5 (PVar 2) = xyzz_of_affine (RawFq_ops G Z) (pr_A proof)" "s5 (PVar 3) = s3 (PVar 3)"
    "s5 (PVar 4) = vk\<lparr>py := f_neg (RawFq_ops G Z) (py vk)\<rparr>"
    using v0 by (simp_all add: s5_def s4_def s3_def s2_def store_simps G1F_eq)
  then have g1: "p1 (s5 (PVar 2)) A" "p1 (s5 (PVar 3)) (aneg alpha)" "p1 (s5 (PVar 4)) (aneg (public_point ic ns))"
    "p1 (s5 (PVar 5)) (aneg C)"
    using c1.xyzz_of_affine_coord [OF pr(1)] c1.neg_pa_coord [OF key(1,2), of "PVar 3" s2] c1.rep_coord [OF c1.neg_p_rep [OF vk]]
      c1.neg_pa_coord [OF pr(3,4), of "PVar 5" s4] by (simp_all add: s3_def s5_def G1F_eq)
  define t4 where "t4 = copy_pa (G2F E) (PVar 3) (vk_Delta key) (copy_pa (G2F E) (PVar 2) (vk_Gamma key)
    (copy_pa (G2F E) (PVar 1) (vk_Beta key) (copy_pa (G2F E) (PVar 0) (pr_B proof) (\<lambda>_. fzero (en_g2 E)))))"
  have g2: "p2 (t4 (PVar 0)) B" "p2 (t4 (PVar 1)) beta" "p2 (t4 (PVar 2)) gamma" "p2 (t4 (PVar 3)) delta"
    using pr(2) key(3-5) by (simp_all add: t4_def G2F_eq c2.xyzz_of_affine_coord)
  have "list_all2 pair_rep (zip (map s5 [PVar 2, PVar 3, PVar 4, PVar 5]) (map t4 [PVar 0, PVar 1, PVar 2, PVar 3]))
      [(A, B), (aneg alpha, beta), (aneg (public_point ic ns), gamma), (aneg C, delta)]"
    using g1 g2 pairs by (simp add: pair_rep_def)
  note c = pairingCheck_value [OF V this]
  have "verify G E V proof inputs key
      = Ok (pairingCheck E V (map s5 [PVar 2, PVar 3, PVar 4, PVar 5]) (map t4 [PVar 0, PVar 1, PVar 2, PVar 3]))"
    using len by (simp only: verify_def Let_def s_def s1_def s2_def s3_def s4_def s5_def t4_def) simp
  then show ?thesis unfolding c by (simp add: mult.assoc)
qed

end

end
