(* ===== verification/ProverCorrect.thy ===== *)
theory ProverCorrect
  imports ProverConstraints VerifierCorrect
begin

text \<open>
  The proof that \<open>prove\<close> returns is the one of the Groth16 scheme: the three points are the sums
  of the points of the key weighted with the witness and with the values of the quotient, blinded
  with the two random scalars.
\<close>

section \<open>The points of the scheme\<close>

record groth16_key =
  k_alpha1 :: "fq apoint"
  k_beta1 :: "fq apoint"
  k_beta2 :: "fq2 apoint"
  k_delta1 :: "fq apoint"
  k_delta2 :: "fq2 apoint"
  k_A :: "nat \<Rightarrow> fq apoint"
  k_B1 :: "nat \<Rightarrow> fq apoint"
  k_B2 :: "nat \<Rightarrow> fq2 apoint"
  k_C :: "nat \<Rightarrow> fq apoint"
  k_H :: "nat \<Rightarrow> fq apoint"

definition g2_add :: "fq2 apoint \<Rightarrow> fq2 apoint \<Rightarrow> fq2 apoint" where
  "g2_add v w = aadd 0 v w"

definition g2_mul :: "int \<Rightarrow> fq2 apoint \<Rightarrow> fq2 apoint" where
  "g2_mul k v = zmul (aadd 0) Infinity aneg k v"

definition g2_sum :: "(nat \<Rightarrow> fq2 apoint) \<Rightarrow> nat \<Rightarrow> fq2 apoint" where
  "g2_sum f n = nsum (aadd 0) Infinity f n"

definition proof_A :: "groth16_key \<Rightarrow> (nat \<Rightarrow> int) \<Rightarrow> nat \<Rightarrow> int \<Rightarrow> fq apoint" where
  "proof_A K w n r = g1_add (g1_add (g1_sum (\<lambda>i. g1_mul (w i) (k_A K i)) n) (k_alpha1 K)) (g1_mul r (k_delta1 K))"

definition proof_B1 :: "groth16_key \<Rightarrow> (nat \<Rightarrow> int) \<Rightarrow> nat \<Rightarrow> int \<Rightarrow> fq apoint" where
  "proof_B1 K w n s = g1_add (g1_add (g1_sum (\<lambda>i. g1_mul (w i) (k_B1 K i)) n) (k_beta1 K)) (g1_mul s (k_delta1 K))"

definition proof_B :: "groth16_key \<Rightarrow> (nat \<Rightarrow> int) \<Rightarrow> nat \<Rightarrow> int \<Rightarrow> fq2 apoint" where
  "proof_B K w n s = g2_add (g2_add (g2_sum (\<lambda>i. g2_mul (w i) (k_B2 K i)) n) (k_beta2 K)) (g2_mul s (k_delta2 K))"

text \<open>\<open>l\<close> is the number of public inputs, \<open>N\<close> the size of the domain.\<close>

definition proof_C :: "groth16_key \<Rightarrow> (nat \<Rightarrow> int) \<Rightarrow> (nat \<Rightarrow> int) \<Rightarrow> nat \<Rightarrow> nat \<Rightarrow> nat \<Rightarrow> int \<Rightarrow> int \<Rightarrow> fq apoint" where
  "proof_C K w h n l N r s =
     g1_add (g1_add (g1_add (g1_add (g1_sum (\<lambda>i. g1_mul (w (l + 1 + i)) (k_C K i)) (n - l - 1)) (g1_sum (\<lambda>i. g1_mul (h i) (k_H K i)) N))
       (g1_mul s (proof_A K w n r))) (g1_mul r (proof_B1 K w n s))) (aneg (g1_mul (r * s mod fr_prime) (k_delta1 K)))"

section \<open>Scalars in memory\<close>

lemma elem_bytes_length: "length (elem_bytes x) = 8 * length x"
  using elem_bytes_value by blast

lemma drop_elems: "\<forall>x \<in> set ws. length x = 4 \<Longrightarrow> drop (m * 32) (concat (map elem_bytes ws)) = concat (map elem_bytes (drop m ws))"
proof (induction ws arbitrary: m)
  case (Cons w ws)
  then show ?case by (cases m) (simp_all add: elem_bytes_length)
qed simp

lemma length_elems: "\<forall>x \<in> set ws. length x = 4 \<Longrightarrow> length (concat (map elem_bytes ws)) = length ws * 32"
  by (induction ws) (simp_all add: elem_bytes_length)

lemma scalar_at_elems:
  assumes "\<forall>x \<in> set ws. length x = 4" "i < length ws"
  shows "int (scalar_at (concat (map elem_bytes ws)) 32 i) = lval (ws ! i)"
proof -
  have "concat (map elem_bytes (drop i ws)) = elem_bytes (ws ! i) @ concat (map elem_bytes (drop (Suc i) ws))"
    using assms(2) by (simp flip: Cons_nth_drop_Suc)
  moreover have "length (elem_bytes (ws ! i)) = 32" using assms by (simp add: elem_bytes_length)
  ultimately show ?thesis using drop_elems [OF assms(1), of i] elem_bytes_value by (simp add: scalar_at_def)
qed

lemma limbs_of_bytes:
  "8 * n \<le> length bs \<Longrightarrow> lval (map (\<lambda>i. of_nat (le_val (take 8 (drop (8 * i) bs)))) [0..<n]) = int (le_val (take (8 * n) bs))"
proof (induction n)
  case (Suc n)
  let ?w = "take 8 (drop (8 * n) bs)"
  have "le_val ?w < 2 ^ 64" using le_val_upper [of ?w] Suc.prems by simp
  then have "uint (of_nat (le_val ?w) :: u64) = int (le_val ?w)" by (simp add: unsigned_of_nat take_bit_nat_eq_self)
  moreover have "take (8 * Suc n) bs = take (8 * n) bs @ ?w" using take_add [of "8 * n" 8 bs] by (simp add: add.commute)
  ultimately show ?case using Suc by (simp add: lval_append le_val_append power_mult del: take_append)
qed simp

lemma fill_random_value:
  assumes "length e = 4" "lval e = 0" "length bs = 31"
  shows "length (fill_random e bs) = 4" "lval (fill_random e bs) = int (le_val bs)"
proof -
  have l: "length (elem_bytes e) = 32" using assms(1) by (simp add: elem_bytes_length)
  have "le_val (take 31 (elem_bytes e) @ drop 31 (elem_bytes e)) = 0" using elem_bytes_value [of e] assms(2) by simp
  then have z: "le_val (drop 31 (elem_bytes e)) = 0" unfolding le_val_append using l by simp
  show "length (fill_random e bs) = 4" using assms by (simp add: fill_random_def)
  have "lval (fill_random e bs) = int (le_val (take (8 * 4) (bs @ drop 31 (elem_bytes e))))"
    using limbs_of_bytes [of 4 "bs @ drop 31 (elem_bytes e)"] assms l by (simp add: fill_random_def)
  then show "lval (fill_random e bs) = int (le_val bs)" using assms l z by (simp add: le_val_append)
qed

section \<open>The group operations\<close>

context curve_field
begin

lemma multiexp_rep:
  assumes bases: "\<And>i. i < unat n \<Longrightarrow> ra (bases ! i) (P i)" and n: "unat n < 2 ^ 31"
    and ws: "length ws = unat n" "\<forall>x \<in> set ws. length x = 4 \<and> lval x < 2 ^ 254"
    and sched: "\<And>n. schedule nThreads n (sched n)" "0 < nThreads"
  shows "rp (multiexp F C nThreads sched slots bases (concat (map elem_bytes ws)) n)
    (nsum (aadd (ev aa)) Infinity (\<lambda>i. smul (lval (ws ! i)) (P i)) (unat n))"
proof -
  let ?S = "concat (map elem_bytes ws)"
  have l: "\<forall>x \<in> set ws. length x = 4" using ws(2) by blast
  have s: "int (scalar_at ?S 32 i) = lval (ws ! i)" if "i < unat n" for i using scalar_at_elems [OF l] that ws(1) by simp
  have "scalar_at ?S 32 i < 2 ^ (8 * 32 - 2)" if "i < unat n" for i
  proof -
    have "lval (ws ! i) < 2 ^ 254" using ws that by simp
    then have "int (scalar_at ?S 32 i) < int (2 ^ 254)" using s [OF that] by simp
    then show ?thesis by (simp only: of_nat_less_iff) simp
  qed
  then have "rp (multiexp F C nThreads sched slots bases ?S n) (nsum (aadd (ev aa)) Infinity (\<lambda>i. smul (int (scalar_at ?S 32 i)) (P i)) (unat n))"
    unfolding multiexp_def using MSM_run_rep [where n = n and bases = bases and P = P and scalars = ?S and sz = 32 and nThreads = nThreads and sched = sched
        and r = "PVar 0" and v = 0] bases n sched length_elems [OF l] ws(1) by simp
  moreover have "nsum (aadd (ev aa)) Infinity (\<lambda>i. smul (int (scalar_at ?S 32 i)) (P i)) (unat n)
      = nsum (aadd (ev aa)) Infinity (\<lambda>i. smul (lval (ws ! i)) (P i)) (unat n)"
    by (rule grp.nsum_cong) (simp add: s)
  ultimately show ?thesis by simp
qed

end

section \<open>The key\<close>

definition g2_affine :: "limbs f2 point_affine \<Rightarrow> fq2 apoint \<Rightarrow> bool" where
  "g2_affine p v \<longleftrightarrow> rep_a (f2_good fq_good) (f2_val fq_val) 0 twist_b p v"

text \<open>The points of a prover object are on the curves and stand for those of an abstract key.\<close>

definition key_rep :: "prover \<Rightarrow> groth16_key \<Rightarrow> bool" where
  "key_rep P K \<longleftrightarrow> g1_affine (p_alpha1 P) (k_alpha1 K) \<and> g1_affine (p_beta1 P) (k_beta1 K) \<and> g2_affine (p_beta2 P) (k_beta2 K)
     \<and> g1_affine (p_delta1 P) (k_delta1 K) \<and> g2_affine (p_delta2 P) (k_delta2 K)
     \<and> (\<forall>i < unat (p_nVars P). g1_affine (p_pointsA P ! i) (k_A K i) \<and> g1_affine (p_pointsB1 P ! i) (k_B1 K i)
          \<and> g2_affine (p_pointsB2 P ! i) (k_B2 K i))
     \<and> (\<forall>i < unat (p_nVars P) - unat (p_nPublic P) - 1. g1_affine (p_pointsC P ! i) (k_C K i))
     \<and> (\<forall>i < unat (p_domainSize P). g1_affine (p_pointsH P ! i) (k_H K i))"

section \<open>The combination\<close>

context engine_class
begin

lemma combine_g1_value:
  assumes st: "\<And>i. c1.rp (st (PVar i)) (v i)" and len: "length r = 4" "length s = 4" "length rs = 4"
    and key: "c1.ra (p_alpha1 P) al" "c1.ra (p_beta1 P) be" "c1.ra (p_delta1 P) de"
  defines "A \<equiv> g1_add (g1_add (v 0) al) (g1_mul (lval r) de)" and "B \<equiv> g1_add (g1_add (v 1) be) (g1_mul (lval s) de)"
  shows "c1.rp (combine_g1 (RawFq_ops G Z) c1.C P r s rs st (PVar 0)) A"
    and "c1.rp (combine_g1 (RawFq_ops G Z) c1.C P r s rs st (PVar 2))
      (g1_add (g1_add (g1_add (g1_add (v 2) (v 3)) (g1_mul (lval s) A)) (g1_mul (lval r) B)) (aneg (g1_mul (lval rs) de)))"
proof -
  define ops where "ops = [AddMixed 0 0 (p_alpha1 P), MulAffine 4 (p_delta1 P) (elem_bytes r), Add 0 0 4,
    AddMixed 1 1 (p_beta1 P), MulAffine 4 (p_delta1 P) (elem_bytes s), Add 1 1 4, Add 2 2 3,
    Mul 4 0 (elem_bytes s), Add 2 2 4, Mul 4 1 (elem_bytes r), Add 2 2 4, MulAffine 4 (p_delta1 P) (elem_bytes rs), Sub 2 2 4]"
  have l: "length (elem_bytes r) = 32" "length (elem_bytes s) = 32" "length (elem_bytes rs) = 32"
    using len by (simp_all add: elem_bytes_length)
  have c: "combine_g1 (RawFq_ops G Z) c1.C P r s rs st = fold (call (RawFq_ops G Z) c1.C) ops st"
    unfolding combine_g1_def ops_def Let_def by (simp add: l)
  have ok: "args_ok (affine_ok fq_good fq_val (fq_val (Fq_fromString G Z ''0'')) (fq_val (Fq_fromString G Z ''3''))) op" if "op \<in> set ops" for op
    using that key l by (auto simp: ops_def rep_a_def scalar_ok_def)
  have val: "affine_val fq_val (p_alpha1 P) = al" "affine_val fq_val (p_beta1 P) = be" "affine_val fq_val (p_delta1 P) = de"
    using key by (simp_all add: rep_a_def)
  have e: "fold (abstract_call 0 (affine_val fq_val)) ops v 0 = A"
    "fold (abstract_call 0 (affine_val fq_val)) ops v 2 =
      g1_add (g1_add (g1_add (g1_add (v 2) (v 3)) (g1_mul (lval s) A)) (g1_mul (lval r) B)) (aneg (g1_mul (lval rs) de))"
    by (simp_all add: ops_def val elem_bytes_value g1_add_def g1_mul_def A_def B_def)
  note R = c1.calls_refine [where ops = ops and s = st and v = v, OF st ok]
  show "c1.rp (combine_g1 (RawFq_ops G Z) c1.C P r s rs st (PVar 0)) A"
    using R [of 0] unfolding c by (simp add: g1_coefficients e)
  show "c1.rp (combine_g1 (RawFq_ops G Z) c1.C P r s rs st (PVar 2))
      (g1_add (g1_add (g1_add (g1_add (v 2) (v 3)) (g1_mul (lval s) A)) (g1_mul (lval r) B)) (aneg (g1_mul (lval rs) de)))"
    using R [of 2] unfolding c by (simp add: g1_coefficients e)
qed

lemma combine_g2_value:
  assumes st: "\<And>i. c2.rp (st (PVar i)) (v i)" and len: "length s = 4" and key: "c2.ra (p_beta2 P) be" "c2.ra (p_delta2 P) de"
  shows "c2.rp (combine_g2 (G2_ops G Z) c2.C P s st (PVar 0)) (g2_add (g2_add (v 0) be) (g2_mul (lval s) de))"
proof -
  define ops where "ops = [AddMixed 0 0 (p_beta2 P), MulAffine 1 (p_delta2 P) (elem_bytes s), Add 0 0 1]"
  have l: "length (elem_bytes s) = 32" using len by (simp add: elem_bytes_length)
  have c: "combine_g2 (G2_ops G Z) c2.C P s st = fold (call (G2_ops G Z) c2.C) ops st"
    unfolding combine_g2_def ops_def Let_def by (simp add: l)
  have ok: "args_ok (affine_ok tow.gd tow.vl (tow.vl (G2_a G Z)) (tow.vl (G2_b G Z))) op" if "op \<in> set ops" for op
    using that key l by (auto simp: ops_def rep_a_def scalar_ok_def)
  have val: "affine_val tow.vl (p_beta2 P) = be" "affine_val tow.vl (p_delta2 P) = de" using key by (simp_all add: rep_a_def)
  have "fold (abstract_call 0 (affine_val tow.vl)) ops v 0 = g2_add (g2_add (v 0) be) (g2_mul (lval s) de)"
    by (simp add: ops_def val elem_bytes_value g2_add_def g2_mul_def)
  then show ?thesis
    using c2.calls_refine [where ops = ops and s = st and v = v and i = 0, OF st ok] unfolding c by (simp add: twist_coefficients)
qed

section \<open>The proof\<close>

lemma mont_fr: "mont_field G Fr_field"
  by (rule raw_class_field.axioms(1) [OF raw_class_fieldI [OF gmp_mpn_axioms gmp_mpz_axioms field_ok_Fr]])

lemma product_value:
  assumes "raw_elem Fr_field r" "raw_elem Fr_field s"
  shows "length (F_rawToMontgomery Fr_field G (F_rawMMul Fr_field G r s)) = 4
    \<and> lval (F_rawToMontgomery Fr_field G (F_rawMMul Fr_field G r s)) = lval r * lval s mod fr_prime"
proof -
  have r: "length r = 4" using assms(1) by (simp add: raw_elem_def)
  note m = mont_field.rawMMul [OF mont_fr r assms(2)]
  have "length (F_rawMMul Fr_field G r s) = 4" using m(1) by (simp add: raw_elem_def)
  then show ?thesis
    using mont_field.rawToMontgomery [OF mont_fr, of "F_rawMMul Fr_field G r s"] m(2) by (simp add: raw_elem_def prime_of_fr)
qed

lemma g1_multiexp:
  assumes "\<And>i. i < unat n \<Longrightarrow> g1_affine (bases ! i) (P i)" "unat n < 2 ^ 31" "length ws = unat n"
    "\<forall>x \<in> set ws. raw_elem Fr_field x" "\<And>n. schedule nThreads n (sched n)" "0 < nThreads"
  shows "c1.rp (multiexp (RawFq_ops G Z) c1.C nThreads sched slots bases (concat (map elem_bytes ws)) n)
    (g1_sum (\<lambda>i. g1_mul (lval (ws ! i)) (P i)) (unat n))"
proof -
  have "\<forall>x \<in> set ws. length x = 4 \<and> lval x < 2 ^ 254" using assms(4) by (auto simp: raw_elem_def prime_of_fr fr_prime_def)
  then show ?thesis
    using c1.multiexp_rep [where n = n and bases = bases and P = P and ws = ws and nThreads = nThreads and sched = sched and slots = slots] assms
    by (simp add: g1_affine_def g1_coefficients g1_sum_def g1_mul_def)
qed

lemma g2_multiexp:
  assumes "\<And>i. i < unat n \<Longrightarrow> g2_affine (bases ! i) (P i)" "unat n < 2 ^ 31" "length ws = unat n"
    "\<forall>x \<in> set ws. raw_elem Fr_field x" "\<And>n. schedule nThreads n (sched n)" "0 < nThreads"
  shows "c2.rp (multiexp (G2_ops G Z) c2.C nThreads sched slots bases (concat (map elem_bytes ws)) n)
    (g2_sum (\<lambda>i. g2_mul (lval (ws ! i)) (P i)) (unat n))"
proof -
  have "\<forall>x \<in> set ws. length x = 4 \<and> lval x < 2 ^ 254" using assms(4) by (auto simp: raw_elem_def prime_of_fr fr_prime_def)
  then show ?thesis
    using c2.multiexp_rep [where n = n and bases = bases and P = P and ws = ws and nThreads = nThreads and sched = sched and slots = slots] assms
    by (simp add: g2_affine_def twist_coefficients g2_sum_def g2_mul_def)
qed

text \<open>The scalars that \<open>prove\<close> hands to the multiplication with the points of the private part.\<close>

lemma private_scalars:
  assumes "\<forall>x \<in> set wtns. length x = 4" "unat l + 1 < 2 ^ 27"
  shows "drop (unat ((l + 1) * 32 :: u32)) (concat (map elem_bytes wtns)) = concat (map elem_bytes (drop (unat l + 1) wtns))"
proof -
  have "unat ((l + 1) * 32 :: u32) = (unat l + 1) * 32" using assms(2) by (simp add: unat_word_ariths)
  then show ?thesis by (simp only: drop_elems [OF assms(1)])
qed

lemma private_count: "unat l < unat n \<Longrightarrow> unat (ucast (n - l - 1 :: u32) :: u64) = unat n - unat l - 1"
proof -
  assume l: "unat l < unat n"
  then have "unat (n - l) = unat n - unat l" by (simp add: unat_sub word_le_nat_alt)
  then have "unat (n - l - 1) = unat n - unat l - 1" using l by (subst unat_sub) (simp_all add: word_le_nat_alt)
  then show ?thesis using unsigned_less [of "n - l - 1", where ?'a = nat] by (simp add: unsigned_ucast_eq take_bit_nat_eq_self)
qed

lemma unat_wide: "unat (ucast (n :: u32) :: u64) = unat n"
  using unsigned_less [of n, where ?'a = nat] by (simp add: unsigned_ucast_eq take_bit_nat_eq_self)

lemma prove_value:
  assumes T: "fft_tables (RawFr_ops G Z) fr_good fr_val fr_prime (p_fft P) w" and k: "k < 29" "k + 1 \<le> unat (fft_s (p_fft P))"
    and sch: "\<And>p s n. schedule nThreads n (sch p s n)" "0 < nThreads" and n: "unat (p_domainSize P) = 2 ^ k"
    and order: "\<And>n. mset (order n) = mset [0..<n]" and m: "m = nat (as_int (p_nCoefs P))"
    and ok: "\<And>i. i < m \<Longrightarrow> unat (c_s (p_coefs P ! i)) < unat (p_nVars P) \<and> raw_elem Fr_field (c_coef (p_coefs P ! i))
      \<and> unat (c_c (p_coefs P ! i)) < 2 ^ k"
    and wt: "length wtns = unat (p_nVars P)" "\<forall>x \<in> set wtns. raw_elem Fr_field x"
    and sz: "unat (p_nVars P) < 2 ^ 31" "unat (p_nPublic P) < unat (p_nVars P)" "unat (p_nPublic P) + 1 < 2 ^ 27"
    and key: "key_rep P K" and rnd: "length rb = 31" "length sb = 31"
  shows "\<exists>pf h. prove G E nThreads sch order garbage slots rb sb P wtns = Some pf \<and> (\<forall>i < 2 ^ k. 0 \<le> h i \<and> h i < fr_prime)
    \<and> quotient_values (fft_tables.omega (p_fft P) w (k + 1)) (fft_tables.omega (p_fft P) w k) (2 ^ k)
        (row_value (p_coefs P) m wtns True) (row_value (p_coefs P) m wtns False) (\<lambda>i. of_fr (h i))
    \<and> g1_affine (pr_A pf) (proof_A K (\<lambda>i. lval (wtns ! i)) (unat (p_nVars P)) (int (le_val rb)))
    \<and> g2_affine (pr_B pf) (proof_B K (\<lambda>i. lval (wtns ! i)) (unat (p_nVars P)) (int (le_val sb)))
    \<and> g1_affine (pr_C pf) (proof_C K (\<lambda>i. lval (wtns ! i)) h (unat (p_nVars P)) (unat (p_nPublic P)) (2 ^ k)
        (int (le_val rb)) (int (le_val sb)))"
proof -
  let ?F = "RawFr_ops G Z" and ?W = "\<lambda>i. lval (wtns ! i)" and ?n = "unat (p_nVars P)" and ?l = "unat (p_nPublic P)"
  have fr: "raw_fr G Z" by (rule raw_frI [OF gmp_mpn_axioms gmp_mpz_axioms])
  have l4: "\<forall>x \<in> set wtns. length x = 4" using wt(2) by (simp add: raw_elem_def)
  obtain h where h: "constraint_values G ?F nThreads sch order garbage P wtns = Some h" "length h = 2 ^ k"
    "\<forall>i < 2 ^ k. raw_elem Fr_field (h ! i)"
    "quotient_values (fft_tables.omega (p_fft P) w (k + 1)) (fft_tables.omega (p_fft P) w k) (2 ^ k)
        (row_value (p_coefs P) m wtns True) (row_value (p_coefs P) m wtns False) (\<lambda>i. of_fr (lval (h ! i)))"
    using raw_fr.constraint_values_value [where sch = sch and wtns = wtns and garbage = garbage, OF fr T k sch n order m] ok wt by (auto simp: fr_good_def)
  have hs: "\<forall>x \<in> set h. raw_elem Fr_field x" using h(2,3) by (auto simp: in_set_conv_nth)
  have k31: "(2::nat) ^ k < 2 ^ 31" using k(1) power_strict_increasing [of k 31 "2::nat"] by simp
  define r where "r = fill_random (f_zero ?F) rb"
  define s where "s = fill_random (f_zero ?F) sb"
  have z: "length (f_zero ?F) = 4" "lval (f_zero ?F) = 0"
    using raw_class_field.raw_consts(1) [OF raw_fr.axioms [OF fr]] by (simp_all add: RawFr_ops_def repr_m_def raw_elem_def)
  have le31: "int (le_val bs) < fr_prime" if "length bs = 31" for bs
    using le_val_upper [of bs] that by (simp add: fr_prime_def)
  have r: "raw_elem Fr_field r" "length r = 4" "lval r = int (le_val rb)"
    using fill_random_value [OF z rnd(1)] le31 [OF rnd(1)] by (simp_all add: r_def raw_elem_def prime_of_fr)
  have s: "raw_elem Fr_field s" "length s = 4" "lval s = int (le_val sb)"
    using fill_random_value [OF z rnd(2)] le31 [OF rnd(2)] by (simp_all add: s_def raw_elem_def prime_of_fr)
  define rs where "rs = F_rawToMontgomery Fr_field G (f_mul ?F r s)"
  have rs: "length rs = 4" "lval rs = lval r * lval s mod fr_prime"
    using product_value [OF r(1) s(1)] by (simp_all add: rs_def RawFr_ops_def)
  define me1 where "me1 p bases bytes c = multiexp (RawFq_ops G Z) c1.C nThreads (sch p 0) slots bases bytes c" for p bases bytes c
  define v where "v = (\<lambda>_ :: nat. Infinity)(0 := g1_sum (\<lambda>i. g1_mul (?W i) (k_A K i)) ?n, 1 := g1_sum (\<lambda>i. g1_mul (?W i) (k_B1 K i)) ?n,
    2 := g1_sum (\<lambda>i. g1_mul (?W (?l + 1 + i)) (k_C K i)) (?n - ?l - 1), 3 := g1_sum (\<lambda>i. g1_mul (lval (h ! i)) (k_H K i)) (2 ^ k))"
  define st where "st = (\<lambda>_. fzero c1.C)(PVar 0 := me1 0 (p_pointsA P) (concat (map elem_bytes wtns)) (ucast (p_nVars P)),
    PVar 1 := me1 1 (p_pointsB1 P) (concat (map elem_bytes wtns)) (ucast (p_nVars P)),
    PVar 2 := me1 3 (p_pointsC P) (concat (map elem_bytes (drop (?l + 1) wtns))) (ucast (p_nVars P - p_nPublic P - 1)),
    PVar 3 := me1 19 (p_pointsH P) (concat (map elem_bytes h)) (ucast (p_domainSize P)))"
  note K = key [unfolded key_rep_def]
  have m0: "c1.rp (st (PVar 0)) (v 0)" "c1.rp (st (PVar 1)) (v 1)"
    using g1_multiexp [where n = "ucast (p_nVars P)" and bases = "p_pointsA P" and P = "k_A K" and ws = wtns and sched = "sch 0 0"]
      g1_multiexp [where n = "ucast (p_nVars P)" and bases = "p_pointsB1 P" and P = "k_B1 K" and ws = wtns and sched = "sch 1 0"]
      K wt sz(1) sch by (simp_all add: st_def v_def me1_def unat_wide)
  have dr: "\<forall>x \<in> set (drop (?l + 1) wtns). raw_elem Fr_field x" "?n - ?l - 1 < 2 ^ 31" using wt(2) sz(1) by (auto dest: in_set_dropD)
  have "c1.rp (st (PVar 2)) (g1_sum (\<lambda>i. g1_mul (lval (drop (?l + 1) wtns ! i)) (k_C K i)) (?n - ?l - 1))"
    using g1_multiexp [where n = "ucast (p_nVars P - p_nPublic P - 1)" and bases = "p_pointsC P" and P = "k_C K" and ws = "drop (?l + 1) wtns"
        and sched = "sch 3 0"] K wt sch dr private_count [OF sz(2)]
    by (simp add: st_def me1_def)
  moreover have "g1_sum (\<lambda>i. g1_mul (lval (drop (?l + 1) wtns ! i)) (k_C K i)) (?n - ?l - 1) = v 2"
    unfolding v_def g1_sum_def using wt(1) sz(2) by (simp add: c1.grp.nsum_cong)
  ultimately have m2: "c1.rp (st (PVar 2)) (v 2)" by simp
  have m3: "c1.rp (st (PVar 3)) (v 3)"
    using g1_multiexp [where n = "ucast (p_domainSize P)" and bases = "p_pointsH P" and P = "k_H K" and ws = h and sched = "sch 19 0"]
      K hs h(2) k31 n sch by (simp add: st_def v_def me1_def unat_wide)
  have st: "c1.rp (st (PVar i)) (v i)" for i
  proof -
    consider "i = 0" | "i = 1" | "i = 2" | "i = 3" | "3 < i" by linarith
    then show ?thesis using m0 m2 m3 c1.fzero_rep by cases (simp_all add: st_def v_def)
  qed
  define st2 where "st2 = (\<lambda>_. fzero c2.C)(PVar 0 := multiexp (G2_ops G Z) c2.C nThreads (sch 2 0) slots (p_pointsB2 P)
    (concat (map elem_bytes wtns)) (ucast (p_nVars P)))"
  define v2 where "v2 = (\<lambda>_ :: nat. Infinity)(0 := g2_sum (\<lambda>i. g2_mul (?W i) (k_B2 K i)) ?n)"
  have st2: "c2.rp (st2 (PVar i)) (v2 i)" for i :: nat
    using g2_multiexp [where n = "ucast (p_nVars P)" and bases = "p_pointsB2 P" and P = "k_B2 K" and ws = wtns and sched = "sch 2 0"]
      K wt sz(1) sch c2.fzero_rep by (simp add: st2_def v2_def unat_wide)
  have key1: "c1.ra (p_alpha1 P) (k_alpha1 K)" "c1.ra (p_beta1 P) (k_beta1 K)" "c1.ra (p_delta1 P) (k_delta1 K)"
    and key2: "c2.ra (p_beta2 P) (k_beta2 K)" "c2.ra (p_delta2 P) (k_delta2 K)"
    using K by (simp_all add: g1_affine_def g2_affine_def g1_coefficients twist_coefficients)
  define res where "res = combine_g1 (RawFq_ops G Z) c1.C P r s rs st"
  define res2 where "res2 = combine_g2 (G2_ops G Z) c2.C P s st2"
  define pf where "pf = \<lparr>pr_A = copy_ap (RawFq_ops G Z) (res (PVar 0)), pr_B = copy_ap (G2_ops G Z) (res2 (PVar 0)),
    pr_C = copy_ap (RawFq_ops G Z) (res (PVar 2))\<rparr>"
  have "prove G E nThreads sch order garbage slots rb sb P wtns = Some pf"
    unfolding prove_def Let_def engine_fields(3) engine_C G1F_eq G2F_eq h(1) private_scalars [OF l4 sz(3)] bind.bind_lunit
    by (simp add: pf_def res_def res2_def st_def st2_def me1_def r_def s_def rs_def)
  moreover have "g1_affine (pr_A pf) (proof_A K ?W ?n (int (le_val rb)))"
    using c1.copy_ap_rep [OF combine_g1_value(1) [where st = st and v = v, OF st r(2) s(2) rs(1) key1]]
    by (simp add: pf_def res_def g1_affine_def g1_coefficients proof_A_def v_def r(3))
  moreover have "g1_affine (pr_C pf) (proof_C K ?W (\<lambda>i. lval (h ! i)) ?n ?l (2 ^ k) (int (le_val rb)) (int (le_val sb)))"
    using c1.copy_ap_rep [OF combine_g1_value(2) [where st = st and v = v, OF st r(2) s(2) rs(1) key1]]
    by (simp add: pf_def res_def g1_affine_def g1_coefficients proof_C_def proof_A_def proof_B1_def v_def r(3) s(3) rs(2))
  moreover have "g2_affine (pr_B pf) (proof_B K ?W ?n (int (le_val sb)))"
    using c2.copy_ap_rep [OF combine_g2_value [where st = st2 and v = v2, OF st2 s(2) key2]]
    by (simp add: pf_def res2_def g2_affine_def twist_coefficients proof_B_def v2_def s(3))
  moreover have "\<forall>i < 2 ^ k. 0 \<le> lval (h ! i) \<and> lval (h ! i) < fr_prime" using h(3) by (simp add: raw_elem_def prime_of_fr)
  ultimately show ?thesis using h(4) by (intro exI [of _ pf] exI [of _ "\<lambda>i. lval (h ! i)"]) blast
qed

end

end
