(* ===== verification/Cusp.thy ===== *)
theory Cusp
  imports Miller
begin

text \<open>
  A pair of points on which the pairing loop never meets a vertical line: on the cuspidal cubic
  \<open>y\<^sup>2 = x\<^sup>3\<close> the chord and tangent construction adds parameters, so the multiples of \<open>(1, 1)\<close> are
  known without computing them.
\<close>

definition cusp :: "fq2 \<Rightarrow> fq2 apoint" where
  "cusp t = Affine (inverse t ^ 2) (inverse t ^ 3)"

lemma fq2_two: "(2 :: fq2) \<noteq> 0"
  by (simp add: fq2_eq_iff fq_numeral_eq_0 fq_prime_def zdvd_not_zless)

lemma power2_neq: "(s :: fq2) ^ 2 \<noteq> t ^ 2 \<Longrightarrow> s \<noteq> t \<and> s + t \<noteq> 0"
  by (metis add_eq_0_iff power2_minus)

lemma cusp_add:
  assumes "t \<noteq> 0" "s \<noteq> 0" "s ^ 2 \<noteq> t ^ 2"
  shows "inverse t ^ 2 \<noteq> inverse s ^ 2" "aadd 0 (cusp t) (cusp s) = cusp (t + s)"
proof -
  define a b u where "a = inverse t" and "b = inverse s" and "u = inverse (t + s)"
  have n: "a \<noteq> 0" "b \<noteq> 0" using assms by (simp_all add: a_def b_def)
  show ne: "inverse t ^ 2 \<noteq> inverse s ^ 2" using assms by (simp add: power_inverse)
  then have ab: "a - b \<noteq> 0" "a + b \<noteq> 0" using power2_neq [of a b] by (auto simp: a_def b_def)
  have u: "u * (a + b) = a * b"
    using assms power2_neq [of s t] by (simp add: a_def b_def u_def divide_simps) (simp add: algebra_simps)
  have "b ^ 2 - a ^ 2 \<noteq> 0" using ne by (simp add: a_def b_def)
  moreover have "(b ^ 3 - a ^ 3) = (a + b - u) * (b ^ 2 - a ^ 2)" using u by algebra
  ultimately have l: "(b ^ 3 - a ^ 3) / (b ^ 2 - a ^ 2) = a + b - u" by simp
  have e: "(a + b - u) ^ 2 - a ^ 2 - b ^ 2 = u ^ 2" "- (a ^ 3) - (a + b - u) * (u ^ 2 - a ^ 2) = u ^ 3" using u by algebra+
  show "aadd 0 (cusp t) (cusp s) = cusp (t + s)"
    unfolding cusp_def aadd.simps slope_def Let_def a_def [symmetric] b_def [symmetric] u_def [symmetric]
    using ne by (simp only: l e if_False simp_thms a_def [symmetric] b_def [symmetric])
qed

lemma cusp_double:
  assumes "t \<noteq> 0"
  shows "inverse t ^ 3 \<noteq> 0" "aadd 0 (cusp t) (cusp t) = cusp (2 * t)"
proof -
  define a u where "a = inverse t" and "u = inverse (2 * t)"
  have a: "a \<noteq> 0" using assms by (simp add: a_def)
  then show n: "inverse t ^ 3 \<noteq> 0" by (simp add: a_def)
  note two = fq2_two
  have u: "2 * u = a" using two assms by (simp add: a_def u_def)
  have ny: "a ^ 3 \<noteq> - (a ^ 3)"
  proof
    assume "a ^ 3 = - (a ^ 3)"
    then have "2 * a ^ 3 = 0" by algebra
    then show False using a two by simp
  qed
  have "3 * (a ^ 2) ^ 2 = (3 * u) * (2 * a ^ 3)"
    unfolding u [symmetric] by (simp add: power2_eq_square power3_eq_cube)
  moreover have "2 * a ^ 3 \<noteq> 0" using a two by simp
  ultimately have l: "3 * (a ^ 2) ^ 2 / (2 * a ^ 3) = 3 * u" by (metis nonzero_mult_div_cancel_right)
  have e: "(3 * u) ^ 2 - a ^ 2 - a ^ 2 = u ^ 2" "- (a ^ 3) - 3 * u * (u ^ 2 - a ^ 2) = u ^ 3"
    unfolding u [symmetric] by (simp_all add: power2_eq_square power3_eq_cube algebra_simps)
  show "aadd 0 (cusp t) (cusp t) = cusp (2 * t)"
    unfolding cusp_def aadd.simps slope_def Let_def a_def [symmetric] u_def [symmetric] add_0_right
    using ny by (simp only: l e if_False if_True simp_thms)
qed

lemma ate_double_cusp: "t \<noteq> 0 \<Longrightarrow> \<exists>g. ate_double P (f, cusp t) = Some (g, cusp (2 * t))"
  using cusp_double [of t] by (simp add: cusp_def [of t] del: aadd.simps)

lemma ate_add_cusp: "t \<noteq> 0 \<Longrightarrow> s \<noteq> 0 \<Longrightarrow> s ^ 2 \<noteq> t ^ 2 \<Longrightarrow> \<exists>g. ate_add P (cusp s) (f, cusp t) = Some (g, cusp (t + s))"
  using cusp_add [of t s] by (simp add: cusp_def [of t] cusp_def [of s] del: aadd.simps)

lemma aneg_cusp: "aneg (cusp t) = cusp (- t)"
  by (simp add: cusp_def power3_eq_cube)

section \<open>The loop\<close>

definition base_int :: "int \<Rightarrow> fq2" where
  "base_int m = fq2_of (of_fq m)"

lemma base_int_hom: "base_int (m + n) = base_int m + base_int n" "base_int (m * n) = base_int m * base_int n"
  "base_int 1 = 1" "base_int (- m) = - base_int m" "base_int 2 = 2"
  using fq2_of_hom fq2_eq_iff by (simp_all add: base_int_def of_fq_hom) (simp_all add: fq2_eq_iff of_fq_int)

lemma base_int_nonzero: "0 < m \<Longrightarrow> m < fq_prime \<Longrightarrow> base_int m \<noteq> 0"
  by (simp add: base_int_def fq2_eq_iff of_fq_eq_0_iff zdvd_not_zless)

lemma base_int_square: "1 < m \<Longrightarrow> m < 2 ^ 100 \<Longrightarrow> (base_int m) ^ 2 \<noteq> 1"
proof
  assume m: "1 < m" "m < 2 ^ 100" and "base_int m ^ 2 = 1"
  then have "(base_int m - 1) * (base_int m + 1) = 0" by (simp add: power2_eq_square algebra_simps)
  then have "base_int (m + (- 1)) = 0 \<or> base_int (m + 1) = 0" unfolding base_int_hom by simp
  moreover have "0 < m + (- 1)" "m + (- 1) < fq_prime" "0 < m + 1" "m + 1 < fq_prime" using m by (simp_all add: fq_prime_def)
  ultimately show False using base_int_nonzero by blast
qed

lemma ate_round_cusp:
  assumes m: "1 \<le> m" "m < 2 ^ k" "k < 90" and d: "d \<in> {- 1, 0, 1}"
  shows "\<exists>g. ate_round P (cusp 1) d (f, cusp (base_int m)) = Some (g, cusp (base_int (2 * m + d)))"
proof -
  have b: "m < 2 ^ 90" using m(2,3) power_increasing [of k 90 "2 :: int"] by linarith
  have n: "base_int m \<noteq> 0" by (rule base_int_nonzero) (use m(1) b in \<open>simp_all add: fq_prime_def\<close>)
  have n2: "base_int (2 * m) \<noteq> 0" by (rule base_int_nonzero) (use m(1) b in \<open>simp_all add: fq_prime_def\<close>)
  have s: "base_int (2 * m) ^ 2 \<noteq> 1" by (rule base_int_square) (use m(1) b in simp_all)
  obtain g where g: "ate_double P (f, cusp (base_int m)) = Some (g, cusp (base_int (2 * m)))"
    using ate_double_cusp [OF n, of P f] unfolding base_int_hom by blast
  have p: "\<exists>h. ate_add P (cusp 1) (g, cusp (base_int (2 * m))) = Some (h, cusp (base_int (2 * m + 1)))"
    "\<exists>h. ate_add P (cusp (- 1)) (g, cusp (base_int (2 * m))) = Some (h, cusp (base_int (2 * m + - 1)))"
    using ate_add_cusp [OF n2, of 1 P g] ate_add_cusp [OF n2, of "- 1" P g] s unfolding base_int_hom(1,3,4) by fastforce+
  show ?thesis using d p by (auto simp: ate_round_def g aneg_cusp)
qed

lemma sixu_digit: "i < 65 \<Longrightarrow> sixuPlus2NAF ! i \<in> {- 1, 0, 1}"
proof -
  have "list_all (\<lambda>d. d \<in> {- 1, 0, 1}) sixuPlus2NAF" "length sixuPlus2NAF = 65" by (simp_all add: sixuPlus2NAF_def)
  then show "i < 65 \<Longrightarrow> ?thesis" by (metis list_all_length)
qed

lemma ate_loop_cusp:
  "1 \<le> m \<Longrightarrow> m < 2 ^ k \<Longrightarrow> k + n \<le> 90 \<Longrightarrow> n \<le> 64
    \<Longrightarrow> \<exists>g m'. ate_loop P (cusp 1) n (f, cusp (base_int m)) = Some (g, cusp (base_int m')) \<and> 1 \<le> m' \<and> m' < 2 ^ (k + n)"
proof (induction n arbitrary: f m k)
  case (Suc n)
  let ?d = "sixuPlus2NAF ! n"
  have d: "?d \<in> {- 1, 0, 1}" using Suc.prems(4) by (intro sixu_digit) simp
  obtain g where g: "ate_round P (cusp 1) ?d (f, cusp (base_int m)) = Some (g, cusp (base_int (2 * m + ?d)))"
    using ate_round_cusp [OF Suc.prems(1,2) _ d, of P f] Suc.prems(3) by fastforce
  have "1 \<le> 2 * m + ?d" "2 * m + ?d < 2 ^ Suc k" using d Suc.prems(1,2) by auto
  from Suc.IH [OF this, of g] show ?case using Suc.prems(3,4) by (simp add: g)
qed auto

section \<open>The last two additions\<close>

lemma inverse_sixth: "fq2_im (inverse xi_sixth) \<noteq> 0"
proof
  define b where "b = inverse xi_sixth"
  have x: "fq2_im xi_sixth \<noteq> 0" by (simp add: fq2_int_def of_fq_eq_0_iff fq_prime_def zdvd_not_zless)
  then have "b * xi_sixth = 1" by (auto simp: b_def fq2_eq_iff simp del: fq2.sel)
  moreover assume "fq2_im (inverse xi_sixth) = 0"
  ultimately have "fq2_re b * fq2_re xi_sixth = 1" "fq2_re b * fq2_im xi_sixth = 0" unfolding b_def fq2_eq_iff by simp_all
  then show False using x by auto
qed

lemma fq2_im_square_eq: "(x :: fq2) ^ 2 = y ^ 2 \<Longrightarrow> fq2_im x = 0 \<Longrightarrow> fq2_im y = 0"
  using power2_eq_iff [of x y] by auto

lemma ate_cusp: "\<exists>f. ate (Affine u v) (Affine 1 1) = Some f"
proof -
  let ?P = "(u, v)"
  define c where "c = inverse xi_sixth"
  define e where "e = fq2_of (- inverse fq_omega6)"
  have one: "Affine 1 1 = cusp 1" by (simp add: cusp_def)
  obtain g m where g: "ate_loop ?P (cusp 1) 64 (1, cusp (base_int 1)) = Some (g, cusp (base_int m))" "1 \<le> m" "m < 2 ^ (1 + 64)"
    using ate_loop_cusp [of 1 1 64 ?P 1] by auto
  define t where "t = base_int m"
  have "t \<noteq> 0" unfolding t_def by (rule base_int_nonzero) (use g(2,3) in \<open>simp_all add: fq_prime_def\<close>)
  moreover have t: "fq2_im t = 0" by (simp add: t_def base_int_def)
  moreover have c: "fq2_im c \<noteq> 0" unfolding c_def by (rule inverse_sixth)
  moreover have "xi_sixth \<noteq> 0" using inverse_sixth by auto
  ultimately have tc: "t \<noteq> 0" "c \<noteq> 0" "c ^ 2 \<noteq> t ^ 2" using fq2_im_square_eq [of t c] by auto
  have conj1: "fq2_conj 1 = 1" by (simp add: fq2_conj_def one_fq2_def)
  have q1: "twist_frob (cusp 1) = cusp c"
    unfolding one [symmetric] twist_frob_conj by (simp add: cusp_def c_def conj1)
  obtain g1 where g1: "ate_add ?P (cusp c) (g, cusp t) = Some (g1, cusp (t + c))" using ate_add_cusp [OF tc] by blast
  have w: "fq_omega6 \<noteq> 0" using omega6_order(3) by auto
  have im: "fq2_im (t + c) \<noteq> 0" "fq2_im e = 0" using t c by (simp_all add: e_def)
  have ie: "inverse e = - fq2_of fq_omega6" 
    by (rule inverse_unique) (use w in \<open>simp add: e_def fq2_eq_iff\<close>)
  have "- (fq2_of fq_omega6 ^ 3) = 1" unfolding fq2_of_power [symmetric] omega6_order(2) by (simp add: fq2_eq_iff)
  then have q2: "aneg (twist_frob (twist_frob (cusp 1))) = cusp e"
    unfolding one [symmetric] twist_frob2 by (simp add: cusp_def ie fq2_of_power)
  have "t + c \<noteq> 0" "e \<noteq> 0" "e ^ 2 \<noteq> (t + c) ^ 2" using im fq2_im_square_eq [of e "t + c"] w by (auto simp: e_def fq2_eq_iff)
  then obtain g2 where g2: "ate_add ?P (cusp e) (g1, cusp (t + c)) = Some (g2, cusp (t + c + e))" using ate_add_cusp by blast
  have "ate_miller (Affine 1 1) ?P = Some g2"
    unfolding one ate_miller_def q2 unfolding q1 g(1) [unfolded base_int_hom(3) t_def [symmetric]] option.case g1 g2 by simp
  then show ?thesis by simp
qed

section \<open>Nonzero values\<close>

lemma line_value_nonzero: "snd P \<noteq> 0 \<Longrightarrow> line_value l x y P \<noteq> 0"
  by (cases P) (auto simp: line_value_def fq12_of2_def fq12_eq_iff fq6_eq_iff fq2_eq_iff power3_eq_cube)

lemma ate_step_nonzero:
  "ate_double P st = Some st' \<Longrightarrow> snd P \<noteq> 0 \<Longrightarrow> fst st \<noteq> 0 \<Longrightarrow> fst st' \<noteq> 0"
  "ate_add P Q st = Some st' \<Longrightarrow> snd P \<noteq> 0 \<Longrightarrow> fst st \<noteq> 0 \<Longrightarrow> fst st' \<noteq> 0"
proof -
  obtain f T where st: "st = (f, T)" by fastforce
  show "ate_double P st = Some st' \<Longrightarrow> snd P \<noteq> 0 \<Longrightarrow> fst st \<noteq> 0 \<Longrightarrow> fst st' \<noteq> 0"
    unfolding st by (cases T) (auto simp: line_value_nonzero simp del: aadd.simps split: if_splits)
  show "ate_add P Q st = Some st' \<Longrightarrow> snd P \<noteq> 0 \<Longrightarrow> fst st \<noteq> 0 \<Longrightarrow> fst st' \<noteq> 0"
    unfolding st by (cases T; cases Q) (auto simp: line_value_nonzero simp del: aadd.simps split: if_splits)
qed

lemma ate_loop_nonzero: "ate_loop P Q n st = Some st' \<Longrightarrow> snd P \<noteq> 0 \<Longrightarrow> fst st \<noteq> 0 \<Longrightarrow> fst st' \<noteq> 0"
proof (induction n arbitrary: st)
  case (Suc n)
  then obtain s where s: "ate_round P Q (sixuPlus2NAF ! n) st = Some s" "ate_loop P Q n s = Some st'" by (auto split: option.splits)
  have "fst s \<noteq> 0"
    using s(1) Suc.prems(2,3) unfolding ate_round_def
    by (auto split: option.splits if_splits dest: ate_step_nonzero)
  then show ?case using Suc.IH [OF s(2) Suc.prems(2)] by simp
qed simp

lemma ate_nonzero: "ate (Affine x y) Q = Some f \<Longrightarrow> y \<noteq> 0 \<Longrightarrow> f \<noteq> 0"
proof (cases Q)
  case (Affine x' y')
  assume "ate (Affine x y) Q = Some f" "y \<noteq> 0"
  then show ?thesis
    by (auto simp: Affine ate_miller_def split: option.splits dest!: ate_loop_nonzero ate_step_nonzero)
qed auto

end
