(* ===== verification/PairingTheorems.thy ===== *)
theory PairingTheorems
  imports VerifierCorrect Cusp
begin

text \<open>
  The properties of the extension fields, the pairing and the verifier, for the engine that the
  constructor builds and any GMP that behaves as documented.
\<close>

section \<open>Elements and points\<close>

definition f12_elem :: "limbs f12 \<Rightarrow> fq12 \<Rightarrow> bool" where
  "f12_elem a x \<longleftrightarrow> tower.gd12 fq_good a \<and> tower.vl12 fq_val a = x"

definition g1_coord :: "limbs point \<Rightarrow> fq apoint \<Rightarrow> bool" where
  "g1_coord p v \<longleftrightarrow> coord_point fq_good fq_val p v"

definition g1_coords :: "limbs point_affine \<Rightarrow> fq apoint \<Rightarrow> bool" where
  "g1_coords a v \<longleftrightarrow> coord_affine fq_good fq_val a v"

definition g2_coords :: "limbs f2 point_affine \<Rightarrow> fq2 apoint \<Rightarrow> bool" where
  "g2_coords a v \<longleftrightarrow> coord_affine (f2_good fq_good) (f2_val fq_val) a v"

definition g2_coord :: "limbs f2 point \<Rightarrow> fq2 apoint \<Rightarrow> bool" where
  "g2_coord p v \<longleftrightarrow> coord_point (f2_good fq_good) (f2_val fq_val) p v"

lemma engine_classI:
  assumes "gmp_mpn G" "gmp_mpz Z" "Engine_new G Z = Some (Ok E)"
  shows "engine_class G Z E"
proof -
  have "engine_ok G Z E" using Engine_new_ok [OF assms(1,2)] assms(3) by auto
  then show ?thesis by (simp add: engine_class_def engine_class_axioms_def raw_fqI assms)
qed

lemma engine_f12: "engine_class G Z E \<Longrightarrow> tower (RawFq_inv_ops G Z) fq_good fq_val (Fq_fromString G Z)
    \<and> tower.ok12 (RawFq_inv_ops G Z) fq_good fq_val (Fq_fromString G Z) (en_f12 E)"
  using engine_class.engine_fields(7) raw_fq.tower_fq [OF engine_class.axioms(1)] by blast

lemma engine_ref_new: "Engine_new gmp_ref mpz_ref = Some (Ok engine_ref)"
  using Engine_new_ok [OF gref.gmp_mpn_axioms zref.gmp_mpz_axioms] by (auto simp: engine_ref_def)

lemma f12_constants:
  assumes "engine_class G Z E"
  shows "f12_elem (f12_fOne (en_f12 E)) 1" "f12_elem (f12_fNegOne (en_f12 E)) (- 1)"
  using tower.f12_consts [OF conjunct1 conjunct2, OF engine_f12 [OF assms] engine_f12 [OF assms]] by (simp_all add: f12_elem_def)

lemmas f12_one = f12_constants(1) [OF eref.engine_class_axioms]

section \<open>The field of degree 12\<close>

text \<open>C7: the operations of the class \<open>F12Field\<close> on reduced elements are those of the field of
  degree 12 over the base field: sums, differences, opposites, products, squares, quotients by
  nonzero elements; powers with a scalar of \<open>n\<close> bytes; the conjugate and the two Frobenius maps
  are the powers with the exponents \<open>q\<^sup>6\<close>, \<open>q\<close> and \<open>q\<^sup>2\<close>; the tests decide equality with one and zero.\<close>

theorem F12_refines_field:
  assumes "gmp_mpn G" and "gmp_mpz Z" and "Engine_new G Z = Some (Ok E)"
    and "f12_elem a x" and "f12_elem b y" and "length k = n" and "0 < n" and "n < 2 ^ 28"
  shows "f12_elem (F12_add (en_f12 E) a b) (x + y) \<and> f12_elem (F12_sub (en_f12 E) a b) (x - y)
    \<and> f12_elem (F12_neg (en_f12 E) a) (- x)
    \<and> f12_elem (F12_mul (en_f12 E) a b) (x * y) \<and> f12_elem (F12_square (en_f12 E) a) (x ^ 2)
    \<and> (x \<noteq> 0 \<longrightarrow> f12_elem (F12_inv (en_f12 E) a) (inverse x))
    \<and> (y \<noteq> 0 \<longrightarrow> f12_elem (F12_div (en_f12 E) a b) (x / y))
    \<and> f12_elem (F12_exp (en_f12 E) a k (of_nat n)) (x ^ le_val k)
    \<and> f12_elem (F12_conjugate (en_f12 E) a) (x ^ q_nat ^ 6)
    \<and> f12_elem (F12_Frobenius (en_f12 E) a) (x ^ q_nat)
    \<and> f12_elem (F12_FrobeniusP2 (en_f12 E) a) (x ^ q_nat ^ 2)
    \<and> (F12_isZero (en_f12 E) a \<longleftrightarrow> x = 0) \<and> (F12_isOne (en_f12 E) a \<longleftrightarrow> x = 1) \<and> (F12_eq (en_f12 E) a b \<longleftrightarrow> x = y)"
proof -
  note e = engine_classI [OF assms(1-3)]
  note T = conjunct1 [OF engine_f12 [OF e]] and Y = conjunct2 [OF engine_f12 [OF e]]
  note L = tower.f12_laws [OF T Y] tower.f12_inv [OF T Y] tower.f12_div [OF T Y]
    engine_class.F12_exp_value [OF e Y _ assms(6-8)]
  have g: "tower.gd12 fq_good a" "tower.gd12 fq_good b" and v: "x = tower.vl12 fq_val a" "y = tower.vl12 fq_val b"
    using assms(4,5) by (simp_all add: f12_elem_def)
  show ?thesis
    by (intro conjI impI) (use g in \<open>simp_all add: f12_elem_def v L\<close>)
qed

theorem F12_refines_field_witness:
  "f12_elem (F12_exp (en_f12 engine_ref) (F12_add (en_f12 engine_ref) (f12_fOne (en_f12 engine_ref)) (f12_fOne (en_f12 engine_ref)))
      [5, 1] (of_nat 2)) (2 ^ 261)"
proof -
  have "f12_elem (F12_add (en_f12 engine_ref) (f12_fOne (en_f12 engine_ref)) (f12_fOne (en_f12 engine_ref))) (1 + 1)"
    using F12_refines_field [OF gref.gmp_mpn_axioms zref.gmp_mpz_axioms engine_ref_new f12_one f12_one, of "[5, 1]" 2] by simp
  from F12_refines_field [OF gref.gmp_mpn_axioms zref.gmp_mpz_axioms engine_ref_new this f12_one, of "[5, 1]" 2]
  show ?thesis by simp
qed

section \<open>The pairing\<close>

text \<open>C6: the final exponentiation, an addition chain over the powers with the curve parameter and
  the Frobenius maps, raises a nonzero element to the power \<open>(q\<^sup>1\<^sup>2 - 1) / r\<close>.\<close>

theorem finalExponentiation_power:
  assumes "gmp_mpn G" and "gmp_mpz Z" and "Engine_new G Z = Some (Ok E)" and "f12_elem a x" and "x \<noteq> 0"
  shows "f12_elem (finalExponentiation E a) (x ^ ((q_nat ^ 12 - 1) div r_nat))"
  using engine_class.finalExponentiation_value [OF engine_classI [OF assms(1-3)], of a] assms(4,5) by (simp add: f12_elem_def)

theorem finalExponentiation_power_witness:
  "f12_elem (finalExponentiation engine_ref (f12_fNegOne (en_f12 engine_ref))) 1"
proof -
  have "f12_elem (finalExponentiation engine_ref (f12_fNegOne (en_f12 engine_ref))) ((- 1) ^ ((q_nat ^ 12 - 1) div r_nat))"
    by (rule finalExponentiation_power [OF gref.gmp_mpn_axioms zref.gmp_mpz_axioms engine_ref_new
        f12_constants(2) [OF eref.engine_class_axioms]]) simp
  moreover have "(- 1 :: fq12) ^ ((q_nat ^ 12 - 1) div r_nat) = 1"
    using fq12_of2_final [of "- 1"] by (simp only: fq12_of2_hom) simp
  ultimately show ?thesis by simp
qed

text \<open>C5: on two points other than infinity for which no tangent or chord is vertical, the Miller
  loop in Jacobian coordinates without divisions computes the textbook loop of the optimal ate
  pairing in affine coordinates, up to a nonzero factor of the quadratic extension, and the final
  exponentiation of the two is the same.\<close>

theorem miller_ate:
  assumes "gmp_mpn G" and "gmp_mpz Z" and "Engine_new G Z = Some (Ok E)" and "Verifier_new G Z = Some (Ok V)"
    and "g1_coord p (Affine x y)" and "g2_coord q (Affine x' y')" and "ate (Affine x y) (Affine x' y') = Some f"
  shows "\<exists>k. k \<noteq> 0 \<and> f12_elem (miller E V q p) (f * fq12_of2 k)
    \<and> (f * fq12_of2 k) ^ ((q_nat ^ 12 - 1) div r_nat) = f ^ ((q_nat ^ 12 - 1) div r_nat)"
proof -
  note e = engine_classI [OF assms(1-3)]
  have V: "engine_class.verifier_ok V" using engine_class.Verifier_new_ok [OF e] assms(4) by auto
  show ?thesis
    using engine_class.miller_value [OF e V, of q x' y' p x y f] assms(5-7) fq12_of2_final
    by (auto simp: f12_elem_def g1_coord_def g2_coord_def power_mult_distrib)
qed

text \<open>The points of the witnesses: all coordinates are one.\<close>

definition all_one :: "'e base_ops \<Rightarrow> 'e point" where
  "all_one F = \<lparr>px = f_one F, py = f_one F, pzz = f_one F, pzzz = f_one F\<rparr>"

definition both :: "'e \<Rightarrow> 'e point_affine" where
  "both c = \<lparr>ax = c, ay = c\<rparr>"

lemma all_one_coord: "base_field F good ev \<Longrightarrow> coord_point good ev (all_one F) (Affine 1 1)"
    "base_field F good ev \<Longrightarrow> coord_affine good ev (both (f_one F)) (Affine 1 1)"
    "base_field F good ev \<Longrightarrow> coord_affine good ev (both (f_zero F)) Infinity"
  using base_field.const_law [of F good ev]
  by (simp_all add: all_one_def both_def coord_point_def coord_affine_def affine_val_def)

lemmas ref_fields = curve_field.axioms(1) [OF G1_field [OF gref.gmp_mpn_axioms zref.gmp_mpz_axioms]]
  curve_field.axioms(1) [OF G2_field [OF gref.gmp_mpn_axioms zref.gmp_mpz_axioms]]

theorem miller_ate_witness:
  "\<exists>V f k. Verifier_new gmp_ref mpz_ref = Some (Ok V) \<and> ate (Affine 1 1) (Affine 1 1) = Some f \<and> k \<noteq> 0
    \<and> f12_elem (miller engine_ref V (all_one (G2_ops gmp_ref mpz_ref)) (all_one (RawFq_ops gmp_ref mpz_ref))) (f * fq12_of2 k)"
proof -
  obtain V where V: "Verifier_new gmp_ref mpz_ref = Some (Ok V)" using eref.Verifier_new_ok by blast
  obtain f where f: "ate (Affine 1 1) (Affine 1 1) = Some f" using ate_cusp by blast
  show ?thesis
    using miller_ate [OF gref.gmp_mpn_axioms zref.gmp_mpz_axioms engine_ref_new V _ _ f,
        of "all_one (RawFq_ops gmp_ref mpz_ref)" "all_one (G2_ops gmp_ref mpz_ref)"]
      all_one_coord(1) [OF ref_fields(1)] all_one_coord(1) [OF ref_fields(2)] V f
    by (auto simp: g1_coord_def g2_coord_def)
qed

section \<open>The verifier\<close>

text \<open>C3: \<open>verify\<close> throws when the number of inputs does not fit the key. Otherwise, for points of a
  proof and of a key whose four pairs are free of vertical lines, it returns whether
  \<open>e(A, B) e(-alpha, beta) e(-vk, gamma) e(-C, delta) = 1\<close>, where \<open>vk\<close> is the first point of \<open>IC\<close> plus the
  sum of the others multiplied by the public inputs and \<open>e\<close> is the reduced optimal ate pairing. The
  points of \<open>IC\<close> are on the curve; nothing is asked of the other points.\<close>

theorem verify_groth16:
  assumes "gmp_mpn G" and "gmp_mpz Z" and "Engine_new G Z = Some (Ok E)" and "Verifier_new G Z = Some (Ok V)"
    and "\<And>i. i < length (vk_IC key) \<Longrightarrow> g1_affine (vk_IC key ! i) (ic ! i)"
    and "length ns = length inputs"
    and "\<And>i. i < length inputs \<Longrightarrow> repr_m Fr_field (inputs ! i) (ns ! i) \<and> 0 \<le> ns ! i \<and> ns ! i < fr_prime"
    and "g1_coords (pr_A proof) A" and "g2_coords (pr_B proof) B" and "g1_coords (pr_C proof) C" and "C \<noteq> Infinity"
    and "g1_coords (vk_Alpha key) alpha" and "alpha \<noteq> Infinity"
    and "g2_coords (vk_Beta key) beta" and "g2_coords (vk_Gamma key) gamma" and "g2_coords (vk_Delta key) delta"
    and "pairable A B" and "pairable (aneg alpha) beta" and "pairable (aneg (public_point ic ns)) gamma" and "pairable (aneg C) delta"
  shows "verify G E V proof inputs key =
    (if length inputs + 1 \<noteq> length (vk_IC key) then Throw (invalid_argument ''len(inputs)+1 != len(vk.IC)'')
     else Ok (pairing A B * pairing (aneg alpha) beta * pairing (aneg (public_point ic ns)) gamma * pairing (aneg C) delta = 1))"
proof (cases "length inputs + 1 = length (vk_IC key)")
  case True
  note e = engine_classI [OF assms(1-3)]
  have V: "engine_class.verifier_ok V" using engine_class.Verifier_new_ok [OF e] assms(4) by auto
  have ic: "\<And>i. i < length (vk_IC key) \<Longrightarrow> rep_a fq_good fq_val (fq_val (Fq_fromString G Z ''0'')) (fq_val (Fq_fromString G Z ''3''))
      (vk_IC key ! i) (ic ! i)"
    using assms(5) by (simp add: g1_affine_def raw_fq.g1_coefficients [OF raw_fqI, OF assms(1,2)])
  show ?thesis
    using engine_class.verify_value [OF e V True ic assms(6,7) assms(8-10) [unfolded g1_coords_def g2_coords_def] assms(11)
        assms(12) [unfolded g1_coords_def] assms(13) assms(14-16) [unfolded g2_coords_def] assms(17-20)] True by simp
qed (simp add: verify_def)

text \<open>For the witness: the second points of the other three pairs are zero.\<close>

definition sample_proof :: groth16_proof where
  "sample_proof = \<lparr>pr_A = both (f_one (RawFq_ops gmp_ref mpz_ref)), pr_B = both (f_one (G2_ops gmp_ref mpz_ref)),
     pr_C = both (f_one (RawFq_ops gmp_ref mpz_ref))\<rparr>"

definition sample_key :: verification_key where
  "sample_key = \<lparr>vk_Alpha = both (f_one (RawFq_ops gmp_ref mpz_ref)), vk_Beta = both (f_zero (G2_ops gmp_ref mpz_ref)),
     vk_Gamma = both (f_zero (G2_ops gmp_ref mpz_ref)), vk_Delta = both (f_zero (G2_ops gmp_ref mpz_ref)),
     vk_IC = replicate 2 (foneAffine (G1_curve gmp_ref mpz_ref))\<rparr>"

theorem verify_groth16_witness:
  "\<exists>V. Verifier_new gmp_ref mpz_ref = Some (Ok V)
    \<and> verify gmp_ref engine_ref V sample_proof [fOne (RawF Fr_field gmp_ref mpz_ref)] sample_key
      = Ok (pairing (Affine 1 1) (Affine 1 1) = 1)"
proof -
  obtain V where V: "Verifier_new gmp_ref mpz_ref = Some (Ok V)" using eref.Verifier_new_ok by blast
  obtain f where f: "ate (Affine 1 1) (Affine 1 1) = Some f" using ate_cusp by blast
  then have "f \<noteq> 0" using ate_nonzero [OF f] by simp
  then have p: "pairable (Affine 1 1) (Affine 1 1)" using f by (simp only: pairable_def) blast
  note c = all_one_coord(2) [OF ref_fields(1)] all_one_coord(2) [OF ref_fields(2)] all_one_coord(3) [OF ref_fields(2)]
  have i: "repr_m Fr_field (fOne (RawF Fr_field gmp_ref mpz_ref)) 1"
    by (rule raw_class_field.raw_consts(2) [OF raw_class_fieldI [OF gref.gmp_mpn_axioms zref.gmp_mpz_axioms field_ok_Fr]])
  have "verify gmp_ref engine_ref V sample_proof [fOne (RawF Fr_field gmp_ref mpz_ref)] sample_key =
    (if length [fOne (RawF Fr_field gmp_ref mpz_ref)] + 1 \<noteq> length (vk_IC sample_key)
     then Throw (invalid_argument ''len(inputs)+1 != len(vk.IC)'')
     else Ok (pairing (Affine 1 1) (Affine 1 1) * pairing (aneg (Affine 1 1)) Infinity
       * pairing (aneg (public_point (replicate 2 (Affine 1 2)) [1])) Infinity * pairing (aneg (Affine 1 1)) Infinity = 1))"
    by (rule verify_groth16 [OF gref.gmp_mpn_axioms zref.gmp_mpz_axioms engine_ref_new V])
      (use c p i generator_ref(1) in \<open>simp_all add: sample_key_def sample_proof_def g1_coords_def g2_coords_def pairing_Infinity
        fr_prime_def\<close>)
  then show ?thesis using V by (simp add: sample_key_def pairing_Infinity)
qed

end
