(* ===== verification/FftTheorems.thy ===== *)
theory FftTheorems
  imports FrFft
begin

text \<open>
  The properties of the transform over the scalar field, for any GMP that behaves as documented,
  any number of threads and any schedule of the parallel loops.
\<close>

lemma fr_FFT:
  assumes "gmp_mpn G" and Z: "gmp_mpz Z" and t: "0 < nThreads" "nThreads < 2 ^ 64" "block_order nThreads order"
    and m: "2 ^ d \<le> unat maxDomainSize" "unat maxDomainSize < 2 ^ (d + 1)" "d \<le> 32"
  shows "if d \<le> 28
    then \<exists>T w. FFT (RawFr_ops G Z) Z nThreads order garbage maxDomainSize = Some (Ok T)
      \<and> fft_tables (RawFr_ops G Z) fr_good fr_val fr_prime T w \<and> d \<le> unat (fft_s T)
    else FFT (RawFr_ops G Z) Z nThreads order garbage maxDomainSize = Some (Throw (range_error ''Domain size too big for the curve''))"
proof -
  have l: "log2 maxDomainSize = Some (of_nat d)" using log2_loop_value [OF m(1,2), of 0] by (simp add: log2_def)
  have five: "0 \<le> (5 :: int)" "5 < fr_prime" by (simp_all add: fr_prime_def)
  show ?thesis
    using fft_setup.FFT_value [OF Fr_setup [OF assms(1,2)] fr_nqr [OF Z] five fr_half_order(4) fr_odd t l m(3)]
    unfolding fr_adicity .
qed

text \<open>The tables for eight points that one thread builds with the reference libraries. The root of the
  tables is their second entry.\<close>

definition fft_ref :: "limbs fft_obj" where
  "fft_ref = (case FFT (RawFr_ops gmp_ref mpz_ref) mpz_ref 1 [0] (\<lambda>k. []) 8 of Some (Ok T) \<Rightarrow> T)"

lemma fft_ref_tables: "fft_tables (RawFr_ops gmp_ref mpz_ref) fr_good fr_val fr_prime fft_ref (fr_val (fft_roots fft_ref ! 1))"
proof -
  have o: "block_order 1 [0]" by (simp add: block_order_def lessThan_Suc)
  obtain T w where T: "FFT (RawFr_ops gmp_ref mpz_ref) mpz_ref 1 [0] (\<lambda>k. []) 8 = Some (Ok T)"
    "fft_tables (RawFr_ops gmp_ref mpz_ref) fr_good fr_val fr_prime T w"
    using fr_FFT [OF gref.gmp_mpn_axioms zref.gmp_mpz_axioms _ _ o, of 3 8 "\<lambda>k. []"] by auto
  have "(1::nat) < 2 ^ unat (fft_s T)" using fft_tables.size(1) [OF T(2)] by (intro one_less_power) simp_all
  then have "fr_val (fft_roots T ! 1) = w" using fft_tables.roots [OF T(2), of 1] by simp
  then show ?thesis using T by (simp add: fft_ref_def)
qed

interpretation tfr: fft_tables "RawFr_ops gmp_ref mpz_ref" fr_good fr_val fr_prime fft_ref "fr_val (fft_roots fft_ref ! 1)"
  by (rule fft_ref_tables)

text \<open>C9: the transform. The constructor succeeds for every domain below \<open>2^29\<close> and throws
  above (up to \<open>2^33\<close>, where the table of roots has more than \<open>2^32\<close> entries). On an array whose
  length \<open>2^k\<close> is at most the domain, the transform computes the values of the polynomial with
  the given coefficients at the powers of a root of unity \<open>\<omega> k\<close> of order \<open>2^k\<close>; the
  result does not depend on the number of threads or on the schedule.\<close>

theorem fft_evaluates:
  assumes "gmp_mpn G" and "gmp_mpz Z"
    and "0 < nThreads" and "nThreads < 2 ^ 64" and "block_order nThreads order" and "\<And>s n. schedule nThreads n (sched s n)"
    and "maxDomainSize \<noteq> 0" and "unat maxDomainSize < 2 ^ 33"
  shows "if unat maxDomainSize < 2 ^ 29
    then \<exists>T \<omega>. FFT (RawFr_ops G Z) Z nThreads order garbage maxDomainSize = Some (Ok T)
      \<and> (\<forall>k n a. 2 ^ k \<le> unat maxDomainSize \<longrightarrow> unat n = 2 ^ k \<longrightarrow> length a = 2 ^ k \<longrightarrow> list_all fr_good a \<longrightarrow>
          root_of_unity (\<omega> k) k \<and> (\<exists>b. fft (RawFr_ops G Z) T nThreads sched a n = Some b \<and> length b = 2 ^ k \<and> list_all fr_good b
            \<and> (\<forall>i < 2 ^ k. fr_val (b ! i) = (\<Sum>j < 2 ^ k. fr_val (a ! j) * \<omega> k ^ (i * j)))))
    else FFT (RawFr_ops G Z) Z nThreads order garbage maxDomainSize = Some (Throw (range_error ''Domain size too big for the curve''))"
proof -
  obtain d where d: "2 ^ d \<le> unat maxDomainSize" "unat maxDomainSize < 2 ^ (d + 1)" using log2_total [OF assms(7)] by blast
  have "(2::nat) ^ d < 2 ^ 33" using d(1) assms(8) by (rule order_le_less_trans)
  then have d32: "d \<le> 32" using power_less_imp_less_exp [of "2::nat" d 33] by simp
  note F = fr_FFT [OF assms(1-5) d d32, of garbage]
  have iff: "unat maxDomainSize < 2 ^ 29 \<longleftrightarrow> d \<le> 28"
  proof
    assume "unat maxDomainSize < 2 ^ 29"
    then have "(2::nat) ^ d < 2 ^ 29" using d(1) by (rule order_le_less_trans [rotated])
    then show "d \<le> 28" using power_less_imp_less_exp [of "2::nat" d 29] by simp
  next
    assume "d \<le> 28"
    then have "(2::nat) ^ (d + 1) \<le> 2 ^ 29" by (intro power_increasing) simp_all
    then show "unat maxDomainSize < 2 ^ 29" using d(2) by linarith
  qed
  show ?thesis
  proof (cases "d \<le> 28")
    case True
    then obtain T w where T: "FFT (RawFr_ops G Z) Z nThreads order garbage maxDomainSize = Some (Ok T)"
      "fft_tables (RawFr_ops G Z) fr_good fr_val fr_prime T w" "d \<le> unat (fft_s T)" using F by auto
    let ?w = "fft_tables.omega T w"
    have "root_of_unity (?w k) k \<and> (\<exists>b. fft (RawFr_ops G Z) T nThreads sched a n = Some b \<and> length b = 2 ^ k \<and> list_all fr_good b
        \<and> (\<forall>i < 2 ^ k. fr_val (b ! i) = (\<Sum>j < 2 ^ k. fr_val (a ! j) * ?w k ^ (i * j))))"
      if k: "2 ^ k \<le> unat maxDomainSize" "unat n = 2 ^ k" "length a = 2 ^ k" "list_all fr_good a" for k n a
    proof -
      have "(2::nat) ^ k < 2 ^ (d + 1)" using k(1) d(2) by (rule order_le_less_trans)
      then have "k \<le> d" using power_less_imp_less_exp [of "2::nat" k "d + 1"] by simp
      then have "k \<le> 30" "k \<le> unat (fft_s T)" using True T(3) by simp_all
      then show ?thesis
        using fft_tables.fft_value [where sched = sched, OF T(2) assms(6,3) _ _ k(2-4)] fft_tables.omega_root [OF T(2)] by (simp add: dft_def)
    qed
    then show ?thesis using T(1) iff True by (simp only: if_True) blast
  qed (use F iff in simp)
qed

lemma fr_good_ref: "fr_good [1, 0, 0, 0]" "fr_good [2, 0, 0, 0]"
  by (simp_all add: fr_good_def raw_elem_def prime_of_Fr)

lemma one_thread: "\<exists>sched. \<forall>s n. schedule 1 n (sched (s :: nat) n)"
proof -
  obtain f where "\<forall>n. schedule 1 n (f n)" using schedule_exists [of 1] by metis
  then show ?thesis by (intro exI [of _ "\<lambda>s. f"]) blast
qed

lemma sum_two: "(\<Sum>j < 2. f j) = f 0 + f (1 :: nat)"
  by (simp add: numeral_2_eq_2)

theorem fft_evaluates_witness:
  "\<exists>T \<omega> sched b. FFT (RawFr_ops gmp_ref mpz_ref) mpz_ref 1 [0] (\<lambda>k. []) 2 = Some (Ok T) \<and> root_of_unity (\<omega> 1) 1
    \<and> fft (RawFr_ops gmp_ref mpz_ref) T 1 sched [[1, 0, 0, 0], [2, 0, 0, 0]] 2 = Some b
    \<and> fr_val (b ! 1) = fr_val [1, 0, 0, 0] + fr_val [2, 0, 0, 0] * \<omega> (1 :: nat)"
proof -
  obtain sched :: "nat \<Rightarrow> nat \<Rightarrow> (nat \<times> nat) list" where s: "\<And>s n. schedule 1 n (sched s n)" using one_thread by blast
  have o: "block_order 1 [0]" by (simp add: block_order_def lessThan_Suc)
  obtain T \<omega> where T: "FFT (RawFr_ops gmp_ref mpz_ref) mpz_ref 1 [0] (\<lambda>k. []) 2 = Some (Ok T)"
    "\<forall>k n a. 2 ^ k \<le> unat (2 :: u64) \<longrightarrow> unat n = 2 ^ k \<longrightarrow> length a = 2 ^ k \<longrightarrow> list_all fr_good a \<longrightarrow>
          root_of_unity (\<omega> k) k \<and> (\<exists>b. fft (RawFr_ops gmp_ref mpz_ref) T 1 sched a n = Some b \<and> length b = 2 ^ k \<and> list_all fr_good b
            \<and> (\<forall>i < 2 ^ k. fr_val (b ! i) = (\<Sum>j < 2 ^ k. fr_val (a ! j) * \<omega> k ^ (i * j))))"
    using fft_evaluates [where sched = sched, OF gref.gmp_mpn_axioms zref.gmp_mpz_axioms _ _ o s, of 2 "\<lambda>k. []"] by auto
  let ?a = "[[1, 0, 0, 0], [2, 0, 0, 0]] :: limbs list"
  have len: "unat (2 :: u64) = 2 ^ 1" "length ?a = 2 ^ 1" "2 ^ 1 \<le> unat (2 :: u64)" "list_all fr_good ?a" using fr_good_ref by simp_all
  obtain b where b: "root_of_unity (\<omega> 1) 1" "fft (RawFr_ops gmp_ref mpz_ref) T 1 sched ?a 2 = Some b"
      "\<forall>i < 2 ^ 1. fr_val (b ! i) = (\<Sum>j < 2 ^ 1. fr_val (?a ! j) * \<omega> 1 ^ (i * j))"
    using T(2) len by blast
  have "fr_val (b ! 1) = fr_val (?a ! 0) + fr_val (?a ! 1) * \<omega> 1" using b(3) by (simp add: sum_two)
  then have "fr_val (b ! 1) = fr_val [1, 0, 0, 0] + fr_val [2, 0, 0, 0] * \<omega> 1" by simp
  then show ?thesis using T(1) b by blast
qed

text \<open>C17: the transform and its inverse are inverse to each other, in both orders and limb for
  limb, for every length up to the domain, including lengths 1 and 2 where the loop over pairs
  is empty.\<close>

theorem fft_roundtrip:
  assumes "gmp_mpn G" and "gmp_mpz Z"
    and "0 < nThreads" and "nThreads < 2 ^ 64" and "block_order nThreads order"
    and "\<And>s n. schedule nThreads n (sched s n)" and "\<And>n. schedule nThreads n (sched' n)"
    and "FFT (RawFr_ops G Z) Z nThreads order garbage maxDomainSize = Some (Ok T)" and "unat maxDomainSize < 2 ^ 33"
    and "2 ^ k \<le> unat maxDomainSize" and "unat n = 2 ^ k" and "length a = 2 ^ k" and "list_all fr_good a"
  shows "Option.bind (fft (RawFr_ops G Z) T nThreads sched a n) (\<lambda>b. ifft (RawFr_ops G Z) T nThreads sched sched' b n) = Some a
    \<and> Option.bind (ifft (RawFr_ops G Z) T nThreads sched sched' a n) (\<lambda>b. fft (RawFr_ops G Z) T nThreads sched b n) = Some a"
proof -
  have nz: "maxDomainSize \<noteq> 0" using assms(10) by (metis le_zero_eq power_eq_0_iff unat_0 zero_neq_numeral)
  obtain d where d: "2 ^ d \<le> unat maxDomainSize" "unat maxDomainSize < 2 ^ (d + 1)" using log2_total [OF nz] by blast
  have "(2::nat) ^ d < 2 ^ 33" using d(1) assms(9) by (rule order_le_less_trans)
  then have d32: "d \<le> 32" using power_less_imp_less_exp [of "2::nat" d 33] by simp
  obtain w where T: "d \<le> 28" "fft_tables (RawFr_ops G Z) fr_good fr_val fr_prime T w" "d \<le> unat (fft_s T)"
    using fr_FFT [OF assms(1-5) d d32, of garbage] assms(8) by (auto split: if_splits)
  have "(2::nat) ^ k < 2 ^ (d + 1)" using assms(10) d(2) by (rule order_le_less_trans)
  then have "k \<le> d" using power_less_imp_less_exp [of "2::nat" k "d + 1"] by simp
  then have "k \<le> 30" "k \<le> unat (fft_s T)" using T by simp_all
  then show ?thesis
    using fft_tables.fft_ifft [where sched = sched and sched' = sched', OF T(2) assms(6,7,3) _ _ assms(11-13)] by blast
qed

theorem fft_roundtrip_witness:
  "\<exists>T sched sched'. FFT (RawFr_ops gmp_ref mpz_ref) mpz_ref 1 [0] (\<lambda>k. []) 1 = Some (Ok T)
    \<and> Option.bind (fft (RawFr_ops gmp_ref mpz_ref) T 1 sched [[2, 0, 0, 0]] 1)
        (\<lambda>b. ifft (RawFr_ops gmp_ref mpz_ref) T 1 sched sched' b 1) = Some [[2, 0, 0, 0]]"
proof -
  obtain sched :: "nat \<Rightarrow> nat \<Rightarrow> (nat \<times> nat) list" where s: "\<And>s n. schedule 1 n (sched s n)" using one_thread by blast
  have o: "block_order 1 [0]" by (simp add: block_order_def lessThan_Suc)
  obtain T where T: "FFT (RawFr_ops gmp_ref mpz_ref) mpz_ref 1 [0] (\<lambda>k. []) 1 = Some (Ok T)"
    using fr_FFT [OF gref.gmp_mpn_axioms zref.gmp_mpz_axioms _ _ o, of 0 1 "\<lambda>k. []"] by auto
  show ?thesis
    using fft_roundtrip [where sched = sched and sched' = "sched 0", OF gref.gmp_mpn_axioms zref.gmp_mpz_axioms _ _ o s s T, of 0 1 "[[2, 0, 0, 0]]"] T fr_good_ref by auto
qed

end
