(* ===== verification/ProverTheorems.thy ===== *)
theory ProverTheorems
  imports ProverCorrect PairingTheorems FftTheorems
begin

text \<open>
  The property of the prover, for the engine and the prover object that the constructors build and
  any GMP that behaves as documented.
\<close>

text \<open>The points that \<open>prove\<close> returns.\<close>

lemma prove_points:
  assumes "gmp_mpn G" and "gmp_mpz Z" and "Engine_new G Z = Some (Ok E)"
    and "0 < nThreads" and "nThreads < 2 ^ 64" and "block_order nThreads blocks" and "\<And>p s n. schedule nThreads n (sch p s n)"
    and "\<And>n. mset (order n) = mset [0..<n]"
    and "Prover_new E Z nThreads blocks garbage nVars nPublic domainSize nCoefs a1 b1 b2 d1 d2 coefs pA pB1 pB2 pC pH = Some (Ok P)"
    and "unat domainSize = 2 ^ k" and "k \<le> 27" and "unat nCoefs < 2 ^ 31" and "unat nVars < 2 ^ 31"
    and "unat nPublic < unat nVars" and "unat nPublic + 1 < 2 ^ 27"
    and "\<And>i. i < unat nCoefs \<Longrightarrow> unat (c_s (coefs ! i)) < unat nVars \<and> raw_elem Fr_field (c_coef (coefs ! i)) \<and> unat (c_c (coefs ! i)) < 2 ^ k"
    and "length wtns = unat nVars" and "\<forall>x \<in> set wtns. raw_elem Fr_field x"
    and "key_rep P K" and "length rb = 31" and "length sb = 31"
  shows "\<exists>pf h \<omega> \<eta>. prove G E nThreads sch order garbage slots rb sb P wtns = Some pf
    \<and> root_of_unity \<omega> k \<and> root_of_unity \<eta> (k + 1) \<and> \<eta> ^ 2 = \<omega>
    \<and> quotient_values \<eta> \<omega> (2 ^ k) (row_value coefs (unat nCoefs) wtns True) (row_value coefs (unat nCoefs) wtns False) (\<lambda>i. of_fr (h i))
    \<and> (\<forall>i < 2 ^ k. 0 \<le> h i \<and> h i < fr_prime)
    \<and> g1_affine (pr_A pf) (proof_A K (\<lambda>i. lval (wtns ! i)) (unat nVars) (int (le_val rb)))
    \<and> g2_affine (pr_B pf) (proof_B K (\<lambda>i. lval (wtns ! i)) (unat nVars) (int (le_val sb)))
    \<and> g1_affine (pr_C pf) (proof_C K (\<lambda>i. lval (wtns ! i)) h (unat nVars) (unat nPublic) (2 ^ k) (int (le_val rb)) (int (le_val sb)))"
proof -
  note e = engine_classI [OF assms(1-3)]
  obtain T where T: "FFT (RawFr_ops G Z) Z nThreads blocks garbage (ucast (domainSize * 2)) = Some (Ok T)"
    and P: "P = \<lparr>p_nVars = nVars, p_nPublic = nPublic, p_domainSize = domainSize, p_nCoefs = nCoefs,
      p_alpha1 = a1, p_beta1 = b1, p_beta2 = b2, p_delta1 = d1, p_delta2 = d2,
      p_coefs = coefs, p_pointsA = pA, p_pointsB1 = pB1, p_pointsB2 = pB2, p_pointsC = pC, p_pointsH = pH, p_fft = T\<rparr>"
    using assms(9) engine_class.engine_fields(3) [OF e] unfolding Prover_new_def
    by (auto elim!: bind_oo.elims)
  have "(2::nat) ^ (k + 1) \<le> 2 ^ 28" using assms(11) by (intro power_increasing) simp_all
  then have s: "unat (ucast (domainSize * 2) :: u64) = 2 ^ (k + 1)"
    unfolding engine_class.unat_wide [OF e] using assms(10) by (simp add: unat_word_ariths)
  then obtain w where w: "fft_tables (RawFr_ops G Z) fr_good fr_val fr_prime T w" "k + 1 \<le> unat (fft_s T)"
    using fr_FFT [OF assms(1,2,4,5,6), of "k + 1" "ucast (domainSize * 2)" garbage] T assms(11) by auto
  have m: "unat nCoefs = nat (as_int (p_nCoefs P))" using as_int_small [OF assms(12)] by (simp add: P)
  have "\<exists>pf h. prove G E nThreads sch order garbage slots rb sb P wtns = Some pf \<and> (\<forall>i < 2 ^ k. 0 \<le> h i \<and> h i < fr_prime)
    \<and> quotient_values (fft_tables.omega T w (k + 1)) (fft_tables.omega T w k) (2 ^ k)
        (row_value coefs (unat nCoefs) wtns True) (row_value coefs (unat nCoefs) wtns False) (\<lambda>i. of_fr (h i))
    \<and> g1_affine (pr_A pf) (proof_A K (\<lambda>i. lval (wtns ! i)) (unat nVars) (int (le_val rb)))
    \<and> g2_affine (pr_B pf) (proof_B K (\<lambda>i. lval (wtns ! i)) (unat nVars) (int (le_val sb)))
    \<and> g1_affine (pr_C pf) (proof_C K (\<lambda>i. lval (wtns ! i)) h (unat nVars) (unat nPublic) (2 ^ k) (int (le_val rb)) (int (le_val sb)))"
    using engine_class.prove_value [where P = P and w = w and k = k and sch = sch and order = order and nThreads = nThreads
        and m = "unat nCoefs" and wtns = wtns and K = K and rb = rb and sb = sb and garbage = garbage and slots = slots, OF e _ _ _ assms(7,4) _ assms(8) m]
      w assms(10-21) by (simp add: P)
  moreover have "root_of_unity (fft_tables.omega T w k) k" "root_of_unity (fft_tables.omega T w (k + 1)) (k + 1)"
    using w(2) by (auto intro: fft_tables.omega_root [OF w(1)])
  moreover have "fft_tables.omega T w (k + 1) ^ 2 = fft_tables.omega T w k"
    using fft_tables.omega_omega [OF w(1,2), of k] by simp
  ultimately show ?thesis by blast
qed

text \<open>For the witness: one variable, one coefficient, a domain of one point; every point of the key is
  the generator, those of the second group are zero.\<close>

definition sample_coef :: coef where
  "sample_coef = \<lparr>c_m = 0, c_c = 0, c_s = 0, c_coef = [3, 0, 0, 0]\<rparr>"

text \<open>C2: \<open>prove\<close> returns, for every number of threads, every schedule and every order of the
  guarded additions, and its three points are those of the Groth16 scheme: the weighted sums of
  the points of the key, where the weights \<open>h i\<close> are the values on the coset of the product of the
  interpolants of the rows of the two matrices minus the interpolant of their products, and the
  random bytes give the blinding scalars. The domain is a power of two up to \<open>2^27\<close>, the counts
  are below the bounds at which the 32-bit arithmetic of the code wraps, and the indices of the
  coefficients are in range (the code does not check them).\<close>

theorem prove_groth16:
  assumes "gmp_mpn G" and "gmp_mpz Z" and "Engine_new G Z = Some (Ok E)"
    and "0 < nThreads" and "nThreads < 2 ^ 64" and "block_order nThreads blocks" and "\<And>p s n. schedule nThreads n (sch p s n)"
    and "\<And>n. mset (order n) = mset [0..<n]"
    and "Prover_new E Z nThreads blocks garbage nVars nPublic domainSize nCoefs a1 b1 b2 d1 d2 coefs pA pB1 pB2 pC pH = Some (Ok P)"
    and "unat domainSize = 2 ^ k" and "k \<le> 27" and "unat nCoefs < 2 ^ 31" and "unat nVars < 2 ^ 31"
    and "unat nPublic < unat nVars" and "unat nPublic + 1 < 2 ^ 27"
    and "\<And>i. i < unat nCoefs \<Longrightarrow> unat (c_s (coefs ! i)) < unat nVars \<and> raw_elem Fr_field (c_coef (coefs ! i)) \<and> unat (c_c (coefs ! i)) < 2 ^ k"
    and "length wtns = unat nVars" and "\<forall>x \<in> set wtns. raw_elem Fr_field x"
    and "key_rep P K" and "length rb = 31" and "length sb = 31"
  shows "\<exists>pf h \<omega> \<eta>. prove G E nThreads sch order garbage slots rb sb P wtns = Some pf
    \<and> root_of_unity \<omega> k \<and> root_of_unity \<eta> (k + 1) \<and> \<eta> ^ 2 = \<omega>
    \<and> quotient_values \<eta> \<omega> (2 ^ k) (row_value coefs (unat nCoefs) wtns True) (row_value coefs (unat nCoefs) wtns False) (\<lambda>i. of_fr (h i))
    \<and> (\<forall>i < 2 ^ k. 0 \<le> h i \<and> h i < fr_prime)
    \<and> g1_affine (pr_A pf) (proof_A K (\<lambda>i. lval (wtns ! i)) (unat nVars) (int (le_val rb)))
    \<and> g2_affine (pr_B pf) (proof_B K (\<lambda>i. lval (wtns ! i)) (unat nVars) (int (le_val sb)))
    \<and> g1_affine (pr_C pf) (proof_C K (\<lambda>i. lval (wtns ! i)) h (unat nVars) (unat nPublic) (2 ^ k) (int (le_val rb)) (int (le_val sb)))"
  by (rule prove_points [OF assms])

definition sample_abstract_key :: groth16_key where
  "sample_abstract_key = \<lparr>k_alpha1 = Affine 1 2, k_beta1 = Affine 1 2, k_beta2 = Infinity, k_delta1 = Affine 1 2, k_delta2 = Infinity,
     k_A = (\<lambda>i. Affine 1 2), k_B1 = (\<lambda>i. Affine 1 2), k_B2 = (\<lambda>i. Infinity), k_C = (\<lambda>i. Affine 1 2), k_H = (\<lambda>i. Affine 1 2)\<rparr>"

abbreviation sample_g1 :: "limbs point_affine" where
  "sample_g1 \<equiv> foneAffine (G1_curve gmp_ref mpz_ref)"

abbreviation sample_g2 :: "limbs f2 point_affine" where
  "sample_g2 \<equiv> both (f_zero (G2_ops gmp_ref mpz_ref))"

lemma sample_prover:
  "\<exists>T. Prover_new engine_ref mpz_ref 1 [0] (\<lambda>k. []) 1 0 1 1 sample_g1 sample_g1 sample_g2 sample_g1 sample_g2
      [sample_coef] [sample_g1] [sample_g1] [sample_g2] [] [sample_g1]
    = Some (Ok \<lparr>p_nVars = 1, p_nPublic = 0, p_domainSize = 1, p_nCoefs = 1, p_alpha1 = sample_g1, p_beta1 = sample_g1,
      p_beta2 = sample_g2, p_delta1 = sample_g1, p_delta2 = sample_g2, p_coefs = [sample_coef], p_pointsA = [sample_g1],
      p_pointsB1 = [sample_g1], p_pointsB2 = [sample_g2], p_pointsC = [], p_pointsH = [sample_g1], p_fft = T\<rparr>)"
proof -
  have o: "block_order 1 [0]" by (simp add: block_order_def lessThan_Suc)
  obtain T where T: "FFT (RawFr_ops gmp_ref mpz_ref) mpz_ref 1 [0] (\<lambda>k. []) 2 = Some (Ok T)"
    using fr_FFT [OF gref.gmp_mpn_axioms zref.gmp_mpz_axioms _ _ o, of 1 2 "\<lambda>k. []"] by auto
  then show ?thesis by (simp add: Prover_new_def eref.engine_fields(3))
qed

theorem prove_groth16_witness:
  "\<exists>P sch pf. Prover_new engine_ref mpz_ref 1 [0] (\<lambda>k. []) 1 0 1 1 sample_g1 sample_g1 sample_g2 sample_g1 sample_g2
      [sample_coef] [sample_g1] [sample_g1] [sample_g2] [] [sample_g1] = Some (Ok P)
    \<and> prove gmp_ref engine_ref 1 sch (\<lambda>n. [0..<n]) (\<lambda>k. []) (\<lambda>k. 0) (replicate 31 0) (replicate 31 0) P [[5, 0, 0, 0]] = Some pf
    \<and> g1_affine (pr_A pf) (proof_A sample_abstract_key (\<lambda>i. lval ([[5, 0, 0, 0]] ! i)) 1 0)"
proof -
  have o: "block_order 1 [0]" by (simp add: block_order_def lessThan_Suc)
  obtain f where f: "\<And>n. schedule 1 n (f n)" using schedule_exists [of 1] by metis
  obtain T where P: "Prover_new engine_ref mpz_ref 1 [0] (\<lambda>k. []) 1 0 1 1 sample_g1 sample_g1 sample_g2 sample_g1 sample_g2
      [sample_coef] [sample_g1] [sample_g1] [sample_g2] [] [sample_g1]
    = Some (Ok \<lparr>p_nVars = 1, p_nPublic = 0, p_domainSize = 1, p_nCoefs = 1, p_alpha1 = sample_g1, p_beta1 = sample_g1,
      p_beta2 = sample_g2, p_delta1 = sample_g1, p_delta2 = sample_g2, p_coefs = [sample_coef], p_pointsA = [sample_g1],
      p_pointsB1 = [sample_g1], p_pointsB2 = [sample_g2], p_pointsC = [], p_pointsH = [sample_g1], p_fft = T\<rparr>)"
    (is "_ = Some (Ok ?P)") using sample_prover by blast
  have z: "g2_affine sample_g2 Infinity"
    using all_one_coord(3) [OF ref_fields(2)] by (auto simp: g2_affine_def rep_a_def affine_ok_def coord_affine_def)
  have K: "key_rep ?P sample_abstract_key"
    using generator_ref(1) z by (simp add: key_rep_def sample_abstract_key_def)
  have "\<exists>pf h \<omega> \<eta>. prove gmp_ref engine_ref 1 (\<lambda>p s. f) (\<lambda>n. [0..<n]) (\<lambda>k. []) (\<lambda>k. 0) (replicate 31 0) (replicate 31 0) ?P [[5, 0, 0, 0]] = Some pf
    \<and> root_of_unity \<omega> 0 \<and> root_of_unity \<eta> (0 + 1) \<and> \<eta> ^ 2 = \<omega>
    \<and> quotient_values \<eta> \<omega> (2 ^ 0) (row_value [sample_coef] (unat (1 :: u64)) [[5, 0, 0, 0]] True)
        (row_value [sample_coef] (unat (1 :: u64)) [[5, 0, 0, 0]] False) (\<lambda>i. of_fr (h i))
    \<and> (\<forall>i < 2 ^ 0. 0 \<le> h i \<and> h i < fr_prime)
    \<and> g1_affine (pr_A pf) (proof_A sample_abstract_key (\<lambda>i. lval ([[5, 0, 0, 0]] ! i)) (unat (1 :: u32)) (int (le_val (replicate 31 0))))
    \<and> g2_affine (pr_B pf) (proof_B sample_abstract_key (\<lambda>i. lval ([[5, 0, 0, 0]] ! i)) (unat (1 :: u32)) (int (le_val (replicate 31 0))))
    \<and> g1_affine (pr_C pf) (proof_C sample_abstract_key (\<lambda>i. lval ([[5, 0, 0, 0]] ! i)) h (unat (1 :: u32)) (unat (0 :: u32)) (2 ^ 0)
        (int (le_val (replicate 31 0))) (int (le_val (replicate 31 0))))"
    by (rule prove_groth16 [OF gref.gmp_mpn_axioms zref.gmp_mpz_axioms engine_ref_new _ _ o f _ P])
      (use K in \<open>simp_all add: sample_coef_def raw_elem_def prime_of_fr fr_prime_def\<close>)
  moreover have "le_val (replicate n 0) = 0" for n by (induction n) simp_all
  ultimately show ?thesis using P by auto
qed

end
