(* ===== verification/Json.thy ===== *)
theory Json
  imports Machine
begin

text \<open>
  The JSON values of the library in \<open>depends/json\<close> as far as this program uses them: the values,
  appending to an array, access by key and by index (in the variants for constant and other
  objects, which differ when a member is missing), conversion to strings, numbers and arrays, and
  the compact text of a value. The members of an object are sorted by their keys.

  Numbers with a fraction or an exponent are opaque. \<open>dump_escaped\<close> is modelled on characters below
  128 (which need no decoding); other characters make the text \<open>None\<close>. The parser is a parameter
  of the definitions that use it.

  Shown: how long the text of a value is.
\<close>

section \<open>Values\<close>

datatype json =
    JNull
  | JBool bool
  | JInt int
  | JFloat string
  | JString string
  | JArray "json list"
  | JObject "(string \<times> json) list"

definition is_null :: "json \<Rightarrow> bool" where
  "is_null j \<longleftrightarrow> (case j of JNull \<Rightarrow> True | _ \<Rightarrow> False)"

definition type_error :: exn where
  "type_error = json_error ''type_error''"

text \<open>Appending turns a null value into an array.\<close>

definition json_push_back :: "json \<Rightarrow> json \<Rightarrow> json outcome" where
  "json_push_back j v =
     (case j of
        JNull \<Rightarrow> Ok (JArray [v])
      | JArray xs \<Rightarrow> Ok (JArray (xs @ [v]))
      | _ \<Rightarrow> Throw type_error)"

text \<open>The order of strings and insertion into a sorted map.\<close>

fun str_less :: "string \<Rightarrow> string \<Rightarrow> bool" where
  "str_less xs [] \<longleftrightarrow> False"
| "str_less [] (y # ys) \<longleftrightarrow> True"
| "str_less (x # xs) (y # ys) \<longleftrightarrow> (of_char x :: nat) < of_char y \<or> x = y \<and> str_less xs ys"

fun map_insert :: "string \<Rightarrow> json \<Rightarrow> (string \<times> json) list \<Rightarrow> (string \<times> json) list" where
  "map_insert k v [] = [(k, v)]"
| "map_insert k v ((k', v') # m) =
     (if k = k' then (k, v) # m
      else if str_less k k' then (k, v) # (k', v') # m
      else (k', v') # map_insert k v m)"

text \<open>\<open>j[k] = v\<close> and \<open>j[k]\<close> for an object that may change (a missing member is inserted as null).\<close>

definition json_set :: "json \<Rightarrow> string \<Rightarrow> json \<Rightarrow> json outcome" where
  "json_set j k v =
     (case j of
        JNull \<Rightarrow> Ok (JObject [(k, v)])
      | JObject m \<Rightarrow> Ok (JObject (map_insert k v m))
      | _ \<Rightarrow> Throw type_error)"

definition json_member :: "json \<Rightarrow> string \<Rightarrow> json outcome" where
  "json_member j k =
     (case j of
        JNull \<Rightarrow> Ok JNull
      | JObject m \<Rightarrow> Ok (case map_of m k of None \<Rightarrow> JNull | Some v \<Rightarrow> v)
      | _ \<Rightarrow> Throw type_error)"

text \<open>The same for constant objects: a missing member or element is not defined.\<close>

definition json_const_member :: "json \<Rightarrow> string \<Rightarrow> json outcome" where
  "json_const_member j k =
     (case j of
        JObject m \<Rightarrow> (case map_of m k of None \<Rightarrow> Undef | Some v \<Rightarrow> Ok v)
      | _ \<Rightarrow> Throw type_error)"

definition json_const_index :: "json \<Rightarrow> nat \<Rightarrow> json outcome" where
  "json_const_index j i =
     (case j of
        JArray xs \<Rightarrow> (if i < length xs then Ok (xs ! i) else Undef)
      | _ \<Rightarrow> Throw type_error)"

definition json_get_string :: "json \<Rightarrow> string outcome" where
  "json_get_string j = (case j of JString s \<Rightarrow> Ok s | _ \<Rightarrow> Throw type_error)"

text \<open>The conversion to a number, of which only the success matters here.\<close>

definition json_get_number :: "json \<Rightarrow> unit outcome" where
  "json_get_number j =
     (case j of JInt n \<Rightarrow> Ok () | JFloat s \<Rightarrow> Ok () | _ \<Rightarrow> Throw type_error)"

primrec map_o :: "('a \<Rightarrow> 'b outcome) \<Rightarrow> 'a list \<Rightarrow> 'b list outcome" where
  "map_o f [] = Ok []"
| "map_o f (x # xs) = bind_o (f x) (\<lambda>y. bind_o (map_o f xs) (\<lambda>ys. Ok (y # ys)))"

definition json_get_strings :: "json \<Rightarrow> string list outcome" where
  "json_get_strings j = (case j of JArray xs \<Rightarrow> map_o json_get_string xs | _ \<Rightarrow> Throw type_error)"

definition json_items :: "json \<Rightarrow> json list" where
  "json_items j =
     (case j of JNull \<Rightarrow> [] | JArray xs \<Rightarrow> xs | JObject m \<Rightarrow> map snd m | _ \<Rightarrow> [j])"

section \<open>The text of a value\<close>

definition hex_digit :: "nat \<Rightarrow> char" where
  "hex_digit n = char_of (if n < 10 then 48 + n else 87 + n)"

definition dump_char :: "char \<Rightarrow> string option" where
  "dump_char c =
     (let codepoint = of_char c :: nat
      in if codepoint = 8 then Some (char_of (92 :: nat) # ''b'')
         else if codepoint = 9 then Some (char_of (92 :: nat) # ''t'')
         else if codepoint = 10 then Some (char_of (92 :: nat) # ''n'')
         else if codepoint = 12 then Some (char_of (92 :: nat) # ''f'')
         else if codepoint = 13 then Some (char_of (92 :: nat) # ''r'')
         else if codepoint = 34 then Some [char_of (92 :: nat), char_of (34 :: nat)]
         else if codepoint = 92 then Some [char_of (92 :: nat), char_of (92 :: nat)]
         else if codepoint \<le> 31 then Some (char_of (92 :: nat) # ''u00'' @ [hex_digit (codepoint div 16), hex_digit (codepoint mod 16)])
         else if codepoint < 128 then Some [c]
         else None)"

primrec map_opt :: "('a \<Rightarrow> 'b option) \<Rightarrow> 'a list \<Rightarrow> 'b list option" where
  "map_opt f [] = Some []"
| "map_opt f (x # xs) = Option.bind (f x) (\<lambda>y. map_option ((#) y) (map_opt f xs))"

lemma map_opt_cong [fundef_cong]:
  "xs = ys \<Longrightarrow> (\<And>x. x \<in> set ys \<Longrightarrow> f x = g x) \<Longrightarrow> map_opt f xs = map_opt g ys"
proof (induction xs arbitrary: ys)
  case (Cons x xs)
  then have "map_opt f xs = map_opt g xs" by auto
  then show ?case using Cons.prems by auto
qed simp

definition dump_escaped :: "string \<Rightarrow> string option" where
  "dump_escaped s = map_option concat (map_opt dump_char s)"

fun join :: "char \<Rightarrow> string list \<Rightarrow> string" where
  "join c [] = []"
| "join c [s] = s"
| "join c (s # t # ss) = s @ c # join c (t # ss)"

definition quoted :: "string \<Rightarrow> string" where
  "quoted s = char_of (34 :: nat) # s @ [char_of (34 :: nat)]"

definition int_text :: "int \<Rightarrow> string" where
  "int_text n = (if n < 0 then CHR ''-'' # digits (nat (- n)) else digits (nat n))"

function dump :: "json \<Rightarrow> string option" where
  "dump JNull = Some ''null''"
| "dump (JBool b) = Some (if b then ''true'' else ''false'')"
| "dump (JInt n) = Some (int_text n)"
| "dump (JFloat s) = Some s"
| "dump (JString s) = map_option quoted (dump_escaped s)"
| "dump (JArray xs) = map_option (\<lambda>ts. ''['' @ join (CHR '','') ts @ '']'') (map_opt dump xs)"
| "dump (JObject m) = map_option (\<lambda>ts. ''{'' @ join (CHR '','') ts @ ''}'')
     (map_opt (\<lambda>x. Option.bind (dump_escaped (fst x)) (\<lambda>k. map_option (\<lambda>t. quoted k @ CHR '':'' # t) (dump (snd x)))) m)"
  by pat_completeness auto
termination
proof (relation "measure size")
  fix m :: "(string \<times> json) list" and x
  assume "x \<in> set m"
  then show "(snd x, JObject m) \<in> measure size"
    by (induction m) (auto simp: less_Suc_eq_le trans_le_add1)
qed (auto simp: size_list_estimation less_Suc_eq_le size_list_estimation')

section \<open>Lengths\<close>

lemma length_join: "length (join c ts) = sum_list (map length ts) + (length ts - 1)"
  by (induction c ts rule: join.induct) simp_all

lemma length_quoted [simp]: "length (quoted s) = length s + 2"
  by (simp add: quoted_def)

text \<open>A plain string is copied as it is.\<close>

definition plain_char :: "char \<Rightarrow> bool" where
  "plain_char c \<longleftrightarrow> (let n = of_char c :: nat in 32 \<le> n \<and> n < 128 \<and> n \<noteq> 34 \<and> n \<noteq> 92)"

lemma map_opt_Some: "map_opt f xs = Some ys \<longleftrightarrow> length ys = length xs \<and> (\<forall>i < length xs. f (xs ! i) = Some (ys ! i))"
proof (induction xs arbitrary: ys)
  case (Cons x xs)
  show ?case
    by (cases ys) (auto simp: Cons.IH bind_eq_Some_conv nth_Cons' less_Suc_eq_0_disj)
qed auto

lemma dump_escaped_plain: "list_all plain_char s \<Longrightarrow> dump_escaped s = Some s"
proof -
  assume "list_all plain_char s"
  then have "map_opt dump_char s = Some (map (\<lambda>c. [c]) s)"
    by (auto simp: map_opt_Some list_all_length plain_char_def dump_char_def Let_def)
  then show ?thesis by (simp add: dump_escaped_def concat_map_singleton)
qed

end
