(* ===== verification/FullProver.thy ===== *)
theory FullProver
  imports Json
begin

text \<open>
  The prover of the server (class \<open>FullProver\<close>, \<open>src/fullprover.cpp\<close>) as a step relation: any
  number of client threads call \<open>startProve\<close> and \<open>abort\<close>, and \<open>checkPending\<close> starts a detached
  worker thread. A step is a critical section under the mutex \<open>mtx\<close>, or an access outside it.
  \<open>lock_guard\<close> waits while the mutex is held, by any thread, its own included. A worker ends with
  a proof, with a \<open>runtime_error\<close>, which it catches, or with another exception, which it does not
  catch: the process is then terminated. The circuit and the witness are not interpreted here;
  the calls of the logger are left out, and \<open>getStatus\<close>, which takes no lock, is a function of the state.

  Shown: the invariant of the reachable states (mutual exclusion, one computation at a time,
  the status), and what can and cannot happen afterwards.
\<close>

section \<open>State\<close>

datatype status = Aborted | Busy | Failed | Success | Unverified | Uninitialized | Initializing | Ready

record full_prover =
  fp_status :: status
  pendingInput :: string
  executingInput :: string
  pendingCircuit :: string
  executingCircuit :: string
  fp_proof :: json
  pubData :: json
  errString :: string
  canceled :: bool

text \<open>Where a thread stands. \<open>Abort_lock True\<close> is the call of \<open>abort\<close> in \<open>startProve\<close>, which holds the
  mutex already. A worker asks \<open>isCanceled\<close> before it proves (\<open>None\<close>) and after a caught exception with its text.\<close>

datatype pc =
    Unborn
  | Idle
  | Start_lock string string
  | Start_body string string
  | Start_check
  | Start_unlock
  | Abort_lock bool
  | Abort_body bool
  | Abort_unlock bool
  | Calculate
  | Cancel_lock "string option"
  | Cancel_read "string option"
  | Cancel_unlock "string option" bool
  | Prove
  | Finish_lock
  | Finish_body
  | Finish_unlock
  | Ended

record config =
  shared :: full_prover
  mtx :: "nat option"
  pcs :: "nat \<Rightarrow> pc"
  terminated :: bool

section \<open>Operations\<close>

text \<open>The constructor ends with this state. \<open>clients\<close> are the threads that may call the object.\<close>

definition FullProver_new :: full_prover where
  "FullProver_new = \<lparr>fp_status = Ready, pendingInput = [], executingInput = [], pendingCircuit = [], executingCircuit = [],
     fp_proof = JNull, pubData = JNull, errString = [], canceled = False\<rparr>"

definition fp_init :: "nat set \<Rightarrow> config" where
  "fp_init clients = \<lparr>shared = FullProver_new, mtx = None, pcs = (\<lambda>t. if t \<in> clients then Idle else Unborn), terminated = False\<rparr>"

text \<open>\<open>checkPending\<close> returns whether it starts a thread.\<close>

definition checkPending :: "full_prover \<Rightarrow> full_prover \<times> bool" where
  "checkPending p =
     (if fp_status p \<noteq> Busy \<and> pendingInput p \<noteq> [] \<and> pendingCircuit p \<noteq> []
      then (p\<lparr>fp_status := Busy, executingInput := pendingInput p, executingCircuit := pendingCircuit p,
              pendingInput := [], pendingCircuit := [], errString := [], canceled := False, fp_proof := JNull\<rparr>, True)
      else (p, False))"

definition set_pending :: "string \<Rightarrow> string \<Rightarrow> full_prover \<Rightarrow> full_prover" where
  "set_pending input circuit p = p\<lparr>pendingInput := input, pendingCircuit := circuit\<rparr>"

definition set_canceled :: "full_prover \<Rightarrow> full_prover" where
  "set_canceled p = (if fp_status p \<noteq> Busy then p else p\<lparr>canceled := True\<rparr>)"

definition calc_status :: "full_prover \<Rightarrow> full_prover" where
  "calc_status p =
     (let p = p\<lparr>fp_status := (if canceled p then Aborted else if errString p \<noteq> [] then Failed else Success)\<rparr>
      in p\<lparr>canceled := False, executingInput := []\<rparr>)"

text \<open>\<open>calcFinished\<close> under its lock.\<close>

definition calcFinished :: "full_prover \<Rightarrow> full_prover \<times> bool" where
  "calcFinished p = checkPending (calc_status p)"

definition getStatus :: "full_prover \<Rightarrow> json outcome" where
  "getStatus p =
     (let text = (\<lambda>j. case dump j of None \<Rightarrow> Throw type_error | Some s \<Rightarrow> Ok s)
      in case fp_status p of
        Ready \<Rightarrow> json_set JNull ''status'' (JString ''ready'')
      | Aborted \<Rightarrow> json_set JNull ''status'' (JString ''aborted'')
      | Failed \<Rightarrow> bind_o (json_set JNull ''status'' (JString ''failed'')) (\<lambda>st.
          json_set st ''error'' (JString (errString p)))
      | Success \<Rightarrow> bind_o (json_set JNull ''status'' (JString ''success'')) (\<lambda>st.
          bind_o (text (fp_proof p)) (\<lambda>s. bind_o (json_set st ''proof'' (JString s)) (\<lambda>st.
          bind_o (text (pubData p)) (\<lambda>s. json_set st ''pubData'' (JString s)))))
      | Busy \<Rightarrow> json_set JNull ''status'' (JString ''busy'')
      | _ \<Rightarrow> Ok JNull)"

section \<open>Steps\<close>

text \<open>\<open>spawn\<close> gives a new thread to the worker when one is started.\<close>

definition spawn :: "bool \<Rightarrow> nat \<Rightarrow> (nat \<Rightarrow> pc) \<Rightarrow> nat \<Rightarrow> pc" where
  "spawn started u ps = (if started then ps(u := Calculate) else ps)"

definition at_pc :: "config \<Rightarrow> nat \<Rightarrow> pc \<Rightarrow> bool" where
  "at_pc c t k \<longleftrightarrow> \<not> terminated c \<and> pcs c t = k"

definition goto :: "nat \<Rightarrow> pc \<Rightarrow> config \<Rightarrow> config" where
  "goto t k c = c\<lparr>pcs := (pcs c)(t := k)\<rparr>"

definition acquire :: "nat \<Rightarrow> config \<Rightarrow> config" where
  "acquire t c = c\<lparr>mtx := Some t\<rparr>"

definition release :: "config \<Rightarrow> config" where
  "release c = c\<lparr>mtx := None\<rparr>"

definition update :: "(full_prover \<Rightarrow> full_prover) \<Rightarrow> config \<Rightarrow> config" where
  "update f c = c\<lparr>shared := f (shared c)\<rparr>"

inductive fp_step :: "config \<Rightarrow> config \<Rightarrow> bool" where
  call_start: "at_pc c t Idle \<Longrightarrow> fp_step c (goto t (Start_lock input circuit) c)"
| call_abort: "at_pc c t Idle \<Longrightarrow> fp_step c (goto t (Abort_lock False) c)"
| start_lock: "at_pc c t (Start_lock input circuit) \<Longrightarrow> mtx c = None
    \<Longrightarrow> fp_step c (goto t (Start_body input circuit) (acquire t c))"
| start_body: "at_pc c t (Start_body input circuit)
    \<Longrightarrow> fp_step c (goto t (if fp_status (shared c) = Busy then Abort_lock True else Start_check) (update (set_pending input circuit) c))"
| start_check: "at_pc c t Start_check \<Longrightarrow> checkPending (shared c) = (p, started) \<Longrightarrow> pcs c u = Unborn
    \<Longrightarrow> fp_step c (goto t Start_unlock (c\<lparr>shared := p, pcs := spawn started u (pcs c)\<rparr>))"
| start_unlock: "at_pc c t Start_unlock \<Longrightarrow> fp_step c (goto t Idle (release c))"
| abort_lock: "at_pc c t (Abort_lock nested) \<Longrightarrow> mtx c = None
    \<Longrightarrow> fp_step c (goto t (Abort_body nested) (acquire t c))"
| abort_body: "at_pc c t (Abort_body nested) \<Longrightarrow> fp_step c (goto t (Abort_unlock nested) (update set_canceled c))"
| abort_unlock: "at_pc c t (Abort_unlock nested) \<Longrightarrow> fp_step c (goto t (if nested then Start_check else Idle) (release c))"
| witness: "at_pc c t Calculate \<Longrightarrow> fp_step c (goto t (Cancel_lock None) (update (\<lambda>p. p\<lparr>pubData := pub\<rparr>) c))"
| witness_error: "at_pc c t Calculate \<Longrightarrow> fp_step c (goto t (Cancel_lock (Some what)) c)"
| witness_uncaught: "at_pc c t Calculate \<Longrightarrow> fp_step c (c\<lparr>terminated := True\<rparr>)"
| cancel_lock: "at_pc c t (Cancel_lock e) \<Longrightarrow> mtx c = None \<Longrightarrow> fp_step c (goto t (Cancel_read e) (acquire t c))"
| cancel_read: "at_pc c t (Cancel_read e) \<Longrightarrow> fp_step c (goto t (Cancel_unlock e (canceled (shared c))) c)"
| cancel_unlock_prove: "at_pc c t (Cancel_unlock None False) \<Longrightarrow> fp_step c (goto t Prove (release c))"
| cancel_unlock_avoid: "at_pc c t (Cancel_unlock None True)
    \<Longrightarrow> fp_step c (goto t Finish_lock (release (update (\<lambda>p. p\<lparr>fp_proof := JNull\<rparr>) c)))"
| cancel_unlock_error: "at_pc c t (Cancel_unlock (Some what) b)
    \<Longrightarrow> fp_step c (goto t Finish_lock (release (if b then c else update (\<lambda>p. p\<lparr>errString := what\<rparr>) c)))"
| prove: "at_pc c t Prove \<Longrightarrow> fp_step c (goto t Finish_lock (update (\<lambda>p. p\<lparr>fp_proof := j\<rparr>) c))"
| prove_error: "at_pc c t Prove \<Longrightarrow> fp_step c (goto t (Cancel_lock (Some what)) c)"
| prove_uncaught: "at_pc c t Prove \<Longrightarrow> fp_step c (c\<lparr>terminated := True\<rparr>)"
| finish_lock: "at_pc c t Finish_lock \<Longrightarrow> mtx c = None \<Longrightarrow> fp_step c (goto t Finish_body (acquire t c))"
| finish_body: "at_pc c t Finish_body \<Longrightarrow> calcFinished (shared c) = (p, started) \<Longrightarrow> pcs c u = Unborn
    \<Longrightarrow> fp_step c (goto t Finish_unlock (c\<lparr>shared := p, pcs := spawn started u (pcs c)\<rparr>))"
| finish_unlock: "at_pc c t Finish_unlock \<Longrightarrow> fp_step c (goto t Ended (release c))"

inductive fp_run :: "config \<Rightarrow> config \<Rightarrow> bool" where
  none: "fp_run c c"
| more: "fp_run c d \<Longrightarrow> fp_step d e \<Longrightarrow> fp_run c e"

lemma fp_run_trans: "fp_run d e \<Longrightarrow> fp_run c d \<Longrightarrow> fp_run c e"
  by (induction rule: fp_run.induct) (auto intro: fp_run.intros)

lemma fp_run_invariant:
  assumes "fp_run c d" and "I c" and "\<And>c d. I c \<Longrightarrow> fp_step c d \<Longrightarrow> I d"
  shows "I d"
  using assms by (induction rule: fp_run.induct) blast+

section \<open>The invariant\<close>

text \<open>The places where a thread holds the mutex, and those of a worker whose computation is not finished.\<close>

fun holding :: "pc \<Rightarrow> bool" where
  "holding (Start_body i k) = True"
| "holding Start_check = True"
| "holding Start_unlock = True"
| "holding (Abort_lock nested) = nested"
| "holding (Abort_body nested) = True"
| "holding (Abort_unlock nested) = True"
| "holding (Cancel_read e) = True"
| "holding (Cancel_unlock e b) = True"
| "holding Finish_body = True"
| "holding Finish_unlock = True"
| "holding _ = False"

fun active :: "pc \<Rightarrow> bool" where
  "active Calculate = True"
| "active (Cancel_lock e) = True"
| "active (Cancel_read e) = True"
| "active (Cancel_unlock e b) = True"
| "active Prove = True"
| "active Finish_lock = True"
| "active Finish_body = True"
| "active _ = False"

definition fp_mutex :: "config \<Rightarrow> bool" where
  "fp_mutex c \<longleftrightarrow> (\<forall>t. holding (pcs c t) \<longleftrightarrow> mtx c = Some t)
     \<and> (\<forall>t. pcs c t \<noteq> Abort_body True \<and> pcs c t \<noteq> Abort_unlock True)"

definition fp_single :: "config \<Rightarrow> bool" where
  "fp_single c \<longleftrightarrow> (if fp_status (shared c) = Busy then \<exists>t. \<forall>u. active (pcs c u) \<longleftrightarrow> u = t else \<forall>u. \<not> active (pcs c u))"

text \<open>A thread in \<open>startProve\<close> has seen the status, which does not change while it holds the mutex.\<close>

definition fp_seen :: "config \<Rightarrow> bool" where
  "fp_seen c \<longleftrightarrow> (\<forall>t. mtx c = Some t \<longrightarrow> (pcs c t = Start_check \<longrightarrow> fp_status (shared c) \<noteq> Busy)
     \<and> (pcs c t = Abort_lock True \<longrightarrow> fp_status (shared c) = Busy))"

definition waiting :: "full_prover \<Rightarrow> bool" where
  "waiting p \<longleftrightarrow> pendingInput p \<noteq> [] \<and> pendingCircuit p \<noteq> []"

text \<open>A request that waits was left by a thread that still holds the mutex.\<close>

definition fp_requests :: "config \<Rightarrow> bool" where
  "fp_requests c \<longleftrightarrow> (waiting (shared c) \<longrightarrow> (\<exists>t. mtx c = Some t \<and> (pcs c t = Start_check \<or> pcs c t = Abort_lock True)))"

definition fp_data :: "config \<Rightarrow> bool" where
  "fp_data c \<longleftrightarrow> (canceled (shared c) \<longrightarrow> fp_status (shared c) = Busy)
     \<and> fp_status (shared c) \<in> {Ready, Busy, Aborted, Failed, Success}
     \<and> (fp_status (shared c) = Busy \<longrightarrow> executingInput (shared c) \<noteq> [] \<and> executingCircuit (shared c) \<noteq> [])"

definition fp_inv :: "config \<Rightarrow> bool" where
  "fp_inv c \<longleftrightarrow> fp_mutex c \<and> fp_single c \<and> fp_seen c \<and> fp_requests c \<and> fp_data c \<and> finite {t. pcs c t \<noteq> Unborn}"

lemmas fp_step_simps = at_pc_def goto_def acquire_def release_def update_def set_pending_def set_canceled_def spawn_def
  checkPending_def calcFinished_def calc_status_def

lemma mutex_at: "fp_mutex c \<Longrightarrow> at_pc c t k \<Longrightarrow> holding k \<longleftrightarrow> mtx c = Some t"
  by (auto simp: fp_mutex_def at_pc_def)

lemma fp_mutex_step: "fp_mutex c \<Longrightarrow> fp_step c d \<Longrightarrow> fp_mutex d"
  by (erule fp_step.cases; hypsubst; frule (1) mutex_at)
    (auto simp: fp_mutex_def fp_step_simps split: if_splits)

lemma spawned:
  "\<forall>v. \<not> active (ps v) \<or> v = t \<Longrightarrow> \<not> active k \<Longrightarrow> u \<noteq> t \<Longrightarrow> active (((spawn started u ps)(t := k)) v) \<longleftrightarrow> started \<and> v = u"
  by (auto simp: spawn_def)

lemma checkPending_status: "checkPending p = (p', started) \<Longrightarrow> fp_status p \<noteq> Busy
    \<Longrightarrow> (started \<longrightarrow> fp_status p' = Busy \<and> waiting p) \<and> (\<not> started \<longrightarrow> p' = p \<and> \<not> waiting p)"
  by (auto simp: checkPending_def waiting_def split: if_splits)

lemma calc_status_not_busy: "fp_status (calc_status p) \<noteq> Busy"
  by (simp add: calc_status_def Let_def)

lemma fp_single_intros:
  "fp_single c \<Longrightarrow> fp_status (shared d) = fp_status (shared c) \<Longrightarrow> \<forall>u. active (pcs d u) \<longleftrightarrow> active (pcs c u) \<Longrightarrow> fp_single d"
  "fp_status (shared d) = Busy \<longleftrightarrow> started \<Longrightarrow> \<forall>v. active (pcs d v) \<longleftrightarrow> started \<and> v = u \<Longrightarrow> fp_single d"
  by (simp_all add: fp_single_def) blast

lemma fp_single_spawn:
  assumes "d = goto t k (c\<lparr>shared := p, pcs := spawn started u (pcs c)\<rparr>)" and "pcs c u = Unborn" and "pcs c t \<noteq> Unborn"
    and "\<forall>v. \<not> active (pcs c v) \<or> v = t" and "\<not> active k" and "checkPending q = (p, started)" and "fp_status q \<noteq> Busy"
  shows "fp_single d"
proof (rule fp_single_intros(2))
  have "u \<noteq> t" using assms(2,3) by auto
  then show "\<forall>v. active (pcs d v) \<longleftrightarrow> started \<and> v = u"
    using spawned [OF assms(4,5)] by (simp add: assms(1) goto_def)
  show "fp_status (shared d) = Busy \<longleftrightarrow> started"
    using checkPending_status [OF assms(6,7)] assms(7) by (cases started) (simp_all add: assms(1) goto_def)
qed

lemma fp_single_step:
  assumes "fp_mutex c" and "fp_single c" and "fp_seen c" and "fp_step c d"
  shows "fp_single d"
  using assms(4)
proof cases
  case (start_check t p started u)
  then have b: "fp_status (shared c) \<noteq> Busy"
    using assms(3) mutex_at [OF assms(1), of t Start_check] by (auto simp: at_pc_def fp_seen_def)
  then have "\<forall>v. \<not> active (pcs c v) \<or> v = t" using assms(2) by (simp add: fp_single_def)
  then show ?thesis
    using start_check(2) by (intro fp_single_spawn [OF start_check(1,4) _ _ _ start_check(3) b]) (auto simp: at_pc_def)
next
  case (finish_body t p started u)
  have "active (pcs c t)" using finish_body(2) by (simp add: at_pc_def)
  then have "\<forall>v. \<not> active (pcs c v) \<or> v = t"
    using assms(2) by (auto simp: fp_single_def split: if_splits)
  then show ?thesis
    using finish_body(2)
    by (intro fp_single_spawn [OF finish_body(1,4) _ _ _ finish_body(3) [unfolded calcFinished_def] calc_status_not_busy]) (auto simp: at_pc_def)
qed (rule fp_single_intros(1) [OF assms(2)]; auto simp: fp_step_simps)+

lemma fp_seen_step: "fp_step c d \<Longrightarrow> fp_mutex c \<Longrightarrow> fp_seen c \<Longrightarrow> fp_seen d"
  by (erule fp_step.cases; hypsubst; frule (1) mutex_at)
    (auto simp: fp_step_simps fp_seen_def fp_mutex_def split: if_splits)

lemma fp_requests_step: "fp_step c d \<Longrightarrow> fp_mutex c \<Longrightarrow> fp_seen c \<Longrightarrow> fp_requests c \<Longrightarrow> fp_requests d"
  by (erule fp_step.cases; hypsubst; frule (1) mutex_at)
    (auto simp: fp_step_simps fp_requests_def fp_mutex_def fp_seen_def waiting_def split: if_splits)

lemma fp_data_step: "fp_step c d \<Longrightarrow> fp_data c \<Longrightarrow> fp_data d"
  by (erule fp_step.cases; hypsubst)
    (auto simp: fp_step_simps fp_data_def split: if_splits)

lemma fp_step_threads: "fp_step c d \<Longrightarrow> \<exists>t u. \<forall>v. v \<noteq> t \<longrightarrow> v \<noteq> u \<longrightarrow> pcs d v = pcs c v"
  by (erule fp_step.cases; hypsubst) (simp_all add: fp_step_simps, blast+)

lemma fp_inv_step:
  assumes "fp_inv c" and "fp_step c d"
  shows "fp_inv d"
proof -
  obtain t u where "\<forall>v. v \<noteq> t \<longrightarrow> v \<noteq> u \<longrightarrow> pcs d v = pcs c v" using fp_step_threads [OF assms(2)] by blast
  then have "{v. pcs d v \<noteq> Unborn} \<subseteq> insert t (insert u {v. pcs c v \<noteq> Unborn})" by auto
  then have "finite {v. pcs d v \<noteq> Unborn}" using assms(1) by (auto simp: fp_inv_def intro: finite_subset)
  then show ?thesis
    using assms fp_mutex_step fp_single_step fp_seen_step fp_requests_step fp_data_step by (auto simp: fp_inv_def)
qed

lemma fp_inv_init: "finite clients \<Longrightarrow> fp_inv (fp_init clients)"
  by (simp add: fp_inv_def fp_init_def FullProver_new_def fp_mutex_def fp_single_def fp_seen_def fp_requests_def fp_data_def waiting_def)

lemma fp_reachable: "finite clients \<Longrightarrow> fp_run (fp_init clients) c \<Longrightarrow> fp_inv c"
  using fp_run_invariant [of _ _ fp_inv] fp_inv_init fp_inv_step by blast

section \<open>Liveness\<close>

text \<open>The state in which a call of \<open>startProve\<close> cannot return: its thread holds the mutex and is about to
  call, or has called, \<open>abort\<close>.\<close>

definition hung :: "config \<Rightarrow> bool" where
  "hung c \<longleftrightarrow> (\<exists>t. mtx c = Some t \<and> (pcs c t = Abort_lock True
     \<or> (\<exists>i k. pcs c t = Start_body i k) \<and> fp_status (shared c) = Busy))"

definition quiet :: "config \<Rightarrow> bool" where
  "quiet c \<longleftrightarrow> (\<forall>t. pcs c t \<in> {Unborn, Idle, Ended})"

lemma hung_stays:
  "fp_step c d \<Longrightarrow> fp_mutex c \<Longrightarrow> mtx c = Some t \<Longrightarrow> pcs c t = Abort_lock True \<Longrightarrow> mtx d = Some t \<and> pcs d t = Abort_lock True"
  by (erule fp_step.cases; hypsubst; frule (1) mutex_at) (auto simp: fp_step_simps fp_mutex_def)

lemma hung_soon:
  "fp_step c d \<Longrightarrow> fp_mutex c \<Longrightarrow> mtx c = Some t \<Longrightarrow> pcs c t = Start_body i k \<Longrightarrow> fp_status (shared c) = Busy
    \<Longrightarrow> mtx d = Some t \<and> (pcs d t = Abort_lock True \<or> pcs d t = Start_body i k \<and> fp_status (shared d) = Busy)"
  by (erule fp_step.cases; hypsubst; frule (1) mutex_at; simp add: fp_step_simps)

lemma hung_step:
  assumes "fp_step c d" and "fp_mutex c" and "hung c"
  shows "hung d \<and> mtx d = mtx c"
proof -
  obtain t where t: "mtx c = Some t" "pcs c t = Abort_lock True \<or> (\<exists>i k. pcs c t = Start_body i k) \<and> fp_status (shared c) = Busy"
    using assms(3) unfolding hung_def by blast
  from t(2) have "mtx d = Some t \<and> (pcs d t = Abort_lock True \<or> (\<exists>i k. pcs d t = Start_body i k) \<and> fp_status (shared d) = Busy)"
  proof
    assume "pcs c t = Abort_lock True"
    then show ?thesis using hung_stays [OF assms(1,2) t(1)] by simp
  next
    assume "(\<exists>i k. pcs c t = Start_body i k) \<and> fp_status (shared c) = Busy"
    then obtain i k where "pcs c t = Start_body i k" "fp_status (shared c) = Busy" by blast
    then show ?thesis using hung_soon [OF assms(1,2) t(1)] by blast
  qed
  then show ?thesis unfolding hung_def by (simp add: t(1))
qed

lemma hung_run:
  assumes "fp_run c d" and "fp_inv c" and "hung c"
  shows "fp_inv d \<and> hung d \<and> mtx d = mtx c"
proof (rule fp_run_invariant [OF assms(1), of "\<lambda>d. fp_inv d \<and> hung d \<and> mtx d = mtx c"])
  fix d e
  assume d: "fp_inv d \<and> hung d \<and> mtx d = mtx c" and s: "fp_step d e"
  then have "fp_mutex d" by (simp add: fp_inv_def)
  then show "fp_inv e \<and> hung e \<and> mtx e = mtx c" using hung_step [OF s] fp_inv_step [OF _ s] d by simp
qed (use assms in simp)

text \<open>The steps that remain on a run without exceptions that serves the worker first.\<close>

fun rank :: "pc \<Rightarrow> nat" where
  "rank (Start_lock i k) = 22"
| "rank (Start_body i k) = 21"
| "rank Start_check = 20"
| "rank Start_unlock = 1"
| "rank (Abort_lock nested) = 3"
| "rank (Abort_body nested) = 2"
| "rank (Abort_unlock nested) = 1"
| "rank Calculate = 12"
| "rank (Cancel_lock e) = 11"
| "rank (Cancel_read e) = 10"
| "rank (Cancel_unlock e b) = 9"
| "rank Prove = 8"
| "rank Finish_lock = 7"
| "rank Finish_body = 6"
| "rank Finish_unlock = 1"
| "rank _ = 0"

definition work :: "(nat \<Rightarrow> pc) \<Rightarrow> nat" where
  "work ps = (\<Sum>t | ps t \<noteq> Unborn. rank (ps t))"

lemma work_update:
  assumes "finite {t. ps t \<noteq> Unborn}"
  shows "work (ps(t := k)) + rank (ps t) = work ps + rank k"
proof -
  let ?A = "insert t {t. ps t \<noteq> Unborn}"
  have "work ps = sum (\<lambda>v. rank (ps v)) ?A" "work (ps(t := k)) = sum (\<lambda>v. rank ((ps(t := k)) v)) ?A"
    unfolding work_def using assms by (auto intro!: sum.mono_neutral_left)
  moreover have "sum (\<lambda>v. rank ((ps(t := k)) v)) (?A - {t}) = sum (\<lambda>v. rank (ps v)) (?A - {t})"
    by (rule sum.cong) auto
  moreover have "sum f ?A = f t + sum f (?A - {t})" for f :: "nat \<Rightarrow> nat"
    using assms by (intro sum.remove) auto
  ultimately show ?thesis by simp
qed

definition advances :: "config \<Rightarrow> config \<Rightarrow> bool" where
  "advances c d \<longleftrightarrow> fp_step c d \<and> \<not> terminated d \<and> \<not> hung d \<and> work (pcs d) < work (pcs c)"

text \<open>A step of thread \<open>t\<close> to the place \<open>k\<close> that leaves the other threads alone does part of the work,
  and so does one that starts a worker.\<close>

fun safe_place :: "pc \<Rightarrow> status \<Rightarrow> bool" where
  "safe_place (Abort_lock nested) st = (\<not> nested)"
| "safe_place (Start_body i j) st = (st \<noteq> Busy)"
| "safe_place _ st = True"

lemma not_hung: "safe_place (pcs c t) (fp_status (shared c)) \<Longrightarrow> mtx c \<in> {None, Some t} \<Longrightarrow> \<not> hung c"
  by (auto simp: hung_def)

lemma advance_goto:
  assumes "fp_step c (goto t k c')" and "fp_inv c" and "\<not> terminated c'" and "pcs c' = pcs c" and "rank k < rank (pcs c t)"
    and "safe_place k (fp_status (shared c'))" and "mtx c' \<in> {None, Some t}"
  shows "\<exists>d. advances c d"
proof -
  have "\<not> hung (goto t k c')" using assms(6,7) by (intro not_hung [of _ t]) (simp_all add: goto_def)
  then show ?thesis
    using work_update [of "pcs c" t k] assms by (auto simp: advances_def fp_inv_def goto_def intro!: exI [of _ "goto t k c'"])
qed

lemma advance_spawn:
  assumes "fp_step c (goto t k (c\<lparr>shared := p, pcs := spawn started u (pcs c)\<rparr>))" and "fp_inv c" and "\<not> terminated c"
    and u: "pcs c u = Unborn" and r: "rank k + (if started then 12 else 0) < rank (pcs c t)"
    and "safe_place k (fp_status p)" and "mtx c = Some t"
  shows "\<exists>d. advances c d"
proof -
  let ?d = "goto t k (c\<lparr>shared := p, pcs := spawn started u (pcs c)\<rparr>)" and ?ps = "spawn started u (pcs c)"
  have f: "finite {v. pcs c v \<noteq> Unborn}" using assms(2) by (simp add: fp_inv_def)
  have "finite {v. ?ps v \<noteq> Unborn}"
    by (rule finite_subset [of _ "insert u {v. pcs c v \<noteq> Unborn}"]) (use f in \<open>auto simp: spawn_def\<close>)
  then have "work (?ps(t := k)) + rank (?ps t) = work ?ps + rank k" by (rule work_update)
  moreover have "work ?ps = work (pcs c) + (if started then 12 else 0)"
    using work_update [OF f, of u Calculate] u by (simp add: spawn_def)
  moreover have "?ps t = pcs c t" using u r by (auto simp: spawn_def)
  ultimately have "work (pcs ?d) < work (pcs c)" using r by (simp add: goto_def)
  moreover have "\<not> hung ?d" using assms(6,7) by (intro not_hung [of _ t]) (simp_all add: goto_def)
  ultimately show ?thesis using assms(1,3) by (auto simp: advances_def goto_def)
qed

text \<open>A thread that holds the mutex can go on.\<close>

lemma advance_holder:
  assumes i: "fp_inv c" and n: "\<not> terminated c" "\<not> hung c" and t: "mtx c = Some t"
  shows "\<exists>d. advances c d"
proof -
  note g = advance_goto [OF _ i, of t] and at = at_pc_def [of c t] n(1) t
  have h: "holding (pcs c t)" "pcs c t \<noteq> Abort_body True" "pcs c t \<noteq> Abort_unlock True"
    using i t by (simp_all add: fp_inv_def fp_mutex_def)
  obtain u where u: "pcs c u = Unborn"
    using i ex_new_if_finite [of "{v. pcs c v \<noteq> Unborn}"] infinite_UNIV_nat by (auto simp: fp_inv_def)
  show ?thesis
  proof (cases "pcs c t")
    case (Start_body a b)
    then have "fp_status (shared c) \<noteq> Busy" using n(2) t by (auto simp: hung_def)
    then show ?thesis
      using Start_body fp_step.start_body [of c t a b] by (intro g [of Start_check "update (set_pending a b) c"]) (simp_all add: at update_def)
  next
    case Start_check
    obtain p started where p: "checkPending (shared c) = (p, started)" by fastforce
    show ?thesis using Start_check by (intro advance_spawn [OF fp_step.start_check [OF _ p u] i n(1) u]) (simp_all add: at)
  next
    case Finish_body
    obtain p started where p: "calcFinished (shared c) = (p, started)" by fastforce
    have "\<not> waiting (shared c)" using i t Finish_body by (auto simp: fp_inv_def fp_requests_def)
    then have "\<not> started" using p by (auto simp: calcFinished_def checkPending_def calc_status_def Let_def waiting_def split: if_splits)
    then show ?thesis using Finish_body by (intro advance_spawn [OF fp_step.finish_body [OF _ p u] i n(1) u]) (simp_all add: at)
  next
    case Start_unlock
    then show ?thesis using fp_step.start_unlock [of c t] by (intro g [of Idle "release c"]) (simp_all add: at release_def)
  next
    case (Abort_body nested)
    then show ?thesis
      using fp_step.abort_body [of c t nested] by (intro g [of "Abort_unlock nested" "update set_canceled c"]) (simp_all add: at update_def)
  next
    case (Abort_unlock nested)
    then show ?thesis using h fp_step.abort_unlock [of c t nested] by (intro g [of Idle "release c"]) (simp_all add: at release_def)
  next
    case (Cancel_read e)
    then show ?thesis
      using fp_step.cancel_read [of c t e] by (intro g [of "Cancel_unlock e (canceled (shared c))" c]) (simp_all add: at)
  next
    case (Cancel_unlock e b)
    then show ?thesis
      using fp_step.cancel_unlock_prove [of c t] fp_step.cancel_unlock_avoid [of c t] fp_step.cancel_unlock_error [of c t _ b]
      by (cases e; cases b) (auto intro!: g simp: at release_def update_def)
  next
    case Finish_unlock
    then show ?thesis using fp_step.finish_unlock [of c t] by (intro g [of Ended "release c"]) (simp_all add: at release_def)
  qed (use h n t in \<open>auto simp: hung_def\<close>)
qed

text \<open>While the mutex is free, a worker can go on, and a call can when there is no worker.\<close>

lemma advance_worker:
  assumes i: "fp_inv c" and n: "\<not> terminated c" and t: "mtx c = None" and a: "active (pcs c t)"
  shows "\<exists>d. advances c d"
proof -
  note g = advance_goto [OF _ i, of t] and at = at_pc_def [of c t] n t
  have h: "\<not> holding (pcs c t)" using i t by (simp add: fp_inv_def fp_mutex_def)
  show ?thesis
  proof (cases "pcs c t")
    case Calculate
    then show ?thesis
      using fp_step.witness [of c t JNull] by (intro g [of "Cancel_lock None" "update (\<lambda>p. p\<lparr>pubData := JNull\<rparr>) c"]) (simp_all add: at update_def)
  next
    case (Cancel_lock e)
    then show ?thesis
      using fp_step.cancel_lock [of c t e] by (intro g [of "Cancel_read e" "acquire t c"]) (simp_all add: at acquire_def)
  next
    case Prove
    then show ?thesis
      using fp_step.prove [of c t JNull] by (intro g [of Finish_lock "update (\<lambda>p. p\<lparr>fp_proof := JNull\<rparr>) c"]) (simp_all add: at update_def)
  next
    case Finish_lock
    then show ?thesis using fp_step.finish_lock [of c t] by (intro g [of Finish_body "acquire t c"]) (simp_all add: at acquire_def)
  qed (use h a in auto)
qed

lemma advance_call:
  assumes i: "fp_inv c" and n: "\<not> terminated c" and t: "mtx c = None" and a: "\<forall>t. \<not> active (pcs c t)" and q: "\<not> quiet c"
  shows "\<exists>d. advances c d"
proof -
  obtain u where u: "pcs c u \<notin> {Unborn, Idle, Ended}" using q by (auto simp: quiet_def)
  note g = advance_goto [OF _ i, of u] and at = at_pc_def [of c u] n t
  have h: "\<not> holding (pcs c u)" using i t by (simp add: fp_inv_def fp_mutex_def)
  have b: "fp_status (shared c) \<noteq> Busy" using i a by (auto simp: fp_inv_def fp_single_def)
  show ?thesis
  proof (cases "pcs c u")
    case (Start_lock j k)
    then show ?thesis
      using b fp_step.start_lock [of c u j k] by (intro g [of "Start_body j k" "acquire u c"]) (simp_all add: at acquire_def)
  next
    case (Abort_lock nested)
    then show ?thesis
      using h fp_step.abort_lock [of c u nested] by (intro g [of "Abort_body nested" "acquire u c"]) (simp_all add: at acquire_def)
  qed (use h a [THEN spec, of u] u in auto)
qed

lemma advance:
  assumes "fp_inv c" and "\<not> terminated c" and "\<not> hung c" and "\<not> (quiet c \<and> mtx c = None)"
  shows "\<exists>d. advances c d"
  using assms advance_holder advance_worker advance_call by (cases "mtx c") blast+

lemma can_complete:
  assumes "fp_inv c" and "\<not> terminated c" and "\<not> hung c"
  shows "\<exists>d. fp_run c d \<and> fp_inv d \<and> \<not> terminated d \<and> quiet d \<and> mtx d = None"
  using assms
proof (induction "work (pcs c)" arbitrary: c rule: less_induct)
  case less
  show ?case
  proof (cases "quiet c \<and> mtx c = None")
    case True
    then show ?thesis using less.prems fp_run.none by blast
  next
    case False
    then obtain d where d: "fp_step c d" "\<not> terminated d" "\<not> hung d" "work (pcs d) < work (pcs c)"
      using advance [OF less.prems] by (auto simp: advances_def)
    have i: "fp_inv d" using fp_inv_step less.prems(1) d(1) by blast
    obtain e where "fp_run d e" "fp_inv e \<and> \<not> terminated e \<and> quiet e \<and> mtx e = None"
      using less.hyps [OF d(4) i d(2,3)] by blast
    then show ?thesis using fp_run_trans [OF _ fp_run.more [OF fp_run.none d(1)]] by blast
  qed
qed

lemma quiet_status:
  assumes "fp_inv c" and "quiet c"
  shows "fp_status (shared c) \<in> {Ready, Aborted, Failed, Success}"
proof -
  have "\<not> active (pcs c t)" for t using assms(2) by (auto simp: quiet_def dest: spec [of _ t])
  then show ?thesis using assms(1) by (auto simp: fp_inv_def fp_single_def fp_data_def split: if_splits)
qed

end
