(* ===== verification/ThreadWorker.thy ===== *)
theory ThreadWorker
  imports Main
begin

text \<open>
  A worker of the thread pool (class \<open>ThreadWorker\<close>, \<open>depends/ffiasm/c/misc.hpp\<close>) at the level of its
  mutex and its two condition variables, as a step relation between the thread of the worker and
  the thread that owns the object, which submits a job, waits for it, submits the next one and in
  the end destroys the object, as the pool does. A wait releases the mutex and sleeps in one step; a thread
  that is notified locks the mutex again and evaluates the predicate again. A notification that
  finds no sleeping thread is lost. Threads are not woken without a notification (the standard
  permits such a wakeup but does not promise any). The queue of the pool is part of a job here.

  Shown: every job is executed exactly once before \<open>wait\<close> returns, \<open>submit\<close> and \<open>wait\<close> can
  always return, and the destructor can wait for ever.
\<close>

section \<open>State and steps\<close>

datatype who = Worker | Owner

datatype worker_pc = W_lock | W_check | W_sleep | W_wait | W_run nat | W_notify | W_ended

datatype owner_pc = O_idle | O_submit_lock | O_submit_body | O_submit_notify | O_wait_lock | O_wait_check
  | O_wait_sleep | O_waiting | O_stop_notify | O_join | O_done

record worker =
  w_stop :: bool
  w_job :: "nat option"
  w_mtx :: "who option"
  w_pc :: worker_pc
  o_pc :: owner_pc
  submitted :: "nat list"
  executed :: "nat list"

definition ThreadWorker_new :: worker where
  "ThreadWorker_new = \<lparr>w_stop = False, w_job = None, w_mtx = None, w_pc = W_lock, o_pc = O_idle, submitted = [], executed = []\<rparr>"

text \<open>\<open>notify_one\<close> on \<open>occupied\<close> and on \<open>finished\<close>.\<close>

definition notify_occupied :: "worker \<Rightarrow> worker" where
  "notify_occupied s = (if w_pc s = W_wait then s\<lparr>w_pc := W_lock\<rparr> else s)"

definition notify_finished :: "worker \<Rightarrow> worker" where
  "notify_finished s = (if o_pc s = O_waiting then s\<lparr>o_pc := O_wait_lock\<rparr> else s)"

inductive worker_step :: "worker \<Rightarrow> worker \<Rightarrow> bool" where
  lock: "w_pc s = W_lock \<Longrightarrow> w_mtx s = None \<Longrightarrow> worker_step s (s\<lparr>w_pc := W_check, w_mtx := Some Worker\<rparr>)"
| check_none: "w_pc s = W_check \<Longrightarrow> w_job s = None \<Longrightarrow> \<not> w_stop s \<Longrightarrow> worker_step s (s\<lparr>w_pc := W_sleep\<rparr>)"
| check_stop: "w_pc s = W_check \<Longrightarrow> w_stop s \<Longrightarrow> worker_step s (s\<lparr>w_pc := W_ended, w_mtx := None\<rparr>)"
| check_job: "w_pc s = W_check \<Longrightarrow> w_job s = Some k \<Longrightarrow> \<not> w_stop s \<Longrightarrow> worker_step s (s\<lparr>w_pc := W_run k\<rparr>)"
| sleep: "w_pc s = W_sleep \<Longrightarrow> worker_step s (s\<lparr>w_pc := W_wait, w_mtx := None\<rparr>)"
| run: "w_pc s = W_run k \<Longrightarrow> worker_step s (s\<lparr>w_pc := W_notify, w_job := None, w_mtx := None, executed := executed s @ [k]\<rparr>)"
| notify: "w_pc s = W_notify \<Longrightarrow> worker_step s (notify_finished (s\<lparr>w_pc := W_lock\<rparr>))"
| submit: "o_pc s = O_idle \<Longrightarrow> worker_step s (s\<lparr>o_pc := O_submit_lock\<rparr>)"
| submit_lock: "o_pc s = O_submit_lock \<Longrightarrow> w_mtx s = None
    \<Longrightarrow> worker_step s (s\<lparr>o_pc := O_submit_body, w_mtx := Some Owner\<rparr>)"
| submit_body: "o_pc s = O_submit_body
    \<Longrightarrow> worker_step s (s\<lparr>o_pc := O_submit_notify, w_mtx := None, w_job := Some k, submitted := submitted s @ [k]\<rparr>)"
| submit_notify: "o_pc s = O_submit_notify \<Longrightarrow> worker_step s (notify_occupied (s\<lparr>o_pc := O_wait_lock\<rparr>))"
| wait_lock: "o_pc s = O_wait_lock \<Longrightarrow> w_mtx s = None \<Longrightarrow> worker_step s (s\<lparr>o_pc := O_wait_check, w_mtx := Some Owner\<rparr>)"
| wait_done: "o_pc s = O_wait_check \<Longrightarrow> w_job s = None \<Longrightarrow> worker_step s (s\<lparr>o_pc := O_idle, w_mtx := None\<rparr>)"
| wait_job: "o_pc s = O_wait_check \<Longrightarrow> w_job s \<noteq> None \<Longrightarrow> worker_step s (s\<lparr>o_pc := O_wait_sleep\<rparr>)"
| wait_sleep: "o_pc s = O_wait_sleep \<Longrightarrow> worker_step s (s\<lparr>o_pc := O_waiting, w_mtx := None\<rparr>)"
| destroy: "o_pc s = O_idle \<Longrightarrow> worker_step s (s\<lparr>o_pc := O_stop_notify, w_stop := True\<rparr>)"
| stop_notify: "o_pc s = O_stop_notify \<Longrightarrow> worker_step s (notify_occupied (s\<lparr>o_pc := O_join\<rparr>))"
| join: "o_pc s = O_join \<Longrightarrow> w_pc s = W_ended \<Longrightarrow> worker_step s (s\<lparr>o_pc := O_done\<rparr>)"

inductive_cases worker_stepE: "worker_step s t"

inductive worker_run :: "worker \<Rightarrow> worker \<Rightarrow> bool" where
  none: "worker_run s s"
| more: "worker_run s t \<Longrightarrow> worker_step t u \<Longrightarrow> worker_run s u"

lemma worker_run_trans: "worker_run t u \<Longrightarrow> worker_run s t \<Longrightarrow> worker_run s u"
  by (induction rule: worker_run.induct) (auto intro: worker_run.intros)

section \<open>The invariant\<close>

definition worker_mutex :: "worker \<Rightarrow> bool" where
  "worker_mutex s \<longleftrightarrow>
     (w_mtx s = Some Worker \<longleftrightarrow> w_pc s = W_check \<or> w_pc s = W_sleep \<or> (\<exists>k. w_pc s = W_run k))
   \<and> (w_mtx s = Some Owner \<longleftrightarrow> o_pc s \<in> {O_submit_body, O_wait_check, O_wait_sleep})"

definition worker_jobs :: "worker \<Rightarrow> bool" where
  "worker_jobs s \<longleftrightarrow> submitted s = executed s @ (case w_job s of None \<Rightarrow> [] | Some k \<Rightarrow> [k])
   \<and> (o_pc s \<in> {O_idle, O_submit_lock, O_submit_body, O_stop_notify, O_join, O_done} \<longrightarrow> w_job s = None)
   \<and> (o_pc s = O_wait_sleep \<longrightarrow> w_job s \<noteq> None)
   \<and> (\<forall>k. w_pc s = W_run k \<longrightarrow> w_job s = Some k)
   \<and> (w_pc s = W_sleep \<longrightarrow> w_job s = None)"

definition worker_sleeps :: "worker \<Rightarrow> bool" where
  "worker_sleeps s \<longleftrightarrow> (w_pc s = W_wait \<and> w_job s \<noteq> None \<longrightarrow> o_pc s = O_submit_notify)
   \<and> (o_pc s = O_waiting \<and> w_job s = None \<longrightarrow> w_pc s = W_notify)"

definition worker_stops :: "worker \<Rightarrow> bool" where
  "worker_stops s \<longleftrightarrow> (w_stop s \<longleftrightarrow> o_pc s \<in> {O_stop_notify, O_join, O_done}) \<and> (w_pc s = W_ended \<longrightarrow> w_stop s)"

definition worker_inv :: "worker \<Rightarrow> bool" where
  "worker_inv s \<longleftrightarrow> worker_mutex s \<and> worker_jobs s \<and> worker_sleeps s \<and> worker_stops s"

lemma worker_inv_init: "worker_inv ThreadWorker_new"
  by (simp add: worker_inv_def worker_mutex_def worker_jobs_def worker_sleeps_def worker_stops_def ThreadWorker_new_def)

lemmas notify_defs = notify_occupied_def notify_finished_def

lemma worker_mutex_step: "worker_step s t \<Longrightarrow> worker_mutex s \<Longrightarrow> worker_mutex t"
  by (erule worker_step.cases; hypsubst) (auto simp: worker_mutex_def notify_defs split: if_splits)

lemma worker_stops_step: "worker_step s t \<Longrightarrow> worker_stops s \<Longrightarrow> worker_stops t"
  by (erule worker_step.cases; hypsubst) (auto simp: worker_stops_def notify_defs split: if_splits)

lemma worker_jobs_step: "worker_step s t \<Longrightarrow> worker_mutex s \<Longrightarrow> worker_jobs s \<Longrightarrow> worker_jobs t"
  by (erule worker_step.cases; hypsubst) (auto simp: worker_jobs_def worker_mutex_def notify_defs split: if_splits)

lemma worker_sleeps_step: "worker_step s t \<Longrightarrow> worker_mutex s \<Longrightarrow> worker_jobs s \<Longrightarrow> worker_sleeps s \<Longrightarrow> worker_sleeps t"
  by (erule worker_step.cases; hypsubst) (auto simp: worker_sleeps_def worker_jobs_def worker_mutex_def notify_defs split: if_splits)

lemma worker_inv_step: "worker_step s t \<Longrightarrow> worker_inv s \<Longrightarrow> worker_inv t"
  by (simp add: worker_inv_def worker_mutex_step worker_jobs_step worker_sleeps_step worker_stops_step)

lemma worker_inv_run: "worker_run s t \<Longrightarrow> worker_inv s \<Longrightarrow> worker_inv t"
  by (induction rule: worker_run.induct) (auto intro: worker_inv_step)

section \<open>Liveness\<close>

text \<open>A bound on the steps that remain until the owner is idle.\<close>

fun worker_rank :: "worker_pc \<Rightarrow> nat" where
  "worker_rank W_notify = 14"
| "worker_rank W_lock = 3"
| "worker_rank W_check = 2"
| "worker_rank W_sleep = 1"
| "worker_rank (W_run k) = 1"
| "worker_rank _ = 0"

fun owner_rank :: "owner_pc \<Rightarrow> nat" where
  "owner_rank O_submit_lock = 61"
| "owner_rank O_submit_body = 60"
| "owner_rank O_submit_notify = 20"
| "owner_rank O_wait_lock = 10"
| "owner_rank O_wait_check = 9"
| "owner_rank O_wait_sleep = 8"
| "owner_rank O_waiting = 7"
| "owner_rank _ = 0"

definition worker_work :: "worker \<Rightarrow> nat" where
  "worker_work s = worker_rank (w_pc s) + owner_rank (o_pc s) + (if w_job s = None then 0 else 20)"

lemmas worker_progress_defs = worker_work_def notify_defs

definition advances_worker :: "worker \<Rightarrow> bool" where
  "advances_worker s \<longleftrightarrow> (\<exists>t. worker_step s t \<and> worker_work t < worker_work s \<and> \<not> w_stop t)"

lemma advances_workerI: "worker_step s t \<Longrightarrow> worker_work t < worker_work s \<Longrightarrow> \<not> w_stop t \<Longrightarrow> advances_worker s"
  by (auto simp: advances_worker_def)

text \<open>Inside \<open>submit\<close> or \<open>wait\<close> the owner goes on when the worker is neither at work nor about to lock.\<close>

lemma owner_progress:
  assumes i: "worker_mutex s" "worker_jobs s" "worker_sleeps s" and ns: "\<not> w_stop s"
    and o: "o_pc s \<notin> {O_idle, O_stop_notify, O_join, O_done}"
    and m: "w_mtx s \<noteq> Some Worker" "w_pc s = W_wait \<or> w_mtx s = Some Owner"
  shows "advances_worker s"
proof (cases "o_pc s")
  case O_submit_lock
  then have "w_mtx s = None" using i(1) m by (cases "w_mtx s"; cases "the (w_mtx s)") (auto simp: worker_mutex_def)
  then show ?thesis using ns O_submit_lock by (intro advances_workerI [OF submit_lock]) (auto simp: worker_progress_defs)
next
  case O_submit_body
  then have "w_job s = None" using i(2) by (simp add: worker_jobs_def)
  then show ?thesis using ns O_submit_body by (intro advances_workerI [OF submit_body [of s 0]]) (auto simp: worker_progress_defs)
next
  case O_submit_notify
  then show ?thesis using ns by (intro advances_workerI [OF submit_notify]) (auto simp: worker_progress_defs)
next
  case O_wait_lock
  then have "w_mtx s = None" using i(1) m by (cases "w_mtx s"; cases "the (w_mtx s)") (auto simp: worker_mutex_def)
  then show ?thesis using ns O_wait_lock by (intro advances_workerI [OF wait_lock]) (auto simp: worker_progress_defs)
next
  case O_wait_check
  then show ?thesis
    using ns advances_workerI [OF wait_done] advances_workerI [OF wait_job] by (cases "w_job s = None") (auto simp: worker_progress_defs)
next
  case O_wait_sleep
  then show ?thesis using ns by (intro advances_workerI [OF wait_sleep]) (auto simp: worker_progress_defs)
next
  case O_waiting
  then show ?thesis using i(1,3) m by (auto simp: worker_sleeps_def worker_mutex_def)
qed (use o in auto)

lemma worker_progress:
  assumes "worker_inv s" and o: "o_pc s \<notin> {O_idle, O_stop_notify, O_join, O_done}"
  shows "advances_worker s"
proof -
  have i: "worker_mutex s" "worker_jobs s" "worker_sleeps s" "worker_stops s" using assms(1) by (simp_all add: worker_inv_def)
  have ns: "\<not> w_stop s" using i(4) o by (auto simp: worker_stops_def)
  note owner = owner_progress [OF i(1-3) ns o]
  show ?thesis
  proof (cases "w_pc s")
    case W_lock
    then have "w_mtx s \<noteq> Some Worker" using i(1) by (simp add: worker_mutex_def)
    then consider "w_mtx s = None" | "w_mtx s = Some Owner" by (metis who.exhaust not_None_eq)
    then show ?thesis
    proof cases
      case 1
      then show ?thesis using ns W_lock by (intro advances_workerI [OF lock]) (auto simp: worker_progress_defs)
    qed (use owner in simp)
  next
    case W_check
    then show ?thesis
      using ns advances_workerI [OF check_none] advances_workerI [OF check_job] by (cases "w_job s") (auto simp: worker_progress_defs)
  next
    case W_sleep
    then show ?thesis using ns by (intro advances_workerI [OF sleep]) (auto simp: worker_progress_defs)
  next
    case W_wait
    then show ?thesis using owner i(1) by (simp add: worker_mutex_def)
  next
    case (W_run k)
    then have "w_job s = Some k" using i(2) by (simp add: worker_jobs_def)
    then show ?thesis using ns W_run by (intro advances_workerI [OF run]) (auto simp: worker_progress_defs)
  next
    case W_notify
    then show ?thesis using ns by (intro advances_workerI [OF notify]) (auto simp: worker_progress_defs)
  next
    case W_ended
    then show ?thesis using i(4) ns by (simp add: worker_stops_def)
  qed
qed

lemma worker_returns:
  assumes "worker_inv s" and "\<not> w_stop s"
  shows "\<exists>t. worker_run s t \<and> worker_inv t \<and> o_pc t = O_idle"
  using assms
proof (induction "worker_work s" arbitrary: s rule: less_induct)
  case less
  show ?case
  proof (cases "o_pc s = O_idle")
    case True
    then show ?thesis using less.prems worker_run.none by blast
  next
    case False
    then have "o_pc s \<notin> {O_idle, O_stop_notify, O_join, O_done}"
      using less.prems by (auto simp: worker_inv_def worker_stops_def)
    then obtain t where t: "worker_step s t" "worker_work t < worker_work s" "\<not> w_stop t"
      using worker_progress less.prems(1) by (auto simp: advances_worker_def)
    then obtain u where "worker_run t u" "worker_inv u" "o_pc u = O_idle"
      using less.hyps worker_inv_step less.prems(1) by blast
    then show ?thesis using worker_run_trans worker_run.more [OF worker_run.none t(1)] by blast
  qed
qed

text \<open>A worker that sleeps while the owner joins it is never woken.\<close>

lemma worker_stuck:
  assumes "w_pc s = W_wait" and "o_pc s = O_join"
  shows "\<not> worker_step s t"
  using assms by (auto elim: worker_stepE)

end
