(* ===== verification/ServerTheorems.thy ===== *)
theory ServerTheorems
  imports FullProver ThreadWorker
begin

text \<open>
  The properties of the threads: what holds in every state of the prover of the server that any
  number of clients can reach and whether their calls return, and the same of a worker of the
  thread pool and its owner.
\<close>

text \<open>C26: in every reachable state at most one thread holds the mutex and at most one computation is
  in progress; the status is busy exactly while one is; a cancellation is noted only then; the
  status that is reported is one of the five named ones; and a worker that finishes never finds a
  request that waits: the member for pending requests has no effect.\<close>

theorem fullprover_invariant:
  assumes "finite clients" and "fp_run (fp_init clients) c"
  shows "(\<forall>t u. holding (pcs c t) \<and> holding (pcs c u) \<longrightarrow> t = u)
    \<and> (\<forall>t u. active (pcs c t) \<and> active (pcs c u) \<longrightarrow> t = u)
    \<and> (fp_status (shared c) = Busy \<longleftrightarrow> (\<exists>t. active (pcs c t)))
    \<and> (canceled (shared c) \<longrightarrow> fp_status (shared c) = Busy)
    \<and> getStatus (shared c) \<noteq> Ok JNull
    \<and> (at_pc c t Finish_body \<longrightarrow> snd (calcFinished (shared c)) = False)"
proof (intro conjI)
  have i: "fp_inv c" by (rule fp_reachable [OF assms])
  then show "\<forall>t u. holding (pcs c t) \<and> holding (pcs c u) \<longrightarrow> t = u" by (auto simp: fp_inv_def fp_mutex_def)
  show "\<forall>t u. active (pcs c t) \<and> active (pcs c u) \<longrightarrow> t = u" "fp_status (shared c) = Busy \<longleftrightarrow> (\<exists>t. active (pcs c t))"
    using i by (auto simp: fp_inv_def fp_single_def split: if_splits)
  show "canceled (shared c) \<longrightarrow> fp_status (shared c) = Busy" using i by (simp add: fp_inv_def fp_data_def)
  show "getStatus (shared c) \<noteq> Ok JNull"
    using i by (auto simp: fp_inv_def fp_data_def getStatus_def json_set_def Let_def split: option.splits)
  show "at_pc c t Finish_body \<longrightarrow> snd (calcFinished (shared c)) = False"
  proof
    assume t: "at_pc c t Finish_body"
    then have "mtx c = Some t" using i mutex_at [of c t Finish_body] by (auto simp: fp_inv_def)
    then have "\<not> waiting (shared c)" using i t by (auto simp: fp_inv_def fp_requests_def at_pc_def)
    then show "snd (calcFinished (shared c)) = False"
      by (auto simp: calcFinished_def checkPending_def calc_status_def Let_def waiting_def)
  qed
qed

text \<open>A server with one client: it posts an input and, while the worker computes, a second one.\<close>

lemma second_request:
  "\<exists>c. fp_run (fp_init {0}) c \<and> at_pc c 0 (Start_body ''y'' ''c'') \<and> pcs c 1 = Calculate \<and> mtx c = Some 0 \<and> fp_status (shared c) = Busy"
proof -
  let ?p = "fst (checkPending (set_pending ''x'' ''c'' FullProver_new))"
  define c1 where "c1 = goto 0 (Start_lock ''x'' ''c'') (fp_init {0})"
  define c2 where "c2 = goto 0 (Start_body ''x'' ''c'') (acquire 0 c1)"
  define c3 where "c3 = goto 0 Start_check (update (set_pending ''x'' ''c'') c2)"
  define c4 where "c4 = goto 0 Start_unlock (c3\<lparr>shared := ?p, pcs := spawn True 1 (pcs c3)\<rparr>)"
  define c5 where "c5 = goto 0 Idle (release c4)"
  define c6 where "c6 = goto 0 (Start_lock ''y'' ''c'') c5"
  define c7 where "c7 = goto 0 (Start_body ''y'' ''c'') (acquire 0 c6)"
  note d = c1_def c2_def c3_def c4_def c5_def c6_def c7_def fp_init_def fp_step_simps FullProver_new_def
  have s: "fp_step (fp_init {0}) c1" "fp_step c1 c2"
    unfolding c1_def c2_def by (rule call_start start_lock; simp add: d)+
  have s3: "fp_step c2 c3" using start_body [of c2 0 "''x''" "''c''"] by (simp add: d)
  have s4: "fp_step c3 c4" unfolding c4_def by (rule start_check) (simp_all add: d)
  have s5: "fp_step c4 c5" "fp_step c5 c6" "fp_step c6 c7"
    unfolding c5_def c6_def c7_def by (rule start_unlock call_start start_lock; simp add: d)+
  note more = fp_run.more
  have "fp_run (fp_init {0}) c7"
    by (rule more [OF more [OF more [OF more [OF more [OF more [OF more [OF fp_run.none s(1)] s(2)] s3] s4] s5(1)] s5(2)] s5(3)])
  moreover have "at_pc c7 0 (Start_body ''y'' ''c'') \<and> pcs c7 1 = Calculate \<and> mtx c7 = Some 0 \<and> fp_status (shared c7) = Busy"
    by (simp add: d)
  ultimately show ?thesis by blast
qed

theorem fullprover_invariant_witness:
  "\<exists>c. fp_run (fp_init {0}) c \<and> active (pcs c 1) \<and> (\<forall>u. active (pcs c u) \<longrightarrow> u = 1) \<and> fp_status (shared c) = Busy"
proof -
  obtain c where c: "fp_run (fp_init {0}) c" "pcs c 1 = Calculate" using second_request by blast
  then have "active (pcs c 1)" by simp
  then show ?thesis using fullprover_invariant [OF _ c(1)] c(1) by auto
qed

text \<open>C27: whether calls return. A call of \<open>startProve\<close> while a proof is computed locks the mutex that it
  already holds: from then on no thread ever gets the mutex, no call returns, the worker does not
  finish and the status stays busy. From every other reachable state of a process that has not been
  terminated all calls can return and all computations can end.\<close>

theorem startProve_liveness:
  assumes "finite clients" and "fp_run (fp_init clients) c"
  shows "(at_pc c t (Start_body input circuit) \<and> fp_status (shared c) = Busy \<longrightarrow> hung c)
    \<and> (hung c \<longrightarrow> (\<forall>d. fp_run c d \<longrightarrow> hung d \<and> mtx d = mtx c \<and> fp_status (shared d) = Busy))
    \<and> (\<not> hung c \<and> \<not> terminated c \<longrightarrow> (\<exists>d. fp_run c d \<and> \<not> terminated d \<and> quiet d \<and> mtx d = None
      \<and> fp_status (shared d) \<in> {Ready, Aborted, Failed, Success}))"
proof (intro conjI)
  have i: "fp_inv c" by (rule fp_reachable [OF assms])
  show "at_pc c t (Start_body input circuit) \<and> fp_status (shared c) = Busy \<longrightarrow> hung c"
    using i mutex_at [of c t "Start_body input circuit"] by (auto simp: fp_inv_def hung_def at_pc_def)
  have "fp_status (shared d) = Busy" if "fp_inv d" "hung d" for d
    using that by (auto simp: fp_inv_def fp_seen_def hung_def)
  then show "hung c \<longrightarrow> (\<forall>d. fp_run c d \<longrightarrow> hung d \<and> mtx d = mtx c \<and> fp_status (shared d) = Busy)"
    using hung_run [OF _ i] by blast
  show "\<not> hung c \<and> \<not> terminated c \<longrightarrow> (\<exists>d. fp_run c d \<and> \<not> terminated d \<and> quiet d \<and> mtx d = None
      \<and> fp_status (shared d) \<in> {Ready, Aborted, Failed, Success})"
    using can_complete [OF i] quiet_status by blast
qed

theorem startProve_liveness_witness:
  "(\<exists>c. fp_run (fp_init {0}) c \<and> hung c \<and> (\<forall>d. fp_run c d \<longrightarrow> mtx d = Some 0 \<and> fp_status (shared d) = Busy))
   \<and> (\<exists>d. fp_run (fp_init {0, 1}) d \<and> quiet d)"
proof
  obtain c where c: "fp_run (fp_init {0}) c" "at_pc c 0 (Start_body ''y'' ''c'')" "mtx c = Some 0" "fp_status (shared c) = Busy"
    using second_request by blast
  then have "hung c" using conjunct1 [OF startProve_liveness, OF _ c(1), of 0 "''y''" "''c''"] by simp
  then show "\<exists>c. fp_run (fp_init {0}) c \<and> hung c \<and> (\<forall>d. fp_run c d \<longrightarrow> mtx d = Some 0 \<and> fp_status (shared d) = Busy)"
    using startProve_liveness [OF _ c(1)] c by auto
  have "\<not> hung (fp_init {0, 1})" "\<not> terminated (fp_init {0, 1})" by (simp_all add: hung_def fp_init_def)
  then show "\<exists>d. fp_run (fp_init {0, 1}) d \<and> quiet d"
    using startProve_liveness [THEN conjunct2, THEN conjunct2, OF _ fp_run.none [of "fp_init {0, 1}"]] by auto
qed

text \<open>C28: a worker of the thread pool. Whenever \<open>wait\<close> has returned, every job that was submitted has been
  executed exactly once and in order; until the object is destroyed, \<open>submit\<close> and \<open>wait\<close> can always
  return; but a worker that sleeps when the destructor joins it sleeps for ever. The destructor
  sets \<open>stop\<close> without the mutex, so the witness reaches that state: the worker has read \<open>stop\<close>, the
  notification is lost, and it goes to sleep.\<close>

theorem worker_liveness:
  assumes "worker_run ThreadWorker_new s"
  shows "(o_pc s = O_idle \<longrightarrow> executed s = submitted s)
    \<and> (\<not> w_stop s \<longrightarrow> (\<exists>t. worker_run s t \<and> o_pc t = O_idle \<and> executed t = submitted t))
    \<and> (w_pc s = W_wait \<and> o_pc s = O_join \<longrightarrow> (\<forall>t. worker_run s t \<longrightarrow> t = s))"
proof (intro conjI)
  have i: "worker_inv s" by (rule worker_inv_run [OF assms worker_inv_init])
  have e: "executed t = submitted t" if "worker_inv t" "o_pc t = O_idle" for t
    using that by (auto simp: worker_inv_def worker_jobs_def)
  show "o_pc s = O_idle \<longrightarrow> executed s = submitted s" using e i by blast
  show "\<not> w_stop s \<longrightarrow> (\<exists>t. worker_run s t \<and> o_pc t = O_idle \<and> executed t = submitted t)"
    using worker_returns [OF i] e by blast
  have "t = s" if "worker_run s t" "w_pc s = W_wait" "o_pc s = O_join" for t
    using that by (induction rule: worker_run.induct) (auto dest: worker_stuck)
  then show "w_pc s = W_wait \<and> o_pc s = O_join \<longrightarrow> (\<forall>t. worker_run s t \<longrightarrow> t = s)" by blast
qed

theorem worker_liveness_witness:
  "\<exists>s. worker_run ThreadWorker_new s \<and> w_stop s \<and> (\<forall>t. worker_run s t \<longrightarrow> o_pc t \<noteq> O_done)"
proof -
  define s1 where "s1 = ThreadWorker_new\<lparr>w_pc := W_check, w_mtx := Some Worker\<rparr>"
  define s2 where "s2 = s1\<lparr>w_pc := W_sleep\<rparr>"
  define s3 where "s3 = s2\<lparr>o_pc := O_stop_notify, w_stop := True\<rparr>"
  define s4 where "s4 = s3\<lparr>o_pc := O_join\<rparr>"
  define s5 where "s5 = s4\<lparr>w_pc := W_wait, w_mtx := None\<rparr>"
  note d = s1_def s2_def s3_def s4_def s5_def ThreadWorker_new_def
  have s: "worker_step ThreadWorker_new s1" "worker_step s1 s2" "worker_step s2 s3"
    unfolding s1_def s2_def s3_def by (rule lock check_none destroy; simp add: d)+
  have s4: "worker_step s3 s4" using stop_notify [of s3] by (simp add: d notify_occupied_def)
  have s5: "worker_step s4 s5" unfolding s5_def by (rule sleep) (simp add: d)
  note more = worker_run.more
  have r: "worker_run ThreadWorker_new s5"
    by (rule more [OF more [OF more [OF more [OF more [OF worker_run.none s(1)] s(2)] s(3)] s4] s5])
  have "w_pc s5 = W_wait" "o_pc s5 = O_join" "w_stop s5" by (simp_all add: d)
  then show ?thesis using r worker_liveness [OF r] by (intro exI [of _ s5]) auto
qed

end
