(* ===== verification/ProofJson.thy ===== *)
theory ProofJson
  imports Verifier Json
begin

text \<open>
  Proofs, verification keys and public inputs as JSON: \<open>toJson\<close>, \<open>toJsonStr\<close> and \<open>fromJson\<close> of
  \<open>src/groth16.cpp\<close> and \<open>BuildPublicString\<close> of \<open>src/prover.cpp\<close>.

  Shown: reading a printed proof gives the proof back, and how long the texts can be.
\<close>

section \<open>Printing\<close>

definition Fq_toString :: "gmp \<Rightarrow> mpz_lib \<Rightarrow> limbs \<Rightarrow> string" where
  "Fq_toString G Z a = RawF_toString Fq_field G Z a 10"

definition Fr_toString :: "gmp \<Rightarrow> mpz_lib \<Rightarrow> limbs \<Rightarrow> string" where
  "Fr_toString G Z a = RawF_toString Fr_field G Z a 10"

text \<open>\<open>p[k].push_back(v)\<close>, and a new array of strings.\<close>

definition push_member :: "json \<Rightarrow> string \<Rightarrow> json \<Rightarrow> json outcome" where
  "push_member j k v =
     bind_o (json_member j k) (\<lambda>m.
     bind_o (json_push_back m v) (\<lambda>m.
     json_set j k m))"

primrec push_all :: "json \<Rightarrow> string list \<Rightarrow> json outcome" where
  "push_all j [] = Ok j"
| "push_all j (s # ss) = bind_o (json_push_back j (JString s)) (\<lambda>j. push_all j ss)"

definition Proof_toJson :: "gmp \<Rightarrow> mpz_lib \<Rightarrow> groth16_proof \<Rightarrow> json outcome" where
  "Proof_toJson G Z pf =
     (let str = Fq_toString G Z
      in bind_o (json_set JNull ''pi_a'' JNull) (\<lambda>p.
         bind_o (push_member p ''pi_a'' (JString (str (ax (pr_A pf))))) (\<lambda>p.
         bind_o (push_member p ''pi_a'' (JString (str (ay (pr_A pf))))) (\<lambda>p.
         bind_o (push_member p ''pi_a'' (JString ''1'')) (\<lambda>p.
         bind_o (push_all JNull [str (f2_a (ax (pr_B pf))), str (f2_b (ax (pr_B pf)))]) (\<lambda>x2.
         bind_o (push_all JNull [str (f2_a (ay (pr_B pf))), str (f2_b (ay (pr_B pf)))]) (\<lambda>y2.
         bind_o (push_all JNull [''1'', ''0'']) (\<lambda>z2.
         bind_o (json_set p ''pi_b'' JNull) (\<lambda>p.
         bind_o (push_member p ''pi_b'' x2) (\<lambda>p.
         bind_o (push_member p ''pi_b'' y2) (\<lambda>p.
         bind_o (push_member p ''pi_b'' z2) (\<lambda>p.
         bind_o (json_set p ''pi_c'' JNull) (\<lambda>p.
         bind_o (push_member p ''pi_c'' (JString (str (ax (pr_C pf))))) (\<lambda>p.
         bind_o (push_member p ''pi_c'' (JString (str (ay (pr_C pf))))) (\<lambda>p.
         bind_o (push_member p ''pi_c'' (JString ''1'')) (\<lambda>p.
         json_set p ''protocol'' (JString ''groth16'')))))))))))))))))"

text \<open>The text that \<open>toJsonStr\<close> assembles itself; \<open>dq\<close> is the quotation mark.\<close>

definition Proof_toJsonStr :: "gmp \<Rightarrow> mpz_lib \<Rightarrow> groth16_proof \<Rightarrow> string" where
  "Proof_toJsonStr G Z pf =
     (let dq = [char_of (34 :: nat)];
          str = Fq_toString G Z
      in ''{ '' @ dq @ ''pi_a'' @ dq @ '':['' @ dq @ str (ax (pr_A pf)) @ dq @ '','' @ dq @ str (ay (pr_A pf)) @ dq @ '','' @ dq @ ''1'' @ dq @ ''], ''
         @ '' '' @ dq @ ''pi_b'' @ dq @ '': [['' @ dq @ str (f2_a (ax (pr_B pf))) @ dq @ '','' @ dq @ str (f2_b (ax (pr_B pf))) @ dq @ ''],[''
         @ dq @ str (f2_a (ay (pr_B pf))) @ dq @ '','' @ dq @ str (f2_b (ay (pr_B pf))) @ dq @ ''], ['' @ dq @ ''1'' @ dq @ '','' @ dq @ ''0'' @ dq @ '']], ''
         @ '' '' @ dq @ ''pi_c'' @ dq @ '': ['' @ dq @ str (ax (pr_C pf)) @ dq @ '','' @ dq @ str (ay (pr_C pf)) @ dq @ '','' @ dq @ ''1'' @ dq @ ''], ''
         @ '' '' @ dq @ ''protocol'' @ dq @ '':'' @ dq @ ''groth16'' @ dq @ '' }'')"

text \<open>The public inputs are the elements 1 to \<open>nPublic\<close> of the witness.\<close>

primrec push_public :: "gmp \<Rightarrow> mpz_lib \<Rightarrow> limbs list \<Rightarrow> nat \<Rightarrow> nat \<Rightarrow> json \<Rightarrow> json outcome" where
  "push_public G Z wtns i 0 j = Ok j"
| "push_public G Z wtns i (Suc n) j =
     (if i < length wtns
      then let aux = F_rawToMontgomery Fr_field G (wtns ! i)
           in bind_o (json_push_back j (JString (Fr_toString G Z aux))) (push_public G Z wtns (i + 1) n)
      else Undef)"

definition dump_o :: "json \<Rightarrow> string outcome" where
  "dump_o j = (case dump j of None \<Rightarrow> Throw type_error | Some s \<Rightarrow> Ok s)"

definition BuildPublicString :: "gmp \<Rightarrow> mpz_lib \<Rightarrow> limbs list \<Rightarrow> u32 \<Rightarrow> string outcome" where
  "BuildPublicString G Z wtns nPublic = bind_o (push_public G Z wtns 1 (unat nPublic) JNull) dump_o"

section \<open>Reading\<close>

definition string_at :: "json \<Rightarrow> nat \<Rightarrow> string outcome" where
  "string_at j i = bind_o (json_const_index j i) json_get_string"

definition G1PointAffineFromJson :: "gmp \<Rightarrow> mpz_lib \<Rightarrow> json \<Rightarrow> limbs point_affine outcome" where
  "G1PointAffineFromJson G Z value =
     bind_o (string_at value 0) (\<lambda>x.
     bind_o (string_at value 1) (\<lambda>y.
     Ok \<lparr>ax = Fq_fromString G Z x, ay = Fq_fromString G Z y\<rparr>))"

definition G2PointAffineFromJson :: "gmp \<Rightarrow> mpz_lib \<Rightarrow> json \<Rightarrow> limbs f2 point_affine outcome" where
  "G2PointAffineFromJson G Z value =
     bind_o (json_const_index value 0) (\<lambda>v0.
     bind_o (string_at v0 0) (\<lambda>xa.
     bind_o (string_at v0 1) (\<lambda>xb.
     bind_o (json_const_index value 1) (\<lambda>v1.
     bind_o (string_at v1 0) (\<lambda>ya.
     bind_o (string_at v1 1) (\<lambda>yb.
     Ok \<lparr>ax = \<lparr>f2_a = Fq_fromString G Z xa, f2_b = Fq_fromString G Z xb\<rparr>,
         ay = \<lparr>f2_a = Fq_fromString G Z ya, f2_b = Fq_fromString G Z yb\<rparr>\<rparr>))))))"

definition Proof_fromJson :: "gmp \<Rightarrow> mpz_lib \<Rightarrow> json \<Rightarrow> groth16_proof outcome" where
  "Proof_fromJson G Z proof =
     bind_o (json_const_member proof ''pi_a'') (\<lambda>a. bind_o (G1PointAffineFromJson G Z a) (\<lambda>A.
     bind_o (json_const_member proof ''pi_b'') (\<lambda>b. bind_o (G2PointAffineFromJson G Z b) (\<lambda>B.
     bind_o (json_const_member proof ''pi_c'') (\<lambda>c. bind_o (G1PointAffineFromJson G Z c) (\<lambda>C.
     Ok \<lparr>pr_A = A, pr_B = B, pr_C = C\<rparr>))))))"

definition VerificationKey_fromJson :: "gmp \<Rightarrow> mpz_lib \<Rightarrow> json \<Rightarrow> verification_key outcome" where
  "VerificationKey_fromJson G Z key =
     bind_o (json_const_member key ''vk_alpha_1'') (\<lambda>a. bind_o (G1PointAffineFromJson G Z a) (\<lambda>alpha.
     bind_o (json_const_member key ''vk_beta_2'') (\<lambda>b. bind_o (G2PointAffineFromJson G Z b) (\<lambda>beta.
     bind_o (json_const_member key ''vk_gamma_2'') (\<lambda>g. bind_o (G2PointAffineFromJson G Z g) (\<lambda>gamma.
     bind_o (json_const_member key ''vk_delta_2'') (\<lambda>d. bind_o (G2PointAffineFromJson G Z d) (\<lambda>delta.
     bind_o (json_const_member key ''IC'') (\<lambda>ic.
     bind_o (map_o (G1PointAffineFromJson G Z) (json_items ic)) (\<lambda>IC.
     Ok \<lparr>vk_Alpha = alpha, vk_Beta = beta, vk_Gamma = gamma, vk_Delta = delta, vk_IC = IC\<rparr>))))))))))"

section \<open>The value of a proof\<close>

abbreviation strings :: "string list \<Rightarrow> json" where
  "strings ss \<equiv> JArray (map JString ss)"

definition proof_json :: "gmp \<Rightarrow> mpz_lib \<Rightarrow> groth16_proof \<Rightarrow> json" where
  "proof_json G Z pf =
     (let str = Fq_toString G Z
      in JObject [(''pi_a'', strings [str (ax (pr_A pf)), str (ay (pr_A pf)), ''1'']),
         (''pi_b'', JArray [strings [str (f2_a (ax (pr_B pf))), str (f2_b (ax (pr_B pf)))],
            strings [str (f2_a (ay (pr_B pf))), str (f2_b (ay (pr_B pf)))], strings [''1'', ''0'']]),
         (''pi_c'', strings [str (ax (pr_C pf)), str (ay (pr_C pf)), ''1'']),
         (''protocol'', JString ''groth16'')])"

lemmas json_ops = push_member_def json_set_def json_member_def json_push_back_def json_const_member_def json_const_index_def
  json_get_string_def string_at_def

lemma Proof_toJson_value: "Proof_toJson G Z pf = Ok (proof_json G Z pf)"
  by (simp add: Proof_toJson_def proof_json_def json_ops Let_def)

lemma push_public_value:
  "i + n \<le> length wtns \<Longrightarrow> push_public G Z wtns i n (JArray xs)
    = Ok (JArray (xs @ map (\<lambda>k. JString (Fr_toString G Z (F_rawToMontgomery Fr_field G (wtns ! k)))) [i..<i + n]))"
  by (induction n arbitrary: i xs) (simp_all add: json_push_back_def Let_def upt_rec)

text \<open>Without public inputs the value stays null.\<close>

lemma push_public_start:
  "1 + n \<le> length wtns \<Longrightarrow> push_public G Z wtns 1 n JNull = Ok (if n = 0 then JNull
    else strings (map (\<lambda>k. Fr_toString G Z (F_rawToMontgomery Fr_field G (wtns ! k))) [1..<1 + n]))"
  using push_public_value [of 2 "n - 1" wtns G Z "[JString (Fr_toString G Z (F_rawToMontgomery Fr_field G (wtns ! 1)))]"]
  by (cases n) (simp_all add: json_push_back_def Let_def upt_rec comp_def numeral_2_eq_2)

section \<open>Decimal texts\<close>

lemma length_digits: "n < 10 ^ Suc k \<Longrightarrow> length (digits n) \<le> Suc k"
proof (induction k arbitrary: n)
  case (Suc k)
  then have "n div 10 < 10 ^ Suc k" by (simp add: less_mult_imp_div_less mult.commute)
  then show ?case using Suc.IH by (subst digits.simps) simp
qed (simp add: digits.simps)

text \<open>The text of an element of one of the two fields has at most 77 digits.\<close>

definition decimal :: "string \<Rightarrow> bool" where
  "decimal s \<longleftrightarrow> list_all plain_char s \<and> length s \<le> 77"

lemma digits_plain_chars: "list_all plain_char (digits n)"
  by (rule list.pred_mono_strong [OF digits_digits]) (auto simp: is_digit_def plain_char_def Let_def)

lemma decimal_digits: "n < 10 ^ 77 \<Longrightarrow> decimal (digits n)"
  using length_digits [of n 76] digits_plain_chars by (simp add: decimal_def)

context raw_class_field
begin

lemma toString_digits: "raw_elem P a \<Longrightarrow> \<exists>n. RawF_toString P G Z a 10 = digits n \<and> int n < prime_of P"
  using raw_toString [OF repr_m_of] q_pos by (metis int_nat_eq order_less_imp_le pos_mod_bound pos_mod_sign)

lemma toString_fromString: "raw_elem P a \<Longrightarrow> RawF_fromString P G Z (RawF_toString P G Z a 10) 10 = a"
  using string_roundtrip [of a "''0''"] by (simp add: is_digit_def)

lemma toString_decimal:
  assumes "raw_elem P a" and "prime_of P < 10 ^ 77"
  shows "decimal (RawF_toString P G Z a 10)"
proof -
  obtain n where n: "RawF_toString P G Z a 10 = digits n" "int n < prime_of P" using toString_digits [OF assms(1)] by blast
  then have "int n < int (10 ^ 77)" using assms(2) by simp
  then have "n < 10 ^ 77" by (simp only: of_nat_less_iff)
  then show ?thesis using decimal_digits n(1) by simp
qed

end

lemma primes_decimal: "prime_of Fq_field < 10 ^ 77" "prime_of Fr_field < 10 ^ 77"
  by (simp_all add: prime_of_Fq prime_of_Fr)

lemma Fq_text:
  assumes "gmp_mpn G" "gmp_mpz Z" "raw_elem Fq_field a"
  shows "decimal (Fq_toString G Z a)" "Fq_fromString G Z (Fq_toString G Z a) = a"
  using raw_class_field.toString_decimal [OF raw_class_fieldI [OF assms(1,2) field_ok_Fq] assms(3)] primes_decimal
    raw_class_field.toString_fromString [OF raw_class_fieldI [OF assms(1,2) field_ok_Fq] assms(3)]
  by (simp_all add: Fq_toString_def Fq_fromString_def)

lemma Fr_text:
  assumes "gmp_mpn G" "gmp_mpz Z" "length a = 4"
  shows "decimal (Fr_toString G Z (F_rawToMontgomery Fr_field G a))"
proof -
  note F = raw_class_fieldI [OF assms(1,2) field_ok_Fr]
  have "raw_elem Fr_field (F_rawToMontgomery Fr_field G a)"
    using raw_class_field.toMontgomery [OF F assms(3)] by (simp add: repr_m_def)
  then show ?thesis
    using raw_class_field.toString_decimal [OF F] primes_decimal by (simp add: Fr_toString_def)
qed

section \<open>Round trip\<close>

definition proof_elems :: "groth16_proof \<Rightarrow> limbs list" where
  "proof_elems pf = [ax (pr_A pf), ay (pr_A pf), f2_a (ax (pr_B pf)), f2_b (ax (pr_B pf)), f2_a (ay (pr_B pf)), f2_b (ay (pr_B pf)),
     ax (pr_C pf), ay (pr_C pf)]"

lemma Proof_fromJson_value:
  assumes "gmp_mpn G" "gmp_mpz Z" "list_all fq_good (proof_elems pf)"
  shows "Proof_fromJson G Z (proof_json G Z pf) = Ok pf"
  using assms Fq_text(2)
  by (simp add: Proof_fromJson_def proof_json_def json_ops G1PointAffineFromJson_def G2PointAffineFromJson_def Let_def
    proof_elems_def fq_good_def)

section \<open>Sizes\<close>

lemma dump_decimals: "list_all decimal ss \<Longrightarrow> dump (strings ss) = Some (''['' @ join (CHR '','') (map quoted ss) @ '']'')"
proof -
  assume "list_all decimal ss"
  then have "map_opt dump (map JString ss) = Some (map quoted ss)"
    by (simp add: map_opt_Some list_all_length decimal_def dump_escaped_plain)
  then show ?thesis by simp
qed

lemma sum_list_upper: "(\<And>x. x \<in> set xs \<Longrightarrow> f x \<le> (b::nat)) \<Longrightarrow> sum_list (map f xs) \<le> b * length xs"
  by (induction xs) (simp_all add: add_le_mono)

lemma length_decimals:
  assumes "list_all decimal ss"
  shows "length (join (CHR '','') (map quoted ss)) \<le> 80 * length ss - 1"
proof -
  have "sum_list (map length (map quoted ss)) \<le> 79 * length ss"
    unfolding map_map by (rule sum_list_upper) (use assms in \<open>auto simp: list_all_iff decimal_def\<close>)
  then show ?thesis by (cases ss) (simp_all add: length_join)
qed

lemma BuildPublicString_value:
  assumes "gmp_mpn G" "gmp_mpz Z" "1 + unat n \<le> length wtns" "list_all (\<lambda>x. length x = 4) wtns"
  shows "\<exists>t. BuildPublicString G Z wtns n = Ok t \<and> (if n = 0 then t = ''null'' else length t \<le> 80 * unat n + 1)"
proof (cases "n = 0")
  case True
  then show ?thesis using assms(3) by (simp add: BuildPublicString_def dump_o_def)
next
  case False
  define ss where "ss = map (\<lambda>k. Fr_toString G Z (F_rawToMontgomery Fr_field G (wtns ! k))) [1..<1 + unat n]"
  have d: "list_all decimal ss"
    using assms(3,4) Fr_text [OF assms(1,2)] by (auto simp: ss_def list_all_iff simp del: upt_Suc)
  have "unat n \<noteq> 0" using False by (simp add: unat_eq_0)
  then have p: "push_public G Z wtns 1 (unat n) JNull = Ok (strings ss)"
    using push_public_start [of "unat n" wtns G Z] assms(3) by (simp only: ss_def if_False)
  have b: "BuildPublicString G Z wtns n = Ok (''['' @ join (CHR '','') (map quoted ss) @ '']'')"
    unfolding BuildPublicString_def p by (simp only: bind_o.simps dump_o_def dump_decimals [OF d] option.case)
  have "length ss = unat n" by (simp add: ss_def del: upt_Suc)
  moreover have "0 < unat n" using False by (simp add: word_neq_0_conv unat_gt_0)
  ultimately show ?thesis using length_decimals [OF d] False b by (simp; linarith)
qed

text \<open>Eight numbers of at most 77 digits, and 112 characters around them.\<close>

lemma dump_proof:
  assumes "gmp_mpn G" "gmp_mpz Z" "list_all fq_good (proof_elems pf)"
  shows "\<exists>t. dump (proof_json G Z pf) = Some t \<and> length t \<le> 8 * 77 + 112"
proof -
  define s where "s x = Fq_toString G Z x" for x
  have d: "list_all (\<lambda>x. decimal (s x)) (proof_elems pf)"
    using assms Fq_text(1) by (auto simp: s_def list_all_iff fq_good_def)
  then have n: "list_all (\<lambda>x. length (s x) \<le> 77) (proof_elems pf)" by (simp add: list_all_iff decimal_def)
  have e: "list_all (\<lambda>x. dump_escaped (s x) = Some (s x)) (proof_elems pf)"
    using d by (simp add: list_all_iff decimal_def dump_escaped_plain)
  have l: "dump_escaped ''1'' = Some ''1''" "dump_escaped ''0'' = Some ''0''" "dump_escaped ''groth16'' = Some ''groth16''"
    "dump_escaped ''pi_a'' = Some ''pi_a''" "dump_escaped ''pi_b'' = Some ''pi_b''" "dump_escaped ''pi_c'' = Some ''pi_c''"
    "dump_escaped ''protocol'' = Some ''protocol''"
    by (rule dump_escaped_plain, simp add: plain_char_def)+
  show ?thesis
    unfolding proof_json_def Let_def s_def [symmetric]
    using n e by (simp add: l proof_elems_def)
qed

end
