(* ===== verification/CApi.thy ===== *)
theory CApi
  imports ProofJson Prover Headers
begin

text \<open>
  The C interfaces of the prover (\<open>src/prover.cpp\<close>) and of the verifier (\<open>src/verifier.cpp\<close>): objects
  built from the bytes of a key, witnesses, buffers for the results and for messages, and codes.

  A buffer that the caller passes is the list of its characters (its length is the capacity that
  the caller promises), a null pointer is \<open>None\<close>. The arrays of a key are read from the bytes of
  its sections when the object is made; a proof is \<open>Undef\<close> when an array that it reads does
  not lie in the file or an index of a coefficient is out of range. The order in which the arguments of a call are
  evaluated is the order in which they are written.

  Shown: what the buffers hold and how large they have to be.
\<close>

section \<open>Messages\<close>

fun what :: "exn \<Rightarrow> string" where
  "what (range_error s) = s"
| "what (invalid_argument s) = s"
| "what (invalid_witness_length s) = s"
| "what (system_error s) = s"
| "what (runtime_error s) = s"
| "what (json_error s) = s"

definition NUL :: char where
  "NUL = char_of (0 :: nat)"

text \<open>\<open>snprintf\<close> with the format \<open>%s\<close>, and \<open>strncpy\<close>, which pads with zero bytes and writes no
  terminator when the text fills the buffer.\<close>

definition snprintf_s :: "string \<Rightarrow> u64 \<Rightarrow> string \<Rightarrow> string" where
  "snprintf_s buf n text = put buf (take (unat n - 1) text @ [NUL])"

definition strncpy :: "string \<Rightarrow> u64 \<Rightarrow> string \<Rightarrow> string" where
  "strncpy buf n text = put buf (take (unat n) (text @ replicate (unat n) NUL))"

definition CopyError :: "string option \<Rightarrow> u64 \<Rightarrow> string \<Rightarrow> string option" where
  "CopyError error_msg error_msg_maxsize text =
     (case error_msg of
        None \<Rightarrow> None
      | Some buf \<Rightarrow> if error_msg_maxsize = 0 then Some buf else Some (snprintf_s buf error_msg_maxsize text))"

section \<open>Codes and sizes\<close>

definition PROVER_OK :: nat where "PROVER_OK = 0"
definition PROVER_ERROR :: nat where "PROVER_ERROR = 1"
definition PROVER_ERROR_SHORT_BUFFER :: nat where "PROVER_ERROR_SHORT_BUFFER = 2"
definition PROVER_INVALID_WITNESS_LENGTH :: nat where "PROVER_INVALID_WITNESS_LENGTH = 3"

definition ProofBufferMinSize :: u64 where
  "ProofBufferMinSize = 810"

definition PublicBufferMinSize :: "u64 \<Rightarrow> u64" where
  "PublicBufferMinSize count = count * 82 + 4"

definition PrimeIsValid :: "mpz_lib \<Rightarrow> int \<Rightarrow> bool" where
  "PrimeIsValid Z n \<longleftrightarrow>
     n = mpz_init_set_str Z ''21888242871839275222246405745257275088548364400416034343698204186575808495617'' 10"

section \<open>The arrays of a key\<close>

definition limbs_at :: "binfile \<Rightarrow> u64 \<Rightarrow> limbs" where
  "limbs_at f p = map (\<lambda>i. of_nat (le_val (take 8 (drop (unat (p - addr f) + 8 * i) (fdata f))))) [0..<4]"

definition u32_at :: "binfile \<Rightarrow> u64 \<Rightarrow> u32" where
  "u32_at f p = of_nat (le_val (take 4 (drop (unat (p - addr f)) (fdata f))))"

definition g1_at :: "binfile \<Rightarrow> u64 \<Rightarrow> limbs point_affine" where
  "g1_at f p = \<lparr>ax = limbs_at f p, ay = limbs_at f (p + 32)\<rparr>"

definition g2_at :: "binfile \<Rightarrow> u64 \<Rightarrow> limbs f2 point_affine" where
  "g2_at f p = \<lparr>ax = \<lparr>f2_a = limbs_at f p, f2_b = limbs_at f (p + 32)\<rparr>, ay = \<lparr>f2_a = limbs_at f (p + 64), f2_b = limbs_at f (p + 96)\<rparr>\<rparr>"

definition coef_at :: "binfile \<Rightarrow> u64 \<Rightarrow> coef" where
  "coef_at f p = \<lparr>c_m = u32_at f p, c_c = u32_at f (p + 4), c_s = u32_at f (p + 8), c_coef = limbs_at f (p + 12)\<rparr>"

text \<open>\<open>n\<close> elements of \<open>sz\<close> bytes at a pointer.\<close>

definition array_at :: "(binfile \<Rightarrow> u64 \<Rightarrow> 'a) \<Rightarrow> nat \<Rightarrow> binfile \<Rightarrow> u64 \<Rightarrow> nat \<Rightarrow> 'a list" where
  "array_at el sz f p n = map (\<lambda>i. el f (p + of_nat (sz * i))) [0..<n]"

section \<open>The prover object\<close>

record sections_of_key =
  s_coefs :: u64
  s_A :: u64
  s_B1 :: u64
  s_B2 :: u64
  s_C :: u64
  s_H :: u64

record groth16_prover =
  gp_zkey :: binfile
  gp_header :: zkey_header
  gp_sections :: sections_of_key
  gp_prover :: prover

definition key_sections :: "binfile \<Rightarrow> sections_of_key outcome" where
  "key_sections f =
     bind_o (getSectionData 4 0 f) (\<lambda>coefs.
     bind_o (getSectionData 5 0 f) (\<lambda>A.
     bind_o (getSectionData 6 0 f) (\<lambda>B1.
     bind_o (getSectionData 7 0 f) (\<lambda>B2.
     bind_o (getSectionData 8 0 f) (\<lambda>C.
     bind_o (getSectionData 9 0 f) (\<lambda>H.
     Ok \<lparr>s_coefs = coefs, s_A = A, s_B1 = B1, s_B2 = B2, s_C = C, s_H = H\<rparr>))))))"

definition makeProver :: "engine \<Rightarrow> mpz_lib \<Rightarrow> nat \<Rightarrow> nat list \<Rightarrow> (nat \<Rightarrow> limbs) \<Rightarrow> binfile \<Rightarrow> zkey_header \<Rightarrow> sections_of_key
    \<Rightarrow> prover outcome option" where
  "makeProver E Z nThreads blocks garbage f h s =
     Prover_new E Z nThreads blocks garbage (nVars h) (nPublic h) (domainSize h) (nCoefs h)
       (g1_at f (vk_alpha1 h)) (g1_at f (vk_beta1 h)) (g2_at f (vk_beta2 h)) (g1_at f (vk_delta1 h)) (g2_at f (vk_delta2 h))
       (array_at coef_at 44 f (s_coefs s + 4) (nat (as_int (nCoefs h))))
       (array_at g1_at 64 f (s_A s) (unat (nVars h)))
       (array_at g1_at 64 f (s_B1 s) (unat (nVars h)))
       (array_at g2_at 128 f (s_B2 s) (unat (nVars h)))
       (array_at g1_at 64 f (s_C s) (unat (nVars h - nPublic h - 1)))
       (array_at g1_at 64 f (s_H s) (unat (domainSize h)))"

definition Groth16Prover_new :: "engine \<Rightarrow> mpz_lib \<Rightarrow> (u8 list \<Rightarrow> int) \<Rightarrow> nat \<Rightarrow> nat list \<Rightarrow> (nat \<Rightarrow> limbs) \<Rightarrow> u8 list \<Rightarrow> u64 \<Rightarrow> u64
    \<Rightarrow> groth16_prover outcome option" where
  "Groth16Prover_new E Z imp nThreads blocks garbage zkey address len =
     bind_oo (Some (BinFile zkey address len ''zkey'' 1)) (\<lambda>f.
     bind_oo (Some (zkey_loadHeader imp f)) (\<lambda>(h, f).
     if \<not> PrimeIsValid Z (rPrime h) then Some (Throw (invalid_argument ''zkey curve not supported''))
     else
     bind_oo (Some (key_sections f)) (\<lambda>s.
     bind_oo (makeProver E Z nThreads blocks garbage f h s) (\<lambda>P.
     Some (Ok \<lparr>gp_zkey = f, gp_header = h, gp_sections = s, gp_prover = P\<rparr>)))))"

text \<open>What a proof reads lies in the file and in the witness.\<close>

definition prove_reads_ok :: "groth16_prover \<Rightarrow> binfile \<Rightarrow> u64 \<Rightarrow> bool" where
  "prove_reads_ok gp wtns p \<longleftrightarrow>
     (let f = gp_zkey gp; h = gp_header gp; s = gp_sections gp; n = unat (nVars h)
      in in_file f (s_A s) (64 * n) \<and> in_file f (s_B1 s) (64 * n) \<and> in_file f (s_B2 s) (128 * n)
       \<and> in_file f (s_C s) (64 * unat (nVars h - nPublic h - 1)) \<and> in_file f (s_H s) (64 * unat (domainSize h))
       \<and> in_file f (s_coefs s + 4) (44 * nat (as_int (nCoefs h))) \<and> in_file wtns p (32 * n)
       \<and> list_all (\<lambda>c. unat (c_s c) < n \<and> c_c c < domainSize h) (p_coefs (gp_prover gp))
       \<and> nPublic h < nVars h)"

definition dump_proof_o :: "gmp \<Rightarrow> mpz_lib \<Rightarrow> groth16_proof \<Rightarrow> string outcome" where
  "dump_proof_o G Z pf = bind_o (Proof_toJson G Z pf) dump_o"

definition Groth16Prover_prove :: "gmp \<Rightarrow> engine \<Rightarrow> mpz_lib \<Rightarrow> (u8 list \<Rightarrow> int) \<Rightarrow> nat \<Rightarrow> (nat \<Rightarrow> nat \<Rightarrow> nat \<Rightarrow> (nat \<times> nat) list) \<Rightarrow> (nat \<Rightarrow> nat list)
    \<Rightarrow> (nat \<Rightarrow> limbs) \<Rightarrow> (nat \<Rightarrow> int) \<Rightarrow> u8 list \<Rightarrow> u8 list \<Rightarrow> groth16_prover \<Rightarrow> u8 list \<Rightarrow> u64 \<Rightarrow> u64 \<Rightarrow> (string \<times> string) outcome option" where
  "Groth16Prover_prove G E Z imp nThreads sch order garbage slots rb sb gp wtns address len =
     bind_oo (Some (BinFile wtns address len ''wtns'' 2)) (\<lambda>f.
     bind_oo (Some (wtns_loadHeader imp f)) (\<lambda>(w, f).
     let h = gp_header gp
     in if nVars h \<noteq> wtns_nVars w
        then Some (Throw (invalid_witness_length (''Invalid witness length. Circuit: '' @ to_string (nVars h)
          @ '', witness: '' @ to_string (wtns_nVars w))))
        else if \<not> PrimeIsValid Z (prime w) then Some (Throw (invalid_argument ''different wtns curve''))
        else
     bind_oo (Some (getSectionData 2 0 f)) (\<lambda>p.
     if \<not> prove_reads_ok gp f p then Some Undef
     else
       let data = array_at limbs_at 32 f p (unat (nVars h))
       in Option.bind (prove G E nThreads sch order garbage slots rb sb (gp_prover gp) data) (\<lambda>pf.
          bind_oo (Some (dump_proof_o G Z pf)) (\<lambda>stringProof.
          bind_oo (Some (BuildPublicString G Z data (nPublic h))) (\<lambda>stringPublic.
          Some (Ok (stringProof, stringPublic))))))))"

section \<open>The functions of the prover\<close>

text \<open>What a function leaves in the buffers and in the variables of the caller.\<close>

record prove_out =
  o_code :: nat
  o_proof :: "string option"
  o_proof_size :: "u64 option"
  o_public :: "string option"
  o_public_size :: "u64 option"
  o_error :: "string option"

definition exn_code :: "exn \<Rightarrow> nat" where
  "exn_code e = (case e of invalid_witness_length s \<Rightarrow> PROVER_INVALID_WITNESS_LENGTH | _ \<Rightarrow> PROVER_ERROR)"

definition groth16_public_size_for_zkey_buf :: "(u8 list \<Rightarrow> int) \<Rightarrow> u8 list \<Rightarrow> u64 \<Rightarrow> u64 \<Rightarrow> u64 \<Rightarrow> string option \<Rightarrow> u64
    \<Rightarrow> (nat \<times> u64 \<times> string option) outcome" where
  "groth16_public_size_for_zkey_buf imp zkey address len public_size error_msg maxsize =
     (case bind_o (BinFile zkey address len ''zkey'' 1) (zkey_loadHeader imp) of
        Ok (h, f) \<Rightarrow> Ok (PROVER_OK, PublicBufferMinSize (ucast (nPublic h)), error_msg)
      | Throw e \<Rightarrow> Ok (PROVER_ERROR, public_size, CopyError error_msg maxsize (what e))
      | Undef \<Rightarrow> Undef)"

definition groth16_public_size_for_zkey_file :: "(u8 list \<Rightarrow> int) \<Rightarrow> os \<Rightarrow> (u64 \<Rightarrow> u64 \<Rightarrow> u8 list) \<Rightarrow> string \<Rightarrow> u64 \<Rightarrow> string option
    \<Rightarrow> u64 \<Rightarrow> (nat \<times> u64 \<times> string option) outcome \<times> syscall list" where
  "groth16_public_size_for_zkey_file imp os mem zkey_fname public_size error_msg maxsize =
     (let fail = (\<lambda>e. Ok (PROVER_ERROR, public_size, CopyError error_msg maxsize (what e)))
      in case openExisting os mem zkey_fname ''zkey'' 1 of
        (Ok (f, this), calls) \<Rightarrow>
          (case zkey_loadHeader imp f of
             Ok (h, f) \<Rightarrow> (Ok (PROVER_OK, PublicBufferMinSize (ucast (nPublic h)), error_msg), calls @ FileLoader_destroy this)
           | Throw e \<Rightarrow> (fail e, calls @ FileLoader_destroy this)
           | Undef \<Rightarrow> (Undef, calls))
      | (Throw e, calls) \<Rightarrow> (fail e, calls)
      | (Undef, calls) \<Rightarrow> (Undef, calls))"

definition groth16_proof_size :: u64 where
  "groth16_proof_size = ProofBufferMinSize"

text \<open>The object that \<open>*prover_object\<close> holds afterwards is the last component; a null pointer for
  \<open>prover_object\<close> itself is \<open>\<not> target\<close>.\<close>

definition groth16_prover_create :: "engine \<Rightarrow> mpz_lib \<Rightarrow> (u8 list \<Rightarrow> int) \<Rightarrow> nat \<Rightarrow> nat list \<Rightarrow> (nat \<Rightarrow> limbs) \<Rightarrow> bool
    \<Rightarrow> u8 list option \<Rightarrow> u64 \<Rightarrow> u64 \<Rightarrow> string option \<Rightarrow> u64 \<Rightarrow> (nat \<times> string option \<times> groth16_prover option) outcome option" where
  "groth16_prover_create E Z imp nThreads blocks garbage target zkey_buffer address len error_msg maxsize =
     (let r = (if \<not> target then Some (Throw (invalid_argument ''Null prover object''))
               else case zkey_buffer of
                      None \<Rightarrow> Some (Throw (invalid_argument ''Null zkey buffer''))
                    | Some zkey \<Rightarrow> Groth16Prover_new E Z imp nThreads blocks garbage zkey address len)
      in Option.bind r (\<lambda>r. Some (case r of
             Ok gp \<Rightarrow> Ok (PROVER_OK, error_msg, Some gp)
           | Throw e \<Rightarrow> Ok (PROVER_ERROR, CopyError error_msg maxsize (what e), None)
           | Undef \<Rightarrow> Undef)))"

definition short_buffer_text :: "u64 \<Rightarrow> u64 \<Rightarrow> u64 \<Rightarrow> u64 \<Rightarrow> string" where
  "short_buffer_text requiredProofSize origProofSize requiredPublicSize origPublicSize =
     ''Buffer insufficient for generated proof. Required - proof: '' @ to_string requiredProofSize
     @ '' (provided: '' @ to_string origProofSize @ ''), public: '' @ to_string requiredPublicSize
     @ '' (provided: '' @ to_string origPublicSize @ '')''"

text \<open>The last part of \<open>groth16_prover_prove\<close>: the texts go to the buffers.\<close>

definition write_results :: "string \<Rightarrow> string \<Rightarrow> string \<Rightarrow> u64 \<Rightarrow> string \<Rightarrow> u64 \<Rightarrow> string option \<Rightarrow> u64 \<Rightarrow> prove_out" where
  "write_results stringProof stringPublic proof_buffer proof_size public_buffer public_size error_msg maxsize =
     (if length stringProof \<ge> 2 ^ 64 - 1 \<or> length stringPublic \<ge> 2 ^ 64 - 1
      then \<lparr>o_code = PROVER_ERROR, o_proof = Some proof_buffer, o_proof_size = Some proof_size, o_public = Some public_buffer,
             o_public_size = Some public_size, o_error = CopyError error_msg maxsize ''Proof or public data too large''\<rparr>
      else
        let requiredProofSize = of_nat (length stringProof) + 1;
            requiredPublicSize = of_nat (length stringPublic) + 1
        in if proof_size < requiredProofSize \<or> public_size < requiredPublicSize
           then \<lparr>o_code = PROVER_ERROR_SHORT_BUFFER, o_proof = Some proof_buffer, o_proof_size = Some requiredProofSize,
                  o_public = Some public_buffer, o_public_size = Some requiredPublicSize,
                  o_error = CopyError error_msg maxsize (short_buffer_text requiredProofSize proof_size requiredPublicSize public_size)\<rparr>
           else \<lparr>o_code = PROVER_OK, o_proof = Some (put proof_buffer (stringProof @ [NUL])), o_proof_size = Some (of_nat (length stringProof)),
                  o_public = Some (put public_buffer (stringPublic @ [NUL])), o_public_size = Some (of_nat (length stringPublic)),
                  o_error = error_msg\<rparr>)"

text \<open>Texts of a proof and of \<open>n\<close> public inputs fit into buffers of the announced sizes.\<close>

lemma write_results_fits:
  assumes "length sp \<le> 728" "n \<noteq> 0 \<Longrightarrow> length su \<le> 80 * unat n + 1" "n \<noteq> (0 :: u32)"
    and "groth16_proof_size \<le> psize" "PublicBufferMinSize (ucast n) \<le> usize"
  shows "write_results sp su pbuf psize ubuf usize err m = \<lparr>o_code = PROVER_OK, o_proof = Some (put pbuf (sp @ [NUL])),
      o_proof_size = Some (of_nat (length sp)), o_public = Some (put ubuf (su @ [NUL])), o_public_size = Some (of_nat (length su)), o_error = err\<rparr>
    \<and> length sp + 1 \<le> unat psize \<and> length su + 1 \<le> unat usize"
proof -
  have n: "unat n < 2 ^ 32" using unsigned_less [of n] by simp
  have p: "unat (PublicBufferMinSize (ucast n)) = unat n * 82 + 4"
    using n by (simp add: PublicBufferMinSize_def unat_word_ariths ucast_small)
  have s: "length su \<le> 80 * unat n + 1" using assms(2,3) by simp
  have l: "length sp < 2 ^ 64 - 1" "length su < 2 ^ 64 - 1" using assms(1) s n by simp_all
  have f: "length sp + 1 \<le> unat psize" "length su + 1 \<le> unat usize"
    using assms(1,4,5) s p by (simp_all add: groth16_proof_size_def ProofBufferMinSize_def word_le_nat_alt)
  have req: "unat (of_nat (length x) + 1 :: u64) = length x + 1" if "length x < 2 ^ 64 - 1" for x :: string
    using that by (simp add: unat_word_ariths unat_of_nat)
  then have "\<not> psize < of_nat (length sp) + 1" "\<not> usize < of_nat (length su) + 1"
    using l f by (simp_all add: word_less_nat_alt)
  then show ?thesis using l f by (simp add: write_results_def Let_def)
qed

text \<open>\<open>run\<close> is the call of \<open>Groth16Prover::prove\<close> on the object and the witness.\<close>

definition groth16_prover_prove :: "(groth16_prover \<Rightarrow> u8 list \<Rightarrow> (string \<times> string) outcome option) \<Rightarrow> groth16_prover option \<Rightarrow> u8 list option
    \<Rightarrow> string option \<Rightarrow> u64 option \<Rightarrow> string option \<Rightarrow> u64 option \<Rightarrow> string option \<Rightarrow> u64 \<Rightarrow> prove_out outcome option" where
  "groth16_prover_prove run prover_object wtns_buffer proof_buffer proof_size public_buffer public_size error_msg maxsize =
     (let out = \<lparr>o_code = PROVER_ERROR, o_proof = proof_buffer, o_proof_size = proof_size, o_public = public_buffer,
            o_public_size = public_size, o_error = error_msg\<rparr>;
          fail = (\<lambda>code text. Some (Ok (out\<lparr>o_code := code, o_error := CopyError error_msg maxsize text\<rparr>)))
      in case prover_object of None \<Rightarrow> fail PROVER_ERROR ''Null prover object'' | Some gp \<Rightarrow>
         case wtns_buffer of None \<Rightarrow> fail PROVER_ERROR ''Null witness buffer'' | Some wtns \<Rightarrow>
         case proof_buffer of None \<Rightarrow> fail PROVER_ERROR ''Null proof buffer'' | Some pbuf \<Rightarrow>
         case proof_size of None \<Rightarrow> fail PROVER_ERROR ''Null proof size'' | Some psize \<Rightarrow>
         case public_buffer of None \<Rightarrow> fail PROVER_ERROR ''Null public buffer'' | Some ubuf \<Rightarrow>
         case public_size of None \<Rightarrow> fail PROVER_ERROR ''Null public size'' | Some usize \<Rightarrow>
         Option.bind (run gp wtns) (\<lambda>r.
           case r of
             Throw e \<Rightarrow> fail (exn_code e) (what e)
           | Undef \<Rightarrow> Some Undef
           | Ok (stringProof, stringPublic) \<Rightarrow>
               Some (Ok (write_results stringProof stringPublic pbuf psize ubuf usize error_msg maxsize))))"

text \<open>Create, prove, destroy: the object does not outlive the call.\<close>

definition groth16_prover_once :: "(string option \<Rightarrow> (nat \<times> string option \<times> groth16_prover option) outcome option)
    \<Rightarrow> (groth16_prover \<Rightarrow> u8 list \<Rightarrow> (string \<times> string) outcome option) \<Rightarrow> u8 list option
    \<Rightarrow> string option \<Rightarrow> u64 option \<Rightarrow> string option \<Rightarrow> u64 option \<Rightarrow> string option \<Rightarrow> u64 \<Rightarrow> prove_out outcome option" where
  "groth16_prover_once create run wtns_buffer proof_buffer proof_size public_buffer public_size error_msg maxsize =
     bind_oo (create error_msg) (\<lambda>(error, error_msg, gp).
       if error \<noteq> PROVER_OK
       then Some (Ok \<lparr>o_code = error, o_proof = proof_buffer, o_proof_size = proof_size, o_public = public_buffer,
              o_public_size = public_size, o_error = error_msg\<rparr>)
       else groth16_prover_prove run gp wtns_buffer proof_buffer proof_size public_buffer public_size error_msg maxsize)"

text \<open>The prover on a key in a file: the loader, a local variable, is destroyed when the function
  returns, after the object was made of the mapped bytes. The calls of the system are returned too.\<close>

definition groth16_prover_create_zkey_file :: "os \<Rightarrow> (u64 \<Rightarrow> u64 \<Rightarrow> u8 list)
    \<Rightarrow> (u8 list option \<Rightarrow> u64 \<Rightarrow> u64 \<Rightarrow> string option \<Rightarrow> (nat \<times> string option \<times> groth16_prover option) outcome option)
    \<Rightarrow> string \<Rightarrow> string option \<Rightarrow> u64 \<Rightarrow> (nat \<times> string option \<times> groth16_prover option) outcome option \<times> syscall list" where
  "groth16_prover_create_zkey_file os mem create path error_msg maxsize =
     (case FileLoader_load os path FileLoader of
        (Some e, this, calls) \<Rightarrow> (Some (Ok (PROVER_ERROR, CopyError error_msg maxsize (what e), None)), calls @ FileLoader_destroy this)
      | (None, this, calls) \<Rightarrow>
          (case (dataBuffer this, dataSize this) of
             (Some p, Some n) \<Rightarrow> (create (Some (mem p n)) p n error_msg, calls @ FileLoader_destroy this)
           | _ \<Rightarrow> (Some Undef, calls)))"

text \<open>The same for one proof: here the loader lives until the proof is made.\<close>

definition groth16_prover_zkey_file :: "os \<Rightarrow> (u64 \<Rightarrow> u64 \<Rightarrow> u8 list)
    \<Rightarrow> (u8 list option \<Rightarrow> u64 \<Rightarrow> u64 \<Rightarrow> string option \<Rightarrow> (nat \<times> string option \<times> groth16_prover option) outcome option)
    \<Rightarrow> (groth16_prover \<Rightarrow> u8 list \<Rightarrow> (string \<times> string) outcome option) \<Rightarrow> string \<Rightarrow> u8 list option
    \<Rightarrow> string option \<Rightarrow> u64 option \<Rightarrow> string option \<Rightarrow> u64 option \<Rightarrow> string option \<Rightarrow> u64 \<Rightarrow> prove_out outcome option \<times> syscall list" where
  "groth16_prover_zkey_file os mem create run path wtns_buffer proof_buffer proof_size public_buffer public_size error_msg maxsize =
     (case FileLoader_load os path FileLoader of
        (Some e, this, calls) \<Rightarrow> (Some (Ok \<lparr>o_code = PROVER_ERROR, o_proof = proof_buffer, o_proof_size = proof_size,
             o_public = public_buffer, o_public_size = public_size, o_error = CopyError error_msg maxsize (what e)\<rparr>),
           calls @ FileLoader_destroy this)
      | (None, this, calls) \<Rightarrow>
          (case (dataBuffer this, dataSize this) of
             (Some p, Some n) \<Rightarrow>
               (groth16_prover_once (create (Some (mem p n)) p n) run wtns_buffer proof_buffer proof_size public_buffer public_size
                  error_msg maxsize, calls @ FileLoader_destroy this)
           | _ \<Rightarrow> (Some Undef, calls)))"

section \<open>The function of the verifier\<close>

definition VERIFIER_VALID_PROOF :: nat where "VERIFIER_VALID_PROOF = 0"
definition VERIFIER_INVALID_PROOF :: nat where "VERIFIER_INVALID_PROOF = 1"
definition VERIFIER_ERROR :: nat where "VERIFIER_ERROR = 2"

text \<open>\<open>catch (...)\<close>: every exception becomes one with a fixed text. \<open>parse\<close> is the parser of the library.\<close>

definition catch_all :: "string \<Rightarrow> 'a outcome \<Rightarrow> 'a outcome" where
  "catch_all text m = (case m of Throw e \<Rightarrow> Throw (invalid_argument text) | _ \<Rightarrow> m)"

definition parse_proof :: "gmp \<Rightarrow> mpz_lib \<Rightarrow> (string \<Rightarrow> json outcome) \<Rightarrow> string \<Rightarrow> groth16_proof outcome" where
  "parse_proof G Z parse str = catch_all ''invalid proof data''
     (bind_o (parse str) (\<lambda>j.
      bind_o (bind_o (json_member j ''protocol'') json_get_string) (\<lambda>protocol.
      if protocol \<noteq> ''groth16'' then Throw (invalid_argument ''invalid proof data'')
      else Proof_fromJson G Z j)))"

definition Fr_fromString :: "gmp \<Rightarrow> mpz_lib \<Rightarrow> string \<Rightarrow> limbs" where
  "Fr_fromString G Z s = RawF_fromString Fr_field G Z s 10"

definition parse_inputs :: "gmp \<Rightarrow> mpz_lib \<Rightarrow> (string \<Rightarrow> json outcome) \<Rightarrow> string \<Rightarrow> limbs list outcome" where
  "parse_inputs G Z parse str = catch_all ''invalid inputs data''
     (bind_o (parse str) (\<lambda>j.
      bind_o (json_get_strings j) (\<lambda>ss.
      if ss = [] then Throw (invalid_argument ''invalid inputs data'')
      else Ok (map (Fr_fromString G Z) ss))))"

definition parse_key :: "gmp \<Rightarrow> mpz_lib \<Rightarrow> (string \<Rightarrow> json outcome) \<Rightarrow> string \<Rightarrow> verification_key outcome" where
  "parse_key G Z parse str = catch_all ''invalid verification key data''
     (bind_o (parse str) (\<lambda>j.
      bind_o (bind_o (json_member j ''protocol'') json_get_string) (\<lambda>protocol.
      bind_o (bind_o (json_member j ''curve'') json_get_string) (\<lambda>curve.
      bind_o (bind_o (json_member j ''nPublic'') json_get_number) (\<lambda>nPublic.
      if protocol \<noteq> ''groth16'' \<or> curve \<noteq> ''bn128'' then Throw (invalid_argument ''invalid verification key data'')
      else bind_o (VerificationKey_fromJson G Z j) (\<lambda>key.
           if vk_IC key = [] then Throw (invalid_argument ''invalid verification key data'') else Ok key))))))"

definition groth16_verify :: "gmp \<Rightarrow> engine \<Rightarrow> mpz_lib \<Rightarrow> (string \<Rightarrow> json outcome) \<Rightarrow> string \<Rightarrow> string \<Rightarrow> string \<Rightarrow> string option \<Rightarrow> u64
    \<Rightarrow> (nat \<times> string option) outcome option" where
  "groth16_verify G E Z parse proof inputs verification_key error_msg maxsize =
     (let r = bind_oo (Some (parse_proof G Z parse proof)) (\<lambda>proof_value.
              bind_oo (Some (parse_inputs G Z parse inputs)) (\<lambda>inputs_value.
              bind_oo (Some (parse_key G Z parse verification_key)) (\<lambda>key_value.
              bind_oo (Verifier_new G Z) (\<lambda>V.
              Some (verify G E V proof_value inputs_value key_value)))))
      in Option.bind r (\<lambda>r. Some (case r of
             Ok valid \<Rightarrow> Ok (if valid then VERIFIER_VALID_PROOF else VERIFIER_INVALID_PROOF, error_msg)
           | Throw e \<Rightarrow> Ok (VERIFIER_ERROR, map_option (\<lambda>buf. strncpy buf maxsize (what e)) error_msg)
           | Undef \<Rightarrow> Undef)))"

end
