(* ===== verification/ApiTheorems.thy ===== *)
theory ApiTheorems
  imports CApi ProverTheorems RawTheorems
begin

text \<open>
  The properties of the texts and of the C interfaces.
\<close>

text \<open>C30: round trip of a proof. The JSON value of a proof with reduced coordinates reads back as the
  same limbs, and the C interface of the verifier accepts it whatever text the parser reads it from.\<close>

theorem proof_json_roundtrip:
  assumes "gmp_mpn G" and "gmp_mpz Z" and "list_all fq_good (proof_elems pf)"
  shows "\<exists>j. Proof_toJson G Z pf = Ok j \<and> Proof_fromJson G Z j = Ok pf
    \<and> (\<forall>parse t. parse t = Ok j \<longrightarrow> parse_proof G Z parse t = Ok pf)"
proof -
  have m: "json_member (proof_json G Z pf) ''protocol'' = Ok (JString ''groth16'')"
    by (simp add: proof_json_def json_ops Let_def)
  show ?thesis
    using Proof_toJson_value Proof_fromJson_value [OF assms] m
    by (auto simp: parse_proof_def catch_all_def json_get_string_def)
qed

definition small_proof :: groth16_proof where
  "small_proof = \<lparr>pr_A = \<lparr>ax = [2, 0, 0, 0], ay = [3, 0, 0, 0]\<rparr>,
     pr_B = \<lparr>ax = \<lparr>f2_a = [2, 0, 0, 0], f2_b = [3, 0, 0, 0]\<rparr>, ay = \<lparr>f2_a = [3, 0, 0, 0], f2_b = [2, 0, 0, 0]\<rparr>\<rparr>,
     pr_C = \<lparr>ax = [3, 0, 0, 0], ay = [2, 0, 0, 0]\<rparr>\<rparr>"

lemma small_proof_good: "list_all fq_good (proof_elems small_proof)"
  using fq_good_small by (simp add: proof_elems_def small_proof_def)

theorem proof_json_roundtrip_witness:
  "\<exists>j. Proof_toJson gmp_ref mpz_ref small_proof = Ok j \<and> parse_proof gmp_ref mpz_ref (\<lambda>t. Ok j) ''text'' = Ok small_proof"
proof -
  obtain j where j: "Proof_toJson gmp_ref mpz_ref small_proof = Ok j"
    "\<forall>parse t. parse t = Ok j \<longrightarrow> parse_proof gmp_ref mpz_ref parse t = Ok small_proof"
    using proof_json_roundtrip [OF gref.gmp_mpn_axioms zref.gmp_mpz_axioms small_proof_good] by blast
  have "parse_proof gmp_ref mpz_ref (\<lambda>t. Ok j) ''text'' = Ok small_proof" by (rule j(2) [rule_format]) (rule refl)
  then show ?thesis using j(1) by blast
qed

text \<open>C29: the sizes that the interface announces. Buffers of the announced sizes always have room for the
  texts of a proof and of one or more public inputs and their terminators: the code is \<open>PROVER_OK\<close>
  and nothing is written past their ends. Without public inputs the text is \<open>null\<close>, which does not fit with its
  terminator in the four bytes that are announced: the code is \<open>PROVER_ERROR_SHORT_BUFFER\<close>.\<close>

theorem announced_sizes:
  assumes "gmp_mpn G" and "gmp_mpz Z" and "list_all fq_good (proof_elems pf)"
    and "list_all (\<lambda>x. length x = 4) wtns" and "unat n < length wtns"
  shows "\<exists>sp su. dump_proof_o G Z pf = Ok sp \<and> BuildPublicString G Z wtns n = Ok su
    \<and> (\<forall>pbuf psize ubuf usize err m. length pbuf = unat psize \<longrightarrow> length ubuf = unat usize
      \<longrightarrow> groth16_proof_size \<le> psize \<longrightarrow> PublicBufferMinSize (ucast n) \<le> usize \<longrightarrow> n \<noteq> 0
      \<longrightarrow> write_results sp su pbuf psize ubuf usize err m
         = \<lparr>o_code = PROVER_OK, o_proof = Some (put pbuf (sp @ [NUL])), o_proof_size = Some (of_nat (length sp)),
            o_public = Some (put ubuf (su @ [NUL])), o_public_size = Some (of_nat (length su)), o_error = err\<rparr>
       \<and> length (put pbuf (sp @ [NUL])) = unat psize \<and> length (put ubuf (su @ [NUL])) = unat usize)
    \<and> (\<forall>pbuf psize ubuf err m. n = 0 \<longrightarrow> o_code (write_results sp su pbuf psize ubuf (PublicBufferMinSize 0) err m) = PROVER_ERROR_SHORT_BUFFER
       \<and> o_public_size (write_results sp su pbuf psize ubuf (PublicBufferMinSize 0) err m) = Some 5)"
proof -
  obtain sp where sp: "dump (proof_json G Z pf) = Some sp" "length sp \<le> 728" using dump_proof [OF assms(1-3)] by auto
  then have spo: "dump_proof_o G Z pf = Ok sp" by (simp add: dump_proof_o_def dump_o_def Proof_toJson_value)
  obtain su where su: "BuildPublicString G Z wtns n = Ok su" "if n = 0 then su = ''null'' else length su \<le> 80 * unat n + 1"
    using BuildPublicString_value [OF assms(1,2) _ assms(4), of n] assms(5) by auto
  have s: "n \<noteq> 0 \<Longrightarrow> length su \<le> 80 * unat n + 1" using su(2) by simp
  note w = write_results_fits [OF sp(2) s]
  have z: "o_code (write_results sp su pbuf psize ubuf (PublicBufferMinSize 0) err m) = PROVER_ERROR_SHORT_BUFFER
      \<and> o_public_size (write_results sp su pbuf psize ubuf (PublicBufferMinSize 0) err m) = Some 5" if "n = 0" for pbuf psize ubuf err m
    using that sp(2) su(2) by (simp add: write_results_def PublicBufferMinSize_def Let_def)
  show ?thesis using spo su(1) w z by (intro exI [of _ sp] exI [of _ su]) (auto simp: Suc_le_eq)
qed

theorem announced_sizes_witness:
  "\<exists>sp su. dump_proof_o gmp_ref mpz_ref small_proof = Ok sp \<and> BuildPublicString gmp_ref mpz_ref [[1, 0, 0, 0]] 0 = Ok su
    \<and> o_code (write_results sp su [] 810 (replicate 4 NUL) (PublicBufferMinSize 0) None 0) = PROVER_ERROR_SHORT_BUFFER"
  using announced_sizes [OF gref.gmp_mpn_axioms zref.gmp_mpz_axioms small_proof_good, of "[[1, 0, 0, 0]]" 0] by auto

lemma proof_coords_good:
  "g1_coords (pr_A pf) A \<Longrightarrow> g2_coords (pr_B pf) B \<Longrightarrow> g1_coords (pr_C pf) C \<Longrightarrow> list_all fq_good (proof_elems pf)"
  by (simp add: g1_coords_def g2_coords_def coord_affine_def proof_elems_def f2_good_def)

lemma parse_inputs_value:
  assumes "gmp_mpn G" "gmp_mpz Z" "parse t = Ok (strings (map digits ns))" "ns \<noteq> []"
  shows "\<exists>inputs. parse_inputs G Z parse t = Ok inputs \<and> length inputs = length ns
    \<and> (\<forall>i < length ns. repr_m Fr_field (inputs ! i) (int (ns ! i)))"
proof -
  have "map_o json_get_string (map JString ss) = Ok ss" for ss by (induction ss) (simp_all add: json_get_string_def)
  from this [of "map digits ns"] have "json_get_strings (strings (map digits ns)) = Ok (map digits ns)"
    by (simp add: json_get_strings_def)
  then have "parse_inputs G Z parse t = Ok (map (Fr_fromString G Z) (map digits ns))"
    using assms(3,4) by (simp add: parse_inputs_def catch_all_def)
  moreover have "repr_m Fr_field (Fr_fromString G Z (digits n)) (int n)" for n
    using raw_class_field.raw_fromString [OF raw_class_fieldI [OF assms(1,2) field_ok_Fr] digits_digits digits_nonempty, of n]
    by (simp add: Fr_fromString_def dec_val_digits)
  ultimately show ?thesis by simp
qed

text \<open>C4: the C interface of the verifier, from texts to a code. When the parser reads the text of a
  proof, a list of public inputs in decimal and a key, the code says whether the Groth16 equation
  holds; a list of inputs of the wrong length gives \<open>VERIFIER_ERROR\<close> and the message.\<close>

theorem groth16_verify_code:
  assumes "gmp_mpn G" and "gmp_mpz Z" and "Engine_new G Z = Some (Ok E)"
    and "parse pt = Ok (proof_json G Z pf)" and "parse it = Ok (strings (map digits ns))" and "ns \<noteq> []" and "\<forall>n \<in> set ns. int n < fr_prime"
    and "parse_key G Z parse kt = Ok key"
    and "\<And>i. i < length (vk_IC key) \<Longrightarrow> g1_affine (vk_IC key ! i) (ic ! i)"
    and "g1_coords (pr_A pf) A" and "g2_coords (pr_B pf) B" and "g1_coords (pr_C pf) C" and "C \<noteq> Infinity"
    and "g1_coords (vk_Alpha key) alpha" and "alpha \<noteq> Infinity"
    and "g2_coords (vk_Beta key) beta" and "g2_coords (vk_Gamma key) gamma" and "g2_coords (vk_Delta key) delta"
    and "pairable A B" and "pairable (aneg alpha) beta" and "pairable (aneg (public_point ic (map int ns))) gamma" and "pairable (aneg C) delta"
  shows "groth16_verify G E Z parse pt it kt err m = Some (Ok
    (if length ns + 1 \<noteq> length (vk_IC key)
     then (VERIFIER_ERROR, map_option (\<lambda>buf. strncpy buf m ''len(inputs)+1 != len(vk.IC)'') err)
     else (if pairing A B * pairing (aneg alpha) beta * pairing (aneg (public_point ic (map int ns))) gamma * pairing (aneg C) delta = 1
           then VERIFIER_VALID_PROOF else VERIFIER_INVALID_PROOF, err)))"
proof -
  note e = engine_classI [OF assms(1-3)]
  obtain V where V: "Verifier_new G Z = Some (Ok V)" "engine_class.verifier_ok V"
    using engine_class.Verifier_new_ok [OF e] by blast
  have "json_member (proof_json G Z pf) ''protocol'' = Ok (JString ''groth16'')"
    by (simp add: proof_json_def json_ops Let_def)
  then have p: "parse_proof G Z parse pt = Ok pf"
    using Proof_fromJson_value [OF assms(1,2) proof_coords_good [OF assms(10-12)]] assms(4)
    by (simp add: parse_proof_def catch_all_def json_get_string_def)
  obtain inputs where i: "parse_inputs G Z parse it = Ok inputs" "length inputs = length ns"
    "\<And>i. i < length ns \<Longrightarrow> repr_m Fr_field (inputs ! i) (int (ns ! i))"
    using parse_inputs_value [OF assms(1,2), of parse it ns] assms(5,6) by blast
  have v: "groth16_verify G E Z parse pt it kt err m = Some (case verify G E V pf inputs key of
      Ok valid \<Rightarrow> Ok (if valid then VERIFIER_VALID_PROOF else VERIFIER_INVALID_PROOF, err)
    | Throw e \<Rightarrow> Ok (VERIFIER_ERROR, map_option (\<lambda>buf. strncpy buf m (what e)) err)
    | Undef \<Rightarrow> Undef)"
    using p i(1) assms(8) V(1) by (simp add: groth16_verify_def)
  show ?thesis
  proof (cases "length ns + 1 = length (vk_IC key)")
    case True
    have ic: "\<And>i. i < length (vk_IC key) \<Longrightarrow> rep_a fq_good fq_val (fq_val (Fq_fromString G Z ''0'')) (fq_val (Fq_fromString G Z ''3''))
        (vk_IC key ! i) (ic ! i)"
      using assms(9) by (simp add: g1_affine_def raw_fq.g1_coefficients [OF raw_fqI, OF assms(1,2)])
    have "verify G E V pf inputs key = Ok (pairing A B * pairing (aneg alpha) beta * pairing (aneg (public_point ic (map int ns))) gamma
        * pairing (aneg C) delta = 1)"
      by (rule engine_class.verify_value [OF e V(2) _ ic])
        (use True i assms(7,10-22) in \<open>simp_all add: g1_coords_def g2_coords_def\<close>)
    then show ?thesis using v True by simp
  next
    case False
    then have "verify G E V pf inputs key = Throw (invalid_argument ''len(inputs)+1 != len(vk.IC)'')"
      using i(2) by (simp add: verify_def)
    then show ?thesis using v False by simp
  qed
qed

text \<open>For the witness: the JSON value of a key.\<close>

definition g1_json :: "gmp \<Rightarrow> mpz_lib \<Rightarrow> limbs point_affine \<Rightarrow> json" where
  "g1_json G Z a = strings [Fq_toString G Z (ax a), Fq_toString G Z (ay a), ''1'']"

definition g2_json :: "gmp \<Rightarrow> mpz_lib \<Rightarrow> limbs f2 point_affine \<Rightarrow> json" where
  "g2_json G Z a = JArray [strings [Fq_toString G Z (f2_a (ax a)), Fq_toString G Z (f2_b (ax a))],
     strings [Fq_toString G Z (f2_a (ay a)), Fq_toString G Z (f2_b (ay a))], strings [''1'', ''0'']]"

definition key_json :: "gmp \<Rightarrow> mpz_lib \<Rightarrow> verification_key \<Rightarrow> json" where
  "key_json G Z key = JObject [(''IC'', JArray (map (g1_json G Z) (vk_IC key))), (''curve'', JString ''bn128''),
     (''nPublic'', JInt (int (length (vk_IC key)) - 1)), (''protocol'', JString ''groth16''),
     (''vk_alpha_1'', g1_json G Z (vk_Alpha key)), (''vk_beta_2'', g2_json G Z (vk_Beta key)),
     (''vk_delta_2'', g2_json G Z (vk_Delta key)), (''vk_gamma_2'', g2_json G Z (vk_Gamma key))]"

lemma point_json:
  assumes "gmp_mpn G" "gmp_mpz Z"
  shows "g1_coords a A \<Longrightarrow> G1PointAffineFromJson G Z (g1_json G Z a) = Ok a"
    and "g2_coords b B \<Longrightarrow> G2PointAffineFromJson G Z (g2_json G Z b) = Ok b"
  using Fq_text(2) [OF assms]
  by (simp_all add: g1_json_def g2_json_def G1PointAffineFromJson_def G2PointAffineFromJson_def json_ops g1_coords_def g2_coords_def
    coord_affine_def fq_good_def f2_good_def)

lemma map_o_Ok: "(\<And>x. x \<in> set xs \<Longrightarrow> f (g x) = Ok x) \<Longrightarrow> map_o f (map g xs) = Ok xs"
  by (induction xs) simp_all

lemma parse_key_value:
  assumes "gmp_mpn G" "gmp_mpz Z" "parse t = Ok (key_json G Z key)" "vk_IC key \<noteq> []"
    and "\<And>a. a \<in> set (vk_IC key) \<Longrightarrow> \<exists>A. g1_coords a A" "g1_coords (vk_Alpha key) alpha"
    and "g2_coords (vk_Beta key) beta" "g2_coords (vk_Gamma key) gamma" "g2_coords (vk_Delta key) delta"
  shows "parse_key G Z parse t = Ok key"
proof -
  have "map_o (G1PointAffineFromJson G Z) (map (g1_json G Z) (vk_IC key)) = Ok (vk_IC key)"
    using assms(5) point_json(1) [OF assms(1,2)] by (intro map_o_Ok) blast
  then have "VerificationKey_fromJson G Z (key_json G Z key) = Ok key"
    using point_json [OF assms(1,2)] assms(6-9)
    by (simp add: VerificationKey_fromJson_def key_json_def json_const_member_def json_items_def)
  then show ?thesis
    using assms(3,4) by (simp add: parse_key_def catch_all_def json_member_def json_get_string_def json_get_number_def key_json_def)
qed

lemma g1_affine_coords: "g1_affine a A \<Longrightarrow> g1_coords a A"
  by (auto simp: g1_affine_def g1_coords_def dest: rep_a_coord)

theorem groth16_verify_code_witness:
  "groth16_verify gmp_ref engine_ref mpz_ref
      (\<lambda>t. if t = ''proof'' then Ok (proof_json gmp_ref mpz_ref sample_proof)
           else if t = ''inputs'' then Ok (strings (map digits [1])) else Ok (key_json gmp_ref mpz_ref sample_key))
      ''proof'' ''inputs'' ''key'' None 0
    = Some (Ok (if pairing (Affine 1 1) (Affine 1 1) = 1 then VERIFIER_VALID_PROOF else VERIFIER_INVALID_PROOF, None))"
    (is "groth16_verify gmp_ref engine_ref mpz_ref ?parse _ _ _ _ _ = _")
proof -
  obtain f where f: "ate (Affine 1 1) (Affine 1 1) = Some f" using ate_cusp by blast
  then have "f \<noteq> 0" using ate_nonzero [OF f] by simp
  then have p: "pairable (Affine 1 1) (Affine 1 1)" using f by (simp only: pairable_def) blast
  note c = all_one_coord(2) [OF ref_fields(1)] all_one_coord(2) [OF ref_fields(2)] all_one_coord(3) [OF ref_fields(2)]
  note s = sample_key_def sample_proof_def g1_coords_def g2_coords_def
  have a: "g1_coords (pr_A sample_proof) (Affine 1 1)" "g2_coords (pr_B sample_proof) (Affine 1 1)" "g1_coords (pr_C sample_proof) (Affine 1 1)"
    unfolding s groth16_proof.simps by (rule c)+
  have "parse_key gmp_ref mpz_ref ?parse ''key'' = Ok sample_key"
    by (rule parse_key_value [OF gref.gmp_mpn_axioms zref.gmp_mpz_axioms, of _ _ _ "Affine 1 1" Infinity Infinity Infinity])
      (use c generator_ref(1) g1_affine_coords in \<open>auto simp: s\<close>)
  then have "groth16_verify gmp_ref engine_ref mpz_ref ?parse ''proof'' ''inputs'' ''key'' None 0 = Some (Ok
    (if length [1 :: nat] + 1 \<noteq> length (vk_IC sample_key)
     then (VERIFIER_ERROR, map_option (\<lambda>buf. strncpy buf 0 ''len(inputs)+1 != len(vk.IC)'') None)
     else (if pairing (Affine 1 1) (Affine 1 1) * pairing (aneg (Affine 1 1)) Infinity
           * pairing (aneg (public_point (replicate 2 (Affine 1 2)) (map int [1]))) Infinity * pairing (aneg (Affine 1 1)) Infinity = 1
           then VERIFIER_VALID_PROOF else VERIFIER_INVALID_PROOF, None)))"
    by (intro groth16_verify_code [OF gref.gmp_mpn_axioms zref.gmp_mpz_axioms engine_ref_new])
      (use a c p generator_ref(1) in \<open>simp_all add: sample_key_def g1_coords_def g2_coords_def pairing_Infinity fr_prime_def\<close>)
  then show ?thesis by (simp add: sample_key_def pairing_Infinity)
qed

text \<open>A proof without one of its points is not rejected: the access to the missing member is undefined.\<close>

lemma verify_missing_member_undefined:
  assumes "parse pt = Ok (JObject [(''protocol'', JString ''groth16'')])"
  shows "groth16_verify G E Z parse pt it kt err m = Some Undef"
  using assms by (simp add: groth16_verify_def parse_proof_def catch_all_def json_member_def json_get_string_def Proof_fromJson_def
    json_const_member_def)

text \<open>A prover made from a key in a file keeps addresses in a mapping that is removed before it is used.\<close>

lemma create_zkey_file_unmaps:
  assumes "os_open os path = d" "d \<noteq> - 1" "os_fstat os d = Some n" "os_mmap os d n = Some p"
  shows "groth16_prover_create_zkey_file os mem create path err m
    = (create (Some (mem p n)) p n err, [Open path, Fstat d, Mmap n d, Madvise p n, Munmap (Some p) (Some n), Close d])"
  using assms by (simp add: groth16_prover_create_zkey_file_def FileLoader_load_def FileLoader_destroy_def FileLoader_def
    dataBuffer_def dataSize_def Let_def)

end
