(* ===== verification/KeyFile.thy ===== *)
theory KeyFile
  imports CApi ProverCorrect
begin

text \<open>
  Key and witness files as their abstract contents: the layout of the sections that the prover reads,
  and what the object of the C interface (\<open>Groth16Prover\<close> of \<open>src/prover.cpp\<close>) makes of a file with
  given contents. Elements of a field are four limbs, least significant byte first; a section of
  points is its points one after the other.

  Shown: the constructor builds the prover object of exactly the contents of the file, and every
  array that a proof reads lies in the file.
\<close>

section \<open>Elements in a file\<close>

definition g1_bytes :: "limbs point_affine \<Rightarrow> u8 list" where
  "g1_bytes a = elem_bytes (ax a) @ elem_bytes (ay a)"

definition g2_bytes :: "limbs f2 point_affine \<Rightarrow> u8 list" where
  "g2_bytes a = (elem_bytes (f2_a (ax a)) @ elem_bytes (f2_b (ax a))) @ elem_bytes (f2_a (ay a)) @ elem_bytes (f2_b (ay a))"

definition coef_bytes :: "coef \<Rightarrow> u8 list" where
  "coef_bytes c = le_bytes 4 (unat (c_m c)) @ le_bytes 4 (unat (c_c c)) @ le_bytes 4 (unat (c_s c)) @ elem_bytes (c_coef c)"

definition g1_wf :: "limbs point_affine \<Rightarrow> bool" where
  "g1_wf a \<longleftrightarrow> length (ax a) = 4 \<and> length (ay a) = 4"

definition g2_wf :: "limbs f2 point_affine \<Rightarrow> bool" where
  "g2_wf a \<longleftrightarrow> length (f2_a (ax a)) = 4 \<and> length (f2_b (ax a)) = 4 \<and> length (f2_a (ay a)) = 4 \<and> length (f2_b (ay a)) = 4"

definition coef_wf :: "coef \<Rightarrow> bool" where
  "coef_wf c \<longleftrightarrow> length (c_coef c) = 4"

lemma length_elem_bytes:
  "g1_wf a \<Longrightarrow> length (g1_bytes a) = 64" "g2_wf b \<Longrightarrow> length (g2_bytes b) = 128" "coef_wf c \<Longrightarrow> length (coef_bytes c) = 44"
  by (simp_all add: g1_bytes_def g2_bytes_def coef_bytes_def g1_wf_def g2_wf_def coef_wf_def elem_bytes_length)

text \<open>A block of bytes is read as its parts.\<close>

lemma ptr_bytes_iff:
  "ptr_bytes f p bs \<longleftrightarrow> in_file f p (length bs) \<and> take (length bs) (drop (unat (p - addr f)) (fdata f)) = bs"
  by (auto simp: ptr_bytes_def in_file_def bytes_at_def)

lemma ptr_split:
  assumes "ptr_bytes f p (xs @ ys)" and "length (fdata f) < 2 ^ 64"
  shows "ptr_bytes f p xs" and "ptr_bytes f (p + of_nat (length xs)) ys"
proof -
  define o1 where "o1 = unat (p - addr f)"
  have i: "o1 + length xs + length ys \<le> length (fdata f)"
    and t: "take (length xs + length ys) (drop o1 (fdata f)) = xs @ ys"
    using assms(1) by (simp_all add: ptr_bytes_iff in_file_def o1_def)
  have "p + of_nat (length xs) - addr f = (p - addr f) + of_nat (length xs)" by simp
  then have o2: "unat (p + of_nat (length xs) - addr f) = o1 + length xs"
    using i assms(2) by (simp only: unat_word_ariths o1_def [symmetric]) (simp add: unat_of_nat)
  have "take (length xs) (take (length xs + length ys) (drop o1 (fdata f))) = xs" unfolding t by simp
  then show "ptr_bytes f p xs" using i by (simp add: ptr_bytes_iff in_file_def o1_def [symmetric])
  have "drop (length xs) (take (length xs + length ys) (drop o1 (fdata f))) = ys" unfolding t by simp
  then have "take (length ys) (drop (o1 + length xs) (fdata f)) = ys" by (simp add: drop_take add.commute)
  then show "ptr_bytes f (p + of_nat (length xs)) ys" using i by (simp add: ptr_bytes_iff in_file_def o2)
qed

lemma ptr_take:
  assumes "ptr_bytes f p bs" and "k + n \<le> length bs"
  shows "take n (drop (unat (p - addr f) + k) (fdata f)) = take n (drop k bs)"
proof -
  have "take (length bs) (drop (unat (p - addr f)) (fdata f)) = bs" using assms(1) by (simp add: ptr_bytes_iff)
  then have "take n (drop k bs) = take n (drop k (take (length bs) (drop (unat (p - addr f)) (fdata f))))" by simp
  also have "\<dots> = take n (drop (unat (p - addr f) + k) (fdata f))"
    using assms(2) by (simp add: drop_take min_absorb1 add.commute)
  finally show ?thesis by simp
qed

lemma limbs_at_value:
  assumes "ptr_bytes f p (elem_bytes x)" and "length x = 4"
  shows "limbs_at f p = x"
proof -
  have l: "length (elem_bytes x) = 32" using assms(2) by (simp add: elem_bytes_length)
  have "limbs_at f p = map (\<lambda>i. of_nat (le_val (take 8 (drop (8 * i) (elem_bytes x))))) [0..<4]"
    unfolding limbs_at_def by (intro map_cong refl, subst ptr_take [OF assms(1)]) (use l in auto)
  moreover have "\<exists>a b c d. x = [a, b, c, d]" using assms(2) by (auto simp: numeral_eq_Suc length_Suc_conv)
  moreover have "unat (w :: u64) mod 256 ^ 8 = unat w" for w using unsigned_less [of w, where ?'a = nat] by simp
  ultimately show ?thesis by (auto simp: elem_bytes_def upt_rec)
qed

lemma u32_at_value: "ptr_bytes f p (le_bytes 4 (unat v)) \<Longrightarrow> u32_at f p = v"
  using unsigned_less [of v, where ?'a = nat] by (simp add: u32_at_def ptr_bytes_iff)

lemma g1_at_value:
  assumes "ptr_bytes f p (g1_bytes a)" and "length (fdata f) < 2 ^ 64" and "g1_wf a"
  shows "g1_at f p = a"
proof -
  note s = ptr_split [OF assms(1) [unfolded g1_bytes_def] assms(2)]
  show ?thesis
    using limbs_at_value [OF s(1)] limbs_at_value [OF s(2)] assms(3) by (simp add: g1_at_def g1_wf_def elem_bytes_length)
qed

lemma g2_at_value:
  assumes "ptr_bytes f p (g2_bytes a)" and "length (fdata f) < 2 ^ 64" and "g2_wf a"
  shows "g2_at f p = a"
proof -
  note s = ptr_split [OF assms(1) [unfolded g2_bytes_def] assms(2)]
  note x = ptr_split [OF s(1) assms(2)] and y = ptr_split [OF s(2) assms(2)]
  show ?thesis
    using x [THEN limbs_at_value] y [THEN limbs_at_value] assms(3)
    by (simp add: g2_at_def g2_wf_def elem_bytes_length add.assoc)
qed

lemma coef_at_value:
  assumes "ptr_bytes f p (coef_bytes c)" and "length (fdata f) < 2 ^ 64" and "coef_wf c"
  shows "coef_at f p = c"
proof -
  note m = ptr_split [OF assms(1) [unfolded coef_bytes_def] assms(2)]
  note c = ptr_split [OF m(2) assms(2)]
  note s = ptr_split [OF c(2) assms(2)]
  show ?thesis
    using m(1) [THEN u32_at_value] c(1) [THEN u32_at_value] s(1) [THEN u32_at_value] s(2) [THEN limbs_at_value] assms(3)
    by (simp add: coef_at_def coef_wf_def add.assoc)
qed

lemma array_at_Suc: "array_at el sz f p (Suc n) = el f p # array_at el sz f (p + of_nat sz) n"
  unfolding array_at_def by (simp del: upt_Suc add: upt_conv_Cons map_Suc_upt [symmetric] add.assoc distrib_left)

lemma array_at_value:
  assumes "length (fdata f) < 2 ^ 64" and "\<And>p x. x \<in> set xs \<Longrightarrow> ptr_bytes f p (enc x) \<Longrightarrow> el f p = x"
    and "\<And>x. x \<in> set xs \<Longrightarrow> length (enc x) = sz" and "ptr_bytes f p (concat (map enc xs))"
  shows "array_at el sz f p (length xs) = xs"
  using assms(2-)
proof (induction xs arbitrary: p)
  case (Cons x xs)
  note s = ptr_split [of f p "enc x" "concat (map enc xs)", OF _ assms(1)]
  have "length (enc x) = sz" using Cons.prems(2) by simp
  then show ?case
    using Cons.IH [of "p + of_nat sz"] Cons.prems s by (simp only: list.size array_at_Suc add_0_right plus_1_eq_Suc add_Suc_right) simp
qed (simp add: array_at_def)

section \<open>Sections of a file\<close>

definition holds :: "(u32 \<times> u8 list) list \<Rightarrow> u32 \<Rightarrow> u8 list \<Rightarrow> bool" where
  "holds secs k bs \<longleftrightarrow> (\<exists>rest. payloads k secs = bs # rest)"

lemma section_found:
  assumes "secs_bytes f k = map Ok (payloads k secs)" and "holds secs k bs"
  obtains sec l where "sections f k = Some (sec # l)" "sec_bytes f sec = Ok bs" "getSectionData k 0 f = Ok (start sec)"
    "ptr_bytes f (start sec) bs" "unat (ssize sec) = length bs"
proof -
  obtain rest where "map (sec_bytes f) (case sections f k of None \<Rightarrow> [] | Some l \<Rightarrow> l) = Ok bs # map Ok rest"
    using assms by (auto simp: holds_def secs_bytes_def)
  then obtain sec l where s: "sections f k = Some (sec # l)" "sec_bytes f sec = Ok bs" by (auto split: option.splits)
  then have "length bs = unat (ssize sec)" by (auto simp: sec_bytes_def bytes_at_def split: if_splits)
  moreover have "getSectionData k 0 f = Ok (start sec)" using s(1) by (simp add: getSectionData_def)
  ultimately show thesis using that [OF s] s(2) unfolding ptr_bytes_def sec_bytes_def by metis
qed

section \<open>The contents of a key\<close>

record key_contents =
  kc_q :: "u8 list"
  kc_vars :: u32
  kc_pub :: u32
  kc_dom :: u32
  kc_alpha1 :: "limbs point_affine"
  kc_beta1 :: "limbs point_affine"
  kc_beta2 :: "limbs f2 point_affine"
  kc_gamma2 :: "limbs f2 point_affine"
  kc_delta1 :: "limbs point_affine"
  kc_delta2 :: "limbs f2 point_affine"
  kc_coefs :: "coef list"
  kc_A :: "limbs point_affine list"
  kc_B1 :: "limbs point_affine list"
  kc_B2 :: "limbs f2 point_affine list"
  kc_C :: "limbs point_affine list"
  kc_H :: "limbs point_affine list"

definition key_spec :: "key_contents \<Rightarrow> zkey_spec" where
  "key_spec K = \<lparr>z_q8 = 32, z_q = kc_q K, z_r8 = 32, z_r = le_bytes 32 (nat fr_prime), z_vars = kc_vars K, z_pub = kc_pub K,
     z_dom = kc_dom K, z_alpha1 = g1_bytes (kc_alpha1 K), z_beta1 = g1_bytes (kc_beta1 K), z_beta2 = g2_bytes (kc_beta2 K),
     z_gamma2 = g2_bytes (kc_gamma2 K), z_delta1 = g1_bytes (kc_delta1 K), z_delta2 = g2_bytes (kc_delta2 K)\<rparr>"

text \<open>The sections of a key file, in any order and among any others.\<close>

definition key_file :: "key_contents \<Rightarrow> (u32 \<times> u8 list) list \<Rightarrow> bool" where
  "key_file K secs \<longleftrightarrow> holds secs 1 (le_bytes 4 1) \<and> holds secs 2 (encode_zkey (key_spec K))
     \<and> holds secs 4 (le_bytes 4 (length (kc_coefs K)) @ concat (map coef_bytes (kc_coefs K)))
     \<and> holds secs 5 (concat (map g1_bytes (kc_A K))) \<and> holds secs 6 (concat (map g1_bytes (kc_B1 K)))
     \<and> holds secs 7 (concat (map g2_bytes (kc_B2 K))) \<and> holds secs 8 (concat (map g1_bytes (kc_C K)))
     \<and> holds secs 9 (concat (map g1_bytes (kc_H K)))"

text \<open>The counts fit together and every index of a coefficient is in range.\<close>

definition key_wf :: "key_contents \<Rightarrow> bool" where
  "key_wf K \<longleftrightarrow> length (kc_q K) = 32 \<and> kc_pub K < kc_vars K \<and> length (kc_coefs K) < 2 ^ 31
     \<and> g1_wf (kc_alpha1 K) \<and> g1_wf (kc_beta1 K) \<and> g2_wf (kc_beta2 K) \<and> g2_wf (kc_gamma2 K) \<and> g1_wf (kc_delta1 K) \<and> g2_wf (kc_delta2 K)
     \<and> list_all g1_wf (kc_A K) \<and> list_all g1_wf (kc_B1 K) \<and> list_all g2_wf (kc_B2 K) \<and> list_all g1_wf (kc_C K) \<and> list_all g1_wf (kc_H K)
     \<and> length (kc_A K) = unat (kc_vars K) \<and> length (kc_B1 K) = unat (kc_vars K) \<and> length (kc_B2 K) = unat (kc_vars K)
     \<and> length (kc_C K) = unat (kc_vars K) - unat (kc_pub K) - 1 \<and> length (kc_H K) = unat (kc_dom K)
     \<and> list_all (\<lambda>c. coef_wf c \<and> unat (c_s c) < unat (kc_vars K) \<and> c_c c < kc_dom K) (kc_coefs K)"

text \<open>The prover object of given contents and tables.\<close>

definition key_prover :: "key_contents \<Rightarrow> limbs fft_obj \<Rightarrow> prover" where
  "key_prover K T = \<lparr>p_nVars = kc_vars K, p_nPublic = kc_pub K, p_domainSize = kc_dom K, p_nCoefs = of_nat (length (kc_coefs K)),
     p_alpha1 = kc_alpha1 K, p_beta1 = kc_beta1 K, p_beta2 = kc_beta2 K, p_delta1 = kc_delta1 K, p_delta2 = kc_delta2 K,
     p_coefs = kc_coefs K, p_pointsA = kc_A K, p_pointsB1 = kc_B1 K, p_pointsB2 = kc_B2 K, p_pointsC = kc_C K, p_pointsH = kc_H K,
     p_fft = T\<rparr>"

text \<open>The object of the interface holds the contents of the key, and its pointers lead to them.\<close>

definition gp_of :: "key_contents \<Rightarrow> limbs fft_obj \<Rightarrow> groth16_prover \<Rightarrow> bool" where
  "gp_of K T gp \<longleftrightarrow>
     (let f = gp_zkey gp; h = gp_header gp; s = gp_sections gp
      in gp_prover gp = key_prover K T \<and> nVars h = kc_vars K \<and> nPublic h = kc_pub K \<and> domainSize h = kc_dom K
       \<and> nCoefs h = of_nat (length (kc_coefs K))
       \<and> in_file f (s_A s) (64 * unat (kc_vars K)) \<and> in_file f (s_B1 s) (64 * unat (kc_vars K))
       \<and> in_file f (s_B2 s) (128 * unat (kc_vars K)) \<and> in_file f (s_C s) (64 * (unat (kc_vars K) - unat (kc_pub K) - 1))
       \<and> in_file f (s_H s) (64 * unat (kc_dom K)) \<and> in_file f (s_coefs s + 4) (44 * length (kc_coefs K)))"

section \<open>From the bytes of a key to the prover object\<close>

lemma PrimeIsValid_fr: "gmp_mpz Z \<Longrightarrow> PrimeIsValid Z n \<longleftrightarrow> n = fr_prime"
  using gmp_mpz.mpz_init_set_str [of Z "''21888242871839275222246405745257275088548364400416034343698204186575808495617''"]
  by (simp add: PrimeIsValid_def is_digit_def dec_val_def fr_prime_def)

lemma le_val_fr: "int (le_val (le_bytes 32 (nat fr_prime))) = fr_prime"
  by (simp add: fr_prime_def)

lemma in_file_cong: "fdata f' = fdata f \<Longrightarrow> addr f' = addr f \<Longrightarrow> in_file f' = in_file f \<and> ptr_bytes f' = ptr_bytes f"
  by (simp add: fun_eq_iff in_file_def ptr_bytes_iff)

lemma ptr_in_file: "ptr_bytes f p bs \<Longrightarrow> n = length bs \<Longrightarrow> in_file f p n"
  by (simp add: ptr_bytes_iff)

lemma length_concat_const: "(\<And>x. x \<in> set xs \<Longrightarrow> length (enc x) = n) \<Longrightarrow> length (concat (map enc xs)) = n * length xs"
  by (induction xs) simp_all

text \<open>An encoded file is opened, and each section that it holds is found.\<close>

lemma open_encoded:
  assumes "length type = 4" "v \<le> maxv" "length secs < 2 ^ 32" "length (encode_file type v secs) < 2 ^ 63"
  obtains f where "BinFile (encode_file type v secs) a (of_nat (length (encode_file type v secs))) type maxv = Ok f"
    "bf_ok f" "readingSection f = None" "length (fdata f) < 2 ^ 64" "\<And>k. secs_bytes f k = map Ok (payloads k secs)"
proof -
  obtain f where f: "BinFile (encode_file type v secs) a (of_nat (length (encode_file type v secs))) type maxv = Ok f"
    "bf_ok f" "\<forall>k. secs_bytes f k = map Ok (payloads k secs)" using BinFile_encode [OF assms] by blast
  moreover have "readingSection f = None" using BinFile_safe [OF assms(4), of a type maxv] f(1) by (simp add: safely_def)
  moreover have "length (fdata f) < 2 ^ 64" using f(2) by (simp add: bf_ok_def)
  ultimately show thesis using that by blast
qed

lemma key_spec_sizes: "key_wf K \<Longrightarrow> zkey_sizes (key_spec K)"
  by (simp add: key_wf_def zkey_sizes_def key_spec_def length_elem_bytes)

lemma number_of_coefs:
  assumes "unat (n :: u64) = 4 + 44 * m"
  shows "n div ucast (12 + (32 :: u32)) = of_nat m"
proof (rule unsigned_word_eqI)
  have "m < 2 ^ 64" using assms unsigned_less [of n, where ?'a = nat] by simp
  moreover have "(4 + 44 * m) div 44 = m" by simp
  ultimately show "unat (n div ucast (12 + (32 :: u32))) = unat (of_nat m :: u64)"
    using assms by (simp add: unat_div unat_of_nat)
qed

lemma unat_diff_1:
  assumes "(b :: u32) < a"
  shows "unat (a - b - 1) = unat a - unat b - 1"
proof -
  have d: "unat (a - b) = unat a - unat b" using assms by (intro unat_sub) simp
  moreover have "1 \<le> a - b" using assms d by (simp add: word_le_nat_alt word_less_nat_alt)
  ultimately show ?thesis using unat_sub [of 1 "a - b"] by simp
qed

lemma Groth16Prover_new_value:
  assumes Z: "gmp_mpz Z" and imp: "\<And>bs. imp bs = int (le_val bs)" and K: "key_file K secs" "key_wf K"
    and len: "length secs < 2 ^ 32" "length (encode_file ''zkey'' 1 secs) < 2 ^ 63"
    and T: "FFT (en_fr E) Z nThreads blocks garbage (ucast (kc_dom K * 2)) = Some (Ok T)"
  shows "\<exists>gp. Groth16Prover_new E Z imp nThreads blocks garbage (encode_file ''zkey'' 1 secs) a
      (of_nat (length (encode_file ''zkey'' 1 secs))) = Some (Ok gp) \<and> gp_of K T gp"
proof -
  obtain f where f: "BinFile (encode_file ''zkey'' 1 secs) a (of_nat (length (encode_file ''zkey'' 1 secs))) ''zkey'' 1 = Ok f"
    "bf_ok f" "readingSection f = None" "length (fdata f) < 2 ^ 64" and s: "\<And>k. secs_bytes f k = map Ok (payloads k secs)"
    using open_encoded [of "''zkey''" 1 1 secs a] len by auto
  note h = K(1) [unfolded key_file_def] note found = section_found [OF s]
  obtain e1 l1 where e1: "sections f 1 = Some (e1 # l1)" "sec_bytes f e1 = Ok (le_bytes 4 1)" using found h by metis
  obtain e2 l2 where e2: "sections f 2 = Some (e2 # l2)" "sec_bytes f e2 = Ok (encode_zkey (key_spec K))" using found h by metis
  obtain e4 l4 where e4: "sections f 4 = Some (e4 # l4)" "getSectionData 4 0 f = Ok (start e4)"
    "ptr_bytes f (start e4) (le_bytes 4 (length (kc_coefs K)) @ concat (map coef_bytes (kc_coefs K)))"
    "unat (ssize e4) = length (le_bytes 4 (length (kc_coefs K)) @ concat (map coef_bytes (kc_coefs K)))" using found h by metis
  obtain p5 where p5: "getSectionData 5 0 f = Ok p5" "ptr_bytes f p5 (concat (map g1_bytes (kc_A K)))" using found h by metis
  obtain p6 where p6: "getSectionData 6 0 f = Ok p6" "ptr_bytes f p6 (concat (map g1_bytes (kc_B1 K)))" using found h by metis
  obtain p7 where p7: "getSectionData 7 0 f = Ok p7" "ptr_bytes f p7 (concat (map g2_bytes (kc_B2 K)))" using found h by metis
  obtain p8 where p8: "getSectionData 8 0 f = Ok p8" "ptr_bytes f p8 (concat (map g1_bytes (kc_C K)))" using found h by metis
  obtain p9 where p9: "getSectionData 9 0 f = Ok p9" "ptr_bytes f p9 (concat (map g1_bytes (kc_H K)))" using found h by metis
  obtain hd f' where h: "zkey_loadHeader imp f = Ok (hd, f')" "idle f f'" "zkey_matches imp f (key_spec K) hd"
    "nCoefs hd = ssize e4 div ucast (12 + z_r8 (key_spec K))"
    using zkey_loadHeader_returns [OF f(2,3) e1 e2 key_spec_sizes [OF K(2)] e4(1), of imp] by (auto simp: returns_def)
  then have same: "fdata f' = fdata f" "addr f' = addr f" "getSectionData k i f' = getSectionData k i f" for k i
    by (simp_all add: idle_def getSectionData_def)
  note cong = in_file_cong [OF same(1,2)]
  have w: "g1_wf a \<Longrightarrow> ptr_bytes f p (g1_bytes a) \<Longrightarrow> g1_at f' p = a" "g2_wf b \<Longrightarrow> ptr_bytes f p (g2_bytes b) \<Longrightarrow> g2_at f' p = b"
    "coef_wf c \<Longrightarrow> ptr_bytes f p (coef_bytes c) \<Longrightarrow> coef_at f' p = c" for a b c p
    using g1_at_value [of f'] g2_at_value [of f'] coef_at_value [of f'] f(4) same(1) cong by auto
  have a1: "array_at g1_at 64 f' p (length xs) = xs" if "list_all g1_wf xs" "ptr_bytes f p (concat (map g1_bytes xs))" for p xs
    by (rule array_at_value) (use that f(4) same(1) cong w(1) length_elem_bytes(1) in \<open>auto simp: list_all_iff\<close>)
  have a2: "array_at g2_at 128 f' p (length xs) = xs" if "list_all g2_wf xs" "ptr_bytes f p (concat (map g2_bytes xs))" for p xs
    by (rule array_at_value) (use that f(4) same(1) cong w(2) length_elem_bytes(2) in \<open>auto simp: list_all_iff\<close>)
  have a3: "array_at coef_at 44 f' p (length xs) = xs" if "list_all coef_wf xs" "ptr_bytes f p (concat (map coef_bytes xs))" for p xs
    by (rule array_at_value) (use that f(4) same(1) cong w(3) length_elem_bytes(3) in \<open>auto simp: list_all_iff\<close>)
  have p4: "ptr_bytes f (start e4 + 4) (concat (map coef_bytes (kc_coefs K)))" using ptr_split(2) [OF e4(3) f(4)] by simp
  note wf = K(2) [unfolded key_wf_def]
  have wc: "list_all coef_wf (kc_coefs K)" using wf by (simp add: list_all_iff)
  have l1: "length (concat (map g1_bytes xs)) = 64 * length xs" if "list_all g1_wf xs" for xs
    by (rule length_concat_const) (use that length_elem_bytes(1) in \<open>auto simp: list_all_iff\<close>)
  have l2: "length (concat (map g2_bytes xs)) = 128 * length xs" if "list_all g2_wf xs" for xs
    by (rule length_concat_const) (use that length_elem_bytes(2) in \<open>auto simp: list_all_iff\<close>)
  have l3: "length (concat (map coef_bytes (kc_coefs K))) = 44 * length (kc_coefs K)"
    by (rule length_concat_const) (use wc length_elem_bytes(3) in \<open>auto simp: list_all_iff\<close>)
  have n: "nCoefs hd = of_nat (length (kc_coefs K))"
    using number_of_coefs [of "ssize e4"] e4(4) l3 h(4) by (simp add: key_spec_def)
  have un: "unat (of_nat (length (kc_coefs K)) :: u64) = length (kc_coefs K)" using wf by (simp add: unat_of_nat)
  have m: "nat (as_int (nCoefs hd)) = length (kc_coefs K)"
    using as_int_small [of "nCoefs hd"] wf un by (simp add: n)
  have vars: "nVars hd = kc_vars K" "nPublic hd = kc_pub K" "domainSize hd = kc_dom K" "rPrime hd = fr_prime"
    using h(3) by (simp_all add: zkey_matches_def key_spec_def imp le_val_fr del: le_val_bytes)
  have uc: "unat (kc_vars K - kc_pub K - 1) = unat (kc_vars K) - unat (kc_pub K) - 1"
    by (rule unat_diff_1) (use wf in simp)
  have al: "g1_at f' (vk_alpha1 hd) = kc_alpha1 K" "g1_at f' (vk_beta1 hd) = kc_beta1 K" "g2_at f' (vk_beta2 hd) = kc_beta2 K"
    "g1_at f' (vk_delta1 hd) = kc_delta1 K" "g2_at f' (vk_delta2 hd) = kc_delta2 K"
    using h(3) wf by (simp_all add: zkey_matches_def key_spec_def w)
  define s where "s = \<lparr>s_coefs = start e4, s_A = p5, s_B1 = p6, s_B2 = p7, s_C = p8, s_H = p9\<rparr>"
  have ks: "key_sections f' = Ok s" using e4(2) p5(1) p6(1) p7(1) p8(1) p9(1) by (simp add: key_sections_def same(3) s_def)
  have arr: "array_at coef_at 44 f' (start e4 + 4) (length (kc_coefs K)) = kc_coefs K"
    "array_at g1_at 64 f' p5 (unat (kc_vars K)) = kc_A K" "array_at g1_at 64 f' p6 (unat (kc_vars K)) = kc_B1 K"
    "array_at g2_at 128 f' p7 (unat (kc_vars K)) = kc_B2 K"
    "array_at g1_at 64 f' p8 (unat (kc_vars K) - unat (kc_pub K) - 1) = kc_C K" "array_at g1_at 64 f' p9 (unat (kc_dom K)) = kc_H K"
    using a3 [OF wc p4] a1 [OF _ p5(2)] a1 [OF _ p6(2)] a2 [OF _ p7(2)] a1 [OF _ p8(2)] a1 [OF _ p9(2)] wf by metis+
  have mk: "makeProver E Z nThreads blocks garbage f' hd s = Some (Ok (key_prover K T))"
    using arr m [unfolded n] uc by (simp add: makeProver_def Prover_new_def vars al s_def T key_prover_def n)
  define gp where "gp = \<lparr>gp_zkey = f', gp_header = hd, gp_sections = s, gp_prover = key_prover K T\<rparr>"
  have "Groth16Prover_new E Z imp nThreads blocks garbage (encode_file ''zkey'' 1 secs) a
      (of_nat (length (encode_file ''zkey'' 1 secs))) = Some (Ok gp)"
    by (simp add: Groth16Prover_new_def f(1) h(1) PrimeIsValid_fr [OF Z] vars(4) ks mk gp_def)
  moreover have "gp_of K T gp"
    using ptr_in_file [OF p4 l3 [symmetric]] ptr_in_file [OF p5(2)] ptr_in_file [OF p6(2)] ptr_in_file [OF p7(2)]
      ptr_in_file [OF p8(2)] ptr_in_file [OF p9(2)] l1 l2 wf cong vars n
    by (simp add: gp_of_def gp_def s_def Let_def)
  ultimately show ?thesis by blast
qed


section \<open>From the bytes of a witness to the texts\<close>

text \<open>The sections of a witness file.\<close>

definition witness_file :: "limbs list \<Rightarrow> (u32 \<times> u8 list) list \<Rightarrow> bool" where
  "witness_file ws secs \<longleftrightarrow> holds secs 1 (le_bytes 4 32 @ le_bytes 32 (nat fr_prime) @ le_bytes 4 (length ws))
     \<and> holds secs 2 (concat (map elem_bytes ws))"

lemma key_reads_ok:
  assumes "gp_of K T gp" "key_wf K" "in_file w p (32 * unat (kc_vars K))"
  shows "prove_reads_ok gp w p"
proof -
  note wf = assms(2) [unfolded key_wf_def]
  have m: "nat (as_int (of_nat (length (kc_coefs K)))) = length (kc_coefs K)"
    using as_int_small [of "of_nat (length (kc_coefs K))"] wf by (simp add: unat_of_nat)
  have u: "unat (kc_vars K - kc_pub K - 1) = unat (kc_vars K) - unat (kc_pub K) - 1" by (rule unat_diff_1) (use wf in simp)
  have "list_all (\<lambda>c. unat (c_s c) < unat (kc_vars K) \<and> c_c c < kc_dom K) (kc_coefs K)"
    using wf by (auto simp: list_all_iff)
  then show ?thesis
    using assms(1,3) wf m u by (simp add: prove_reads_ok_def gp_of_def Let_def key_prover_def)
qed

lemma Groth16Prover_prove_value:
  assumes Z: "gmp_mpz Z" and imp: "\<And>bs. imp bs = int (le_val bs)" and gp: "gp_of K T gp" "key_wf K"
    and W: "witness_file ws secs" "length ws = unat (kc_vars K)" "\<forall>x \<in> set ws. length x = 4"
    and len: "v \<le> 2" "length secs < 2 ^ 32" "length (encode_file ''wtns'' v secs) < 2 ^ 63"
  shows "Groth16Prover_prove G E Z imp nThreads sch order garbage slots rb sb gp (encode_file ''wtns'' v secs) b
      (of_nat (length (encode_file ''wtns'' v secs)))
    = Option.bind (prove G E nThreads sch order garbage slots rb sb (key_prover K T) ws) (\<lambda>pf.
        bind_oo (Some (dump_proof_o G Z pf)) (\<lambda>sp.
        bind_oo (Some (BuildPublicString G Z ws (kc_pub K))) (\<lambda>su. Some (Ok (sp, su)))))"
proof -
  obtain f where f: "BinFile (encode_file ''wtns'' v secs) b (of_nat (length (encode_file ''wtns'' v secs))) ''wtns'' 2 = Ok f"
    "bf_ok f" "readingSection f = None" "length (fdata f) < 2 ^ 64" and s: "\<And>k. secs_bytes f k = map Ok (payloads k secs)"
    using open_encoded [of "''wtns''" v 2 secs b] len by auto
  note h = W(1) [unfolded witness_file_def] note found = section_found [OF s]
  have e: "le_bytes 4 32 @ le_bytes 32 (nat fr_prime) @ le_bytes 4 (length ws)
      = le_bytes 4 (unat (32 :: u32)) @ le_bytes 32 (nat fr_prime) @ le_bytes 4 (unat (kc_vars K))" by (simp add: W(2))
  obtain e1 l1 where e1: "sections f 1 = Some (e1 # l1)"
    "sec_bytes f e1 = Ok (le_bytes 4 (unat (32 :: u32)) @ le_bytes 32 (nat fr_prime) @ le_bytes 4 (unat (kc_vars K)))"
    using found h unfolding e by metis
  obtain p where p: "getSectionData 2 0 f = Ok p" "ptr_bytes f p (concat (map elem_bytes ws))" using found h by metis
  obtain hd f' where h: "wtns_loadHeader imp f = Ok (hd, f')" "idle f f'" "prime hd = fr_prime" "wtns_nVars hd = kc_vars K"
    using wtns_loadHeader_returns [OF f(2,3) e1, of imp] le_val_fr by (auto simp: returns_def imp simp del: le_val_bytes)
  then have same: "fdata f' = fdata f" "addr f' = addr f" "getSectionData k i f' = getSectionData k i f" for k i
    by (simp_all add: idle_def getSectionData_def)
  note cong = in_file_cong [OF same(1,2)]
  have p': "ptr_bytes f' p (concat (map elem_bytes ws))" using p(2) cong by simp
  have d: "array_at limbs_at 32 f' p (length ws) = ws"
    by (rule array_at_value [OF _ _ _ p']) (use f(4) same(1) W(3) limbs_at_value elem_bytes_length in auto)
  have "length (concat (map elem_bytes ws)) = 32 * unat (kc_vars K)"
    unfolding W(2) [symmetric] by (rule length_concat_const) (use W(3) in \<open>simp add: elem_bytes_length\<close>)
  then have r: "prove_reads_ok gp f' p" by (intro key_reads_ok [OF gp] ptr_in_file [OF p']) simp
  have g: "nVars (gp_header gp) = kc_vars K" "nPublic (gp_header gp) = kc_pub K" "gp_prover gp = key_prover K T"
    using gp(1) by (simp_all add: gp_of_def Let_def)
  show ?thesis
    using d [unfolded W(2)]
    by (simp add: Groth16Prover_prove_def f(1) h(1) Let_def g h(3,4) PrimeIsValid_fr [OF Z] same(3) p(1) r)
qed

text \<open>The text of the public inputs: the numbers in decimal.\<close>

lemma BuildPublicString_text:
  assumes G: "gmp_mpn G" "gmp_mpz Z" and n: "0 < unat n" "unat n < length ws" and ws: "\<forall>x \<in> set ws. raw_elem Fr_field x"
  shows "\<exists>t. BuildPublicString G Z ws n = Ok t \<and> dump (strings (map (\<lambda>i. digits (nat (lval (ws ! i)))) [1..<unat n + 1])) = Some t
    \<and> length t \<le> 80 * unat n + 1"
proof -
  note F = raw_class_fieldI [OF G field_ok_Fr]
  have e: "Fr_toString G Z (F_rawToMontgomery Fr_field G (ws ! i)) = digits (nat (lval (ws ! i)))" if "i < length ws" for i
  proof -
    have r: "raw_elem Fr_field (ws ! i)" using ws that by simp
    then show ?thesis
      using raw_class_field.raw_toString [OF F raw_class_field.toMontgomery [OF F], of "ws ! i"] lval_nonneg [of "ws ! i"]
      by (simp add: Fr_toString_def raw_elem_def)
  qed
  have len: "list_all (\<lambda>x. length x = 4) ws" using ws by (auto simp: list_all_iff raw_elem_def)
  obtain t where t: "BuildPublicString G Z ws n = Ok t" "length t \<le> 80 * unat n + 1"
    using BuildPublicString_value [OF G _ len, of n] n by (auto split: if_splits)
  have "map (\<lambda>k. Fr_toString G Z (F_rawToMontgomery Fr_field G (ws ! k))) [1..<1 + unat n]
      = map (\<lambda>i. digits (nat (lval (ws ! i)))) [1..<unat n + 1]"
    using e n(2) by (simp add: add.commute del: upt_Suc)
  then have "push_public G Z ws 1 (unat n) JNull = Ok (strings (map (\<lambda>i. digits (nat (lval (ws ! i)))) [1..<unat n + 1]))"
    using push_public_start [of "unat n" ws G Z] n by simp
  then have "dump_o (strings (map (\<lambda>i. digits (nat (lval (ws ! i)))) [1..<unat n + 1])) = Ok t"
    using t(1) by (simp add: BuildPublicString_def)
  then show ?thesis using t by (auto simp: dump_o_def split: option.splits)
qed

text \<open>The points of the contents.\<close>

definition contents_rep :: "key_contents \<Rightarrow> groth16_key \<Rightarrow> bool" where
  "contents_rep K A \<longleftrightarrow> (\<forall>T. key_rep (key_prover K T) A)"

end
