(* ===== verification/SystemTheorems.thy ===== *)
theory SystemTheorems
  imports ApiTheorems KeyFile
begin

text \<open>
  The prover as a whole, through its C interface: from the bytes of a key and of a witness to the
  texts of a proof and of the public inputs in the buffers of the caller.
\<close>

lemma affine_coords: "g1_affine a A \<Longrightarrow> g1_coords a A" "g2_affine b B \<Longrightarrow> g2_coords b B"
  by (auto simp: g1_affine_def g1_coords_def g2_affine_def g2_coords_def dest: rep_a_coord)

lemma key_prover_new:
  assumes "FFT (en_fr E) Z nThreads blocks garbage (ucast (kc_dom K * 2)) = Some (Ok T)"
  shows "Prover_new E Z nThreads blocks garbage (kc_vars K) (kc_pub K) (kc_dom K) (of_nat (length (kc_coefs K)))
      (kc_alpha1 K) (kc_beta1 K) (kc_beta2 K) (kc_delta1 K) (kc_delta2 K) (kc_coefs K) (kc_A K) (kc_B1 K) (kc_B2 K) (kc_C K) (kc_H K)
    = Some (Ok (key_prover K T))"
  using assms by (simp add: Prover_new_def key_prover_def)

text \<open>C1: from files to texts. A key file and a witness file that hold their sections in any order are
  turned into an object and then, with buffers of the announced sizes, into \<open>PROVER_OK\<close>, the JSON text of a proof
  and the text of the public inputs in decimal, for every number of threads and every schedule. The points of the proof
  are those of the Groth16 scheme for the points of the key and the witness that the files hold, and both texts
  end inside their buffers.\<close>

theorem proof_from_files:
  assumes "gmp_mpn G" and "gmp_mpz Z" and "Engine_new G Z = Some (Ok E)" and "\<And>bs. imp bs = int (le_val bs)"
    and "0 < nThreads" and "nThreads < 2 ^ 64" and "block_order nThreads blocks" and "\<And>p s n. schedule nThreads n (sch p s n)"
    and "\<And>n. mset (order n) = mset [0..<n]" and "length rb = 31" and "length sb = 31"
    and "key_file K ksecs" and "key_wf K" and "contents_rep K A" and "list_all (\<lambda>c. raw_elem Fr_field (c_coef c)) (kc_coefs K)"
    and "zkey = encode_file ''zkey'' 1 ksecs" and "length ksecs < 2 ^ 32" and "length zkey < 2 ^ 63"
    and "unat (kc_dom K) = 2 ^ k" and "k \<le> 27" and "unat (kc_vars K) < 2 ^ 31" and "0 < unat (kc_pub K)" and "unat (kc_pub K) + 1 < 2 ^ 27"
    and "witness_file ws wsecs" and "length ws = unat (kc_vars K)" and "\<forall>x \<in> set ws. raw_elem Fr_field x"
    and "wtns = encode_file ''wtns'' v wsecs" and "v \<le> 2" and "length wsecs < 2 ^ 32" and "length wtns < 2 ^ 63"
    and "groth16_proof_size \<le> psize" and "PublicBufferMinSize (ucast (kc_pub K)) \<le> usize"
  shows "\<exists>gp pf h \<omega> \<eta> sp su.
      groth16_prover_create E Z imp nThreads blocks garbage True (Some zkey) a (of_nat (length zkey)) err m = Some (Ok (PROVER_OK, err, Some gp))
    \<and> groth16_prover_prove (\<lambda>gp w. Groth16Prover_prove G E Z imp nThreads sch order garbage slots rb sb gp w b (of_nat (length w)))
          (Some gp) (Some wtns) (Some pbuf) (Some psize) (Some ubuf) (Some usize) err m
      = Some (Ok \<lparr>o_code = PROVER_OK, o_proof = Some (put pbuf (sp @ [NUL])), o_proof_size = Some (of_nat (length sp)),
          o_public = Some (put ubuf (su @ [NUL])), o_public_size = Some (of_nat (length su)), o_error = err\<rparr>)
    \<and> length sp < unat psize \<and> length su < unat usize
    \<and> dump (proof_json G Z pf) = Some sp
    \<and> dump (strings (map (\<lambda>i. digits (nat (lval (ws ! i)))) [1..<unat (kc_pub K) + 1])) = Some su
    \<and> root_of_unity \<omega> k \<and> root_of_unity \<eta> (k + 1) \<and> \<eta> ^ 2 = \<omega>
    \<and> quotient_values \<eta> \<omega> (2 ^ k) (row_value (kc_coefs K) (length (kc_coefs K)) ws True)
        (row_value (kc_coefs K) (length (kc_coefs K)) ws False) (\<lambda>i. of_fr (h i))
    \<and> (\<forall>i < 2 ^ k. 0 \<le> h i \<and> h i < fr_prime)
    \<and> g1_affine (pr_A pf) (proof_A A (\<lambda>i. lval (ws ! i)) (unat (kc_vars K)) (int (le_val rb)))
    \<and> g2_affine (pr_B pf) (proof_B A (\<lambda>i. lval (ws ! i)) (unat (kc_vars K)) (int (le_val sb)))
    \<and> g1_affine (pr_C pf) (proof_C A (\<lambda>i. lval (ws ! i)) h (unat (kc_vars K)) (unat (kc_pub K)) (2 ^ k) (int (le_val rb)) (int (le_val sb)))"
proof -
  let ?run = "\<lambda>gp w. Groth16Prover_prove G E Z imp nThreads sch order garbage slots rb sb gp w b (of_nat (length w))"
  note e = engine_classI [OF assms(1-3)]
  note wf = assms(13) [unfolded key_wf_def]
  have "(2::nat) ^ (k + 1) \<le> 2 ^ 28" using assms(20) by (intro power_increasing) simp_all
  then have d: "unat (ucast (kc_dom K * 2) :: u64) = 2 ^ (k + 1)"
    unfolding engine_class.unat_wide [OF e] using assms(19) by (simp add: unat_word_ariths)
  obtain T where T: "FFT (en_fr E) Z nThreads blocks garbage (ucast (kc_dom K * 2)) = Some (Ok T)"
    using fr_FFT [OF assms(1,2,5,6,7), of "k + 1" "ucast (kc_dom K * 2)" garbage] d assms(20)
    by (auto simp: engine_class.engine_fields(3) [OF e])
  obtain gp where gp: "Groth16Prover_new E Z imp nThreads blocks garbage zkey a (of_nat (length zkey)) = Some (Ok gp)" "gp_of K T gp"
    using Groth16Prover_new_value [OF assms(2,4,12,13,17) _ T, of a] assms(16,18) by auto
  have un: "unat (of_nat (length (kc_coefs K)) :: u64) = length (kc_coefs K)" using wf by (simp add: unat_of_nat)
  have c: "unat (c_s (kc_coefs K ! i)) < unat (kc_vars K) \<and> raw_elem Fr_field (c_coef (kc_coefs K ! i)) \<and> unat (c_c (kc_coefs K ! i)) < 2 ^ k"
    if "i < unat (of_nat (length (kc_coefs K)) :: u64)" for i
    using that wf assms(15,19) un by (auto simp: list_all_length word_less_nat_alt)
  have "key_rep (key_prover K T) A" using assms(14) by (simp add: contents_rep_def)
  moreover have "unat (of_nat (length (kc_coefs K)) :: u64) < 2 ^ 31" "unat (kc_pub K) < unat (kc_vars K)"
    using wf un by (simp_all add: word_less_nat_alt)
  ultimately obtain pf h \<omega> \<eta> where pf: "prove G E nThreads sch order garbage slots rb sb (key_prover K T) ws = Some pf"
    "root_of_unity \<omega> k" "root_of_unity \<eta> (k + 1)" "\<eta> ^ 2 = \<omega>"
    "quotient_values \<eta> \<omega> (2 ^ k) (row_value (kc_coefs K) (length (kc_coefs K)) ws True)
        (row_value (kc_coefs K) (length (kc_coefs K)) ws False) (\<lambda>i. of_fr (h i))"
    "\<forall>i < 2 ^ k. 0 \<le> h i \<and> h i < fr_prime"
    "g1_affine (pr_A pf) (proof_A A (\<lambda>i. lval (ws ! i)) (unat (kc_vars K)) (int (le_val rb)))"
    "g2_affine (pr_B pf) (proof_B A (\<lambda>i. lval (ws ! i)) (unat (kc_vars K)) (int (le_val sb)))"
    "g1_affine (pr_C pf) (proof_C A (\<lambda>i. lval (ws ! i)) h (unat (kc_vars K)) (unat (kc_pub K)) (2 ^ k) (int (le_val rb)) (int (le_val sb)))"
    using prove_points [where sch = sch and order = order, OF assms(1-3,5,6,7,8,9) key_prover_new [OF T] assms(19,20) _ assms(21) _ assms(23) c assms(25,26) _ assms(10,11)]
    unfolding un by blast
  have good: "list_all fq_good (proof_elems pf)" by (rule proof_coords_good [OF affine_coords(1) [OF pf(7)] affine_coords(2) [OF pf(8)] affine_coords(1) [OF pf(9)]])
  obtain sp where sp: "dump (proof_json G Z pf) = Some sp" "length sp \<le> 728" using dump_proof [OF assms(1,2) good] by auto
  have n: "unat (kc_pub K) < length ws" using wf assms(25) by (simp add: word_less_nat_alt)
  obtain su where su: "BuildPublicString G Z ws (kc_pub K) = Ok su" "length su \<le> 80 * unat (kc_pub K) + 1"
    "dump (strings (map (\<lambda>i. digits (nat (lval (ws ! i)))) [1..<unat (kc_pub K) + 1])) = Some su"
    using BuildPublicString_text [OF assms(1,2,22) n assms(26)] by blast
  have l4: "\<forall>x \<in> set ws. length x = 4" using assms(26) by (auto simp: raw_elem_def)
  have "?run gp wtns = Some (Ok (sp, su))"
    unfolding assms(27)
    using Groth16Prover_prove_value [OF assms(2,4) gp(2) assms(13,24,25) l4 assms(28-29) assms(30) [unfolded assms(27)], where b = b] pf(1) sp su(1)
    by (simp add: dump_proof_o_def dump_o_def Proof_toJson_value)
  moreover have "kc_pub K \<noteq> 0" using assms(22) by auto
  note w = write_results_fits [OF sp(2) su(2) this assms(31,32)]
  ultimately have "groth16_prover_prove ?run (Some gp) (Some wtns) (Some pbuf) (Some psize) (Some ubuf) (Some usize) err m
      = Some (Ok \<lparr>o_code = PROVER_OK, o_proof = Some (put pbuf (sp @ [NUL])), o_proof_size = Some (of_nat (length sp)),
          o_public = Some (put ubuf (su @ [NUL])), o_public_size = Some (of_nat (length su)), o_error = err\<rparr>)"
    by (simp add: groth16_prover_prove_def Let_def)
  moreover have "groth16_prover_create E Z imp nThreads blocks garbage True (Some zkey) a (of_nat (length zkey)) err m = Some (Ok (PROVER_OK, err, Some gp))"
    using gp(1) by (simp add: groth16_prover_create_def)
  ultimately show ?thesis using pf(2-) sp(1) su(3) w by (intro exI [of _ gp] exI [of _ pf] exI [of _ h] exI [of _ \<omega>] exI [of _ \<eta>]
    exI [of _ sp] exI [of _ su]) (simp add: Suc_le_eq)
qed

section \<open>A key with one public input\<close>

definition sample_contents :: key_contents where
  "sample_contents = \<lparr>kc_q = le_bytes 32 (nat (prime_of Fq_field)), kc_vars = 2, kc_pub = 1, kc_dom = 1,
     kc_alpha1 = sample_g1, kc_beta1 = sample_g1, kc_beta2 = sample_g2, kc_gamma2 = sample_g2, kc_delta1 = sample_g1,
     kc_delta2 = sample_g2, kc_coefs = [sample_coef], kc_A = [sample_g1, sample_g1], kc_B1 = [sample_g1, sample_g1],
     kc_B2 = [sample_g2, sample_g2], kc_C = [], kc_H = [sample_g1]\<rparr>"

definition sample_key_sections :: "(u32 \<times> u8 list) list" where
  "sample_key_sections = (let K = sample_contents in
     [(1, le_bytes 4 1), (2, encode_zkey (key_spec K)), (4, le_bytes 4 (length (kc_coefs K)) @ concat (map coef_bytes (kc_coefs K))),
      (5, concat (map g1_bytes (kc_A K))), (6, concat (map g1_bytes (kc_B1 K))), (7, concat (map g2_bytes (kc_B2 K))),
      (8, concat (map g1_bytes (kc_C K))), (9, concat (map g1_bytes (kc_H K)))])"

definition sample_witness :: "limbs list" where
  "sample_witness = [[1, 0, 0, 0], [5, 0, 0, 0]]"

definition sample_witness_sections :: "(u32 \<times> u8 list) list" where
  "sample_witness_sections = [(1, le_bytes 4 32 @ le_bytes 32 (nat fr_prime) @ le_bytes 4 (length sample_witness)), (2, concat (map elem_bytes sample_witness))]"

lemma sample_points: "g1_affine sample_g1 (Affine 1 2)" "g2_affine sample_g2 Infinity" "g1_wf sample_g1" "g2_wf sample_g2"
proof -
  show g: "g1_affine sample_g1 (Affine 1 2)" using generator_ref(1) by simp
  show h: "g2_affine sample_g2 Infinity"
    using all_one_coord(3) [OF ref_fields(2)] by (auto simp: g2_affine_def rep_a_def affine_ok_def coord_affine_def)
  show "g1_wf sample_g1" using g by (auto simp: g1_affine_def rep_a_def affine_ok_def fq_good_def raw_elem_def g1_wf_def)
  show "g2_wf sample_g2" using h by (auto simp: g2_affine_def rep_a_def affine_ok_def f2_good_def fq_good_def raw_elem_def g2_wf_def)
qed

lemma sample_key_file: "key_file sample_contents sample_key_sections" "witness_file sample_witness sample_witness_sections"
  by (simp_all add: key_file_def witness_file_def holds_def payloads_def sample_key_sections_def sample_witness_sections_def
    Let_def)

lemma sample_key_wf: "key_wf sample_contents"
  using sample_points by (simp add: key_wf_def sample_contents_def coef_wf_def sample_coef_def)

lemma sample_contents_rep: "contents_rep sample_contents sample_abstract_key"
  using sample_points(1,2)
  by (simp add: contents_rep_def key_rep_def key_prover_def sample_contents_def sample_abstract_key_def less_2_cases_iff all_conj_distrib)

lemma sample_lengths: "length sample_key_sections = 8" "length (encode_file ''zkey'' 1 sample_key_sections) < 2 ^ 63"
  "length (encode_file ''wtns'' 2 sample_witness_sections) < 2 ^ 63"
  by (simp_all add: sample_key_sections_def sample_witness_sections_def sample_witness_def Let_def encode_file_def encode_section_def
    sample_contents_def key_spec_def encode_zkey_def coef_bytes_def sample_coef_def length_elem_bytes sample_points elem_bytes_length)

theorem proof_from_files_witness:
  "\<exists>sch gp out. groth16_prover_create engine_ref mpz_ref (\<lambda>bs. int (le_val bs)) 1 [0] (\<lambda>k. []) True
      (Some (encode_file ''zkey'' 1 sample_key_sections)) 0 (of_nat (length (encode_file ''zkey'' 1 sample_key_sections))) None 0
      = Some (Ok (PROVER_OK, None, Some gp))
    \<and> groth16_prover_prove (\<lambda>gp w. Groth16Prover_prove gmp_ref engine_ref mpz_ref (\<lambda>bs. int (le_val bs)) 1 sch (\<lambda>n. [0..<n]) (\<lambda>k. []) (\<lambda>k. 0)
        (replicate 31 0) (replicate 31 0) gp w 0 (of_nat (length w))) (Some gp) (Some (encode_file ''wtns'' 2 sample_witness_sections))
        (Some (replicate 810 NUL)) (Some 810) (Some (replicate 86 NUL)) (Some 86) None 0 = Some (Ok out)
    \<and> o_code out = PROVER_OK \<and> o_public out = Some (''[\"5\"]'' @ replicate 81 NUL)"
proof -
  have o: "block_order 1 [0]" by (simp add: block_order_def lessThan_Suc)
  obtain f where f: "\<And>n. schedule 1 n (f n)" using schedule_exists [of 1] by metis
  have c: "unat (kc_dom sample_contents) = 2 ^ 0" "unat (kc_vars sample_contents) = 2" "kc_pub sample_contents = 1"
    "kc_coefs sample_contents = [sample_coef]" by (simp_all add: sample_contents_def)
  have w: "\<forall>x \<in> set sample_witness. raw_elem Fr_field x" "length sample_witness = 2"
    by (simp_all add: sample_witness_def raw_elem_def prime_of_fr fr_prime_def)
  have s: "raw_elem Fr_field (c_coef sample_coef)" by (simp add: sample_coef_def raw_elem_def prime_of_fr fr_prime_def)
  have five: "digits 5 = ''5''" by (simp add: digits.simps char_of_def bit_iff_odd)
  then have "list_all decimal [digits 5]" by (simp add: decimal_def plain_char_def)
  from dump_decimals [OF this]
  have d: "dump (strings (map (\<lambda>i. digits (nat (lval (sample_witness ! i)))) [1..<unat (1 :: u32) + 1])) = Some ''[\"5\"]''"
    by (simp add: sample_witness_def five quoted_def char_of_def bit_iff_odd del: dump.simps)
  let ?run = "\<lambda>gp w. Groth16Prover_prove gmp_ref engine_ref mpz_ref (\<lambda>bs. int (le_val bs)) 1 (\<lambda>p s. f) (\<lambda>n. [0..<n]) (\<lambda>k. []) (\<lambda>k. 0)
        (replicate 31 0) (replicate 31 0) gp w 0 (of_nat (length w))"
  obtain gp sp su where r: "groth16_prover_create engine_ref mpz_ref (\<lambda>bs. int (le_val bs)) 1 [0] (\<lambda>k. []) True
      (Some (encode_file ''zkey'' 1 sample_key_sections)) 0 (of_nat (length (encode_file ''zkey'' 1 sample_key_sections))) None 0
      = Some (Ok (PROVER_OK, None, Some gp))"
    "groth16_prover_prove ?run (Some gp) (Some (encode_file ''wtns'' 2 sample_witness_sections))
        (Some (replicate 810 NUL)) (Some 810) (Some (replicate 86 NUL)) (Some 86) None 0
      = Some (Ok \<lparr>o_code = PROVER_OK, o_proof = Some (put (replicate 810 NUL) (sp @ [NUL])), o_proof_size = Some (of_nat (length sp)),
          o_public = Some (put (replicate 86 NUL) (su @ [NUL])), o_public_size = Some (of_nat (length su)), o_error = None\<rparr>)"
    "dump (strings (map (\<lambda>i. digits (nat (lval (sample_witness ! i)))) [1..<unat (kc_pub sample_contents) + 1])) = Some su"
    using proof_from_files [OF gref.gmp_mpn_axioms zref.gmp_mpz_axioms engine_ref_new refl _ _ o, where sch = "\<lambda>p s. f"
      and order = "\<lambda>n. [0..<n]" and rb = "replicate 31 0" and sb = "replicate 31 0" and garbage = "\<lambda>k. []" and slots = "\<lambda>k. 0"
      and a = 0 and b = 0 and err = None and m = 0 and pbuf = "replicate 810 NUL" and ubuf = "replicate 86 NUL" and psize = 810 and usize = 86,
      OF _ _ f _ _ _ sample_key_file(1) sample_key_wf sample_contents_rep _ refl _ sample_lengths(2) c(1) _ _ _ _ sample_key_file(2) _ w(1) refl _ _
        sample_lengths(3)]
    using s sample_lengths(1)
    by (auto simp: c w(2) sample_witness_sections_def groth16_proof_size_def ProofBufferMinSize_def PublicBufferMinSize_def)
  then have "su = ''[\"5\"]''" using d by (simp only: c option.inject)
  then show ?thesis
    using r(1,2) by (intro exI [of _ "\<lambda>p s. f"] exI [of _ gp]) (auto simp: put_def numeral_eq_Suc)
qed

end
