(* ===== verification/Spec2Isabelle.thy ===== *)
theory Spec2Isabelle
  imports FieldTheorems FileTheorems CurveTheorems RawTheorems ProverTheorems ServerTheorems ApiTheorems SystemTheorems
begin

text \<open>
  A verification library for the C++ Groth16 prover and verifier of this repository
  (\<open>src/rapidsnark\<close>), from the limbs of its field elements to the C interfaces that turn the bytes of
  a key and of a witness into the text of a proof, and the texts of a proof, of public inputs and of a key into
  a verdict. In the following \<open>build/\<close> and \<open>src/\<close> are directories of \<open>src/rapidsnark\<close>, and \<open>c/\<close> is
  \<open>src/rapidsnark/depends/ffiasm/c\<close>.
\<close>

section \<open>The program and its parts\<close>

text \<open>
  A proof is made in these steps. \<open>Groth16Prover\<close> (\<open>src/prover.cpp\<close>) opens the key with \<open>BinFile\<close>
  (\<open>src/binfile_utils.cpp\<close>) and reads its header (\<open>src/zkey_utils.cpp\<close>); \<open>prove\<close> does the same with the
  witness and hands both to \<open>Prover\<close> (\<open>src/groth16.cpp\<close>). That class computes five multi-scalar
  multiplications (\<open>c/msm.cpp\<close>) over the curve class (\<open>c/curve.cpp\<close>) and six transforms (\<open>c/fft.cpp\<close>), all on
  the thread pool (\<open>c/misc.hpp\<close>); the base field and the scalar field are the classes \<open>RawFq\<close> and \<open>RawFr\<close>
  (\<open>build/fq.cpp\<close>, \<open>build/fr.cpp\<close>) over generated limb arithmetic, the second group lives over \<open>F2Field\<close>.
  The proof and the public inputs are printed as JSON into the buffers of the caller. \<open>Verifier\<close>
  (\<open>src/groth16.cpp\<close>, called by \<open>src/verifier.cpp\<close>) evaluates four pairings over the tower \<open>F2Field\<close>,
  \<open>F6Field\<close>, \<open>F12Field\<close>. A server (\<open>src/fullprover.cpp\<close>) runs one proof at a time in a thread of its own.

  Conventions. Words keep their width (\<open>u8\<close>, \<open>u32\<close>, \<open>u64\<close>) and wrap. A computation of the byte-level components has an
  \<open>outcome\<close>: a result, a C++ exception with its message, or \<open>Undef\<close> where the C++ program has no defined
  behaviour (a read outside a file, a missing member of a const JSON value). A computation that may not return has an
  \<open>option\<close> around that, so returning is part of what is proved. Objects that are written through references live in a
  store, so that calls in which result and operands are the same object are covered.
\<close>

section \<open>The theories\<close>

text \<open>
  Shared vocabulary: \<open>Prelude\<close> (words, limb arrays, the collections \<open>limb_simps\<close> and \<open>limb_bounds\<close>), \<open>Machine\<close>
  (outcomes, decimal numbers, little-endian bytes). Libraries that are not part of the repository are parameters with
  their documented laws as locales: \<open>Gmp\<close> (\<open>mpn_*\<close>, locale \<open>gmp_mpn\<close>) and \<open>Mpz\<close> (\<open>mpz_*\<close>, locale
  \<open>gmp_mpz\<close>), each interpreted on executable reference functions; the reading of a little-endian number by
  \<open>mpz_import\<close>, the parser of JSON texts and the system calls are arguments of the functions that use them.

  Limb arithmetic (\<open>build/fr_raw_generic.cpp\<close>, \<open>build/fq_raw_generic.cpp\<close>): \<open>RawField\<close>, \<open>Montgomery\<close>,
  \<open>RawBits\<close>. The two files are generated from one template, so the routines are defined over a record of constants;
  the locale \<open>mont_field\<close> is what they rely on, interpreted for both primes in \<open>FieldTheorems\<close>.

  Tagged elements (\<open>build/fr_generic.cpp\<close>): \<open>GenericField\<close> and \<open>GenericLogic\<close> are the operations for
  every combination of short, long, normal and Montgomery operands; \<open>FieldValue\<close> says what an element denotes;
  \<open>FieldArith\<close>, \<open>FieldCompare\<close>, \<open>FieldBits\<close>, \<open>FieldInt\<close> prove the operations.

  Field classes (\<open>build/fr.cpp\<close>, \<open>build/fq.cpp\<close>): \<open>RawClass\<close>, \<open>RawClassCorrect\<close>. \<open>Primality\<close> with the
  certificates \<open>FqPrime\<close>, \<open>FrPrime\<close> proves that both moduli are prime, \<open>FqField\<close> and \<open>FrField\<close> are the
  fields as types.

  Files: \<open>BinFile\<close> (\<open>src/binfile_utils.cpp\<close>), \<open>Headers\<close> (\<open>src/zkey_utils.cpp\<close>, \<open>src/wtns_utils.cpp\<close>,
  \<open>src/fileloader.cpp\<close>).

  Curve (\<open>c/curve.cpp\<close>, \<open>c/naf.cpp\<close>, \<open>c/exp.hpp\<close>): \<open>Curve\<close> is the class on a store of points, \<open>CurveCorrect\<close> its
  formulas against the affine group of \<open>AffineCurve\<close> (with the proof of associativity), \<open>PointGroup\<close> the
  interface of a commutative group, \<open>Naf\<close> and \<open>Exp\<close> the scalar multiplication, \<open>CurveRuns\<close> programs of calls,
  \<open>G1\<close> the group of the prover. The locale \<open>base_field\<close> is what the template asks of a field and \<open>curve_field\<close>
  adds the constants of a curve; both are interpreted for \<open>RawFq\<close> and for \<open>F2Field\<close>.

  Threads (\<open>c/misc.hpp\<close>): \<open>ThreadPool\<close> (division of work, the queue, \<open>parallelFor\<close> for every schedule),
  \<open>ThreadWorker\<close> (one worker, its mutex and its condition variables).

  Multi-scalar multiplication (\<open>c/msm.hpp\<close>, \<open>c/msm.cpp\<close>): \<open>Msm\<close>, \<open>MsmDigits\<close>, \<open>MsmCorrect\<close>. Transform
  (\<open>c/fft.cpp\<close>): \<open>Fft\<close>, \<open>FftWords\<close>, \<open>FftCorrect\<close>, \<open>FftTransform\<close>, \<open>FftTables\<close>, \<open>FrFft\<close>, with the locales
  \<open>fft_field\<close>, \<open>fft_setup\<close> and \<open>fft_tables\<close>.

  Tower (\<open>c/f2field.cpp\<close>, \<open>c/f6field.cpp\<close>, \<open>c/f12field.cpp\<close>, \<open>c/splitparstr.cpp\<close>): \<open>F2Field\<close>,
  \<open>F6Field\<close>, \<open>F12Field\<close> and \<open>SplitParStr\<close> are the classes; \<open>Fq2Field\<close>, \<open>Fq6Field\<close>, \<open>Fq12Field\<close> are the extensions as
  types, fields by \<open>QPower\<close> and \<open>XiPower\<close>; \<open>TowerCorrect\<close> connects them through the locale \<open>tower\<close>. \<open>Engine\<close> (\<open>c/alt_bn128.hpp\<close>) puts
  the fields and the two groups together, locale \<open>engine_class\<close>.

  Verifier (\<open>src/groth16.cpp\<close>): \<open>Verifier\<close> is the class, \<open>FinalExp\<close> the final exponentiation, \<open>Pairing\<close> the ate pairing of
  the textbook, \<open>Miller\<close> the loop, \<open>Cusp\<close> a pair of points for the witnesses, \<open>VerifierCorrect\<close> the
  equation. Prover (\<open>src/groth16.cpp\<close>): \<open>Prover\<close>, \<open>ProverConstraints\<close>, \<open>ProverCorrect\<close>.

  Interfaces: \<open>Json\<close> (the values of \<open>depends/json\<close> that are used), \<open>ProofJson\<close> (proofs, keys and public inputs as JSON),
  \<open>CApi\<close> (\<open>src/prover.cpp\<close>, \<open>src/verifier.cpp\<close>), \<open>KeyFile\<close> (key and witness files as abstract contents).
  Server: \<open>FullProver\<close> (\<open>src/fullprover.cpp\<close>).

  The properties are in \<open>FieldTheorems\<close>, \<open>RawTheorems\<close>, \<open>FileTheorems\<close>, \<open>CurveTheorems\<close>, \<open>FftTheorems\<close>,
  \<open>PairingTheorems\<close>, \<open>ProverTheorems\<close>, \<open>ServerTheorems\<close>, \<open>ApiTheorems\<close> and \<open>SystemTheorems\<close>. They hold for
  every GMP that behaves as documented; their witnesses use the reference functions.
\<close>

section \<open>What is shown\<close>

text \<open>
  The whole prover (C1, C2): from the bytes of a key file and a witness file to \<open>PROVER_OK\<close> and the texts in the
  buffers; the three points of the proof are those of the Groth16 scheme. The quotient polynomial appears by its values
  on the coset. The whole verifier (C3, C4): the code that is returned says whether the product of the four
  reduced pairings is one. Below them: the Miller loop is the textbook loop up to a factor that the final exponentiation removes (C5, C6), the
  tower is a field with its Frobenius maps (C7), the multi-scalar multiplication and the transform compute what they
  should for any threads and schedule (C8, C9, C17), curve programs refine the group for every aliasing (C10, C15, C16, C18, C19), the
  limb and tagged arithmetic computes in the field (C11 to C14, C31 to C38).

  Threads and server: parallel loops run every job exactly once and end (C20, C21), the worker protocol (C28) and the server
  (C26, C27). Files: parsing is memory safe and inverse to the format (C22 to C25), with one
  hole (C39). Texts: sizes and round trip (C29, C30).

  Several properties state defects that the model exposes: section sizes whose end wraps are accepted (C39 says exactly which sizes
  are), a left shift in place by 64 to 127 bits that overwrites its own source (C36), an addition in place that uses an
  operand unconverted (C40; C35 says in which calls in place the bitwise operators do not), a server that hangs on a second request (C27), a destructor that can miss its notification
  (C28), an announced size that is one byte short without public inputs (C29). Lemmas that are not properties state others:
  \<open>loader_double_close\<close>, \<open>toMontgomery_stale_short\<close>, \<open>toInt_ignores_high_limbs\<close>, \<open>neg_affine_zero_wrong\<close>,
  \<open>toRprBE_truncates\<close>, \<open>split_diverges\<close>, \<open>verify_missing_member_undefined\<close>, \<open>create_zkey_file_unmaps\<close>.
\<close>

section \<open>Bounds\<close>

text \<open>
  No fuel is used: loops are structural recursion, functions with a measure, or \<open>partial_function (option)\<close> with a
  proof that a value is returned. Bounds in the hypotheses are those at which the code itself wraps or truncates: files below
  \<open>2^63\<close> bytes, fewer than \<open>2^31\<close> variables and coefficients (loop counters are C integers), fewer than \<open>2^27 - 1\<close> public
  inputs (their number times 32 is a 32-bit product), domains up to \<open>2^27\<close> (the scalar field has roots of
  unity of order \<open>2^28\<close>), texts below \<open>2^31\<close> characters in \<open>SplitParStr\<close>. A parallel loop follows any
  schedule (\<open>schedule\<close>: the order of the jobs, with their threads, of a complete run of the pool); the locked additions of the
  prover happen in any order.

  The properties of pairings exclude pairs of points on which a tangent or chord of the loop is vertical (\<open>pairable\<close>): the
  code divides by nothing there but the textbook loop would. For points of order \<open>r\<close> this does not occur, but the
  order of points is not part of the model. That the ate pairing is bilinear, and hence that the verifier accepts what the prover
  makes from a satisfying witness, is mathematics about the curve and is not proved here.
\<close>

section \<open>Not modelled\<close>

text \<open>
  The command line programs, the routes of the server (\<open>src/main_*.cpp\<close>, \<open>src/proverapi.cpp\<close>) and the
  construction of its table of circuits are input and output around the modelled functions; the logger and the random generator likewise
  (random bytes are arguments). Test programs. The assembly versions of the field arithmetic (\<open>build/*.asm\<close>). The files
  \<open>build/fq_*.cpp\<close> are the text of \<open>build/fr_*.cpp\<close> with other constants and are covered by the same definitions. In
  \<open>c/\<close>: older routines that the prover does not call (\<open>multiexp\<close>, \<open>fft_old\<close>, \<open>exp2\<close>) and older copies of the file
  readers. The runtime for witness calculators (\<open>depends/circom_runtime\<close>). The vendored libraries: of the JSON library the
  values, access and compact printing of ASCII strings are modelled, its parser is a parameter; Pistache and GMP are not read. The
  contracts, circuits and clients of the repository in Cairo, circom, Rust, Python and JavaScript are other programs.
\<close>

end
